(* ===== verification/Prelude.thy ===== *)
theory Prelude
  imports Main "HOL-Library.Multiset" "HOL-Library.Word"
begin

text \<open>
  Generic material shared by every component: the error values of
  \<^verbatim>\<open>internal/platform/apperr\<close>, results that are either an error or a value, 64-bit
  integer arithmetic written out on \<^typ>\<open>int\<close>, truncated division, and the stable sort that
  models Go's \<^verbatim>\<open>sort.Slice\<close> and \<^verbatim>\<open>sort.SliceStable\<close>, with the locale
  of comparators it is correct for.
\<close>

section \<open>Lemma collections\<close>

named_theorems go_arith \<open>facts about 64-bit wrap-around and truncated division\<close>
named_theorems result_simps \<open>inversion of results that are an error or a value\<close>

section \<open>Errors\<close>

text \<open>
  \<^verbatim>\<open>apperr\<close> has five kinds, matched with \<^verbatim>\<open>errors.Is\<close>, and field errors that match
  the validation kind. Messages are not modelled; the field a violation names is. The
  sentinel errors of \<^verbatim>\<open>money\<close> are a kind each. \<open>Joined\<close> is
  \<^verbatim>\<open>errors.Join\<close>, \<open>Panic\<close> a Go panic, \<open>Verification\<close> is
  \<^verbatim>\<open>auction.ErrVerification\<close>, and \<open>Unauthorized\<close> is
  \<^verbatim>\<open>httpserver.ErrUnauthorized\<close>. \<open>External\<close> is an error value that a
  dependency outside the model returned.
\<close>

datatype app_error =
    Invalid (err_field: string)
  | ErrValidation
  | ErrConflict
  | ErrNotFound
  | ErrForbidden
  | ErrUnavailable
  | Unauthorized
  | ErrInvalidCurrency
  | ErrCurrencyMismatch
  | ErrOverflow
  | ErrPrecisionLoss
  | ErrDivideByZero
  | ErrSyntax
  | Verification
  | Joined "app_error list"
  | External string
  | Panic

type_synonym 'a result = "app_error + 'a"

fun is_validation :: "app_error \<Rightarrow> bool" where
  "is_validation (Invalid f) = True"
| "is_validation ErrValidation = True"
| "is_validation (Joined es) = list_ex is_validation es"
| "is_validation _ = False"

fun is_conflict :: "app_error \<Rightarrow> bool" where
  "is_conflict ErrConflict = True"
| "is_conflict (Joined es) = list_ex is_conflict es"
| "is_conflict _ = False"

fun is_not_found :: "app_error \<Rightarrow> bool" where
  "is_not_found ErrNotFound = True"
| "is_not_found (Joined es) = list_ex is_not_found es"
| "is_not_found _ = False"

fun is_forbidden :: "app_error \<Rightarrow> bool" where
  "is_forbidden ErrForbidden = True"
| "is_forbidden (Joined es) = list_ex is_forbidden es"
| "is_forbidden _ = False"

fun is_unavailable :: "app_error \<Rightarrow> bool" where
  "is_unavailable ErrUnavailable = True"
| "is_unavailable (Joined es) = list_ex is_unavailable es"
| "is_unavailable _ = False"

text \<open>The field violations inside an error, in the order they were reported.\<close>

fun error_fields :: "app_error \<Rightarrow> string list" where
  "error_fields (Invalid f) = [f]"
| "error_fields (Joined es) = concat (map error_fields es)"
| "error_fields _ = []"

section \<open>Results\<close>

definition and_then :: "'e + 'a \<Rightarrow> ('a \<Rightarrow> 'e + 'b) \<Rightarrow> 'e + 'b" where
  "and_then r f = (case r of Inl e \<Rightarrow> Inl e | Inr x \<Rightarrow> f x)"

lemma and_then_simps [simp]:
  "and_then (Inl e) f = Inl e"
  "and_then (Inr x) f = f x"
  by (simp_all add: and_then_def)

lemma and_then_Inr_iff [result_simps]:
  "and_then r f = Inr y \<longleftrightarrow> (\<exists>x. r = Inr x \<and> f x = Inr y)"
  by (cases r) auto

lemma and_then_Inl_iff [result_simps]:
  "and_then r f = Inl e \<longleftrightarrow> r = Inl e \<or> (\<exists>x. r = Inr x \<and> f x = Inl e)"
  by (cases r) auto

lemma if_Inr_iff [result_simps]:
  "(if c then Inl e else r) = Inr y \<longleftrightarrow> \<not> c \<and> r = Inr y"
  by simp

text \<open>
  The pattern of every constructor of the program: all violations are collected, joined,
  and returned together.
\<close>

definition violation :: "bool \<Rightarrow> app_error \<Rightarrow> app_error list" where
  "violation c e = (if c then [e] else [])"

definition checked :: "app_error list \<Rightarrow> 'a result \<Rightarrow> 'a result" where
  "checked vs r = (if vs = [] then r else Inl (Joined vs))"

lemma violation_Nil [simp]: "violation c e = [] \<longleftrightarrow> \<not> c"
  by (simp add: violation_def)

lemma checked_Inr_iff [result_simps]: "checked vs r = Inr y \<longleftrightarrow> vs = [] \<and> r = Inr y"
  by (simp add: checked_def)

fun traverse :: "('a \<Rightarrow> 'e + 'b) \<Rightarrow> 'a list \<Rightarrow> 'e + 'b list" where
  "traverse f [] = Inr []"
| "traverse f (x # xs) = and_then (f x) (\<lambda>y. and_then (traverse f xs) (\<lambda>ys. Inr (y # ys)))"

lemma traverse_Inr_iff [result_simps]:
  "traverse f xs = Inr ys \<longleftrightarrow> list_all2 (\<lambda>x y. f x = Inr y) xs ys"
proof (induction xs arbitrary: ys)
  case Nil
  then show ?case by auto
next
  case (Cons x xs)
  then show ?case by (cases ys) (auto simp: result_simps)
qed

fun fold_result :: "('a \<Rightarrow> 's \<Rightarrow> 'e + 's) \<Rightarrow> 'a list \<Rightarrow> 's \<Rightarrow> 'e + 's" where
  "fold_result f [] s = Inr s"
| "fold_result f (x # xs) s = and_then (f x s) (fold_result f xs)"

lemma fold_result_append:
  "fold_result f (xs @ ys) s = and_then (fold_result f xs s) (fold_result f ys)"
proof (induction xs arbitrary: s)
  case Nil
  then show ?case by simp
next
  case (Cons x xs)
  then show ?case by (cases "f x s") simp_all
qed

lemma fold_result_invariant:
  assumes "fold_result f xs s = Inr t" and "P s"
    and "\<And>x s t. x \<in> set xs \<Longrightarrow> P s \<Longrightarrow> f x s = Inr t \<Longrightarrow> P t"
  shows "P t"
  using assms
proof (induction xs arbitrary: s)
  case Nil
  then show ?case by simp
next
  case (Cons x xs)
  from Cons.prems(1) obtain u where u: "f x s = Inr u" "fold_result f xs u = Inr t"
    by (auto simp: result_simps)
  with Cons.prems have "P u" by (meson list.set_intros(1))
  then show ?case using Cons.IH [OF u(2)] Cons.prems(3) by (meson list.set_intros(2))
qed

lemma fold_result_ok:
  assumes "\<And>x s. x \<in> set xs \<Longrightarrow> P s \<Longrightarrow> \<exists>t. f x s = Inr t \<and> P t" and "P s"
  shows "\<exists>t. fold_result f xs s = Inr t \<and> P t"
  using assms
proof (induction xs arbitrary: s)
  case Nil
  then show ?case by simp
next
  case (Cons x xs)
  obtain u where u: "f x s = Inr u" "P u" using Cons.prems by (meson list.set_intros(1))
  have "\<exists>t. fold_result f xs u = Inr t \<and> P t"
    by (rule Cons.IH [OF _ u(2)]) (simp add: Cons.prems(1))
  then show ?case using u(1) by simp
qed

lemma fold_enumerate_invariant:
  assumes "fold_result f (enumerate n ys) s = Inr t" and "P xs s" and "length xs = n"
    and "\<And>xs x s t. x \<in> set ys \<Longrightarrow> P xs s \<Longrightarrow> f (length xs, x) s = Inr t \<Longrightarrow> P (xs @ [x]) t"
  shows "P (xs @ ys) t"
  using assms
proof (induction ys arbitrary: n xs s)
  case Nil
  then show ?case by simp
next
  case (Cons y ys)
  from Cons.prems(1) obtain u where u: "f (n, y) s = Inr u" "fold_result f (enumerate (Suc n) ys) u = Inr t"
    by (auto simp: result_simps)
  have "P (xs @ [y]) u" using Cons.prems(2-4) u(1) by simp
  then have "P ((xs @ [y]) @ ys) t"
    using Cons.prems(3,4) by (intro Cons.IH [OF u(2)]) simp_all
  then show ?case by simp
qed

lemma fold_result_all:
  assumes "fold_result f xs () = Inr ()" and "x \<in> set xs" shows "f x () = Inr ()"
  using assms by (induction xs) (auto simp: result_simps)

text \<open>Reading a slice at an index: Go panics out of range.\<close>

definition index_at :: "'a list \<Rightarrow> nat \<Rightarrow> 'a result" where
  "index_at xs i = (if i < length xs then Inr (xs ! i) else Inl Panic)"

lemma index_at_Inr [result_simps]: "index_at xs i = Inr x \<longleftrightarrow> i < length xs \<and> x = xs ! i"
  by (auto simp: index_at_def)

lemma index_at_ok: "i < length xs \<Longrightarrow> index_at xs i = Inr (xs ! i)"
  by (simp add: index_at_def)

section \<open>64-bit integers\<close>

text \<open>Go's \<^verbatim>\<open>int64\<close> wraps around; the wrap is written out on \<^typ>\<open>int\<close>.\<close>

definition min64 :: int where "min64 = - (2 ^ 63)"

definition max64 :: int where "max64 = 2 ^ 63 - 1"

definition in64 :: "int \<Rightarrow> bool" where
  "in64 x \<longleftrightarrow> min64 \<le> x \<and> x \<le> max64"

definition wrap64 :: "int \<Rightarrow> int" where
  "wrap64 x = (x + 2 ^ 63) mod 2 ^ 64 - 2 ^ 63"

lemma wrap64_id [go_arith]: "in64 x \<Longrightarrow> wrap64 x = x"
  by (simp add: in64_def min64_def max64_def wrap64_def)

lemma in64_wrap64 [simp]: "in64 (wrap64 x)"
proof -
  have "0 \<le> (x + 2 ^ 63) mod 2 ^ 64 \<and> (x + 2 ^ 63) mod 2 ^ 64 < 2 ^ 64"
    by (intro conjI pos_mod_sign pos_mod_bound) simp_all
  then show ?thesis by (simp add: in64_def min64_def max64_def wrap64_def)
qed

lemma wrap64_eq_iff: "wrap64 x = x \<longleftrightarrow> in64 x"
  by (metis in64_wrap64 wrap64_id)

lemma wrap64_above: "max64 < x \<Longrightarrow> x \<le> 2 * max64 + 1 \<Longrightarrow> wrap64 x = x - 2 ^ 64"
proof -
  assume a: "max64 < x" "x \<le> 2 * max64 + 1"
  have "(x + 2 ^ 63) mod 2 ^ 64 = (x + 2 ^ 63 - 2 ^ 64) mod 2 ^ 64"
    using minus_mod_self2 [of "x + 2 ^ 63" "2 ^ 64"] by simp
  also have "\<dots> = x + 2 ^ 63 - 2 ^ 64"
    using a by (intro mod_pos_pos_trivial) (simp_all add: max64_def)
  finally show ?thesis by (simp add: wrap64_def)
qed

lemma wrap64_below: "x < min64 \<Longrightarrow> 2 * min64 \<le> x \<Longrightarrow> wrap64 x = x + 2 ^ 64"
proof -
  assume a: "x < min64" "2 * min64 \<le> x"
  have "(x + 2 ^ 63) mod 2 ^ 64 = (x + 2 ^ 63 + 2 ^ 64) mod 2 ^ 64"
    using mod_add_self2 [of "x + 2 ^ 63" "2 ^ 64"] by simp
  also have "\<dots> = x + 2 ^ 63 + 2 ^ 64"
    using a by (intro mod_pos_pos_trivial) (simp_all add: min64_def)
  finally show ?thesis by (simp add: wrap64_def)
qed

lemma wrap64_add: "wrap64 (wrap64 x + wrap64 y) = wrap64 (x + y)"
proof -
  have "(wrap64 x + wrap64 y + 2 ^ 63) mod 2 ^ 64 = (x + y + 2 ^ 63) mod 2 ^ 64"
  proof -
    have "wrap64 x mod 2 ^ 64 = x mod 2 ^ 64" for x
      by (simp add: wrap64_def mod_simps)
    then show ?thesis by (metis mod_add_cong)
  qed
  then show ?thesis by (simp add: wrap64_def)
qed

text \<open>The written-out wrap is the signed reading of a 64-bit word.\<close>

lemma wrap64_word: "wrap64 x = sint (word_of_int x :: 64 word)"
proof -
  have "sint (word_of_int x :: 64 word) = signed_take_bit 63 x"
    by (simp add: sint_sbintrunc')
  also have "\<dots> = wrap64 x"
    by (simp add: wrap64_def signed_take_bit_eq_take_bit_shift take_bit_eq_mod)
  finally show ?thesis by simp
qed

text \<open>Go's integer division truncates towards zero.\<close>

definition go_quot :: "int \<Rightarrow> int \<Rightarrow> int" where
  "go_quot a b = (let q = \<bar>a\<bar> div \<bar>b\<bar> in if (a < 0) \<noteq> (b < 0) then - q else q)"

lemma go_quot_nonneg [go_arith]: "0 \<le> a \<Longrightarrow> 0 < b \<Longrightarrow> go_quot a b = a div b"
  by (simp add: go_quot_def Let_def)

section \<open>Sorting\<close>

text \<open>
  \<^verbatim>\<open>sort.SliceStable\<close> is modelled by stable insertion with the code's comparator.
  \<^verbatim>\<open>sort.Slice\<close> promises only a sorted permutation; where no two elements compare
  equal there is exactly one, which \<open>sorted_perm_unique\<close> states, so the same function models
  it there.
\<close>

fun insort_by :: "('a \<Rightarrow> 'a \<Rightarrow> bool) \<Rightarrow> 'a \<Rightarrow> 'a list \<Rightarrow> 'a list" where
  "insort_by lt x [] = [x]"
| "insort_by lt x (y # ys) = (if lt y x then y # insort_by lt x ys else x # y # ys)"

definition sort_by :: "('a \<Rightarrow> 'a \<Rightarrow> bool) \<Rightarrow> 'a list \<Rightarrow> 'a list" where
  "sort_by lt xs = foldr (insort_by lt) xs []"

lemma mset_insort_by [simp]: "mset (insort_by lt x xs) = add_mset x (mset xs)"
  by (induction xs) auto

lemma mset_sort_by [simp]: "mset (sort_by lt xs) = mset xs"
  unfolding sort_by_def by (induction xs) auto

lemma set_sort_by [simp]: "set (sort_by lt xs) = set xs"
  by (metis mset_sort_by set_mset_mset)

lemma length_sort_by [simp]: "length (sort_by lt xs) = length xs"
  by (metis mset_sort_by size_mset)

lemma distinct_sort_by [simp]: "distinct (sort_by lt xs) = distinct xs"
  by (metis mset_sort_by mset_eq_imp_distinct_iff)

lemma sort_by_simps [simp]:
  "sort_by lt [] = []"
  "sort_by lt (x # xs) = insort_by lt x (sort_by lt xs)"
  by (simp_all add: sort_by_def)

lemma sorted_perm_unique:
  assumes "sorted_wrt P xs" and "sorted_wrt P ys" and "mset xs = mset ys"
    and "\<And>x y. x \<in> set xs \<Longrightarrow> y \<in> set xs \<Longrightarrow> P x y \<Longrightarrow> P y x \<Longrightarrow> x = y"
  shows "xs = ys"
  using assms
proof (induction xs arbitrary: ys)
  case Nil
  then show ?case by simp
next
  case (Cons x xs)
  obtain y ys' where ys: "ys = y # ys'"
    using Cons.prems(3) by (cases ys) auto
  have s: "set (x # xs) = set ys" using Cons.prems(3) by (metis set_mset_mset)
  have "x = y"
  proof (rule ccontr)
    assume "x \<noteq> y"
    with s ys have "x \<in> set ys'" "y \<in> set xs" by auto
    then have "P x y" "P y x" using Cons.prems(1,2) ys by auto
    moreover have "x \<in> set (x # xs)" "y \<in> set (x # xs)" using \<open>y \<in> set xs\<close> by auto
    ultimately have "x = y" by (metis Cons.prems(4))
    with \<open>x \<noteq> y\<close> show False ..
  qed
  then have "mset xs = mset ys'" using Cons.prems(3) ys by simp
  moreover have "sorted_wrt P xs" "sorted_wrt P ys'" using Cons.prems(1,2) ys by auto
  ultimately have "xs = ys'" using Cons.IH Cons.prems(4) by (meson list.set_intros(2))
  with \<open>x = y\<close> ys show ?case by simp
qed

lemma map_sort_by: "map f (sort_by (\<lambda>x y. lt (f x) (f y)) xs) = sort_by lt (map f xs)"
proof (induction xs)
  case Nil
  then show ?case by simp
next
  case (Cons x xs)
  have "map f (insort_by (\<lambda>x y. lt (f x) (f y)) x ys) = insort_by lt (f x) (map f ys)" for ys
    by (induction ys) auto
  then show ?case using Cons by simp
qed

lemma sort_by_comparator_cong:
  assumes "\<And>x y. x \<in> set xs \<Longrightarrow> y \<in> set xs \<Longrightarrow> lt x y = lt' x y"
  shows "sort_by lt xs = sort_by lt' xs"
  using assms
proof (induction xs)
  case Nil
  then show ?case by simp
next
  case (Cons x xs)
  have "insort_by lt x ys = insort_by lt' x ys" if "set ys \<subseteq> set xs" for ys
    using that Cons.prems by (induction ys) auto
  then show ?case using Cons by simp
qed

locale sort_order =
  fixes lt :: "'a \<Rightarrow> 'a \<Rightarrow> bool"
  assumes asym: "lt x y \<Longrightarrow> \<not> lt y x"
    and neg_trans: "\<not> lt x y \<Longrightarrow> \<not> lt y z \<Longrightarrow> \<not> lt x z"
begin

lemma sorted_insort_by:
  "sorted_wrt (\<lambda>x y. \<not> lt y x) xs \<Longrightarrow> sorted_wrt (\<lambda>x y. \<not> lt y x) (insort_by lt x xs)"
proof (induction xs)
  case Nil
  then show ?case by simp
next
  case (Cons y ys)
  have set_ins: "set (insort_by lt x ys) = insert x (set ys)"
    by (metis mset_insort_by set_mset_add_mset_insert set_mset_mset)
  show ?case
  proof (cases "lt y x")
    case True
    then show ?thesis using Cons asym [OF True] by (auto simp: set_ins)
  next
    case False
    then show ?thesis using Cons.prems neg_trans by auto
  qed
qed

lemma sorted_sort_by: "sorted_wrt (\<lambda>x y. \<not> lt y x) (sort_by lt xs)"
  by (induction xs) (auto intro: sorted_insort_by)

lemma sort_by_cong:
  assumes "mset xs = mset ys"
    and "\<And>x y. x \<in> set xs \<Longrightarrow> y \<in> set xs \<Longrightarrow> \<not> lt x y \<Longrightarrow> \<not> lt y x \<Longrightarrow> x = y"
  shows "sort_by lt xs = sort_by lt ys"
  by (rule sorted_perm_unique [OF sorted_sort_by sorted_sort_by]) (auto simp: assms)

lemma sort_by_sorted: "sorted_wrt (\<lambda>x y. \<not> lt y x) xs \<Longrightarrow> sort_by lt xs = xs"
proof (induction xs)
  case Nil
  then show ?case by simp
next
  case (Cons x xs)
  then show ?case by (cases xs) auto
qed

end

text \<open>The comparators of the program compare a key, then break ties with a second one.\<close>

lemma sort_order_key: "sort_order (\<lambda>x y. (f x :: 'b :: linorder) < f y)"
  by unfold_locales auto

lemma sort_order_lex:
  "sort_order (\<lambda>x y. if (f x :: 'b :: linorder) \<noteq> f y then f x < f y
     else (g x :: 'c :: linorder) < g y)"
  by unfold_locales (auto split: if_splits)

section \<open>Lists and maps\<close>

lemma sum_list_map_filter_le:
  "(\<And>x. x \<in> set xs \<Longrightarrow> (0::int) \<le> f x) \<Longrightarrow> sum_list (map f (filter P xs)) \<le> sum_list (map f xs)"
  by (induction xs) (auto intro: add_increasing)

end
