(* ===== verification/Go_Strings.thy ===== *)
theory Go_Strings
  imports Prelude "HOL-Library.List_Lexorder" "HOL-Library.Char_ord" "HOL-Library.Sublist"
begin

text \<open>
  The parts of Go's \<^verbatim>\<open>strings\<close>, \<^verbatim>\<open>strconv\<close>, \<^verbatim>\<open>encoding/hex\<close> and
  \<^verbatim>\<open>regexp\<close> the program uses. A Go string is its UTF-8 bytes, so \<^typ>\<open>string\<close>
  (a list of 8-bit characters) is exact, \<^term>\<open>length\<close> is \<^verbatim>\<open>len\<close>, and \<open><\<close>
  on strings is Go's byte-wise order. \<open>to_lower\<close> maps the ASCII letters only; every string
  whose lower case decides a branch of the modelled code is checked to be ASCII hexadecimal
  first.
\<close>

section \<open>White space\<close>

text \<open>The UTF-8 encodings of the code points \<^verbatim>\<open>unicode.IsSpace\<close> accepts.\<close>

definition white_space :: "string list" where
  "white_space =
    [[CHR 0x09], [CHR 0x0A], [CHR 0x0B], [CHR 0x0C], [CHR 0x0D], [CHR 0x20],
     [CHR 0xC2, CHR 0x85], [CHR 0xC2, CHR 0xA0], [CHR 0xE1, CHR 0x9A, CHR 0x80],
     [CHR 0xE2, CHR 0x80, CHR 0x80], [CHR 0xE2, CHR 0x80, CHR 0x81], [CHR 0xE2, CHR 0x80, CHR 0x82],
     [CHR 0xE2, CHR 0x80, CHR 0x83], [CHR 0xE2, CHR 0x80, CHR 0x84], [CHR 0xE2, CHR 0x80, CHR 0x85],
     [CHR 0xE2, CHR 0x80, CHR 0x86], [CHR 0xE2, CHR 0x80, CHR 0x87], [CHR 0xE2, CHR 0x80, CHR 0x88],
     [CHR 0xE2, CHR 0x80, CHR 0x89], [CHR 0xE2, CHR 0x80, CHR 0x8A], [CHR 0xE2, CHR 0x80, CHR 0xA8],
     [CHR 0xE2, CHR 0x80, CHR 0xA9], [CHR 0xE2, CHR 0x80, CHR 0xAF], [CHR 0xE2, CHR 0x81, CHR 0x9F],
     [CHR 0xE3, CHR 0x80, CHR 0x80]]"

lemma white_space_nonempty: "[] \<notin> set white_space"
  by (simp add: white_space_def)

definition starts_with_any :: "string list \<Rightarrow> string \<Rightarrow> string option" where
  "starts_with_any ps s = find (\<lambda>p. take (length p) s = p) (filter (\<lambda>p. p \<noteq> []) ps)"

lemma starts_with_any_Some:
  "starts_with_any ps s = Some p \<Longrightarrow> p \<in> set ps \<and> p \<noteq> [] \<and> take (length p) s = p"
  unfolding starts_with_any_def find_Some_iff using nth_mem [of _ "filter (\<lambda>p. p \<noteq> []) ps"] by auto

lemma starts_with_any_None:
  "starts_with_any ps s = None \<longleftrightarrow> (\<forall>p \<in> set ps. p \<noteq> [] \<longrightarrow> take (length p) s \<noteq> p)"
  by (auto simp: starts_with_any_def find_None_iff)

function trim_prefixes :: "string list \<Rightarrow> string \<Rightarrow> string" where
  "trim_prefixes ps s =
     (case starts_with_any ps s of None \<Rightarrow> s | Some p \<Rightarrow> trim_prefixes ps (drop (length p) s))"
  by pat_completeness auto
termination
proof (relation "measure (\<lambda>(ps, s). length s)")
  fix ps s p
  assume "starts_with_any ps s = Some (p :: string)"
  then have "p \<noteq> []" "take (length p) s = p" by (auto dest: starts_with_any_Some)
  then show "((ps, drop (length p) s), ps, s) \<in> measure (\<lambda>(ps, s). length s)"
    by (cases s) auto
qed simp

declare trim_prefixes.simps [simp del]

lemma trim_prefixes_stop: "starts_with_any ps (trim_prefixes ps s) = None"
  by (induction ps s rule: trim_prefixes.induct)
    (subst trim_prefixes.simps, auto split: option.splits)

lemma trim_prefixes_id: "starts_with_any ps s = None \<Longrightarrow> trim_prefixes ps s = s"
  by (subst trim_prefixes.simps) simp

lemma trim_prefixes_suffix: "\<exists>u. s = u @ trim_prefixes ps s"
proof (induction ps s rule: trim_prefixes.induct)
  case (1 ps s)
  show ?case
  proof (cases "starts_with_any ps s")
    case None
    then show ?thesis by (subst trim_prefixes.simps) simp
  next
    case (Some p)
    then obtain u where "drop (length p) s = u @ trim_prefixes ps (drop (length p) s)"
      using 1 by blast
    then have "s = (take (length p) s @ u) @ trim_prefixes ps (drop (length p) s)"
      by (metis append_assoc append_take_drop_id)
    moreover have "trim_prefixes ps s = trim_prefixes ps (drop (length p) s)"
      using Some by (subst trim_prefixes.simps) simp
    ultimately show ?thesis by metis
  qed
qed

text \<open>\<^verbatim>\<open>strings.TrimSpace\<close>: leading white space, then trailing white space.\<close>

definition trim_space :: "string \<Rightarrow> string" where
  "trim_space s =
     rev (trim_prefixes (map rev white_space) (rev (trim_prefixes white_space s)))"

lemma trim_space_prefix:
  "\<exists>u. trim_prefixes white_space s = trim_space s @ u"
proof -
  obtain u where "rev (trim_prefixes white_space s)
      = u @ trim_prefixes (map rev white_space) (rev (trim_prefixes white_space s))"
    using trim_prefixes_suffix by metis
  then have "trim_prefixes white_space s = trim_space s @ rev u"
    unfolding trim_space_def by (metis rev_append rev_rev_ident)
  then show ?thesis by blast
qed

lemma trim_space_idem [simp]: "trim_space (trim_space s) = trim_space s"
proof -
  let ?t = "trim_prefixes white_space s"
  obtain u where u: "?t = trim_space s @ u" using trim_space_prefix by blast
  have "starts_with_any white_space (trim_space s) = None"
    unfolding starts_with_any_None
  proof (intro ballI impI notI)
    fix p assume p: "p \<in> set white_space" "p \<noteq> []" "take (length p) (trim_space s) = p"
    then have "length p \<le> length (trim_space s)"
      by (metis length_take min.absorb_iff2 min.commute)
    then have "take (length p) ?t = p" using p(3) u by simp
    then show False
      using trim_prefixes_stop [of white_space s] p by (auto simp: starts_with_any_None)
  qed
  then have "trim_prefixes white_space (trim_space s) = trim_space s"
    by (rule trim_prefixes_id)
  moreover have "starts_with_any (map rev white_space) (rev (trim_space s)) = None"
    unfolding trim_space_def by (simp add: trim_prefixes_stop)
  ultimately show ?thesis
    by (subst trim_space_def) (simp add: trim_prefixes_id)
qed

lemma trim_space_Nil [simp]: "trim_space [] = []"
  by (simp add: trim_space_def trim_prefixes_id starts_with_any_None)

lemma trim_space_sub: "\<exists>u v. s = u @ trim_space s @ v"
  using trim_space_prefix [of s] trim_prefixes_suffix [of s white_space] by metis

lemma set_trim_space: "set (trim_space s) \<subseteq> set s"
proof -
  obtain u v where "s = u @ trim_space s @ v" using trim_space_sub by blast
  then have "set s = set u \<union> set (trim_space s) \<union> set v" by (metis set_append sup_assoc)
  then show ?thesis by blast
qed

lemma trim_space_solid:
  assumes "\<forall>c \<in> set s. \<forall>p \<in> set white_space. c \<notin> set p" shows "trim_space s = s"
proof -
  have solid: "starts_with_any ps t = None"
    if t: "set t \<subseteq> set s" and ps: "set ps \<subseteq> set white_space \<union> rev ` set white_space" for ps t
    unfolding starts_with_any_None
  proof (intro ballI impI notI)
    fix p assume p: "p \<in> set ps" "p \<noteq> []" "take (length p) t = p"
    then obtain c where "c \<in> set p" "c \<in> set t" by (metis hd_in_set in_set_takeD)
    moreover obtain q where "q \<in> set white_space" "set p = set q" using p(1) ps by force
    ultimately show False using assms t by blast
  qed
  have "trim_prefixes white_space s = s" by (simp add: trim_prefixes_id solid)
  moreover have "trim_prefixes (map rev white_space) (rev s) = rev s"
    by (simp add: trim_prefixes_id solid)
  ultimately show ?thesis by (simp add: trim_space_def)
qed

text \<open>Visible ASCII characters are never trimmed.\<close>

definition visible_char :: "char \<Rightarrow> bool" where
  "visible_char c \<longleftrightarrow> CHR ''!'' \<le> c \<and> c \<le> CHR ''~''"

lemma trim_space_visible:
  assumes "list_all visible_char s" shows "trim_space s = s"
proof -
  have "\<not> visible_char c" if "c \<in> set (concat white_space)" for c
    using that unfolding white_space_def by (auto simp: visible_char_def less_eq_char_def)
  then show ?thesis using assms by (intro trim_space_solid) (fastforce simp: list_all_iff)
qed

lemma length_trim_space_le: "length (trim_space s) \<le> length s"
proof -
  obtain u where "trim_prefixes white_space s = trim_space s @ u"
    using trim_space_prefix by blast
  moreover obtain v where "s = v @ trim_prefixes white_space s"
    using trim_prefixes_suffix by blast
  ultimately show ?thesis by (metis le_add2 length_append le_add1 le_trans)
qed

section \<open>Case and character classes\<close>

definition lower_char :: "char \<Rightarrow> char" where
  "lower_char c = (if CHR ''A'' \<le> c \<and> c \<le> CHR ''Z'' then char_of (of_char c + 32 :: nat) else c)"

definition to_lower :: "string \<Rightarrow> string" where
  "to_lower s = map lower_char s"

definition upper_char :: "char \<Rightarrow> char" where
  "upper_char c = (if CHR ''a'' \<le> c \<and> c \<le> CHR ''z'' then char_of (of_char c - 32 :: nat) else c)"

definition to_upper :: "string \<Rightarrow> string" where
  "to_upper s = map upper_char s"

lemma length_to_lower [simp]: "length (to_lower s) = length s"
  by (simp add: to_lower_def)

lemma lower_char_idem [simp]: "lower_char (lower_char c) = lower_char c"
proof (cases "CHR ''A'' \<le> c \<and> c \<le> CHR ''Z''")
  case True
  then have b: "65 \<le> (of_char c :: nat)" "(of_char c :: nat) \<le> 90"
    by (simp_all add: less_eq_char_def)
  then have "(of_char (char_of (of_char c + 32 :: nat)) :: nat) = of_char c + 32"
    by (simp add: of_char_of)
  then show ?thesis using b True by (simp add: lower_char_def less_eq_char_def)
next
  case False
  then have "lower_char c = c" by (auto simp: lower_char_def)
  then show ?thesis by simp
qed

lemma to_lower_idem [simp]: "to_lower (to_lower s) = to_lower s"
  by (simp add: to_lower_def)

lemma to_lower_append [simp]: "to_lower (s @ t) = to_lower s @ to_lower t"
  by (simp add: to_lower_def)

definition lower_hex_char :: "char \<Rightarrow> bool" where
  "lower_hex_char c \<longleftrightarrow> (CHR ''0'' \<le> c \<and> c \<le> CHR ''9'') \<or> (CHR ''a'' \<le> c \<and> c \<le> CHR ''f'')"

definition hex_char :: "char \<Rightarrow> bool" where
  "hex_char c \<longleftrightarrow> lower_hex_char c \<or> (CHR ''A'' \<le> c \<and> c \<le> CHR ''F'')"

text \<open>
  The regular expressions \<^verbatim>\<open>^[0-9a-f]{64}$\<close>, \<^verbatim>\<open>^0x[0-9a-f]{64}$\<close> and
  \<^verbatim>\<open>^0x[0-9a-fA-F]{40}$\<close>.
\<close>

definition digest_hex :: "string \<Rightarrow> bool" where
  "digest_hex s \<longleftrightarrow> length s = 64 \<and> list_all lower_hex_char s"

definition commitment_hex :: "string \<Rightarrow> bool" where
  "commitment_hex s \<longleftrightarrow> length s = 66 \<and> take 2 s = ''0x'' \<and> list_all lower_hex_char (drop 2 s)"

definition wallet_hex :: "string \<Rightarrow> bool" where
  "wallet_hex s \<longleftrightarrow> length s = 42 \<and> take 2 s = ''0x'' \<and> list_all hex_char (drop 2 s)"

lemma lower_hex_trim:
  assumes "\<forall>c \<in> set s. lower_hex_char c \<or> c = CHR ''x''"
  shows "trim_space s = s" and "to_lower s = s"
proof -
  have "\<not> lower_hex_char c \<and> c \<noteq> CHR ''x''" if "c \<in> set (concat white_space)" for c
    using that unfolding white_space_def
    by (auto simp: lower_hex_char_def less_eq_char_def)
  then show "trim_space s = s" using assms by (intro trim_space_solid) fastforce
  have "lower_char c = c" if "lower_hex_char c \<or> c = CHR ''x''" for c
    using that by (auto simp: lower_hex_char_def lower_char_def less_eq_char_def less_char_def)
  then show "to_lower s = s" using assms by (simp add: to_lower_def map_idI)
qed

lemma commitment_hex_chars:
  assumes "commitment_hex s" shows "\<forall>c \<in> set s. lower_hex_char c \<or> c = CHR ''x''"
proof -
  have "set s = set (take 2 s) \<union> set (drop 2 s)" by (metis append_take_drop_id set_append)
  then show ?thesis using assms
    by (auto simp: commitment_hex_def list_all_iff lower_hex_char_def less_eq_char_def)
qed

lemma digest_hex_trim: "digest_hex s \<Longrightarrow> trim_space s = s \<and> to_lower s = s"
  using lower_hex_trim [of s] by (auto simp: digest_hex_def list_all_iff)

lemma commitment_hex_trim: "commitment_hex s \<Longrightarrow> trim_space s = s \<and> to_lower s = s"
  using lower_hex_trim [OF commitment_hex_chars] by blast

section \<open>Joining and number formatting\<close>

fun join_strings :: "string \<Rightarrow> string list \<Rightarrow> string" where
  "join_strings sep [] = []"
| "join_strings sep [s] = s"
| "join_strings sep (s # t # ss) = s @ sep @ join_strings sep (t # ss)"

text \<open>Fields without the separator are recovered from the joined string.\<close>

lemma split_at_char:
  "c \<notin> set s \<Longrightarrow> c \<notin> set t \<Longrightarrow> s @ c # u = t @ c # v \<longleftrightarrow> s = t \<and> u = v"
proof (induction s arbitrary: t)
  case Nil
  then show ?case by (cases t) auto
next
  case (Cons a s)
  then show ?case by (cases t) auto
qed

lemma join_strings_inj:
  assumes "length ss = length ts" and "\<forall>s \<in> set (butlast ss) \<union> set (butlast ts). c \<notin> set s"
    and "join_strings [c] ss = join_strings [c] ts"
  shows "ss = ts"
  using assms
proof (induction ss ts rule: list_induct2)
  case Nil
  then show ?case by simp
next
  case (Cons x xs y ys)
  show ?case
  proof (cases xs)
    case Nil
    then show ?thesis using Cons by simp
  next
    case (Cons x' xs')
    then obtain y' ys' where ys: "ys = y' # ys'" using Cons.hyps by (cases ys) auto
    have "x @ c # join_strings [c] xs = y @ c # join_strings [c] ys"
      using Cons.prems(2) \<open>xs = _\<close> ys by simp
    moreover have "c \<notin> set x" "c \<notin> set y" using Cons.prems(1) \<open>xs = _\<close> ys by auto
    ultimately have "x = y" "join_strings [c] xs = join_strings [c] ys"
      by (simp_all add: split_at_char)
    moreover have "\<forall>s \<in> set (butlast xs) \<union> set (butlast ys). c \<notin> set s"
      using Cons.prems(1) \<open>xs = _\<close> ys by auto
    ultimately show ?thesis using Cons.IH by simp
  qed
qed

definition digit_char :: "nat \<Rightarrow> char" where
  "digit_char d = char_of (48 + d)"

fun nat_dec :: "nat \<Rightarrow> string" where
  "nat_dec n = (if n < 10 then [digit_char n] else nat_dec (n div 10) @ [digit_char (n mod 10)])"

declare nat_dec.simps [simp del]

text \<open>\<^verbatim>\<open>strconv.FormatInt(x, 10)\<close> and \<^verbatim>\<open>strconv.Itoa\<close>.\<close>

definition int_dec :: "int \<Rightarrow> string" where
  "int_dec x = (if x < 0 then CHR ''-'' # nat_dec (nat (- x)) else nat_dec (nat x))"

definition digit_val :: "char \<Rightarrow> nat" where
  "digit_val c = of_char c - 48"

lemma digit_val_char [simp]: "d < 10 \<Longrightarrow> digit_val (digit_char d) = d"
  by (simp add: digit_val_def digit_char_def of_char_of)

definition dec_value :: "string \<Rightarrow> nat" where
  "dec_value s = foldl (\<lambda>a c. 10 * a + digit_val c) 0 s"

lemma dec_value_nat_dec [simp]: "dec_value (nat_dec n) = n"
proof (induction n rule: nat_dec.induct)
  case (1 n)
  show ?case
  proof (cases "n < 10")
    case True
    then show ?thesis by (subst nat_dec.simps) (simp add: dec_value_def)
  next
    case False
    with 1 have "dec_value (nat_dec (n div 10)) = n div 10" by simp
    with False show ?thesis by (subst nat_dec.simps) (simp add: dec_value_def)
  qed
qed

lemma nat_dec_inj: "nat_dec m = nat_dec n \<Longrightarrow> m = n"
  by (metis dec_value_nat_dec)

lemma digit_char_range: "d < 10 \<Longrightarrow> CHR ''0'' \<le> digit_char d \<and> digit_char d \<le> CHR ''9''"
  by (simp add: digit_char_def less_eq_char_def of_char_of)

lemma nat_dec_digits: "\<forall>c \<in> set (nat_dec n). CHR ''0'' \<le> c \<and> c \<le> CHR ''9''"
proof (induction n rule: nat_dec.induct)
  case (1 n)
  show ?case
  proof (cases "n < 10")
    case True
    then show ?thesis using digit_char_range by (subst nat_dec.simps) simp
  next
    case False
    with 1 show ?thesis using digit_char_range [of "n mod 10"] by (subst nat_dec.simps) auto
  qed
qed

lemma nat_dec_nonempty [simp]: "nat_dec n \<noteq> []"
  by (subst nat_dec.simps) simp

lemma int_dec_chars: "\<forall>c \<in> set (int_dec x). c = CHR ''-'' \<or> (CHR ''0'' \<le> c \<and> c \<le> CHR ''9'')"
  using nat_dec_digits by (auto simp: int_dec_def)

lemma int_dec_inj: "int_dec x = int_dec y \<Longrightarrow> x = y"
proof -
  assume eq: "int_dec x = int_dec y"
  have neq: "nat_dec n \<noteq> CHR ''-'' # s" for n s
    using nat_dec_digits [of n] by (auto simp: less_eq_char_def)
  show ?thesis
    using eq neq neq [symmetric] by (auto simp: int_dec_def split: if_splits dest: nat_dec_inj)
qed

text \<open>Zero padding, and the fixed-point text of an integer number of \<open>10\<^sup>-\<^sup>p\<close>.\<close>

definition pad_left :: "nat \<Rightarrow> string \<Rightarrow> string" where
  "pad_left n s = replicate (n - length s) (CHR ''0'') @ s"

definition fixed_text :: "int \<Rightarrow> nat \<Rightarrow> string" where
  "fixed_text n p =
    (if n < 0 then ''-'' else []) @
    (if p = 0 then nat_dec (nat \<bar>n\<bar>)
     else nat_dec (nat \<bar>n\<bar> div 10 ^ p) @ ''.'' @ pad_left p (nat_dec (nat \<bar>n\<bar> mod 10 ^ p)))"

lemma dec_value_pad_left [simp]: "dec_value (pad_left n s) = dec_value s"
proof -
  have "foldl (\<lambda>a c. 10 * a + digit_val c) 0 (replicate k (CHR ''0'') @ s) = dec_value s" for k
    by (induction k) (simp_all add: dec_value_def digit_val_def)
  then show ?thesis by (simp add: pad_left_def dec_value_def)
qed

lemma fixed_text_chars:
  assumes "c \<in> set (fixed_text n p)"
  shows "c = CHR ''-'' \<or> c = CHR ''.'' \<or> (CHR ''0'' \<le> c \<and> c \<le> CHR ''9'')"
proof -
  have "set (pad_left k s) \<subseteq> insert (CHR ''0'') (set s)" for k s
    by (auto simp: pad_left_def)
  then have "c = CHR ''-'' \<or> c = CHR ''.'' \<or> c = CHR ''0'' \<or> (\<exists>k. c \<in> set (nat_dec k))"
    using assms by (fastforce simp: fixed_text_def split: if_splits)
  moreover have "CHR ''0'' \<le> c \<and> c \<le> CHR ''9''" if "c \<in> set (nat_dec k)" for k
    using that nat_dec_digits by blast
  moreover have "CHR ''0'' \<le> CHR ''9''" by (simp add: less_eq_char_def)
  ultimately show ?thesis by blast
qed

lemma nat_dec_no: "CHR ''.'' \<notin> set (nat_dec n)" "CHR ''-'' \<notin> set (nat_dec n)"
  using nat_dec_digits [of n] by (auto simp: less_eq_char_def)

lemma fixed_text_abs_inj:
  assumes "(if p = 0 then nat_dec a else nat_dec (a div 10 ^ p) @ ''.'' @ pad_left p (nat_dec (a mod 10 ^ p)))
    = (if p = 0 then nat_dec b else nat_dec (b div 10 ^ p) @ ''.'' @ pad_left p (nat_dec (b mod 10 ^ p)))"
  shows "a = b"
proof (cases "p = 0")
  case True
  then show ?thesis using assms by (auto dest: nat_dec_inj)
next
  case False
  then have "nat_dec (a div 10 ^ p) @ CHR ''.'' # pad_left p (nat_dec (a mod 10 ^ p)) =
      nat_dec (b div 10 ^ p) @ CHR ''.'' # pad_left p (nat_dec (b mod 10 ^ p))"
    using assms by simp
  then have "nat_dec (a div 10 ^ p) = nat_dec (b div 10 ^ p)"
    "pad_left p (nat_dec (a mod 10 ^ p)) = pad_left p (nat_dec (b mod 10 ^ p))"
    by (simp_all add: split_at_char nat_dec_no)
  then have "a div 10 ^ p = b div 10 ^ p" "a mod 10 ^ p = b mod 10 ^ p"
    by (auto dest: nat_dec_inj) (metis dec_value_nat_dec dec_value_pad_left)
  then show ?thesis by (metis div_mult_mod_eq)
qed

lemma fixed_text_inj:
  assumes "fixed_text n p = fixed_text m p" shows "n = m"
proof -
  define t where "t a = (if p = 0 then nat_dec a
    else nat_dec (a div 10 ^ p) @ ''.'' @ pad_left p (nat_dec (a mod 10 ^ p)))" for a
  have shape: "fixed_text k p = (if k < 0 then ''-'' else []) @ t (nat \<bar>k\<bar>)" for k
    by (simp add: fixed_text_def t_def)
  have inj: "t a = t b \<Longrightarrow> a = b" for a b
    unfolding t_def by (rule fixed_text_abs_inj)
  have head: "t a \<noteq> [] \<and> hd (t a) \<noteq> CHR ''-''" for a
    using nat_dec_no(2) [of a] nat_dec_no(2) [of "a div 10 ^ p"]
    by (auto simp: t_def hd_append) (metis hd_in_set nat_dec_nonempty)+
  have sign: "n < 0 \<longleftrightarrow> m < 0"
    using assms head [of "nat \<bar>n\<bar>"] head [of "nat \<bar>m\<bar>"] unfolding shape
    by (auto split: if_splits) (metis list.sel(1))+
  then have "t (nat \<bar>n\<bar>) = t (nat \<bar>m\<bar>)" using assms unfolding shape by (auto split: if_splits)
  then have "nat \<bar>n\<bar> = nat \<bar>m\<bar>" by (rule inj)
  then show ?thesis using sign by linarith
qed

section \<open>Hexadecimal\<close>

definition hex_digit :: "nat \<Rightarrow> char" where
  "hex_digit d = (if d < 10 then char_of (48 + d) else char_of (87 + d))"

definition hex_digit_val :: "char \<Rightarrow> nat" where
  "hex_digit_val c = (if c \<le> CHR ''9'' then of_char c - 48 else of_char c - 87)"

lemma hex_digit_val [simp]: "d < 16 \<Longrightarrow> hex_digit_val (hex_digit d) = d"
  by (auto simp: hex_digit_val_def hex_digit_def less_eq_char_def of_char_of)

lemma hex_digit_lower: "d < 16 \<Longrightarrow> lower_hex_char (hex_digit d)"
  by (auto simp: lower_hex_char_def hex_digit_def less_eq_char_def of_char_of)

text \<open>\<^verbatim>\<open>hex.EncodeToString\<close>.\<close>

definition hex_encode :: "string \<Rightarrow> string" where
  "hex_encode bs = concat (map (\<lambda>c. [hex_digit (of_char c div 16), hex_digit (of_char c mod 16)]) bs)"

lemma length_hex_encode [simp]: "length (hex_encode bs) = 2 * length bs"
  by (induction bs) (simp_all add: hex_encode_def)

lemma hex_encode_lower: "list_all lower_hex_char (hex_encode bs)"
proof (induction bs)
  case Nil
  then show ?case by (simp add: hex_encode_def)
next
  case (Cons c bs)
  have "(of_char c :: nat) < 256"
    using of_char_mod_256 [of c, where ?'a = nat] mod_less_divisor [of 256 "of_char c"] by simp
  then have "of_char c div 16 < (16 :: nat)" by (simp add: less_mult_imp_div_less)
  then show ?case using Cons by (simp add: hex_encode_def hex_digit_lower)
qed

lemma hex_encode_visible: "list_all visible_char (hex_encode bs)"
proof -
  have "visible_char c" if "lower_hex_char c" for c
    using that by (auto simp: lower_hex_char_def visible_char_def less_eq_char_def)
  then show ?thesis using hex_encode_lower [of bs] by (simp add: list_all_iff)
qed

lemma hex_encode_inj: "hex_encode s = hex_encode t \<Longrightarrow> s = t"
proof (induction s arbitrary: t)
  case Nil
  then show ?case by (cases t) (simp_all add: hex_encode_def)
next
  case (Cons c s)
  then obtain d u where t: "t = d # u" by (cases t) (simp_all add: hex_encode_def)
  have byte: "(of_char x :: nat) div 16 < 16" for x :: char
    using of_char_mod_256 [of x, where ?'a = nat] mod_less_divisor [of 256 "of_char x"]
    by (simp add: less_mult_imp_div_less)
  have "hex_digit (of_char c div 16) = hex_digit (of_char d div 16)"
    "hex_digit (of_char c mod 16) = hex_digit (of_char d mod 16)" "hex_encode s = hex_encode u"
    using Cons.prems t by (simp_all add: hex_encode_def)
  then have "(of_char c :: nat) div 16 = of_char d div 16" "(of_char c :: nat) mod 16 = of_char d mod 16"
    by (metis byte hex_digit_val, metis hex_digit_val mod_less_divisor zero_less_numeral)
  then have "of_char c = (of_char d :: nat)" by (metis div_mult_mod_eq)
  then show ?case using Cons.IH [OF \<open>hex_encode s = hex_encode u\<close>] t by simp
qed

fun nibbles :: "nat \<Rightarrow> nat \<Rightarrow> nat list" where
  "nibbles 0 n = []"
| "nibbles (Suc k) n = nibbles k (n div 16) @ [n mod 16]"

lemma length_nibbles [simp]: "length (nibbles k n) = k"
  by (induction k arbitrary: n) auto

lemma nibbles_less: "d \<in> set (nibbles k n) \<Longrightarrow> d < 16"
  by (induction k arbitrary: n) auto

lemma nibbles_value: "foldl (\<lambda>a d. 16 * a + d) 0 (nibbles k n) = n mod 16 ^ k"
proof (induction k arbitrary: n)
  case 0
  then show ?case by simp
next
  case (Suc k)
  have "n mod (16 * 16 ^ k) = 16 * (n div 16 mod 16 ^ k) + n mod 16"
    by (simp add: mod_mult2_eq)
  then show ?case using Suc by simp
qed

end
