(* ===== verification/External.thy ===== *)
theory External
  imports Go_Strings Complex_Main
begin

text \<open>
  The third-party packages the program calls, as parameters of the model.
  \<^verbatim>\<open>github.com/google/uuid\<close> is the record \<open>uuid_ops\<close>: an identifier is its 16 bytes
  (a \<^typ>\<open>128 word\<close>), compared with \<^verbatim>\<open>==\<close>; how it is printed and parsed is
  the package's. \<^verbatim>\<open>github.com/shopspring/decimal\<close> is the record
  \<open>decimal_ops\<close> of the operations the code calls. What the code relies on is stated as two
  locales, in the words of the packages' documentation, with the value of a decimal as a rational
  number. Each locale is interpreted on a reference instance: the RFC 4122 text form, and the
  rationals themselves with the documented roundings. SHA-256 is a function argument of the
  definitions that use it; nothing is assumed of it.
\<close>

section \<open>Identifiers\<close>

type_synonym uuid = "128 word"

abbreviation uuid_nil :: uuid where "uuid_nil \<equiv> 0"

record uuid_ops =
  uuid_string :: "uuid \<Rightarrow> string"
  uuid_parse :: "string \<Rightarrow> uuid option"

locale uuid_lib =
  fixes U :: uuid_ops
  assumes uuid_parse_string: "uuid_parse U (uuid_string U x) = Some x"
    and uuid_string_length: "length (uuid_string U x) = 36"
    and uuid_string_chars: "c \<in> set (uuid_string U x) \<Longrightarrow> lower_hex_char c \<or> c = CHR ''-''"
begin

lemma uuid_string_inj: "uuid_string U x = uuid_string U y \<longleftrightarrow> x = y"
  by (metis option.inject uuid_parse_string)

text \<open>Keys of the form "id/group" are split unambiguously: the id has a fixed length.\<close>

lemma uuid_key_inj:
  "uuid_string U x @ s = uuid_string U y @ t \<longleftrightarrow> x = y \<and> s = t"
  using uuid_string_length uuid_string_inj by (metis append_eq_append_conv)

lemma uuid_key_take: "take 36 (uuid_string U x @ s) = uuid_string U x"
  by (simp add: uuid_string_length)

lemma uuid_key_drop: "drop 36 (uuid_string U x @ s) = s"
  by (simp add: uuid_string_length)

end

definition rfc_string :: "uuid \<Rightarrow> string" where
  "rfc_string x =
    (let d = map hex_digit (nibbles 32 (unat x))
     in take 8 d @ ''-'' @ take 4 (drop 8 d) @ ''-'' @ take 4 (drop 12 d) @ ''-''
        @ take 4 (drop 16 d) @ ''-'' @ drop 20 d)"

definition rfc_parse :: "string \<Rightarrow> uuid option" where
  "rfc_parse s =
    (let d = take 8 s @ take 4 (drop 9 s) @ take 4 (drop 14 s) @ take 4 (drop 19 s) @ drop 24 s
     in if length s = 36 \<and> list_all hex_char d
          \<and> s ! 8 = CHR ''-'' \<and> s ! 13 = CHR ''-'' \<and> s ! 18 = CHR ''-'' \<and> s ! 23 = CHR ''-''
        then Some (of_nat (foldl (\<lambda>a c. 16 * a + hex_digit_val (lower_char c)) 0 d)) else None)"

definition rfc_uuid :: uuid_ops where
  "rfc_uuid = \<lparr>uuid_string = rfc_string, uuid_parse = rfc_parse\<rparr>"

lemma lower_char_lower_hex: "lower_hex_char c \<Longrightarrow> lower_char c = c"
  by (auto simp: lower_hex_char_def lower_char_def less_eq_char_def)

lemma foldl_hex_digits:
  "\<forall>d \<in> set ds. d < 16 \<Longrightarrow>
    foldl (\<lambda>a c. 16 * a + hex_digit_val (lower_char c)) a (map hex_digit ds)
      = foldl (\<lambda>a d. 16 * a + d) a ds"
  by (induction ds arbitrary: a) (simp_all add: lower_char_lower_hex hex_digit_lower)

lemma dashed_digits:
  assumes "length d = 32"
  defines "s \<equiv> take 8 d @ ''-'' @ take 4 (drop 8 d) @ ''-'' @ take 4 (drop 12 d) @ ''-''
        @ take 4 (drop 16 d) @ ''-'' @ drop 20 d"
  shows "length s = 36"
    and "take 8 s @ take 4 (drop 9 s) @ take 4 (drop 14 s) @ take 4 (drop 19 s) @ drop 24 s = d"
    and "s ! 8 = CHR ''-'' \<and> s ! 13 = CHR ''-'' \<and> s ! 18 = CHR ''-'' \<and> s ! 23 = CHR ''-''"
proof -
  obtain x0 x1 x2 x3 x4 x5 x6 x7 x8 x9 x10 x11 x12 x13 x14 x15 r where
    "d = x0 # x1 # x2 # x3 # x4 # x5 # x6 # x7 # x8 # x9 # x10 # x11 # x12 # x13 # x14 # x15 # r"
    "length r = 16"
    using assms(1) by (auto simp: length_Suc_conv numeral_eq_Suc)
  moreover obtain y0 y1 y2 y3 r' where "r = y0 # y1 # y2 # y3 # r'" "length r' = 12"
    using \<open>length r = 16\<close> by (auto simp: length_Suc_conv numeral_eq_Suc)
  ultimately show "length s = 36"
    and "take 8 s @ take 4 (drop 9 s) @ take 4 (drop 14 s) @ take 4 (drop 19 s) @ drop 24 s = d"
    and "s ! 8 = CHR ''-'' \<and> s ! 13 = CHR ''-'' \<and> s ! 18 = CHR ''-'' \<and> s ! 23 = CHR ''-''"
    by (simp_all add: s_def)
qed

lemma rfc_parse_string: "rfc_parse (rfc_string x) = Some x"
proof -
  let ?d = "map hex_digit (nibbles 32 (unat x))"
  have l: "length ?d = 32" by simp
  have h: "list_all hex_char ?d"
    using nibbles_less hex_digit_lower by (fastforce simp: list_all_iff hex_char_def)
  have "foldl (\<lambda>a c. 16 * a + hex_digit_val (lower_char c)) 0 ?d = unat x mod 16 ^ 32"
    by (subst foldl_hex_digits) (auto simp: nibbles_value dest: nibbles_less)
  also have "\<dots> = unat x"
    using unsigned_less [of x, where ?'a = nat] by simp
  finally have v: "foldl (\<lambda>a c. 16 * a + hex_digit_val (lower_char c)) 0 ?d = unat x" .
  show ?thesis
    unfolding rfc_parse_def rfc_string_def Let_def dashed_digits(2) [OF l]
    using dashed_digits(1,3) [OF l] h v by simp
qed

lemma rfc_string_length: "length (rfc_string x) = 36"
  using dashed_digits(1) [of "map hex_digit (nibbles 32 (unat x))"] by (simp add: rfc_string_def Let_def)

lemma rfc_string_chars: "c \<in> set (rfc_string x) \<Longrightarrow> lower_hex_char c \<or> c = CHR ''-''"
proof -
  assume c: "c \<in> set (rfc_string x)"
  let ?d = "map hex_digit (nibbles 32 (unat x))"
  have "c \<in> set ?d \<or> c = CHR ''-''"
    using c unfolding rfc_string_def Let_def
    by (simp only: set_append Un_iff) (auto dest!: in_set_takeD in_set_dropD)
  then show ?thesis using nibbles_less hex_digit_lower by auto
qed

interpretation rfc: uuid_lib rfc_uuid
  by unfold_locales
    (simp_all add: rfc_uuid_def rfc_parse_string rfc_string_length rfc_string_chars)

section \<open>Decimals\<close>

text \<open>Rounding to an integer, ties to even, and ties away from zero.\<close>

definition round_half_even :: "rat \<Rightarrow> int" where
  "round_half_even q =
    (let f = \<lfloor>q\<rfloor>; r = q - of_int f
     in if r < 1 / 2 then f else if r > 1 / 2 then f + 1 else if even f then f else f + 1)"

definition round_half_away :: "rat \<Rightarrow> int" where
  "round_half_away q = (if q < 0 then - \<lfloor>- q + 1 / 2\<rfloor> else \<lfloor>q + 1 / 2\<rfloor>)"

definition trunc_rat :: "rat \<Rightarrow> int" where
  "trunc_rat q = (if q < 0 then - \<lfloor>- q\<rfloor> else \<lfloor>q\<rfloor>)"

definition cmp_int :: "'a :: linorder \<Rightarrow> 'a \<Rightarrow> int" where
  "cmp_int x y = (if x < y then - 1 else if x = y then 0 else 1)"

lemma cmp_int_simps [simp]:
  "cmp_int x y < 0 \<longleftrightarrow> x < y"
  "cmp_int x y = 0 \<longleftrightarrow> x = y"
  "0 < cmp_int x y \<longleftrightarrow> y < x"
  "cmp_int x y \<le> 0 \<longleftrightarrow> x \<le> y"
  "0 \<le> cmp_int x y \<longleftrightarrow> y \<le> x"
  by (auto simp: cmp_int_def)

record 'd decimal_ops =
  d_zero :: 'd
  d_of_int :: "int \<Rightarrow> 'd"
  d_new :: "int \<Rightarrow> int \<Rightarrow> 'd"
  d_parse :: "string \<Rightarrow> 'd option"
  d_add :: "'d \<Rightarrow> 'd \<Rightarrow> 'd"
  d_sub :: "'d \<Rightarrow> 'd \<Rightarrow> 'd"
  d_mul :: "'d \<Rightarrow> 'd \<Rightarrow> 'd"
  d_neg :: "'d \<Rightarrow> 'd"
  d_abs :: "'d \<Rightarrow> 'd"
  d_div_round :: "'d \<Rightarrow> 'd \<Rightarrow> int \<Rightarrow> 'd"
  d_div :: "'d \<Rightarrow> 'd \<Rightarrow> 'd"
  d_shift :: "'d \<Rightarrow> int \<Rightarrow> 'd"
  d_round_bank :: "'d \<Rightarrow> int \<Rightarrow> 'd"
  d_truncate :: "'d \<Rightarrow> int \<Rightarrow> 'd"
  d_floor :: "'d \<Rightarrow> 'd"
  d_int_part :: "'d \<Rightarrow> int"
  d_big_int :: "'d \<Rightarrow> int"
  d_cmp :: "'d \<Rightarrow> 'd \<Rightarrow> int"
  d_exp_taylor :: "'d \<Rightarrow> int \<Rightarrow> 'd option"
  d_string_fixed :: "'d \<Rightarrow> int \<Rightarrow> string"

text \<open>
  The comparisons of the package, read off its \<^verbatim>\<open>Cmp\<close>.
\<close>

definition d_lt :: "'d decimal_ops \<Rightarrow> 'd \<Rightarrow> 'd \<Rightarrow> bool" where
  "d_lt D x y \<longleftrightarrow> d_cmp D x y < 0"

definition d_eq :: "'d decimal_ops \<Rightarrow> 'd \<Rightarrow> 'd \<Rightarrow> bool" where
  "d_eq D x y \<longleftrightarrow> d_cmp D x y = 0"

definition d_is_zero :: "'d decimal_ops \<Rightarrow> 'd \<Rightarrow> bool" where
  "d_is_zero D x \<longleftrightarrow> d_cmp D x (d_zero D) = 0"

definition d_is_negative :: "'d decimal_ops \<Rightarrow> 'd \<Rightarrow> bool" where
  "d_is_negative D x \<longleftrightarrow> d_cmp D x (d_zero D) < 0"

definition d_is_positive :: "'d decimal_ops \<Rightarrow> 'd \<Rightarrow> bool" where
  "d_is_positive D x \<longleftrightarrow> 0 < d_cmp D x (d_zero D)"

text \<open>
  The decimal literals \<^verbatim>\<open>NewFromString\<close> is documented to accept that the program
  writes: an optional sign, digits, and optionally a point and more digits.
\<close>

definition digits_only :: "string \<Rightarrow> bool" where
  "digits_only s \<longleftrightarrow> list_all (\<lambda>c. CHR ''0'' \<le> c \<and> c \<le> CHR ''9'') s"

definition unsigned_literal :: "string \<Rightarrow> rat option" where
  "unsigned_literal s =
    (let ip = takeWhile (\<lambda>c. c \<noteq> CHR ''.'') s; fp = tl (dropWhile (\<lambda>c. c \<noteq> CHR ''.'') s)
     in if ip \<noteq> [] \<and> digits_only ip \<and> digits_only fp
        then Some (of_nat (dec_value (ip @ fp)) / 10 ^ length fp) else None)"

definition decimal_literal :: "string \<Rightarrow> rat option" where
  "decimal_literal s =
    (case s of [] \<Rightarrow> None
     | c # cs \<Rightarrow> if c = CHR ''-'' then map_option uminus (unsigned_literal cs) else unsigned_literal s)"

text \<open>
  The documented behaviour: exact sums and products, \<^verbatim>\<open>Shift\<close> multiplies by a power of
  ten, \<^verbatim>\<open>DivRound\<close> rounds the quotient half away from zero at the given number of
  digits, \<^verbatim>\<open>RoundBank\<close> rounds half to even, \<^verbatim>\<open>Truncate\<close> drops digits,
  \<^verbatim>\<open>IntPart\<close> is the integer component where that is an \<^verbatim>\<open>int64\<close>.
\<close>

locale decimal_lib =
  fixes D :: "'d decimal_ops" and val :: "'d \<Rightarrow> rat"
  assumes val_zero: "val (d_zero D) = 0"
    and parse_literal: "decimal_literal s = Some q \<Longrightarrow> \<exists>d. d_parse D s = Some d \<and> val d = q"
    and val_of_int: "val (d_of_int D n) = of_int n"
    and val_new: "val (d_new D n e) = of_int n * 10 powi e"
    and val_add: "val (d_add D x y) = val x + val y"
    and val_sub: "val (d_sub D x y) = val x - val y"
    and val_mul: "val (d_mul D x y) = val x * val y"
    and val_neg: "val (d_neg D x) = - val x"
    and val_abs: "val (d_abs D x) = \<bar>val x\<bar>"
    and val_div_round: "val y \<noteq> 0 \<Longrightarrow>
      val (d_div_round D x y p) = of_int (round_half_away (val x / val y * 10 powi p)) / 10 powi p"
    and val_div: "val y \<noteq> 0 \<Longrightarrow>
      val (d_div D x y) = of_int (round_half_away (val x / val y * 10 powi 16)) / 10 powi 16"
    and val_shift: "val (d_shift D x n) = val x * 10 powi n"
    and val_round_bank: "val (d_round_bank D x p) = of_int (round_half_even (val x * 10 powi p)) / 10 powi p"
    and val_truncate: "0 \<le> p \<Longrightarrow>
      val (d_truncate D x p) = of_int (trunc_rat (val x * 10 powi p)) / 10 powi p"
    and val_floor: "val (d_floor D x) = of_int \<lfloor>val x\<rfloor>"
    and int_part: "in64 (trunc_rat (val x)) \<Longrightarrow> d_int_part D x = trunc_rat (val x)"
    and big_int: "d_big_int D x = trunc_rat (val x)"
    and cmp: "d_cmp D x y = cmp_int (val x) (val y)"
    and string_fixed: "0 \<le> p \<Longrightarrow>
      d_string_fixed D x p = fixed_text (round_half_away (val x * 10 powi p)) (nat p)"
begin

lemmas val_simps =
  val_zero val_of_int val_new val_add val_sub val_mul val_neg val_abs val_shift val_round_bank val_floor

lemma cmp_simps:
  "d_lt D x y \<longleftrightarrow> val x < val y"
  "d_eq D x y \<longleftrightarrow> val x = val y"
  "d_is_zero D x \<longleftrightarrow> val x = 0"
  "d_is_negative D x \<longleftrightarrow> val x < 0"
  "d_is_positive D x \<longleftrightarrow> 0 < val x"
  by (simp_all add: d_lt_def d_eq_def d_is_zero_def d_is_negative_def d_is_positive_def cmp val_zero)

end

subsection \<open>The roundings\<close>

lemma round_half_even_of_int [simp]: "round_half_even (of_int n) = n"
  by (simp add: round_half_even_def Let_def)

lemma round_half_away_of_int [simp]: "round_half_away (of_int n) = n"
proof -
  have "\<lfloor>of_int m + 1 / 2 :: rat\<rfloor> = m" for m
    by linarith
  from this [of n] this [of "- n"] show ?thesis by (simp add: round_half_away_def)
qed

lemma trunc_rat_of_int [simp]: "trunc_rat (of_int n) = n"
  by (simp add: trunc_rat_def flip: of_int_minus)

lemma round_half_even_bounds:
  "q - 1 / 2 \<le> of_int (round_half_even q)" "of_int (round_half_even q) \<le> q + 1 / 2"
proof -
  have f: "of_int \<lfloor>q\<rfloor> \<le> q" "q < of_int \<lfloor>q\<rfloor> + 1" using floor_correct [of q] by simp_all
  show "q - 1 / 2 \<le> of_int (round_half_even q)" "of_int (round_half_even q) \<le> q + 1 / 2"
    unfolding round_half_even_def Let_def using f by (auto split: if_splits; linarith)+
qed

lemma round_half_away_bounds:
  "q - 1 / 2 \<le> of_int (round_half_away q)" "of_int (round_half_away q) \<le> q + 1 / 2"
proof -
  have f: "of_int \<lfloor>r + 1 / 2\<rfloor> \<le> r + 1 / 2" "r + 1 / 2 < of_int \<lfloor>r + 1 / 2\<rfloor> + 1" for r :: rat
    using floor_correct [of "r + 1 / 2"] by simp_all
  show "q - 1 / 2 \<le> of_int (round_half_away q)" "of_int (round_half_away q) \<le> q + 1 / 2"
    unfolding round_half_away_def of_int_minus if_distrib [of of_int]
    using f [of q] f [of "- q"] by (cases "q < 0"; simp; linarith)+
qed

lemma round_half_even_mono: "p \<le> q \<Longrightarrow> round_half_even p \<le> round_half_even q"
proof -
  assume le: "p \<le> q"
  have f: "\<lfloor>p\<rfloor> \<le> \<lfloor>q\<rfloor>" using le by (rule floor_mono)
  show ?thesis
  proof (cases "\<lfloor>p\<rfloor> = \<lfloor>q\<rfloor>")
    case True
    then show ?thesis using le by (auto simp: round_half_even_def Let_def)
  next
    case False
    with f have "\<lfloor>p\<rfloor> + 1 \<le> \<lfloor>q\<rfloor>" by simp
    then show ?thesis by (auto simp: round_half_even_def Let_def)
  qed
qed

lemma round_half_even_ge: "of_int n \<le> q \<Longrightarrow> n \<le> round_half_even q"
  using round_half_even_mono [of "of_int n" q] by simp

lemma round_half_even_le: "q \<le> of_int n \<Longrightarrow> round_half_even q \<le> n"
  using round_half_even_mono [of q "of_int n"] by simp

lemma round_half_even_nonneg: "0 \<le> q \<Longrightarrow> 0 \<le> round_half_even q"
  using round_half_even_ge [of 0 q] by simp

lemma round_half_away_mono: "p \<le> q \<Longrightarrow> round_half_away p \<le> round_half_away q"
proof -
  assume le: "p \<le> q"
  have nn: "0 \<le> \<lfloor>r + 1 / 2\<rfloor>" if "0 \<le> r" for r :: rat using that by simp
  consider "p < 0" "q < 0" | "p < 0" "0 \<le> q" | "0 \<le> p" "0 \<le> q" using le by linarith
  then show ?thesis
  proof cases
    case 1
    then have "\<lfloor>- q + 1 / 2\<rfloor> \<le> \<lfloor>- p + 1 / 2\<rfloor>" using le by (intro floor_mono) simp
    with 1 show ?thesis by (simp add: round_half_away_def)
  next
    case 2
    then have "0 \<le> \<lfloor>- p + 1 / 2\<rfloor>" "0 \<le> \<lfloor>q + 1 / 2\<rfloor>" using nn [of "- p"] nn [of q] by simp_all
    moreover have "round_half_away p = - \<lfloor>- p + 1 / 2\<rfloor>" "round_half_away q = \<lfloor>q + 1 / 2\<rfloor>"
      using 2 by (simp_all add: round_half_away_def)
    ultimately show ?thesis by linarith
  next
    case 3
    then show ?thesis using le by (simp add: round_half_away_def floor_mono)
  qed
qed

lemma round_half_away_ge: "of_int n \<le> q \<Longrightarrow> n \<le> round_half_away q"
  using round_half_away_mono [of "of_int n" q] by simp

lemma round_half_away_le: "q \<le> of_int n \<Longrightarrow> round_half_away q \<le> n"
  using round_half_away_mono [of q "of_int n"] by simp

subsection \<open>The reference instance\<close>

definition rat_decimal :: "rat decimal_ops" where
  "rat_decimal = \<lparr>
     d_zero = 0,
     d_of_int = of_int,
     d_new = (\<lambda>n e. of_int n * 10 powi e),
     d_parse = decimal_literal,
     d_add = (+), d_sub = (-), d_mul = (*), d_neg = uminus, d_abs = abs,
     d_div_round = (\<lambda>x y p. of_int (round_half_away (x / y * 10 powi p)) / 10 powi p),
     d_div = (\<lambda>x y. of_int (round_half_away (x / y * 10 powi 16)) / 10 powi 16),
     d_shift = (\<lambda>x n. x * 10 powi n),
     d_round_bank = (\<lambda>x p. of_int (round_half_even (x * 10 powi p)) / 10 powi p),
     d_truncate = (\<lambda>x p. of_int (trunc_rat (x * 10 powi p)) / 10 powi p),
     d_floor = (\<lambda>x. of_int \<lfloor>x\<rfloor>),
     d_int_part = (\<lambda>x. wrap64 (trunc_rat x)),
     d_big_int = trunc_rat,
     d_cmp = cmp_int,
     d_exp_taylor = (\<lambda>x p. Some (1 + x + x ^ 2 / 2 + x ^ 3 / 6)),
     d_string_fixed = (\<lambda>x p. fixed_text (round_half_away (x * 10 powi p)) (nat p)) \<rparr>"

interpretation ratd: decimal_lib rat_decimal "\<lambda>x. x"
  by unfold_locales (simp_all add: rat_decimal_def wrap64_id)

lemmas rat_decimal_simps = rat_decimal_def cmp_int_def d_lt_def d_eq_def d_is_zero_def
  d_is_negative_def d_is_positive_def round_half_even_def round_half_away_def trunc_rat_def Let_def

end
