(* ===== verification/Money.thy ===== *)
theory Money
  imports External
begin

text \<open>
  \<^verbatim>\<open>internal/platform/money\<close>: currencies, amounts in integer minor units, and rates.
  A rate is a decimal of the \<^verbatim>\<open>decimal\<close> package, so every definition that touches one
  takes the package's operations as its first argument. \<^verbatim>\<open>int64\<close> arithmetic is
  written with \<open>wrap64\<close>; a Go panic is the error \<open>Panic\<close>.
\<close>

section \<open>Currencies\<close>

type_synonym currency_code = string

definition currency_exponents :: "currency_code \<Rightarrow> int option" where
  "currency_exponents = map_of
     [(''USD'', 2), (''EUR'', 2), (''GBP'', 2), (''JPY'', 0), (''HBAR'', 8)]"

definition currency_valid :: "currency_code \<Rightarrow> bool" where
  "currency_valid c \<longleftrightarrow> currency_exponents c \<noteq> None"

definition parse_currency :: "string \<Rightarrow> currency_code result" where
  "parse_currency s =
    (let c = to_upper (trim_space s) in if currency_valid c then Inr c else Inl ErrInvalidCurrency)"

definition currency_exponent :: "currency_code \<Rightarrow> int result" where
  "currency_exponent c = (case currency_exponents c of None \<Rightarrow> Inl Panic | Some e \<Rightarrow> Inr e)"

lemma currency_valid_cases:
  "currency_valid c \<longleftrightarrow> c \<in> {''USD'', ''EUR'', ''GBP'', ''JPY'', ''HBAR''}"
  by (auto simp: currency_valid_def currency_exponents_def split: if_splits)

lemma currency_validE:
  assumes "currency_valid c"
  obtains e where "currency_exponents c = Some e" and "0 \<le> e" and "e \<le> 8"
  using assms
  by (auto simp: currency_valid_def currency_exponents_def map_of_eq_Some_iff split: if_splits)

lemma currency_invalid_empty [simp]: "\<not> currency_valid []"
  by (simp add: currency_valid_cases)

section \<open>Rates\<close>

definition division_scale :: int where "division_scale = 18"

definition parse_rate :: "'d decimal_ops \<Rightarrow> string \<Rightarrow> 'd result" where
  "parse_rate D s = (case d_parse D s of None \<Rightarrow> Inl ErrSyntax | Some d \<Rightarrow> Inr d)"

definition must_parse_rate :: "'d decimal_ops \<Rightarrow> string \<Rightarrow> 'd result" where
  "must_parse_rate D s = (case parse_rate D s of Inl e \<Rightarrow> Inl Panic | Inr r \<Rightarrow> Inr r)"

definition rate_from_int :: "'d decimal_ops \<Rightarrow> int \<Rightarrow> 'd" where
  "rate_from_int D v = d_of_int D v"

definition rate_from_fraction :: "'d decimal_ops \<Rightarrow> int \<Rightarrow> int \<Rightarrow> 'd result" where
  "rate_from_fraction D num den =
    (if den = 0 then Inl ErrDivideByZero
     else Inr (d_div_round D (d_of_int D num) (d_of_int D den) division_scale))"

definition one_rate :: "'d decimal_ops \<Rightarrow> 'd" where
  "one_rate D = d_of_int D 1"

definition rate_quantize :: "'d decimal_ops \<Rightarrow> 'd \<Rightarrow> int \<Rightarrow> 'd" where
  "rate_quantize D r scale = d_round_bank D r scale"

definition rate_string_fixed :: "'d decimal_ops \<Rightarrow> 'd \<Rightarrow> int \<Rightarrow> string" where
  "rate_string_fixed D r scale = d_string_fixed D (d_round_bank D r scale) scale"

definition rate_div :: "'d decimal_ops \<Rightarrow> 'd \<Rightarrow> 'd \<Rightarrow> 'd result" where
  "rate_div D r p =
    (if d_is_zero D p then Inl ErrDivideByZero else Inr (d_div_round D r p division_scale))"

definition rate_mul_int :: "'d decimal_ops \<Rightarrow> 'd \<Rightarrow> int \<Rightarrow> 'd" where
  "rate_mul_int D r v = d_mul D r (d_of_int D v)"

definition rate_div_int :: "'d decimal_ops \<Rightarrow> 'd \<Rightarrow> int \<Rightarrow> 'd result" where
  "rate_div_int D r v =
    (if v = 0 then Inl ErrDivideByZero else Inr (d_div_round D r (d_of_int D v) division_scale))"

definition rate_clamp :: "'d decimal_ops \<Rightarrow> 'd \<Rightarrow> 'd \<Rightarrow> 'd \<Rightarrow> 'd result" where
  "rate_clamp D r lo hi =
    (if d_lt D hi lo then Inl Panic
     else if d_lt D r lo then Inr lo
     else if d_lt D hi r then Inr hi
     else Inr r)"

definition min_rate :: "'d decimal_ops \<Rightarrow> 'd \<Rightarrow> 'd \<Rightarrow> 'd" where
  "min_rate D a b = (if d_lt D a b then a else b)"

definition max_rate :: "'d decimal_ops \<Rightarrow> 'd \<Rightarrow> 'd \<Rightarrow> 'd" where
  "max_rate D a b = (if d_lt D b a then a else b)"

section \<open>Amounts\<close>

record amount =
  minor :: int
  currency :: currency_code

definition amount_new :: "int \<Rightarrow> currency_code \<Rightarrow> amount result" where
  "amount_new m c =
    (if \<not> currency_valid c then Inl ErrInvalidCurrency else Inr \<lparr>minor = m, currency = c\<rparr>)"

definition must_new :: "int \<Rightarrow> currency_code \<Rightarrow> amount result" where
  "must_new m c = (case amount_new m c of Inl e \<Rightarrow> Inl Panic | Inr a \<Rightarrow> Inr a)"

definition amount_zero :: "currency_code \<Rightarrow> amount result" where
  "amount_zero c = must_new 0 c"

definition amount_valid :: "amount \<Rightarrow> bool" where
  "amount_valid a \<longleftrightarrow> currency_valid (currency a)"

definition amount_is_zero :: "amount \<Rightarrow> bool" where
  "amount_is_zero a \<longleftrightarrow> minor a = 0"

definition amount_positive :: "amount \<Rightarrow> bool" where
  "amount_positive a \<longleftrightarrow> 0 < minor a"

definition amount_negative :: "amount \<Rightarrow> bool" where
  "amount_negative a \<longleftrightarrow> minor a < 0"

definition max_int64_decimal :: "'d decimal_ops \<Rightarrow> 'd" where
  "max_int64_decimal D =
    d_sub D (d_mul D (d_of_int D (2 ^ 62)) (d_of_int D 2)) (d_of_int D 1)"

definition min_int64_decimal :: "'d decimal_ops \<Rightarrow> 'd" where
  "min_int64_decimal D = d_of_int D min64"

definition from_shifted :: "'d decimal_ops \<Rightarrow> 'd \<Rightarrow> currency_code \<Rightarrow> amount result" where
  "from_shifted D shifted c =
    (if d_lt D (max_int64_decimal D) shifted \<or> d_lt D shifted (min_int64_decimal D)
     then Inl ErrOverflow
     else Inr \<lparr>minor = d_int_part D shifted, currency = c\<rparr>)"

definition from_decimal :: "'d decimal_ops \<Rightarrow> 'd \<Rightarrow> currency_code \<Rightarrow> amount result" where
  "from_decimal D d c =
    (if \<not> currency_valid c then Inl ErrInvalidCurrency
     else and_then (currency_exponent c) (\<lambda>e.
       let shifted = d_shift D d e
       in if \<not> d_eq D shifted (d_truncate D shifted 0) then Inl ErrPrecisionLoss
          else from_shifted D shifted c))"

definition from_decimal_rounded :: "'d decimal_ops \<Rightarrow> 'd \<Rightarrow> currency_code \<Rightarrow> amount result" where
  "from_decimal_rounded D d c =
    (if \<not> currency_valid c then Inl ErrInvalidCurrency
     else and_then (currency_exponent c) (\<lambda>e.
       from_shifted D (d_round_bank D (d_shift D d e) 0) c))"

definition parse_amount :: "'d decimal_ops \<Rightarrow> string \<Rightarrow> currency_code \<Rightarrow> amount result" where
  "parse_amount D s c =
    (if \<not> currency_valid c then Inl ErrInvalidCurrency
     else case d_parse D s of None \<Rightarrow> Inl ErrSyntax | Some d \<Rightarrow> from_decimal D d c)"

definition amount_decimal :: "'d decimal_ops \<Rightarrow> amount \<Rightarrow> 'd result" where
  "amount_decimal D a =
    and_then (currency_exponent (currency a)) (\<lambda>e. Inr (d_new D (minor a) (- e)))"

definition amount_string :: "'d decimal_ops \<Rightarrow> amount \<Rightarrow> string result" where
  "amount_string D a =
    (if \<not> amount_valid a then Inr ''<invalid amount>''
     else and_then (amount_decimal D a) (\<lambda>d.
       and_then (currency_exponent (currency a)) (\<lambda>e. Inr (d_string_fixed D d e))))"

definition assert_same_currency :: "amount \<Rightarrow> amount \<Rightarrow> unit result" where
  "assert_same_currency a b =
    (if \<not> currency_valid (currency a) then Inl ErrInvalidCurrency
     else if currency a \<noteq> currency b then Inl ErrCurrencyMismatch
     else Inr ())"

definition amount_add :: "amount \<Rightarrow> amount \<Rightarrow> amount result" where
  "amount_add a b =
    and_then (assert_same_currency a b) (\<lambda>_.
      let s = wrap64 (minor a + minor b)
      in if (minor a > 0 \<and> minor b > 0 \<and> s < 0) \<or> (minor a < 0 \<and> minor b < 0 \<and> s \<ge> 0)
         then Inl ErrOverflow
         else Inr \<lparr>minor = s, currency = currency a\<rparr>)"

definition amount_sub :: "amount \<Rightarrow> amount \<Rightarrow> amount result" where
  "amount_sub a b =
    and_then (assert_same_currency a b) (\<lambda>_.
      if minor b = min64 then Inl ErrOverflow
      else amount_add a \<lparr>minor = wrap64 (- minor b), currency = currency b\<rparr>)"

definition amount_neg :: "amount \<Rightarrow> amount result" where
  "amount_neg a =
    (if \<not> currency_valid (currency a) then Inl ErrInvalidCurrency
     else if minor a = min64 then Inl ErrOverflow
     else Inr \<lparr>minor = wrap64 (- minor a), currency = currency a\<rparr>)"

definition amount_abs :: "amount \<Rightarrow> amount result" where
  "amount_abs a =
    (if minor a \<ge> 0
     then if \<not> currency_valid (currency a) then Inl ErrInvalidCurrency else Inr a
     else amount_neg a)"

definition amount_mul :: "'d decimal_ops \<Rightarrow> amount \<Rightarrow> 'd \<Rightarrow> amount result" where
  "amount_mul D a r =
    (if \<not> currency_valid (currency a) then Inl ErrInvalidCurrency
     else and_then (amount_decimal D a) (\<lambda>d.
       from_decimal_rounded D (d_mul D d r) (currency a)))"

definition amount_mul_int :: "'d decimal_ops \<Rightarrow> amount \<Rightarrow> int \<Rightarrow> amount result" where
  "amount_mul_int D a v =
    (if \<not> currency_valid (currency a) then Inl ErrInvalidCurrency
     else and_then (amount_decimal D a) (\<lambda>d.
       from_decimal D (d_mul D d (d_of_int D v)) (currency a)))"

definition amount_div :: "'d decimal_ops \<Rightarrow> amount \<Rightarrow> 'd \<Rightarrow> amount result" where
  "amount_div D a r =
    (if \<not> currency_valid (currency a) then Inl ErrInvalidCurrency
     else if d_is_zero D r then Inl ErrDivideByZero
     else and_then (amount_decimal D a) (\<lambda>d.
       and_then (currency_exponent (currency a)) (\<lambda>e.
         from_decimal_rounded D (d_div_round D d r (e + division_scale)) (currency a))))"

definition amount_div_floor :: "'d decimal_ops \<Rightarrow> amount \<Rightarrow> 'd \<Rightarrow> amount result" where
  "amount_div_floor D a r =
    (if \<not> currency_valid (currency a) then Inl ErrInvalidCurrency
     else if d_is_zero D r then Inl ErrDivideByZero
     else and_then (amount_decimal D a) (\<lambda>d.
       and_then (currency_exponent (currency a)) (\<lambda>e.
         let q = d_div_round D d r (e + division_scale)
         in from_shifted D (d_floor D (d_shift D q e)) (currency a))))"

definition rate_against :: "'d decimal_ops \<Rightarrow> amount \<Rightarrow> amount \<Rightarrow> 'd result" where
  "rate_against D a b =
    and_then (assert_same_currency a b) (\<lambda>_.
      if minor b = 0 then Inl ErrDivideByZero
      else Inr (d_div_round D (d_of_int D (minor a)) (d_of_int D (minor b)) division_scale))"

definition amount_cmp :: "amount \<Rightarrow> amount \<Rightarrow> int result" where
  "amount_cmp a b =
    and_then (assert_same_currency a b) (\<lambda>_.
      if minor a < minor b then Inr (- 1) else if minor a > minor b then Inr 1 else Inr 0)"

definition amount_equal :: "amount \<Rightarrow> amount \<Rightarrow> bool" where
  "amount_equal a b \<longleftrightarrow> currency a = currency b \<and> minor a = minor b"

definition amount_sum :: "amount list \<Rightarrow> amount result" where
  "amount_sum as =
    (case as of
       [] \<Rightarrow> Inl ErrInvalidCurrency
     | a # rest \<Rightarrow> if \<not> amount_valid a then Inl ErrInvalidCurrency
                   else fold_result (\<lambda>x total. amount_add total x) rest a)"

definition amount_min :: "amount \<Rightarrow> amount \<Rightarrow> amount result" where
  "amount_min a b = and_then (amount_cmp a b) (\<lambda>c. Inr (if c \<le> 0 then a else b))"

definition amount_max :: "amount \<Rightarrow> amount \<Rightarrow> amount result" where
  "amount_max a b = and_then (amount_cmp a b) (\<lambda>c. Inr (if c \<ge> 0 then a else b))"

section \<open>Comparing and adding\<close>

definition amount_ok :: "amount \<Rightarrow> bool" where
  "amount_ok a \<longleftrightarrow> amount_valid a \<and> in64 (minor a)"

lemmas money_predicates = amount_valid_def amount_positive_def amount_negative_def
  amount_is_zero_def amount_ok_def

lemma assert_same_currency_Inr [result_simps]:
  "assert_same_currency a b = Inr u \<longleftrightarrow> currency_valid (currency a) \<and> currency a = currency b"
  by (auto simp: assert_same_currency_def)

lemma assert_same_currency_ok:
  "currency_valid (currency a) \<Longrightarrow> currency a = currency b \<Longrightarrow> assert_same_currency a b = Inr ()"
  by (simp add: assert_same_currency_def)

lemma amount_new_Inr [result_simps]:
  "amount_new m c = Inr a \<longleftrightarrow> currency_valid c \<and> a = \<lparr>minor = m, currency = c\<rparr>"
  by (auto simp: amount_new_def)

lemma must_new_Inr [result_simps]:
  "must_new m c = Inr a \<longleftrightarrow> currency_valid c \<and> a = \<lparr>minor = m, currency = c\<rparr>"
  by (auto simp: must_new_def amount_new_def)

lemma amount_zero_Inr [result_simps]:
  "amount_zero c = Inr a \<longleftrightarrow> currency_valid c \<and> a = \<lparr>minor = 0, currency = c\<rparr>"
  by (simp add: amount_zero_def must_new_Inr)

lemma in64_sum_cases:
  "in64 x \<Longrightarrow> in64 y \<Longrightarrow>
    in64 (x + y) \<or> (max64 < x + y \<and> x + y \<le> 2 * max64 + 1) \<or> (x + y < min64 \<and> 2 * min64 \<le> x + y)"
  by (auto simp: in64_def)

text \<open>The sign test of \<^verbatim>\<open>Add\<close> detects exactly the sums outside the range.\<close>

lemma add_overflow_iff:
  assumes "in64 x" and "in64 y"
  shows "(x > 0 \<and> y > 0 \<and> wrap64 (x + y) < 0) \<or> (x < 0 \<and> y < 0 \<and> wrap64 (x + y) \<ge> 0)
    \<longleftrightarrow> \<not> in64 (x + y)"
proof -
  consider (inside) "in64 (x + y)" | (above) "max64 < x + y" "x + y \<le> 2 * max64 + 1"
    | (below) "x + y < min64" "2 * min64 \<le> x + y"
    using in64_sum_cases [OF assms] by blast
  then show ?thesis
  proof cases
    case inside
    then show ?thesis by (auto simp: wrap64_id)
  next
    case above
    then show ?thesis using assms wrap64_above [OF above]
      by (auto simp: in64_def max64_def min64_def)
  next
    case below
    then show ?thesis using assms wrap64_below [OF below]
      by (auto simp: in64_def max64_def min64_def)
  qed
qed

lemma amount_add_eq:
  assumes "in64 (minor a)" and "in64 (minor b)"
  shows "amount_add a b = and_then (assert_same_currency a b) (\<lambda>_.
    if in64 (minor a + minor b) then Inr \<lparr>minor = minor a + minor b, currency = currency a\<rparr>
    else Inl ErrOverflow)"
proof -
  show ?thesis
    unfolding amount_add_def Let_def add_overflow_iff [OF assms]
    by (cases "in64 (minor a + minor b)") (simp_all add: wrap64_id)
qed

lemma amount_add_Inr:
  assumes "amount_add a b = Inr c" and "in64 (minor a)" and "in64 (minor b)"
  shows "minor c = minor a + minor b" and "currency c = currency a" and "currency b = currency a"
    and "currency_valid (currency a)" and "in64 (minor c)"
  using assms by (auto simp: amount_add_eq result_simps split: if_splits)

lemma amount_add_ok:
  "amount_add a b = Inr c \<Longrightarrow> amount_ok a \<Longrightarrow> amount_ok b \<Longrightarrow> amount_ok c"
  by (auto simp: amount_add_eq result_simps money_predicates split: if_splits)

lemma amount_sub_eq:
  assumes "in64 (minor a)" and "in64 (minor b)"
  shows "amount_sub a b = and_then (assert_same_currency a b) (\<lambda>_.
    if minor b \<noteq> min64 \<and> in64 (minor a - minor b)
    then Inr \<lparr>minor = minor a - minor b, currency = currency a\<rparr> else Inl ErrOverflow)"
proof (cases "currency_valid (currency a) \<and> currency a = currency b \<and> minor b \<noteq> min64")
  case True
  with assms(2) have "in64 (- minor b)" by (auto simp: in64_def min64_def max64_def)
  with True show ?thesis
    unfolding amount_sub_def
    by (simp add: assert_same_currency_def wrap64_id amount_add_eq assms)
next
  case False
  then show ?thesis by (auto simp: amount_sub_def assert_same_currency_def)
qed

lemma amount_sub_Inr:
  assumes "amount_sub a b = Inr c" and "in64 (minor a)" and "in64 (minor b)"
  shows "minor c = minor a - minor b" and "currency c = currency a" and "currency b = currency a"
    and "currency_valid (currency a)" and "in64 (minor c)"
  using assms by (auto simp: amount_sub_eq result_simps split: if_splits)

lemma amount_cmp_Inr [result_simps]:
  "amount_cmp a b = Inr c \<longleftrightarrow>
    currency_valid (currency a) \<and> currency a = currency b \<and> c = cmp_int (minor a) (minor b)"
  by (auto simp: amount_cmp_def assert_same_currency_def cmp_int_def)

lemma amount_cmp_ok:
  "currency_valid (currency a) \<Longrightarrow> currency a = currency b \<Longrightarrow>
    amount_cmp a b = Inr (cmp_int (minor a) (minor b))"
  by (simp add: amount_cmp_Inr)

lemma amount_equal_iff [simp]: "amount_equal a b \<longleftrightarrow> a = b"
  by (auto simp: amount_equal_def)

text \<open>Summing a list.\<close>

lemma fold_amount_add:
  assumes "fold_result (\<lambda>x total. amount_add total x) xs t = Inr s"
    and "in64 (minor t)" and "\<forall>x \<in> set xs. in64 (minor x)"
  shows "minor s = minor t + sum_list (map minor xs) \<and> currency s = currency t
    \<and> (\<forall>x \<in> set xs. currency x = currency t) \<and> in64 (minor s)"
  using assms
proof (induction xs arbitrary: t)
  case Nil
  then show ?case by simp
next
  case (Cons x xs)
  from Cons.prems(1) obtain u where u: "amount_add t x = Inr u"
    "fold_result (\<lambda>x total. amount_add total x) xs u = Inr s"
    by (auto simp: result_simps)
  from Cons.prems have *: "in64 (minor t)" "in64 (minor x)" by auto
  note f = amount_add_Inr [OF u(1) *]
  then show ?case using Cons.IH [OF u(2)] Cons.prems(3) by auto
qed

lemma amount_sum_Inr:
  assumes "amount_sum xs = Inr s" and "\<forall>x \<in> set xs. in64 (minor x)"
  shows "minor s = sum_list (map minor xs)" and "in64 (minor s)" and "xs \<noteq> []"
    and "\<forall>x \<in> set xs. currency x = currency s" and "currency_valid (currency s)"
proof -
  obtain a rest where xs: "xs = a # rest" and v: "amount_valid a"
    and f: "fold_result (\<lambda>x total. amount_add total x) rest a = Inr s"
    using assms(1) by (auto simp: amount_sum_def split: list.splits if_splits)
  have "in64 (minor a)" "\<forall>x \<in> set rest. in64 (minor x)" using assms(2) xs by auto
  note r = fold_amount_add [OF f this]
  show "in64 (minor s)" using r by blast
  show "minor s = sum_list (map minor xs)" "xs \<noteq> []"
    "\<forall>x \<in> set xs. currency x = currency s" "currency_valid (currency s)"
    using r xs v by (auto simp: amount_valid_def)
qed

section \<open>Amounts through decimals\<close>

text \<open>
  What the roundings of \<^verbatim>\<open>Div\<close> and \<^verbatim>\<open>DivFloor\<close> compute, in minor units: the exact
  quotient is first rounded half away from zero at 18 digits, and only then to a whole unit.
\<close>

definition at_scale :: "rat \<Rightarrow> rat" where
  "at_scale y = of_int (round_half_away (y * 10 ^ 18)) / 10 ^ 18"

lemma at_scale_bounds: "y - 1 / (2 * 10 ^ 18) \<le> at_scale y" "at_scale y \<le> y + 1 / (2 * 10 ^ 18)"
  using round_half_away_bounds [of "y * 10 ^ 18"] by (simp_all add: at_scale_def field_simps)

lemma at_scale_mono: "x \<le> y \<Longrightarrow> at_scale x \<le> at_scale y"
  unfolding at_scale_def
  by (intro divide_right_mono) (simp_all add: round_half_away_mono)

lemma at_scale_of_int [simp]: "at_scale (of_int n) = of_int n"
proof -
  have "of_int n * 10 ^ 18 = (of_int (n * 10 ^ 18) :: rat)" by simp
  then have "round_half_away (of_int n * 10 ^ 18) = n * 10 ^ 18"
    by (simp only: round_half_away_of_int)
  then show ?thesis unfolding at_scale_def by simp
qed

lemma floor_at_scale_ge: "\<lfloor>y\<rfloor> \<le> \<lfloor>at_scale y\<rfloor>"
proof -
  have "of_int \<lfloor>y\<rfloor> \<le> at_scale y" using at_scale_mono [of "of_int \<lfloor>y\<rfloor>" y] by simp
  then show ?thesis by (simp add: le_floor_iff)
qed

text \<open>
  A quotient by a rate of at most one with 18 digits stays so far below the next whole unit that
  the first rounding cannot reach it.
\<close>

lemma floor_at_scale_unit_price:
  assumes "0 < k" and "k \<le> 10 ^ 18"
  shows "\<lfloor>at_scale (of_int m * 10 ^ 18 / of_int k)\<rfloor> = m * 10 ^ 18 div k"
proof -
  let ?n = "m * 10 ^ 18"
  let ?y = "of_int ?n / of_int k :: rat"
  let ?f = "?n div k"
  have fl: "\<lfloor>?y\<rfloor> = ?f" by (rule floor_divide_of_int_eq)
  have "?n < (?f + 1) * k" using assms(1) by (metis div_mult_mod_eq pos_mod_bound add_strict_left_mono distrib_right mult_1)
  then have "?n + 1 \<le> (?f + 1) * k" by linarith
  then have "of_int (?n + 1) \<le> (of_int ((?f + 1) * k) :: rat)" by (simp only: of_int_le_iff)
  then have "?y \<le> of_int (?f + 1) - 1 / of_int k"
    using assms(1) by (simp add: field_simps)
  then have "?y * 10 ^ 18 \<le> (of_int (?f + 1) - 1 / of_int k) * 10 ^ 18"
    by (intro mult_right_mono) simp_all
  also have "\<dots> \<le> of_int ((?f + 1) * 10 ^ 18 - 1)"
  proof -
    have "(1 :: rat) \<le> 10 ^ 18 / of_int k"
      using assms of_int_le_iff [of k "10 ^ 18", where ?'a = rat] by (simp add: field_simps)
    then show ?thesis by (simp add: algebra_simps)
  qed
  finally have "round_half_away (?y * 10 ^ 18) \<le> (?f + 1) * 10 ^ 18 - 1"
    by (rule round_half_away_le)
  then have "of_int (round_half_away (?y * 10 ^ 18)) \<le> (of_int ((?f + 1) * 10 ^ 18 - 1) :: rat)"
    by (simp only: of_int_le_iff)
  then have "at_scale ?y < of_int (?f + 1)"
    by (simp add: at_scale_def field_simps)
  then have "\<lfloor>at_scale ?y\<rfloor> < ?f + 1" by (simp only: floor_less_iff)
  then have "\<lfloor>at_scale ?y\<rfloor> \<le> ?f" by simp
  moreover have "?f \<le> \<lfloor>at_scale ?y\<rfloor>" using floor_at_scale_ge [of ?y] fl by simp
  ultimately show ?thesis by simp
qed

definition minor_result :: "int \<Rightarrow> currency_code \<Rightarrow> amount result" where
  "minor_result n c = (if in64 n then Inr \<lparr>minor = n, currency = c\<rparr> else Inl ErrOverflow)"

lemma minor_result_Inr [result_simps]:
  "minor_result n c = Inr a \<longleftrightarrow> in64 n \<and> a = \<lparr>minor = n, currency = c\<rparr>"
  by (auto simp: minor_result_def)

context decimal_lib
begin

lemma from_shifted_int:
  assumes "val x = of_int n"
  shows "from_shifted D x c = minor_result n c"
proof -
  have "val (max_int64_decimal D) = of_int max64"
    by (simp add: max_int64_decimal_def val_simps max64_def)
  moreover have "val (min_int64_decimal D) = of_int min64"
    by (simp add: min_int64_decimal_def val_simps)
  ultimately have "from_shifted D x c =
    (if max64 < n \<or> n < min64 then Inl ErrOverflow else Inr \<lparr>minor = d_int_part D x, currency = c\<rparr>)"
    unfolding from_shifted_def cmp_simps assms by (simp only: of_int_less_iff)
  moreover have "d_int_part D x = n" if "in64 n"
    using int_part [of x] assms that by simp
  ultimately show ?thesis by (auto simp: minor_result_def in64_def)
qed

lemma currency_exponent_Inr: "currency_exponents c = Some e \<Longrightarrow> currency_exponent c = Inr e"
  by (simp add: currency_exponent_def)

lemma from_decimal_rounded_eq:
  assumes "currency_exponents c = Some e"
  shows "from_decimal_rounded D x c = minor_result (round_half_even (val x * 10 powi e)) c"
  using assms
  by (simp add: from_decimal_rounded_def currency_valid_def currency_exponent_Inr
      from_shifted_int [of _ "round_half_even (val x * 10 powi e)"] val_simps)

lemma from_decimal_eq:
  assumes "currency_exponents c = Some e"
  shows "from_decimal D x c =
    (if val x * 10 powi e \<in> \<int> then minor_result \<lfloor>val x * 10 powi e\<rfloor> c else Inl ErrPrecisionLoss)"
proof -
  let ?s = "val x * 10 powi e"
  have t: "val (d_truncate D (d_shift D x e) 0) = of_int (trunc_rat ?s)"
    by (simp add: val_truncate val_simps)
  have int: "?s = of_int (trunc_rat ?s) \<longleftrightarrow> ?s \<in> \<int>"
    by (metis Ints_cases Ints_of_int trunc_rat_of_int)
  show ?thesis
  proof (cases "?s \<in> \<int>")
    case True
    then have "?s = of_int \<lfloor>?s\<rfloor>" by (metis Ints_cases floor_of_int)
    then have "from_shifted D (d_shift D x e) c = minor_result \<lfloor>?s\<rfloor> c"
      by (intro from_shifted_int) (simp add: val_simps)
    with True assms int show ?thesis
      by (simp add: from_decimal_def currency_valid_def currency_exponent_Inr cmp_simps t val_simps)
  next
    case False
    with assms int show ?thesis
      by (simp add: from_decimal_def currency_valid_def currency_exponent_Inr cmp_simps t val_simps)
  qed
qed

lemma amount_decimal_val:
  assumes "currency_exponents (currency a) = Some e"
  obtains d where "amount_decimal D a = Inr d" and "val d * 10 powi e = of_int (minor a)"
proof
  show "amount_decimal D a = Inr (d_new D (minor a) (- e))"
    using assms by (simp add: amount_decimal_def currency_exponent_Inr)
  show "val (d_new D (minor a) (- e)) * 10 powi e = of_int (minor a)"
    by (simp add: val_simps power_int_minus field_simps)
qed

lemma amount_mul_eq:
  assumes "amount_valid a"
  shows "amount_mul D a r = minor_result (round_half_even (of_int (minor a) * val r)) (currency a)"
proof -
  obtain e where e: "currency_exponents (currency a) = Some e"
    using assms by (auto simp: amount_valid_def elim: currency_validE)
  obtain d where d: "amount_decimal D a = Inr d" "val d * 10 powi e = of_int (minor a)"
    using amount_decimal_val [OF e] .
  have "val (d_mul D d r) * 10 powi e = of_int (minor a) * val r"
    using d(2) by (simp add: val_simps mult.assoc mult.commute mult.left_commute flip: d(2))
  then show ?thesis
    using assms d(1) from_decimal_rounded_eq [OF e, of "d_mul D d r"]
    by (simp add: amount_mul_def amount_valid_def)
qed

lemma amount_mul_int_eq:
  assumes "amount_valid a"
  shows "amount_mul_int D a v = minor_result (minor a * v) (currency a)"
proof -
  obtain e where e: "currency_exponents (currency a) = Some e"
    using assms by (auto simp: amount_valid_def elim: currency_validE)
  obtain d where d: "amount_decimal D a = Inr d" "val d * 10 powi e = of_int (minor a)"
    using amount_decimal_val [OF e] .
  have "val (d_mul D d (d_of_int D v)) * 10 powi e = val d * 10 powi e * of_int v"
    by (simp add: val_simps)
  also have "\<dots> = of_int (minor a * v)" by (simp add: d(2))
  finally have *: "val (d_mul D d (d_of_int D v)) * 10 powi e = of_int (minor a * v)" .
  show ?thesis
    using assms d(1) from_decimal_eq [OF e, of "d_mul D d (d_of_int D v)"]
    by (simp only: amount_mul_int_def amount_valid_def * Ints_of_int floor_of_int and_then_simps
        simp_thms if_False if_True)
qed

lemma quotient_val:
  assumes "val r \<noteq> 0" and "val d * 10 powi e = of_int m"
  shows "val (d_div_round D d r (e + division_scale)) * 10 powi e = at_scale (of_int m / val r)"
proof -
  have p: "(10 :: rat) powi (e + 18) = 10 powi e * 10 ^ 18"
    by (simp add: power_int_add flip: power_int_of_nat [of _ 18, simplified])
  have q: "val d / val r * 10 powi (e + 18) = of_int m / val r * 10 ^ 18"
    using assms(2) by (simp add: p flip: assms(2))
  show ?thesis
    unfolding val_div_round [OF assms(1)] division_scale_def q at_scale_def by (simp add: p)
qed

lemma amount_div_eq:
  assumes "amount_valid a" and "val r \<noteq> 0"
  shows "amount_div D a r =
    minor_result (round_half_even (at_scale (of_int (minor a) / val r))) (currency a)"
proof -
  obtain e where e: "currency_exponents (currency a) = Some e"
    using assms(1) by (auto simp: amount_valid_def elim: currency_validE)
  obtain d where d: "amount_decimal D a = Inr d" "val d * 10 powi e = of_int (minor a)"
    using amount_decimal_val [OF e] .
  show ?thesis
    using assms d(1) from_decimal_rounded_eq [OF e] quotient_val [OF assms(2) d(2)]
    by (simp add: amount_div_def amount_valid_def cmp_simps currency_exponent_Inr [OF e])
qed

lemma amount_div_floor_eq:
  assumes "amount_valid a" and "val r \<noteq> 0"
  shows "amount_div_floor D a r =
    minor_result \<lfloor>at_scale (of_int (minor a) / val r)\<rfloor> (currency a)"
proof -
  obtain e where e: "currency_exponents (currency a) = Some e"
    using assms(1) by (auto simp: amount_valid_def elim: currency_validE)
  obtain d where d: "amount_decimal D a = Inr d" "val d * 10 powi e = of_int (minor a)"
    using amount_decimal_val [OF e] .
  let ?q = "d_div_round D d r (e + division_scale)"
  have "val (d_floor D (d_shift D ?q e)) = of_int \<lfloor>at_scale (of_int (minor a) / val r)\<rfloor>"
    using quotient_val [OF assms(2) d(2)] by (simp add: val_simps)
  then show ?thesis
    using assms d(1) from_shifted_int
    by (simp add: amount_div_floor_def amount_valid_def cmp_simps currency_exponent_Inr [OF e] Let_def)
qed

lemma rate_against_val:
  assumes "rate_against D a b = Inr r"
  shows "minor b \<noteq> 0" and "currency a = currency b" and "currency_valid (currency a)"
    and "val r = at_scale (of_int (minor a) / of_int (minor b))"
  using assms
  by (auto simp: rate_against_def result_simps val_div_round val_simps division_scale_def at_scale_def
      split: if_splits)

end

section \<open>Rates through their values\<close>

context decimal_lib
begin

lemma must_parse_rate_literal:
  "decimal_literal s = Some q \<Longrightarrow> \<exists>d. must_parse_rate D s = Inr d \<and> val d = q"
  using parse_literal [of s q] by (auto simp: must_parse_rate_def parse_rate_def)

lemma val_quantize: "val (rate_quantize D r p) = of_int (round_half_even (val r * 10 powi p)) / 10 powi p"
  by (simp add: rate_quantize_def val_round_bank)

lemma quantize_mono: "val r \<le> val s \<Longrightarrow> val (rate_quantize D r p) \<le> val (rate_quantize D s p)"
  unfolding val_quantize
  by (intro divide_right_mono) (simp_all add: round_half_even_mono mult_right_mono)

lemma quantize_nonneg: "0 \<le> val r \<Longrightarrow> 0 \<le> val (rate_quantize D r p)"
  unfolding val_quantize by (intro divide_nonneg_nonneg) (simp_all add: round_half_even_nonneg)

lemma val_one_rate: "val (one_rate D) = 1"
  by (simp add: one_rate_def val_of_int)

lemma rate_clamp_eq:
  assumes "val lo \<le> val hi"
  shows "\<exists>r'. rate_clamp D r lo hi = Inr r' \<and> val r' = max (val lo) (min (val hi) (val r))"
  using assms by (auto simp: rate_clamp_def cmp_simps)

lemma rate_clamp_Inr:
  assumes "rate_clamp D r lo hi = Inr r'"
  shows "val lo \<le> val hi" and "val lo \<le> val r'" and "val r' \<le> val hi"
    and "val r' = max (val lo) (min (val hi) (val r))"
  using assms by (auto simp: rate_clamp_def cmp_simps split: if_splits)

lemma rate_from_fraction_Inr:
  assumes "rate_from_fraction D num den = Inr r"
  shows "den \<noteq> 0" and "val r = at_scale (of_int num / of_int den)"
  using assms
  by (auto simp: rate_from_fraction_def val_div_round val_of_int division_scale_def at_scale_def
      split: if_splits)

end

lemma at_scale_nonneg: "0 \<le> y \<Longrightarrow> 0 \<le> at_scale y"
  using at_scale_mono [of 0 y] at_scale_of_int [of 0] by simp

section \<open>Fields joined with a bar\<close>

text \<open>Several hashes of the program join their fields with \<^verbatim>\<open>|\<close>.\<close>

definition bar_free :: "string \<Rightarrow> bool" where
  "bar_free s \<longleftrightarrow> CHR ''|'' \<notin> set s"

lemma bar_free_fields [simp]:
  "bar_free (int_dec x)"
  "currency_valid c \<Longrightarrow> bar_free c"
  "bar_free s \<Longrightarrow> bar_free (to_lower s)"
  "bar_free s \<Longrightarrow> bar_free (trim_space s)"
proof -
  have "c \<noteq> CHR ''|''" if "c \<in> set (int_dec x)" for c
    using bspec [OF int_dec_chars that] by (auto simp: less_eq_char_def)
  then show "bar_free (int_dec x)" by (auto simp: bar_free_def)
  show "currency_valid c \<Longrightarrow> bar_free c"
    by (auto simp: currency_valid_cases bar_free_def)
  have "lower_char c = CHR ''|'' \<Longrightarrow> c = CHR ''|''" for c
  proof -
    assume c: "lower_char c = CHR ''|''"
    show ?thesis
    proof (cases "CHR ''A'' \<le> c \<and> c \<le> CHR ''Z''")
      case True
      then have "(of_char c :: nat) \<le> 90" by (auto simp: less_eq_char_def)
      moreover have "of_char (char_of (of_char c + 32 :: nat)) = (124 :: nat)"
        using c True by (simp add: lower_char_def)
      ultimately show ?thesis by (simp add: of_char_of)
    next
      case False
      then show ?thesis using c by (auto simp: lower_char_def)
    qed
  qed
  then show "bar_free s \<Longrightarrow> bar_free (to_lower s)"
    by (force simp: bar_free_def to_lower_def)
  show "bar_free s \<Longrightarrow> bar_free (trim_space s)"
    using set_trim_space [of s] by (auto simp: bar_free_def)
qed

lemma bar_free_hex:
  assumes "list_all lower_hex_char s" shows "bar_free s"
  using assms by (auto simp: bar_free_def list_all_iff lower_hex_char_def less_eq_char_def)

lemma bar_free_uuid: "uuid_lib U \<Longrightarrow> bar_free (uuid_string U x)"
  by (auto simp: bar_free_def lower_hex_char_def less_eq_char_def
      dest!: uuid_lib.uuid_string_chars)

lemma bar_free_fixed_text [simp]: "bar_free (fixed_text n p)"
proof -
  have "c \<noteq> CHR ''|''" if "c \<in> set (fixed_text n p)" for c
    using fixed_text_chars [OF that] by (auto simp: less_eq_char_def)
  then show ?thesis by (auto simp: bar_free_def)
qed

context decimal_lib
begin

text \<open>The text of an amount is its minor units with the point moved; it determines the amount.\<close>

lemma amount_string_eq:
  assumes "currency_exponents (currency a) = Some e"
  shows "amount_string D a = Inr (fixed_text (minor a) (nat e))"
proof -
  have valid: "currency_valid (currency a)" using assms by (simp add: currency_valid_def)
  then have e: "0 \<le> e" using assms by (auto elim: currency_validE)
  have "val (d_new D (minor a) (- e)) * 10 powi e = of_int (minor a)"
    by (simp add: val_new power_int_minus)
  then have "round_half_away (val (d_new D (minor a) (- e)) * 10 powi e) = minor a"
    by (metis round_half_away_of_int)
  then show ?thesis
    using valid assms string_fixed [OF e, of "d_new D (minor a) (- e)"]
    by (simp add: amount_string_def amount_valid_def amount_decimal_def currency_exponent_def)
qed

lemma amount_string_inj:
  assumes "amount_valid a" and "currency b = currency a" and "amount_string D a = amount_string D b"
  shows "a = b"
proof -
  obtain e where "currency_exponents (currency a) = Some e"
    using assms(1) by (auto simp: amount_valid_def currency_valid_def)
  then have "fixed_text (minor a) (nat e) = fixed_text (minor b) (nat e)"
    using assms(2,3) amount_string_eq by simp
  then have "minor a = minor b" by (rule fixed_text_inj)
  then show ?thesis using assms(2) by (intro amount.equality) simp_all
qed

lemma amount_string_bar_free:
  assumes "amount_valid a"
  shows "\<exists>s. amount_string D a = Inr s \<and> bar_free s"
proof -
  obtain e where "currency_exponents (currency a) = Some e"
    using assms by (auto simp: amount_valid_def currency_valid_def)
  then show ?thesis using amount_string_eq by simp
qed

end

end
