(* ===== verification/Money_Facts.thy ===== *)
theory Money_Facts
  imports Money
begin

text \<open>
  What \<^verbatim>\<open>internal/platform/money/amount.go\<close> promises its callers: the text of an amount
  reads back as the amount, arithmetic is exact or fails with a named error, and rounding stays within half
  a minor unit.
\<close>

section \<open>Decimal texts\<close>

lemma foldl_digits:
  "foldl (\<lambda>a c. 10 * a + digit_val c) b s = b * 10 ^ length s + foldl (\<lambda>a c. 10 * a + digit_val c) 0 s"
proof (induction s arbitrary: b)
  case Nil
  then show ?case by simp
next
  case (Cons c s)
  have "foldl (\<lambda>a c. 10 * a + digit_val c) b (c # s) =
      (10 * b + digit_val c) * 10 ^ length s + foldl (\<lambda>a c. 10 * a + digit_val c) 0 s"
    using Cons [of "10 * b + digit_val c"] by simp
  also have "\<dots> = b * 10 ^ length (c # s) +
      (digit_val c * 10 ^ length s + foldl (\<lambda>a c. 10 * a + digit_val c) 0 s)"
    by (simp add: algebra_simps)
  finally show ?case using Cons [of "digit_val c"] by simp
qed

lemma dec_value_append: "dec_value (s @ t) = dec_value s * 10 ^ length t + dec_value t"
  using foldl_digits [of "dec_value s" t] by (simp add: dec_value_def)

lemma length_nat_dec: "0 < p \<Longrightarrow> n < 10 ^ p \<Longrightarrow> length (nat_dec n) \<le> p"
proof (induction n arbitrary: p rule: nat_dec.induct)
  case (1 n)
  show ?case
  proof (cases "n < 10")
    case True
    then show ?thesis using 1(2) by (subst nat_dec.simps) simp
  next
    case False
    then obtain q where q: "p = Suc q" "0 < q" using 1(2,3) by (cases p; cases "p - 1") auto
    then have "n div 10 < 10 ^ q" using 1(3) by (simp add: less_mult_imp_div_less mult.commute)
    then have "length (nat_dec (n div 10)) \<le> q" using 1(1) False q(2) by blast
    then show ?thesis using False q by (subst nat_dec.simps) simp
  qed
qed

lemma digits_only_nat_dec [simp]: "digits_only (nat_dec n)"
  using nat_dec_digits by (simp add: digits_only_def list_all_iff)

lemma digits_only_pad [simp]: "digits_only s \<Longrightarrow> digits_only (pad_left p s)"
  by (auto simp: digits_only_def list_all_iff pad_left_def less_eq_char_def)

lemma length_pad: "length s \<le> p \<Longrightarrow> length (pad_left p s) = p"
  by (simp add: pad_left_def)

text \<open>The text \<^verbatim>\<open>StringFixed\<close> prints is a literal with exactly the printed value.\<close>

lemma unsigned_literal_fixed:
  "unsigned_literal (if p = 0 then nat_dec n else nat_dec (n div 10 ^ p) @ ''.'' @ pad_left p (nat_dec (n mod 10 ^ p)))
    = Some (of_nat n / 10 ^ p)"
proof (cases "p = 0")
  case True
  have "\<forall>c \<in> set (nat_dec n). c \<noteq> CHR ''.''" using nat_dec_no(1) by metis
  then have whole: "takeWhile (\<lambda>c. c \<noteq> CHR ''.'') (nat_dec n) = nat_dec n"
    "dropWhile (\<lambda>c. c \<noteq> CHR ''.'') (nat_dec n) = []"
    by (simp_all add: takeWhile_eq_all_conv dropWhile_eq_Nil_conv)
  have "digits_only []" by (simp add: digits_only_def)
  then have "unsigned_literal (nat_dec n) = Some (of_nat n / 10 ^ 0)"
    by (simp add: unsigned_literal_def Let_def whole)
  then show ?thesis using True by simp
next
  case False
  let ?ip = "nat_dec (n div 10 ^ p)" and ?fp = "pad_left p (nat_dec (n mod 10 ^ p))"
  have no: "\<forall>c \<in> set ?ip. c \<noteq> CHR ''.''" using nat_dec_no(1) by metis
  then have "takeWhile (\<lambda>c. c \<noteq> CHR ''.'') (?ip @ CHR ''.'' # ?fp) = ?ip"
    "dropWhile (\<lambda>c. c \<noteq> CHR ''.'') (?ip @ CHR ''.'' # ?fp) = CHR ''.'' # ?fp"
    by (simp_all add: takeWhile_append2 dropWhile_append2)
  moreover have len: "length ?fp = p"
    using False by (intro length_pad length_nat_dec) simp_all
  moreover have "dec_value (?ip @ ?fp) = n"
    by (simp only: dec_value_append len dec_value_nat_dec dec_value_pad_left div_mult_mod_eq)
  ultimately show ?thesis using False by (simp add: unsigned_literal_def Let_def)
qed

lemma decimal_literal_fixed: "decimal_literal (fixed_text n p) = Some (of_int n / 10 ^ p)"
proof -
  let ?t = "if p = 0 then nat_dec (nat \<bar>n\<bar>)
    else nat_dec (nat \<bar>n\<bar> div 10 ^ p) @ ''.'' @ pad_left p (nat_dec (nat \<bar>n\<bar> mod 10 ^ p))"
  have t: "unsigned_literal ?t = Some (of_nat (nat \<bar>n\<bar>) / 10 ^ p)" by (rule unsigned_literal_fixed)
  have head: "\<exists>c s. nat_dec k = c # s \<and> c \<noteq> CHR ''-''" for k
    using nat_dec_no(2) [of k] nat_dec_nonempty [of k] by (cases "nat_dec k") auto
  obtain c s where cs: "?t = c # s" "c \<noteq> CHR ''-''"
    using head [of "nat \<bar>n\<bar>"] head [of "nat \<bar>n\<bar> div 10 ^ p"] by (cases "p = 0") auto
  show ?thesis
  proof (cases "n < 0")
    case True
    then have "fixed_text n p = CHR ''-'' # ?t" by (simp add: fixed_text_def)
    then show ?thesis using True t by (simp add: decimal_literal_def)
  next
    case False
    then have "fixed_text n p = ?t" by (simp add: fixed_text_def)
    then have "decimal_literal (fixed_text n p) = unsigned_literal ?t"
      using cs by (simp only: decimal_literal_def list.case if_False)
    then show ?thesis using False t by simp
  qed
qed

context decimal_lib
begin

lemma parse_amount_string:
  assumes "amount_ok a"
  shows "\<exists>s. amount_string D a = Inr s \<and> parse_amount D s (currency a) = Inr a"
proof -
  obtain e where e: "currency_exponents (currency a) = Some e" "0 \<le> e"
    using assms by (auto simp: amount_ok_def amount_valid_def elim: currency_validE)
  have valid: "currency_valid (currency a)" using e(1) by (simp add: currency_valid_def)
  obtain d where d: "d_parse D (fixed_text (minor a) (nat e)) = Some d" "val d = of_int (minor a) / 10 ^ nat e"
    using parse_literal [OF decimal_literal_fixed] by blast
  have "val d * 10 powi e = of_int (minor a)"
    using e(2) by (simp add: d(2) power_int_def)
  then have "from_decimal D d (currency a) = minor_result (minor a) (currency a)"
    by (simp only: from_decimal_eq [OF e(1)] Ints_of_int floor_of_int if_True)
  moreover have "minor_result (minor a) (currency a) = Inr a"
    using assms by (simp add: minor_result_def amount_ok_def)
  ultimately show ?thesis
    using amount_string_eq [OF e(1)] valid d(1) by (simp add: parse_amount_def)
qed

lemma amount_mul_close:
  assumes "amount_valid a" and "amount_mul D a r = Inr c"
  shows "\<bar>of_int (minor c) - of_int (minor a) * val r\<bar> \<le> 1 / 2"
proof -
  have "minor c = round_half_even (of_int (minor a) * val r)"
    using assms(2) by (auto simp: amount_mul_eq [OF assms(1)] result_simps)
  then show ?thesis using round_half_even_bounds [of "of_int (minor a) * val r"] by linarith
qed

lemma amount_div_close:
  assumes "amount_valid a" and "amount_div D a r = Inr c"
  shows "\<bar>of_int (minor c) - of_int (minor a) / val r\<bar> \<le> 1 / 2 + 1 / (2 * 10 ^ 18)"
proof -
  have r: "val r \<noteq> 0" using assms by (auto simp: amount_div_def cmp_simps split: if_splits)
  let ?q = "of_int (minor a) / val r"
  have "minor c = round_half_even (at_scale ?q)"
    using assms(2) by (auto simp: amount_div_eq [OF assms(1) r] result_simps)
  then show ?thesis
    using round_half_even_bounds [of "at_scale ?q"] at_scale_bounds [of ?q] by linarith
qed

lemma amount_div_floor_close:
  assumes "amount_valid a" and "amount_div_floor D a r = Inr c"
  shows "of_int (minor c) \<le> of_int (minor a) / val r + 1 / (2 * 10 ^ 18)"
    and "of_int (minor a) / val r - 1 / (2 * 10 ^ 18) < of_int (minor c) + 1"
proof -
  have r: "val r \<noteq> 0" using assms by (auto simp: amount_div_floor_def cmp_simps split: if_splits)
  let ?q = "of_int (minor a) / val r"
  have c: "minor c = \<lfloor>at_scale ?q\<rfloor>"
    using assms(2) by (auto simp: amount_div_floor_eq [OF assms(1) r] result_simps)
  show "of_int (minor c) \<le> ?q + 1 / (2 * 10 ^ 18)"
    using of_int_floor_le [of "at_scale ?q"] at_scale_bounds(2) [of ?q] unfolding c by linarith
  show "?q - 1 / (2 * 10 ^ 18) < of_int (minor c) + 1"
    using at_scale_bounds(1) [of ?q] unfolding c by linarith
qed

end

section \<open>Properties\<close>

text \<open>C11: Every amount prints, and parsing the printed text in its currency gives the amount back: the exponent
  of the currency, the sign and the zero padding lose nothing.\<close>

theorem amount_text_round_trip:
  assumes "decimal_lib D val" and "amount_ok a"
  shows "\<exists>s. amount_string D a = Inr s \<and> parse_amount D s (currency a) = Inr a"
  by (rule decimal_lib.parse_amount_string [OF assms])

theorem amount_text_round_trip_witness:
  "\<exists>s. amount_string rat_decimal \<lparr>minor = - 1205, currency = ''USD''\<rparr> = Inr s \<and>
    parse_amount rat_decimal s ''USD'' = Inr \<lparr>minor = - 1205, currency = ''USD''\<rparr>"
  using amount_text_round_trip [OF ratd.decimal_lib_axioms, of "\<lparr>minor = - 1205, currency = ''USD''\<rparr>"]
  by (simp add: amount_ok_def amount_valid_def currency_valid_cases in64_def min64_def max64_def)

text \<open>C12: The arithmetic of amounts never wraps: adding, subtracting, negating, taking the absolute value and
  multiplying by an integer give the exact integer result in the same currency when it fits 64 bits, and the
  overflow error when it does not; two currencies never mix. The one value that cannot be subtracted, although
  the difference may fit, is the least integer.\<close>

theorem amount_arithmetic_exact:
  assumes "decimal_lib D val" and "amount_ok a" and "amount_ok b"
  shows "amount_add a b = (if currency a \<noteq> currency b then Inl ErrCurrencyMismatch
      else minor_result (minor a + minor b) (currency a)) \<and>
    amount_sub a b = (if currency a \<noteq> currency b then Inl ErrCurrencyMismatch
      else if minor b = min64 then Inl ErrOverflow else minor_result (minor a - minor b) (currency a)) \<and>
    amount_neg a = minor_result (- minor a) (currency a) \<and>
    amount_abs a = minor_result \<bar>minor a\<bar> (currency a) \<and>
    amount_mul_int D a v = minor_result (minor a * v) (currency a) \<and>
    amount_cmp a b = (if currency a \<noteq> currency b then Inl ErrCurrencyMismatch
      else Inr (cmp_int (minor a) (minor b)))"
proof -
  have ok: "in64 (minor a)" "in64 (minor b)" "currency_valid (currency a)" "amount_valid a"
    using assms(2,3) by (simp_all add: amount_ok_def amount_valid_def)
  have neg: "amount_neg a = minor_result (- minor a) (currency a)"
    using ok by (auto simp: amount_neg_def minor_result_def in64_def min64_def max64_def wrap64_def)
  moreover have "amount_abs a = minor_result \<bar>minor a\<bar> (currency a)"
    using ok neg by (simp add: amount_abs_def minor_result_def)
  moreover have "amount_cmp a b = (if currency a \<noteq> currency b then Inl ErrCurrencyMismatch
      else Inr (cmp_int (minor a) (minor b)))"
    using ok by (simp add: amount_cmp_def assert_same_currency_def cmp_int_def)
  moreover have "amount_add a b = (if currency a \<noteq> currency b then Inl ErrCurrencyMismatch
      else minor_result (minor a + minor b) (currency a))"
    using ok by (simp add: amount_add_eq assert_same_currency_def minor_result_def)
  moreover have "amount_sub a b = (if currency a \<noteq> currency b then Inl ErrCurrencyMismatch
      else if minor b = min64 then Inl ErrOverflow else minor_result (minor a - minor b) (currency a))"
    using ok by (simp add: amount_sub_eq assert_same_currency_def minor_result_def)
  ultimately show ?thesis
    using decimal_lib.amount_mul_int_eq [OF assms(1) ok(4)] by blast
qed

theorem amount_arithmetic_exact_witness:
  "amount_add \<lparr>minor = max64, currency = ''EUR''\<rparr> \<lparr>minor = 1, currency = ''EUR''\<rparr> = Inl ErrOverflow"
  using amount_arithmetic_exact [OF ratd.decimal_lib_axioms, of "\<lparr>minor = max64, currency = ''EUR''\<rparr>"
      "\<lparr>minor = 1, currency = ''EUR''\<rparr>"]
  by (simp add: amount_ok_def amount_valid_def currency_valid_cases in64_def min64_def max64_def minor_result_def)

text \<open>Multiplying by a rate is within half a minor unit of the exact product; dividing is within half a minor
  unit of the exact quotient, up to the half unit of the eighteenth decimal that the quotient is rounded to
  first; the flooring division never exceeds the exact quotient by more than that, nor falls short of it by a
  whole unit more.\<close>

theorem amount_rounding:
  assumes "decimal_lib D val" and "amount_ok a"
  shows "(\<forall>c. amount_mul D a r = Inr c \<longrightarrow> \<bar>of_int (minor c) - of_int (minor a) * val r\<bar> \<le> 1 / 2) \<and>
    (\<forall>c. amount_div D a r = Inr c \<longrightarrow>
      \<bar>of_int (minor c) - of_int (minor a) / val r\<bar> \<le> 1 / 2 + 1 / (2 * 10 ^ 18)) \<and>
    (\<forall>c. amount_div_floor D a r = Inr c \<longrightarrow>
      of_int (minor c) \<le> of_int (minor a) / val r + 1 / (2 * 10 ^ 18) \<and>
      of_int (minor a) / val r - 1 / (2 * 10 ^ 18) < of_int (minor c) + 1)"
proof -
  have "amount_valid a" using assms(2) by (simp add: amount_ok_def)
  then show ?thesis
    using decimal_lib.amount_mul_close [OF assms(1)] decimal_lib.amount_div_close [OF assms(1)]
      decimal_lib.amount_div_floor_close [OF assms(1)] by blast
qed

theorem amount_rounding_witness:
  "\<exists>c. amount_mul rat_decimal \<lparr>minor = 10, currency = ''USD''\<rparr> (9 / 20) = Inr c \<and>
    \<bar>of_int (minor c) - 10 * (9 / 20 :: rat)\<bar> \<le> 1 / 2"
proof -
  let ?a = "\<lparr>minor = 10, currency = ''USD''\<rparr>"
  have ok: "amount_ok ?a" "amount_valid ?a"
    by (simp_all add: amount_ok_def amount_valid_def currency_valid_cases in64_def min64_def max64_def)
  have "amount_mul rat_decimal ?a (9 / 20) = Inr \<lparr>minor = 4, currency = ''USD''\<rparr>"
    by (simp add: ratd.amount_mul_eq [OF ok(2)] minor_result_def round_half_even_def in64_def min64_def
        max64_def floor_divide_of_int_eq [of 9 2, simplified])
  then show ?thesis
    using amount_rounding [OF ratd.decimal_lib_axioms ok(1), of "9 / 20"] by auto
qed

text \<open>The flooring division can round up: the quotient is rounded to eighteen digits before it is floored.\<close>

theorem div_floor_rounds_up:
  "amount_div_floor rat_decimal \<lparr>minor = 1, currency = ''JPY''\<rparr> (1 + 1 / 10 ^ 19) =
     Inr \<lparr>minor = 1, currency = ''JPY''\<rparr> \<and>
   (1 :: rat) < 1 * (1 + 1 / 10 ^ 19)"
proof
  have "at_scale (1 / (1 + 1 / 10 ^ 19)) = 1"
    by (simp add: at_scale_def round_half_away_def floor_eq_iff)
  then show "amount_div_floor rat_decimal \<lparr>minor = 1, currency = ''JPY''\<rparr> (1 + 1 / 10 ^ 19) =
      Inr \<lparr>minor = 1, currency = ''JPY''\<rparr>"
    by (subst ratd.amount_div_floor_eq)
      (simp_all add: amount_valid_def currency_valid_cases minor_result_def in64_def min64_def max64_def)
qed simp

end
