(* ===== verification/Risk.thy ===== *)
theory Risk
  imports Money
begin

text \<open>
  \<^verbatim>\<open>internal/risk\<close>: the versioned scoring model. Grades, the feature vector and its
  contributions, the logistic probability of default, loss given default, expected loss, the
  discount rate and the reserve price, and the assessment that records them. The exponential is
  the decimal package's \<^verbatim>\<open>ExpTaylor\<close>; nothing is assumed of it.
\<close>

section \<open>Grades\<close>

type_synonym grade = string

definition grade_ranks :: "grade \<Rightarrow> int option" where
  "grade_ranks = map_of [(''A'', 0), (''B'', 1), (''C'', 2), (''D'', 3), (''E'', 4)]"

definition grade_valid :: "grade \<Rightarrow> bool" where
  "grade_valid g \<longleftrightarrow> grade_ranks g \<noteq> None"

definition parse_grade :: "string \<Rightarrow> grade result" where
  "parse_grade s = (if grade_valid s then Inr s else Inl ErrValidation)"

definition grade_rank :: "grade \<Rightarrow> int result" where
  "grade_rank g = (case grade_ranks g of None \<Rightarrow> Inl Panic | Some r \<Rightarrow> Inr r)"

definition grade_at_most :: "grade \<Rightarrow> grade \<Rightarrow> bool result" where
  "grade_at_most g limit =
    and_then (grade_rank g) (\<lambda>x. and_then (grade_rank limit) (\<lambda>y. Inr (x \<le> y)))"

text \<open>The exclusive upper bounds of the bands; the last grade has none.\<close>

definition grade_bands :: "'d decimal_ops \<Rightarrow> (grade \<times> 'd) list result" where
  "grade_bands D = traverse
    (\<lambda>(g, upper). and_then (must_parse_rate D upper) (\<lambda>u. Inr (g, u)))
    [(''A'', ''0.02''), (''B'', ''0.05''), (''C'', ''0.10''), (''D'', ''0.20'')]"

definition grade_from_pd :: "'d decimal_ops \<Rightarrow> 'd \<Rightarrow> grade result" where
  "grade_from_pd D pd =
    and_then (grade_bands D) (\<lambda>bands.
      Inr (case find (\<lambda>(g, upper). d_cmp D pd upper < 0) bands of
             Some (g, _) \<Rightarrow> g | None \<Rightarrow> ''E''))"

section \<open>Features and contributions\<close>

record 'd features =
  dso_norm :: 'd
  late_payment_rate :: 'd
  dispute_flag :: 'd
  debtor_concentration :: 'd
  market_volatility :: 'd
  debtor_risk :: 'd

record 'd coefficients =
  co_intercept :: 'd
  co_dso_norm :: 'd
  co_late_payment_rate :: 'd
  co_dispute_flag :: 'd
  co_debtor_concentration :: 'd
  co_market_volatility :: 'd
  co_debtor_risk :: 'd

definition rate_scale :: int where "rate_scale = 6"

definition exp_precision :: int where "exp_precision = 18"

definition feature_refs ::
    "(string \<times> ('d features \<Rightarrow> 'd) \<times> ('d coefficients \<Rightarrow> 'd)) list" where
  "feature_refs =
    [(''dso_norm'', dso_norm, co_dso_norm),
     (''late_payment_rate'', late_payment_rate, co_late_payment_rate),
     (''dispute_flag'', dispute_flag, co_dispute_flag),
     (''debtor_concentration'', debtor_concentration, co_debtor_concentration),
     (''market_volatility'', market_volatility, co_market_volatility),
     (''debtor_risk'', debtor_risk, co_debtor_risk)]"

definition features_validate :: "'d decimal_ops \<Rightarrow> 'd features \<Rightarrow> app_error list" where
  "features_validate D f =
    concat (map (\<lambda>(name, value, coeff).
      violation (d_is_negative D (value f) \<or> d_cmp D (value f) (one_rate D) > 0)
        (Invalid (''features.'' @ name))) feature_refs)"

record 'd contribution =
  ct_feature :: string
  ct_value :: 'd
  ct_weight :: 'd
  ct_effect :: 'd

definition contributions :: "'d decimal_ops \<Rightarrow> 'd features \<Rightarrow> 'd coefficients \<Rightarrow> 'd contribution list" where
  "contributions D f c =
    map (\<lambda>(name, value, coeff).
      \<lparr>ct_feature = name, ct_value = value f, ct_weight = coeff c,
       ct_effect = rate_quantize D (d_mul D (coeff c) (value f)) rate_scale\<rparr>) feature_refs"

definition log_odds :: "'d decimal_ops \<Rightarrow> 'd features \<Rightarrow> 'd coefficients \<Rightarrow> 'd" where
  "log_odds D f c =
    foldl (\<lambda>z ct. d_add D z (ct_effect ct)) (co_intercept c) (contributions D f c)"

definition sigmoid :: "'d decimal_ops \<Rightarrow> 'd \<Rightarrow> 'd result" where
  "sigmoid D z =
    (case d_exp_taylor D (d_neg D z) exp_precision of
       None \<Rightarrow> Inl (Invalid ''features'')
     | Some exp_neg_z \<Rightarrow>
         let denominator = d_add D (d_of_int D 1) exp_neg_z
         in if d_is_zero D denominator then Inl (Invalid ''features'')
            else Inr (d_div_round D (d_of_int D 1) denominator rate_scale))"

section \<open>The model\<close>

record 'd pricing_params =
  risk_multiplier :: 'd
  concentration_weight :: 'd
  platform_fee_rate :: 'd
  max_discount_apr :: 'd
  day_count :: int

record mitigations =
  recourse :: bool
  collateralized :: bool

record 'd risk_model =
  model_version :: string
  model_coefficients :: "'d coefficients"
  pd_floor :: 'd
  pd_ceiling :: 'd
  lgd_base :: 'd
  lgd_recourse_relief :: 'd
  lgd_collateral_relief :: 'd
  lgd_floor :: 'd
  lgd_ceiling :: 'd
  min_confidence :: 'd
  model_pricing :: "'d pricing_params"

definition pricing_params_v1 :: "'d decimal_ops \<Rightarrow> 'd pricing_params result" where
  "pricing_params_v1 D =
    and_then (must_parse_rate D ''2.5'') (\<lambda>mult.
    and_then (must_parse_rate D ''0.02'') (\<lambda>weight.
    and_then (must_parse_rate D ''0.005'') (\<lambda>fee.
    and_then (must_parse_rate D ''0.60'') (\<lambda>cap.
      Inr \<lparr>risk_multiplier = mult, concentration_weight = weight, platform_fee_rate = fee,
           max_discount_apr = cap, day_count = 365\<rparr>))))"

definition coefficients_v1 :: "'d decimal_ops \<Rightarrow> 'd coefficients result" where
  "coefficients_v1 D =
    and_then (must_parse_rate D ''-5.5'') (\<lambda>b0.
    and_then (must_parse_rate D ''1.8'') (\<lambda>b1.
    and_then (must_parse_rate D ''2.4'') (\<lambda>b2.
    and_then (must_parse_rate D ''1.1'') (\<lambda>b3.
    and_then (must_parse_rate D ''0.9'') (\<lambda>b4.
    and_then (must_parse_rate D ''0.7'') (\<lambda>b5.
    and_then (must_parse_rate D ''2.2'') (\<lambda>b6.
      Inr \<lparr>co_intercept = b0, co_dso_norm = b1, co_late_payment_rate = b2, co_dispute_flag = b3,
           co_debtor_concentration = b4, co_market_volatility = b5, co_debtor_risk = b6\<rparr>)))))))"

definition model_v1 :: "'d decimal_ops \<Rightarrow> 'd risk_model result" where
  "model_v1 D =
    and_then (coefficients_v1 D) (\<lambda>co.
    and_then (must_parse_rate D ''0.001'') (\<lambda>pdf.
    and_then (must_parse_rate D ''0.80'') (\<lambda>pdc.
    and_then (must_parse_rate D ''0.45'') (\<lambda>base.
    and_then (must_parse_rate D ''0.15'') (\<lambda>rec.
    and_then (must_parse_rate D ''0.10'') (\<lambda>coll.
    and_then (must_parse_rate D ''0.10'') (\<lambda>lgdf.
    and_then (must_parse_rate D ''0.90'') (\<lambda>lgdc.
    and_then (must_parse_rate D ''0.85'') (\<lambda>conf.
    and_then (pricing_params_v1 D) (\<lambda>pr.
      Inr \<lparr>model_version = ''risk-v1'', model_coefficients = co, pd_floor = pdf, pd_ceiling = pdc,
           lgd_base = base, lgd_recourse_relief = rec, lgd_collateral_relief = coll,
           lgd_floor = lgdf, lgd_ceiling = lgdc, min_confidence = conf,
           model_pricing = pr\<rparr>))))))))))"

definition probability_of_default :: "'d decimal_ops \<Rightarrow> 'd risk_model \<Rightarrow> 'd features \<Rightarrow> 'd result" where
  "probability_of_default D m f =
    checked (features_validate D f)
      (and_then (sigmoid D (log_odds D f (model_coefficients m))) (\<lambda>pd.
        rate_clamp D (rate_quantize D pd rate_scale) (pd_floor m) (pd_ceiling m)))"

definition loss_given_default :: "'d decimal_ops \<Rightarrow> 'd risk_model \<Rightarrow> mitigations \<Rightarrow> 'd result" where
  "loss_given_default D m mit =
    (let lgd = lgd_base m;
         lgd = (if recourse mit then d_sub D lgd (lgd_recourse_relief m) else lgd);
         lgd = (if collateralized mit then d_sub D lgd (lgd_collateral_relief m) else lgd)
     in rate_clamp D (rate_quantize D lgd rate_scale) (lgd_floor m) (lgd_ceiling m))"

definition expected_loss :: "'d decimal_ops \<Rightarrow> 'd \<Rightarrow> 'd \<Rightarrow> amount \<Rightarrow> amount result" where
  "expected_loss D pd lgd ead =
    (if \<not> amount_positive ead then Inl (Invalid ''face'') else amount_mul D ead (d_mul D pd lgd))"

definition requires_manual_review :: "'d decimal_ops \<Rightarrow> 'd risk_model \<Rightarrow> 'd \<Rightarrow> bool \<Rightarrow> bool" where
  "requires_manual_review D m confidence arithmetic_valid \<longleftrightarrow>
    \<not> arithmetic_valid \<or> d_cmp D confidence (min_confidence m) < 0"

section \<open>Pricing\<close>

record 'd premiums =
  prem_risk :: 'd
  prem_liquidity :: 'd
  prem_concentration :: 'd

definition premiums_total :: "'d decimal_ops \<Rightarrow> 'd premiums \<Rightarrow> 'd" where
  "premiums_total D p = d_add D (d_add D (prem_risk p) (prem_liquidity p)) (prem_concentration p)"

definition risk_premium :: "'d decimal_ops \<Rightarrow> 'd risk_model \<Rightarrow> 'd \<Rightarrow> 'd \<Rightarrow> 'd" where
  "risk_premium D m pd lgd =
    rate_quantize D (d_mul D (d_mul D pd lgd) (risk_multiplier (model_pricing m))) rate_scale"

definition concentration_premium :: "'d decimal_ops \<Rightarrow> 'd risk_model \<Rightarrow> 'd \<Rightarrow> 'd" where
  "concentration_premium D m conc =
    rate_quantize D (d_mul D conc (concentration_weight (model_pricing m))) rate_scale"

record 'd price_input =
  pi_face :: amount
  pi_days_to_due :: int
  pi_benchmark :: 'd
  pi_liquidity_premium :: 'd
  pi_pd :: 'd
  pi_lgd :: 'd
  pi_debtor_concentration :: 'd

record 'd price =
  pr_premiums :: "'d premiums"
  pr_discount_apr :: 'd
  pr_platform_fee :: amount
  pr_reserve_price :: amount

definition price_premiums :: "'d decimal_ops \<Rightarrow> 'd risk_model \<Rightarrow> 'd price_input \<Rightarrow> 'd premiums" where
  "price_premiums D m i =
    \<lparr>prem_risk = risk_premium D m (pi_pd i) (pi_lgd i),
     prem_liquidity = rate_quantize D (pi_liquidity_premium i) rate_scale,
     prem_concentration = concentration_premium D m (pi_debtor_concentration i)\<rparr>"

definition price_discount :: "'d decimal_ops \<Rightarrow> 'd risk_model \<Rightarrow> 'd price_input \<Rightarrow> 'd" where
  "price_discount D m i =
    rate_quantize D (d_add D (pi_benchmark i) (premiums_total D (price_premiums D m i))) rate_scale"

definition price_receivable :: "'d decimal_ops \<Rightarrow> 'd risk_model \<Rightarrow> 'd price_input \<Rightarrow> 'd price result" where
  "price_receivable D m i =
    (if \<not> amount_positive (pi_face i) then Inl (Invalid ''face'')
     else if pi_days_to_due i \<le> 0 then Inl (Invalid ''days_to_due'')
     else if d_is_negative D (pi_benchmark i) then Inl (Invalid ''benchmark_apr'')
     else if d_is_negative D (pi_liquidity_premium i) then Inl (Invalid ''liquidity_premium'')
     else
       let premiums = price_premiums D m i;
           discount = price_discount D m i
       in if d_cmp D discount (max_discount_apr (model_pricing m)) > 0 then Inl (Invalid ''discount_apr'')
          else
            and_then (rate_from_fraction D (pi_days_to_due i) (day_count (model_pricing m))) (\<lambda>tenor.
            let divisor = d_add D (one_rate D) (d_mul D discount tenor)
            in and_then (amount_div D (pi_face i) divisor) (\<lambda>present_value.
               and_then (amount_mul D (pi_face i) (platform_fee_rate (model_pricing m))) (\<lambda>fee.
               and_then (amount_sub present_value fee) (\<lambda>reserve.
                 if \<not> amount_positive reserve then Inl (Invalid ''reserve_price'')
                 else Inr \<lparr>pr_premiums = premiums, pr_discount_apr = discount,
                           pr_platform_fee = fee, pr_reserve_price = reserve\<rparr>)))))"

section \<open>Assessments\<close>

record 'd assess_input =
  as_id :: uuid
  as_invoice_id :: uuid
  as_face :: amount
  as_days_to_due :: int
  as_features :: "'d features"
  as_confidence :: 'd
  as_mitigations :: mitigations
  as_arithmetic_valid :: bool
  as_benchmark :: 'd
  as_liquidity_premium :: 'd
  as_market_snapshot_hash :: string
  as_confidential_commitment :: string
  as_confidential_nonce :: string

record 'd assessment =
  am_id :: uuid
  am_invoice_id :: uuid
  am_model_version :: string
  am_features :: "'d features"
  am_contributions :: "'d contribution list"
  am_confidence :: 'd
  am_pd :: 'd
  am_lgd :: 'd
  am_expected_loss :: amount
  am_grade :: grade
  am_benchmark_apr :: 'd
  am_premiums :: "'d premiums"
  am_discount_apr :: 'd
  am_platform_fee :: amount
  am_reserve_price :: amount
  am_market_snapshot_hash :: string
  am_confidential_commitment :: string
  am_confidential_nonce :: string
  am_requires_manual_review :: bool
  am_created_at :: int

definition assess_validate :: "'d decimal_ops \<Rightarrow> 'd assess_input \<Rightarrow> app_error list" where
  "assess_validate D i =
     violation (as_id i = uuid_nil) (Invalid ''id'')
     @ violation (as_invoice_id i = uuid_nil) (Invalid ''invoice_id'')
     @ violation (d_is_negative D (as_confidence i) \<or> d_cmp D (as_confidence i) (one_rate D) > 0)
         (Invalid ''confidence'')
     @ violation (\<not> commitment_hex (to_lower (as_market_snapshot_hash i))) (Invalid ''market_snapshot_hash'')
     @ violation (\<not> commitment_hex (to_lower (as_confidential_commitment i)))
         (Invalid ''confidential_commitment'')"

definition assess :: "'d decimal_ops \<Rightarrow> 'd risk_model \<Rightarrow> 'd assess_input \<Rightarrow> int \<Rightarrow> 'd assessment result" where
  "assess D m i now =
    checked (assess_validate D i)
     (and_then (probability_of_default D m (as_features i)) (\<lambda>pd.
      and_then (loss_given_default D m (as_mitigations i)) (\<lambda>lgd.
      and_then (expected_loss D pd lgd (as_face i)) (\<lambda>el.
      and_then (price_receivable D m
        \<lparr>pi_face = as_face i, pi_days_to_due = as_days_to_due i, pi_benchmark = as_benchmark i,
         pi_liquidity_premium = as_liquidity_premium i, pi_pd = pd, pi_lgd = lgd,
         pi_debtor_concentration = debtor_concentration (as_features i)\<rparr>) (\<lambda>price.
      and_then (grade_from_pd D pd) (\<lambda>grade.
        Inr \<lparr>am_id = as_id i, am_invoice_id = as_invoice_id i, am_model_version = model_version m,
             am_features = as_features i,
             am_contributions = contributions D (as_features i) (model_coefficients m),
             am_confidence = rate_quantize D (as_confidence i) rate_scale,
             am_pd = pd, am_lgd = lgd, am_expected_loss = el, am_grade = grade,
             am_benchmark_apr = rate_quantize D (as_benchmark i) rate_scale,
             am_premiums = pr_premiums price, am_discount_apr = pr_discount_apr price,
             am_platform_fee = pr_platform_fee price, am_reserve_price = pr_reserve_price price,
             am_market_snapshot_hash = to_lower (as_market_snapshot_hash i),
             am_confidential_commitment = to_lower (as_confidential_commitment i),
             am_confidential_nonce = as_confidential_nonce i,
             am_requires_manual_review =
               requires_manual_review D m (as_confidence i) (as_arithmetic_valid i),
             am_created_at = now\<rparr>))))))"

definition contribution_before :: "'d decimal_ops \<Rightarrow> 'd contribution \<Rightarrow> 'd contribution \<Rightarrow> bool" where
  "contribution_before D x y =
    (let left = d_abs D (ct_effect x); right = d_abs D (ct_effect y)
     in if \<not> d_eq D left right then d_lt D right left else ct_feature x < ct_feature y)"

definition ranked_contributions :: "'d decimal_ops \<Rightarrow> 'd assessment \<Rightarrow> 'd contribution list" where
  "ranked_contributions D a = sort_by (contribution_before D) (am_contributions a)"

section \<open>The published constants\<close>

lemmas literal_simps = decimal_literal_def unsigned_literal_def digits_only_def dec_value_def
  digit_val_def Let_def

lemma v1_literals:
  "decimal_literal ''2.5'' = Some (5 / 2)" "decimal_literal ''0.02'' = Some (1 / 50)"
  "decimal_literal ''0.005'' = Some (1 / 200)" "decimal_literal ''0.60'' = Some (3 / 5)"
  "decimal_literal ''-5.5'' = Some (- 11 / 2)" "decimal_literal ''1.8'' = Some (9 / 5)"
  "decimal_literal ''2.4'' = Some (12 / 5)" "decimal_literal ''1.1'' = Some (11 / 10)"
  "decimal_literal ''0.9'' = Some (9 / 10)" "decimal_literal ''0.7'' = Some (7 / 10)"
  "decimal_literal ''2.2'' = Some (11 / 5)" "decimal_literal ''0.001'' = Some (1 / 1000)"
  "decimal_literal ''0.80'' = Some (4 / 5)" "decimal_literal ''0.45'' = Some (9 / 20)"
  "decimal_literal ''0.15'' = Some (3 / 20)" "decimal_literal ''0.10'' = Some (1 / 10)"
  "decimal_literal ''0.90'' = Some (9 / 10)" "decimal_literal ''0.85'' = Some (17 / 20)"
  "decimal_literal ''0.05'' = Some (1 / 20)" "decimal_literal ''0.20'' = Some (1 / 5)"
  by (simp_all add: literal_simps)

text \<open>What the pricing and the clamps need of a model.\<close>

definition model_sound :: "('d \<Rightarrow> rat) \<Rightarrow> 'd risk_model \<Rightarrow> bool" where
  "model_sound val m \<longleftrightarrow>
     val (pd_floor m) \<le> val (pd_ceiling m) \<and> 0 \<le> val (pd_floor m)
     \<and> val (lgd_floor m) \<le> val (lgd_ceiling m) \<and> 0 \<le> val (lgd_floor m)
     \<and> 0 \<le> val (lgd_recourse_relief m) \<and> 0 \<le> val (lgd_collateral_relief m)
     \<and> 0 \<le> val (risk_multiplier (model_pricing m)) \<and> 0 \<le> val (concentration_weight (model_pricing m))
     \<and> 0 \<le> val (platform_fee_rate (model_pricing m)) \<and> val (platform_fee_rate (model_pricing m)) \<le> 1
     \<and> 0 < day_count (model_pricing m)"

fun grade_of :: "rat \<Rightarrow> grade" where
  "grade_of q = (if q < 1 / 50 then ''A'' else if q < 1 / 20 then ''B''
    else if q < 1 / 10 then ''C'' else if q < 1 / 5 then ''D'' else ''E'')"

context decimal_lib
begin

lemma literal_val:
  assumes "decimal_literal s = Some q"
  obtains d where "must_parse_rate D s = Inr d" and "val d = q"
  using must_parse_rate_literal [OF assms] by blast

lemma pricing_v1:
  "\<exists>p. pricing_params_v1 D = Inr p \<and> val (risk_multiplier p) = 5 / 2
    \<and> val (concentration_weight p) = 1 / 50 \<and> val (platform_fee_rate p) = 1 / 200
    \<and> val (max_discount_apr p) = 3 / 5 \<and> day_count p = 365"
proof -
  obtain a where a: "must_parse_rate D ''2.5'' = Inr a" "val a = 5 / 2"
    by (rule literal_val [OF v1_literals(1)])
  obtain b where b: "must_parse_rate D ''0.02'' = Inr b" "val b = 1 / 50"
    by (rule literal_val [OF v1_literals(2)])
  obtain c where c: "must_parse_rate D ''0.005'' = Inr c" "val c = 1 / 200"
    by (rule literal_val [OF v1_literals(3)])
  obtain d where d: "must_parse_rate D ''0.60'' = Inr d" "val d = 3 / 5"
    by (rule literal_val [OF v1_literals(4)])
  show ?thesis using a b c d by (simp add: pricing_params_v1_def)
qed

lemma coefficients_v1_ok: "\<exists>c. coefficients_v1 D = Inr c \<and> val (co_intercept c) = - 11 / 2"
proof -
  obtain b0 where b0: "must_parse_rate D ''-5.5'' = Inr b0" "val b0 = - 11 / 2"
    by (rule literal_val [OF v1_literals(5)])
  obtain b1 where b1: "must_parse_rate D ''1.8'' = Inr b1" by (rule literal_val [OF v1_literals(6)])
  obtain b2 where b2: "must_parse_rate D ''2.4'' = Inr b2" by (rule literal_val [OF v1_literals(7)])
  obtain b3 where b3: "must_parse_rate D ''1.1'' = Inr b3" by (rule literal_val [OF v1_literals(8)])
  obtain b4 where b4: "must_parse_rate D ''0.9'' = Inr b4" by (rule literal_val [OF v1_literals(9)])
  obtain b5 where b5: "must_parse_rate D ''0.7'' = Inr b5" by (rule literal_val [OF v1_literals(10)])
  obtain b6 where b6: "must_parse_rate D ''2.2'' = Inr b6" by (rule literal_val [OF v1_literals(11)])
  show ?thesis using b0 b1 b2 b3 b4 b5 b6 by (simp add: coefficients_v1_def)
qed

lemma model_v1_sound:
  "\<exists>m. model_v1 D = Inr m \<and> model_sound val m \<and> val (pd_floor m) = 1 / 1000
    \<and> val (pd_ceiling m) = 4 / 5 \<and> val (lgd_base m) = 9 / 20
    \<and> val (lgd_floor m) = 1 / 10 \<and> val (lgd_ceiling m) = 9 / 10 \<and> model_version m = ''risk-v1''"
proof -
  obtain c where c: "coefficients_v1 D = Inr c" using coefficients_v1_ok by blast
  obtain p where p: "pricing_params_v1 D = Inr p" "val (risk_multiplier p) = 5 / 2"
    "val (concentration_weight p) = 1 / 50" "val (platform_fee_rate p) = 1 / 200" "day_count p = 365"
    using pricing_v1 by blast
  obtain f where f: "must_parse_rate D ''0.001'' = Inr f" "val f = 1 / 1000"
    by (rule literal_val [OF v1_literals(12)])
  obtain g where g: "must_parse_rate D ''0.80'' = Inr g" "val g = 4 / 5"
    by (rule literal_val [OF v1_literals(13)])
  obtain h where h: "must_parse_rate D ''0.45'' = Inr h" "val h = 9 / 20"
    by (rule literal_val [OF v1_literals(14)])
  obtain i where i: "must_parse_rate D ''0.15'' = Inr i" "val i = 3 / 20"
    by (rule literal_val [OF v1_literals(15)])
  obtain j where j: "must_parse_rate D ''0.10'' = Inr j" "val j = 1 / 10"
    by (rule literal_val [OF v1_literals(16)])
  obtain k where k: "must_parse_rate D ''0.90'' = Inr k" "val k = 9 / 10"
    by (rule literal_val [OF v1_literals(17)])
  obtain l where l: "must_parse_rate D ''0.85'' = Inr l"
    by (rule literal_val [OF v1_literals(18)])
  show ?thesis
    using c p f g h i j k l by (simp add: model_v1_def model_sound_def)
qed

lemma grade_from_pd_eq: "grade_from_pd D pd = Inr (grade_of (val pd))"
proof -
  obtain a where a: "must_parse_rate D ''0.02'' = Inr a" "val a = 1 / 50"
    by (rule literal_val [OF v1_literals(2)])
  obtain b where b: "must_parse_rate D ''0.05'' = Inr b" "val b = 1 / 20"
    by (rule literal_val [OF v1_literals(19)])
  obtain c where c: "must_parse_rate D ''0.10'' = Inr c" "val c = 1 / 10"
    by (rule literal_val [OF v1_literals(16)])
  obtain d where d: "must_parse_rate D ''0.20'' = Inr d" "val d = 1 / 5"
    by (rule literal_val [OF v1_literals(20)])
  show ?thesis
    using a b c d by (simp add: grade_from_pd_def grade_bands_def cmp)
qed

section \<open>Scores stay inside the published bounds\<close>

lemma probability_of_default_bounds:
  assumes "probability_of_default D m f = Inr pd"
  shows "val (pd_floor m) \<le> val pd" and "val pd \<le> val (pd_ceiling m)"
  using assms by (auto simp: probability_of_default_def result_simps dest: rate_clamp_Inr)

lemma loss_given_default_bounds:
  assumes "loss_given_default D m mit = Inr lgd"
  shows "val (lgd_floor m) \<le> val lgd" and "val lgd \<le> val (lgd_ceiling m)"
  using assms by (auto simp: loss_given_default_def Let_def dest: rate_clamp_Inr)

lemma loss_given_default_val:
  assumes "val (lgd_floor m) \<le> val (lgd_ceiling m)"
  obtains lgd where "loss_given_default D m mit = Inr lgd"
    and "val lgd = max (val (lgd_floor m)) (min (val (lgd_ceiling m))
      (of_int (round_half_even ((val (lgd_base m)
        - (if recourse mit then val (lgd_recourse_relief m) else 0)
        - (if collateralized mit then val (lgd_collateral_relief m) else 0)) * 10 powi rate_scale))
       / 10 powi rate_scale))"
proof -
  define lgd where "lgd = (let lgd = lgd_base m;
         lgd = (if recourse mit then d_sub D lgd (lgd_recourse_relief m) else lgd)
     in if collateralized mit then d_sub D lgd (lgd_collateral_relief m) else lgd)"
  have v: "val lgd = val (lgd_base m) - (if recourse mit then val (lgd_recourse_relief m) else 0)
      - (if collateralized mit then val (lgd_collateral_relief m) else 0)"
    by (simp add: lgd_def Let_def val_sub)
  obtain r where "rate_clamp D (rate_quantize D lgd rate_scale) (lgd_floor m) (lgd_ceiling m) = Inr r"
    "val r = max (val (lgd_floor m)) (min (val (lgd_ceiling m)) (val (rate_quantize D lgd rate_scale)))"
    using rate_clamp_eq [OF assms] by blast
  then show thesis
    by (intro that [of r]) (simp_all only: loss_given_default_def lgd_def Let_def val_quantize flip: v)
qed

end

section \<open>The reserve price\<close>

text \<open>
  The price in minor units: present value at the discount rate, rounded twice as the code does,
  less the platform fee.
\<close>

definition reserve_of :: "int \<Rightarrow> rat \<Rightarrow> rat \<Rightarrow> rat \<Rightarrow> int" where
  "reserve_of face discount tenor fee =
    round_half_even (at_scale (of_int face / (1 + discount * tenor))) - round_half_even (of_int face * fee)"

lemma present_value_bounds:
  assumes "0 \<le> face" and "0 \<le> x"
  shows "0 \<le> round_half_even (at_scale (of_int face / (1 + x)))"
    and "round_half_even (at_scale (of_int face / (1 + x))) \<le> face"
proof -
  have "0 \<le> of_int face / (1 + x)" using assms by simp
  then show "0 \<le> round_half_even (at_scale (of_int face / (1 + x)))"
    by (intro round_half_even_nonneg at_scale_nonneg)
  have "of_int face * 1 \<le> of_int face * (1 + x)"
    using assms by (intro mult_left_mono) simp_all
  then have "of_int face / (1 + x) \<le> of_int face"
    using assms by (simp add: field_simps)
  then have "at_scale (of_int face / (1 + x)) \<le> of_int face"
    using at_scale_mono by fastforce
  then show "round_half_even (at_scale (of_int face / (1 + x))) \<le> face"
    by (rule round_half_even_le)
qed

lemma fee_bounds:
  assumes "0 \<le> face" and "0 \<le> fee" and "fee \<le> 1"
  shows "0 \<le> round_half_even (of_int face * fee)" and "round_half_even (of_int face * fee) \<le> face"
proof -
  show "0 \<le> round_half_even (of_int face * fee)" using assms by (intro round_half_even_nonneg) simp
  have "of_int face * fee \<le> of_int face * 1" using assms by (intro mult_left_mono) simp_all
  then show "round_half_even (of_int face * fee) \<le> face" by (intro round_half_even_le) simp
qed

lemma reserve_of_le_face:
  assumes "0 \<le> face" and "0 \<le> d * t" and "0 \<le> fee" and "fee \<le> 1"
  shows "reserve_of face d t fee \<le> face"
  using present_value_bounds [OF assms(1,2)] fee_bounds [OF assms(1,3,4)] by (simp add: reserve_of_def)

lemma reserve_of_antimono:
  assumes "0 \<le> face" and "0 \<le> d" and "d \<le> d'" and "0 \<le> t"
  shows "reserve_of face d' t fee \<le> reserve_of face d t fee"
proof -
  have "0 \<le> d * t" and "d * t \<le> d' * t" using assms by (simp_all add: mult_right_mono)
  then have "of_int face / (1 + d' * t) \<le> of_int face / (1 + d * t)"
    using assms(1) by (intro divide_left_mono mult_pos_pos) simp_all
  then have "round_half_even (at_scale (of_int face / (1 + d' * t)))
      \<le> round_half_even (at_scale (of_int face / (1 + d * t)))"
    by (intro round_half_even_mono at_scale_mono)
  then show ?thesis by (simp add: reserve_of_def)
qed

lemma in64_between: "in64 n \<Longrightarrow> 0 \<le> m \<Longrightarrow> m \<le> n \<Longrightarrow> in64 m"
  by (simp add: in64_def min64_def max64_def)

lemma in64_diff_nonneg: "in64 a \<Longrightarrow> in64 b \<Longrightarrow> 0 \<le> a \<Longrightarrow> 0 \<le> b \<Longrightarrow> b \<noteq> min64 \<and> in64 (a - b)"
  by (auto simp: in64_def min64_def max64_def)

definition price_input_ok :: "('d \<Rightarrow> rat) \<Rightarrow> 'd price_input \<Rightarrow> bool" where
  "price_input_ok val i \<longleftrightarrow>
     amount_ok (pi_face i) \<and> 0 \<le> val (pi_pd i) \<and> 0 \<le> val (pi_lgd i) \<and> 0 \<le> val (pi_debtor_concentration i)"

context decimal_lib
begin

lemma discount_nonneg:
  assumes "model_sound val m" and "price_input_ok val i"
    and "0 \<le> val (pi_benchmark i)" and "0 \<le> val (pi_liquidity_premium i)"
  shows "0 \<le> val (price_discount D m i)"
proof -
  have "0 \<le> val (premiums_total D (price_premiums D m i))"
    using assms
    by (simp add: premiums_total_def price_premiums_def risk_premium_def concentration_premium_def
        val_add quantize_nonneg val_mul model_sound_def price_input_ok_def)
  then show ?thesis
    using assms(3) unfolding price_discount_def by (intro quantize_nonneg) (simp add: val_add)
qed

lemma discount_mono:
  assumes "val (pi_benchmark i) \<le> val b"
  shows "val (price_discount D m i) \<le> val (price_discount D m (i\<lparr>pi_benchmark := b\<rparr>))"
  unfolding price_discount_def
  using assms by (intro quantize_mono) (simp add: val_add price_premiums_def)

text \<open>Everything but the reserve check is a guard: past it the price is the formula.\<close>

lemma price_receivable_eq:
  assumes m: "model_sound val m" and i: "price_input_ok val i"
    and g: "amount_positive (pi_face i)" "0 < pi_days_to_due i"
    and b: "0 \<le> val (pi_benchmark i)" "0 \<le> val (pi_liquidity_premium i)"
    and d: "val (price_discount D m i) \<le> val (max_discount_apr (model_pricing m))"
  shows "price_receivable D m i =
    (let f = minor (pi_face i); c = currency (pi_face i);
         fee = round_half_even (of_int f * val (platform_fee_rate (model_pricing m)));
         r = reserve_of f (val (price_discount D m i))
               (at_scale (of_int (pi_days_to_due i) / of_int (day_count (model_pricing m))))
               (val (platform_fee_rate (model_pricing m)))
     in if r \<le> 0 then Inl (Invalid ''reserve_price'')
        else Inr \<lparr>pr_premiums = price_premiums D m i, pr_discount_apr = price_discount D m i,
                  pr_platform_fee = \<lparr>minor = fee, currency = c\<rparr>,
                  pr_reserve_price = \<lparr>minor = r, currency = c\<rparr>\<rparr>)"
proof -
  let ?f = "minor (pi_face i)" and ?c = "currency (pi_face i)"
  let ?d = "price_discount D m i" and ?p = "model_pricing m"
  let ?t = "at_scale (of_int (pi_days_to_due i) / of_int (day_count ?p))"
  let ?pv = "round_half_even (at_scale (of_int ?f / (1 + val ?d * ?t)))"
  let ?fee = "round_half_even (of_int ?f * val (platform_fee_rate ?p))"
  have f: "0 < ?f" "in64 ?f" "amount_valid (pi_face i)" "currency_valid ?c"
    using i g by (auto simp: price_input_ok_def money_predicates)
  have dc: "0 < day_count ?p" and fr: "0 \<le> val (platform_fee_rate ?p)" "val (platform_fee_rate ?p) \<le> 1"
    using m by (simp_all add: model_sound_def)
  have t: "0 \<le> ?t" using g(2) dc by (intro at_scale_nonneg) simp
  have dt: "0 \<le> val ?d * ?t" using discount_nonneg [OF m i b] t by simp
  obtain ten where ten: "rate_from_fraction D (pi_days_to_due i) (day_count ?p) = Inr ten"
    using dc by (simp add: rate_from_fraction_def)
  have tv: "val ten = ?t" using rate_from_fraction_Inr(2) [OF ten] .
  let ?div = "d_add D (one_rate D) (d_mul D ?d ten)"
  have dv: "val ?div = 1 + val ?d * ?t" by (simp add: val_add val_mul val_one_rate tv)
  have pvb: "0 \<le> ?pv" "?pv \<le> ?f" using present_value_bounds [OF less_imp_le dt] f(1) by simp_all
  have fb: "0 \<le> ?fee" "?fee \<le> ?f" using fee_bounds [OF less_imp_le fr] f(1) by simp_all
  have in1: "in64 ?pv" "in64 ?fee" using in64_between [OF f(2)] pvb fb by simp_all
  have "val ?div \<noteq> 0" using dv dt by linarith
  then have pv: "amount_div D (pi_face i) ?div = Inr \<lparr>minor = ?pv, currency = ?c\<rparr>"
    using in1 by (simp add: amount_div_eq [OF f(3)] dv minor_result_def)
  have fee: "amount_mul D (pi_face i) (platform_fee_rate ?p) = Inr \<lparr>minor = ?fee, currency = ?c\<rparr>"
    using in1 by (simp add: amount_mul_eq [OF f(3)] minor_result_def)
  have sub: "amount_sub \<lparr>minor = ?pv, currency = ?c\<rparr> \<lparr>minor = ?fee, currency = ?c\<rparr>
      = Inr \<lparr>minor = ?pv - ?fee, currency = ?c\<rparr>"
    using in1 f(4) in64_diff_nonneg [OF in1 pvb(1) fb(1)]
    by (simp add: amount_sub_eq assert_same_currency_def)
  show ?thesis
    unfolding price_receivable_def
    using g b d ten pv fee sub
    by (simp add: cmp cmp_simps reserve_of_def Let_def amount_positive_def)
qed

lemma price_receivable_guards:
  assumes "price_receivable D m i = Inr p"
  shows "amount_positive (pi_face i)" and "0 < pi_days_to_due i"
    and "0 \<le> val (pi_benchmark i)" and "0 \<le> val (pi_liquidity_premium i)"
    and "val (price_discount D m i) \<le> val (max_discount_apr (model_pricing m))"
  using assms
  by (auto simp: price_receivable_def cmp cmp_simps Let_def not_less result_simps split: if_splits)

lemma price_bounds:
  assumes m: "model_sound val m" and i: "price_input_ok val i" and p: "price_receivable D m i = Inr p"
  shows "0 < minor (pr_reserve_price p)" and "minor (pr_reserve_price p) \<le> minor (pi_face i)"
    and "currency (pr_reserve_price p) = currency (pi_face i)"
    and "0 \<le> minor (pr_platform_fee p)"
    and "minor (pr_reserve_price p) + minor (pr_platform_fee p) \<le> minor (pi_face i)"
proof -
  note g = price_receivable_guards [OF p]
  let ?t = "at_scale (of_int (pi_days_to_due i) / of_int (day_count (model_pricing m)))"
  have f: "0 \<le> minor (pi_face i)" using g(1) by (simp add: amount_positive_def)
  have t: "0 \<le> val (price_discount D m i) * ?t"
    using discount_nonneg [OF m i g(3,4)] g(2) m
    by (intro mult_nonneg_nonneg at_scale_nonneg) (simp_all add: model_sound_def)
  have fr: "0 \<le> val (platform_fee_rate (model_pricing m))" "val (platform_fee_rate (model_pricing m)) \<le> 1"
    using m by (simp_all add: model_sound_def)
  note eq = price_receivable_eq [OF m i g]
  show "0 < minor (pr_reserve_price p)" "currency (pr_reserve_price p) = currency (pi_face i)"
    using p unfolding eq by (auto simp: Let_def split: if_splits)
  show "minor (pr_reserve_price p) \<le> minor (pi_face i)"
    using p reserve_of_le_face [OF f t fr] unfolding eq by (auto simp: Let_def split: if_splits)
  show "0 \<le> minor (pr_platform_fee p)"
    using p fee_bounds [OF f fr] unfolding eq by (auto simp: Let_def split: if_splits)
  show "minor (pr_reserve_price p) + minor (pr_platform_fee p) \<le> minor (pi_face i)"
    using p present_value_bounds [OF f t] unfolding eq
    by (auto simp: Let_def reserve_of_def split: if_splits)
qed

lemma price_antimono:
  assumes m: "model_sound val m" and i: "price_input_ok val i"
    and le: "0 \<le> val (pi_benchmark i)" "val (pi_benchmark i) \<le> val b"
    and q: "price_receivable D m (i\<lparr>pi_benchmark := b\<rparr>) = Inr q"
  shows "\<exists>p. price_receivable D m i = Inr p \<and> minor (pr_reserve_price q) \<le> minor (pr_reserve_price p)"
proof -
  let ?j = "i\<lparr>pi_benchmark := b\<rparr>"
  have j: "price_input_ok val ?j" using i by (simp add: price_input_ok_def)
  note g = price_receivable_guards [OF q]
  have d: "val (price_discount D m i) \<le> val (price_discount D m ?j)" using discount_mono [OF le(2)] .
  have gi: "amount_positive (pi_face i)" "0 < pi_days_to_due i" "0 \<le> val (pi_benchmark i)"
    "0 \<le> val (pi_liquidity_premium i)"
    "val (price_discount D m i) \<le> val (max_discount_apr (model_pricing m))"
    using g le d by simp_all
  let ?t = "at_scale (of_int (pi_days_to_due i) / of_int (day_count (model_pricing m)))"
  have "0 \<le> ?t" using gi(2) m by (intro at_scale_nonneg) (simp add: model_sound_def)
  then have "reserve_of (minor (pi_face i)) (val (price_discount D m ?j)) ?t (val (platform_fee_rate (model_pricing m)))
      \<le> reserve_of (minor (pi_face i)) (val (price_discount D m i)) ?t (val (platform_fee_rate (model_pricing m)))"
    using reserve_of_antimono [OF _ discount_nonneg [OF m i gi(3,4)] d] gi(1)
    by (simp add: amount_positive_def)
  then show ?thesis
    using q unfolding price_receivable_eq [OF m j g] price_receivable_eq [OF m i gi]
    by (auto simp: Let_def split: if_splits)
qed

end

end
