(* ===== verification/Risk_Facts.thy ===== *)
theory Risk_Facts
  imports Risk
begin

text \<open>
  What an assessment of \<^verbatim>\<open>internal/risk\<close> guarantees under the published model: scores
  inside their bands, the grade of the score, and a price between nothing and the face value.
\<close>

definition assessment_sound :: "('d \<Rightarrow> rat) \<Rightarrow> 'd assess_input \<Rightarrow> 'd assessment \<Rightarrow> bool" where
  "assessment_sound val i a \<longleftrightarrow>
     1 / 1000 \<le> val (am_pd a) \<and> val (am_pd a) \<le> 4 / 5 \<and> 1 / 10 \<le> val (am_lgd a) \<and> val (am_lgd a) \<le> 9 / 10 \<and>
     am_grade a = grade_of (val (am_pd a)) \<and> grade_valid (am_grade a) \<and>
     0 \<le> minor (am_expected_loss a) \<and> minor (am_expected_loss a) \<le> minor (as_face i) \<and>
     0 < minor (am_reserve_price a) \<and> 0 \<le> minor (am_platform_fee a) \<and>
     minor (am_reserve_price a) + minor (am_platform_fee a) \<le> minor (as_face i) \<and>
     currency (am_reserve_price a) = currency (as_face i) \<and> currency (am_expected_loss a) = currency (as_face i) \<and>
     commitment_hex (am_market_snapshot_hash a) \<and> commitment_hex (am_confidential_commitment a)"

lemma grade_of_valid: "grade_valid (grade_of q)"
  by (simp add: grade_valid_def grade_ranks_def)

context decimal_lib
begin

lemma expected_loss_bounds:
  assumes "expected_loss D pd lgd face = Inr el" and "amount_valid face"
    and "0 \<le> val pd" "val pd \<le> 1" "0 \<le> val lgd" "val lgd \<le> 1"
  shows "0 \<le> minor el" and "minor el \<le> minor face" and "currency el = currency face"
proof -
  have face: "0 \<le> minor face"
    using assms(1) by (auto simp: expected_loss_def amount_positive_def split: if_splits)
  have el: "el = \<lparr>minor = round_half_even (of_int (minor face) * (val pd * val lgd)), currency = currency face\<rparr>"
    using assms(1) by (auto simp: expected_loss_def amount_mul_eq [OF assms(2)] val_mul result_simps split: if_splits)
  have "0 \<le> val pd * val lgd" "val pd * val lgd \<le> 1"
    using assms(3-6) by (simp_all add: mult_le_one)
  from fee_bounds [OF face this] show "0 \<le> minor el" "minor el \<le> minor face" by (simp_all add: el)
  show "currency el = currency face" by (simp add: el)
qed

lemma features_in_unit:
  assumes "features_validate D f = []" and "(name, value, coeff) \<in> set feature_refs"
  shows "0 \<le> val (value f)" and "val (value f) \<le> 1"
  using assms
  by (force simp: features_validate_def violation_def cmp_simps cmp val_one_rate not_less not_le split: if_splits)+

lemma assess_sound:
  assumes "model_v1 D = Inr m" and "amount_ok (as_face i)" and "assess D m i now = Inr a"
  shows "assessment_sound val i a"
proof -
  have m: "model_sound val m" "val (pd_floor m) = 1 / 1000" "val (pd_ceiling m) = 4 / 5"
    "val (lgd_floor m) = 1 / 10" "val (lgd_ceiling m) = 9 / 10"
    using model_v1_sound assms(1) by auto
  obtain pd lgd el price grade where run:
    "assess_validate D i = []" "probability_of_default D m (as_features i) = Inr pd"
    "loss_given_default D m (as_mitigations i) = Inr lgd" "expected_loss D pd lgd (as_face i) = Inr el"
    "price_receivable D m
        \<lparr>pi_face = as_face i, pi_days_to_due = as_days_to_due i, pi_benchmark = as_benchmark i,
         pi_liquidity_premium = as_liquidity_premium i, pi_pd = pd, pi_lgd = lgd,
         pi_debtor_concentration = debtor_concentration (as_features i)\<rparr> = Inr price"
    "grade_from_pd D pd = Inr grade"
    and a: "am_pd a = pd" "am_lgd a = lgd" "am_expected_loss a = el" "am_grade a = grade"
      "am_platform_fee a = pr_platform_fee price" "am_reserve_price a = pr_reserve_price price"
      "am_market_snapshot_hash a = to_lower (as_market_snapshot_hash i)"
      "am_confidential_commitment a = to_lower (as_confidential_commitment i)"
    using assms(3) by (auto simp: assess_def result_simps checked_def split: if_splits)
  have pd: "1 / 1000 \<le> val pd" "val pd \<le> 4 / 5" using probability_of_default_bounds [OF run(2)] m by simp_all
  have lgd: "1 / 10 \<le> val lgd" "val lgd \<le> 9 / 10" using loss_given_default_bounds [OF run(3)] m by simp_all
  have valid: "amount_valid (as_face i)" using assms(2) by (simp add: amount_ok_def)
  have conc: "0 \<le> val (debtor_concentration (as_features i))"
  proof -
    have "features_validate D (as_features i) = []"
      using run(2) by (auto simp: probability_of_default_def checked_def split: if_splits)
    then show ?thesis
      by (rule features_in_unit [where name = "''debtor_concentration''" and coeff = co_debtor_concentration])
        (simp add: feature_refs_def)
  qed
  have el: "0 \<le> minor el" "minor el \<le> minor (as_face i)" "currency el = currency (as_face i)"
    using expected_loss_bounds [OF run(4) valid] pd lgd by auto
  have price: "0 < minor (pr_reserve_price price)" "currency (pr_reserve_price price) = currency (as_face i)"
    "0 \<le> minor (pr_platform_fee price)"
    "minor (pr_reserve_price price) + minor (pr_platform_fee price) \<le> minor (as_face i)"
    using price_bounds [OF m(1) _ run(5)] assms(2) pd lgd conc by (simp_all add: price_input_ok_def)
  have hashes: "commitment_hex (to_lower (as_market_snapshot_hash i))"
    "commitment_hex (to_lower (as_confidential_commitment i))"
    using run(1) by (auto simp: assess_validate_def violation_def split: if_splits)
  have "grade = grade_of (val pd)" using run(6) by (simp add: grade_from_pd_eq)
  then show ?thesis
    unfolding assessment_sound_def a using pd lgd el price hashes grade_of_valid by simp
qed

end

section \<open>Properties\<close>


text \<open>A dearer market never raises a price: if an invoice is priced at some benchmark rate, it is also priced
  at every lower one, and its reserve price there is no lower.\<close>

theorem price_falls_with_benchmark:
  assumes "decimal_lib D val" and "model_v1 D = Inr m" and "price_input_ok val i"
    and "0 \<le> val (pi_benchmark i)" and "val (pi_benchmark i) \<le> val b"
    and "price_receivable D m (i\<lparr>pi_benchmark := b\<rparr>) = Inr q"
  shows "\<exists>p. price_receivable D m i = Inr p \<and> minor (pr_reserve_price q) \<le> minor (pr_reserve_price p)"
proof -
  have "model_sound val m" using decimal_lib.model_v1_sound [OF assms(1)] assms(2) by auto
  then show ?thesis by (rule decimal_lib.price_antimono [OF assms(1) _ assms(3-6)])
qed

definition sample_model :: "rat risk_model" where
  "sample_model = \<lparr>model_version = ''risk-v1'',
     model_coefficients = \<lparr>co_intercept = - 11 / 2, co_dso_norm = 9 / 5, co_late_payment_rate = 12 / 5,
       co_dispute_flag = 11 / 10, co_debtor_concentration = 9 / 10, co_market_volatility = 7 / 10,
       co_debtor_risk = 11 / 5\<rparr>,
     pd_floor = 1 / 1000, pd_ceiling = 4 / 5, lgd_base = 9 / 20, lgd_recourse_relief = 3 / 20,
     lgd_collateral_relief = 1 / 10, lgd_floor = 1 / 10, lgd_ceiling = 9 / 10, min_confidence = 17 / 20,
     model_pricing = \<lparr>risk_multiplier = 5 / 2, concentration_weight = 1 / 50, platform_fee_rate = 1 / 200,
       max_discount_apr = 3 / 5, day_count = 365\<rparr>\<rparr>"

lemma sample_model: "model_v1 rat_decimal = Inr sample_model"
  by code_simp

definition sample_assess_input :: "rat assess_input" where
  "sample_assess_input = \<lparr>as_id = 1, as_invoice_id = 2, as_face = \<lparr>minor = 100000, currency = ''USD''\<rparr>,
     as_days_to_due = 365,
     as_features = \<lparr>dso_norm = 0, late_payment_rate = 0, dispute_flag = 0, debtor_concentration = 0,
       market_volatility = 0, debtor_risk = 0\<rparr>,
     as_confidence = 9 / 10, as_mitigations = \<lparr>recourse = True, collateralized = False\<rparr>,
     as_arithmetic_valid = True, as_benchmark = 5 / 100, as_liquidity_premium = 1 / 100,
     as_market_snapshot_hash = ''0x'' @ replicate 64 (CHR ''a''),
     as_confidential_commitment = ''0x'' @ replicate 64 (CHR ''b''), as_confidential_nonce = ''n''\<rparr>"

definition sample_price_input :: "rat price_input" where
  "sample_price_input = \<lparr>pi_face = \<lparr>minor = 100000, currency = ''USD''\<rparr>, pi_days_to_due = 365,
     pi_benchmark = 5 / 100, pi_liquidity_premium = 1 / 100, pi_pd = 19859 / 1000000, pi_lgd = 3 / 10,
     pi_debtor_concentration = 0\<rparr>"

text \<open>Evaluating the sample: every rounding is the floor of a quotient of integers.\<close>

lemma floor_numerals:
  "\<lfloor>numeral a / numeral b :: rat\<rfloor> = numeral a div numeral b" "\<lfloor>1 / numeral b :: rat\<rfloor> = 1 div numeral b"
  using floor_divide_of_int_eq [of "numeral a" "numeral b", where ?'a = rat]
    floor_divide_of_int_eq [of 1 "numeral b", where ?'a = rat] by simp_all

lemmas evaluate_rates = ratd.val_simps ratd.cmp_simps ratd.cmp ratd.val_div_round round_half_even_def
  round_half_away_def floor_numerals Let_def rate_quantize_def rate_scale_def one_rate_def

lemma sample_features: "features_validate rat_decimal (as_features sample_assess_input) = []"
  by (simp add: features_validate_def feature_refs_def violation_def sample_assess_input_def evaluate_rates)

lemma sample_exp: "d_exp_taylor rat_decimal (11 / 2) p = Some (2369 / 48)"
  by (simp add: rat_decimal_def power2_eq_square power3_eq_cube)

lemma sample_pd:
  "probability_of_default rat_decimal sample_model (as_features sample_assess_input) = Inr (19859 / 1000000)"
proof -
  have "log_odds rat_decimal (as_features sample_assess_input) (model_coefficients sample_model) = - 11 / 2"
    by (simp add: log_odds_def contributions_def feature_refs_def sample_assess_input_def sample_model_def evaluate_rates)
  then have "sigmoid rat_decimal (log_odds rat_decimal (as_features sample_assess_input) (model_coefficients sample_model))
      = Inr (19859 / 1000000)"
    by (simp add: sigmoid_def sample_exp evaluate_rates)
  then show ?thesis
    by (simp add: probability_of_default_def sample_features checked_def rate_clamp_def sample_model_def evaluate_rates)
qed

lemma sample_lgd:
  "loss_given_default rat_decimal sample_model (as_mitigations sample_assess_input) = Inr (3 / 10)"
  by (simp add: loss_given_default_def sample_assess_input_def sample_model_def rate_clamp_def evaluate_rates)

lemma sample_discount:
  "price_discount rat_decimal sample_model sample_price_input = 74894 / 1000000"
  by (simp add: price_discount_def price_premiums_def premiums_total_def risk_premium_def concentration_premium_def
      sample_price_input_def sample_model_def evaluate_rates)

lemma sample_input_ok: "price_input_ok (\<lambda>x. x) sample_price_input"
  by (simp add: sample_price_input_def price_input_ok_def amount_ok_def amount_valid_def currency_valid_cases
      in64_def min64_def max64_def)

lemma sample_priced: "\<exists>p. price_receivable rat_decimal sample_model sample_price_input = Inr p"
proof -
  have m: "model_sound (\<lambda>x. x) sample_model" by (simp add: model_sound_def sample_model_def)
  have tenor: "at_scale 1 = 1" using at_scale_of_int [of 1] by simp
  show ?thesis
    by (subst ratd.price_receivable_eq [OF m sample_input_ok])
      (simp_all add: sample_discount reserve_of_def tenor, simp_all add: sample_price_input_def sample_model_def
        amount_positive_def at_scale_def round_half_away_def round_half_even_def floor_numerals Let_def)
qed

lemma sample_assessed: "\<exists>a. assess rat_decimal sample_model sample_assess_input 7 = Inr a"
proof -
  obtain p where p: "price_receivable rat_decimal sample_model sample_price_input = Inr p"
    using sample_priced by blast
  have input: "\<lparr>pi_face = as_face sample_assess_input, pi_days_to_due = as_days_to_due sample_assess_input,
      pi_benchmark = as_benchmark sample_assess_input,
      pi_liquidity_premium = as_liquidity_premium sample_assess_input, pi_pd = 19859 / 1000000, pi_lgd = 3 / 10,
      pi_debtor_concentration = debtor_concentration (as_features sample_assess_input)\<rparr> = sample_price_input"
    by (simp add: sample_assess_input_def sample_price_input_def)
  have hex: "commitment_hex (to_lower (as_market_snapshot_hash sample_assess_input))"
    "commitment_hex (to_lower (as_confidential_commitment sample_assess_input))" by code_simp+
  have valid: "assess_validate rat_decimal sample_assess_input = []"
    unfolding assess_validate_def using hex
    by (simp add: violation_def evaluate_rates) (simp add: sample_assess_input_def)
  have face: "amount_valid (as_face sample_assess_input)"
    by (simp add: sample_assess_input_def amount_valid_def currency_valid_cases)
  have "amount_mul rat_decimal (as_face sample_assess_input) (d_mul rat_decimal (19859 / 1000000) (3 / 10)) =
      Inr \<lparr>minor = 596, currency = ''USD''\<rparr>"
    unfolding ratd.amount_mul_eq [OF face]
    by (simp add: sample_assess_input_def minor_result_def in64_def min64_def max64_def evaluate_rates)
  then obtain el where el: "expected_loss rat_decimal (19859 / 1000000) (3 / 10) (as_face sample_assess_input) = Inr el"
    by (simp add: expected_loss_def sample_assess_input_def amount_positive_def)
  show ?thesis
    unfolding assess_def by (simp add: valid checked_def sample_pd sample_lgd el input p ratd.grade_from_pd_eq)
qed


theorem price_falls_with_benchmark_witness:
  "\<exists>p q. price_receivable rat_decimal sample_model (sample_price_input\<lparr>pi_benchmark := 4 / 100\<rparr>) = Inr p \<and>
    price_receivable rat_decimal sample_model sample_price_input = Inr q \<and>
    minor (pr_reserve_price q) \<le> minor (pr_reserve_price p)"
proof -
  let ?low = "sample_price_input\<lparr>pi_benchmark := 4 / 100\<rparr>"
  obtain q where q: "price_receivable rat_decimal sample_model sample_price_input = Inr q"
    using sample_priced by blast
  have same: "?low\<lparr>pi_benchmark := 5 / 100\<rparr> = sample_price_input" by (simp add: sample_price_input_def)
  have "price_input_ok (\<lambda>x. x) ?low" using sample_input_ok by (simp add: price_input_ok_def)
  from price_falls_with_benchmark [OF ratd.decimal_lib_axioms sample_model this, of "5 / 100" q] q same
  show ?thesis by auto
qed

end
