(* ===== verification/Lifecycle.thy ===== *)
theory Lifecycle
  imports Go_Strings
begin

text \<open>
  What the aggregates of the program share: instants and durations of Go's
  \<^verbatim>\<open>time\<close> package, and the shape of a versioned state machine. Invoices, auctions,
  settlements, paid requests and assets each move through a published table of states, one
  command at a time, and bump a version on every change, which the repositories compare before
  they write. The locale \<open>lifecycle\<close> states that contract over a command interpreter;
  its lemmas about runs and reachable states are proved once and used by every aggregate.
\<close>

section \<open>Time\<close>

text \<open>
  An instant is its nanoseconds since Go's zero time (year 1, UTC); a time zone changes only how
  an instant is printed, so \<^verbatim>\<open>UTC()\<close> is the identity. A duration is an
  \<^verbatim>\<open>int64\<close> of nanoseconds, and \<^verbatim>\<open>Sub\<close> saturates.
\<close>

type_synonym instant = int

definition time_is_zero :: "instant \<Rightarrow> bool" where
  "time_is_zero t \<longleftrightarrow> t = 0"

definition time_sub :: "instant \<Rightarrow> instant \<Rightarrow> int" where
  "time_sub a b = max min64 (min max64 (a - b))"

definition seconds :: "int \<Rightarrow> int" where "seconds n = n * 10 ^ 9"
definition minutes :: "int \<Rightarrow> int" where "minutes n = n * (60 * 10 ^ 9)"
definition hours :: "int \<Rightarrow> int" where "hours n = n * (3600 * 10 ^ 9)"

text \<open>The calendar date of an instant, as \<^verbatim>\<open>Format("2006-01-02")\<close> prints it.\<close>

definition civil_date :: "int \<Rightarrow> int \<times> int \<times> int" where
  "civil_date days =
    (let z = days + 306;
         era = z div 146097;
         doe = z mod 146097;
         yoe = (doe - doe div 1460 + doe div 36524 - doe div 146096) div 365;
         doy = doe - (365 * yoe + yoe div 4 - yoe div 100);
         mp = (5 * doy + 2) div 153;
         d = doy - (153 * mp + 2) div 5 + 1;
         m = (if mp < 10 then mp + 3 else mp - 9);
         y = yoe + era * 400 + (if m \<le> 2 then 1 else 0)
     in (y, m, d))"

definition date_string :: "instant \<Rightarrow> string" where
  "date_string t =
    (case civil_date (t div hours 24) of (y, m, d) \<Rightarrow>
       pad_left 4 (int_dec y) @ ''-'' @ pad_left 2 (int_dec m) @ ''-'' @ pad_left 2 (int_dec d))"

text \<open>\<^verbatim>\<open>Format(time.RFC3339)\<close> of an instant in UTC.\<close>

definition rfc3339 :: "instant \<Rightarrow> string" where
  "rfc3339 t =
    (let s = (t mod hours 24) div seconds 1
     in date_string t @ ''T'' @ pad_left 2 (int_dec (s div 3600)) @ '':''
        @ pad_left 2 (int_dec (s div 60 mod 60)) @ '':'' @ pad_left 2 (int_dec (s mod 60)) @ ''Z'')"

section \<open>Reasons\<close>

text \<open>
  \<^verbatim>\<open>cleanReason\<close> is written twice in the program, once per package, with the same body.
\<close>

definition max_reason_len :: nat where "max_reason_len = 512"

definition clean_reason :: "string \<Rightarrow> string result" where
  "clean_reason reason =
    (let cleaned = trim_space reason
     in if cleaned = [] then Inl (Invalid ''reason'')
        else if length cleaned > max_reason_len then Inl (Invalid ''reason'')
        else Inr cleaned)"

lemma clean_reason_Inr [result_simps]:
  "clean_reason r = Inr s \<longleftrightarrow> s = trim_space r \<and> s \<noteq> [] \<and> length s \<le> max_reason_len"
  by (auto simp: clean_reason_def Let_def)

section \<open>Runs of commands\<close>

text \<open>A run stops at the first command that is refused.\<close>

fun run_cmds :: "('c \<Rightarrow> 'a \<Rightarrow> 'a result) \<Rightarrow> 'c list \<Rightarrow> 'a \<Rightarrow> 'a result" where
  "run_cmds exec [] a = Inr a"
| "run_cmds exec (c # cs) a = and_then (exec c a) (run_cmds exec cs)"

text \<open>The states commands can lead to; a refused command leaves the aggregate as it was.\<close>

inductive reaches :: "('c \<Rightarrow> 'a \<Rightarrow> 'a result) \<Rightarrow> 'a \<Rightarrow> 'a \<Rightarrow> bool" for exec where
  reaches_refl: "reaches exec a a"
| reaches_step: "reaches exec a b \<Longrightarrow> exec c b = Inr d \<Longrightarrow> reaches exec a d"

lemma reaches_invariant:
  assumes "reaches exec a b" and "P a" and "\<And>c x y. P x \<Longrightarrow> exec c x = Inr y \<Longrightarrow> P y"
  shows "P b"
  using assms by (induction rule: reaches.induct) auto

lemma reaches_trans: "reaches exec b c \<Longrightarrow> reaches exec a b \<Longrightarrow> reaches exec a c"
  by (induction rule: reaches.induct) (auto intro: reaches_step)

lemma run_cmds_reaches: "run_cmds exec cs a = Inr b \<Longrightarrow> reaches exec a b"
proof (induction cs arbitrary: a)
  case Nil
  then show ?case by (auto intro: reaches_refl)
next
  case (Cons c cs)
  then obtain x where x: "exec c a = Inr x" "run_cmds exec cs x = Inr b"
    by (auto simp: result_simps)
  then have "reaches exec x b" using Cons.IH by blast
  moreover have "reaches exec a x" using x(1) by (blast intro: reaches.intros)
  ultimately show ?case by (rule reaches_trans)
qed

locale lifecycle =
  fixes edge :: "'st \<Rightarrow> 'st \<Rightarrow> bool"
    and status :: "'a \<Rightarrow> 'st"
    and version :: "'a \<Rightarrow> int"
    and exec :: "'c \<Rightarrow> 'a \<Rightarrow> 'a result"
  assumes exec_edge: "exec c a = Inr b \<Longrightarrow> edge (status a) (status b)"
    and exec_version: "exec c a = Inr b \<Longrightarrow> version b = version a + 1"
begin

lemma run_version: "run_cmds exec cs a = Inr b \<Longrightarrow> version b = version a + int (length cs)"
  by (induction cs arbitrary: a) (fastforce simp: result_simps dest: exec_version)+

lemma reaches_edges: "reaches exec a b \<Longrightarrow> edge\<^sup>*\<^sup>* (status a) (status b)"
  by (induction rule: reaches.induct) (auto dest: exec_edge intro: rtranclp.rtrancl_into_rtrancl)

lemma reaches_version: "reaches exec a b \<Longrightarrow> version a \<le> version b \<and> (version b = version a \<longrightarrow> b = a)"
  by (induction rule: reaches.induct) (auto dest: exec_version)

text \<open>A version names one state of the aggregate's history: the basis of the stale-write check.\<close>

lemma version_names_state:
  assumes "reaches exec a b" and "version b = version a" shows "b = a"
  using reaches_version [OF assms(1)] assms(2) by simp

lemma terminal_refuses:
  assumes "\<And>s. \<not> edge (status a) s" shows "exec c a \<noteq> Inr b"
  using exec_edge assms by blast

lemma terminal_reaches:
  assumes "reaches exec a b" and "\<And>s. \<not> edge (status a) s" shows "b = a"
  using assms
proof (induction rule: reaches.induct)
  case reaches_refl
  then show ?case by simp
next
  case (reaches_step a b c d)
  then show ?case using terminal_refuses by blast
qed

end

end
