(* ===== verification/Invoice.thy ===== *)
theory Invoice
  imports Money Lifecycle
begin

text \<open>
  \<^verbatim>\<open>internal/invoice\<close> (\<^verbatim>\<open>status.go\<close>, \<^verbatim>\<open>domain.go\<close>,
  \<^verbatim>\<open>commands.go\<close>, \<^verbatim>\<open>document.go\<close>): the receivable aggregate, its
  constructor, its state machine, one definition per command, and document metadata. The wire
  strings of a status become constructors; \<^verbatim>\<open>FailedFrom\<close>, which is empty when there was
  no failure, is an option. \<^verbatim>\<open>inv_exec\<close> runs one command, and every command goes
  through \<open>inv_transition\<close>, so the aggregate is an instance of the locale
  \<open>lifecycle\<close>. \<^verbatim>\<open>Version\<close> is a counter that is never bounded.
\<close>

section \<open>Status\<close>

datatype inv_status = InvDraft | InvUploaded | InvExtracting | InvAssessed | InvApproved
  | InvRejected | InvFailed | InvTokenizing | InvTokenized | InvAuctionOpen | InvAllocated
  | InvSettled | InvMatured | InvDefaulted

fun inv_transitions :: "inv_status \<Rightarrow> inv_status list" where
  "inv_transitions InvDraft = [InvUploaded, InvRejected]"
| "inv_transitions InvUploaded = [InvExtracting, InvRejected]"
| "inv_transitions InvExtracting = [InvAssessed, InvFailed]"
| "inv_transitions InvAssessed = [InvApproved, InvRejected]"
| "inv_transitions InvApproved = [InvTokenizing]"
| "inv_transitions InvTokenizing = [InvTokenized, InvFailed]"
| "inv_transitions InvFailed = [InvExtracting, InvTokenizing, InvAllocated, InvRejected]"
| "inv_transitions InvTokenized = [InvAuctionOpen]"
| "inv_transitions InvAuctionOpen = [InvAllocated, InvTokenized]"
| "inv_transitions InvAllocated = [InvSettled, InvFailed]"
| "inv_transitions InvSettled = [InvMatured, InvDefaulted]"
| "inv_transitions InvRejected = []"
| "inv_transitions InvMatured = []"
| "inv_transitions InvDefaulted = []"

definition inv_status_names :: "(inv_status \<times> string) list" where
  "inv_status_names =
    [(InvDraft, ''DRAFT''), (InvUploaded, ''UPLOADED''), (InvExtracting, ''EXTRACTING''),
     (InvAssessed, ''ASSESSED''), (InvApproved, ''APPROVED''), (InvRejected, ''REJECTED''),
     (InvFailed, ''FAILED''), (InvTokenizing, ''TOKENIZING''), (InvTokenized, ''TOKENIZED''),
     (InvAuctionOpen, ''AUCTION_OPEN''), (InvAllocated, ''ALLOCATED''), (InvSettled, ''SETTLED''),
     (InvMatured, ''MATURED''), (InvDefaulted, ''DEFAULTED'')]"

definition inv_status_string :: "inv_status \<Rightarrow> string" where
  "inv_status_string s = the (map_of inv_status_names s)"

definition inv_parse_status :: "string \<Rightarrow> inv_status result" where
  "inv_parse_status s =
    (case find (\<lambda>(st, n). n = s) inv_status_names of
       None \<Rightarrow> Inl ErrValidation
     | Some (st, n) \<Rightarrow> Inr st)"

definition inv_can_transition :: "inv_status \<Rightarrow> inv_status \<Rightarrow> bool" where
  "inv_can_transition s next \<longleftrightarrow> next \<in> set (inv_transitions s)"

definition inv_terminal :: "inv_status \<Rightarrow> bool" where
  "inv_terminal s \<longleftrightarrow> inv_transitions s = []"

lemma inv_status_string_simps [simp]:
  "inv_status_string InvDraft = ''DRAFT''" "inv_status_string InvUploaded = ''UPLOADED''"
  "inv_status_string InvExtracting = ''EXTRACTING''" "inv_status_string InvAssessed = ''ASSESSED''"
  "inv_status_string InvApproved = ''APPROVED''" "inv_status_string InvRejected = ''REJECTED''"
  "inv_status_string InvFailed = ''FAILED''" "inv_status_string InvTokenizing = ''TOKENIZING''"
  "inv_status_string InvTokenized = ''TOKENIZED''"
  "inv_status_string InvAuctionOpen = ''AUCTION_OPEN''"
  "inv_status_string InvAllocated = ''ALLOCATED''" "inv_status_string InvSettled = ''SETTLED''"
  "inv_status_string InvMatured = ''MATURED''" "inv_status_string InvDefaulted = ''DEFAULTED''"
  by (simp_all add: inv_status_string_def inv_status_names_def)

lemma inv_parse_status_string: "inv_parse_status (inv_status_string s) = Inr s"
  by (cases s) (simp_all add: inv_parse_status_def inv_status_names_def)

section \<open>The aggregate\<close>

definition max_debtor_ref_len :: nat where "max_debtor_ref_len = 128"
definition max_number_len :: nat where "max_number_len = 64"
definition min_tenor_days :: int where "min_tenor_days = 1"
definition max_tenor_days :: int where "max_tenor_days = 365"

record invoice =
  inv_id :: uuid
  inv_issuer :: uuid
  inv_debtor_ref :: string
  inv_number :: string
  inv_face :: amount
  inv_issued_at :: instant
  inv_due_at :: instant
  inv_status :: inv_status
  inv_failed_from :: "inv_status option"
  inv_reason :: string
  inv_assessment_id :: uuid
  inv_asset_id :: uuid
  inv_version :: int
  inv_created_at :: instant
  inv_updated_at :: instant

definition fingerprint_terms :: "string \<Rightarrow> string \<Rightarrow> amount \<Rightarrow> instant \<Rightarrow> string" where
  "fingerprint_terms debtor_ref number face due_at =
    join_strings ''|''
      [to_lower (trim_space debtor_ref), trim_space number, int_dec (minor face), currency face,
       date_string due_at]"

definition fingerprint_of :: "(string \<Rightarrow> string) \<Rightarrow> string \<Rightarrow> string \<Rightarrow> amount \<Rightarrow> instant \<Rightarrow> string" where
  "fingerprint_of H debtor_ref number face due_at =
    hex_encode (H (fingerprint_terms debtor_ref number face due_at))"

definition inv_fingerprint :: "(string \<Rightarrow> string) \<Rightarrow> invoice \<Rightarrow> string" where
  "inv_fingerprint H i = fingerprint_of H (inv_debtor_ref i) (inv_number i) (inv_face i) (inv_due_at i)"

record invoice_params =
  np_id :: uuid
  np_issuer :: uuid
  np_debtor_ref :: string
  np_number :: string
  np_face :: amount
  np_issued_at :: instant
  np_due_at :: instant

definition tenor_days_between :: "instant \<Rightarrow> instant \<Rightarrow> int" where
  "tenor_days_between from till = go_quot (time_sub till from) (hours 24)"

definition validate_dates :: "instant \<Rightarrow> instant \<Rightarrow> app_error list" where
  "validate_dates issued_at due_at =
    (let zeros = violation (time_is_zero issued_at) (Invalid ''issued_at'')
               @ violation (time_is_zero due_at) (Invalid ''due_at'')
     in if time_is_zero issued_at \<or> time_is_zero due_at then zeros
        else if \<not> issued_at < due_at then zeros @ [Invalid ''due_at'']
        else let tenor = tenor_days_between issued_at due_at
             in zeros @ (if tenor < min_tenor_days then [Invalid ''due_at'']
                         else if tenor > max_tenor_days then [Invalid ''due_at''] else []))"

definition new_invoice :: "invoice_params \<Rightarrow> instant \<Rightarrow> invoice result" where
  "new_invoice p now =
    (let debtor_ref = trim_space (np_debtor_ref p);
         number = trim_space (np_number p)
     in checked
          (violation (np_id p = uuid_nil) (Invalid ''id'')
           @ violation (np_issuer p = uuid_nil) (Invalid ''issuer_id'')
           @ (if debtor_ref = [] then [Invalid ''debtor_ref'']
              else if length debtor_ref > max_debtor_ref_len then [Invalid ''debtor_ref''] else [])
           @ (if number = [] then [Invalid ''number'']
              else if length number > max_number_len then [Invalid ''number''] else [])
           @ (if \<not> amount_valid (np_face p) then [Invalid ''face'']
              else if \<not> amount_positive (np_face p) then [Invalid ''face''] else [])
           @ validate_dates (np_issued_at p) (np_due_at p))
          (Inr \<lparr>inv_id = np_id p, inv_issuer = np_issuer p, inv_debtor_ref = debtor_ref,
                inv_number = number, inv_face = np_face p, inv_issued_at = np_issued_at p,
                inv_due_at = np_due_at p, inv_status = InvDraft, inv_failed_from = None,
                inv_reason = [], inv_assessment_id = uuid_nil, inv_asset_id = uuid_nil,
                inv_version = 1, inv_created_at = now, inv_updated_at = now\<rparr>))"

definition inv_currency :: "invoice \<Rightarrow> currency_code" where
  "inv_currency i = currency (inv_face i)"

definition inv_tenor_days :: "invoice \<Rightarrow> int" where
  "inv_tenor_days i = tenor_days_between (inv_issued_at i) (inv_due_at i)"

definition inv_days_to_due :: "invoice \<Rightarrow> instant \<Rightarrow> int" where
  "inv_days_to_due i now = tenor_days_between now (inv_due_at i)"

definition inv_is_overdue :: "invoice \<Rightarrow> instant \<Rightarrow> bool" where
  "inv_is_overdue i now \<longleftrightarrow> inv_due_at i < now"

section \<open>Commands\<close>

definition inv_transition :: "inv_status \<Rightarrow> instant \<Rightarrow> invoice \<Rightarrow> invoice result" where
  "inv_transition next now i =
    (if \<not> inv_can_transition (inv_status i) next then Inl ErrConflict
     else Inr (i\<lparr>inv_status := next, inv_version := inv_version i + 1, inv_updated_at := now\<rparr>))"

definition inv_clear_failure :: "invoice \<Rightarrow> invoice" where
  "inv_clear_failure i = i\<lparr>inv_failed_from := None, inv_reason := []\<rparr>"

definition inv_fail :: "string \<Rightarrow> instant \<Rightarrow> invoice \<Rightarrow> invoice result" where
  "inv_fail reason now i =
    and_then (clean_reason reason) (\<lambda>cleaned.
    and_then (inv_transition InvFailed now i) (\<lambda>i'.
      Inr (i'\<lparr>inv_failed_from := Some (inv_status i), inv_reason := cleaned\<rparr>)))"

definition mark_uploaded :: "instant \<Rightarrow> invoice \<Rightarrow> invoice result" where
  "mark_uploaded now i = inv_transition InvUploaded now i"

definition start_assessment :: "instant \<Rightarrow> invoice \<Rightarrow> invoice result" where
  "start_assessment now i =
    (if inv_status i = InvFailed \<and> inv_failed_from i \<noteq> Some InvExtracting then Inl ErrConflict
     else and_then (inv_transition InvExtracting now i) (\<lambda>i'. Inr (inv_clear_failure i')))"

definition complete_assessment :: "uuid \<Rightarrow> instant \<Rightarrow> invoice \<Rightarrow> invoice result" where
  "complete_assessment a now i =
    (if a = uuid_nil then Inl (Invalid ''assessment_id'')
     else and_then (inv_transition InvAssessed now i) (\<lambda>i'. Inr (i'\<lparr>inv_assessment_id := a\<rparr>)))"

definition fail_assessment :: "string \<Rightarrow> instant \<Rightarrow> invoice \<Rightarrow> invoice result" where
  "fail_assessment reason now i = inv_fail reason now i"

definition inv_approve :: "instant \<Rightarrow> invoice \<Rightarrow> invoice result" where
  "inv_approve now i =
    (if inv_assessment_id i = uuid_nil then Inl ErrConflict else inv_transition InvApproved now i)"

definition inv_reject :: "string \<Rightarrow> instant \<Rightarrow> invoice \<Rightarrow> invoice result" where
  "inv_reject reason now i =
    and_then (clean_reason reason) (\<lambda>cleaned.
    and_then (inv_transition InvRejected now i) (\<lambda>i'. Inr (i'\<lparr>inv_reason := cleaned\<rparr>)))"

definition start_tokenization :: "instant \<Rightarrow> invoice \<Rightarrow> invoice result" where
  "start_tokenization now i =
    (if inv_status i = InvFailed \<and> inv_failed_from i \<noteq> Some InvTokenizing then Inl ErrConflict
     else and_then (inv_transition InvTokenizing now i) (\<lambda>i'. Inr (inv_clear_failure i')))"

definition complete_tokenization :: "uuid \<Rightarrow> instant \<Rightarrow> invoice \<Rightarrow> invoice result" where
  "complete_tokenization a now i =
    (if a = uuid_nil then Inl (Invalid ''asset_id'')
     else and_then (inv_transition InvTokenized now i) (\<lambda>i'. Inr (i'\<lparr>inv_asset_id := a\<rparr>)))"

definition fail_tokenization :: "string \<Rightarrow> instant \<Rightarrow> invoice \<Rightarrow> invoice result" where
  "fail_tokenization reason now i = inv_fail reason now i"

definition inv_open_auction :: "instant \<Rightarrow> invoice \<Rightarrow> invoice result" where
  "inv_open_auction now i = inv_transition InvAuctionOpen now i"

definition inv_cancel_auction :: "string \<Rightarrow> instant \<Rightarrow> invoice \<Rightarrow> invoice result" where
  "inv_cancel_auction reason now i =
    and_then (clean_reason reason) (\<lambda>cleaned.
      if inv_status i \<noteq> InvAuctionOpen then Inl ErrConflict
      else and_then (inv_transition InvTokenized now i) (\<lambda>i'. Inr (i'\<lparr>inv_reason := cleaned\<rparr>)))"

definition mark_allocated :: "instant \<Rightarrow> invoice \<Rightarrow> invoice result" where
  "mark_allocated now i = inv_transition InvAllocated now i"

definition mark_settled :: "instant \<Rightarrow> invoice \<Rightarrow> invoice result" where
  "mark_settled now i = inv_transition InvSettled now i"

definition fail_settlement :: "string \<Rightarrow> instant \<Rightarrow> invoice \<Rightarrow> invoice result" where
  "fail_settlement reason now i = inv_fail reason now i"

definition mark_matured :: "instant \<Rightarrow> invoice \<Rightarrow> invoice result" where
  "mark_matured now i = inv_transition InvMatured now i"

definition mark_defaulted :: "string \<Rightarrow> instant \<Rightarrow> invoice \<Rightarrow> invoice result" where
  "mark_defaulted reason now i =
    and_then (clean_reason reason) (\<lambda>cleaned.
    and_then (inv_transition InvDefaulted now i) (\<lambda>i'. Inr (i'\<lparr>inv_reason := cleaned\<rparr>)))"

text \<open>Every command of the aggregate, with the time it is given.\<close>

datatype inv_command =
    MarkUploaded instant | StartAssessment instant | CompleteAssessment uuid instant
  | FailAssessment string instant | Approve instant | Reject string instant
  | StartTokenization instant | CompleteTokenization uuid instant | FailTokenization string instant
  | OpenAuction instant | CancelAuction string instant | MarkAllocated instant
  | MarkSettled instant | FailSettlement string instant | MarkMatured instant
  | MarkDefaulted string instant

fun inv_exec :: "inv_command \<Rightarrow> invoice \<Rightarrow> invoice result" where
  "inv_exec (MarkUploaded now) = mark_uploaded now"
| "inv_exec (StartAssessment now) = start_assessment now"
| "inv_exec (CompleteAssessment a now) = complete_assessment a now"
| "inv_exec (FailAssessment r now) = fail_assessment r now"
| "inv_exec (Approve now) = inv_approve now"
| "inv_exec (Reject r now) = inv_reject r now"
| "inv_exec (StartTokenization now) = start_tokenization now"
| "inv_exec (CompleteTokenization a now) = complete_tokenization a now"
| "inv_exec (FailTokenization r now) = fail_tokenization r now"
| "inv_exec (OpenAuction now) = inv_open_auction now"
| "inv_exec (CancelAuction r now) = inv_cancel_auction r now"
| "inv_exec (MarkAllocated now) = mark_allocated now"
| "inv_exec (MarkSettled now) = mark_settled now"
| "inv_exec (FailSettlement r now) = fail_settlement r now"
| "inv_exec (MarkMatured now) = mark_matured now"
| "inv_exec (MarkDefaulted r now) = mark_defaulted r now"

lemmas inv_command_defs = mark_uploaded_def start_assessment_def complete_assessment_def
  fail_assessment_def inv_approve_def inv_reject_def start_tokenization_def
  complete_tokenization_def fail_tokenization_def inv_open_auction_def inv_cancel_auction_def
  mark_allocated_def mark_settled_def fail_settlement_def mark_matured_def mark_defaulted_def
  inv_fail_def inv_clear_failure_def

lemma inv_transition_Inr [result_simps]:
  "inv_transition next now i = Inr j \<longleftrightarrow> inv_can_transition (inv_status i) next \<and>
     j = i\<lparr>inv_status := next, inv_version := inv_version i + 1, inv_updated_at := now\<rparr>"
  by (auto simp: inv_transition_def)

text \<open>What a command that succeeds does, over the machine's table.\<close>

lemma inv_exec_Inr:
  assumes "inv_exec c i = Inr j"
  shows "inv_can_transition (inv_status i) (inv_status j)" and "inv_version j = inv_version i + 1"
  using assms by (cases c; auto simp: inv_command_defs result_simps)+

interpretation inv: lifecycle inv_can_transition inv_status inv_version inv_exec
  by unfold_locales (auto dest: inv_exec_Inr)

text \<open>No command touches the facts the issuer supplied.\<close>

definition inv_terms where
  "inv_terms i = (inv_id i, inv_issuer i, inv_debtor_ref i, inv_number i, inv_face i,
     inv_issued_at i, inv_due_at i, inv_created_at i)"

lemma inv_exec_terms: "inv_exec c i = Inr j \<Longrightarrow> inv_terms j = inv_terms i"
  by (cases c; auto simp: inv_command_defs result_simps inv_terms_def)

section \<open>What every reachable invoice satisfies\<close>

definition inv_sound :: "invoice \<Rightarrow> bool" where
  "inv_sound i \<longleftrightarrow>
     (inv_status i = InvFailed \<longrightarrow> inv_reason i \<noteq> [] \<and>
        inv_failed_from i \<in> {Some InvExtracting, Some InvTokenizing, Some InvAllocated}) \<and>
     (inv_status i \<in> {InvRejected, InvDefaulted} \<longrightarrow> inv_reason i \<noteq> []) \<and>
     (inv_status i \<in> {InvAssessed, InvApproved, InvTokenizing, InvTokenized, InvAuctionOpen} \<or>
        inv_status i = InvFailed \<and> inv_failed_from i = Some InvTokenizing
        \<longrightarrow> inv_assessment_id i \<noteq> uuid_nil) \<and>
     (inv_status i \<in> {InvTokenized, InvAuctionOpen} \<longrightarrow> inv_asset_id i \<noteq> uuid_nil)"

lemma inv_sound_step: "inv_exec c i = Inr j \<Longrightarrow> inv_sound i \<Longrightarrow> inv_sound j"
  by (cases c; cases "inv_status i"; simp add: inv_command_defs result_simps inv_can_transition_def;
      force simp: inv_sound_def)

lemma new_invoice_Inr:
  assumes "new_invoice p now = Inr i"
  shows "inv_status i = InvDraft" "inv_version i = 1" "inv_issuer i = np_issuer p"
    "inv_id i = np_id p" "inv_id i \<noteq> uuid_nil" "inv_issuer i \<noteq> uuid_nil"
    "amount_valid (inv_face i)" "amount_positive (inv_face i)"
    "inv_debtor_ref i = trim_space (np_debtor_ref p)" "inv_number i = trim_space (np_number p)"
    "inv_debtor_ref i \<noteq> []" "inv_number i \<noteq> []"
    "length (inv_debtor_ref i) \<le> max_debtor_ref_len" "length (inv_number i) \<le> max_number_len"
    "validate_dates (inv_issued_at i) (inv_due_at i) = []"
  using assms by (auto simp: new_invoice_def Let_def result_simps split: if_splits)

lemma new_invoice_sound: "new_invoice p now = Inr i \<Longrightarrow> inv_sound i"
  by (simp add: inv_sound_def new_invoice_Inr)

text \<open>
  The machine the comment on the table describes: a retry resumes the stage that failed. It
  differs from the code in one command, \<^verbatim>\<open>MarkAllocated\<close>, which has no such guard.
\<close>

definition inv_retry_elsewhere :: "inv_command \<Rightarrow> invoice \<Rightarrow> bool" where
  "inv_retry_elsewhere c i \<longleftrightarrow>
     (case c of MarkAllocated now \<Rightarrow> True | _ \<Rightarrow> False) \<and>
     inv_status i = InvFailed \<and> inv_failed_from i \<noteq> Some InvAllocated"

definition inv_exec_guarded :: "inv_command \<Rightarrow> invoice \<Rightarrow> invoice result" where
  "inv_exec_guarded c i = (if inv_retry_elsewhere c i then Inl ErrConflict else inv_exec c i)"

interpretation inv_guarded: lifecycle inv_can_transition inv_status inv_version inv_exec_guarded
  by unfold_locales (auto simp: inv_exec_guarded_def dest: inv_exec_Inr split: if_splits)

definition inv_backed :: "invoice \<Rightarrow> bool" where
  "inv_backed i \<longleftrightarrow> inv_sound i \<and>
     (inv_status i \<in> {InvAllocated, InvSettled, InvMatured, InvDefaulted} \<or>
        inv_status i = InvFailed \<and> inv_failed_from i = Some InvAllocated
        \<longrightarrow> inv_assessment_id i \<noteq> uuid_nil \<and> inv_asset_id i \<noteq> uuid_nil)"

lemma inv_backed_step:
  assumes "inv_exec_guarded c i = Inr j" and "inv_backed i" shows "inv_backed j"
proof -
  from assms(1) have x: "inv_exec c i = Inr j" "\<not> inv_retry_elsewhere c i"
    by (auto simp: inv_exec_guarded_def split: if_splits)
  moreover have "inv_sound j" using assms(2) inv_sound_step [OF x(1)] by (simp add: inv_backed_def)
  ultimately show ?thesis using assms(2)
    by (cases c; cases "inv_status i"; simp add: inv_command_defs result_simps inv_can_transition_def;
        force simp: inv_backed_def inv_sound_def inv_retry_elsewhere_def)
qed

lemma new_invoice_backed: "new_invoice p now = Inr i \<Longrightarrow> inv_backed i"
  by (simp add: inv_backed_def new_invoice_sound new_invoice_Inr)

section \<open>Documents\<close>

definition max_document_bytes :: int where "max_document_bytes = 10 * 2 ^ 20"
definition max_object_key_len :: nat where "max_object_key_len = 512"
definition max_key_ref_len :: nat where "max_key_ref_len = 512"

definition allowed_mime_types :: "string list" where
  "allowed_mime_types = [''application/pdf'', ''application/json'']"

record document =
  doc_invoice_id :: uuid
  doc_object_key :: string
  doc_cipher_hash :: string
  doc_key_ref :: string
  doc_mime :: string
  doc_size_bytes :: int
  doc_uploaded_at :: instant

record document_params =
  ndp_invoice_id :: uuid
  ndp_object_key :: string
  ndp_cipher_hash :: string
  ndp_key_ref :: string
  ndp_mime :: string
  ndp_size_bytes :: int

definition new_document :: "document_params \<Rightarrow> instant \<Rightarrow> document result" where
  "new_document p now =
    (let object_key = trim_space (ndp_object_key p);
         cipher_hash = to_lower (trim_space (ndp_cipher_hash p));
         key_ref = trim_space (ndp_key_ref p);
         mime = to_lower (trim_space (ndp_mime p))
     in checked
          (violation (ndp_invoice_id p = uuid_nil) (Invalid ''invoice_id'')
           @ (if object_key = [] then [Invalid ''object_key'']
              else if length object_key > max_object_key_len then [Invalid ''object_key''] else [])
           @ violation (\<not> digest_hex cipher_hash) (Invalid ''cipher_hash'')
           @ (if key_ref = [] then [Invalid ''key_ref'']
              else if length key_ref > max_key_ref_len then [Invalid ''key_ref''] else [])
           @ violation (mime \<notin> set allowed_mime_types) (Invalid ''mime'')
           @ (if ndp_size_bytes p \<le> 0 then [Invalid ''size_bytes'']
              else if ndp_size_bytes p > max_document_bytes then [Invalid ''size_bytes''] else []))
          (Inr \<lparr>doc_invoice_id = ndp_invoice_id p, doc_object_key = object_key,
                doc_cipher_hash = cipher_hash, doc_key_ref = key_ref, doc_mime = mime,
                doc_size_bytes = ndp_size_bytes p, doc_uploaded_at = now\<rparr>))"

definition matches_cipher_hash :: "document \<Rightarrow> string \<Rightarrow> bool" where
  "matches_cipher_hash d digest \<longleftrightarrow> doc_cipher_hash d = to_lower (trim_space digest)"

text \<open>The digest a document was built from always matches it, however it is spelled.\<close>

lemma new_document_matches:
  assumes "new_document p now = Inr d"
  shows "matches_cipher_hash d (ndp_cipher_hash p)" and "matches_cipher_hash d (doc_cipher_hash d)"
    and "digest_hex (doc_cipher_hash d)"
proof -
  have c: "doc_cipher_hash d = to_lower (trim_space (ndp_cipher_hash p))"
    and hex: "digest_hex (doc_cipher_hash d)"
    using assms by (auto simp: new_document_def Let_def result_simps)
  show "matches_cipher_hash d (ndp_cipher_hash p)" by (simp add: matches_cipher_hash_def c)
  show "matches_cipher_hash d (doc_cipher_hash d)"
    using digest_hex_trim [OF hex] by (simp add: matches_cipher_hash_def)
  show "digest_hex (doc_cipher_hash d)" by (rule hex)
qed

section \<open>Fingerprints\<close>

lemma fingerprint_terms_inj:
  assumes "bar_free d1" "bar_free d2" "bar_free n1" "bar_free n2" "amount_valid f1" "amount_valid f2"
    and eq: "fingerprint_terms d1 n1 f1 t1 = fingerprint_terms d2 n2 f2 t2"
  shows "to_lower (trim_space d1) = to_lower (trim_space d2)" and "trim_space n1 = trim_space n2"
    and "f1 = f2" and "date_string t1 = date_string t2"
proof -
  have free: "bar_free (to_lower (trim_space d1))" "bar_free (to_lower (trim_space d2))"
    "bar_free (trim_space n1)" "bar_free (trim_space n2)" "bar_free (int_dec (minor f1))"
    "bar_free (int_dec (minor f2))" "bar_free (currency f1)" "bar_free (currency f2)"
    using assms by (simp_all add: amount_valid_def)
  have "[to_lower (trim_space d1), trim_space n1, int_dec (minor f1), currency f1, date_string t1] =
    [to_lower (trim_space d2), trim_space n2, int_dec (minor f2), currency f2, date_string t2]"
    by (rule join_strings_inj [where c = "CHR ''|''"])
      (use eq free in \<open>auto simp: fingerprint_terms_def bar_free_def\<close>)
  then show "to_lower (trim_space d1) = to_lower (trim_space d2)" "trim_space n1 = trim_space n2"
    "f1 = f2" "date_string t1 = date_string t2"
    by (auto dest: int_dec_inj)
qed

text \<open>
  Nothing keeps the separator out of a debtor reference or a number, so two different
  receivables can share one canonical form, whatever the hash.
\<close>

lemma fingerprint_ambiguous:
  "fingerprint_of H ''acme|7'' ''9'' f t = fingerprint_of H ''acme'' ''7|9'' f t"
proof -
  have "trim_space ''acme|7'' = ''acme|7''" "trim_space ''acme'' = ''acme''"
    "trim_space ''7|9'' = ''7|9''" "trim_space ''9'' = ''9''"
    by (rule trim_space_solid, simp add: white_space_def)+
  then show ?thesis by (simp add: fingerprint_of_def fingerprint_terms_def to_lower_def lower_char_def)
qed

section \<open>Properties\<close>

definition sample_invoice_params :: invoice_params where
  "sample_invoice_params = \<lparr>np_id = 1, np_issuer = 2, np_debtor_ref = ''acme'', np_number = ''INV-1'',
     np_face = \<lparr>minor = 100000, currency = ''USD''\<rparr>, np_issued_at = hours 24,
     np_due_at = hours (24 * 61)\<rparr>"

definition sample_invoice :: invoice where
  "sample_invoice = \<lparr>inv_id = 1, inv_issuer = 2, inv_debtor_ref = ''acme'', inv_number = ''INV-1'',
     inv_face = \<lparr>minor = 100000, currency = ''USD''\<rparr>, inv_issued_at = hours 24,
     inv_due_at = hours (24 * 61), inv_status = InvDraft, inv_failed_from = None, inv_reason = [],
     inv_assessment_id = 0, inv_asset_id = 0, inv_version = 1, inv_created_at = 5,
     inv_updated_at = 5\<rparr>"

lemma sample_invoice_new: "new_invoice sample_invoice_params 5 = Inr sample_invoice"
  by code_simp

definition sample_sale :: "inv_command list" where
  "sample_sale = [MarkUploaded 6, StartAssessment 7, CompleteAssessment 3 8, Approve 9,
     StartTokenization 10, CompleteTokenization 4 11, OpenAuction 12, MarkAllocated 13,
     FailSettlement ''chain down'' 14, MarkAllocated 15, MarkSettled 16, MarkMatured 17]"

definition sample_matured :: invoice where
  "sample_matured = sample_invoice\<lparr>inv_status := InvMatured, inv_failed_from := Some InvAllocated,
     inv_reason := ''chain down'', inv_assessment_id := 3, inv_asset_id := 4, inv_version := 13,
     inv_updated_at := 17\<rparr>"

lemma sample_sale_run: "run_cmds inv_exec sample_sale sample_invoice = Inr sample_matured"
  by code_simp

lemma sample_sale_guarded: "run_cmds inv_exec_guarded sample_sale sample_invoice = Inr sample_matured"
  by code_simp

text \<open>C2: whatever commands are applied to a new invoice, the invoice they lead to is sound: a
  FAILED invoice names the stage that failed (one of EXTRACTING, TOKENIZING, ALLOCATED) and a
  reason, a REJECTED or DEFAULTED one has a reason, every invoice between ASSESSED and
  AUCTION_OPEN has its risk assessment, a TOKENIZED or AUCTION_OPEN one has its asset; and no
  command changes the facts the issuer supplied.\<close>
theorem invoice_reachable_sound:
  assumes "new_invoice p now = Inr i" and "reaches inv_exec i j"
  shows "inv_sound j \<and> inv_terms j = inv_terms i"
proof
  show "inv_sound j"
    using assms(2) new_invoice_sound [OF assms(1)] inv_sound_step by (rule reaches_invariant)
  show "inv_terms j = inv_terms i"
    by (rule reaches_invariant [OF assms(2), where P = "\<lambda>x. inv_terms x = inv_terms i"])
      (auto dest: inv_exec_terms)
qed

theorem invoice_reachable_sound_witness:
  "inv_sound sample_matured \<and> inv_terms sample_matured = inv_terms sample_invoice"
  by (rule invoice_reachable_sound [OF sample_invoice_new run_cmds_reaches [OF sample_sale_run]])

text \<open>the version of an invoice is one plus the number of commands applied since it was
  created, so within one history a version names one state of the invoice, which is what the
  stale-write check of the repository relies on; and an invoice in a terminal status accepts no
  further command.\<close>
theorem invoice_version_counts_commands:
  assumes "new_invoice p now = Inr i" and "run_cmds inv_exec cs i = Inr j"
  shows "inv_version j = 1 + int (length cs) \<and>
    (reaches inv_exec j k \<and> inv_version k = inv_version j \<longrightarrow> k = j) \<and>
    (inv_terminal (inv_status j) \<longrightarrow> inv_exec c j \<noteq> Inr k)"
proof (intro conjI impI)
  show "inv_version j = 1 + int (length cs)"
    using inv.run_version [OF assms(2)] new_invoice_Inr(2) [OF assms(1)] by simp
  show "k = j" if "reaches inv_exec j k \<and> inv_version k = inv_version j"
    using that inv.version_names_state by blast
  show "inv_exec c j \<noteq> Inr k" if "inv_terminal (inv_status j)"
    by (rule inv.terminal_refuses) (use that in \<open>simp add: inv_terminal_def inv_can_transition_def\<close>)
qed

theorem invoice_version_counts_commands_witness:
  "inv_version sample_matured = 13 \<and> inv_exec (MarkUploaded 20) sample_matured \<noteq> Inr sample_invoice"
proof -
  have "length sample_sale = 12" "inv_terminal (inv_status sample_matured)" by code_simp+
  then show ?thesis
    using invoice_version_counts_commands [OF sample_invoice_new sample_sale_run,
        of sample_invoice "MarkUploaded 20"] by linarith
qed

text \<open>in the machine in which a failed invoice may only resume the stage that failed, an
  invoice that was allocated, settled, matured or defaulted has both its assessment and its
  asset; and the code is that machine, command by command, except for
  \<^verbatim>\<open>MarkAllocated\<close> on an invoice that failed before it was allocated.\<close>
theorem invoice_backed_unless_unguarded:
  assumes "new_invoice p now = Inr i" and "reaches inv_exec_guarded i j"
  shows "inv_backed j \<and> (\<not> inv_retry_elsewhere c j \<longrightarrow> inv_exec c j = inv_exec_guarded c j)"
proof
  show "inv_backed j"
    using assms(2) new_invoice_backed [OF assms(1)] inv_backed_step by (rule reaches_invariant)
qed (simp add: inv_exec_guarded_def)

theorem invoice_backed_unless_unguarded_witness:
  "inv_backed sample_matured \<and>
    inv_exec (MarkAllocated 1) sample_matured = inv_exec_guarded (MarkAllocated 1) sample_matured"
proof -
  have "\<not> inv_retry_elsewhere (MarkAllocated 1) sample_matured" by code_simp
  then show ?thesis
    using invoice_backed_unless_unguarded
      [OF sample_invoice_new run_cmds_reaches [OF sample_sale_guarded], of "MarkAllocated 1"]
    by blast
qed

text \<open>
  \<^verbatim>\<open>MarkAllocated\<close> checks no stage: an invoice whose very first assessment failed is
  allocated and settled without an assessment and without an asset.
\<close>

definition sample_unbacked :: invoice where
  "sample_unbacked = sample_invoice\<lparr>inv_status := InvSettled, inv_failed_from := Some InvExtracting,
     inv_reason := ''no enclave'', inv_version := 6, inv_updated_at := 10\<rparr>"

theorem unbacked_invoice_settles:
  "run_cmds inv_exec [MarkUploaded 6, StartAssessment 7, FailAssessment ''no enclave'' 8,
      MarkAllocated 9, MarkSettled 10] sample_invoice = Inr sample_unbacked \<and>
    inv_status sample_unbacked = InvSettled \<and> inv_assessment_id sample_unbacked = uuid_nil \<and>
    inv_asset_id sample_unbacked = uuid_nil"
  by code_simp

text \<open>two receivables with the same fingerprint are the same receivable, up to the case and
  the surrounding space of the debtor reference, the surrounding space of the number and the time
  of day the debt is due, unless the hash collides on their canonical forms; provided neither the
  debtor references nor the numbers contain the separator.\<close>
theorem fingerprint_identifies_receivable:
  assumes "bar_free (inv_debtor_ref i)" "bar_free (inv_debtor_ref j)"
    and "bar_free (inv_number i)" "bar_free (inv_number j)"
    and "amount_valid (inv_face i)" "amount_valid (inv_face j)"
    and "inv_fingerprint H i = inv_fingerprint H j"
  shows "to_lower (trim_space (inv_debtor_ref i)) = to_lower (trim_space (inv_debtor_ref j)) \<and>
      trim_space (inv_number i) = trim_space (inv_number j) \<and> inv_face i = inv_face j \<and>
      date_string (inv_due_at i) = date_string (inv_due_at j) \<or>
    (\<exists>s t. s \<noteq> t \<and> H s = H t)"
proof (cases "fingerprint_terms (inv_debtor_ref i) (inv_number i) (inv_face i) (inv_due_at i) =
    fingerprint_terms (inv_debtor_ref j) (inv_number j) (inv_face j) (inv_due_at j)")
  case True
  then show ?thesis using fingerprint_terms_inj [OF assms(1-6) True] by blast
next
  case False
  moreover have "H (fingerprint_terms (inv_debtor_ref i) (inv_number i) (inv_face i) (inv_due_at i)) =
    H (fingerprint_terms (inv_debtor_ref j) (inv_number j) (inv_face j) (inv_due_at j))"
    using assms(7) hex_encode_inj by (simp add: inv_fingerprint_def fingerprint_of_def)
  ultimately show ?thesis by blast
qed

theorem fingerprint_identifies_receivable_witness:
  "inv_face sample_invoice = inv_face sample_matured"
proof -
  have "bar_free (inv_debtor_ref sample_invoice)" "bar_free (inv_debtor_ref sample_matured)"
    "bar_free (inv_number sample_invoice)" "bar_free (inv_number sample_matured)"
    "amount_valid (inv_face sample_invoice)" "amount_valid (inv_face sample_matured)"
    by (simp_all add: sample_matured_def sample_invoice_def bar_free_def amount_valid_def
        currency_valid_cases)
  moreover have "inv_fingerprint id sample_invoice = inv_fingerprint id sample_matured"
    by (simp add: sample_matured_def inv_fingerprint_def)
  ultimately show ?thesis
    using fingerprint_identifies_receivable [of sample_invoice sample_matured id] by simp
qed

end
