(* ===== verification/Redemption.thy ===== *)
theory Redemption
  imports Money Lifecycle
begin

text \<open>
  \<^verbatim>\<open>internal/redemption\<close> (\<^verbatim>\<open>distribute.go\<close>, \<^verbatim>\<open>domain.go\<close>): the debtor's
  payment and its division among the holders in whole minor units, largest remainder first.
  Go's \<^verbatim>\<open>big.Int\<close> is \<^typ>\<open>int\<close>; its \<^verbatim>\<open>Int64\<close> is the low 64 bits. The
  lemmas reduce the loops over indices to one formula per holder, from which exactness,
  proportionality and independence of the order of the holders follow.
\<close>

section \<open>Data\<close>

record holder =
  h_party :: uuid
  h_notional :: amount

record share =
  sh_party :: uuid
  sh_notional :: amount
  sh_amount :: amount

record repayment =
  rp_id :: uuid
  rp_invoice_id :: uuid
  rp_face :: amount
  rp_amount :: amount
  rp_reference :: string
  rp_received_at :: instant
  rp_recorded_by :: uuid
  rp_shares :: "share list"
  rp_created_at :: instant

record repayment_params =
  nrp_id :: uuid
  nrp_invoice_id :: uuid
  nrp_face :: amount
  nrp_amount :: amount
  nrp_reference :: string
  nrp_received_at :: instant
  nrp_recorded_by :: uuid
  nrp_holders :: "holder list"

section \<open>Dividing a payment\<close>

text \<open>One turn of the loop that validates the holders: the violations, the parties seen, the total.\<close>

definition check_holder ::
  "amount \<Rightarrow> holder \<Rightarrow> app_error list \<times> uuid set \<times> int \<Rightarrow> app_error list \<times> uuid set \<times> int" where
  "check_holder received h acc =
    (case acc of (vs, seen, tot) \<Rightarrow>
       if h_party h = uuid_nil then (vs @ [Invalid ''holders''], seen, tot)
       else if \<not> amount_valid (h_notional h) \<or> \<not> amount_positive (h_notional h)
         then (vs @ [Invalid ''holders''], seen, tot)
       else if currency (h_notional h) \<noteq> currency received
         then (vs @ [Invalid ''holders''], seen, tot)
       else if h_party h \<in> seen then (vs @ [Invalid ''holders''], seen, tot)
       else (vs, insert (h_party h) seen, tot + minor (h_notional h)))"

text \<open>The comparator of \<^verbatim>\<open>SliceStable\<close>, on indices.\<close>

definition remainder_before :: "uuid_ops \<Rightarrow> int list \<Rightarrow> share list \<Rightarrow> nat \<Rightarrow> nat \<Rightarrow> bool" where
  "remainder_before U remainders shares i j \<longleftrightarrow>
    (let cmp = cmp_int (remainders ! j) (remainders ! i)
     in if cmp \<noteq> 0 then cmp < 0
        else uuid_string U (sh_party (shares ! i)) < uuid_string U (sh_party (shares ! j)))"

text \<open>One extra unit for the share at an index.\<close>

definition bump_share :: "amount \<Rightarrow> nat \<Rightarrow> share list \<Rightarrow> share list result" where
  "bump_share received index shares =
    and_then (must_new 1 (currency received)) (\<lambda>one.
    and_then (amount_add (sh_amount (shares ! index)) one) (\<lambda>bumped.
      Inr (shares[index := (shares ! index)\<lparr>sh_amount := bumped\<rparr>])))"

definition divide_holder :: "amount \<Rightarrow> int \<Rightarrow> holder \<Rightarrow> (share \<times> int \<times> int) result" where
  "divide_holder received tot h =
    (let product = minor received * minor (h_notional h);
         whole = go_quot product tot;
         rest = product - whole * tot
     in and_then (amount_new (wrap64 whole) (currency received)) (\<lambda>part.
          Inr (\<lparr>sh_party = h_party h, sh_notional = h_notional h, sh_amount = part\<rparr>, rest, whole)))"

definition distribute :: "uuid_ops \<Rightarrow> amount \<Rightarrow> holder list \<Rightarrow> share list result" where
  "distribute U received holders =
    (if \<not> amount_valid received \<or> \<not> amount_positive received then Inl (Invalid ''received'')
     else if holders = [] then Inl (Invalid ''holders'')
     else case fold (check_holder received) holders ([], {}, 0) of (violations, _, tot) \<Rightarrow>
       if violations \<noteq> [] then Inl (Joined violations)
       else and_then (traverse (divide_holder received tot) holders) (\<lambda>parts.
         let shares = map fst parts;
             remainders = map (fst \<circ> snd) parts;
             handed_out = sum_list (map (snd \<circ> snd) parts);
             left = wrap64 (minor received - handed_out);
             order = sort_by (remainder_before U remainders shares) [0..<length holders]
         in if left < 0 \<or> left > int (length order) then Inl Panic
            else fold_result (bump_share received) (take (nat left) order) shares))"

section \<open>The repayment\<close>

definition max_reference_len :: nat where "max_reference_len = 128"

definition new_repayment :: "uuid_ops \<Rightarrow> repayment_params \<Rightarrow> instant \<Rightarrow> repayment result" where
  "new_repayment U p now =
    (let reference = trim_space (nrp_reference p)
     in checked
       (violation (nrp_id p = uuid_nil) (Invalid ''id'')
        @ violation (nrp_invoice_id p = uuid_nil) (Invalid ''invoice_id'')
        @ violation (nrp_recorded_by p = uuid_nil) (Invalid ''recorded_by'')
        @ (if reference = [] then [Invalid ''reference'']
           else if length reference > max_reference_len then [Invalid ''reference''] else [])
        @ (if \<not> amount_valid (nrp_face p) \<or> \<not> amount_positive (nrp_face p) then [Invalid ''face'']
           else if \<not> amount_valid (nrp_amount p) \<or> \<not> amount_positive (nrp_amount p)
             then [Invalid ''amount'']
           else if currency (nrp_amount p) \<noteq> currency (nrp_face p) then [Invalid ''amount'']
           else (case amount_cmp (nrp_amount p) (nrp_face p) of
                   Inl e \<Rightarrow> [] | Inr c \<Rightarrow> if c > 0 then [Invalid ''amount''] else []))
        @ (if time_is_zero (nrp_received_at p) then [Invalid ''received_at'']
           else if now < nrp_received_at p then [Invalid ''received_at''] else []))
       (and_then (distribute U (nrp_amount p) (nrp_holders p)) (\<lambda>shares.
          Inr \<lparr>rp_id = nrp_id p, rp_invoice_id = nrp_invoice_id p, rp_face = nrp_face p,
               rp_amount = nrp_amount p, rp_reference = reference,
               rp_received_at = nrp_received_at p, rp_recorded_by = nrp_recorded_by p,
               rp_shares = shares, rp_created_at = now\<rparr>)))"

definition is_shortfall :: "repayment \<Rightarrow> bool" where
  "is_shortfall r = (case amount_cmp (rp_amount r) (rp_face r) of Inl e \<Rightarrow> False | Inr c \<Rightarrow> c < 0)"

definition shortfall :: "repayment \<Rightarrow> amount result" where
  "shortfall r =
    (if \<not> is_shortfall r then amount_zero (currency (rp_face r))
     else case amount_sub (rp_face r) (rp_amount r) of
            Inl e \<Rightarrow> amount_zero (currency (rp_face r)) | Inr missing \<Rightarrow> Inr missing)"

definition share_of :: "repayment \<Rightarrow> uuid \<Rightarrow> share option" where
  "share_of r party = find (\<lambda>s. sh_party s = party) (rp_shares r)"

definition holds_share :: "repayment \<Rightarrow> uuid \<Rightarrow> bool" where
  "holds_share r party \<longleftrightarrow> share_of r party \<noteq> None"

section \<open>One formula per holder\<close>

definition holder_ok :: "amount \<Rightarrow> holder \<Rightarrow> bool" where
  "holder_ok received h \<longleftrightarrow> h_party h \<noteq> uuid_nil \<and> amount_valid (h_notional h) \<and>
     amount_positive (h_notional h) \<and> currency (h_notional h) = currency received"

definition holders_total :: "holder list \<Rightarrow> int" where
  "holders_total hs = sum_list (map (\<lambda>h. minor (h_notional h)) hs)"

lemma check_holder_step:
  "check_holder r h (vs, seen, tot) =
    (if holder_ok r h \<and> h_party h \<notin> seen
     then (vs, insert (h_party h) seen, tot + minor (h_notional h))
     else (vs @ [Invalid ''holders''], seen, tot))"
  by (simp add: check_holder_def holder_ok_def)

lemma check_holders_violations:
  "fst (fold (check_holder r) hs (vs, seen, tot)) = [] \<longleftrightarrow>
    vs = [] \<and> (\<forall>h \<in> set hs. holder_ok r h \<and> h_party h \<notin> seen) \<and> distinct (map h_party hs)"
proof (induction hs arbitrary: vs seen tot)
  case Nil
  then show ?case by simp
next
  case (Cons h hs)
  show ?case
  proof (cases "holder_ok r h \<and> h_party h \<notin> seen")
    case True
    then have "fold (check_holder r) (h # hs) (vs, seen, tot) =
        fold (check_holder r) hs (vs, insert (h_party h) seen, tot + minor (h_notional h))"
      by (simp add: check_holder_step)
    with True Cons.IH [of vs "insert (h_party h) seen" "tot + minor (h_notional h)"]
    show ?thesis by (simp add: image_iff) (metis (no_types, lifting))
  next
    case False
    then have "fold (check_holder r) (h # hs) (vs, seen, tot) =
        fold (check_holder r) hs (vs @ [Invalid ''holders''], seen, tot)"
      by (auto simp: check_holder_step)
    with False Cons.IH [of "vs @ [Invalid ''holders'']" seen tot] show ?thesis by auto
  qed
qed

lemma check_holders_total:
  assumes "\<forall>h \<in> set hs. holder_ok r h \<and> h_party h \<notin> seen" and "distinct (map h_party hs)"
  shows "snd (snd (fold (check_holder r) hs (vs, seen, tot))) = tot + holders_total hs"
  using assms
proof (induction hs arbitrary: seen tot)
  case Nil
  then show ?case by (simp add: holders_total_def)
next
  case (Cons h hs)
  have "\<forall>g \<in> set hs. holder_ok r g \<and> h_party g \<notin> insert (h_party h) seen"
    using Cons.prems by (auto simp: image_iff)
  then have "snd (snd (fold (check_holder r) hs
      (vs, insert (h_party h) seen, tot + minor (h_notional h)))) =
      tot + minor (h_notional h) + holders_total hs"
    using Cons.IH Cons.prems(2) by simp
  then show ?case using Cons.prems by (simp add: check_holder_step holders_total_def)
qed

definition whole_part :: "int \<Rightarrow> int \<Rightarrow> holder \<Rightarrow> int" where
  "whole_part r tot h = r * minor (h_notional h) div tot"

definition rest_part :: "int \<Rightarrow> int \<Rightarrow> holder \<Rightarrow> int" where
  "rest_part r tot h = r * minor (h_notional h) mod tot"

definition holder_before :: "uuid_ops \<Rightarrow> int \<Rightarrow> int \<Rightarrow> holder \<Rightarrow> holder \<Rightarrow> bool" where
  "holder_before U r tot x y \<longleftrightarrow>
    (if - rest_part r tot x \<noteq> - rest_part r tot y
     then - rest_part r tot x < - rest_part r tot y
     else uuid_string U (h_party x) < uuid_string U (h_party y))"

interpretation holder_order: sort_order "holder_before U r tot" for U r tot
  unfolding holder_before_def by (rule sort_order_lex)

definition left_over :: "int \<Rightarrow> holder list \<Rightarrow> nat" where
  "left_over r hs = nat (r - sum_list (map (whole_part r (holders_total hs)) hs))"

definition favoured :: "uuid_ops \<Rightarrow> int \<Rightarrow> holder list \<Rightarrow> uuid set" where
  "favoured U r hs =
    h_party ` set (take (left_over r hs) (sort_by (holder_before U r (holders_total hs)) hs))"

definition fair_share :: "uuid_ops \<Rightarrow> amount \<Rightarrow> holder list \<Rightarrow> holder \<Rightarrow> share" where
  "fair_share U received hs h =
    \<lparr>sh_party = h_party h, sh_notional = h_notional h,
     sh_amount = \<lparr>minor = whole_part (minor received) (holders_total hs) h +
         (if h_party h \<in> favoured U (minor received) hs then 1 else 0),
       currency = currency received\<rparr>\<rparr>"

text \<open>What the loop over the holders accepts.\<close>

definition distribution_ok :: "amount \<Rightarrow> holder list \<Rightarrow> bool" where
  "distribution_ok received hs \<longleftrightarrow> amount_valid received \<and> amount_positive received \<and> hs \<noteq> [] \<and>
     (\<forall>h \<in> set hs. holder_ok received h) \<and> distinct (map h_party hs)"

lemma notional_pos: "distribution_ok received hs \<Longrightarrow> h \<in> set hs \<Longrightarrow> 0 < minor (h_notional h)"
  by (auto simp: distribution_ok_def holder_ok_def amount_positive_def)

lemma received_pos: "distribution_ok received hs \<Longrightarrow> 0 < minor received"
  by (simp add: distribution_ok_def amount_positive_def)

lemma holders_total_pos:
  assumes "distribution_ok received hs" shows "0 < holders_total hs"
proof -
  obtain h hs' where hs: "hs = h # hs'" using assms by (cases hs) (auto simp: distribution_ok_def)
  moreover have "0 \<le> holders_total hs'"
    unfolding holders_total_def using notional_pos [OF assms] hs by (intro sum_list_nonneg) fastforce
  ultimately show ?thesis using notional_pos [OF assms, of h] by (simp add: holders_total_def)
qed

lemma division: "r * minor (h_notional h) = whole_part r T h * T + rest_part r T h"
  by (simp add: whole_part_def rest_part_def)

lemma sum_division:
  "r * holders_total gs = sum_list (map (whole_part r T) gs) * T + sum_list (map (rest_part r T) gs)"
  by (induction gs) (simp_all add: holders_total_def division [where T = T] algebra_simps)

lemma sum_rest_less:
  "gs \<noteq> [] \<Longrightarrow> 0 < T \<Longrightarrow> sum_list (map (rest_part r T) gs) < int (length gs) * T"
proof (induction gs rule: list_nonempty_induct)
  case (single g)
  then show ?case by (simp add: rest_part_def)
next
  case (cons g gs)
  moreover have "rest_part r T g < T" using cons.prems by (simp add: rest_part_def)
  ultimately show ?case by (simp add: algebra_simps)
qed

text \<open>What is left over is less than one unit per holder.\<close>

lemma left_over_bounds:
  assumes "distribution_ok received hs"
  defines "w \<equiv> sum_list (map (whole_part (minor received) (holders_total hs)) hs)"
  shows "0 \<le> minor received - w" and "minor received - w < int (length hs)"
proof -
  let ?r = "minor received" and ?T = "holders_total hs"
  note T = holders_total_pos [OF assms(1)]
  have eq: "(?r - w) * ?T = sum_list (map (rest_part ?r ?T) hs)"
    using sum_division [of ?r hs ?T] by (simp add: w_def algebra_simps)
  have "0 \<le> sum_list (map (rest_part ?r ?T) hs)"
    by (intro sum_list_nonneg) (use T in \<open>auto simp: rest_part_def\<close>)
  then show "0 \<le> ?r - w" using eq T by (metis mult_neg_pos not_le)
  have "(?r - w) * ?T < int (length hs) * ?T"
    using eq sum_rest_less [OF _ T] assms(1) by (simp add: distribution_ok_def)
  then show "?r - w < int (length hs)" using T by simp
qed

lemma whole_part_bounds:
  assumes "distribution_ok received hs" and "h \<in> set hs"
  shows "0 \<le> whole_part (minor received) (holders_total hs) h"
    and "whole_part (minor received) (holders_total hs) h
      \<le> sum_list (map (whole_part (minor received) (holders_total hs)) hs)"
proof -
  have nonneg: "0 \<le> whole_part (minor received) (holders_total hs) g" if "g \<in> set hs" for g
    using notional_pos [OF assms(1) that] received_pos [OF assms(1)] holders_total_pos [OF assms(1)]
    by (simp add: whole_part_def pos_imp_zdiv_nonneg_iff less_imp_le)
  then show "0 \<le> whole_part (minor received) (holders_total hs) h" using assms(2) .
  show "whole_part (minor received) (holders_total hs) h
      \<le> sum_list (map (whole_part (minor received) (holders_total hs)) hs)"
    using assms(2) nonneg by (intro member_le_sum_list) auto
qed

lemma int_left_over:
  "distribution_ok received hs \<Longrightarrow> int (left_over (minor received) hs) =
    minor received - sum_list (map (whole_part (minor received) (holders_total hs)) hs)"
  using left_over_bounds(1) by (simp add: left_over_def)

lemma left_over_le: "distribution_ok received hs \<Longrightarrow> left_over (minor received) hs \<le> length hs"
  using left_over_bounds(2) [of received hs] by (simp add: left_over_def)

text \<open>The first loop computes the whole parts and the remainders.\<close>

definition base_share :: "amount \<Rightarrow> int \<Rightarrow> holder \<Rightarrow> share" where
  "base_share received T h = \<lparr>sh_party = h_party h, sh_notional = h_notional h,
     sh_amount = \<lparr>minor = whole_part (minor received) T h, currency = currency received\<rparr>\<rparr>"

lemma divide_holder_eq:
  assumes "distribution_ok received hs" and "in64 (minor received)" and "h \<in> set hs"
  defines "T \<equiv> holders_total hs"
  shows "divide_holder received T h =
    Inr (base_share received T h, rest_part (minor received) T h, whole_part (minor received) T h)"
proof -
  have t: "go_quot (minor received * minor (h_notional h)) T = whole_part (minor received) T h"
    using notional_pos [OF assms(1,3)] received_pos [OF assms(1)] holders_total_pos [OF assms(1)]
    by (simp add: go_quot_nonneg whole_part_def T_def)
  have "whole_part (minor received) T h \<le> minor received"
    using whole_part_bounds(2) [OF assms(1,3)] left_over_bounds(1) [OF assms(1)] by (simp add: T_def)
  then have "wrap64 (whole_part (minor received) T h) = whole_part (minor received) T h"
    using whole_part_bounds(1) [OF assms(1,3)] assms(2)
    by (intro wrap64_id) (simp add: in64_def min64_def T_def)
  then show ?thesis
    using assms(1) division [of "minor received" h T] unfolding divide_holder_def Let_def t
    by (simp add: amount_new_def base_share_def distribution_ok_def amount_valid_def)
qed

text \<open>The second loop adds one unit at each index of a list of different indices.\<close>

definition bumped :: "nat set \<Rightarrow> nat \<Rightarrow> share \<Rightarrow> share" where
  "bumped I i s = (if i \<in> I then s\<lparr>sh_amount := (sh_amount s)\<lparr>minor := minor (sh_amount s) + 1\<rparr>\<rparr> else s)"

lemma bump_share_eq:
  assumes "currency (sh_amount (shares ! i)) = currency received" "currency_valid (currency received)"
    and "0 \<le> minor (sh_amount (shares ! i))" "minor (sh_amount (shares ! i)) < max64"
  shows "bump_share received i shares = Inr (shares[i := bumped {i} i (shares ! i)])"
proof -
  let ?a = "sh_amount (shares ! i)"
  have "amount_add ?a \<lparr>minor = 1, currency = currency received\<rparr> = Inr (?a\<lparr>minor := minor ?a + 1\<rparr>)"
    using assms by (cases ?a)
      (simp add: amount_add_eq assert_same_currency_ok in64_def min64_def max64_def)
  then show ?thesis
    using assms(2) by (simp add: bump_share_def must_new_def amount_new_def bumped_def)
qed

lemma bump_shares_eq:
  assumes "distinct is" and "set is \<subseteq> {..<length shares}" and "currency_valid (currency received)"
    and "\<forall>s \<in> set shares. currency (sh_amount s) = currency received \<and> 0 \<le> minor (sh_amount s)"
    and "\<forall>i \<in> set is. minor (sh_amount (shares ! i)) < max64"
  shows "fold_result (bump_share received) is shares =
    Inr (map (\<lambda>i. bumped (set is) i (shares ! i)) [0..<length shares])"
  using assms
proof (induction "is" arbitrary: shares)
  case Nil
  then show ?case by (simp add: bumped_def map_nth)
next
  case (Cons i js)
  let ?s = "shares[i := bumped {i} i (shares ! i)]"
  have i: "i < length shares" using Cons.prems(2) by simp
  then have "shares ! i \<in> set shares" by simp
  then have b: "bump_share received i shares = Inr ?s"
    using Cons.prems by (intro bump_share_eq) auto
  have "fold_result (bump_share received) js ?s =
      Inr (map (\<lambda>j. bumped (set js) j (?s ! j)) [0..<length ?s])"
  proof (rule Cons.IH)
    show "\<forall>s \<in> set ?s. currency (sh_amount s) = currency received \<and> 0 \<le> minor (sh_amount s)"
      using Cons.prems(4) \<open>shares ! i \<in> set shares\<close>
      by (auto simp: bumped_def dest!: set_update_subset_insert [THEN subsetD])
    show "\<forall>j \<in> set js. minor (sh_amount (?s ! j)) < max64"
      using Cons.prems(1,5) by (metis distinct.simps(2) list.set_intros(2) nth_list_update_neq)
  qed (use Cons.prems in auto)
  also have "map (\<lambda>j. bumped (set js) j (?s ! j)) [0..<length ?s] =
      map (\<lambda>j. bumped (set (i # js)) j (shares ! j)) [0..<length shares]"
    using Cons.prems(1) i by (auto simp: bumped_def nth_list_update)
  finally show ?case using b by simp
qed

text \<open>The whole computation is one formula per holder.\<close>

lemma holder_key_order:
  assumes "i < length hs" and "j < length hs"
  defines "T \<equiv> holders_total hs"
  shows "remainder_before U (map (rest_part r T) hs) (map (base_share received T) hs) i j =
    holder_before U r T (hs ! i) (hs ! j)"
  using assms by (simp add: remainder_before_def holder_before_def cmp_int_def base_share_def Let_def)

lemma nth_mem_prefix:
  assumes "distinct (map f xs)" and "distinct is" and "set is \<subseteq> {..<length xs}" and "i < length xs"
  shows "f (xs ! i) \<in> f ` set (map ((!) xs) is) \<longleftrightarrow> i \<in> set is"
proof
  assume "f (xs ! i) \<in> f ` set (map ((!) xs) is)"
  then obtain j where "j \<in> set is" "f (xs ! i) = f (xs ! j)" by auto
  moreover have "j < length xs" using calculation(1) assms(3) by auto
  ultimately show "i \<in> set is"
    using assms(1,4) by (metis length_map nth_eq_iff_index_eq nth_map)
qed auto

lemma holders_in_order:
  assumes "lt = remainder_before U (map (rest_part r (holders_total hs)) hs) (map (base_share amt (holders_total hs)) hs)"
  shows "map ((!) hs) (sort_by lt [0..<length hs]) = sort_by (holder_before U r (holders_total hs)) hs"
proof -
  have "sort_by lt [0..<length hs] = sort_by (\<lambda>i j. holder_before U r (holders_total hs) (hs ! i) (hs ! j))
      [0..<length hs]"
    unfolding assms by (rule sort_by_comparator_cong) (simp add: holder_key_order)
  then show ?thesis using map_sort_by [of "(!) hs" "holder_before U r (holders_total hs)" "[0..<length hs]"]
    by (simp add: map_nth)
qed

text \<open>A holder that is handed one of the units left over has room for it.\<close>

lemma favoured_part_small:
  assumes ok: "distribution_ok received hs" and fits: "in64 (minor received)" and h: "h \<in> set hs"
    and left: "left_over (minor received) hs > 0"
  shows "whole_part (minor received) (holders_total hs) h < max64"
proof -
  have "sum_list (map (whole_part (minor received) (holders_total hs)) hs) < minor received"
    using int_left_over [OF ok] left by simp
  then show ?thesis using whole_part_bounds(2) [OF ok h] fits by (fastforce simp: in64_def)
qed

lemma distribute_eq:
  assumes ok: "distribution_ok received hs" and fits: "in64 (minor received)"
  shows "distribute U received hs = Inr (map (fair_share U received hs) hs)"
proof -
  let ?r = "minor received" and ?T = "holders_total hs"
  let ?parts = "map (\<lambda>h. (base_share received ?T h, rest_part ?r ?T h, whole_part ?r ?T h)) hs"
  let ?shares = "map (base_share received ?T) hs"
  let ?lt = "remainder_before U (map (rest_part ?r ?T) hs) ?shares"
  let ?order = "sort_by ?lt [0..<length hs]"
  let ?first = "take (left_over ?r hs) ?order"
  define vst where "vst = fold (check_holder received) hs ([], {}, 0)"
  have valid: "\<forall>h \<in> set hs. holder_ok received h \<and> h_party h \<notin> {}" "distinct (map h_party hs)"
    and head: "amount_valid received" "amount_positive received" "hs \<noteq> []"
    using ok by (auto simp: distribution_ok_def)
  have vst: "fst vst = []" "snd (snd vst) = ?T"
    using check_holders_violations [of received hs "[]" "{}" 0]
      check_holders_total [OF valid, of "[]" 0] valid by (auto simp: vst_def)
  have parts: "traverse (divide_holder received ?T) hs = Inr ?parts"
    by (auto simp: traverse_Inr_iff list_all2_map2 divide_holder_eq [OF ok fits]
        intro!: list.rel_refl_strong)
  have handed: "sum_list (map (snd \<circ> snd) ?parts) = sum_list (map (whole_part ?r ?T) hs)"
    by (simp add: comp_def)
  have "in64 (?r - sum_list (map (whole_part ?r ?T) hs))"
    using left_over_bounds [OF ok] whole_part_bounds [OF ok] fits head(3)
    by (cases hs) (fastforce simp: in64_def min64_def)+
  then have left: "wrap64 (?r - sum_list (map (whole_part ?r ?T) hs)) = int (left_over ?r hs)"
    using int_left_over [OF ok] by (simp add: wrap64_id)
  have sorted: "map ((!) hs) ?order = sort_by (holder_before U ?r ?T) hs" by (rule holders_in_order [OF refl])
  have first: "distinct ?first" "set ?first \<subseteq> {..<length hs}"
    using set_take_subset [of "left_over ?r hs" ?order] by (auto simp: distinct_take)
  have small: "whole_part ?r ?T (hs ! i) < max64" if "i \<in> set ?first" for i
  proof (rule favoured_part_small [OF ok fits])
    show "hs ! i \<in> set hs" using that first(2) by (auto simp: subset_iff)
    show "left_over ?r hs > 0" using that by (cases "left_over ?r hs") auto
  qed
  have bumps: "fold_result (bump_share received) ?first ?shares =
      Inr (map (\<lambda>i. bumped (set ?first) i (?shares ! i)) [0..<length ?shares])"
  proof (rule bump_shares_eq)
    show "currency_valid (currency received)" using head by (simp add: amount_valid_def)
    show "\<forall>s \<in> set ?shares. currency (sh_amount s) = currency received \<and> 0 \<le> minor (sh_amount s)"
      using whole_part_bounds(1) [OF ok] by (auto simp: base_share_def)
    show "\<forall>i \<in> set ?first. minor (sh_amount (?shares ! i)) < max64"
      using small first(2) by (auto simp: base_share_def subset_iff)
  qed (use first in auto)
  have each: "bumped (set ?first) i (?shares ! i) = fair_share U received hs (hs ! i)"
    if "i < length hs" for i
  proof -
    have "h_party (hs ! i) \<in> favoured U ?r hs \<longleftrightarrow> i \<in> set ?first"
      using nth_mem_prefix [OF valid(2) first that] sorted
      by (simp add: favoured_def take_map [symmetric])
    then show ?thesis using that by (simp add: bumped_def fair_share_def base_share_def)
  qed
  have "map (\<lambda>i. bumped (set ?first) i (?shares ! i)) [0..<length ?shares] =
      map (fair_share U received hs) hs"
  proof (rule nth_equalityI)
    fix i assume "i < length (map (\<lambda>i. bumped (set ?first) i (?shares ! i)) [0..<length ?shares])"
    then have i: "i < length hs" by simp
    from each [OF i] i show "map (\<lambda>i. bumped (set ?first) i (?shares ! i)) [0..<length ?shares] ! i =
        map (fair_share U received hs) hs ! i"
      by (simp only: nth_map_upt length_map nth_map) simp
  qed simp
  then show ?thesis
    using head vst left_over_le [OF ok] bumps
    unfolding distribute_def vst_def [symmetric] Let_def
    by (simp add: parts handed left case_prod_beta comp_def)
qed

lemma distribute_Inr_ok:
  assumes "distribute U received hs = Inr shares" shows "distribution_ok received hs"
proof -
  have "fst (fold (check_holder received) hs ([], {}, 0)) = []"
    using assms by (auto simp: distribute_def split: if_splits prod.splits)
  then have "(\<forall>h \<in> set hs. holder_ok received h) \<and> distinct (map h_party hs)"
    using check_holders_violations [of received hs "[]" "{}" 0] by auto
  then show ?thesis
    using assms by (auto simp: distribute_def distribution_ok_def split: if_splits)
qed

lemma favoured_count:
  assumes "distribution_ok received hs"
  shows "sum_list (map (\<lambda>h. if h_party h \<in> favoured U (minor received) hs then 1 else 0) hs) =
    int (left_over (minor received) hs)"
proof -
  let ?fav = "favoured U (minor received) hs"
  let ?sorted = "sort_by (holder_before U (minor received) (holders_total hs)) hs"
  have d: "distinct (map h_party hs)" using assms by (simp add: distribution_ok_def)
  have "mset (map h_party ?sorted) = mset (map h_party hs)" by simp
  then have "distinct (map h_party ?sorted)" using d by (metis mset_eq_imp_distinct_iff)
  then have "distinct (map h_party (take (left_over (minor received) hs) ?sorted))"
    by (simp add: distinct_take take_map [symmetric])
  then have card: "card ?fav = left_over (minor received) hs"
    using left_over_le [OF assms]
    by (metis favoured_def distinct_card image_set length_map length_sort_by length_take min.absorb2)
  have sub: "?fav \<subseteq> set (map h_party hs)"
    by (auto simp: favoured_def dest: in_set_takeD)
  have "sum_list (map (\<lambda>p. if p \<in> ?fav then 1 else 0) ps) = int (card (?fav \<inter> set ps))"
    if "distinct ps" for ps
    using that by (induction ps) auto
  from this [OF d] sub card show ?thesis by (simp add: comp_def Int_absorb2)
qed

lemma fair_shares_sum:
  assumes "distribution_ok received hs"
  shows "sum_list (map (\<lambda>s. minor (sh_amount s)) (map (fair_share U received hs) hs)) = minor received"
proof -
  have "sum_list (map (\<lambda>s. minor (sh_amount s)) (map (fair_share U received hs) hs)) =
      sum_list (map (whole_part (minor received) (holders_total hs)) hs) +
      sum_list (map (\<lambda>h. if h_party h \<in> favoured U (minor received) hs then 1 else 0) hs)"
    by (simp add: fair_share_def comp_def sum_list_addf)
  then show ?thesis using favoured_count [OF assms] int_left_over [OF assms] by simp
qed

text \<open>The parties that get the extra unit do not depend on the order of the holders.\<close>

lemma sum_list_mset_cong: "mset xs = mset ys \<Longrightarrow> sum_list (map f xs) = (sum_list (map f ys) :: int)"
  by (metis mset_map sum_mset_sum_list)

lemma favoured_cong:
  assumes "uuid_lib U" and "mset hs = mset gs" and "distinct (map h_party hs)"
  shows "holders_total hs = holders_total gs" and "favoured U r hs = favoured U r gs"
proof -
  show T: "holders_total hs = holders_total gs"
    unfolding holders_total_def by (rule sum_list_mset_cong [OF assms(2)])
  have l: "left_over r hs = left_over r gs"
    unfolding left_over_def T sum_list_mset_cong [OF assms(2)] ..
  have "sort_by (holder_before U r (holders_total gs)) hs = sort_by (holder_before U r (holders_total gs)) gs"
  proof (rule holder_order.sort_by_cong [OF assms(2)])
    fix x y assume "x \<in> set hs" "y \<in> set hs" "\<not> holder_before U r (holders_total gs) x y"
      "\<not> holder_before U r (holders_total gs) y x"
    then have "uuid_string U (h_party x) = uuid_string U (h_party y)"
      by (auto simp: holder_before_def split: if_splits)
    then have "h_party x = h_party y" by (simp add: uuid_lib.uuid_string_inj [OF assms(1)])
    then show "x = y" using assms(3) \<open>x \<in> set hs\<close> \<open>y \<in> set hs\<close>
      by (auto simp: distinct_map inj_on_def)
  qed
  then show "favoured U r hs = favoured U r gs" by (simp add: favoured_def T l)
qed

text \<open>A party that gets the extra unit had a remainder: its share is rounded up, never pushed past.\<close>

lemma favoured_rest_pos:
  assumes ok: "distribution_ok received hs" and h: "h \<in> set hs"
    and fav: "h_party h \<in> favoured U (minor received) hs"
  shows "0 < rest_part (minor received) (holders_total hs) h"
proof (rule ccontr)
  let ?r = "minor received" and ?T = "holders_total hs"
  let ?s = "sort_by (holder_before U ?r ?T) hs" and ?l = "left_over ?r hs"
  have T: "0 < ?T" by (rule holders_total_pos [OF ok])
  have nonneg: "0 \<le> rest_part ?r ?T g" "rest_part ?r ?T g \<le> ?T" for g
    using T by (simp_all add: rest_part_def less_imp_le)
  assume "\<not> 0 < rest_part ?r ?T h"
  then have zero: "rest_part ?r ?T h = 0" using nonneg(1) [of h] by simp
  have "h \<in> set (take ?l ?s)"
  proof -
    obtain g where g: "g \<in> set (take ?l ?s)" "h_party g = h_party h"
      using fav by (auto simp: favoured_def)
    then have "g \<in> set hs" by (auto dest: in_set_takeD)
    then have "g = h" using g(2) h ok by (auto simp: distribution_ok_def distinct_map inj_on_def)
    then show ?thesis using g(1) by simp
  qed
  then obtain k where k: "k < ?l" "k < length ?s" "?s ! k = h"
    by (auto simp: in_set_conv_nth)
  have later: "rest_part ?r ?T g = 0" if g: "g \<in> set (drop k ?s)" for g
  proof -
    obtain j where j: "j < length (drop k ?s)" "drop k ?s ! j = g"
      using g by (auto simp: in_set_conv_nth)
    show ?thesis
    proof (cases j)
      case 0
      then show ?thesis using j k zero by simp
    next
      case (Suc i)
      then have "\<not> holder_before U ?r ?T (?s ! (k + j)) (?s ! k)"
        using sorted_wrt_nth_less [OF holder_order.sorted_sort_by [of U ?r ?T hs], of k "k + j"] j(1)
        by simp
      then show ?thesis using j k zero nonneg(1) [of g]
        by (auto simp: holder_before_def split: if_splits)
    qed
  qed
  have "sum_list (map (rest_part ?r ?T) hs) = sum_list (map (rest_part ?r ?T) ?s)"
    by (rule sum_list_mset_cong) simp
  also have "\<dots> = sum_list (map (rest_part ?r ?T) (take k ?s @ drop k ?s))" by simp
  also have "\<dots> = sum_list (map (rest_part ?r ?T) (take k ?s)) + sum_list (map (rest_part ?r ?T) (drop k ?s))"
    by (simp only: map_append sum_list_append)
  also have "sum_list (map (rest_part ?r ?T) (drop k ?s)) = 0"
    using later by (simp add: sum_list_0 cong: map_cong)
  finally have prefix: "sum_list (map (rest_part ?r ?T) hs) = sum_list (map (rest_part ?r ?T) (take k ?s))"
    by simp
  have "sum_list (map (rest_part ?r ?T) xs) \<le> int (length xs) * ?T" for xs
  proof (induction xs)
    case (Cons x xs)
    then show ?case using nonneg(2) [of x] by (simp add: algebra_simps)
  qed simp
  from this [of "take k ?s"] prefix have "sum_list (map (rest_part ?r ?T) hs) \<le> int k * ?T"
    using k(2) by simp
  moreover have "int ?l * ?T = sum_list (map (rest_part ?r ?T) hs)"
    unfolding int_left_over [OF ok] using sum_division [of ?r hs ?T] by (simp add: algebra_simps)
  ultimately have "int ?l * ?T \<le> int k * ?T" by simp
  then show False using T k(1) by simp
qed

lemma share_near_proportion:
  assumes "in64 (minor received)" and "distribute U received hs = Inr shares"
    and "i < length hs"
  shows "\<bar>minor (sh_amount (shares ! i)) * holders_total hs - minor received * minor (h_notional (hs ! i))\<bar>
      < holders_total hs \<and> 0 \<le> minor (sh_amount (shares ! i)) \<and>
    sh_party (shares ! i) = h_party (hs ! i) \<and> currency (sh_amount (shares ! i)) = currency received"
proof -
  let ?r = "minor received" and ?T = "holders_total hs" and ?h = "hs ! i"
  note ok = distribute_Inr_ok [OF assms(2)]
  have s: "shares ! i = fair_share U received hs ?h"
    using assms(2,3) distribute_eq [OF ok assms(1), of U] by auto
  have h: "?h \<in> set hs" using assms(3) by simp
  have div: "?r * minor (h_notional ?h) = whole_part ?r ?T ?h * ?T + rest_part ?r ?T ?h"
    by (rule division)
  have rest: "0 \<le> rest_part ?r ?T ?h" "rest_part ?r ?T ?h < ?T"
    using holders_total_pos [OF ok] by (simp_all add: rest_part_def)
  have "\<bar>minor (sh_amount (fair_share U received hs ?h)) * ?T - ?r * minor (h_notional ?h)\<bar> < ?T"
  proof (cases "h_party ?h \<in> favoured U ?r hs")
    case True
    then show ?thesis using div rest favoured_rest_pos [OF ok h True]
      by (simp add: fair_share_def algebra_simps)
  next
    case False
    then show ?thesis using div rest by (simp add: fair_share_def)
  qed
  then show ?thesis using whole_part_bounds(1) [OF ok h] unfolding s by (simp add: fair_share_def)
qed


section \<open>Properties\<close>

definition sample_received :: amount where
  "sample_received = \<lparr>minor = 100, currency = ''USD''\<rparr>"

definition sample_holders :: "holder list" where
  "sample_holders =
    [\<lparr>h_party = 7, h_notional = \<lparr>minor = 10, currency = ''USD''\<rparr>\<rparr>,
     \<lparr>h_party = 5, h_notional = \<lparr>minor = 10, currency = ''USD''\<rparr>\<rparr>,
     \<lparr>h_party = 6, h_notional = \<lparr>minor = 10, currency = ''USD''\<rparr>\<rparr>]"

lemma sample_holders_ok: "distribution_ok sample_received sample_holders"
  by code_simp

lemma sample_received_fits: "in64 (minor sample_received)"
  by code_simp



text \<open>C4: every share differs from the exact proportion of the payment by less than one minor
  unit, is never negative, and belongs to the holder in the same position.\<close>
theorem distribute_proportional:
  assumes "in64 (minor received)" and "distribute U received hs = Inr shares"
    and "i < length hs"
  shows "\<bar>minor (sh_amount (shares ! i)) * holders_total hs - minor received * minor (h_notional (hs ! i))\<bar>
      < holders_total hs \<and> 0 \<le> minor (sh_amount (shares ! i)) \<and>
    sh_party (shares ! i) = h_party (hs ! i) \<and> currency (sh_amount (shares ! i)) = currency received"
  using assms by (rule share_near_proportion)

lemma sample_shares:
  "distribute rfc_uuid sample_received sample_holders =
    Inr (map (fair_share rfc_uuid sample_received sample_holders) sample_holders)"
  by (rule distribute_eq [OF sample_holders_ok sample_received_fits])

theorem distribute_proportional_witness:
  "\<bar>minor (sh_amount (fair_share rfc_uuid sample_received sample_holders (sample_holders ! 1))) * 30 - 100 * 10\<bar> < 30"
  using distribute_proportional [OF sample_received_fits sample_shares, of 1]
  by (simp add: sample_holders_def sample_received_def holders_total_def)

text \<open>the division does not depend on the order in which the caller lists the holders.\<close>
theorem distribute_order_independent:
  assumes "uuid_lib U" and "in64 (minor received)" and "mset hs = mset gs"
    and "distribute U received hs = Inr shares"
  shows "\<exists>shares'. distribute U received gs = Inr shares' \<and> mset shares' = mset shares"
proof -
  note ok = distribute_Inr_ok [OF assms(4)]
  have "distinct (map h_party gs) = distinct (map h_party hs)"
    using assms(3) by (metis mset_eq_imp_distinct_iff mset_map)
  then have ok': "distribution_ok received gs"
    using ok assms(3) by (metis distribution_ok_def mset_eq_setD mset_zero_iff)
  have "fair_share U received gs = fair_share U received hs"
    using favoured_cong [OF assms(1,3)] ok by (auto simp: fair_share_def distribution_ok_def)
  then show ?thesis
    using distribute_eq [OF ok assms(2), of U] distribute_eq [OF ok' assms(2), of U] assms(3,4) by simp
qed

theorem distribute_order_independent_witness:
  "\<exists>shares'. distribute rfc_uuid sample_received (rev sample_holders) = Inr shares' \<and>
    mset shares' = mset (map (fair_share rfc_uuid sample_received sample_holders) sample_holders)"
  using distribute_order_independent
    [OF rfc.uuid_lib_axioms sample_received_fits _ sample_shares, of "rev sample_holders"] by simp

definition sample_repayment_params :: repayment_params where
  "sample_repayment_params = \<lparr>nrp_id = 1, nrp_invoice_id = 2,
     nrp_face = \<lparr>minor = 120, currency = ''USD''\<rparr>, nrp_amount = sample_received,
     nrp_reference = ''wire-7'', nrp_received_at = 5, nrp_recorded_by = 3,
     nrp_holders = sample_holders\<rparr>"

text \<open>a repayment that was recorded never exceeds what was owed, its shares add up to what
  arrived, and what arrived plus the shortfall is what was owed.\<close>
theorem repayment_adds_up:
  assumes "new_repayment U p now = Inr r" and "in64 (minor (nrp_amount p))" "in64 (minor (nrp_face p))"
  shows "sum_list (map (\<lambda>s. minor (sh_amount s)) (rp_shares r)) = minor (rp_amount r) \<and>
    minor (rp_amount r) \<le> minor (rp_face r) \<and>
    (\<exists>missing. shortfall r = Inr missing \<and> minor (rp_amount r) + minor missing = minor (rp_face r))"
proof -
  from assms(1) obtain shares where d: "distribute U (nrp_amount p) (nrp_holders p) = Inr shares"
    and r: "rp_shares r = shares" "rp_amount r = nrp_amount p" "rp_face r = nrp_face p"
    and face: "amount_valid (nrp_face p)" "amount_positive (nrp_face p)" "amount_positive (nrp_amount p)"
    and cur: "currency (nrp_amount p) = currency (nrp_face p)"
    and le: "minor (nrp_amount p) \<le> minor (nrp_face p)"
    by (auto simp: new_repayment_def Let_def result_simps amount_cmp_def assert_same_currency_def
        amount_valid_def split: if_splits)
  note ok = distribute_Inr_ok [OF d]
  have "sum_list (map (\<lambda>s. minor (sh_amount s)) shares) = minor (nrp_amount p)"
    using fair_shares_sum [OF ok, of U] d distribute_eq [OF ok assms(2), of U] by auto
  moreover have "\<exists>missing. shortfall r = Inr missing \<and> minor (rp_amount r) + minor missing = minor (rp_face r)"
    using face cur le assms(2,3) unfolding r shortfall_def is_shortfall_def
    by (auto simp: amount_cmp_def assert_same_currency_def amount_valid_def amount_zero_def must_new_def
        amount_new_def amount_sub_eq in64_def amount_positive_def min64_def max64_def)
  ultimately show ?thesis using le by (simp add: r)
qed

theorem repayment_adds_up_witness:
  "\<exists>r. new_repayment rfc_uuid sample_repayment_params 9 = Inr r \<and>
    sum_list (map (\<lambda>s. minor (sh_amount s)) (rp_shares r)) = minor (rp_amount r)"
proof -
  have "trim_space ''wire-7'' = ''wire-7''" by code_simp
  then obtain r where r: "new_repayment rfc_uuid sample_repayment_params 9 = Inr r"
    using sample_shares
    by (simp add: new_repayment_def sample_repayment_params_def Let_def checked_def violation_def
        max_reference_len_def time_is_zero_def amount_cmp_def
        assert_same_currency_def amount_valid_def amount_positive_def sample_received_def currency_valid_cases)
  have "in64 (minor (nrp_amount sample_repayment_params))" "in64 (minor (nrp_face sample_repayment_params))"
    by code_simp+
  then show ?thesis using repayment_adds_up [OF r] r by blast
qed

end
