(* ===== verification/Settlement.thy ===== *)
theory Settlement
  imports Money Lifecycle
begin

text \<open>
  \<^verbatim>\<open>internal/settlement\<close> (\<^verbatim>\<open>domain.go\<close>): the saga that moves one allocation
  from its issuer to its investor. States become constructors, an empty transaction id is the
  empty string as in the code, \<^verbatim>\<open>Attempts\<close> and \<^verbatim>\<open>Version\<close> are counters that
  are never bounded. \<open>Fail\<close> is the one command that does not consult the table, so the edges of
  the saga are the table and the step to FAILED from every state but ACCOUNTED.
\<close>

section \<open>States\<close>

definition max_error_len :: nat where "max_error_len = 512"

datatype stl_state = StlPrepared | StlSubmitted | StlConsensusConfirmed | StlMirrorConfirmed
  | StlAccounted | StlFailed

fun stl_transitions :: "stl_state \<Rightarrow> stl_state list" where
  "stl_transitions StlPrepared = [StlSubmitted, StlFailed]"
| "stl_transitions StlSubmitted = [StlConsensusConfirmed, StlFailed]"
| "stl_transitions StlConsensusConfirmed = [StlMirrorConfirmed, StlFailed]"
| "stl_transitions StlMirrorConfirmed = [StlAccounted, StlFailed]"
| "stl_transitions StlAccounted = []"
| "stl_transitions StlFailed =
    [StlSubmitted, StlConsensusConfirmed, StlMirrorConfirmed, StlAccounted]"

definition stl_state_names :: "(stl_state \<times> string) list" where
  "stl_state_names =
    [(StlPrepared, ''PREPARED''), (StlSubmitted, ''SUBMITTED''),
     (StlConsensusConfirmed, ''CONSENSUS_CONFIRMED''), (StlMirrorConfirmed, ''MIRROR_CONFIRMED''),
     (StlAccounted, ''ACCOUNTED''), (StlFailed, ''FAILED'')]"

definition stl_state_string :: "stl_state \<Rightarrow> string" where
  "stl_state_string s = the (map_of stl_state_names s)"

definition stl_parse_state :: "string \<Rightarrow> stl_state result" where
  "stl_parse_state s =
    (case find (\<lambda>(st, n). n = s) stl_state_names of
       None \<Rightarrow> Inl (Invalid ''state'')
     | Some (st, n) \<Rightarrow> Inr st)"

lemma stl_parse_state_string: "stl_parse_state (stl_state_string s) = Inr s"
  by (cases s) (simp_all add: stl_parse_state_def stl_state_string_def stl_state_names_def)

definition stl_state_finished :: "stl_state \<Rightarrow> bool" where
  "stl_state_finished s \<longleftrightarrow> s = StlAccounted"

definition stl_can_transition :: "stl_state \<Rightarrow> stl_state \<Rightarrow> bool" where
  "stl_can_transition s next \<longleftrightarrow> next \<in> set (stl_transitions s)"

section \<open>The saga\<close>

record settlement =
  stl_id :: uuid
  stl_auction_id :: uuid
  stl_lot_id :: uuid
  stl_bid_id :: uuid
  stl_invoice_id :: uuid
  stl_asset_id :: uuid
  stl_investor_id :: uuid
  stl_from_wallet :: string
  stl_to_wallet :: string
  stl_notional :: amount
  stl_price :: amount
  stl_operation_id :: string
  stl_tx_id :: string
  stl_state :: stl_state
  stl_attempts :: int
  stl_last_error :: string
  stl_version :: int
  stl_created_at :: instant
  stl_updated_at :: instant

record settlement_params =
  nsp_id :: uuid
  nsp_auction_id :: uuid
  nsp_lot_id :: uuid
  nsp_bid_id :: uuid
  nsp_invoice_id :: uuid
  nsp_asset_id :: uuid
  nsp_investor_id :: uuid
  nsp_from_wallet :: string
  nsp_to_wallet :: string
  nsp_notional :: amount
  nsp_price :: amount

definition operation_preimage :: "uuid_ops \<Rightarrow> 'd decimal_ops \<Rightarrow> settlement \<Rightarrow> string result" where
  "operation_preimage U D s =
    and_then (amount_string D (stl_notional s)) (\<lambda>notional.
      Inr (join_strings ''|''
        [''factorflow.settlement.v1'', uuid_string U (stl_auction_id s), uuid_string U (stl_lot_id s),
         uuid_string U (stl_bid_id s), uuid_string U (stl_asset_id s), stl_from_wallet s,
         stl_to_wallet s, notional, currency (stl_notional s)]))"

definition operation_id ::
  "(string \<Rightarrow> string) \<Rightarrow> uuid_ops \<Rightarrow> 'd decimal_ops \<Rightarrow> settlement \<Rightarrow> string result" where
  "operation_id H U D s =
    and_then (operation_preimage U D s) (\<lambda>pre. Inr (''0x'' @ hex_encode (H pre)))"

definition new_settlement ::
  "(string \<Rightarrow> string) \<Rightarrow> uuid_ops \<Rightarrow> 'd decimal_ops \<Rightarrow> settlement_params \<Rightarrow> instant \<Rightarrow> settlement result" where
  "new_settlement H U D p now =
    (let from = to_lower (trim_space (nsp_from_wallet p));
         till = to_lower (trim_space (nsp_to_wallet p));
         s = \<lparr>stl_id = nsp_id p, stl_auction_id = nsp_auction_id p, stl_lot_id = nsp_lot_id p,
              stl_bid_id = nsp_bid_id p, stl_invoice_id = nsp_invoice_id p,
              stl_asset_id = nsp_asset_id p, stl_investor_id = nsp_investor_id p,
              stl_from_wallet = from, stl_to_wallet = till, stl_notional = nsp_notional p,
              stl_price = nsp_price p, stl_operation_id = [], stl_tx_id = [],
              stl_state = StlPrepared, stl_attempts = 0, stl_last_error = [], stl_version = 1,
              stl_created_at = now, stl_updated_at = now\<rparr>
     in checked
          (violation (nsp_id p = uuid_nil) (Invalid ''id'')
           @ violation (nsp_auction_id p = uuid_nil) (Invalid ''auction_id'')
           @ violation (nsp_lot_id p = uuid_nil) (Invalid ''lot_id'')
           @ violation (nsp_bid_id p = uuid_nil) (Invalid ''bid_id'')
           @ violation (nsp_invoice_id p = uuid_nil) (Invalid ''invoice_id'')
           @ violation (nsp_asset_id p = uuid_nil) (Invalid ''asset_id'')
           @ violation (nsp_investor_id p = uuid_nil) (Invalid ''investor_id'')
           @ (if from = [] then [Invalid ''from_wallet'']
              else if till = [] then [Invalid ''to_wallet'']
              else if from = till then [Invalid ''to_wallet''] else [])
           @ violation (\<not> amount_valid (nsp_notional p) \<or> \<not> amount_positive (nsp_notional p))
               (Invalid ''notional'')
           @ violation (\<not> amount_valid (nsp_price p) \<or> \<not> amount_positive (nsp_price p))
               (Invalid ''price'')
           @ violation (amount_valid (nsp_notional p) \<and> amount_valid (nsp_price p) \<and>
                 currency (nsp_notional p) \<noteq> currency (nsp_price p)) (Invalid ''price''))
          (and_then (operation_id H U D s) (\<lambda>oid. Inr (s\<lparr>stl_operation_id := oid\<rparr>))))"

definition stl_is_submitted :: "settlement \<Rightarrow> bool" where
  "stl_is_submitted s \<longleftrightarrow> stl_tx_id s \<noteq> []"

definition stl_is_finished :: "settlement \<Rightarrow> bool" where
  "stl_is_finished s \<longleftrightarrow> stl_state_finished (stl_state s)"

definition stl_touch :: "instant \<Rightarrow> settlement \<Rightarrow> settlement" where
  "stl_touch now s = s\<lparr>stl_version := stl_version s + 1, stl_updated_at := now\<rparr>"

definition stl_transition :: "stl_state \<Rightarrow> instant \<Rightarrow> settlement \<Rightarrow> settlement result" where
  "stl_transition next now s =
    (if \<not> stl_can_transition (stl_state s) next then Inl ErrConflict
     else if stl_state s = StlFailed \<and> next \<noteq> StlSubmitted \<and> \<not> stl_is_submitted s
       then Inl ErrConflict
     else Inr (stl_touch now (s\<lparr>stl_state := next\<rparr>)))"

definition stl_submit :: "string \<Rightarrow> instant \<Rightarrow> settlement \<Rightarrow> settlement result" where
  "stl_submit tx now s =
    (if trim_space tx = [] then Inl (Invalid ''tx_id'')
     else and_then (stl_transition StlSubmitted now s) (\<lambda>s'.
       Inr (s'\<lparr>stl_tx_id := trim_space tx, stl_attempts := stl_attempts s' + 1,
              stl_last_error := []\<rparr>)))"

definition stl_confirm_consensus :: "instant \<Rightarrow> settlement \<Rightarrow> settlement result" where
  "stl_confirm_consensus now s = stl_transition StlConsensusConfirmed now s"

definition stl_confirm_mirror :: "instant \<Rightarrow> settlement \<Rightarrow> settlement result" where
  "stl_confirm_mirror now s = stl_transition StlMirrorConfirmed now s"

definition stl_account :: "instant \<Rightarrow> settlement \<Rightarrow> settlement result" where
  "stl_account now s = stl_transition StlAccounted now s"

definition stl_fail :: "string \<Rightarrow> instant \<Rightarrow> settlement \<Rightarrow> settlement result" where
  "stl_fail cause now s =
    (let cleaned = trim_space cause
     in if cleaned = [] then Inl (Invalid ''cause'')
        else let kept = (if length cleaned > max_error_len then take max_error_len cleaned else cleaned)
             in if stl_state s = StlAccounted then Inl ErrConflict
                else Inr (stl_touch now (s\<lparr>stl_state := StlFailed, stl_last_error := kept\<rparr>)))"

datatype stl_command = StlSubmit string instant | StlConfirmConsensus instant
  | StlConfirmMirror instant | StlAccount instant | StlFail string instant

fun stl_exec :: "stl_command \<Rightarrow> settlement \<Rightarrow> settlement result" where
  "stl_exec (StlSubmit tx now) = stl_submit tx now"
| "stl_exec (StlConfirmConsensus now) = stl_confirm_consensus now"
| "stl_exec (StlConfirmMirror now) = stl_confirm_mirror now"
| "stl_exec (StlAccount now) = stl_account now"
| "stl_exec (StlFail cause now) = stl_fail cause now"

lemmas stl_command_defs = stl_submit_def stl_confirm_consensus_def stl_confirm_mirror_def
  stl_account_def stl_fail_def stl_touch_def Let_def

lemma stl_transition_Inr [result_simps]:
  "stl_transition next now s = Inr t \<longleftrightarrow> stl_can_transition (stl_state s) next \<and>
     (stl_state s = StlFailed \<and> next \<noteq> StlSubmitted \<longrightarrow> stl_is_submitted s) \<and>
     t = stl_touch now (s\<lparr>stl_state := next\<rparr>)"
  by (auto simp: stl_transition_def)

definition stl_edge :: "stl_state \<Rightarrow> stl_state \<Rightarrow> bool" where
  "stl_edge s next \<longleftrightarrow> stl_can_transition s next \<or> (next = StlFailed \<and> s \<noteq> StlAccounted)"

lemma stl_exec_Inr:
  assumes "stl_exec c s = Inr t"
  shows "stl_edge (stl_state s) (stl_state t)" and "stl_version t = stl_version s + 1"
  using assms by (cases c; auto simp: stl_command_defs result_simps stl_edge_def split: if_splits)+

interpretation stl: lifecycle stl_edge stl_state stl_version stl_exec
  by unfold_locales (auto dest: stl_exec_Inr)

section \<open>What every reachable settlement satisfies\<close>

definition stl_plan where
  "stl_plan s = (stl_id s, stl_auction_id s, stl_lot_id s, stl_bid_id s, stl_invoice_id s,
     stl_asset_id s, stl_investor_id s, stl_from_wallet s, stl_to_wallet s, stl_notional s,
     stl_price s, stl_operation_id s, stl_created_at s)"

lemma stl_exec_plan: "stl_exec c s = Inr t \<Longrightarrow> stl_plan t = stl_plan s"
  by (cases c; auto simp: stl_command_defs result_simps stl_plan_def split: if_splits)

text \<open>A transaction id exists exactly when the transfer was pushed, and a plan nobody pushed is
  PREPARED or FAILED.\<close>

definition stl_sound :: "settlement \<Rightarrow> bool" where
  "stl_sound s \<longleftrightarrow> 0 \<le> stl_attempts s \<and> (stl_tx_id s = [] \<longleftrightarrow> stl_attempts s = 0) \<and>
     (stl_state s = StlPrepared \<longrightarrow> stl_tx_id s = []) \<and>
     (stl_state s \<notin> {StlPrepared, StlFailed} \<longrightarrow> stl_tx_id s \<noteq> []) \<and>
     (stl_state s = StlFailed \<longrightarrow> stl_last_error s \<noteq> []) \<and>
     length (stl_last_error s) \<le> max_error_len"

lemma stl_sound_step:
  assumes "stl_exec c s = Inr t" and "stl_sound s" shows "stl_sound t"
proof (cases c)
  case (StlSubmit tx now)
  then show ?thesis using assms
    by (auto simp: stl_command_defs result_simps stl_sound_def split: if_splits)
next
  case (StlFail cause now)
  then show ?thesis using assms
    by (auto simp: stl_command_defs stl_sound_def max_error_len_def split: if_splits)
qed (use assms in \<open>cases "stl_state s"; auto simp: stl_command_defs result_simps stl_sound_def
      stl_can_transition_def stl_is_submitted_def\<close>)+

lemma stl_tx_step: "stl_exec c s = Inr t \<Longrightarrow> stl_tx_id s \<noteq> [] \<Longrightarrow> stl_tx_id t \<noteq> []"
  by (cases c; auto simp: stl_command_defs result_simps split: if_splits)

lemma stl_not_prepared_step:
  "stl_exec c s = Inr t \<Longrightarrow> stl_state t \<noteq> StlPrepared"
  by (cases c; cases "stl_state s"; auto simp: stl_command_defs result_simps stl_can_transition_def
      split: if_splits)

lemma new_settlement_Inr:
  assumes "new_settlement H U D p now = Inr s"
  shows "stl_state s = StlPrepared" "stl_tx_id s = []" "stl_attempts s = 0" "stl_last_error s = []"
    "stl_version s = 1" "amount_valid (stl_notional s)" "amount_positive (stl_notional s)"
    "amount_valid (stl_price s)" "currency (stl_price s) = currency (stl_notional s)"
    "stl_from_wallet s \<noteq> stl_to_wallet s" "stl_from_wallet s \<noteq> []" "stl_to_wallet s \<noteq> []"
    "operation_id H U D s = Inr (stl_operation_id s)"
proof -
  show "operation_id H U D s = Inr (stl_operation_id s)"
    using assms unfolding new_settlement_def Let_def checked_Inr_iff and_then_Inr_iff
    by (clarsimp simp: operation_id_def operation_preimage_def)
qed (use assms in \<open>auto simp: new_settlement_def Let_def result_simps split: if_splits\<close>)

lemma new_settlement_sound: "new_settlement H U D p now = Inr s \<Longrightarrow> stl_sound s"
  by (simp add: stl_sound_def new_settlement_Inr)

section \<open>The operation id\<close>

lemma operation_preimage_inj:
  assumes U: "uuid_lib U" and D: "decimal_lib D val"
    and "bar_free (stl_from_wallet s)" "bar_free (stl_to_wallet s)" "amount_valid (stl_notional s)"
    and "bar_free (stl_from_wallet t)" "bar_free (stl_to_wallet t)" "amount_valid (stl_notional t)"
    and pre: "operation_preimage U D s = Inr w" "operation_preimage U D t = Inr w"
  shows "(stl_auction_id s, stl_lot_id s, stl_bid_id s, stl_asset_id s, stl_from_wallet s,
      stl_to_wallet s, stl_notional s) =
    (stl_auction_id t, stl_lot_id t, stl_bid_id t, stl_asset_id t, stl_from_wallet t,
      stl_to_wallet t, stl_notional t)"
proof -
  obtain m n where m: "amount_string D (stl_notional s) = Inr m" "bar_free m"
    and n: "amount_string D (stl_notional t) = Inr n" "bar_free n"
    using decimal_lib.amount_string_bar_free [OF D] assms(5,8) by metis
  let ?fields = "\<lambda>s m. [''factorflow.settlement.v1'', uuid_string U (stl_auction_id s),
      uuid_string U (stl_lot_id s), uuid_string U (stl_bid_id s), uuid_string U (stl_asset_id s),
      stl_from_wallet s, stl_to_wallet s, m, currency (stl_notional s)]"
  have "?fields s m = ?fields t n"
  proof (rule join_strings_inj)
    show "\<forall>x \<in> set (butlast (?fields s m)) \<union> set (butlast (?fields t n)). CHR ''|'' \<notin> set x"
      using assms(3,4,6,7) m(2) n(2) bar_free_uuid [OF U] by (simp add: bar_free_def)
    show "join_strings [CHR ''|''] (?fields s m) = join_strings [CHR ''|''] (?fields t n)"
      using pre m(1) n(1) by (simp add: operation_preimage_def)
  qed simp
  then have eq: "stl_auction_id s = stl_auction_id t" "stl_lot_id s = stl_lot_id t"
    "stl_bid_id s = stl_bid_id t" "stl_asset_id s = stl_asset_id t"
    "stl_from_wallet s = stl_from_wallet t" "stl_to_wallet s = stl_to_wallet t" "m = n"
    "currency (stl_notional s) = currency (stl_notional t)"
    by (simp_all add: uuid_lib.uuid_string_inj [OF U])
  then have "stl_notional s = stl_notional t"
    using decimal_lib.amount_string_inj [OF D assms(5)] m(1) n(1) by simp
  with eq show ?thesis by simp
qed

section \<open>Properties\<close>

definition sample_settlement_params :: "uuid \<Rightarrow> settlement_params" where
  "sample_settlement_params n = \<lparr>nsp_id = n, nsp_auction_id = 2, nsp_lot_id = 3, nsp_bid_id = 4,
     nsp_invoice_id = 5, nsp_asset_id = 6, nsp_investor_id = 7, nsp_from_wallet = ''0xaa'',
     nsp_to_wallet = ''0xbb'', nsp_notional = \<lparr>minor = 5000, currency = ''USD''\<rparr>,
     nsp_price = \<lparr>minor = 4800, currency = ''USD''\<rparr>\<rparr>"

definition sample_settlement :: "uuid \<Rightarrow> instant \<Rightarrow> settlement" where
  "sample_settlement n now = \<lparr>stl_id = n, stl_auction_id = 2, stl_lot_id = 3, stl_bid_id = 4,
     stl_invoice_id = 5, stl_asset_id = 6, stl_investor_id = 7, stl_from_wallet = ''0xaa'',
     stl_to_wallet = ''0xbb'', stl_notional = \<lparr>minor = 5000, currency = ''USD''\<rparr>,
     stl_price = \<lparr>minor = 4800, currency = ''USD''\<rparr>,
     stl_operation_id = ''0x'' @ hex_encode (join_strings ''|''
       [''factorflow.settlement.v1'', uuid_string rfc_uuid 2, uuid_string rfc_uuid 3,
        uuid_string rfc_uuid 4, uuid_string rfc_uuid 6, ''0xaa'', ''0xbb'', fixed_text 5000 2, ''USD'']),
     stl_tx_id = [], stl_state = StlPrepared, stl_attempts = 0, stl_last_error = [], stl_version = 1,
     stl_created_at = now, stl_updated_at = now\<rparr>"

lemma sample_settlement_new:
  assumes "n \<noteq> uuid_nil"
  shows "new_settlement id rfc_uuid rat_decimal (sample_settlement_params n) now =
    Inr (sample_settlement n now)"
proof -
  have "trim_space ''0xaa'' = ''0xaa''" "trim_space ''0xbb'' = ''0xbb''" by code_simp+
  then show ?thesis
    using assms ratd.amount_string_eq [of "\<lparr>minor = 5000, currency = ''USD''\<rparr>" 2]
    by (simp add: new_settlement_def sample_settlement_params_def sample_settlement_def Let_def
        checked_def violation_def amount_valid_def currency_valid_cases amount_positive_def
        operation_id_def operation_preimage_def currency_exponents_def to_lower_def lower_char_def)
qed

lemmas sample_settlement_1 = sample_settlement_new [of 1 9, simplified]
lemmas sample_settlement_8 = sample_settlement_new [of 8 20, simplified]

text \<open>whatever commands are applied to a new settlement, it is never PREPARED again once a
  command succeeded; a settlement past PREPARED that did not fail has a transaction id; the id is
  there exactly when the transfer was pushed at least once, and is never lost again; a FAILED one
  names its cause; and no command changes the plan, its operation id included.\<close>
theorem settlement_reachable_sound:
  assumes "new_settlement H U D p now = Inr s" and "reaches stl_exec s t"
  shows "stl_sound t \<and> stl_plan t = stl_plan s \<and> (stl_state t = StlPrepared \<longrightarrow> t = s) \<and>
    (\<forall>u. reaches stl_exec t u \<and> stl_tx_id t \<noteq> [] \<longrightarrow> stl_tx_id u \<noteq> [])"
proof (intro conjI allI impI)
  show "stl_sound t"
    using assms(2) new_settlement_sound [OF assms(1)] stl_sound_step by (rule reaches_invariant)
  show "stl_plan t = stl_plan s"
    by (rule reaches_invariant [OF assms(2), where P = "\<lambda>x. stl_plan x = stl_plan s"])
      (auto dest: stl_exec_plan)
  show "t = s" if "stl_state t = StlPrepared"
    using assms(2) that by (cases rule: reaches.cases) (auto dest: stl_not_prepared_step)
  show "stl_tx_id u \<noteq> []" if "reaches stl_exec t u \<and> stl_tx_id t \<noteq> []" for u
    using reaches_invariant [of stl_exec t u "\<lambda>x. stl_tx_id x \<noteq> []"] that stl_tx_step by blast
qed

theorem settlement_reachable_sound_witness:
  "\<exists>t. stl_exec (StlSubmit ''tx-1'' 10) (sample_settlement 1 9) = Inr t \<and> stl_sound t \<and>
    stl_plan t = stl_plan (sample_settlement 1 9)"
proof -
  have "trim_space ''tx-1'' = ''tx-1''" by code_simp
  then obtain t where t: "stl_exec (StlSubmit ''tx-1'' 10) (sample_settlement 1 9) = Inr t"
    by (simp add: sample_settlement_def stl_command_defs stl_transition_def stl_can_transition_def)
  then have "reaches stl_exec (sample_settlement 1 9) t" by (blast intro: reaches.intros)
  then show ?thesis using settlement_reachable_sound [OF sample_settlement_1] t by blast
qed

text \<open>two planned transfers with the same operation id are the same transfer - the same
  auction, lot, bid and asset, between the same wallets, of the same amount - unless the hash
  collides; provided the wallets do not contain the separator.\<close>
theorem operation_id_identifies_transfer:
  assumes "uuid_lib U" and "decimal_lib D val"
    and "new_settlement H U D p now = Inr s" and "new_settlement H U D q now' = Inr t"
    and "bar_free (stl_from_wallet s)" "bar_free (stl_to_wallet s)"
    and "bar_free (stl_from_wallet t)" "bar_free (stl_to_wallet t)"
    and "stl_operation_id s = stl_operation_id t"
  shows "(stl_auction_id s, stl_lot_id s, stl_bid_id s, stl_asset_id s, stl_from_wallet s,
        stl_to_wallet s, stl_notional s) =
      (stl_auction_id t, stl_lot_id t, stl_bid_id t, stl_asset_id t, stl_from_wallet t,
        stl_to_wallet t, stl_notional t) \<or>
    (\<exists>x y. x \<noteq> y \<and> H x = H y)"
proof -
  obtain x y where x: "operation_preimage U D s = Inr x" "''0x'' @ hex_encode (H x) = stl_operation_id s"
    and y: "operation_preimage U D t = Inr y" "''0x'' @ hex_encode (H y) = stl_operation_id t"
    using new_settlement_Inr(13) [OF assms(3)] new_settlement_Inr(13) [OF assms(4)]
    by (auto simp: operation_id_def result_simps)
  have "''0x'' @ hex_encode (H x) = ''0x'' @ hex_encode (H y)"
    using x(2) y(2) assms(9) by (simp only:)
  then have "H x = H y" by (simp add: hex_encode_inj)
  show ?thesis
  proof (cases "x = y")
    case True
    then show ?thesis
      using operation_preimage_inj [OF assms(1,2,5,6) new_settlement_Inr(6) [OF assms(3)] assms(7,8)
          new_settlement_Inr(6) [OF assms(4)] x(1)] y(1) by simp
  next
    case False
    then show ?thesis using \<open>H x = H y\<close> by blast
  qed
qed

theorem operation_id_identifies_transfer_witness:
  "stl_operation_id (sample_settlement 1 9) = stl_operation_id (sample_settlement 8 20) \<and>
    stl_lot_id (sample_settlement 1 9) = stl_lot_id (sample_settlement 8 20)"
proof -
  have w: "bar_free (stl_from_wallet (sample_settlement n now))"
    "bar_free (stl_to_wallet (sample_settlement n now))" for n now
    by (simp_all add: sample_settlement_def bar_free_def)
  have same: "stl_operation_id (sample_settlement 1 9) = stl_operation_id (sample_settlement 8 20)"
    by (simp add: sample_settlement_def)
  then show ?thesis
    using operation_id_identifies_transfer [OF rfc.uuid_lib_axioms ratd.decimal_lib_axioms
      sample_settlement_1 sample_settlement_8 w w same] by simp
qed

text \<open>
  A settlement that failed after its transaction was sent can be accounted for at once, with
  neither confirmation: resuming after a failure may skip steps it never reached.
\<close>

theorem failed_settlement_skips_confirmations:
  assumes "new_settlement H U D p now = Inr s" and "trim_space tx \<noteq> []"
    and "trim_space cause \<noteq> []"
  shows "\<exists>t. run_cmds stl_exec [StlSubmit tx a, StlFail cause b, StlAccount c] s = Inr t \<and>
    stl_state t = StlAccounted"
  using assms
  by (simp add: stl_command_defs stl_transition_def stl_can_transition_def new_settlement_Inr(1)
      stl_is_submitted_def)

end
