(* ===== verification/Auction.thy ===== *)
theory Auction
  imports Risk Lifecycle
begin

text \<open>
  \<^verbatim>\<open>internal/auction\<close> (\<^verbatim>\<open>domain.go\<close>, \<^verbatim>\<open>bid.go\<close>,
  \<^verbatim>\<open>status.go\<close>, \<^verbatim>\<open>commands.go\<close>): lots, constrained bids and the batch
  aggregate. Lots and batches carry amounts only; a bid carries rates, so its record takes the
  type of decimals. A Go map of grade limits is an association list in some iteration order.
\<close>

section \<open>Status\<close>

datatype auc_status = AucDraft | AucOpen | AucClearing | AucCleared | AucSettling | AucSettled
  | AucCancelled | AucFailed

fun auc_transitions :: "auc_status \<Rightarrow> auc_status list" where
  "auc_transitions AucDraft = [AucOpen, AucCancelled]"
| "auc_transitions AucOpen = [AucClearing, AucCancelled]"
| "auc_transitions AucClearing = [AucCleared, AucFailed]"
| "auc_transitions AucCleared = [AucSettling, AucCancelled]"
| "auc_transitions AucSettling = [AucSettled, AucFailed]"
| "auc_transitions AucFailed = [AucClearing, AucSettling, AucCancelled]"
| "auc_transitions AucSettled = []"
| "auc_transitions AucCancelled = []"

definition auc_status_names :: "(auc_status \<times> string) list" where
  "auc_status_names =
    [(AucDraft, ''DRAFT''), (AucOpen, ''OPEN''), (AucClearing, ''CLEARING''),
     (AucCleared, ''CLEARED''), (AucSettling, ''SETTLING''), (AucSettled, ''SETTLED''),
     (AucCancelled, ''CANCELLED''), (AucFailed, ''FAILED'')]"

definition auc_status_string :: "auc_status \<Rightarrow> string" where
  "auc_status_string s = the (map_of auc_status_names s)"

definition auc_parse_status :: "string \<Rightarrow> auc_status result" where
  "auc_parse_status s =
    (case find (\<lambda>(st, n). n = s) auc_status_names of
       None \<Rightarrow> Inl ErrValidation
     | Some (st, n) \<Rightarrow> Inr st)"

lemma auc_parse_status_string: "auc_parse_status (auc_status_string s) = Inr s"
  by (cases s) (simp_all add: auc_parse_status_def auc_status_string_def auc_status_names_def)

definition auc_terminal :: "auc_status \<Rightarrow> bool" where
  "auc_terminal s \<longleftrightarrow> auc_transitions s = []"

definition auc_can_transition :: "auc_status \<Rightarrow> auc_status \<Rightarrow> bool" where
  "auc_can_transition s next \<longleftrightarrow> next \<in> set (auc_transitions s)"

datatype bid_status = BidActive | BidCancelled | BidAllocated | BidRejected

fun bid_status_string :: "bid_status \<Rightarrow> string" where
  "bid_status_string BidActive = ''ACTIVE''"
| "bid_status_string BidCancelled = ''CANCELLED''"
| "bid_status_string BidAllocated = ''ALLOCATED''"
| "bid_status_string BidRejected = ''REJECTED''"

section \<open>Lots\<close>

definition day_count :: int where "day_count = 365"

record lot =
  lot_id :: uuid
  lot_invoice_id :: uuid
  lot_asset_id :: uuid
  lot_issuer_id :: uuid
  lot_debtor_ref :: string
  lot_supply :: amount
  lot_reserve_price :: amount
  lot_grade :: grade
  lot_tenor_days :: int

definition lot_validate :: "lot \<Rightarrow> unit result" where
  "lot_validate l =
    checked
      (violation (lot_id l = uuid_nil) (Invalid ''lot.id'')
       @ violation (lot_invoice_id l = uuid_nil) (Invalid ''lot.invoice_id'')
       @ violation (lot_asset_id l = uuid_nil) (Invalid ''lot.asset_id'')
       @ violation (lot_issuer_id l = uuid_nil) (Invalid ''lot.issuer_id'')
       @ violation (trim_space (lot_debtor_ref l) = []) (Invalid ''lot.debtor_ref'')
       @ violation (\<not> grade_valid (lot_grade l)) (Invalid ''lot.grade'')
       @ violation (lot_tenor_days l \<le> 0) (Invalid ''lot.tenor_days'')
       @ (if \<not> amount_valid (lot_supply l) then [Invalid ''lot.supply'']
          else if \<not> amount_positive (lot_supply l) then [Invalid ''lot.supply''] else [])
       @ (if \<not> amount_valid (lot_reserve_price l) then [Invalid ''lot.reserve_price'']
          else if \<not> amount_positive (lot_reserve_price l) then [Invalid ''lot.reserve_price'']
          else if amount_valid (lot_supply l) \<and> currency (lot_reserve_price l) \<noteq> currency (lot_supply l)
            then [Invalid ''lot.reserve_price''] else []))
      (case amount_cmp (lot_reserve_price l) (lot_supply l) of
         Inl e \<Rightarrow> Inr ()
       | Inr c \<Rightarrow> if c \<ge> 0 then Inl (Invalid ''lot.reserve_price'') else Inr ())"

definition lot_unit_price :: "'d decimal_ops \<Rightarrow> lot \<Rightarrow> 'd result" where
  "lot_unit_price D l = rate_against D (lot_reserve_price l) (lot_supply l)"

definition lot_implied_yield :: "'d decimal_ops \<Rightarrow> lot \<Rightarrow> 'd result" where
  "lot_implied_yield D l =
    and_then (amount_sub (lot_supply l) (lot_reserve_price l)) (\<lambda>discount.
    and_then (rate_against D discount (lot_reserve_price l)) (\<lambda>period_return.
    and_then (rate_from_fraction D day_count (lot_tenor_days l)) (\<lambda>annualization.
      Inr (rate_quantize D (d_mul D period_return annualization) rate_scale))))"

definition lot_cost_of :: "'d decimal_ops \<Rightarrow> lot \<Rightarrow> amount \<Rightarrow> amount result" where
  "lot_cost_of D l notional =
    and_then (lot_unit_price D l) (\<lambda>unit_price. amount_mul D notional unit_price)"

section \<open>Bids\<close>

datatype constraint = CCurrency | CGrade | CMaturity | CYield | CMinimumLot | CBudget | CSupply
  | CIssuerExposure | CDebtorExposure | CGradeExposure | CNoRemainingCapacity

fun constraint_string :: "constraint \<Rightarrow> string" where
  "constraint_string CCurrency = ''currency''"
| "constraint_string CGrade = ''grade''"
| "constraint_string CMaturity = ''maturity''"
| "constraint_string CYield = ''yield''"
| "constraint_string CMinimumLot = ''minimum_lot''"
| "constraint_string CBudget = ''budget''"
| "constraint_string CSupply = ''supply''"
| "constraint_string CIssuerExposure = ''issuer_exposure''"
| "constraint_string CDebtorExposure = ''debtor_exposure''"
| "constraint_string CGradeExposure = ''grade_exposure''"
| "constraint_string CNoRemainingCapacity = ''no_remaining_capacity''"

record 'd bid =
  bid_id :: uuid
  bid_auction_id :: uuid
  bid_investor_id :: uuid
  bid_budget :: amount
  bid_min_yield :: 'd
  bid_max_grade :: grade
  bid_max_tenor_days :: int
  bid_minimum_lot :: amount
  bid_max_issuer_share :: 'd
  bid_max_debtor_share :: 'd
  bid_max_grade_share :: "(grade \<times> 'd) list"
  bid_status :: bid_status
  bid_created_at :: instant
  bid_version :: int

record 'd bid_params =
  nbp_id :: uuid
  nbp_auction_id :: uuid
  nbp_investor_id :: uuid
  nbp_budget :: amount
  nbp_min_yield :: 'd
  nbp_max_grade :: grade
  nbp_max_tenor_days :: int
  nbp_minimum_lot :: amount
  nbp_max_issuer_share :: 'd
  nbp_max_debtor_share :: 'd
  nbp_max_grade_share :: "(grade \<times> 'd) list"

definition validate_share :: "'d decimal_ops \<Rightarrow> string \<Rightarrow> 'd \<Rightarrow> app_error list" where
  "validate_share D field share =
    (if d_is_zero D share then []
     else if d_is_negative D share \<or> d_lt D (one_rate D) share then [Invalid field] else [])"

definition new_bid :: "'d decimal_ops \<Rightarrow> 'd bid_params \<Rightarrow> instant \<Rightarrow> 'd bid result" where
  "new_bid D p now =
    checked
      (violation (nbp_id p = uuid_nil) (Invalid ''id'')
       @ violation (nbp_auction_id p = uuid_nil) (Invalid ''auction_id'')
       @ violation (nbp_investor_id p = uuid_nil) (Invalid ''investor_id'')
       @ (if \<not> amount_valid (nbp_budget p) then [Invalid ''budget'']
          else if \<not> amount_positive (nbp_budget p) then [Invalid ''budget''] else [])
       @ violation (d_is_negative D (nbp_min_yield p)) (Invalid ''min_yield'')
       @ violation (\<not> grade_valid (nbp_max_grade p)) (Invalid ''max_grade'')
       @ violation (nbp_max_tenor_days p \<le> 0) (Invalid ''max_tenor_days'')
       @ (if \<not> amount_valid (nbp_minimum_lot p) then [Invalid ''minimum_lot'']
          else if amount_negative (nbp_minimum_lot p) then [Invalid ''minimum_lot'']
          else if amount_valid (nbp_budget p) \<and> currency (nbp_minimum_lot p) \<noteq> currency (nbp_budget p)
            then [Invalid ''minimum_lot''] else [])
       @ validate_share D ''max_issuer_share'' (nbp_max_issuer_share p)
       @ validate_share D ''max_debtor_share'' (nbp_max_debtor_share p)
       @ concat (map (\<lambda>(g, share).
           if \<not> grade_valid g then [Invalid ''max_grade_share'']
           else validate_share D (''max_grade_share.'' @ g) share) (nbp_max_grade_share p)))
      (Inr \<lparr>bid_id = nbp_id p, bid_auction_id = nbp_auction_id p, bid_investor_id = nbp_investor_id p,
            bid_budget = nbp_budget p, bid_min_yield = nbp_min_yield p,
            bid_max_grade = nbp_max_grade p, bid_max_tenor_days = nbp_max_tenor_days p,
            bid_minimum_lot = nbp_minimum_lot p, bid_max_issuer_share = nbp_max_issuer_share p,
            bid_max_debtor_share = nbp_max_debtor_share p,
            bid_max_grade_share = nbp_max_grade_share p, bid_status = BidActive,
            bid_created_at = now, bid_version = 1\<rparr>)"

definition bid_cancel :: "'d bid \<Rightarrow> 'd bid result" where
  "bid_cancel b =
    (if bid_status b \<noteq> BidActive then Inl ErrConflict
     else Inr (b\<lparr>bid_status := BidCancelled, bid_version := bid_version b + 1\<rparr>))"

definition share_limit :: "'d decimal_ops \<Rightarrow> 'd bid \<Rightarrow> 'd \<Rightarrow> amount result" where
  "share_limit D b share =
    (if d_is_zero D share then Inr (bid_budget b) else amount_mul D (bid_budget b) share)"

definition issuer_limit :: "'d decimal_ops \<Rightarrow> 'd bid \<Rightarrow> amount result" where
  "issuer_limit D b = share_limit D b (bid_max_issuer_share b)"

definition debtor_limit :: "'d decimal_ops \<Rightarrow> 'd bid \<Rightarrow> amount result" where
  "debtor_limit D b = share_limit D b (bid_max_debtor_share b)"

definition grade_limit :: "'d decimal_ops \<Rightarrow> 'd bid \<Rightarrow> grade \<Rightarrow> amount result" where
  "grade_limit D b g =
    (case map_of (bid_max_grade_share b) g of
       None \<Rightarrow> Inr (bid_budget b) | Some share \<Rightarrow> share_limit D b share)"

text \<open>The first rule that stops the pair, or \<open>None\<close> when the bid may take the lot.\<close>

definition feasible :: "'d decimal_ops \<Rightarrow> 'd bid \<Rightarrow> lot \<Rightarrow> constraint option result" where
  "feasible D b l =
    (if currency (bid_budget b) \<noteq> currency (lot_supply l) then Inr (Some CCurrency)
     else and_then (grade_at_most (lot_grade l) (bid_max_grade b)) (\<lambda>at_most.
       if \<not> at_most then Inr (Some CGrade)
       else if lot_tenor_days l > bid_max_tenor_days b then Inr (Some CMaturity)
       else and_then (lot_implied_yield D l) (\<lambda>yield.
       if d_lt D yield (bid_min_yield b) then Inr (Some CYield)
       else if amount_positive (bid_minimum_lot b)
       then and_then (amount_cmp (bid_minimum_lot b) (lot_supply l)) (\<lambda>c.
         if c > 0 then Inr (Some CMinimumLot)
         else and_then (lot_cost_of D l (bid_minimum_lot b)) (\<lambda>cost.
              and_then (amount_cmp cost (bid_budget b)) (\<lambda>c'.
                if c' > 0 then Inr (Some CBudget) else Inr None)))
       else Inr None)))"

section \<open>The batch\<close>

record auction =
  auc_id :: uuid
  auc_issuer_id :: uuid
  auc_lots :: "lot list"
  auc_opens_at :: instant
  auc_closes_at :: instant
  auc_status :: auc_status
  auc_solver_version :: string
  auc_certificate_hash :: string
  auc_reason :: string
  auc_version :: int
  auc_created_at :: instant
  auc_updated_at :: instant

record auction_params =
  nap_id :: uuid
  nap_issuer_id :: uuid
  nap_lots :: "lot list"
  nap_opens_at :: instant
  nap_closes_at :: instant

text \<open>The listing of a receivable that was never listed has no status: \<open>None\<close>.\<close>

record listing =
  lst_auction_id :: uuid
  lst_lot_id :: uuid
  lst_status :: "auc_status option"

definition listing_disclosed :: "listing \<Rightarrow> bool" where
  "listing_disclosed l \<longleftrightarrow> (case lst_status l of None \<Rightarrow> False | Some s \<Rightarrow> s \<noteq> AucDraft)"

text \<open>One turn of the loop over the lots: index, violations, assets seen, currency of lot 0.\<close>

definition check_lot ::
  "lot \<Rightarrow> nat \<times> app_error list \<times> uuid set \<times> currency_code \<Rightarrow>
    nat \<times> app_error list \<times> uuid set \<times> currency_code" where
  "check_lot l acc = (case acc of (i, vs, seen, cur) \<Rightarrow>
     case lot_validate l of
       Inl e \<Rightarrow> (i + 1, vs @ [e], seen, cur)
     | Inr u \<Rightarrow>
         (i + 1,
          vs @ violation (lot_asset_id l \<in> seen) (Invalid ''lots'')
             @ violation (i \<noteq> 0 \<and> currency (lot_supply l) \<noteq> cur) (Invalid ''lots''),
          insert (lot_asset_id l) seen,
          if i = 0 then currency (lot_supply l) else cur))"

definition new_auction :: "auction_params \<Rightarrow> instant \<Rightarrow> auction result" where
  "new_auction p now =
    checked
      (violation (nap_id p = uuid_nil) (Invalid ''id'')
       @ violation (nap_issuer_id p = uuid_nil) (Invalid ''issuer_id'')
       @ violation (nap_lots p = []) (Invalid ''lots'')
       @ violation (\<not> nap_opens_at p < nap_closes_at p) (Invalid ''closes_at'')
       @ fst (snd (fold check_lot (nap_lots p) (0, [], {}, []))))
      (Inr \<lparr>auc_id = nap_id p, auc_issuer_id = nap_issuer_id p, auc_lots = nap_lots p,
            auc_opens_at = nap_opens_at p, auc_closes_at = nap_closes_at p, auc_status = AucDraft,
            auc_solver_version = [], auc_certificate_hash = [], auc_reason = [], auc_version = 1,
            auc_created_at = now, auc_updated_at = now\<rparr>)"

definition auc_currency :: "auction \<Rightarrow> currency_code result" where
  "auc_currency a = (case auc_lots a of [] \<Rightarrow> Inl Panic | l # ls \<Rightarrow> Inr (currency (lot_supply l)))"

definition auc_total_supply :: "auction \<Rightarrow> amount result" where
  "auc_total_supply a = amount_sum (map lot_supply (auc_lots a))"

definition auc_lot :: "auction \<Rightarrow> uuid \<Rightarrow> lot option" where
  "auc_lot a i = find (\<lambda>l. lot_id l = i) (auc_lots a)"

definition auc_accepting_bids :: "auction \<Rightarrow> instant \<Rightarrow> bool" where
  "auc_accepting_bids a now \<longleftrightarrow>
     auc_status a = AucOpen \<and> \<not> now < auc_opens_at a \<and> now < auc_closes_at a"

section \<open>Commands\<close>

definition auc_transition :: "auc_status \<Rightarrow> instant \<Rightarrow> auction \<Rightarrow> auction result" where
  "auc_transition next now a =
    (if \<not> auc_can_transition (auc_status a) next then Inl ErrConflict
     else Inr (a\<lparr>auc_status := next, auc_version := auc_version a + 1, auc_updated_at := now\<rparr>))"

definition auc_fail :: "string \<Rightarrow> instant \<Rightarrow> auction \<Rightarrow> auction result" where
  "auc_fail reason now a =
    and_then (clean_reason reason) (\<lambda>cleaned.
    and_then (auc_transition AucFailed now a) (\<lambda>a'. Inr (a'\<lparr>auc_reason := cleaned\<rparr>)))"

definition auc_open :: "instant \<Rightarrow> auction \<Rightarrow> auction result" where
  "auc_open now a =
    (if now < auc_opens_at a then Inl ErrConflict
     else if \<not> now < auc_closes_at a then Inl ErrConflict
     else auc_transition AucOpen now a)"

definition start_clearing :: "instant \<Rightarrow> auction \<Rightarrow> auction result" where
  "start_clearing now a =
    (if auc_status a = AucOpen \<and> now < auc_closes_at a then Inl ErrConflict
     else and_then (auc_transition AucClearing now a) (\<lambda>a'. Inr (a'\<lparr>auc_reason := []\<rparr>)))"

definition mark_cleared :: "string \<Rightarrow> string \<Rightarrow> instant \<Rightarrow> auction \<Rightarrow> auction result" where
  "mark_cleared solver_version certificate_hash now a =
    (let version = trim_space solver_version
     in if version = [] then Inl (Invalid ''solver_version'')
        else if \<not> commitment_hex (to_lower certificate_hash) then Inl (Invalid ''certificate_hash'')
        else and_then (auc_transition AucCleared now a) (\<lambda>a'.
          Inr (a'\<lparr>auc_solver_version := version, auc_certificate_hash := to_lower certificate_hash\<rparr>)))"

definition fail_clearing :: "string \<Rightarrow> instant \<Rightarrow> auction \<Rightarrow> auction result" where
  "fail_clearing reason now a = auc_fail reason now a"

definition start_settling :: "instant \<Rightarrow> auction \<Rightarrow> auction result" where
  "start_settling now a =
    (if auc_certificate_hash a = [] then Inl ErrConflict
     else and_then (auc_transition AucSettling now a) (\<lambda>a'. Inr (a'\<lparr>auc_reason := []\<rparr>)))"

definition auc_mark_settled :: "instant \<Rightarrow> auction \<Rightarrow> auction result" where
  "auc_mark_settled now a = auc_transition AucSettled now a"

definition auc_fail_settlement :: "string \<Rightarrow> instant \<Rightarrow> auction \<Rightarrow> auction result" where
  "auc_fail_settlement reason now a = auc_fail reason now a"

definition auc_cancel :: "string \<Rightarrow> instant \<Rightarrow> auction \<Rightarrow> auction result" where
  "auc_cancel reason now a =
    and_then (clean_reason reason) (\<lambda>cleaned.
    and_then (auc_transition AucCancelled now a) (\<lambda>a'. Inr (a'\<lparr>auc_reason := cleaned\<rparr>)))"

definition retry_clearing :: "instant \<Rightarrow> auction \<Rightarrow> auction result" where
  "retry_clearing now a =
    (if auc_status a \<noteq> AucFailed then Inl ErrConflict
     else if auc_certificate_hash a \<noteq> [] then Inl ErrConflict
     else and_then (auc_transition AucClearing now a) (\<lambda>a'. Inr (a'\<lparr>auc_reason := []\<rparr>)))"

definition retry_settlement :: "instant \<Rightarrow> auction \<Rightarrow> auction result" where
  "retry_settlement now a =
    (if auc_status a \<noteq> AucFailed then Inl ErrConflict
     else if auc_certificate_hash a = [] then Inl ErrConflict
     else and_then (auc_transition AucSettling now a) (\<lambda>a'. Inr (a'\<lparr>auc_reason := []\<rparr>)))"

datatype auc_command = AucCmdOpen instant | AucCmdStartClearing instant
  | AucCmdMarkCleared string string instant | AucCmdFailClearing string instant
  | AucCmdStartSettling instant | AucCmdMarkSettled instant | AucCmdFailSettlement string instant
  | AucCmdCancel string instant | AucCmdRetryClearing instant | AucCmdRetrySettlement instant

fun auc_exec :: "auc_command \<Rightarrow> auction \<Rightarrow> auction result" where
  "auc_exec (AucCmdOpen now) = auc_open now"
| "auc_exec (AucCmdStartClearing now) = start_clearing now"
| "auc_exec (AucCmdMarkCleared v h now) = mark_cleared v h now"
| "auc_exec (AucCmdFailClearing r now) = fail_clearing r now"
| "auc_exec (AucCmdStartSettling now) = start_settling now"
| "auc_exec (AucCmdMarkSettled now) = auc_mark_settled now"
| "auc_exec (AucCmdFailSettlement r now) = auc_fail_settlement r now"
| "auc_exec (AucCmdCancel r now) = auc_cancel r now"
| "auc_exec (AucCmdRetryClearing now) = retry_clearing now"
| "auc_exec (AucCmdRetrySettlement now) = retry_settlement now"

lemmas auc_command_defs = auc_open_def start_clearing_def mark_cleared_def fail_clearing_def
  start_settling_def auc_mark_settled_def auc_fail_settlement_def auc_cancel_def
  retry_clearing_def retry_settlement_def auc_fail_def Let_def

lemma auc_transition_Inr [result_simps]:
  "auc_transition next now a = Inr b \<longleftrightarrow> auc_can_transition (auc_status a) next \<and>
     b = a\<lparr>auc_status := next, auc_version := auc_version a + 1, auc_updated_at := now\<rparr>"
  by (auto simp: auc_transition_def)

lemma auc_exec_Inr:
  assumes "auc_exec c a = Inr b"
  shows "auc_can_transition (auc_status a) (auc_status b)" and "auc_version b = auc_version a + 1"
  using assms by (cases c; auto simp: auc_command_defs result_simps split: if_splits)+

interpretation auc: lifecycle auc_can_transition auc_status auc_version auc_exec
  by unfold_locales (auto dest: auc_exec_Inr)

section \<open>What every reachable batch satisfies\<close>

definition auc_facts where
  "auc_facts a = (auc_id a, auc_issuer_id a, auc_lots a, auc_opens_at a, auc_closes_at a,
     auc_created_at a)"

lemma auc_exec_facts: "auc_exec c a = Inr b \<Longrightarrow> auc_facts b = auc_facts a"
  by (cases c; auto simp: auc_command_defs result_simps auc_facts_def split: if_splits)

definition auc_sound :: "auction \<Rightarrow> bool" where
  "auc_sound a \<longleftrightarrow>
     (auc_status a \<in> {AucCleared, AucSettling, AucSettled} \<longrightarrow>
        commitment_hex (auc_certificate_hash a) \<and> auc_solver_version a \<noteq> []) \<and>
     (auc_certificate_hash a \<noteq> [] \<longrightarrow>
        commitment_hex (auc_certificate_hash a) \<and> auc_solver_version a \<noteq> []) \<and>
     (auc_status a \<in> {AucDraft, AucOpen} \<longrightarrow> auc_certificate_hash a = []) \<and>
     (auc_status a \<in> {AucFailed, AucCancelled} \<longrightarrow> auc_reason a \<noteq> [])"

lemma commitment_hex_Nil [simp]: "\<not> commitment_hex []"
  by (simp add: commitment_hex_def)

lemma auc_sound_step:
  assumes "auc_exec c a = Inr b" and "auc_sound a" shows "auc_sound b"
  using assms
  by (cases c; cases "auc_status a"; simp add: auc_command_defs result_simps auc_can_transition_def
      split: if_splits; force simp: auc_sound_def)

lemma new_auction_Inr:
  assumes "new_auction p now = Inr a"
  shows "auc_status a = AucDraft" "auc_version a = 1" "auc_certificate_hash a = []"
    "auc_lots a = nap_lots p" "auc_lots a \<noteq> []" "auc_opens_at a < auc_closes_at a" "auc_id a \<noteq> uuid_nil"
  using assms by (auto simp: new_auction_def result_simps)

lemma new_auction_sound: "new_auction p now = Inr a \<Longrightarrow> auc_sound a"
  by (simp add: auc_sound_def new_auction_Inr)

section \<open>What the constructor accepts\<close>

definition lot_ok :: "lot \<Rightarrow> bool" where
  "lot_ok l \<longleftrightarrow> lot_id l \<noteq> uuid_nil \<and> lot_asset_id l \<noteq> uuid_nil \<and> grade_valid (lot_grade l) \<and>
     0 < lot_tenor_days l \<and> currency_valid (currency (lot_supply l)) \<and>
     currency (lot_reserve_price l) = currency (lot_supply l) \<and>
     0 < minor (lot_reserve_price l) \<and> minor (lot_reserve_price l) < minor (lot_supply l)"

lemma lot_validate_ok: "lot_validate l = Inr u \<Longrightarrow> lot_ok l"
  by (auto simp: lot_validate_def result_simps lot_ok_def amount_cmp_def assert_same_currency_def
      amount_valid_def amount_positive_def split: if_splits)

lemma check_lot_step:
  "lot_validate l = Inl e \<Longrightarrow> check_lot l (i, vs, seen, cur) = (i + 1, vs @ [e], seen, cur)"
  "lot_validate l = Inr u \<Longrightarrow> check_lot l (i, vs, seen, cur) =
    (i + 1, vs @ violation (lot_asset_id l \<in> seen) (Invalid ''lots'')
        @ violation (i \<noteq> 0 \<and> currency (lot_supply l) \<noteq> cur) (Invalid ''lots''),
      insert (lot_asset_id l) seen, if i = 0 then currency (lot_supply l) else cur)"
  by (simp_all add: check_lot_def)

lemma check_lots:
  assumes "fst (snd (fold check_lot ls (i, vs, seen, cur))) = []"
  shows "vs = [] \<and> (\<forall>l \<in> set ls. lot_ok l \<and> lot_asset_id l \<notin> seen) \<and> distinct (map lot_asset_id ls) \<and>
    (\<forall>l \<in> set ls. currency (lot_supply l) =
       (if i = 0 then currency (lot_supply (hd ls)) else cur))"
  using assms
proof (induction ls arbitrary: i vs seen cur)
  case Nil
  then show ?case by simp
next
  case (Cons l ls)
  show ?case
  proof (cases "lot_validate l")
    case (Inl e)
    then show ?thesis using Cons.prems Cons.IH [of "i + 1" "vs @ [e]" seen cur]
      by (simp add: check_lot_step)
  next
    case (Inr u)
    let ?cur = "if i = 0 then currency (lot_supply l) else cur"
    have "fst (snd (fold check_lot ls (i + 1,
        vs @ violation (lot_asset_id l \<in> seen) (Invalid ''lots'')
           @ violation (i \<noteq> 0 \<and> currency (lot_supply l) \<noteq> cur) (Invalid ''lots''),
        insert (lot_asset_id l) seen, ?cur))) = []"
      using Cons.prems check_lot_step(2) [OF Inr] by simp
    note ih = Cons.IH [OF this]
    have a: "vs = []" "lot_asset_id l \<notin> seen" "i = 0 \<or> currency (lot_supply l) = cur"
      using ih by simp_all
    have b: "\<forall>x \<in> set ls. lot_ok x \<and> lot_asset_id x \<noteq> lot_asset_id l \<and> lot_asset_id x \<notin> seen"
      "distinct (map lot_asset_id ls)" "\<forall>x \<in> set ls. currency (lot_supply x) = ?cur"
      using ih by simp_all
    have "lot_asset_id l \<notin> set (map lot_asset_id ls)" using b(1) by force
    then show ?thesis using a b lot_validate_ok [OF Inr] by (cases "i = 0") simp_all
  qed
qed

lemma new_auction_lots:
  assumes "new_auction p now = Inr a" and "l \<in> set (auc_lots a)"
  shows "lot_ok l" and "distinct (map lot_asset_id (auc_lots a))"
    and "auc_currency a = Inr (currency (lot_supply l))"
proof -
  have c: "fst (snd (fold check_lot (nap_lots p) (0, [], {}, []))) = []"
    using assms(1) by (auto simp: new_auction_def result_simps)
  have lots: "auc_lots a = nap_lots p" by (rule new_auction_Inr(4) [OF assms(1)])
  show "lot_ok l" "distinct (map lot_asset_id (auc_lots a))"
    using check_lots [OF c] assms(2) by (auto simp: lots)
  show "auc_currency a = Inr (currency (lot_supply l))"
    using check_lots [OF c] assms(2) by (cases "nap_lots p") (auto simp: lots auc_currency_def)
qed

section \<open>Properties\<close>

definition sample_lot :: lot where
  "sample_lot = \<lparr>lot_id = 1, lot_invoice_id = 2, lot_asset_id = 3, lot_issuer_id = 4,
     lot_debtor_ref = ''acme'', lot_supply = \<lparr>minor = 100000, currency = ''USD''\<rparr>,
     lot_reserve_price = \<lparr>minor = 96000, currency = ''USD''\<rparr>, lot_grade = ''B'',
     lot_tenor_days = 60\<rparr>"

definition sample_auction_params :: auction_params where
  "sample_auction_params = \<lparr>nap_id = 5, nap_issuer_id = 4, nap_lots = [sample_lot],
     nap_opens_at = 10, nap_closes_at = 20\<rparr>"

definition sample_auction :: auction where
  "sample_auction = \<lparr>auc_id = 5, auc_issuer_id = 4, auc_lots = [sample_lot], auc_opens_at = 10,
     auc_closes_at = 20, auc_status = AucDraft, auc_solver_version = [], auc_certificate_hash = [],
     auc_reason = [], auc_version = 1, auc_created_at = 9, auc_updated_at = 9\<rparr>"

definition sample_hash :: string where
  "sample_hash = ''0x'' @ replicate 64 (CHR ''a'')"

lemma sample_auction_new: "new_auction sample_auction_params 9 = Inr sample_auction"
  by code_simp

definition sample_clearing :: "auc_command list" where
  "sample_clearing = [AucCmdOpen 10, AucCmdStartClearing 20, AucCmdMarkCleared ''v1'' sample_hash 21,
     AucCmdStartSettling 22, AucCmdFailSettlement ''chain down'' 23]"

definition sample_failed :: auction where
  "sample_failed = sample_auction\<lparr>auc_status := AucFailed, auc_solver_version := ''v1'',
     auc_certificate_hash := sample_hash, auc_reason := ''chain down'', auc_version := 6,
     auc_updated_at := 23\<rparr>"

lemma sample_clearing_run: "run_cmds auc_exec sample_clearing sample_auction = Inr sample_failed"
  by code_simp

text \<open>whatever commands are applied to a new batch, a CLEARED, SETTLING or SETTLED batch carries
  a well-formed certificate hash and the version of the solver that produced it, a batch that is
  still a draft or open carries none, a FAILED or CANCELLED one carries a reason; the lots and the
  times never change, the status only moves along the table, and a settled or cancelled batch
  never moves again.\<close>
theorem batch_reachable_sound:
  assumes "new_auction p now = Inr a" and "reaches auc_exec a b"
  shows "auc_sound b \<and> auc_facts b = auc_facts a \<and> auc_can_transition\<^sup>*\<^sup>* AucDraft (auc_status b) \<and>
    (auc_terminal (auc_status b) \<longrightarrow> (\<forall>c. auc_exec c b \<noteq> Inr d))"
proof (intro conjI impI allI)
  show "auc_sound b"
    using assms(2) new_auction_sound [OF assms(1)] auc_sound_step by (rule reaches_invariant)
  show "auc_facts b = auc_facts a"
    by (rule reaches_invariant [OF assms(2), where P = "\<lambda>x. auc_facts x = auc_facts a"])
      (auto dest: auc_exec_facts)
  show "auc_can_transition\<^sup>*\<^sup>* AucDraft (auc_status b)"
    using auc.reaches_edges [OF assms(2)] by (simp add: new_auction_Inr(1) [OF assms(1)])
  show "auc_exec c b \<noteq> Inr d" if "auc_terminal (auc_status b)" for c
    by (rule auc.terminal_refuses) (use that in \<open>simp add: auc_terminal_def auc_can_transition_def\<close>)
qed

theorem batch_reachable_sound_witness:
  "auc_sound sample_failed \<and> auc_facts sample_failed = auc_facts sample_auction"
  using batch_reachable_sound [OF sample_auction_new run_cmds_reaches [OF sample_clearing_run]] by blast

text \<open>every lot of a batch the constructor accepts is priced strictly between zero and its face
  value, in the one currency of the batch, has a known grade and a positive tenor; and no asset is
  offered twice.\<close>
theorem batch_lots_well_formed:
  assumes "new_auction p now = Inr a"
  shows "auc_lots a \<noteq> [] \<and> list_all lot_ok (auc_lots a) \<and> distinct (map lot_asset_id (auc_lots a)) \<and>
    list_all (\<lambda>l. auc_currency a = Inr (currency (lot_supply l))) (auc_lots a)"
proof -
  have "auc_lots a \<noteq> []" by (rule new_auction_Inr(5) [OF assms])
  then obtain l where l: "l \<in> set (auc_lots a)" by (meson hd_in_set)
  show ?thesis
    using \<open>auc_lots a \<noteq> []\<close> new_auction_lots(1,3) [OF assms] new_auction_lots(2) [OF assms l]
    by (auto simp: list_all_iff)
qed

theorem batch_lots_well_formed_witness:
  "list_all lot_ok [sample_lot]"
  using batch_lots_well_formed [OF sample_auction_new] by (simp add: sample_auction_def)

text \<open>
  \<^verbatim>\<open>RetryClearing\<close> refuses a batch whose settlement failed; \<^verbatim>\<open>StartClearing\<close> on
  the same batch does not, and the batch is cleared a second time.
\<close>

theorem settlement_failure_cleared_again:
  "retry_clearing 30 sample_failed = Inl ErrConflict \<and>
    (case run_cmds auc_exec [AucCmdStartClearing 30, AucCmdMarkCleared ''v2'' sample_hash 31] sample_failed of
       Inl e \<Rightarrow> False | Inr b \<Rightarrow> auc_status b = AucCleared \<and> auc_solver_version b = ''v2'')"
  by code_simp

end
