(* ===== verification/Verifier.thy ===== *)
theory Verifier
  imports Auction "HOL-Library.AList"
begin

text \<open>
  \<^verbatim>\<open>internal/auction/verifier.go\<close> and the solution types of
  \<^verbatim>\<open>solver.go\<close>: the independent check a clearing must pass before it may settle. A
  Go map the loop fills is an association list; iterating it visits the entries in list order, and since
  every refusal is the same error kind the order only picks the message. A nil pointer is
  \<open>None\<close>.
\<close>

section \<open>Solutions\<close>

record 'd solver_params =
  sp_surplus_weight :: 'd
  sp_funding_weight :: 'd
  sp_risk_penalty :: 'd
  sp_max_augmentations :: nat
  sp_max_relaxed_solves :: nat
  sp_max_edges_per_bid :: nat
  sp_edge_prune_threshold :: nat
  sp_max_branch_nodes :: nat
  sp_max_repair_rounds :: nat

definition value_scale :: int where "value_scale = 1000000"

definition solver_params_v1 :: "'d decimal_ops \<Rightarrow> 'd solver_params result" where
  "solver_params_v1 D =
    and_then (must_parse_rate D ''1.0'') (\<lambda>surplus.
    and_then (must_parse_rate D ''0.01'') (\<lambda>funding.
    and_then (must_parse_rate D ''0.002'') (\<lambda>penalty.
      Inr \<lparr>sp_surplus_weight = surplus, sp_funding_weight = funding, sp_risk_penalty = penalty,
           sp_max_augmentations = 200000, sp_max_relaxed_solves = 32, sp_max_edges_per_bid = 32,
           sp_edge_prune_threshold = 20000, sp_max_branch_nodes = 512, sp_max_repair_rounds = 32\<rparr>)))"

record allocation =
  al_lot_id :: uuid
  al_invoice_id :: uuid
  al_asset_id :: uuid
  al_bid_id :: uuid
  al_investor_id :: uuid
  al_notional :: amount
  al_price :: amount
  al_rank :: int

text \<open>The empty constraint string is \<open>None\<close>.\<close>

record rejection =
  rj_bid_id :: uuid
  rj_lot_id :: uuid
  rj_constraint :: "constraint option"

record solution =
  sol_auction_id :: uuid
  sol_solver_version :: string
  sol_allocations :: "allocation list"
  sol_rejections :: "rejection list"
  sol_objective :: int
  sol_total_notional :: amount
  sol_total_cash :: amount
  sol_branch_nodes :: nat
  sol_repair_rounds :: nat
  sol_limit_reached :: bool
  sol_certificate_hash :: string
  sol_verified :: bool

section \<open>The checks\<close>

definition refuse :: "'a result \<Rightarrow> 'a result" where
  "refuse r = (case r of Inl Panic \<Rightarrow> Inl Panic | Inl e \<Rightarrow> Inl Verification | Inr x \<Rightarrow> Inr x)"

lemma refuse_Inr [result_simps]: "refuse r = Inr x \<longleftrightarrow> r = Inr x"
  by (auto simp: refuse_def split: sum.splits app_error.splits)

definition edge_value_points :: "'d decimal_ops \<Rightarrow> lot \<Rightarrow> 'd bid \<Rightarrow> 'd solver_params \<Rightarrow> int result" where
  "edge_value_points D l b P =
    and_then (lot_implied_yield D l) (\<lambda>yield.
    and_then (grade_rank (lot_grade l)) (\<lambda>rank.
      let v = d_sub D (d_add D (d_mul D (sp_surplus_weight P) (d_sub D yield (bid_min_yield b)))
                               (sp_funding_weight P))
                      (d_mul D (sp_risk_penalty P) (d_of_int D rank));
          points = d_int_part D (d_round_bank D (d_mul D v (d_of_int D value_scale)) 0)
      in Inr (if points < 0 then 0 else points)))"

definition verify_eligibility :: "'d decimal_ops \<Rightarrow> lot \<Rightarrow> 'd bid \<Rightarrow> unit result" where
  "verify_eligibility D l b =
    (if currency (lot_supply l) \<noteq> currency (bid_budget b) then Inl Verification
     else and_then (grade_at_most (lot_grade l) (bid_max_grade b)) (\<lambda>at_most.
       if \<not> at_most then Inl Verification
       else if lot_tenor_days l > bid_max_tenor_days b then Inl Verification
       else and_then (refuse (lot_implied_yield D l)) (\<lambda>yield.
         if d_cmp D yield (bid_min_yield b) < 0 then Inl Verification else Inr ())))"

definition verify_minimum_lot :: "lot \<Rightarrow> 'd bid \<Rightarrow> allocation \<Rightarrow> unit result" where
  "verify_minimum_lot l b al =
    (if \<not> amount_positive (bid_minimum_lot b) then Inr ()
     else and_then (refuse (amount_cmp (al_notional al) (bid_minimum_lot b))) (\<lambda>c.
       if c < 0 then Inl Verification else Inr ()))"

definition add_to :: "amount option \<Rightarrow> amount \<Rightarrow> currency_code \<Rightarrow> amount result" where
  "add_to current delta cur =
    and_then (case current of
        None \<Rightarrow> amount_zero cur
      | Some c \<Rightarrow> if amount_valid c then Inr c else amount_zero cur) (\<lambda>c.
      refuse (amount_add c delta))"

definition tally :: "'k \<Rightarrow> amount \<Rightarrow> currency_code \<Rightarrow> ('k \<times> amount) list \<Rightarrow> ('k \<times> amount) list result" where
  "tally key delta cur acc =
    and_then (add_to (map_of acc key) delta cur) (\<lambda>s. Inr (AList.update key s acc))"

record tallies =
  vt_pairs :: "string list"
  vt_lots :: "(uuid \<times> amount) list"
  vt_bids :: "(uuid \<times> amount) list"
  vt_issuers :: "(string \<times> amount) list"
  vt_debtors :: "(string \<times> amount) list"
  vt_grades :: "(string \<times> amount) list"
  vt_notional :: amount
  vt_cash :: amount
  vt_objective :: int

definition verify_allocation ::
  "'d decimal_ops \<Rightarrow> uuid_ops \<Rightarrow> 'd solver_params \<Rightarrow> (uuid \<Rightarrow> lot option) \<Rightarrow> (uuid \<Rightarrow> 'd bid option) \<Rightarrow>
    currency_code \<Rightarrow> nat \<times> allocation \<Rightarrow> tallies \<Rightarrow> tallies result" where
  "verify_allocation D U P lots bids cur ial t =
    (case ial of (i, al) \<Rightarrow>
     if al_rank al \<noteq> int i then Inl Verification
     else case lots (al_lot_id al) of None \<Rightarrow> Inl Verification | Some l \<Rightarrow>
     (case bids (al_bid_id al) of None \<Rightarrow> Inl Verification | Some b \<Rightarrow>
     let pair = uuid_string U (al_lot_id al) @ ''/'' @ uuid_string U (al_bid_id al)
     in if pair \<in> set (vt_pairs t) then Inl Verification
        else if al_invoice_id al \<noteq> lot_invoice_id l \<or> al_asset_id al \<noteq> lot_asset_id l then Inl Verification
        else if al_investor_id al \<noteq> bid_investor_id b then Inl Verification
        else if \<not> amount_positive (al_notional al) then Inl Verification
        else
          and_then (verify_eligibility D l b) (\<lambda>_.
          and_then (verify_minimum_lot l b al) (\<lambda>_.
          and_then (refuse (lot_cost_of D l (al_notional al))) (\<lambda>expected.
          if \<not> amount_equal expected (al_price al) then Inl Verification
          else
            and_then (tally (lot_id l) (al_notional al) cur (vt_lots t)) (\<lambda>per_lot.
            and_then (tally (bid_id b) (al_price al) cur (vt_bids t)) (\<lambda>per_bid.
            and_then (tally (uuid_string U (bid_id b) @ ''/'' @ uuid_string U (lot_issuer_id l))
                        (al_price al) cur (vt_issuers t)) (\<lambda>per_issuer.
            and_then (tally (uuid_string U (bid_id b) @ ''/'' @ lot_debtor_ref l)
                        (al_price al) cur (vt_debtors t)) (\<lambda>per_debtor.
            and_then (tally (uuid_string U (bid_id b) @ ''/'' @ lot_grade l)
                        (al_price al) cur (vt_grades t)) (\<lambda>per_grade.
            and_then (refuse (amount_add (vt_notional t) (al_notional al))) (\<lambda>notional.
            and_then (refuse (amount_add (vt_cash t) (al_price al))) (\<lambda>cash.
            and_then (refuse (edge_value_points D l b P)) (\<lambda>points.
              Inr \<lparr>vt_pairs = pair # vt_pairs t, vt_lots = per_lot, vt_bids = per_bid,
                   vt_issuers = per_issuer, vt_debtors = per_debtor, vt_grades = per_grade,
                   vt_notional = notional, vt_cash = cash,
                   vt_objective = wrap64 (vt_objective t + wrap64 (minor (al_price al) * points))\<rparr>)))))))))))))"

definition check_limit :: "amount \<Rightarrow> amount result \<Rightarrow> unit result" where
  "check_limit spent limit =
    and_then (refuse limit) (\<lambda>l.
    and_then (refuse (amount_cmp spent l)) (\<lambda>c. if c > 0 then Inl Verification else Inr ()))"

definition split_exposure_key :: "uuid_ops \<Rightarrow> string \<Rightarrow> (uuid \<times> string) result" where
  "split_exposure_key U key =
    (if length key < 37 then Inl Verification
     else case uuid_parse U (take 36 key) of
            None \<Rightarrow> Inl Verification
          | Some i \<Rightarrow> Inr (i, drop 37 key))"

definition verify_exposure ::
  "uuid_ops \<Rightarrow> (string \<times> amount) list \<Rightarrow> (uuid \<Rightarrow> 'd bid option) \<Rightarrow> ('d bid \<Rightarrow> string \<Rightarrow> amount result) \<Rightarrow>
    unit result" where
  "verify_exposure U spent bids limit_of =
    fold_result (\<lambda>(key, amount) _.
      and_then (split_exposure_key U key) (\<lambda>(i, grp).
        case bids i of
          None \<Rightarrow> Inl Verification
        | Some b \<Rightarrow> check_limit amount (limit_of b grp))) spent ()"

definition lots_by_id :: "lot list \<Rightarrow> uuid \<Rightarrow> lot option" where
  "lots_by_id ls = map_of (rev (map (\<lambda>l. (lot_id l, l)) ls))"

definition bids_by_id :: "'d bid option list \<Rightarrow> uuid \<Rightarrow> 'd bid option" where
  "bids_by_id bs = map_of (rev (map (\<lambda>b. (bid_id b, b))
     (filter (\<lambda>b. bid_status b = BidActive) (List.map_filter (\<lambda>x. x) bs))))"

definition verify_rejection :: "(uuid \<times> amount) list \<Rightarrow> rejection \<Rightarrow> unit \<Rightarrow> unit result" where
  "verify_rejection per_bid r _ =
    (if map_of per_bid (rj_bid_id r) \<noteq> None then Inl Verification
     else if rj_constraint r = None then Inl Verification else Inr ())"

definition verify ::
  "'d decimal_ops \<Rightarrow> uuid_ops \<Rightarrow> auction option \<Rightarrow> 'd bid option list \<Rightarrow> solution option \<Rightarrow>
    'd solver_params \<Rightarrow> unit result" where
  "verify D U auction bids solution P =
    (case (auction, solution) of
       (Some a, Some s) \<Rightarrow>
         if sol_auction_id s \<noteq> auc_id a then Inl Verification
         else let lots = lots_by_id (auc_lots a); active = bids_by_id bids in
           and_then (auc_currency a) (\<lambda>cur.
           and_then (amount_zero cur) (\<lambda>zero.
           and_then (fold_result (verify_allocation D U P lots active cur)
               (enumerate 0 (sol_allocations s))
               \<lparr>vt_pairs = [], vt_lots = [], vt_bids = [], vt_issuers = [], vt_debtors = [],
                vt_grades = [], vt_notional = zero, vt_cash = zero, vt_objective = 0\<rparr>) (\<lambda>t.
           and_then (fold_result (\<lambda>(i, spent) _. case lots i of
               None \<Rightarrow> Inl Verification | Some l \<Rightarrow> check_limit spent (Inr (lot_supply l))) (vt_lots t) ()) (\<lambda>_.
           and_then (fold_result (\<lambda>(i, spent) _. case active i of
               None \<Rightarrow> Inl Panic | Some b \<Rightarrow> check_limit spent (Inr (bid_budget b))) (vt_bids t) ()) (\<lambda>_.
           and_then (verify_exposure U (vt_issuers t) active (\<lambda>b _. issuer_limit D b)) (\<lambda>_.
           and_then (verify_exposure U (vt_debtors t) active (\<lambda>b _. debtor_limit D b)) (\<lambda>_.
           and_then (verify_exposure U (vt_grades t) active (\<lambda>b grp.
               and_then (parse_grade grp) (grade_limit D b))) (\<lambda>_.
             if \<not> amount_equal (vt_notional t) (sol_total_notional s) then Inl Verification
             else if \<not> amount_equal (vt_cash t) (sol_total_cash s) then Inl Verification
             else if vt_objective t \<noteq> sol_objective s then Inl Verification
             else fold_result (verify_rejection (vt_bids t)) (sol_rejections s) ()))))))))
     | _ \<Rightarrow> Inl Verification)"

section \<open>What a verified solution satisfies\<close>

definition keyed_sum :: "('a \<Rightarrow> 'k) \<Rightarrow> ('a \<Rightarrow> amount) \<Rightarrow> 'a list \<Rightarrow> 'k \<Rightarrow> int" where
  "keyed_sum key val xs k = (\<Sum>x \<leftarrow> filter (\<lambda>x. key x = k) xs. minor (val x))"

definition lot_of :: "auction \<Rightarrow> allocation \<Rightarrow> lot" where
  "lot_of a al = the (lots_by_id (auc_lots a) (al_lot_id al))"

definition bid_of :: "'d bid option list \<Rightarrow> allocation \<Rightarrow> 'd bid" where
  "bid_of bids al = the (bids_by_id bids (al_bid_id al))"

text \<open>One allocation respects the rules of its lot and its bid.\<close>

definition allocation_allowed :: "'d decimal_ops \<Rightarrow> auction \<Rightarrow> 'd bid option list \<Rightarrow> allocation \<Rightarrow> bool" where
  "allocation_allowed D a bids al \<longleftrightarrow>
     lots_by_id (auc_lots a) (al_lot_id al) \<noteq> None \<and> bids_by_id bids (al_bid_id al) \<noteq> None \<and>
     (let l = lot_of a al; b = bid_of bids al in
       al_invoice_id al = lot_invoice_id l \<and> al_asset_id al = lot_asset_id l \<and>
       al_investor_id al = bid_investor_id b \<and> 0 < minor (al_notional al) \<and>
       currency (lot_supply l) = currency (bid_budget b) \<and>
       grade_at_most (lot_grade l) (bid_max_grade b) = Inr True \<and>
       lot_tenor_days l \<le> bid_max_tenor_days b \<and>
       (case lot_implied_yield D l of Inl _ \<Rightarrow> False | Inr y \<Rightarrow> 0 \<le> d_cmp D y (bid_min_yield b)) \<and>
       (0 < minor (bid_minimum_lot b) \<longrightarrow> minor (bid_minimum_lot b) \<le> minor (al_notional al)) \<and>
       lot_cost_of D l (al_notional al) = Inr (al_price al))"

text \<open>The cash the bid of \<open>al\<close> pays for lots of the group \<open>al\<close> is in.\<close>

definition exposure :: "(lot \<Rightarrow> 'g) \<Rightarrow> auction \<Rightarrow> allocation list \<Rightarrow> allocation \<Rightarrow> int" where
  "exposure grp a als al =
    keyed_sum (\<lambda>x. (al_bid_id x, grp (lot_of a x))) al_price als (al_bid_id al, grp (lot_of a al))"

definition at_most :: "int \<Rightarrow> amount result \<Rightarrow> bool" where
  "at_most x limit \<longleftrightarrow> (case limit of Inl _ \<Rightarrow> False | Inr l \<Rightarrow> x \<le> minor l)"

text \<open>The whole solution respects every supply, budget and concentration limit.\<close>

definition allocation_in_limits ::
  "'d decimal_ops \<Rightarrow> auction \<Rightarrow> 'd bid option list \<Rightarrow> allocation list \<Rightarrow> allocation \<Rightarrow> bool" where
  "allocation_in_limits D a bids als al \<longleftrightarrow>
     keyed_sum al_lot_id al_notional als (al_lot_id al) \<le> minor (lot_supply (lot_of a al)) \<and>
     keyed_sum al_bid_id al_price als (al_bid_id al) \<le> minor (bid_budget (bid_of bids al)) \<and>
     at_most (exposure lot_issuer_id a als al) (issuer_limit D (bid_of bids al)) \<and>
     at_most (exposure lot_debtor_ref a als al) (debtor_limit D (bid_of bids al)) \<and>
     at_most (exposure lot_grade a als al) (grade_limit D (bid_of bids al) (lot_grade (lot_of a al)))"

definition value_points :: "'d decimal_ops \<Rightarrow> 'd solver_params \<Rightarrow> auction \<Rightarrow> 'd bid option list \<Rightarrow> allocation \<Rightarrow> int" where
  "value_points D P a bids al =
    (case edge_value_points D (lot_of a al) (bid_of bids al) P of Inl _ \<Rightarrow> 0 | Inr v \<Rightarrow> v)"

definition solution_ok ::
  "'d decimal_ops \<Rightarrow> 'd solver_params \<Rightarrow> auction \<Rightarrow> 'd bid option list \<Rightarrow> solution \<Rightarrow> bool" where
  "solution_ok D P a bids s \<longleftrightarrow>
     (let als = sol_allocations s in
       sol_auction_id s = auc_id a \<and>
       map al_rank als = map int [0..<length als] \<and>
       distinct (map (\<lambda>al. (al_lot_id al, al_bid_id al)) als) \<and>
       list_all (allocation_allowed D a bids) als \<and>
       list_all (allocation_in_limits D a bids als) als \<and>
       minor (sol_total_notional s) = sum_list (map (minor \<circ> al_notional) als) \<and>
       minor (sol_total_cash s) = sum_list (map (minor \<circ> al_price) als) \<and>
       sol_objective s = wrap64 (\<Sum>al \<leftarrow> als. minor (al_price al) * value_points D P a bids al) \<and>
       list_all (\<lambda>r. rj_constraint r \<noteq> None \<and> rj_bid_id r \<notin> al_bid_id ` set als) (sol_rejections s))"

section \<open>The tallies\<close>

definition tallied :: "('a \<Rightarrow> 'k) \<Rightarrow> ('a \<Rightarrow> amount) \<Rightarrow> currency_code \<Rightarrow> 'a list \<Rightarrow> ('k \<times> amount) list \<Rightarrow> bool" where
  "tallied key val cur xs acc \<longleftrightarrow>
     (\<forall>k. in64 (keyed_sum key val xs k)) \<and>
     (\<forall>k. map_of acc k =
        (if k \<in> key ` set xs then Some \<lparr>minor = keyed_sum key val xs k, currency = cur\<rparr> else None))"

lemma keyed_sum_none: "k \<notin> key ` set xs \<Longrightarrow> keyed_sum key val xs k = 0"
  by (induction xs) (auto simp: keyed_sum_def)

lemma keyed_sum_snoc:
  "keyed_sum key val (xs @ [x]) k = keyed_sum key val xs k + (if key x = k then minor (val x) else 0)"
  by (simp add: keyed_sum_def)

lemma tallied_Nil: "tallied key val cur [] []"
  by (simp add: tallied_def keyed_sum_def in64_def min64_def max64_def)

lemma tally_step:
  assumes "tallied key val cur xs acc" and "tally (key x) (val x) cur acc = Inr acc'"
    and "in64 (minor (val x))" and "currency_valid cur"
  shows "tallied key val cur (xs @ [x]) acc'"
proof -
  let ?old = "keyed_sum key val xs (key x)"
  obtain s where s: "add_to (map_of acc (key x)) (val x) cur = Inr s" "acc' = AList.update (key x) s acc"
    using assms(2) by (auto simp: tally_def result_simps)
  have old: "in64 ?old" using assms(1) by (simp add: tallied_def)
  have added: "amount_add \<lparr>minor = ?old, currency = cur\<rparr> (val x) = Inr s"
  proof (cases "key x \<in> key ` set xs")
    case True
    then have "map_of acc (key x) = Some \<lparr>minor = ?old, currency = cur\<rparr>"
      using assms(1) by (simp add: tallied_def)
    then show ?thesis using s(1) assms(4) by (simp add: add_to_def amount_valid_def refuse_Inr)
  next
    case False
    then have "map_of acc (key x) = None" "?old = 0"
      using assms(1) keyed_sum_none by (simp_all add: tallied_def)
    then show ?thesis
      using s(1) assms(4) by (simp add: add_to_def result_simps amount_zero_def must_new_def amount_new_def)
  qed
  have s': "s = \<lparr>minor = ?old + minor (val x), currency = cur\<rparr>" "in64 (?old + minor (val x))"
    using amount_add_Inr(1,2,5) [OF added _ assms(3)] old by (simp_all add: amount.equality)
  show ?thesis
    unfolding tallied_def
  proof (intro conjI allI)
    show "in64 (keyed_sum key val (xs @ [x]) k)" for k
      using assms(1) s'(2) by (auto simp: keyed_sum_snoc tallied_def)
    show "map_of acc' k = (if k \<in> key ` set (xs @ [x])
        then Some \<lparr>minor = keyed_sum key val (xs @ [x]) k, currency = cur\<rparr> else None)" for k
      using assms(1) s s' by (auto simp: keyed_sum_snoc tallied_def update_conv)
  qed
qed

lemma tallied_lookup:
  "tallied key val cur xs acc \<Longrightarrow> x \<in> set xs \<Longrightarrow>
    (key x, \<lparr>minor = keyed_sum key val xs (key x), currency = cur\<rparr>) \<in> set acc"
  by (intro map_of_SomeD) (simp add: tallied_def)

lemma check_limit_Inr [result_simps]:
  "check_limit spent limit = Inr () \<longleftrightarrow>
    (\<exists>l. limit = Inr l \<and> currency_valid (currency spent) \<and> currency spent = currency l \<and> minor spent \<le> minor l)"
  by (cases limit) (auto simp: check_limit_def amount_cmp_def result_simps)

section \<open>The loop over the allocations\<close>

lemma lots_by_id_Some: "lots_by_id ls i = Some l \<Longrightarrow> lot_id l = i \<and> l \<in> set ls"
  by (auto simp: lots_by_id_def dest!: map_of_SomeD)

lemma bids_by_id_Some:
  "bids_by_id bs i = Some b \<Longrightarrow> bid_id b = i \<and> bid_status b = BidActive \<and> Some b \<in> set bs"
  by (auto simp: bids_by_id_def List.map_filter_def dest!: map_of_SomeD)

lemma verify_eligibility_Inr [result_simps]:
  "verify_eligibility D l b = Inr () \<longleftrightarrow>
     currency (lot_supply l) = currency (bid_budget b) \<and>
     grade_at_most (lot_grade l) (bid_max_grade b) = Inr True \<and>
     lot_tenor_days l \<le> bid_max_tenor_days b \<and>
     (\<exists>y. lot_implied_yield D l = Inr y \<and> 0 \<le> d_cmp D y (bid_min_yield b))"
  by (auto simp: verify_eligibility_def result_simps not_less)

lemma verify_minimum_lot_Inr:
  "verify_minimum_lot l b al = Inr () \<Longrightarrow>
    0 < minor (bid_minimum_lot b) \<longrightarrow> minor (bid_minimum_lot b) \<le> minor (al_notional al)"
  by (auto simp: verify_minimum_lot_def amount_cmp_def amount_positive_def result_simps split: if_splits)

definition pair_key :: "uuid_ops \<Rightarrow> allocation \<Rightarrow> string" where
  "pair_key U al = uuid_string U (al_lot_id al) @ ''/'' @ uuid_string U (al_bid_id al)"

definition group_key :: "uuid_ops \<Rightarrow> auction \<Rightarrow> (lot \<Rightarrow> string) \<Rightarrow> allocation \<Rightarrow> string" where
  "group_key U a grp al = uuid_string U (al_bid_id al) @ ''/'' @ grp (lot_of a al)"

definition issuer_text :: "uuid_ops \<Rightarrow> lot \<Rightarrow> string" where
  "issuer_text U l = uuid_string U (lot_issuer_id l)"

text \<open>Everything one accepted turn of the loop has established.\<close>

lemma verify_allocation_accepts:
  assumes "verify_allocation D U P (lots_by_id (auc_lots a)) (bids_by_id bids) cur (n, al) t = Inr t'"
  shows "al_rank al = int n" and "allocation_allowed D a bids al" and "pair_key U al \<notin> set (vt_pairs t)"
    and "vt_pairs t' = pair_key U al # vt_pairs t"
    and "tally (al_lot_id al) (al_notional al) cur (vt_lots t) = Inr (vt_lots t')"
    and "tally (al_bid_id al) (al_price al) cur (vt_bids t) = Inr (vt_bids t')"
    and "tally (group_key U a (issuer_text U) al) (al_price al) cur (vt_issuers t) = Inr (vt_issuers t')"
    and "tally (group_key U a lot_debtor_ref al) (al_price al) cur (vt_debtors t) = Inr (vt_debtors t')"
    and "tally (group_key U a lot_grade al) (al_price al) cur (vt_grades t) = Inr (vt_grades t')"
    and "amount_add (vt_notional t) (al_notional al) = Inr (vt_notional t')"
    and "amount_add (vt_cash t) (al_price al) = Inr (vt_cash t')"
    and "vt_objective t' = wrap64 (vt_objective t + wrap64 (minor (al_price al) * value_points D P a bids al))"
proof -
  obtain l where l: "lots_by_id (auc_lots a) (al_lot_id al) = Some l"
    using assms by (auto simp: verify_allocation_def split: if_splits option.splits)
  obtain b where b: "bids_by_id bids (al_bid_id al) = Some b"
    using assms l by (auto simp: verify_allocation_def split: if_splits option.splits)
  have ids: "lot_id l = al_lot_id al" "bid_id b = al_bid_id al" "lot_of a al = l" "bid_of bids al = b"
    using lots_by_id_Some [OF l] bids_by_id_Some [OF b] l b by (simp_all add: lot_of_def bid_of_def)
  note run = assms [unfolded verify_allocation_def prod.case l b option.case Let_def]
  show "al_rank al = int n" "pair_key U al \<notin> set (vt_pairs t)" "vt_pairs t' = pair_key U al # vt_pairs t"
    using run by (auto simp: result_simps pair_key_def)
  obtain expected where price: "lot_cost_of D l (al_notional al) = Inr expected" "amount_equal expected (al_price al)"
    using run by (auto simp: result_simps)
  then have "lot_cost_of D l (al_notional al) = Inr (al_price al)"
    by (cases expected; cases "al_price al") (simp add: amount_equal_def)
  then show "allocation_allowed D a bids al"
    using run l b ids verify_minimum_lot_Inr [of l b al]
    by (auto simp: allocation_allowed_def result_simps amount_positive_def)
  show "tally (al_lot_id al) (al_notional al) cur (vt_lots t) = Inr (vt_lots t')"
    "tally (al_bid_id al) (al_price al) cur (vt_bids t) = Inr (vt_bids t')"
    "tally (group_key U a (issuer_text U) al) (al_price al) cur (vt_issuers t) = Inr (vt_issuers t')"
    "tally (group_key U a lot_debtor_ref al) (al_price al) cur (vt_debtors t) = Inr (vt_debtors t')"
    "tally (group_key U a lot_grade al) (al_price al) cur (vt_grades t) = Inr (vt_grades t')"
    using run ids by (auto simp: result_simps group_key_def issuer_text_def)
  show "amount_add (vt_notional t) (al_notional al) = Inr (vt_notional t')"
    "amount_add (vt_cash t) (al_price al) = Inr (vt_cash t')"
    "vt_objective t' = wrap64 (vt_objective t + wrap64 (minor (al_price al) * value_points D P a bids al))"
    using run ids by (auto simp: result_simps value_points_def)
qed

definition verified_prefix ::
  "'d decimal_ops \<Rightarrow> uuid_ops \<Rightarrow> 'd solver_params \<Rightarrow> auction \<Rightarrow> 'd bid option list \<Rightarrow> currency_code \<Rightarrow>
    allocation list \<Rightarrow> tallies \<Rightarrow> bool" where
  "verified_prefix D U P a bids cur xs t \<longleftrightarrow>
     currency_valid cur \<and> map al_rank xs = map int [0..<length xs] \<and>
     list_all (allocation_allowed D a bids) xs \<and>
     set (vt_pairs t) = pair_key U ` set xs \<and> distinct (map (pair_key U) xs) \<and>
     tallied al_lot_id al_notional cur xs (vt_lots t) \<and> tallied al_bid_id al_price cur xs (vt_bids t) \<and>
     tallied (group_key U a (issuer_text U)) al_price cur xs (vt_issuers t) \<and>
     tallied (group_key U a lot_debtor_ref) al_price cur xs (vt_debtors t) \<and>
     tallied (group_key U a lot_grade) al_price cur xs (vt_grades t) \<and>
     minor (vt_notional t) = sum_list (map (minor \<circ> al_notional) xs) \<and> in64 (minor (vt_notional t)) \<and>
     minor (vt_cash t) = sum_list (map (minor \<circ> al_price) xs) \<and> in64 (minor (vt_cash t)) \<and>
     vt_objective t = wrap64 (\<Sum>al \<leftarrow> xs. minor (al_price al) * value_points D P a bids al)"

lemma verify_allocation_prefix:
  assumes pre: "verified_prefix D U P a bids cur xs t"
    and run: "verify_allocation D U P (lots_by_id (auc_lots a)) (bids_by_id bids) cur (length xs, al) t = Inr t'"
    and range: "in64 (minor (al_notional al))" "in64 (minor (al_price al))"
  shows "verified_prefix D U P a bids cur (xs @ [al]) t'"
proof -
  note acc = verify_allocation_accepts [OF run]
  have cur: "currency_valid cur" and old: "in64 (minor (vt_notional t))" "in64 (minor (vt_cash t))"
    using pre unfolding verified_prefix_def by blast+
  have "tallied al_lot_id al_notional cur (xs @ [al]) (vt_lots t')"
    "tallied al_bid_id al_price cur (xs @ [al]) (vt_bids t')"
    "tallied (group_key U a (issuer_text U)) al_price cur (xs @ [al]) (vt_issuers t')"
    "tallied (group_key U a lot_debtor_ref) al_price cur (xs @ [al]) (vt_debtors t')"
    "tallied (group_key U a lot_grade) al_price cur (xs @ [al]) (vt_grades t')"
    using pre acc(5-9) range cur by (auto simp: verified_prefix_def intro!: tally_step)
  moreover have "minor (vt_notional t') = minor (vt_notional t) + minor (al_notional al)" "in64 (minor (vt_notional t'))"
    "minor (vt_cash t') = minor (vt_cash t) + minor (al_price al)" "in64 (minor (vt_cash t'))"
    using amount_add_Inr(1,5) [OF acc(10) old(1) range(1)] amount_add_Inr(1,5) [OF acc(11) old(2) range(2)]
    by blast+
  moreover have "vt_objective t' = wrap64 (\<Sum>al \<leftarrow> xs @ [al]. minor (al_price al) * value_points D P a bids al)"
    using pre acc(12) by (simp add: verified_prefix_def wrap64_add)
  ultimately show ?thesis
    using pre acc(1-4) by (auto simp: verified_prefix_def)
qed

section \<open>Soundness\<close>

lemma keyed_sum_cong:
  "(\<And>x. x \<in> set xs \<Longrightarrow> key x = k \<longleftrightarrow> key' x = k') \<Longrightarrow> keyed_sum key val xs k = keyed_sum key' val xs k'"
proof -
  assume "\<And>x. x \<in> set xs \<Longrightarrow> key x = k \<longleftrightarrow> key' x = k'"
  then have "filter (\<lambda>x. key x = k) xs = filter (\<lambda>x. key' x = k') xs" by (rule filter_cong [OF refl])
  then show ?thesis by (simp add: keyed_sum_def)
qed

text \<open>A key of the exposure maps names one bid and one group.\<close>

lemma split_group_key:
  assumes "uuid_lib U"
  shows "split_exposure_key U (uuid_string U i @ ''/'' @ g) = Inr (i, g)"
proof -
  have "length (uuid_string U i) = 36" by (rule uuid_lib.uuid_string_length [OF assms])
  then show ?thesis
    using uuid_lib.uuid_parse_string [OF assms] by (simp add: split_exposure_key_def)
qed

lemma verify_exposure_bound:
  assumes U: "uuid_lib U" and ok: "verify_exposure U acc (bids_by_id bids) limit_of = Inr ()"
    and tal: "tallied (group_key U a grp) al_price cur als acc" and al: "al \<in> set als"
    and known: "\<forall>x \<in> set als. bids_by_id bids (al_bid_id x) \<noteq> None"
  shows "at_most (keyed_sum (\<lambda>x. (al_bid_id x, grp (lot_of a x))) al_price als (al_bid_id al, grp (lot_of a al)))
    (limit_of (bid_of bids al) (grp (lot_of a al)))"
proof -
  let ?g = "grp (lot_of a al)"
  have "keyed_sum (group_key U a grp) al_price als (group_key U a grp al) =
      keyed_sum (\<lambda>x. (al_bid_id x, grp (lot_of a x))) al_price als (al_bid_id al, ?g)"
    by (rule keyed_sum_cong) (simp add: group_key_def uuid_lib.uuid_key_inj [OF U])
  with tallied_lookup [OF tal al]
  have mem: "(uuid_string U (al_bid_id al) @ ''/'' @ ?g, \<lparr>minor = keyed_sum
      (\<lambda>x. (al_bid_id x, grp (lot_of a x))) al_price als (al_bid_id al, ?g), currency = cur\<rparr>) \<in> set acc"
    by (simp add: group_key_def)
  obtain b where b: "bids_by_id bids (al_bid_id al) = Some b" using known al by blast
  have "check_limit \<lparr>minor = keyed_sum (\<lambda>x. (al_bid_id x, grp (lot_of a x))) al_price als (al_bid_id al, ?g),
      currency = cur\<rparr> (limit_of b ?g) = Inr ()"
    using fold_result_all [OF ok [unfolded verify_exposure_def split_def] mem] b
    by (simp add: split_group_key [OF U, simplified])
  then show ?thesis using b by (auto simp: check_limit_Inr at_most_def bid_of_def)
qed

text \<open>What the accumulators of an accepted run say about its allocations: the limits are kept, no pair comes twice, and
  a rejected bid has nothing.\<close>

lemma verified_in_limits:
  assumes U: "uuid_lib U" and pre: "verified_prefix D U P a bids cur als t" and al: "al \<in> set als"
    and stock: "fold_result (\<lambda>(i, spent) _. case lots_by_id (auc_lots a) i of
      None \<Rightarrow> Inl Verification | Some l \<Rightarrow> check_limit spent (Inr (lot_supply l))) (vt_lots t) () = Inr ()"
    and budget: "fold_result (\<lambda>(i, spent) _. case bids_by_id bids i of
      None \<Rightarrow> Inl Panic | Some b \<Rightarrow> check_limit spent (Inr (bid_budget b))) (vt_bids t) () = Inr ()"
    and issuer: "verify_exposure U (vt_issuers t) (bids_by_id bids) (\<lambda>b _. issuer_limit D b) = Inr ()"
    and debtor: "verify_exposure U (vt_debtors t) (bids_by_id bids) (\<lambda>b _. debtor_limit D b) = Inr ()"
    and grade: "verify_exposure U (vt_grades t) (bids_by_id bids)
      (\<lambda>b g. and_then (parse_grade g) (grade_limit D b)) = Inr ()"
  shows "allocation_in_limits D a bids als al"
proof -
  have allowed: "\<forall>x \<in> set als. allocation_allowed D a bids x" using pre by (simp add: verified_prefix_def list_all_iff)
  then have known: "\<forall>x \<in> set als. bids_by_id bids (al_bid_id x) \<noteq> None" by (simp add: allocation_allowed_def)
  obtain l b where lb: "lots_by_id (auc_lots a) (al_lot_id al) = Some l" "bids_by_id bids (al_bid_id al) = Some b"
    using allowed al by (auto simp: allocation_allowed_def)
  have tal: "tallied al_lot_id al_notional cur als (vt_lots t)" "tallied al_bid_id al_price cur als (vt_bids t)"
    "tallied (group_key U a (issuer_text U)) al_price cur als (vt_issuers t)"
    "tallied (group_key U a lot_debtor_ref) al_price cur als (vt_debtors t)"
    "tallied (group_key U a lot_grade) al_price cur als (vt_grades t)"
    using pre unfolding verified_prefix_def by blast+
  have "keyed_sum al_lot_id al_notional als (al_lot_id al) \<le> minor (lot_supply l)"
    using fold_result_all [OF stock [unfolded split_def] tallied_lookup [OF tal(1) al]] lb
    by (simp add: check_limit_Inr)
  moreover have "keyed_sum al_bid_id al_price als (al_bid_id al) \<le> minor (bid_budget b)"
    using fold_result_all [OF budget [unfolded split_def] tallied_lookup [OF tal(2) al]] lb
    by (simp add: check_limit_Inr)
  moreover have "at_most (exposure lot_debtor_ref a als al) (debtor_limit D b)"
    using verify_exposure_bound [OF U debtor tal(4) al known] lb by (simp add: exposure_def bid_of_def)
  moreover have "exposure (issuer_text U) a als al = exposure lot_issuer_id a als al"
    unfolding exposure_def by (rule keyed_sum_cong) (simp add: issuer_text_def uuid_lib.uuid_string_inj [OF U])
  then have "at_most (exposure lot_issuer_id a als al) (issuer_limit D b)"
    using verify_exposure_bound [OF U issuer tal(3) al known] lb by (simp add: exposure_def bid_of_def)
  moreover have "at_most (exposure lot_grade a als al) (grade_limit D b (lot_grade l))"
    using verify_exposure_bound [OF U grade tal(5) al known] lb
    by (auto simp: exposure_def bid_of_def lot_of_def at_most_def parse_grade_def split: if_splits)
  ultimately show ?thesis using lb by (simp add: allocation_in_limits_def lot_of_def bid_of_def)
qed

lemma verified_pairs:
  assumes "verified_prefix D U P a bids cur als t"
  shows "distinct (map (\<lambda>al. (al_lot_id al, al_bid_id al)) als)"
proof -
  have "map (pair_key U) als = map (\<lambda>(x, y). uuid_string U x @ ''/'' @ uuid_string U y)
      (map (\<lambda>al. (al_lot_id al, al_bid_id al)) als)"
    by (simp add: pair_key_def)
  moreover have "distinct (map (pair_key U) als)" using assms by (simp add: verified_prefix_def)
  ultimately have "distinct (map (\<lambda>(x, y). uuid_string U x @ ''/'' @ uuid_string U y)
      (map (\<lambda>al. (al_lot_id al, al_bid_id al)) als))" by (simp only:)
  then show ?thesis by (rule distinct_map [THEN iffD1, THEN conjunct1])
qed

lemma verified_rejections:
  assumes "verified_prefix D U P a bids cur als t" and "fold_result (verify_rejection (vt_bids t)) rs () = Inr ()"
    and "r \<in> set rs"
  shows "rj_constraint r \<noteq> None \<and> rj_bid_id r \<notin> al_bid_id ` set als"
proof -
  have "verify_rejection (vt_bids t) r () = Inr ()" using fold_result_all [OF assms(2,3)] .
  then have "map_of (vt_bids t) (rj_bid_id r) = None" "rj_constraint r \<noteq> None"
    by (auto simp: verify_rejection_def split: if_splits)
  moreover have "tallied al_bid_id al_price cur als (vt_bids t)" using assms(1) by (simp add: verified_prefix_def)
  ultimately show ?thesis by (auto simp: tallied_def split: if_splits)
qed

text \<open>C5: A solution the verifier accepts is feasible: every allocation takes a lot of the batch for an
  active bid that may take it, at the price the lot asks; no pair appears twice; no lot allocates more than its
  supply; no bid spends more than its budget or more than its limit on an issuer, a debtor or a grade; the
  totals and the objective are the sums over the allocations; and no rejected bid received anything.\<close>

theorem verify_sound:
  assumes "uuid_lib U" and "verify D U (Some a) bids (Some s) P = Inr ()"
    and "\<forall>al \<in> set (sol_allocations s). in64 (minor (al_notional al)) \<and> in64 (minor (al_price al))"
  shows "solution_ok D P a bids s"
proof -
  let ?als = "sol_allocations s" and ?lots = "lots_by_id (auc_lots a)" and ?bids = "bids_by_id bids"
  obtain cur zero t where start: "auc_currency a = Inr cur" "amount_zero cur = Inr zero"
    and loop: "fold_result (verify_allocation D U P ?lots ?bids cur) (enumerate 0 ?als)
      \<lparr>vt_pairs = [], vt_lots = [], vt_bids = [], vt_issuers = [], vt_debtors = [],
       vt_grades = [], vt_notional = zero, vt_cash = zero, vt_objective = 0\<rparr> = Inr t"
    and stock: "fold_result (\<lambda>(i, spent) _. case ?lots i of
      None \<Rightarrow> Inl Verification | Some l \<Rightarrow> check_limit spent (Inr (lot_supply l))) (vt_lots t) () = Inr ()"
    and budget: "fold_result (\<lambda>(i, spent) _. case ?bids i of
      None \<Rightarrow> Inl Panic | Some b \<Rightarrow> check_limit spent (Inr (bid_budget b))) (vt_bids t) () = Inr ()"
    and issuer: "verify_exposure U (vt_issuers t) ?bids (\<lambda>b _. issuer_limit D b) = Inr ()"
    and debtor: "verify_exposure U (vt_debtors t) ?bids (\<lambda>b _. debtor_limit D b) = Inr ()"
    and grade: "verify_exposure U (vt_grades t) ?bids
      (\<lambda>b g. and_then (parse_grade g) (grade_limit D b)) = Inr ()"
    and totals: "sol_auction_id s = auc_id a" "amount_equal (vt_notional t) (sol_total_notional s)"
      "amount_equal (vt_cash t) (sol_total_cash s)" "vt_objective t = sol_objective s"
    and rejected: "fold_result (verify_rejection (vt_bids t)) (sol_rejections s) () = Inr ()"
    using assms(2) by (auto simp: verify_def Let_def result_simps)
  have "verified_prefix D U P a bids cur ([] @ ?als) t"
  proof (rule fold_enumerate_invariant [OF loop])
    show "verified_prefix D U P a bids cur [] \<lparr>vt_pairs = [], vt_lots = [], vt_bids = [], vt_issuers = [],
       vt_debtors = [], vt_grades = [], vt_notional = zero, vt_cash = zero, vt_objective = 0\<rparr>"
      using start(2) by (auto simp: verified_prefix_def tallied_Nil result_simps in64_def min64_def max64_def
        wrap64_def)
  qed (use assms(3) in \<open>auto intro: verify_allocation_prefix\<close>)
  then have pre: "verified_prefix D U P a bids cur ?als t" by simp
  show ?thesis
    using pre verified_in_limits [OF assms(1) pre _ stock budget issuer debtor grade] verified_pairs [OF pre]
      verified_rejections [OF pre rejected] totals
    by (simp add: solution_ok_def verified_prefix_def amount_equal_def list_all_iff)
qed

definition sample_bid :: "rat bid" where
  "sample_bid = \<lparr>bid_id = 7, bid_auction_id = 5, bid_investor_id = 8,
     bid_budget = \<lparr>minor = 50000, currency = ''USD''\<rparr>, bid_min_yield = 5 / 100, bid_max_grade = ''C'',
     bid_max_tenor_days = 90, bid_minimum_lot = \<lparr>minor = 0, currency = ''USD''\<rparr>,
     bid_max_issuer_share = 0, bid_max_debtor_share = 1 / 2, bid_max_grade_share = [(''B'', 1 / 2)],
     bid_status = BidActive, bid_created_at = 11, bid_version = 1\<rparr>"

definition sample_params :: "rat solver_params" where
  "sample_params = \<lparr>sp_surplus_weight = 1, sp_funding_weight = 1 / 100, sp_risk_penalty = 2 / 1000,
     sp_max_augmentations = 9, sp_max_relaxed_solves = 4, sp_max_edges_per_bid = 4,
     sp_edge_prune_threshold = 9, sp_max_branch_nodes = 4, sp_max_repair_rounds = 4\<rparr>"

definition sample_solution :: solution where
  "sample_solution = \<lparr>sol_auction_id = 5, sol_solver_version = ''solver-v1'',
     sol_allocations = [\<lparr>al_lot_id = 1, al_invoice_id = 2, al_asset_id = 3, al_bid_id = 7, al_investor_id = 8,
       al_notional = \<lparr>minor = 20000, currency = ''USD''\<rparr>, al_price = \<lparr>minor = 19200, currency = ''USD''\<rparr>,
       al_rank = 0\<rparr>],
     sol_rejections = [], sol_objective = 19200 * 211472,
     sol_total_notional = \<lparr>minor = 20000, currency = ''USD''\<rparr>,
     sol_total_cash = \<lparr>minor = 19200, currency = ''USD''\<rparr>, sol_branch_nodes = 1, sol_repair_rounds = 0,
     sol_limit_reached = False, sol_certificate_hash = [], sol_verified = False\<rparr>"

lemma sample_verifies:
  "verify rat_decimal rfc_uuid (Some sample_auction) [Some sample_bid, None] (Some sample_solution)
    sample_params = Inr ()"
  by code_simp

theorem verify_sound_witness:
  "solution_ok rat_decimal sample_params sample_auction [Some sample_bid, None] sample_solution"
  by (rule verify_sound [OF rfc.uuid_lib_axioms sample_verifies])
    (simp add: sample_solution_def in64_def min64_def max64_def)

end
