(* ===== verification/Certificate.thy ===== *)
theory Certificate
  imports Verifier
begin

text \<open>
  \<^verbatim>\<open>internal/auction/certificate.go\<close>: the canonical text of a clearing and its hash.
  The text is a header and one record per lot, bid, allocation and rejection, in published order; two
  control characters separate fields and records. SHA-256 is the argument \<open>H\<close>, of which nothing
  is assumed: equal certificates mean equal contents or a collision.
\<close>

section \<open>The canonical text\<close>

definition certificate_format :: string where
  "certificate_format = ''factorflow-allocation-certificate/v1''"

definition field_sep :: char where "field_sep = CHR 0x1F"

definition record_sep :: char where "record_sep = CHR 0x1E"

definition write_fields :: "string list \<Rightarrow> string" where
  "write_fields fs = concat (map (\<lambda>f. field_sep # f) fs)"

definition param_fields :: "'d decimal_ops \<Rightarrow> 'd solver_params \<Rightarrow> string list" where
  "param_fields D P =
    [rate_string_fixed D (sp_surplus_weight P) rate_scale,
     rate_string_fixed D (sp_funding_weight P) rate_scale,
     rate_string_fixed D (sp_risk_penalty P) rate_scale,
     int_dec (int (sp_max_augmentations P)), int_dec (int (sp_max_branch_nodes P)),
     int_dec (int (sp_max_repair_rounds P))]"

definition lot_before :: "uuid_ops \<Rightarrow> lot \<Rightarrow> lot \<Rightarrow> bool" where
  "lot_before U x y =
    (if lot_invoice_id x \<noteq> lot_invoice_id y
     then uuid_string U (lot_invoice_id x) < uuid_string U (lot_invoice_id y)
     else uuid_string U (lot_id x) < uuid_string U (lot_id y))"

definition lot_fields :: "uuid_ops \<Rightarrow> lot \<Rightarrow> string list" where
  "lot_fields U l =
    [uuid_string U (lot_id l), uuid_string U (lot_invoice_id l), uuid_string U (lot_asset_id l),
     uuid_string U (lot_issuer_id l), lot_debtor_ref l, int_dec (minor (lot_supply l)),
     int_dec (minor (lot_reserve_price l)), currency (lot_supply l), lot_grade l,
     int_dec (lot_tenor_days l)]"

definition bid_before :: "uuid_ops \<Rightarrow> 'd bid \<Rightarrow> 'd bid \<Rightarrow> bool" where
  "bid_before U x y =
    (if bid_created_at x \<noteq> bid_created_at y then bid_created_at x < bid_created_at y
     else uuid_string U (bid_id x) < uuid_string U (bid_id y))"

text \<open>The grade limits in grade order, whatever the iteration order of the map.\<close>

definition grade_shares :: "'d decimal_ops \<Rightarrow> 'd bid \<Rightarrow> string" where
  "grade_shares D b =
    (if bid_max_grade_share b = [] then []
     else join_strings '',''
       (map (\<lambda>(g, share). g @ ''='' @ rate_string_fixed D share rate_scale)
         (sort_by (\<lambda>x y. fst x < fst y) (bid_max_grade_share b))))"

definition bid_fields :: "'d decimal_ops \<Rightarrow> uuid_ops \<Rightarrow> 'd bid \<Rightarrow> string list" where
  "bid_fields D U b =
    [uuid_string U (bid_id b), uuid_string U (bid_investor_id b), int_dec (minor (bid_budget b)),
     currency (bid_budget b), rate_string_fixed D (bid_min_yield b) rate_scale, bid_max_grade b,
     int_dec (bid_max_tenor_days b), int_dec (minor (bid_minimum_lot b)),
     rate_string_fixed D (bid_max_issuer_share b) rate_scale,
     rate_string_fixed D (bid_max_debtor_share b) rate_scale,
     grade_shares D b, bid_status_string (bid_status b)]"

definition allocation_fields :: "uuid_ops \<Rightarrow> allocation \<Rightarrow> string list" where
  "allocation_fields U al =
    [int_dec (al_rank al), uuid_string U (al_lot_id al), uuid_string U (al_bid_id al),
     int_dec (minor (al_notional al)), int_dec (minor (al_price al))]"

definition rejection_fields :: "uuid_ops \<Rightarrow> rejection \<Rightarrow> string list" where
  "rejection_fields U r =
    [uuid_string U (rj_bid_id r), uuid_string U (rj_lot_id r),
     (case rj_constraint r of None \<Rightarrow> [] | Some c \<Rightarrow> constraint_string c)]"

definition result_fields :: "solution \<Rightarrow> string list" where
  "result_fields s =
    [int_dec (sol_objective s), int_dec (minor (sol_total_notional s)), int_dec (minor (sol_total_cash s))]"

definition write_record :: "string \<Rightarrow> string list \<Rightarrow> string" where
  "write_record tag fs = record_sep # tag @ write_fields fs"

definition certificate_text ::
  "'d decimal_ops \<Rightarrow> uuid_ops \<Rightarrow> auction \<Rightarrow> 'd bid list \<Rightarrow> solution \<Rightarrow> 'd solver_params \<Rightarrow> string" where
  "certificate_text D U a bids s P =
    certificate_format @ field_sep # uuid_string U (auc_id a) @ field_sep # sol_solver_version s
    @ write_fields (param_fields D P)
    @ concat (map (\<lambda>l. write_record ''lot'' (lot_fields U l)) (sort_by (lot_before U) (auc_lots a)))
    @ concat (map (\<lambda>b. write_record ''bid'' (bid_fields D U b)) (sort_by (bid_before U) bids))
    @ concat (map (\<lambda>al. write_record ''allocation'' (allocation_fields U al)) (sol_allocations s))
    @ concat (map (\<lambda>r. write_record ''rejection'' (rejection_fields U r))
        (sort_by (\<lambda>x y. uuid_string U (rj_bid_id x) < uuid_string U (rj_bid_id y)) (sol_rejections s)))
    @ write_record ''result'' (result_fields s)"

definition certificate ::
  "(string \<Rightarrow> string) \<Rightarrow> 'd decimal_ops \<Rightarrow> uuid_ops \<Rightarrow> auction \<Rightarrow> 'd bid list \<Rightarrow> solution \<Rightarrow>
    'd solver_params \<Rightarrow> string" where
  "certificate H D U a bids s P = ''0x'' @ hex_encode (H (certificate_text D U a bids s P))"

section \<open>Canonical order\<close>

text \<open>
  Bids are ordered whatever the identifiers print as; lots are, because an identifier is determined by
  its text. Where no two elements share a key the order of the input does not matter.
\<close>

interpretation bid_order: sort_order "bid_before U" for U :: uuid_ops
  unfolding bid_before_def by (rule sort_order_lex)

interpretation grade_order: sort_order "\<lambda>x y. fst x < (fst y :: string)"
  by (rule sort_order_key)

interpretation rejection_order: sort_order "\<lambda>x y. uuid_string U (rj_bid_id x) < uuid_string U (rj_bid_id y)" for U
  by (rule sort_order_key)

lemma lot_before_lex:
  assumes "uuid_lib U"
  shows "lot_before U = (\<lambda>x y.
    if uuid_string U (lot_invoice_id x) \<noteq> uuid_string U (lot_invoice_id y)
    then uuid_string U (lot_invoice_id x) < uuid_string U (lot_invoice_id y)
    else uuid_string U (lot_id x) < uuid_string U (lot_id y))"
  by (intro ext) (simp add: lot_before_def uuid_lib.uuid_string_inj [OF assms])

sublocale uuid_lib \<subseteq> lot_order: sort_order "lot_before U"
  unfolding lot_before_lex [OF uuid_lib_axioms] by (rule sort_order_lex)

context uuid_lib
begin

lemma sorted_lots_unique:
  assumes "mset ls = mset ls'" and "distinct (map lot_id ls)"
  shows "sort_by (lot_before U) ls = sort_by (lot_before U) ls'"
proof (rule lot_order.sort_by_cong [OF assms(1)])
  fix x y assume "x \<in> set ls" "y \<in> set ls" "\<not> lot_before U x y" "\<not> lot_before U y x"
  then have "lot_id x = lot_id y"
    using uuid_string_inj by (auto simp: lot_before_def not_less split: if_splits)
  then show "x = y" using \<open>x \<in> set ls\<close> \<open>y \<in> set ls\<close> assms(2) by (simp add: eq_key_imp_eq_value distinct_map inj_on_def)
qed

lemma sorted_bids_unique:
  assumes "mset bs = mset bs'" and "distinct (map bid_id bs)"
  shows "sort_by (bid_before U) bs = sort_by (bid_before U) bs'"
proof (rule bid_order.sort_by_cong [OF assms(1)])
  fix x y assume "x \<in> set bs" "y \<in> set bs" "\<not> bid_before U x y" "\<not> bid_before U y x"
  then have "bid_id x = bid_id y"
    using uuid_string_inj by (auto simp: bid_before_def not_less split: if_splits)
  then show "x = y" using \<open>x \<in> set bs\<close> \<open>y \<in> set bs\<close> assms(2) by (simp add: distinct_map inj_on_def)
qed

end

section \<open>Reading the text back\<close>

definition sep_free :: "string \<Rightarrow> bool" where
  "sep_free s \<longleftrightarrow> field_sep \<notin> set s \<and> record_sep \<notin> set s"

lemma join_strings_Cons: "join_strings sep (x # xs) = x @ concat (map (\<lambda>y. sep @ y) xs)"
proof (induction xs arbitrary: x)
  case Nil
  then show ?case by simp
next
  case (Cons y ys)
  show ?case using Cons [of y] by simp
qed

lemma set_join_strings: "set (join_strings sep ss) \<subseteq> set sep \<union> \<Union> (set ` set ss)"
  by (cases ss) (auto simp: join_strings_Cons)

lemma join_sep_inj:
  assumes "ss \<noteq> []" and "ts \<noteq> []" and "\<forall>s \<in> set ss \<union> set ts. c \<notin> set s"
    and "join_strings [c] ss = join_strings [c] ts"
  shows "ss = ts"
  using assms
proof (induction ss arbitrary: ts rule: list_nonempty_induct)
  case (single x)
  then obtain y ys where ts: "ts = y # ys" by (cases ts) auto
  show ?case
  proof (cases ys)
    case Nil
    then show ?thesis using single ts by simp
  next
    case (Cons z zs)
    then have "c \<in> set x" using single ts by auto
    then show ?thesis using single by simp
  qed
next
  case (cons x xs)
  obtain x' xs' where xs: "xs = x' # xs'" using cons.hyps by (cases xs) auto
  obtain y ys where ts: "ts = y # ys" using cons.prems(1) by (cases ts) auto
  show ?case
  proof (cases ys)
    case Nil
    then have "c \<in> set y" using cons.prems(3) ts xs by (simp, metis in_set_conv_decomp)
    then show ?thesis using cons.prems(2) ts by simp
  next
    case (Cons z zs)
    then have "x @ c # join_strings [c] xs = y @ c # join_strings [c] ys"
      using cons.prems(3) ts xs by simp
    then have "x = y" "join_strings [c] xs = join_strings [c] ys"
      using cons.prems(2) ts by (simp_all add: split_at_char)
    then show ?thesis using cons.IH [of ys] cons.prems(2) ts Cons by simp
  qed
qed

lemma sep_freeI: "(\<And>c. c \<in> set s \<Longrightarrow> CHR '' '' \<le> c) \<Longrightarrow> sep_free s"
  by (force simp: sep_free_def field_sep_def record_sep_def less_eq_char_def)

lemma digit_printable:
  "c = CHR ''-'' \<or> c = CHR ''.'' \<or> (CHR ''0'' \<le> c \<and> c \<le> CHR ''9'') \<Longrightarrow> CHR '' '' \<le> c"
  by (auto simp: less_eq_char_def)

lemma sep_free_text [simp]: "sep_free (int_dec x)" "sep_free (fixed_text n p)" "sep_free []"
  "sep_free (constraint_string k)" "sep_free (bid_status_string st)"
proof -
  show "sep_free (int_dec x)"
    by (rule sep_freeI, rule digit_printable) (use int_dec_chars in blast)
  show "sep_free (fixed_text n p)"
    by (rule sep_freeI, rule digit_printable) (rule fixed_text_chars)
  show "sep_free []" by (simp add: sep_free_def)
  show "sep_free (constraint_string k)" by (cases k) (simp_all add: sep_free_def field_sep_def record_sep_def)
  show "sep_free (bid_status_string st)" by (cases st) (simp_all add: sep_free_def field_sep_def record_sep_def)
qed

lemma sep_free_append [simp]: "sep_free (s @ t) \<longleftrightarrow> sep_free s \<and> sep_free t"
  by (auto simp: sep_free_def)

lemma sep_free_Cons: "sep_free (c # s) \<longleftrightarrow> c \<noteq> CHR 0x1F \<and> c \<noteq> CHR 0x1E \<and> sep_free s"
  by (auto simp: sep_free_def field_sep_def record_sep_def)

lemma sep_free_uuid:
  assumes "uuid_lib U" shows "sep_free (uuid_string U x)"
proof (rule sep_freeI)
  fix c assume "c \<in> set (uuid_string U x)"
  from uuid_lib.uuid_string_chars [OF assms this] show "CHR '' '' \<le> c"
    by (auto simp: lower_hex_char_def less_eq_char_def)
qed

lemma sep_free_rate: "decimal_lib D val \<Longrightarrow> sep_free (rate_string_fixed D r rate_scale)"
  by (simp add: rate_string_fixed_def rate_scale_def decimal_lib.string_fixed)

text \<open>What the code relies on: the two control characters occur in no grade, reference or version.\<close>

definition lot_printable :: "lot \<Rightarrow> bool" where
  "lot_printable l \<longleftrightarrow> sep_free (lot_debtor_ref l) \<and> sep_free (currency (lot_supply l)) \<and> sep_free (lot_grade l)"

definition bid_printable :: "'d bid \<Rightarrow> bool" where
  "bid_printable b \<longleftrightarrow> sep_free (currency (bid_budget b)) \<and> sep_free (bid_max_grade b) \<and>
     list_all (\<lambda>gs. sep_free (fst gs)) (bid_max_grade_share b)"

definition certificate_rows ::
  "'d decimal_ops \<Rightarrow> uuid_ops \<Rightarrow> auction \<Rightarrow> 'd bid list \<Rightarrow> solution \<Rightarrow> 'd solver_params \<Rightarrow> string list list" where
  "certificate_rows D U a bids s P =
    ([certificate_format, uuid_string U (auc_id a), sol_solver_version s] @ param_fields D P)
    # map (\<lambda>l. ''lot'' # lot_fields U l) (sort_by (lot_before U) (auc_lots a))
    @ map (\<lambda>b. ''bid'' # bid_fields D U b) (sort_by (bid_before U) bids)
    @ map (\<lambda>al. ''allocation'' # allocation_fields U al) (sol_allocations s)
    @ map (\<lambda>r. ''rejection'' # rejection_fields U r)
        (sort_by (\<lambda>x y. uuid_string U (rj_bid_id x) < uuid_string U (rj_bid_id y)) (sol_rejections s))
    @ [''result'' # result_fields s]"

lemma certificate_text_rows:
  "certificate_text D U a bids s P =
    join_strings [record_sep] (map (join_strings [field_sep]) (certificate_rows D U a bids s P))"
  by (simp add: certificate_text_def certificate_rows_def join_strings_Cons write_fields_def
      write_record_def comp_def)

lemma certificate_rows_free:
  assumes U: "uuid_lib U" and D: "decimal_lib D val"
    and print: "list_all lot_printable (auc_lots a)" "list_all bid_printable bids" "sep_free (sol_solver_version s)"
    and row: "row \<in> set (certificate_rows D U a bids s P)"
  shows "row \<noteq> [] \<and> (\<forall>f \<in> set row. sep_free f)"
proof -
  have tags: "sep_free certificate_format" "sep_free ''lot''" "sep_free ''bid''" "sep_free ''allocation''"
    "sep_free ''rejection''" "sep_free ''result''"
    by (simp_all add: sep_free_def field_sep_def record_sep_def certificate_format_def)
  have "sep_free (grade_shares D b)" if "b \<in> set bids" for b
  proof -
    have "\<forall>gs \<in> set (sort_by (\<lambda>x y. fst x < fst y) (bid_max_grade_share b)).
        sep_free (fst gs @ ''='' @ rate_string_fixed D (snd gs) rate_scale)"
      using print(2) that sep_free_rate [OF D]
      by (simp add: list_all_iff bid_printable_def sep_free_Cons)
    then show ?thesis
      using set_join_strings [of "'',''" "map (\<lambda>(g, share). g @ ''='' @ rate_string_fixed D share rate_scale)
        (sort_by (\<lambda>x y. fst x < fst y) (bid_max_grade_share b))"]
      by (auto simp: grade_shares_def sep_free_def field_sep_def record_sep_def split_def)
  qed
  then have bid: "\<forall>f \<in> set (bid_fields D U b). sep_free f" if "b \<in> set bids" for b
    using that print(2) sep_free_rate [OF D] sep_free_uuid [OF U]
    by (auto simp: bid_fields_def list_all_iff bid_printable_def)
  have lot: "\<forall>f \<in> set (lot_fields U l). sep_free f" if "l \<in> set (auc_lots a)" for l
    using that print(1) sep_free_uuid [OF U] by (auto simp: lot_fields_def list_all_iff lot_printable_def)
  have rest: "\<forall>f \<in> set (param_fields D P). sep_free f" "\<forall>f \<in> set (result_fields s). sep_free f"
    "\<And>al. \<forall>f \<in> set (allocation_fields U al). sep_free f" "\<And>r. \<forall>f \<in> set (rejection_fields U r). sep_free f"
    using sep_free_rate [OF D] sep_free_uuid [OF U]
    by (auto simp: param_fields_def allocation_fields_def rejection_fields_def result_fields_def
        split: option.splits)
  then show ?thesis
    using row tags bid lot print(3) sep_free_uuid [OF U]
    by (auto simp: certificate_rows_def)
qed

lemma certificate_text_inj:
  assumes U: "uuid_lib U" and D: "decimal_lib D val"
    and "list_all lot_printable (auc_lots a)" "list_all bid_printable bids" "sep_free (sol_solver_version s)"
    and "list_all lot_printable (auc_lots a')" "list_all bid_printable bids'" "sep_free (sol_solver_version s')"
    and "certificate_text D U a bids s P = certificate_text D U a' bids' s' P'"
  shows "certificate_rows D U a bids s P = certificate_rows D U a' bids' s' P'"
proof -
  let ?r = "certificate_rows D U a bids s P" and ?r' = "certificate_rows D U a' bids' s' P'"
  have free: "\<forall>row \<in> set ?r \<union> set ?r'. row \<noteq> [] \<and> (\<forall>f \<in> set row. sep_free f)"
    using certificate_rows_free [OF U D assms(3-5)] certificate_rows_free [OF U D assms(6-8)] by blast
  have "map (join_strings [field_sep]) ?r = map (join_strings [field_sep]) ?r'"
  proof (rule join_sep_inj)
    have "record_sep \<notin> set (join_strings [field_sep] row)" if "\<forall>f \<in> set row. sep_free f" for row
      using that set_join_strings [of "[field_sep]" row]
      by (auto simp: sep_free_def record_sep_def field_sep_def)
    then show "\<forall>s \<in> set (map (join_strings [field_sep]) ?r) \<union> set (map (join_strings [field_sep]) ?r').
        record_sep \<notin> set s" using free by auto
  qed (use assms(9) in \<open>simp_all add: certificate_text_rows certificate_rows_def\<close>)
  moreover have "inj_on (join_strings [field_sep]) (set ?r \<union> set ?r')"
  proof (rule inj_onI)
    fix x y assume xy: "x \<in> set ?r \<union> set ?r'" "y \<in> set ?r \<union> set ?r'"
      "join_strings [field_sep] x = join_strings [field_sep] y"
    have "x \<noteq> []" "y \<noteq> []" using free xy(1,2) by blast+
    moreover have "\<forall>s \<in> set x \<union> set y. field_sep \<notin> set s"
      using free xy(1,2) by (auto simp: sep_free_def)
    ultimately show "x = y" using xy(3) by (rule join_sep_inj)
  qed
  ultimately show ?thesis by (simp add: inj_on_map_eq_map)
qed

section \<open>What a certificate determines\<close>

definition lot_terms where
  "lot_terms l = (lot_id l, lot_invoice_id l, lot_asset_id l, lot_issuer_id l, lot_debtor_ref l,
     minor (lot_supply l), minor (lot_reserve_price l), currency (lot_supply l), lot_grade l, lot_tenor_days l)"

definition bid_terms where
  "bid_terms b = (bid_id b, bid_investor_id b, minor (bid_budget b), currency (bid_budget b), bid_max_grade b, bid_max_tenor_days b,
     minor (bid_minimum_lot b), bid_status b)"

definition allocation_terms where
  "allocation_terms al = (al_rank al, al_lot_id al, al_bid_id al, minor (al_notional al), minor (al_price al))"

lemma bid_status_string_eq: "bid_status_string x = bid_status_string y \<longleftrightarrow> x = y"
  by (cases x; cases y) simp_all

lemma int_dec_eq: "int_dec x = int_dec y \<longleftrightarrow> x = y"
  using int_dec_inj by blast

lemma field_terms:
  assumes "uuid_lib U"
  shows "lot_fields U l = lot_fields U l' \<Longrightarrow> lot_terms l = lot_terms l'"
    and "bid_fields D U b = bid_fields D U b' \<Longrightarrow> bid_terms b = bid_terms b'"
    and "allocation_fields U x = allocation_fields U x' \<Longrightarrow> allocation_terms x = allocation_terms x'"
  by (simp_all add: lot_fields_def lot_terms_def bid_fields_def bid_terms_def allocation_fields_def
      allocation_terms_def int_dec_eq bid_status_string_eq uuid_lib.uuid_string_inj [OF assms])

lemma map_fields_terms:
  assumes "map f xs = map f ys" and "\<And>x y. f x = f y \<Longrightarrow> g x = g y"
  shows "map g xs = map g ys"
  using assms(1)
proof (induction xs arbitrary: ys)
  case Nil
  then show ?case by simp
next
  case (Cons x xs)
  then obtain y ys' where ys: "ys = y # ys'" "f x = f y" "map f xs = map f ys'" by (cases ys) auto
  then show ?case using Cons.IH [OF ys(3)] assms(2) [OF ys(2)] by simp
qed

lemma certificate_rows_tagged:
  shows "filter (\<lambda>r. hd r = ''lot'') (certificate_rows D U a bids s P) =
      map (\<lambda>l. ''lot'' # lot_fields U l) (sort_by (lot_before U) (auc_lots a))"
    and "filter (\<lambda>r. hd r = ''bid'') (certificate_rows D U a bids s P) =
      map (\<lambda>b. ''bid'' # bid_fields D U b) (sort_by (bid_before U) bids)"
    and "filter (\<lambda>r. hd r = ''allocation'') (certificate_rows D U a bids s P) =
      map (\<lambda>al. ''allocation'' # allocation_fields U al) (sol_allocations s)"
    and "filter (\<lambda>r. hd r = ''result'') (certificate_rows D U a bids s P) = [''result'' # result_fields s]"
    and "hd (certificate_rows D U a bids s P) =
      [certificate_format, uuid_string U (auc_id a), sol_solver_version s] @ param_fields D P"
  by (simp_all add: certificate_rows_def certificate_format_def filter_map comp_def)

lemma certificate_rows_terms:
  assumes U: "uuid_lib U"
    and rows: "certificate_rows D U a bids s P = certificate_rows D U a' bids' s' P'"
  shows "auc_id a = auc_id a'" and "sol_solver_version s = sol_solver_version s'"
    and "mset (map lot_terms (auc_lots a)) = mset (map lot_terms (auc_lots a'))"
    and "mset (map bid_terms bids) = mset (map bid_terms bids')"
    and "map allocation_terms (sol_allocations s) = map allocation_terms (sol_allocations s')"
    and "sol_objective s = sol_objective s'"
    and "minor (sol_total_notional s) = minor (sol_total_notional s')"
    and "minor (sol_total_cash s) = minor (sol_total_cash s')"
proof -
  note tagged = certificate_rows_tagged [where D = D and U = U]
  have heads: "hd (certificate_rows D U a bids s P) = hd (certificate_rows D U a' bids' s' P')"
    by (simp only: rows)
  then show "auc_id a = auc_id a'" "sol_solver_version s = sol_solver_version s'"
    using uuid_lib.uuid_string_inj [OF U] by (simp_all add: tagged(5))
  have part: "filter Q (certificate_rows D U a bids s P) = filter Q (certificate_rows D U a' bids' s' P')" for Q
    by (simp only: rows)
  have "map lot_terms (sort_by (lot_before U) (auc_lots a)) = map lot_terms (sort_by (lot_before U) (auc_lots a'))"
    using part [of "\<lambda>r. hd r = ''lot''"] unfolding tagged(1)
    by (rule map_fields_terms) (rule field_terms(1) [OF U], simp)
  from arg_cong [OF this, of mset]
  show "mset (map lot_terms (auc_lots a)) = mset (map lot_terms (auc_lots a'))" by simp
  have "map bid_terms (sort_by (bid_before U) bids) = map bid_terms (sort_by (bid_before U) bids')"
    using part [of "\<lambda>r. hd r = ''bid''"] unfolding tagged(2)
    by (rule map_fields_terms) (rule field_terms(2) [OF U], simp)
  from arg_cong [OF this, of mset]
  show "mset (map bid_terms bids) = mset (map bid_terms bids')" by simp
  show "map allocation_terms (sol_allocations s) = map allocation_terms (sol_allocations s')"
    using part [of "\<lambda>r. hd r = ''allocation''"] unfolding tagged(3)
    by (rule map_fields_terms) (rule field_terms(3) [OF U], simp)
  show "sol_objective s = sol_objective s'" "minor (sol_total_notional s) = minor (sol_total_notional s')"
    "minor (sol_total_cash s) = minor (sol_total_cash s')"
    using part [of "\<lambda>r. hd r = ''result''"] unfolding tagged(4)
    by (simp_all add: result_fields_def int_dec_eq)
qed

text \<open>The certificate does not depend on the order in which lots, bids and rejections are presented:
  the same batch with the same allocations always hashes to the same certificate.\<close>

theorem certificate_order_independent:
  assumes "uuid_lib U" and "mset (auc_lots a') = mset (auc_lots a)" and "distinct (map lot_id (auc_lots a))"
    and "mset bids' = mset bids" and "distinct (map bid_id bids)"
    and "mset rejections = mset (sol_rejections s)" and "distinct (map rj_bid_id (sol_rejections s))"
    and "auc_id a' = auc_id a"
  shows "certificate H D U a' bids' (s\<lparr>sol_rejections := rejections\<rparr>) P = certificate H D U a bids s P"
proof -
  have "sort_by (\<lambda>x y. uuid_string U (rj_bid_id x) < uuid_string U (rj_bid_id y)) (sol_rejections s) =
      sort_by (\<lambda>x y. uuid_string U (rj_bid_id x) < uuid_string U (rj_bid_id y)) rejections"
  proof (rule rejection_order.sort_by_cong)
    fix x y assume "x \<in> set (sol_rejections s)" "y \<in> set (sol_rejections s)"
      "\<not> uuid_string U (rj_bid_id x) < uuid_string U (rj_bid_id y)"
      "\<not> uuid_string U (rj_bid_id y) < uuid_string U (rj_bid_id x)"
    then show "x = y"
      using assms(7) uuid_lib.uuid_string_inj [OF assms(1)] by (auto simp: distinct_map inj_on_def not_less)
  qed (simp add: assms(6))
  then show ?thesis
    using uuid_lib.sorted_lots_unique [OF assms(1) assms(2) [symmetric] assms(3)]
      uuid_lib.sorted_bids_unique [OF assms(1) assms(4) [symmetric] assms(5)] assms(8)
    by (simp add: certificate_def certificate_text_def result_fields_def)
qed


theorem certificate_order_independent_witness:
  "certificate id rat_decimal rfc_uuid (sample_auction\<lparr>auc_lots := [sample_lot\<lparr>lot_id := 9\<rparr>, sample_lot]\<rparr>)
     [sample_bid\<lparr>bid_id := 9\<rparr>, sample_bid] sample_solution sample_params =
   certificate id rat_decimal rfc_uuid (sample_auction\<lparr>auc_lots := [sample_lot, sample_lot\<lparr>lot_id := 9\<rparr>]\<rparr>)
     [sample_bid, sample_bid\<lparr>bid_id := 9\<rparr>] sample_solution sample_params"
  using certificate_order_independent [OF rfc.uuid_lib_axioms,
      where a = "sample_auction\<lparr>auc_lots := [sample_lot, sample_lot\<lparr>lot_id := 9\<rparr>]\<rparr>"
        and a' = "sample_auction\<lparr>auc_lots := [sample_lot\<lparr>lot_id := 9\<rparr>, sample_lot]\<rparr>"
        and bids = "[sample_bid, sample_bid\<lparr>bid_id := 9\<rparr>]" and bids' = "[sample_bid\<lparr>bid_id := 9\<rparr>, sample_bid]"
        and s = sample_solution and rejections = "[]"]
  by (simp add: sample_lot_def sample_bid_def sample_solution_def)


text \<open>
  The comment on the separators says they cannot appear in a debtor reference. \<^verbatim>\<open>Lot.Validate\<close>
  only refuses a blank one: a reference that spells out the rest of its own record and the start of another gives
  one lot the certificate of two.
\<close>

definition second_lot :: lot where
  "second_lot = sample_lot\<lparr>lot_id := 9, lot_asset_id := 10\<rparr>"

definition forged_lot :: lot where
  "forged_lot = sample_lot\<lparr>lot_debtor_ref :=
     ''acme'' @ write_fields (drop 5 (lot_fields rfc_uuid sample_lot))
     @ write_record ''lot'' (take 5 (lot_fields rfc_uuid second_lot))\<rparr>"

theorem certificate_ambiguous:
  "lot_validate sample_lot = Inr () \<and> lot_validate second_lot = Inr () \<and> lot_validate forged_lot = Inr () \<and>
   certificate H rat_decimal rfc_uuid (sample_auction\<lparr>auc_lots := [forged_lot]\<rparr>) [] s P =
   certificate H rat_decimal rfc_uuid (sample_auction\<lparr>auc_lots := [sample_lot, second_lot]\<rparr>) [] s P"
proof (intro conjI)
  have "sort_by (lot_before rfc_uuid) [sample_lot, second_lot] = [sample_lot, second_lot]" by code_simp
  then show "certificate H rat_decimal rfc_uuid (sample_auction\<lparr>auc_lots := [forged_lot]\<rparr>) [] s P =
   certificate H rat_decimal rfc_uuid (sample_auction\<lparr>auc_lots := [sample_lot, second_lot]\<rparr>) [] s P"
    by (simp add: certificate_def certificate_text_def forged_lot_def lot_fields_def write_record_def
        write_fields_def second_lot_def sample_lot_def)
  show valid: "lot_validate sample_lot = Inr ()" "lot_validate second_lot = Inr ()" by code_simp+
  have "trim_space (lot_debtor_ref sample_lot) \<noteq> []" by code_simp
  then have "lot_validate (sample_lot\<lparr>lot_debtor_ref := d\<rparr>) = lot_validate sample_lot"
    if "trim_space d \<noteq> []" for d
    using that by (simp add: lot_validate_def del: if_split)
  then have acme: "lot_validate (sample_lot\<lparr>lot_debtor_ref := d\<rparr>) = Inr ()" if "trim_space d \<noteq> []" for d
    using that valid(1) by metis
  define mid where "mid = write_fields (drop 5 (lot_fields rfc_uuid sample_lot)) @ record_sep # ''lot'' @
    write_fields (take 4 (lot_fields rfc_uuid second_lot)) @ [field_sep]"
  have mid: "lot_debtor_ref forged_lot = ''acme'' @ mid @ ''acme''"
    by (simp add: mid_def forged_lot_def write_record_def write_fields_def lot_fields_def second_lot_def
        sample_lot_def)
  have "starts_with_any white_space (''acme'' @ mid @ ''acme'') = None"
    "starts_with_any (map rev white_space) (rev (''acme'' @ mid @ ''acme'')) = None"
    by (simp_all add: starts_with_any_None white_space_def)
  then have "trim_space (''acme'' @ mid @ ''acme'') = ''acme'' @ mid @ ''acme''"
    by (simp add: trim_space_def trim_prefixes_id)
  then show "lot_validate forged_lot = Inr ()" using mid acme [of "lot_debtor_ref forged_lot"]
    by (simp add: forged_lot_def)
qed

end
