(* ===== verification/Flow_Queue.thy ===== *)
theory Flow_Queue
  imports Prelude
begin

text \<open>
  The typed binary heap of \<^verbatim>\<open>internal/auction/mincostflow.go\<close>: entries of a distance
  and a node, ordered by distance and then by node index. \<open>sift_up\<close> and \<open>sift_down\<close> are the two
  loops of \<^verbatim>\<open>push\<close> and \<^verbatim>\<open>pop\<close>. The locale \<open>min_queue\<close> is what the
  shortest-path search relies on: pushing adds one entry, popping removes a least one. Node
  indices are \<^verbatim>\<open>int32\<close> in the code and \<^typ>\<open>nat\<close> here; a network has far
  fewer than \<open>2\<^sup>3\<^sup>1\<close> nodes.
\<close>

section \<open>The heap\<close>

record node_dist =
  nd_dist :: int
  nd_node :: nat

definition nd_less :: "node_dist \<Rightarrow> node_dist \<Rightarrow> bool" where
  "nd_less a b \<longleftrightarrow> (if nd_dist a \<noteq> nd_dist b then nd_dist a < nd_dist b else nd_node a < nd_node b)"

type_synonym node_queue = "node_dist list"

definition queue_reset :: "node_queue \<Rightarrow> node_queue" where
  "queue_reset q = []"

definition swap :: "'a list \<Rightarrow> nat \<Rightarrow> nat \<Rightarrow> 'a list" where
  "swap xs i j = xs[i := xs ! j, j := xs ! i]"

definition parent_of :: "nat \<Rightarrow> nat" where
  "parent_of i = (i - 1) div 2"

function sift_up :: "node_queue \<Rightarrow> nat \<Rightarrow> node_queue" where
  "sift_up q child =
    (if child > 0 then
       let parent = parent_of child
       in if \<not> nd_less (q ! child) (q ! parent) then q else sift_up (swap q child parent) parent
     else q)"
  by pat_completeness auto
termination
  by (relation "measure snd") (auto simp: parent_of_def)

definition queue_push :: "nat \<Rightarrow> int \<Rightarrow> node_queue \<Rightarrow> node_queue" where
  "queue_push node dist q =
    (let q' = q @ [\<lparr>nd_dist = dist, nd_node = node\<rparr>] in sift_up q' (length q' - 1))"

definition smallest_child :: "node_queue \<Rightarrow> nat \<Rightarrow> nat" where
  "smallest_child q left =
    (let right = left + 1
     in if right < length q \<and> nd_less (q ! right) (q ! left) then right else left)"

lemma length_swap [simp]: "length (swap xs i j) = length xs"
  by (simp add: swap_def)

function sift_down :: "node_queue \<Rightarrow> nat \<Rightarrow> node_queue" where
  "sift_down q parent =
    (let left = 2 * parent + 1
     in if left \<ge> length q then q
        else let smallest = smallest_child q left
             in if \<not> nd_less (q ! smallest) (q ! parent) then q
                else sift_down (swap q parent smallest) smallest)"
  by pat_completeness auto
termination
  by (relation "measure (\<lambda>(q, p). length q - p)") (auto simp: smallest_child_def Let_def split: if_splits)

declare sift_up.simps [simp del] sift_down.simps [simp del]

lemma length_sift_down [simp]: "length (sift_down q p) = length q"
proof (induction q p rule: sift_down.induct)
  case (1 q p)
  then show ?case by (subst sift_down.simps) (simp add: Let_def)
qed

definition queue_pop :: "node_queue \<Rightarrow> (nat \<times> node_queue) option" where
  "queue_pop q =
    (if q = [] then None
     else let top = q ! 0;
              last = length q - 1;
              q' = take last (q[0 := q ! last])
          in Some (nd_node top, sift_down q' 0))"

lemma queue_pop_length: "queue_pop q = Some (node, q') \<Longrightarrow> length q' < length q"
  by (auto simp: queue_pop_def Let_def split: if_splits)

section \<open>The order\<close>

definition nd_le :: "node_dist \<Rightarrow> node_dist \<Rightarrow> bool" where
  "nd_le a b \<longleftrightarrow> \<not> nd_less b a"

lemma nd_le_refl [simp]: "nd_le a a"
  by (simp add: nd_le_def nd_less_def)

lemma nd_le_trans: "nd_le a b \<Longrightarrow> nd_le b c \<Longrightarrow> nd_le a c"
  by (auto simp: nd_le_def nd_less_def split: if_splits)

lemma nd_less_le: "nd_less a b \<Longrightarrow> nd_le a b"
  by (auto simp: nd_le_def nd_less_def split: if_splits)

lemma nd_le_total: "nd_le a b \<or> nd_le b a"
  by (auto simp: nd_le_def nd_less_def split: if_splits)

interpretation nd_order: sort_order nd_less
  by unfold_locales (auto simp: nd_less_def split: if_splits)

section \<open>The heap invariant\<close>

definition heap :: "node_queue \<Rightarrow> bool" where
  "heap q \<longleftrightarrow> (\<forall>i < length q. 0 < i \<longrightarrow> nd_le (q ! parent_of i) (q ! i))"

text \<open>A heap but for one child, which may be too small for its parent.\<close>

definition heap_but_child :: "node_queue \<Rightarrow> nat \<Rightarrow> bool" where
  "heap_but_child q c \<longleftrightarrow>
    (\<forall>i < length q. 0 < i \<and> i \<noteq> c \<longrightarrow> nd_le (q ! parent_of i) (q ! i)) \<and>
    (\<forall>i < length q. 0 < i \<and> 0 < c \<and> parent_of i = c \<longrightarrow> nd_le (q ! parent_of c) (q ! i))"

text \<open>A heap but for one parent, which may be too large for its children.\<close>

definition heap_but_parent :: "node_queue \<Rightarrow> nat \<Rightarrow> bool" where
  "heap_but_parent q p \<longleftrightarrow>
    (\<forall>i < length q. 0 < i \<and> parent_of i \<noteq> p \<longrightarrow> nd_le (q ! parent_of i) (q ! i)) \<and>
    (\<forall>i < length q. 0 < i \<and> 0 < p \<and> parent_of i = p \<longrightarrow> nd_le (q ! parent_of p) (q ! i))"

lemma parent_less: "0 < i \<Longrightarrow> parent_of i < i"
  by (simp add: parent_of_def)

lemma nth_swap:
  "i < length q \<Longrightarrow> j < length q \<Longrightarrow> k < length q \<Longrightarrow>
    swap q i j ! k = (if k = i then q ! j else if k = j then q ! i else q ! k)"
  by (auto simp: swap_def nth_list_update)

lemma mset_swap_nth: "i < length q \<Longrightarrow> j < length q \<Longrightarrow> mset (swap q i j) = mset q"
  by (simp add: swap_def Multiset.mset_swap)

lemma sift_up_heap:
  "c < length q \<Longrightarrow> heap_but_child q c \<Longrightarrow> heap (sift_up q c) \<and> mset (sift_up q c) = mset q"
proof (induction q c rule: sift_up.induct)
  case (1 q c)
  show ?case
  proof (cases "0 < c \<and> nd_less (q ! c) (q ! parent_of c)")
    case False
    then have "sift_up q c = q" by (subst sift_up.simps) (auto simp: Let_def)
    moreover have "heap q" using 1(3) False
      by (auto simp: heap_def heap_but_child_def nd_le_def)
    ultimately show ?thesis by simp
  next
    case True
    let ?p = "parent_of c" and ?q = "swap q c (parent_of c)"
    have p: "?p < length q" "?p < c" using True 1(2) parent_less [of c] by auto
    have "heap_but_child ?q ?p"
      unfolding heap_but_child_def
    proof (intro conjI allI impI)
      fix i assume i: "i < length ?q" "0 < i \<and> i \<noteq> ?p"
      have pi: "parent_of i < length q" using i parent_less [of i] by simp
      show "nd_le (?q ! parent_of i) (?q ! i)"
      proof (cases "i = c")
        case True
        then show ?thesis using p 1(2) nd_less_le \<open>0 < c \<and> _\<close>
          by (simp add: nth_swap)
      next
        case ic: False
        have ok: "nd_le (q ! parent_of i) (q ! i)"
          using 1(3) i ic by (simp add: heap_but_child_def)
        consider "parent_of i = c" | "parent_of i = ?p" "parent_of i \<noteq> c"
          | "parent_of i \<noteq> c" "parent_of i \<noteq> ?p" by blast
        then show ?thesis
        proof cases
          case 1
          then have "nd_le (q ! ?p) (q ! i)"
            using \<open>heap_but_child q c\<close> i True by (auto simp: heap_but_child_def)
          then show ?thesis using 1 i ic p \<open>c < length q\<close> by (simp add: nth_swap)
        next
          case 2
          then have "nd_le (q ! c) (q ! i)"
            using ok True nd_le_trans nd_less_le by metis
          then show ?thesis using 2 i ic p \<open>c < length q\<close> pi by (simp add: nth_swap)
        next
          case 3
          then show ?thesis using ok i ic p \<open>c < length q\<close> pi by (simp add: nth_swap)
        qed
      qed
    next
      fix i assume i: "i < length ?q" "0 < i \<and> 0 < ?p \<and> parent_of i = ?p"
      have pp: "parent_of ?p < ?p" using i parent_less by blast
      have "nd_le (q ! parent_of ?p) (q ! ?p)"
        using 1(3) p i parent_less [of ?p] by (simp add: heap_but_child_def)
      moreover have "nd_le (q ! ?p) (q ! i)" if "i \<noteq> c"
        using 1(3) i that by (auto simp: heap_but_child_def)
      ultimately show "nd_le (?q ! parent_of ?p) (?q ! i)"
        using i p pp 1(2) nd_le_trans by (auto simp: nth_swap)
    qed
    then have ih: "heap (sift_up ?q ?p) \<and> mset (sift_up ?q ?p) = mset ?q"
      using 1(1) True p by (auto simp: Let_def)
    have "sift_up q c = sift_up ?q ?p" using True by (subst sift_up.simps) (simp add: Let_def)
    then show ?thesis using ih mset_swap_nth [OF 1(2) p(1)] by simp
  qed
qed

lemma parent_of_left: "parent_of (2 * p + 1) = p" "parent_of (2 * p + 2) = p"
  by (simp_all add: parent_of_def)

lemma parent_of_cases: "0 < i \<Longrightarrow> parent_of i = p \<Longrightarrow> i = 2 * p + 1 \<or> i = 2 * p + 2"
  by (auto simp: parent_of_def)

lemma smallest_child_props:
  assumes "2 * p + 1 < length q"
  defines "s \<equiv> smallest_child q (2 * p + 1)"
  shows "s < length q" "parent_of s = p" "0 < s" "p < s"
    and "\<And>i. i < length q \<Longrightarrow> 0 < i \<Longrightarrow> parent_of i = p \<Longrightarrow> nd_le (q ! s) (q ! i)"
proof -
  show "s < length q" "parent_of s = p" "0 < s" "p < s"
    using assms by (auto simp: smallest_child_def Let_def parent_of_def)
  show "nd_le (q ! s) (q ! i)" if "i < length q" "0 < i" "parent_of i = p" for i
    using parent_of_cases [OF that(2,3)] that(1) assms nd_less_le
    by (auto simp: s_def smallest_child_def Let_def nd_le_def)
qed

text \<open>Swapping a node with its smallest child moves the one place where the order may fail down to that child.\<close>

lemma swap_with_child:
  fixes q :: "node_dist list" and p :: nat
  defines "c \<equiv> smallest_child q (2 * p + 1)"
  assumes p: "p < length q" and but: "heap_but_parent q p" and inner: "2 * p + 1 < length q"
    and less: "nd_less (q ! c) (q ! p)"
  shows "heap_but_parent (swap q p c) c"
proof -
  note s = smallest_child_props [OF inner, folded c_def]
  let ?q = "swap q p c"
  show ?thesis
    unfolding heap_but_parent_def
  proof (intro conjI allI impI)
    fix i assume i: "i < length ?q" "0 < i \<and> parent_of i \<noteq> c"
    have pi: "parent_of i < length q" "parent_of i \<noteq> i" using i parent_less [of i] by auto
    show "nd_le (?q ! parent_of i) (?q ! i)"
    proof (cases "parent_of i = p")
      case True
      then show ?thesis
        using s i pi p nd_less_le [OF less] by (auto simp: nth_swap)
    next
      case False
      then have ok: "nd_le (q ! parent_of i) (q ! i)" using but i by (simp add: heap_but_parent_def)
      have "i \<noteq> c" using False s(2) by blast
      show ?thesis
      proof (cases "i = p")
        case True
        then have "nd_le (q ! parent_of p) (q ! c)"
          using but i s by (simp add: heap_but_parent_def)
        then show ?thesis using True False i pi s(1) p by (auto simp: nth_swap)
      next
        case ip: False
        then show ?thesis using ok False \<open>i \<noteq> c\<close> i pi s(1) p by (simp add: nth_swap)
      qed
    qed
  next
    fix i assume i: "i < length ?q" "0 < i \<and> 0 < c \<and> parent_of i = c"
    then have "i \<noteq> p" "i \<noteq> c" using s(4) parent_less [of i] by auto
    moreover have "nd_le (q ! c) (q ! i)"
    proof -
      have "parent_of i \<noteq> p" using i s(4) by simp
      moreover have "parent_of i \<noteq> p \<longrightarrow> nd_le (q ! parent_of i) (q ! i)"
        using but i unfolding heap_but_parent_def length_swap by blast
      ultimately show ?thesis using i by simp
    qed
    ultimately show "nd_le (?q ! parent_of c) (?q ! i)"
      using i s(1,2) p by (simp add: nth_swap)
  qed
qed

lemma sift_down_heap:
  "p < length q \<Longrightarrow> heap_but_parent q p \<Longrightarrow> heap (sift_down q p) \<and> mset (sift_down q p) = mset q"
proof (induction q p rule: sift_down.induct)
  case (1 q p)
  let ?s = "smallest_child q (2 * p + 1)"
  consider (leaf) "length q \<le> 2 * p + 1"
    | (stop) "2 * p + 1 < length q" "\<not> nd_less (q ! ?s) (q ! p)"
    | (step) "2 * p + 1 < length q" "nd_less (q ! ?s) (q ! p)" by linarith
  then show ?case
  proof cases
    case leaf
    have "parent_of i \<noteq> p" if "i < length q" "0 < i" for i
      using parent_of_cases [OF that(2)] that(1) leaf by fastforce
    then have "heap q" using 1(3) by (simp add: heap_def heap_but_parent_def)
    moreover have "sift_down q p = q" using leaf by (subst sift_down.simps) (simp add: Let_def)
    ultimately show ?thesis by simp
  next
    case stop
    note s = smallest_child_props [OF stop(1)]
    have "nd_le (q ! p) (q ! i)" if "i < length q" "0 < i" "parent_of i = p" for i
    proof (rule nd_le_trans)
      show "nd_le (q ! p) (q ! ?s)" using stop(2) by (simp add: nd_le_def)
    qed (rule s(5) [OF that])
    then have "heap q" using 1(3) by (auto simp: heap_def heap_but_parent_def)
    moreover have "sift_down q p = q" using stop by (subst sift_down.simps) (simp add: Let_def)
    ultimately show ?thesis by simp
  next
    case step
    note s = smallest_child_props [OF step(1)]
    let ?q = "swap q p ?s"
    have "heap_but_parent ?q ?s" by (rule swap_with_child [OF 1(2,3) step])
    then have "heap (sift_down ?q ?s) \<and> mset (sift_down ?q ?s) = mset ?q"
      using 1(1) step s(1) by (auto simp: Let_def)
    moreover have "sift_down q p = sift_down ?q ?s"
      using step by (subst sift_down.simps) (simp add: Let_def)
    ultimately show ?thesis using mset_swap_nth [OF 1(2) s(1)] by simp
  qed
qed

lemma heap_root_least: "heap q \<Longrightarrow> i < length q \<Longrightarrow> nd_le (q ! 0) (q ! i)"
proof (induction i rule: less_induct)
  case (less i)
  show ?case
  proof (cases "i = 0")
    case False
    then have p: "parent_of i < i" by (simp add: parent_less)
    have "nd_le (q ! 0) (q ! parent_of i)" using less.IH [OF p] less.prems p by simp
    moreover have "nd_le (q ! parent_of i) (q ! i)" using less.prems False by (simp add: heap_def)
    ultimately show ?thesis by (rule nd_le_trans)
  qed simp
qed

section \<open>The interface of the search\<close>

locale min_queue =
  fixes empty :: "'q"
    and push :: "nat \<Rightarrow> int \<Rightarrow> 'q \<Rightarrow> 'q"
    and pop :: "'q \<Rightarrow> (nat \<times> 'q) option"
    and entries :: "'q \<Rightarrow> node_dist multiset"
    and invar :: "'q \<Rightarrow> bool"
  assumes invar_empty: "invar empty" and entries_empty: "entries empty = {#}"
    and push_ok: "invar q \<Longrightarrow> invar (push node dist q) \<and>
      entries (push node dist q) = add_mset \<lparr>nd_dist = dist, nd_node = node\<rparr> (entries q)"
    and pop_None: "invar q \<Longrightarrow> pop q = None \<longleftrightarrow> entries q = {#}"
    and pop_Some: "invar q \<Longrightarrow> pop q = Some (node, q') \<Longrightarrow>
      \<exists>dist. entries q = add_mset \<lparr>nd_dist = dist, nd_node = node\<rparr> (entries q') \<and> invar q' \<and>
        (\<forall>e \<in># entries q'. nd_le \<lparr>nd_dist = dist, nd_node = node\<rparr> e)"
begin

text \<open>Filling a queue and draining it visits every entry once, least first.\<close>

definition fill :: "node_dist list \<Rightarrow> 'q \<Rightarrow> 'q" where
  "fill es q = fold (\<lambda>e. push (nd_node e) (nd_dist e)) es q"

lemma fill_ok: "invar q \<Longrightarrow> invar (fill es q) \<and> entries (fill es q) = entries q + mset es"
proof (induction es arbitrary: q)
  case Nil
  then show ?case by (simp add: fill_def)
next
  case (Cons e es)
  from push_ok [OF Cons.prems, of "nd_node e" "nd_dist e"]
  have "invar (push (nd_node e) (nd_dist e) q)"
    "entries (push (nd_node e) (nd_dist e) q) = add_mset e (entries q)" by simp_all
  then show ?case using Cons.IH by (simp add: fill_def)
qed

lemma pop_size:
  assumes "invar q" and "pop q = Some (node, q')"
  shows "size (entries q) = Suc (size (entries q'))"
  using pop_Some [OF assms] by auto

fun drain :: "nat \<Rightarrow> 'q \<Rightarrow> nat list" where
  "drain 0 q = []"
| "drain (Suc n) q = (case pop q of None \<Rightarrow> [] | Some (node, q') \<Rightarrow> node # drain n q')"

lemma drain_nodes:
  "invar q \<Longrightarrow> n = size (entries q) \<Longrightarrow> mset (drain n q) = image_mset nd_node (entries q)"
proof (induction n arbitrary: q)
  case 0
  then show ?case by simp
next
  case (Suc n)
  then have "pop q \<noteq> None" using pop_None by (metis Zero_not_Suc size_empty)
  then obtain node q' where q': "pop q = Some (node, q')" by auto
  then obtain dist where d: "entries q = add_mset \<lparr>nd_dist = dist, nd_node = node\<rparr> (entries q')" "invar q'"
    using pop_Some [OF Suc.prems(1)] by blast
  then have "mset (drain n q') = image_mset nd_node (entries q')" using Suc.IH Suc.prems(2) by simp
  then show ?case using q' d by simp
qed

end

lemma queue_push_ok:
  assumes "heap q"
  shows "heap (queue_push node dist q) \<and>
    mset (queue_push node dist q) = add_mset \<lparr>nd_dist = dist, nd_node = node\<rparr> (mset q)"
proof -
  let ?q = "q @ [\<lparr>nd_dist = dist, nd_node = node\<rparr>]"
  have "heap_but_child ?q (length q)"
    unfolding heap_but_child_def
  proof (intro conjI allI impI)
    fix i assume i: "i < length ?q" "0 < i \<and> i \<noteq> length q"
    then have "parent_of i < length q" using parent_less [of i] by simp
    then show "nd_le (?q ! parent_of i) (?q ! i)"
      using assms i by (simp add: heap_def nth_append)
  next
    fix i assume "i < length ?q" "0 < i \<and> 0 < length q \<and> parent_of i = length q"
    then show "nd_le (?q ! parent_of (length q)) (?q ! i)" using parent_less [of i] by simp
  qed
  then have "heap (sift_up ?q (length q)) \<and> mset (sift_up ?q (length q)) = mset ?q"
    by (intro sift_up_heap) simp
  then show ?thesis by (simp add: queue_push_def Let_def)
qed

lemma queue_pop_ok:
  assumes "heap q" and "queue_pop q = Some (node, q')"
  shows "\<exists>dist. mset q = add_mset \<lparr>nd_dist = dist, nd_node = node\<rparr> (mset q') \<and> heap q' \<and>
    (\<forall>e \<in># mset q'. nd_le \<lparr>nd_dist = dist, nd_node = node\<rparr> e)"
proof -
  let ?n = "length q - 1"
  let ?r = "take ?n (q[0 := q ! ?n])"
  have q: "q \<noteq> []" and node: "node = nd_node (q ! 0)" and q': "q' = sift_down ?r 0"
    using assms(2) by (auto simp: queue_pop_def Let_def split: if_splits)
  have len: "length ?r = ?n" by simp
  have nth: "?r ! i = (if i = 0 then q ! ?n else q ! i)" if "i < ?n" for i
    using that q by (cases "i = 0") (simp_all add: nth_list_update)
  have ms: "mset q = add_mset (q ! 0) (mset ?r)"
  proof (cases "?n = 0")
    case True
    then have "length q = Suc 0" using q by (cases q) auto
    then obtain x where "q = [x]" by (auto simp: length_Suc_conv)
    then show ?thesis by simp
  next
    case False
    obtain x ys where "q = x # ys" "ys \<noteq> []" using q False by (cases q) auto
    moreover from this obtain zs z where "ys = zs @ [z]" by (cases ys rule: rev_cases) auto
    ultimately show ?thesis by (simp add: nth_append)
  qed
  have sift: "heap q' \<and> mset q' = mset ?r"
  proof (cases "?n = 0")
    case True
    then have "?r = []" by simp
    have "sift_down [] 0 = []" by (subst sift_down.simps) simp
    then have "q' = []" unfolding q' \<open>?r = []\<close> .
    then show ?thesis unfolding \<open>?r = []\<close> by (simp add: heap_def)
  next
    case False
    have "heap_but_parent ?r 0"
      unfolding heap_but_parent_def
    proof (intro conjI allI impI)
      fix i assume i: "i < length ?r" "0 < i \<and> parent_of i \<noteq> 0"
      then have "parent_of i < ?n" using parent_less [of i] by simp
      then show "nd_le (?r ! parent_of i) (?r ! i)"
        using assms(1) i nth by (simp add: heap_def del: nth_take)
    qed simp
    then show ?thesis unfolding q' using False by (intro sift_down_heap) simp_all
  qed
  have "nd_le (q ! 0) e" if "e \<in># mset q'" for e
  proof -
    have "e \<in> set q" using that ms sift by (metis in_multiset_in_set insert_iff set_mset_add_mset_insert)
    then obtain i where "i < length q" "q ! i = e" by (auto simp: in_set_conv_nth)
    then show ?thesis using heap_root_least [OF assms(1)] by blast
  qed
  moreover have "\<lparr>nd_dist = nd_dist (q ! 0), nd_node = node\<rparr> = q ! 0" by (simp add: node)
  ultimately show ?thesis using ms sift by metis
qed

interpretation heap_queue: min_queue "[]" queue_push queue_pop mset heap
proof unfold_locales
  show "queue_pop q = None \<longleftrightarrow> mset q = {#}" for q
    by (simp add: queue_pop_def Let_def)
qed (auto simp: queue_push_ok heap_def [of "[]"] dest: queue_pop_ok)

section \<open>Properties\<close>

text \<open>C10: The array heap behind the shortest-path search is a priority queue: pushing adds exactly the entry, in
  whatever order the entries came; popping fails exactly when the queue is empty, and otherwise removes exactly
  one entry, the node of a least one by distance and then by node; both keep the heap order.\<close>

theorem node_queue_refines_priority_queue:
  assumes "heap q"
  shows "heap (queue_push node dist q) \<and>
    mset (queue_push node dist q) = add_mset \<lparr>nd_dist = dist, nd_node = node\<rparr> (mset q) \<and>
    (queue_pop q = None \<longleftrightarrow> q = []) \<and>
    (\<forall>m q'. queue_pop q = Some (m, q') \<longrightarrow> heap q' \<and>
      (\<exists>d. mset q = add_mset \<lparr>nd_dist = d, nd_node = m\<rparr> (mset q') \<and>
        (\<forall>e \<in># mset q'. nd_le \<lparr>nd_dist = d, nd_node = m\<rparr> e)))"
proof (intro conjI allI impI)
  show "heap (queue_push node dist q)"
    "mset (queue_push node dist q) = add_mset \<lparr>nd_dist = dist, nd_node = node\<rparr> (mset q)"
    using heap_queue.push_ok [OF assms] by blast+
  show "queue_pop q = None \<longleftrightarrow> q = []"
    using heap_queue.pop_None [OF assms] by simp
  fix m q' assume pop: "queue_pop q = Some (m, q')"
  from heap_queue.pop_Some [OF assms pop]
  show "heap q'" "\<exists>d. mset q = add_mset \<lparr>nd_dist = d, nd_node = m\<rparr> (mset q') \<and>
      (\<forall>e \<in># mset q'. nd_le \<lparr>nd_dist = d, nd_node = m\<rparr> e)" by blast+
qed

theorem node_queue_refines_priority_queue_witness:
  "\<exists>q'. queue_pop [\<lparr>nd_dist = 2, nd_node = 1\<rparr>, \<lparr>nd_dist = 3, nd_node = 4\<rparr>, \<lparr>nd_dist = 7, nd_node = 0\<rparr>] = Some (1, q') \<and>
    heap q' \<and> size (mset q') = 2"
proof -
  let ?q = "[\<lparr>nd_dist = 2, nd_node = 1\<rparr>, \<lparr>nd_dist = 3, nd_node = 4\<rparr>, \<lparr>nd_dist = 7, nd_node = 0\<rparr>]"
  have heap: "heap ?q" by (auto simp: heap_def parent_of_def nd_le_def nd_less_def less_Suc_eq numeral_eq_Suc)
  obtain m q' where pop: "queue_pop ?q = Some (m, q')"
    using node_queue_refines_priority_queue [OF heap] by (cases "queue_pop ?q") auto
  then have m: "m = 1" by (simp add: queue_pop_def Let_def)
  from node_queue_refines_priority_queue [OF heap] pop obtain d where
    q': "heap q'" "mset ?q = add_mset \<lparr>nd_dist = d, nd_node = m\<rparr> (mset q')" by blast
  have "size (mset ?q) = Suc (size (mset q'))" by (simp only: q'(2) size_add_mset)
  then have "size (mset q') = 2" by simp
  then show ?thesis using pop m q'(1) by blast
qed

end
