(* ===== verification/Flow_Network.thy ===== *)
theory Flow_Network
  imports Flow_Queue
begin

text \<open>
  The min-cost flow of \<^verbatim>\<open>internal/auction/mincostflow.go\<close>: a residual network whose
  arcs come in pairs at indices \<open>2k\<close> and \<open>2k + 1\<close>, initial potentials, Dijkstra over reduced costs,
  and the augmentation loop. Every slice is read with \<open>index_at\<close>, so an index out of range is the
  Go panic. The walk along \<^verbatim>\<open>prevArc\<close> has no bound in the code: it is a
  \<open>partial_function\<close>, and \<open>None\<close> is a walk that never ends.
\<close>

section \<open>The network\<close>

record flow_arc =
  fa_from :: nat
  fa_to :: nat
  fa_capacity :: int
  fa_flow :: int
  fa_cost :: int

record flow_network =
  fn_nodes :: nat
  fn_heads :: "nat list list"
  fn_arcs :: "flow_arc list"

definition new_flow_network :: "nat \<Rightarrow> flow_network" where
  "new_flow_network n = \<lparr>fn_nodes = n, fn_heads = replicate n [], fn_arcs = []\<rparr>"

definition add_edge :: "nat \<Rightarrow> nat \<Rightarrow> int \<Rightarrow> int \<Rightarrow> flow_network \<Rightarrow> nat \<times> flow_network" where
  "add_edge from till capacity cost f =
    (let index = length (fn_arcs f);
         arcs = fn_arcs f @
           [\<lparr>fa_from = from, fa_to = till, fa_capacity = capacity, fa_flow = 0, fa_cost = cost\<rparr>,
            \<lparr>fa_from = till, fa_to = from, fa_capacity = 0, fa_flow = 0, fa_cost = wrap64 (- cost)\<rparr>];
         heads = (fn_heads f)[from := fn_heads f ! from @ [index]];
         heads' = heads[till := heads ! till @ [index + 1]]
     in (index, f\<lparr>fn_heads := heads', fn_arcs := arcs\<rparr>))"

definition flow_on :: "flow_network \<Rightarrow> nat \<Rightarrow> int result" where
  "flow_on f index = and_then (index_at (fn_arcs f) index) (\<lambda>arc. Inr (fa_flow arc))"

definition residual :: "flow_arc \<Rightarrow> int" where
  "residual arc = wrap64 (fa_capacity arc - fa_flow arc)"

text \<open>The residual twin, at \<^verbatim>\<open>index^1\<close>.\<close>

definition twin :: "nat \<Rightarrow> nat" where
  "twin i = (if even i then i + 1 else i - 1)"

definition unreachable :: int where
  "unreachable = max64 div 2"

section \<open>Initial potentials\<close>

definition relax_initial :: "flow_network \<Rightarrow> nat \<Rightarrow> nat \<Rightarrow> int list \<Rightarrow> int list result" where
  "relax_initial f v index potential =
    and_then (index_at (fn_arcs f) index) (\<lambda>arc.
      if fa_capacity arc = 0 then Inr potential
      else and_then (index_at potential v) (\<lambda>base.
        let relaxed = wrap64 (base + fa_cost arc)
        in and_then (index_at potential (fa_to arc)) (\<lambda>known.
          if relaxed < known then Inr (potential[fa_to arc := relaxed]) else Inr potential)))"

definition relax_node :: "flow_network \<Rightarrow> nat \<Rightarrow> int list \<Rightarrow> int list result" where
  "relax_node f v potential =
    and_then (index_at potential v) (\<lambda>base.
      if base \<ge> unreachable then Inr potential
      else and_then (index_at (fn_heads f) v) (\<lambda>out.
        fold_result (relax_initial f v) out potential))"

definition initial_potentials :: "flow_network \<Rightarrow> nat \<Rightarrow> int list result" where
  "initial_potentials f source =
    (if source \<ge> fn_nodes f then Inl Panic
     else and_then
       (fold_result (relax_node f) [0..<fn_nodes f]
         ((replicate (fn_nodes f) unreachable)[source := 0]))
       (\<lambda>potential. Inr (map (\<lambda>p. if p \<ge> unreachable then 0 else p) potential)))"

section \<open>Shortest paths\<close>

record search =
  sr_dist :: "int list"
  sr_settled :: "bool list"
  sr_prev :: "nat option list"
  sr_queue :: node_queue

text \<open>One arc out of the node just settled.\<close>

definition relax_arc :: "flow_network \<Rightarrow> int list \<Rightarrow> nat \<Rightarrow> int \<Rightarrow> nat \<Rightarrow> search \<Rightarrow> search result" where
  "relax_arc f potential node base index st =
    and_then (index_at (fn_arcs f) index) (\<lambda>arc.
      if residual arc \<le> 0 then Inr st
      else and_then (index_at potential node) (\<lambda>here.
           and_then (index_at potential (fa_to arc)) (\<lambda>there.
           and_then (index_at (sr_dist st) (fa_to arc)) (\<lambda>known.
             let next = wrap64 (base + fa_cost arc + here - there)
             in if next < known
                then Inr (st\<lparr>sr_dist := (sr_dist st)[fa_to arc := next],
                             sr_prev := (sr_prev st)[fa_to arc := Some index],
                             sr_queue := queue_push (fa_to arc) next (sr_queue st)\<rparr>)
                else Inr st))))"

definition settle_node :: "flow_network \<Rightarrow> int list \<Rightarrow> nat \<Rightarrow> search \<Rightarrow> search result" where
  "settle_node f potential node st =
    and_then (index_at (sr_dist st) node) (\<lambda>base.
    and_then (index_at (fn_heads f) node) (\<lambda>out.
      fold_result (relax_arc f potential node base) out st))"

text \<open>The loop ends: every turn pops an entry of a settled node or settles one more node.\<close>

definition unsettled :: "search \<Rightarrow> nat" where
  "unsettled st = length (filter Not (sr_settled st))"

lemma relax_arc_settled:
  "relax_arc f potential node base index st = Inr st' \<Longrightarrow> sr_settled st' = sr_settled st"
  by (auto simp: relax_arc_def result_simps Let_def split: if_splits)

lemma settle_node_settled:
  assumes "settle_node f potential node st = Inr st'" shows "sr_settled st' = sr_settled st"
proof -
  obtain base out where "fold_result (relax_arc f potential node base) out st = Inr st'"
    using assms by (auto simp: settle_node_def result_simps)
  then show ?thesis
    by (rule fold_result_invariant [where P = "\<lambda>s. sr_settled s = sr_settled st"])
      (auto dest: relax_arc_settled)
qed

lemma unsettled_update:
  assumes "node < length xs" and "\<not> xs ! node"
  shows "length (filter Not (xs[node := True])) < length (filter Not xs)"
proof -
  have "filter Not xs = filter Not (take node xs @ xs ! node # drop (Suc node) xs)"
    using assms(1) by (simp add: id_take_nth_drop [symmetric])
  moreover have "xs[node := True] = take node xs @ True # drop (Suc node) xs"
    using assms(1) by (simp add: upd_conv_take_nth_drop)
  ultimately show ?thesis using assms(2) by simp
qed

function search_loop :: "flow_network \<Rightarrow> int list \<Rightarrow> nat \<Rightarrow> search \<Rightarrow> search result" where
  "search_loop f potential sink st =
    (case queue_pop (sr_queue st) of
       None \<Rightarrow> Inr st
     | Some (node, q) \<Rightarrow>
         let st' = st\<lparr>sr_queue := q\<rparr>
         in case index_at (sr_settled st') node of
              Inl e \<Rightarrow> Inl e
            | Inr True \<Rightarrow> search_loop f potential sink st'
            | Inr False \<Rightarrow>
                let st'' = st'\<lparr>sr_settled := (sr_settled st')[node := True]\<rparr>
                in if node = sink then Inr st''
                   else case settle_node f potential node st'' of
                          Inl e \<Rightarrow> Inl e
                        | Inr st3 \<Rightarrow> search_loop f potential sink st3)"
  by pat_completeness auto
termination
proof (relation "inv_image (less_than <*lex*> less_than)
    (\<lambda>(f, potential, sink, st). (unsettled st, length (sr_queue st)))", goal_cases)
  case 1
  then show ?case by (intro wf_inv_image wf_lex_prod wf_less_than)
next
  case (2 f potential sink st a node q st' b)
  then show ?case by (auto simp: unsettled_def queue_pop_length)
next
  case (3 f potential sink st a node q st' b st'' st3)
  then show ?case
    by (auto simp: unsettled_def result_simps dest!: settle_node_settled intro!: unsettled_update)
qed

declare search_loop.simps [simp del]

definition shortest_path :: "flow_network \<Rightarrow> nat \<Rightarrow> nat \<Rightarrow> int list \<Rightarrow> (bool \<times> search) result" where
  "shortest_path f source sink potential =
    (let n = fn_nodes f
     in if source \<ge> n then Inl Panic
        else and_then
          (search_loop f potential sink
            \<lparr>sr_dist = (replicate n unreachable)[source := 0], sr_settled = replicate n False,
             sr_prev = replicate n None, sr_queue = queue_push source 0 (queue_reset [])\<rparr>)
          (\<lambda>st. and_then (index_at (sr_dist st) sink) (\<lambda>d. Inr (d < unreachable, st))))"

section \<open>Augmentation\<close>

text \<open>The indices of the arcs from the sink back to the source.\<close>

partial_function (option) walk_back ::
  "flow_arc list \<Rightarrow> nat option list \<Rightarrow> nat \<Rightarrow> nat \<Rightarrow> nat list result option" where
  "walk_back arcs prev source v =
    (if v = source then Some (Inr [])
     else case index_at prev v of
            Inl e \<Rightarrow> Some (Inl e)
          | Inr None \<Rightarrow> Some (Inl Panic)
          | Inr (Some index) \<Rightarrow>
              (case index_at arcs index of
                 Inl e \<Rightarrow> Some (Inl e)
               | Inr arc \<Rightarrow> Option.bind (walk_back arcs prev source (fa_from arc))
                   (\<lambda>r. Some (and_then r (\<lambda>path. Inr (index # path))))))"

declare walk_back.simps [code]

definition bottleneck_of :: "flow_arc list \<Rightarrow> nat list \<Rightarrow> int" where
  "bottleneck_of arcs path =
    fold (\<lambda>index b. if residual (arcs ! index) < b then residual (arcs ! index) else b) path max64"

definition add_flow :: "int \<Rightarrow> flow_arc \<Rightarrow> flow_arc" where
  "add_flow b arc = arc\<lparr>fa_flow := wrap64 (fa_flow arc + b)\<rparr>"

definition push_arc :: "int \<Rightarrow> nat \<Rightarrow> flow_arc list \<Rightarrow> flow_arc list" where
  "push_arc b index arcs =
    (let arcs' = arcs[index := add_flow b (arcs ! index)]
     in arcs'[twin index := add_flow (- b) (arcs' ! twin index)])"

definition push_path :: "int \<Rightarrow> nat list \<Rightarrow> flow_arc list \<Rightarrow> flow_arc list" where
  "push_path b path arcs = fold (push_arc b) path arcs"

definition raise_potentials :: "int list \<Rightarrow> int list \<Rightarrow> int list" where
  "raise_potentials potential dist =
    map2 (\<lambda>p d. if d < unreachable then wrap64 (p + d) else p) potential dist"

record solve_result =
  sv_flow :: int
  sv_cost :: int
  sv_augmentations :: nat
  sv_limit_reached :: bool

text \<open>The augmentation loop; the first argument counts the turns that are left.\<close>

fun augment_loop ::
  "nat \<Rightarrow> nat \<Rightarrow> nat \<Rightarrow> flow_network \<Rightarrow> int list \<Rightarrow> solve_result \<Rightarrow>
    (flow_network \<times> solve_result) result option" where
  "augment_loop 0 source sink f potential res = Some (Inr (f, res\<lparr>sv_limit_reached := True\<rparr>))"
| "augment_loop (Suc k) source sink f potential res =
    (case shortest_path f source sink potential of
       Inl e \<Rightarrow> Some (Inl e)
     | Inr (found, st) \<Rightarrow>
         if \<not> found then Some (Inr (f, res))
         else let path_cost = wrap64 (sr_dist st ! sink + potential ! sink - potential ! source)
              in if path_cost \<ge> 0 then Some (Inr (f, res))
                 else Option.bind (walk_back (fn_arcs f) (sr_prev st) source sink) (\<lambda>r.
                   case r of
                     Inl e \<Rightarrow> Some (Inl e)
                   | Inr path \<Rightarrow>
                       let b = bottleneck_of (fn_arcs f) path
                       in augment_loop k source sink
                            (f\<lparr>fn_arcs := push_path b path (fn_arcs f)\<rparr>)
                            (raise_potentials potential (sr_dist st))
                            (res\<lparr>sv_flow := wrap64 (sv_flow res + b),
                                 sv_cost := wrap64 (sv_cost res + wrap64 (b * path_cost)),
                                 sv_augmentations := sv_augmentations res + 1\<rparr>)))"

definition solve_flow ::
  "flow_network \<Rightarrow> nat \<Rightarrow> nat \<Rightarrow> nat \<Rightarrow> (flow_network \<times> solve_result) result option" where
  "solve_flow f source sink max_augmentations =
    (case initial_potentials f source of
       Inl e \<Rightarrow> Some (Inl e)
     | Inr potential \<Rightarrow>
         augment_loop max_augmentations source sink f potential
           \<lparr>sv_flow = 0, sv_cost = 0, sv_augmentations = 0, sv_limit_reached = False\<rparr>)"

section \<open>Well-formed networks\<close>

lemma twin_twin [simp]: "twin (twin i) = i"
  by (auto simp: twin_def)

lemma twin_neq [simp]: "twin i \<noteq> i" "i \<noteq> twin i"
  using odd_pos [of i] by (auto simp: twin_def)

definition arc_ok :: "nat \<Rightarrow> flow_arc list \<Rightarrow> nat \<Rightarrow> bool" where
  "arc_ok n arcs i \<longleftrightarrow> fa_from (arcs ! i) < n \<and> fa_to (arcs ! i) < n \<and> twin i < length arcs \<and>
     fa_from (arcs ! twin i) = fa_to (arcs ! i) \<and> fa_to (arcs ! twin i) = fa_from (arcs ! i) \<and>
     fa_flow (arcs ! twin i) = - fa_flow (arcs ! i) \<and>
     0 \<le> fa_capacity (arcs ! i) \<and> fa_capacity (arcs ! i) \<le> max64 \<and>
     (odd i \<longrightarrow> fa_capacity (arcs ! i) = 0) \<and> fa_flow (arcs ! i) \<le> fa_capacity (arcs ! i)"

definition net_ok :: "flow_network \<Rightarrow> bool" where
  "net_ok f \<longleftrightarrow> length (fn_heads f) = fn_nodes f \<and> even (length (fn_arcs f)) \<and>
     (\<forall>i < length (fn_arcs f). arc_ok (fn_nodes f) (fn_arcs f) i) \<and>
     (\<forall>v < fn_nodes f. \<forall>i \<in> set (fn_heads f ! v). i < length (fn_arcs f) \<and> fa_from (fn_arcs f ! i) = v)"

lemma arc_ok_flow:
  assumes "\<forall>i < length arcs. arc_ok n arcs i" and "i < length arcs"
  shows "residual (arcs ! i) = fa_capacity (arcs ! i) - fa_flow (arcs ! i)"
    and "0 \<le> residual (arcs ! i)" and "residual (arcs ! i) \<le> max64"
    and "even i \<Longrightarrow> 0 \<le> fa_flow (arcs ! i)" and "in64 (fa_flow (arcs ! i))"
proof -
  have i: "arc_ok n arcs i" using assms by blast
  then have "twin i < length arcs" by (simp add: arc_ok_def)
  then have j: "arc_ok n arcs (twin i)" using assms(1) by blast
  have flow: "fa_flow (arcs ! twin i) = - fa_flow (arcs ! i)" using i by (simp add: arc_ok_def)
  show ev: "even i \<Longrightarrow> 0 \<le> fa_flow (arcs ! i)"
    using j flow by (auto simp: arc_ok_def twin_def)
  have odd: "odd i \<Longrightarrow> - max64 \<le> fa_flow (arcs ! i) \<and> fa_flow (arcs ! i) \<le> 0"
    using i j flow by (auto simp: arc_ok_def)
  have range: "0 \<le> fa_capacity (arcs ! i) - fa_flow (arcs ! i)"
    "fa_capacity (arcs ! i) - fa_flow (arcs ! i) \<le> max64"
    using i ev odd by (cases "even i"; auto simp: arc_ok_def)+
  then have "in64 (fa_capacity (arcs ! i) - fa_flow (arcs ! i))"
    by (simp add: in64_def min64_def)
  then show r: "residual (arcs ! i) = fa_capacity (arcs ! i) - fa_flow (arcs ! i)"
    by (simp add: residual_def wrap64_id)
  show "0 \<le> residual (arcs ! i)" "residual (arcs ! i) \<le> max64"
    using range by (simp_all add: r)
  show "in64 (fa_flow (arcs ! i))"
    using i ev odd by (cases "even i"; auto simp: arc_ok_def in64_def min64_def max64_def)
qed

lemma new_network_ok: "net_ok (new_flow_network n)"
  by (simp add: net_ok_def new_flow_network_def)

lemma add_edge_ok:
  assumes "net_ok f" and "from < fn_nodes f" and "till < fn_nodes f" and "0 \<le> capacity"
    and "capacity \<le> max64" and "add_edge from till capacity cost f = (index, f')"
  shows "net_ok f'" and "fn_nodes f' = fn_nodes f" and "index = length (fn_arcs f)"
    and "length (fn_arcs f') = length (fn_arcs f) + 2"
proof -
  let ?n = "length (fn_arcs f)"
  have ev: "even ?n" using assms(1) by (simp add: net_ok_def)
  show "fn_nodes f' = fn_nodes f" "index = length (fn_arcs f)"
    "length (fn_arcs f') = length (fn_arcs f) + 2"
    using assms(6) by (auto simp: add_edge_def Let_def)
  have arcs: "fn_arcs f' = fn_arcs f @
      [\<lparr>fa_from = from, fa_to = till, fa_capacity = capacity, fa_flow = 0, fa_cost = cost\<rparr>,
       \<lparr>fa_from = till, fa_to = from, fa_capacity = 0, fa_flow = 0, fa_cost = wrap64 (- cost)\<rparr>]"
    and heads: "fn_heads f' = (let h = (fn_heads f)[from := fn_heads f ! from @ [?n]]
        in h[till := h ! till @ [?n + 1]])" and nodes: "fn_nodes f' = fn_nodes f"
    using assms(6) by (auto simp: add_edge_def Let_def)
  have "arc_ok (fn_nodes f) (fn_arcs f') i" if i: "i < length (fn_arcs f')" for i
  proof -
    have "i < ?n + 2" using i by (simp add: arcs)
    then consider "i < ?n" | "i = ?n" | "i = ?n + 1" by linarith
    then show ?thesis
    proof cases
      case 1
      then have old: "arc_ok (fn_nodes f) (fn_arcs f) i" using assms(1) by (simp add: net_ok_def)
      then show ?thesis using 1 by (simp add: arc_ok_def arcs nth_append)
    next
      case 2
      then show ?thesis using assms(2-5) ev by (simp add: arc_ok_def arcs nth_append twin_def)
    next
      case 3
      then show ?thesis using assms(2-5) ev
        by (simp add: arc_ok_def arcs nth_append twin_def max64_def)
    qed
  qed
  moreover have "i < length (fn_arcs f') \<and> fa_from (fn_arcs f' ! i) = v"
    if "v < fn_nodes f" "i \<in> set (fn_heads f' ! v)" for v i
  proof -
    have "i \<in> set (fn_heads f ! v) \<or> (i = ?n \<and> v = from) \<or> (i = ?n + 1 \<and> v = till)"
      using that assms(1-3) by (auto simp: heads Let_def nth_list_update net_ok_def split: if_splits)
    then show ?thesis using that(1) assms(1) by (auto simp: net_ok_def arcs nth_append)
  qed
  ultimately show "net_ok f'"
    using assms(1) ev by (auto simp: net_ok_def arcs nodes heads Let_def)
qed

section \<open>The search never panics and leaves usable predecessors\<close>

definition search_ok :: "flow_network \<Rightarrow> nat \<Rightarrow> search \<Rightarrow> bool" where
  "search_ok f source st \<longleftrightarrow>
     length (sr_dist st) = fn_nodes f \<and> length (sr_settled st) = fn_nodes f \<and>
     length (sr_prev st) = fn_nodes f \<and> heap (sr_queue st) \<and>
     (\<forall>v < fn_nodes f. sr_dist st ! v \<le> unreachable) \<and>
     (\<forall>e \<in># mset (sr_queue st). nd_node e < fn_nodes f \<and> sr_dist st ! nd_node e < unreachable) \<and>
     (\<forall>v < fn_nodes f. sr_dist st ! v < unreachable \<longrightarrow> v = source \<or> sr_prev st ! v \<noteq> None) \<and>
     (\<forall>v < fn_nodes f. \<forall>i. sr_prev st ! v = Some i \<longrightarrow>
        i < length (fn_arcs f) \<and> fa_to (fn_arcs f ! i) = v \<and> 0 < residual (fn_arcs f ! i) \<and>
        sr_dist st ! fa_from (fn_arcs f ! i) < unreachable)"

text \<open>Reaching the end of an arc with room, at a distance below the one known, keeps the state of the search sound.\<close>

lemma reached_search_ok:
  assumes net: "net_ok f" and st: "search_ok f source st"
    and node: "sr_dist st ! fa_from (fn_arcs f ! index) < unreachable" and index: "index < length (fn_arcs f)"
    and open_arc: "0 < residual (fn_arcs f ! index)" and small: "d < unreachable" and to: "to = fa_to (fn_arcs f ! index)"
  shows "search_ok f source (st\<lparr>sr_dist := (sr_dist st)[to := d], sr_prev := (sr_prev st)[to := Some index],
    sr_queue := queue_push to d (sr_queue st)\<rparr>)"
proof -
  let ?st = "st\<lparr>sr_dist := (sr_dist st)[to := d], sr_prev := (sr_prev st)[to := Some index],
    sr_queue := queue_push to d (sr_queue st)\<rparr>"
  have till: "to < fn_nodes f" using net index by (simp add: net_ok_def arc_ok_def to)
  have len: "length (sr_dist st) = fn_nodes f" "length (sr_prev st) = fn_nodes f"
    using st by (simp_all add: search_ok_def)
  have dist: "sr_dist ?st ! v < unreachable \<longleftrightarrow> v = to \<or> sr_dist st ! v < unreachable"
    if "v < fn_nodes f" for v
    using that small len till by (auto simp: nth_list_update)
  have start: "fa_from (fn_arcs f ! i) < fn_nodes f" if "i < length (fn_arcs f)" for i
    using net that by (simp add: net_ok_def arc_ok_def)
  have q: "heap (sr_queue ?st)" "mset (sr_queue ?st) =
      add_mset \<lparr>nd_dist = d, nd_node = to\<rparr> (mset (sr_queue st))"
    using heap_queue.push_ok [of "sr_queue st" to d] st by (simp_all add: search_ok_def)
  show ?thesis
    unfolding search_ok_def
  proof (intro conjI allI ballI impI)
    show "sr_dist ?st ! v \<le> unreachable" if "v < fn_nodes f" for v
      using that st small len till by (auto simp: search_ok_def nth_list_update)
    have entry: "nd_node e < fn_nodes f \<and> (nd_node e = to \<or> sr_dist st ! nd_node e < unreachable)"
      if "e \<in># mset (sr_queue ?st)" for e
    proof -
      have "e = \<lparr>nd_dist = d, nd_node = to\<rparr> \<or> e \<in># mset (sr_queue st)"
        using that by (simp only: q(2) set_mset_add_mset_insert insert_iff)
      then show ?thesis using till st by (auto simp: search_ok_def)
    qed
    show "nd_node e < fn_nodes f" if "e \<in># mset (sr_queue ?st)" for e
      using entry [OF that] by blast
    show "sr_dist ?st ! nd_node e < unreachable" if "e \<in># mset (sr_queue ?st)" for e
      using entry [OF that] dist [of "nd_node e"] by blast
    show "v = source \<or> sr_prev ?st ! v \<noteq> None"
      if v: "v < fn_nodes f" "sr_dist ?st ! v < unreachable" for v
    proof (cases "v = to")
      case True
      then show ?thesis using till len by simp
    next
      case False
      then have "v = source \<or> sr_prev st ! v \<noteq> None"
        using st v dist [OF v(1)] unfolding search_ok_def by blast
      then show ?thesis using False by simp
    qed
    fix v i assume v: "v < fn_nodes f" "sr_prev ?st ! v = Some i"
    then have "i = index \<and> v = to \<or> sr_prev st ! v = Some i"
      using len till by (cases "v = to") auto
    then have i: "i < length (fn_arcs f) \<and> fa_to (fn_arcs f ! i) = v \<and> 0 < residual (fn_arcs f ! i) \<and>
        sr_dist st ! fa_from (fn_arcs f ! i) < unreachable"
    proof
      assume "i = index \<and> v = to"
      then show ?thesis using index node open_arc to by auto
    next
      assume "sr_prev st ! v = Some i"
      then show ?thesis using st v(1) unfolding search_ok_def by blast
    qed
    then show "i < length (fn_arcs f)" "fa_to (fn_arcs f ! i) = v" "0 < residual (fn_arcs f ! i)"
      by blast+
    show "sr_dist ?st ! fa_from (fn_arcs f ! i) < unreachable"
      using i start dist by blast
  qed (use st q in \<open>simp_all add: search_ok_def\<close>)
qed

lemma relax_arc_ok:
  assumes net: "net_ok f" and st: "search_ok f source st" and pot: "length potential = fn_nodes f"
    and node: "node < fn_nodes f" "sr_dist st ! node < unreachable"
    and index: "index < length (fn_arcs f)" "fa_from (fn_arcs f ! index) = node"
  shows "\<exists>st'. relax_arc f potential node base index st = Inr st' \<and> search_ok f source st' \<and>
    sr_dist st' ! node < unreachable"
proof -
  let ?arc = "fn_arcs f ! index" and ?to = "fa_to (fn_arcs f ! index)"
  let ?next = "wrap64 (base + fa_cost ?arc + potential ! node - potential ! ?to)"
  have till: "?to < fn_nodes f" using net index(1) by (simp add: net_ok_def arc_ok_def)
  have len: "length (sr_dist st) = fn_nodes f" "length (sr_prev st) = fn_nodes f"
    using st by (simp_all add: search_ok_def)
  show ?thesis
  proof (cases "residual ?arc \<le> 0 \<or> \<not> ?next < sr_dist st ! ?to")
    case True
    then have "relax_arc f potential node base index st = Inr st"
      using index(1) node(1) till pot len by (auto simp: relax_arc_def index_at_ok Let_def)
    then show ?thesis using st node(2) by blast
  next
    case False
    let ?st = "st\<lparr>sr_dist := (sr_dist st)[?to := ?next], sr_prev := (sr_prev st)[?to := Some index],
       sr_queue := queue_push ?to ?next (sr_queue st)\<rparr>"
    have eq: "relax_arc f potential node base index st = Inr ?st"
      using False index(1) node(1) till pot len by (simp add: relax_arc_def index_at_ok Let_def)
    have small: "?next < unreachable" using False st till by (auto simp: search_ok_def)
    have dist: "sr_dist ?st ! v < unreachable \<longleftrightarrow> v = ?to \<or> sr_dist st ! v < unreachable"
      if "v < fn_nodes f" for v
      using that small len till by (auto simp: nth_list_update)
    have "search_ok f source ?st"
      using reached_search_ok [OF net st _ index(1) _ small refl] node(2) False index(2) by simp
    moreover have "sr_dist ?st ! node < unreachable" using dist [OF node(1)] node(2) by simp
    ultimately show ?thesis using eq by blast
  qed
qed

lemma relax_arcs_ok:
  assumes net: "net_ok f" and pot: "length potential = fn_nodes f" and node: "node < fn_nodes f"
    and out: "\<forall>i \<in> set out. i < length (fn_arcs f) \<and> fa_from (fn_arcs f ! i) = node"
    and st: "search_ok f source st" "sr_dist st ! node < unreachable"
  shows "\<exists>st'. fold_result (relax_arc f potential node base) out st = Inr st' \<and> search_ok f source st'"
  using out st
proof (induction out arbitrary: st)
  case Nil
  then show ?case by simp
next
  case (Cons i out)
  have i: "i < length (fn_arcs f)" "fa_from (fn_arcs f ! i) = node" using Cons.prems(1) by simp_all
  obtain st1 where "relax_arc f potential node base i st = Inr st1" "search_ok f source st1"
    "sr_dist st1 ! node < unreachable"
    using relax_arc_ok [OF net Cons.prems(2) pot node Cons.prems(3) i, of base] by blast
  then show ?case using Cons.IH [of st1] Cons.prems(1) by simp
qed

lemma search_loop_ok:
  assumes "net_ok f" and "length potential = fn_nodes f" and "search_ok f source st"
  shows "\<exists>st'. search_loop f potential sink st = Inr st' \<and> search_ok f source st'"
  using assms
proof (induction f potential sink st rule: search_loop.induct)
  case (1 f potential sink st)
  show ?case
  proof (cases "queue_pop (sr_queue st)")
    case None
    then show ?thesis using 1(5) by (subst search_loop.simps) simp
  next
    case (Some p)
    then obtain node q where pop: "queue_pop (sr_queue st) = Some (node, q)" by (cases p) auto
    have hp: "heap (sr_queue st)" using 1(5) by (simp add: search_ok_def)
    obtain dist where q: "mset (sr_queue st) = add_mset \<lparr>nd_dist = dist, nd_node = node\<rparr> (mset q)" "heap q"
      using heap_queue.pop_Some [OF hp pop] by blast
    have node: "node < fn_nodes f" "sr_dist st ! node < unreachable"
      using 1(5) q(1) by (auto simp: search_ok_def)
    let ?st = "st\<lparr>sr_queue := q\<rparr>"
    have ok: "search_ok f source ?st" using 1(5) q by (auto simp: search_ok_def)
    have at: "index_at (sr_settled ?st) node = Inr (sr_settled ?st ! node)"
      using ok node(1) by (simp add: search_ok_def index_at_ok)
    show ?thesis
    proof (cases "sr_settled ?st ! node")
      case True
      then have "search_loop f potential sink st = search_loop f potential sink ?st"
        using pop at by (subst search_loop.simps) (simp add: Let_def)
      moreover have "index_at (sr_settled ?st) node = Inr True" using at True by simp
      ultimately show ?thesis using 1(1) [OF pop refl refl _ refl 1(3,4) ok] by simp
    next
      case False
      let ?st2 = "?st\<lparr>sr_settled := (sr_settled ?st)[node := True]\<rparr>"
      have ok2: "search_ok f source ?st2" using ok by (simp add: search_ok_def)
      show ?thesis
      proof (cases "node = sink")
        case True
        then have "search_loop f potential sink st = Inr ?st2"
          using pop at False by (subst search_loop.simps) (simp add: Let_def)
        then show ?thesis using ok2 by blast
      next
        case ns: False
        have "\<forall>i \<in> set (fn_heads f ! node). i < length (fn_arcs f) \<and> fa_from (fn_arcs f ! i) = node"
          using 1(3) node(1) by (simp add: net_ok_def)
        from relax_arcs_ok [OF 1(3,4) node(1) this ok2] node(2)
        obtain st3 where st3: "fold_result (relax_arc f potential node (sr_dist st ! node))
            (fn_heads f ! node) ?st2 = Inr st3" "search_ok f source st3" by auto
        have "settle_node f potential node ?st2 = Inr st3"
          using st3(1) node(1) 1(3) ok2 by (simp add: settle_node_def index_at_ok search_ok_def net_ok_def)
        moreover from this have "search_loop f potential sink st = search_loop f potential sink st3"
          using pop at False ns by (subst search_loop.simps) (simp add: Let_def)
        moreover have "index_at (sr_settled ?st) node = Inr False" using at False by simp
        ultimately show ?thesis
          using 1(2) [OF pop refl refl _ refl refl ns _ 1(3,4) st3(2)] by simp
      qed
    qed
  qed
qed

lemma shortest_path_ok:
  assumes "net_ok f" and "length potential = fn_nodes f" and "source < fn_nodes f" and "sink < fn_nodes f"
  shows "\<exists>st. shortest_path f source sink potential = Inr (sr_dist st ! sink < unreachable, st) \<and>
    search_ok f source st"
proof -
  let ?n = "fn_nodes f"
  let ?st = "\<lparr>sr_dist = (replicate ?n unreachable)[source := 0], sr_settled = replicate ?n False,
     sr_prev = replicate ?n None, sr_queue = queue_push source 0 (queue_reset [])\<rparr>"
  have q: "heap (queue_push source 0 [])"
    "mset (queue_push source 0 []) = {#\<lparr>nd_dist = 0, nd_node = source\<rparr>#}"
    using heap_queue.push_ok [OF heap_queue.invar_empty, of source 0] by (blast, simp)
  have "search_ok f source ?st"
    using assms(3) q by (auto simp: search_ok_def queue_reset_def nth_list_update unreachable_def max64_def)
  from search_loop_ok [OF assms(1,2) this, of sink] obtain st
    where "search_loop f potential sink ?st = Inr st" "search_ok f source st" by blast
  moreover from this have "index_at (sr_dist st) sink = Inr (sr_dist st ! sink)"
    using assms(4) by (simp add: search_ok_def index_at_ok)
  ultimately show ?thesis using assms(3) by (auto simp: shortest_path_def Let_def)
qed

section \<open>Paths\<close>

fun is_path :: "flow_arc list \<Rightarrow> nat \<Rightarrow> nat \<Rightarrow> nat list \<Rightarrow> bool" where
  "is_path arcs source v [] \<longleftrightarrow> v = source"
| "is_path arcs source v (i # is) \<longleftrightarrow> v \<noteq> source \<and> i < length arcs \<and> fa_to (arcs ! i) = v \<and>
     0 < residual (arcs ! i) \<and> is_path arcs source (fa_from (arcs ! i)) is"

lemma walk_back_Some:
  assumes "walk_back arcs prev source v = Some r"
  shows "(v = source \<and> r = Inr []) \<or>
    (v \<noteq> source \<and> (\<exists>e. r = Inl e \<and> (index_at prev v = Inl e \<or> (index_at prev v = Inr None \<and> e = Panic) \<or>
       (\<exists>i. index_at prev v = Inr (Some i) \<and> index_at arcs i = Inl e)))) \<or>
    (v \<noteq> source \<and> v < length prev \<and> (\<exists>i q. prev ! v = Some i \<and> i < length arcs \<and>
       walk_back arcs prev source (fa_from (arcs ! i)) = Some q \<and> r = and_then q (\<lambda>path. Inr (i # path))))"
  using assms
  by (subst (asm) walk_back.simps)
    (auto simp: result_simps bind_eq_Some_conv split: if_splits sum.splits option.splits)

lemma walk_back_Cons:
  assumes "walk_back arcs prev source v = Some (Inr (i # path))"
  shows "v < length prev" and "prev ! v = Some i" and "i < length arcs"
    and "walk_back arcs prev source (fa_from (arcs ! i)) = Some (Inr path)"
proof -
  from walk_back_Some [OF assms] obtain j q where j: "v < length prev" "prev ! v = Some j" "j < length arcs"
    "walk_back arcs prev source (fa_from (arcs ! j)) = Some q"
    "and_then q (\<lambda>path. Inr (j # path)) = Inr (i # path)" by force
  then have "j = i" "q = Inr path" by (auto simp: result_simps)
  with j show "v < length prev" "prev ! v = Some i" "i < length arcs"
    "walk_back arcs prev source (fa_from (arcs ! i)) = Some (Inr path)" by simp_all
qed

text \<open>On the predecessors a search leaves, a walk that ends has followed a path.\<close>

lemma walk_back_path:
  assumes walk: "walk_back arcs prev source v = Some r" and "arcs = fn_arcs f" and "prev = sr_prev st"
    and "net_ok f" and "search_ok f source st" and "v < fn_nodes f" and "sr_dist st ! v < unreachable"
  shows "\<exists>path. r = Inr path \<and> is_path arcs source v path"
  using assms
proof (induction arcs prev source v r rule: walk_back.raw_induct [rotated, consumes 1, case_names step])
  case (step walk arcs prev source v r)
  show ?case
  proof (cases "v = source")
    case True
    then have "r = Inr []" using step(2) by simp
    then show ?thesis using True by (intro exI [of _ "[]"]) simp
  next
    case False
    have v: "v < length prev" "sr_dist st ! v < unreachable" "v < fn_nodes f"
      using step(4,6-8) by (simp_all add: search_ok_def)
    have "prev ! v \<noteq> None"
      using step(6) False v(2,3) unfolding step(4) search_ok_def by blast
    then obtain i where i: "prev ! v = Some i" by blast
    have "\<forall>w < fn_nodes f. \<forall>i. sr_prev st ! w = Some i \<longrightarrow>
        i < length (fn_arcs f) \<and> fa_to (fn_arcs f ! i) = w \<and> 0 < residual (fn_arcs f ! i) \<and>
        sr_dist st ! fa_from (fn_arcs f ! i) < unreachable"
      using step(6) unfolding search_ok_def by (elim conjE) assumption
    then have arc: "i < length arcs" "fa_to (arcs ! i) = v" "0 < residual (arcs ! i)"
      "sr_dist st ! fa_from (arcs ! i) < unreachable"
      using i v(3) unfolding step(3,4) by blast+
    have from_less: "fa_from (arcs ! i) < fn_nodes f"
      using arc(1) step(3,5) by (simp add: net_ok_def arc_ok_def)
    have "index_at prev v = Inr (Some i)" "index_at arcs i = Inr (arcs ! i)"
      using v(1) i arc(1) by (simp_all add: index_at_ok)
    then have "Option.bind (walk arcs prev source (fa_from (arcs ! i)))
        (\<lambda>r. Some (and_then r (\<lambda>path. Inr (i # path)))) = Some r"
      using step(2) False by simp
    then obtain q where q: "walk arcs prev source (fa_from (arcs ! i)) = Some q"
      "r = and_then q (\<lambda>path. Inr (i # path))"
      by (cases "walk arcs prev source (fa_from (arcs ! i))") simp_all
    from step(1) [OF q(1) step(3-6) from_less arc(4)] obtain path
      where "q = Inr path" "is_path arcs source (fa_from (arcs ! i)) path" by blast
    then show ?thesis using q(2) False arc by simp
  qed
qed

lemma walk_back_suffix:
  assumes "walk_back arcs prev source v = Some (Inr (a @ i # b))"
  shows "\<exists>w. walk_back arcs prev source w = Some (Inr (i # b)) \<and> prev ! w = Some i"
  using assms
proof (induction a arbitrary: v)
  case Nil
  then have "walk_back arcs prev source v = Some (Inr (i # b))" by simp
  then show ?case using walk_back_Cons(2) by blast
next
  case (Cons j a)
  then have "walk_back arcs prev source v = Some (Inr (j # a @ i # b))" by simp
  then show ?case by (rule Cons.IH [OF walk_back_Cons(4)])
qed

text \<open>It visits no node twice: the walk from a node is determined by the node.\<close>

lemma walk_back_distinct:
  assumes "walk_back arcs prev source v = Some (Inr path)" and "is_path arcs source v path"
    and "\<forall>w i. prev ! w = Some i \<longrightarrow> w < length prev \<longrightarrow> fa_to (arcs ! i) = w"
  shows "distinct (map (\<lambda>i. fa_to (arcs ! i)) path)"
  using assms
proof (induction path arbitrary: v)
  case Nil
  then show ?case by simp
next
  case (Cons i path)
  note rest = walk_back_Cons(4) [OF Cons.prems(1)]
  have v: "fa_to (arcs ! i) = v" using Cons.prems(2) by simp
  have "fa_to (arcs ! j) \<noteq> v" if j: "j \<in> set path" for j
  proof
    assume to: "fa_to (arcs ! j) = v"
    obtain a b where ab: "path = a @ j # b" using j by (auto simp: in_set_conv_decomp)
    obtain w where w: "walk_back arcs prev source w = Some (Inr (j # b))" "prev ! w = Some j"
      using walk_back_suffix rest ab by metis
    have "w < length prev" by (rule walk_back_Cons(1) [OF w(1)])
    then have "w = v" using Cons.prems(3) w(2) to by metis
    then have "i # path = j # b" using w(1) Cons.prems(1) by simp
    then show False using ab by simp
  qed
  then have "fa_to (arcs ! i) \<notin> (\<lambda>i. fa_to (arcs ! i)) ` set path" unfolding v by blast
  moreover have "distinct (map (\<lambda>i. fa_to (arcs ! i)) path)"
    using Cons.IH [OF rest] Cons.prems(2,3) by simp
  ultimately show ?case by simp
qed

lemma path_avoids_source: "is_path arcs source v path \<Longrightarrow> i \<in> set path \<Longrightarrow> fa_to (arcs ! i) \<noteq> source"
  by (induction path arbitrary: v) auto

lemma path_twin_free:
  assumes "is_path arcs source v path" and "distinct (map (\<lambda>i. fa_to (arcs ! i)) path)"
    and "\<forall>i < length arcs. arc_ok n arcs i"
  shows "\<forall>i \<in> set path. twin i \<notin> set path"
  using assms
proof (induction path arbitrary: v)
  case Nil
  then show ?case by simp
next
  case (Cons i path)
  have i: "i < length arcs" "fa_to (arcs ! i) = v" "is_path arcs source (fa_from (arcs ! i)) path" "v \<noteq> source"
    using Cons.prems(1) by auto
  have tw: "fa_to (arcs ! twin i) = fa_from (arcs ! i)" "fa_from (arcs ! twin i) = v"
    using i Cons.prems(3) by (auto simp: arc_ok_def)
  have "twin i \<notin> set path"
  proof
    assume mem: "twin i \<in> set path"
    then obtain j path' where path: "path = j # path'" by (cases path) auto
    then have "fa_to (arcs ! j) = fa_from (arcs ! i)" using i(3) by simp
    then have "twin i = j" using mem path tw(1) Cons.prems(2) by (auto simp: image_iff)
    then have "is_path arcs source v path'" using i(3) path tw(2) by simp
    then show False using i(4) Cons.prems(2) i(2) path by (cases path') auto
  qed
  moreover have "\<forall>j \<in> set path. twin j \<notin> set path"
    using Cons.IH [OF i(3)] Cons.prems(2,3) by simp
  ultimately show ?case by (metis set_ConsD twin_twin twin_neq(1) list.set_intros(1,2))
qed

lemma path_index_less: "is_path arcs source v path \<Longrightarrow> i \<in> set path \<Longrightarrow> i < length arcs"
  by (induction path arbitrary: v) auto

lemma path_residual_pos: "is_path arcs source v path \<Longrightarrow> i \<in> set path \<Longrightarrow> 0 < residual (arcs ! i)"
  by (induction path arbitrary: v) auto

text \<open>Along a path, every node but its ends is left as often as it is entered.\<close>

lemma path_balance:
  "is_path arcs source v path \<Longrightarrow>
    sum_list (map (\<lambda>i. of_bool (fa_from (arcs ! i) = w) - of_bool (fa_to (arcs ! i) = w)) path) =
    (of_bool (source = w) - of_bool (v = w) :: int)"
  by (induction path arbitrary: v) auto

lemma bottleneck_fold:
  "fold (\<lambda>index b. if residual (arcs ! index) < b then residual (arcs ! index) else b) path b0 \<le> b0 \<and>
   (\<forall>i \<in> set path. fold (\<lambda>index b. if residual (arcs ! index) < b then residual (arcs ! index) else b) path b0
      \<le> residual (arcs ! i)) \<and>
   (0 < b0 \<longrightarrow> (\<forall>i \<in> set path. 0 < residual (arcs ! i)) \<longrightarrow>
      0 < fold (\<lambda>index b. if residual (arcs ! index) < b then residual (arcs ! index) else b) path b0)"
proof (induction path arbitrary: b0)
  case Nil
  then show ?case by simp
next
  case (Cons i path)
  show ?case
    using Cons.IH [of "if residual (arcs ! i) < b0 then residual (arcs ! i) else b0"]
    by (auto split: if_splits)
qed

lemma bottleneck_bounds:
  assumes "is_path arcs source v path"
  shows "0 < bottleneck_of arcs path" and "bottleneck_of arcs path \<le> max64"
    and "i \<in> set path \<Longrightarrow> bottleneck_of arcs path \<le> residual (arcs ! i)"
  using bottleneck_fold [of arcs path max64] path_residual_pos [OF assms]
  by (auto simp: bottleneck_of_def max64_def)

section \<open>What an augmentation changes\<close>

definition arcs_ok :: "nat \<Rightarrow> flow_arc list \<Rightarrow> bool" where
  "arcs_ok n arcs \<longleftrightarrow> (\<forall>i < length arcs. arc_ok n arcs i)"

text \<open>What leaves a node, less what enters it: an arc's twin carries the negated flow.\<close>

definition outflow :: "flow_arc list \<Rightarrow> nat \<Rightarrow> int" where
  "outflow arcs v = sum_list (map (\<lambda>arc. if fa_from arc = v then fa_flow arc else 0) arcs)"

text \<open>The part of an arc no augmentation changes.\<close>

definition arc_shape :: "flow_arc \<Rightarrow> nat \<times> nat \<times> int \<times> int" where
  "arc_shape arc = (fa_from arc, fa_to arc, fa_capacity arc, fa_cost arc)"

lemma add_flow_simps [simp]:
  "fa_from (add_flow b arc) = fa_from arc" "fa_to (add_flow b arc) = fa_to arc"
  "fa_capacity (add_flow b arc) = fa_capacity arc" "fa_cost (add_flow b arc) = fa_cost arc"
  "fa_flow (add_flow b arc) = wrap64 (fa_flow arc + b)" "arc_shape (add_flow b arc) = arc_shape arc"
  by (simp_all add: add_flow_def arc_shape_def)

lemma push_arc_shape:
  assumes "i < length arcs" and "twin i < length arcs"
  shows "length (push_arc b i arcs) = length arcs"
    and "map arc_shape (push_arc b i arcs) = map arc_shape arcs"
    and "j \<noteq> i \<Longrightarrow> j \<noteq> twin i \<Longrightarrow> push_arc b i arcs ! j = arcs ! j"
    and "push_arc b i arcs ! i = add_flow b (arcs ! i)"
    and "push_arc b i arcs ! twin i = add_flow (- b) (arcs ! twin i)"
  using assms by (simp_all add: push_arc_def Let_def nth_list_update)
    (auto intro!: nth_equalityI simp: nth_list_update)

lemma push_arc_flow:
  assumes ok: "arcs_ok n arcs" and i: "i < length arcs" and b: "0 \<le> b" "b \<le> residual (arcs ! i)"
  shows "fa_flow (push_arc b i arcs ! i) = fa_flow (arcs ! i) + b"
    and "fa_flow (push_arc b i arcs ! twin i) = fa_flow (arcs ! twin i) - b"
proof -
  note all = ok [unfolded arcs_ok_def]
  have ai: "arc_ok n arcs i" using all i by blast
  then have ti: "twin i < length arcs" by (simp add: arc_ok_def)
  have up: "fa_flow (arcs ! i) + b \<le> fa_capacity (arcs ! i)"
    using b(2) arc_ok_flow(1) [OF all i] by simp
  have "in64 (fa_flow (arcs ! i) + b)"
    using arc_ok_flow(5) [OF all i] b(1) up ai by (simp add: in64_def arc_ok_def)
  then show "fa_flow (push_arc b i arcs ! i) = fa_flow (arcs ! i) + b"
    by (simp add: push_arc_shape(4) [OF i ti] wrap64_id)
  have "- max64 \<le> fa_flow (arcs ! twin i) - b" "fa_flow (arcs ! twin i) - b \<le> max64"
    using up ai b(1) arc_ok_flow(5) [OF all ti] by (simp_all add: in64_def arc_ok_def)
  then have "in64 (fa_flow (arcs ! twin i) - b)"
    by (simp add: in64_def min64_def max64_def)
  then show "fa_flow (push_arc b i arcs ! twin i) = fa_flow (arcs ! twin i) - b"
    by (simp add: push_arc_shape(5) [OF i ti] wrap64_id)
qed

lemma push_arc_ok:
  assumes ok: "arcs_ok n arcs" and i: "i < length arcs" and b: "0 \<le> b" "b \<le> residual (arcs ! i)"
  shows "arcs_ok n (push_arc b i arcs)"
  unfolding arcs_ok_def
proof (intro allI impI)
  fix j assume "j < length (push_arc b i arcs)"
  note all = ok [unfolded arcs_ok_def]
  have ai: "arc_ok n arcs i" using all i by blast
  then have ti: "twin i < length arcs" by (simp add: arc_ok_def)
  note shape = push_arc_shape [OF i ti, where b = b] and flow = push_arc_flow [OF ok i b]
  have j: "j < length arcs" using \<open>j < length _\<close> shape(1) by simp
  have aj: "arc_ok n arcs j" and at: "arc_ok n arcs (twin i)" using all j ti by blast+
  have le: "fa_flow (arcs ! i) + b \<le> fa_capacity (arcs ! i)"
    using b(2) arc_ok_flow(1) [OF all i] by simp
  consider "j = i" | "j = twin i" | "j \<noteq> i" "j \<noteq> twin i" "twin j \<noteq> i" "twin j \<noteq> twin i"
    by (metis twin_twin)
  then show "arc_ok n (push_arc b i arcs) j"
  proof cases
    case 1
    then show ?thesis using ai flow le shape by (simp add: arc_ok_def)
  next
    case 2
    then show ?thesis using at ai flow b(1) shape by (simp add: arc_ok_def)
  next
    case 3
    then show ?thesis using aj shape(1,3) by (simp add: arc_ok_def)
  qed
qed

lemma sum_list_update1:
  fixes xs :: "int list"
  shows "i < length xs \<Longrightarrow> sum_list (xs[i := x]) = sum_list xs + (x - xs ! i)"
proof (induction xs arbitrary: i)
  case Nil
  then show ?case by simp
next
  case (Cons y ys)
  then show ?case by (cases i) simp_all
qed

lemma sum_list_update2:
  fixes xs :: "int list"
  assumes "i < length xs" and "j < length xs" and "i \<noteq> j"
  shows "sum_list (xs[i := x, j := y]) = sum_list xs + (x - xs ! i) + (y - xs ! j)"
  using assms by (simp add: sum_list_update1)

lemma push_arc_outflow:
  assumes ok: "arcs_ok n arcs" and i: "i < length arcs" and b: "0 \<le> b" "b \<le> residual (arcs ! i)"
  shows "outflow (push_arc b i arcs) v = outflow arcs v +
    b * (of_bool (fa_from (arcs ! i) = v) - of_bool (fa_to (arcs ! i) = v))"
proof -
  let ?g = "\<lambda>arc. if fa_from arc = v then fa_flow arc else 0"
  have ai: "arc_ok n arcs i" using ok i by (simp add: arcs_ok_def)
  then have ti: "twin i < length arcs" by (simp add: arc_ok_def)
  note shape = push_arc_shape [OF i ti, where b = b] and flow = push_arc_flow [OF ok i b]
  have "map ?g (push_arc b i arcs) =
      (map ?g arcs)[i := ?g (push_arc b i arcs ! i), twin i := ?g (push_arc b i arcs ! twin i)]"
    using shape i ti by (intro nth_equalityI) (auto simp: nth_list_update simp del: if_split)
  then have "outflow (push_arc b i arcs) v = outflow arcs v +
      (?g (push_arc b i arcs ! i) - ?g (arcs ! i)) + (?g (push_arc b i arcs ! twin i) - ?g (arcs ! twin i))"
    using sum_list_update2 [of i "map ?g arcs" "twin i"] i ti
    by (simp add: outflow_def del: if_split)
  then show ?thesis using ai flow shape by (simp add: arc_ok_def)
qed

lemma push_path_effect:
  assumes "arcs_ok n arcs" and "0 \<le> b" and "distinct path" and "\<forall>i \<in> set path. twin i \<notin> set path"
    and "\<forall>i \<in> set path. i < length arcs \<and> b \<le> residual (arcs ! i)"
  shows "arcs_ok n (push_path b path arcs) \<and> length (push_path b path arcs) = length arcs \<and>
    map arc_shape (push_path b path arcs) = map arc_shape arcs \<and>
    outflow (push_path b path arcs) v = outflow arcs v +
      b * sum_list (map (\<lambda>i. of_bool (fa_from (arcs ! i) = v) - of_bool (fa_to (arcs ! i) = v)) path)"
  using assms
proof (induction path arbitrary: arcs)
  case Nil
  then show ?case by (simp add: push_path_def)
next
  case (Cons i path)
  let ?arcs = "push_arc b i arcs"
  have i: "i < length arcs" "b \<le> residual (arcs ! i)" using Cons.prems(5) by simp_all
  then have ti: "twin i < length arcs" using Cons.prems(1) by (simp add: arcs_ok_def arc_ok_def)
  note shape = push_arc_shape [OF i(1) ti, where b = b]
  have same: "?arcs ! j = arcs ! j" if "j \<in> set path" for j
    using that Cons.prems(3,4) by (intro shape(3)) auto
  have "arcs_ok n ?arcs" by (rule push_arc_ok [OF Cons.prems(1) i(1) Cons.prems(2) i(2)])
  then have IH: "arcs_ok n (push_path b path ?arcs) \<and> length (push_path b path ?arcs) = length ?arcs \<and>
    map arc_shape (push_path b path ?arcs) = map arc_shape ?arcs \<and>
    outflow (push_path b path ?arcs) v = outflow ?arcs v +
      b * sum_list (map (\<lambda>i. of_bool (fa_from (?arcs ! i) = v) - of_bool (fa_to (?arcs ! i) = v)) path)"
    using Cons.prems(2-5) same shape(1) by (intro Cons.IH) auto
  have same_sum: "map (\<lambda>i. of_bool (fa_from (?arcs ! i) = v) - of_bool (fa_to (?arcs ! i) = v) :: int) path =
      map (\<lambda>i. of_bool (fa_from (arcs ! i) = v) - of_bool (fa_to (arcs ! i) = v)) path"
    using same by simp
  have "push_path b (i # path) arcs = push_path b path ?arcs" by (simp add: push_path_def)
  then show ?case
    using IH shape(1,2) push_arc_outflow [OF Cons.prems(1) i(1) Cons.prems(2) i(2), of v]
    unfolding same_sum by (simp add: algebra_simps)
qed

end
