(* ===== verification/Flow_Solve.thy ===== *)
theory Flow_Solve
  imports Flow_Network
begin

text \<open>
  What \<^verbatim>\<open>flowNetwork.solve\<close> promises and what it does not. A run that returns
  leaves a feasible flow: every arc within its capacity, every node but the two ends conserved. The two
  networks at the end show where the comment on \<^verbatim>\<open>solve\<close> goes wrong: the
  search stops at the sink but the potentials absorb tentative distances, after which reduced costs may be
  negative, and the run may miss the best flow or never end.
\<close>

section \<open>A run that returns leaves a feasible flow\<close>

lemma relax_initial_ok:
  assumes "net_ok f" and "v < fn_nodes f" and "i < length (fn_arcs f)" and "length p = fn_nodes f"
  shows "\<exists>p'. relax_initial f v i p = Inr p' \<and> length p' = fn_nodes f"
proof -
  have "fa_to (fn_arcs f ! i) < fn_nodes f" using assms(1,3) by (simp add: net_ok_def arc_ok_def)
  then show ?thesis using assms by (simp add: relax_initial_def index_at_ok Let_def)
qed

lemma relax_node_ok:
  assumes "net_ok f" and "v < fn_nodes f" and "length p = fn_nodes f"
  shows "\<exists>p'. relax_node f v p = Inr p' \<and> length p' = fn_nodes f"
proof -
  have "length (fn_heads f) = fn_nodes f" "\<forall>i \<in> set (fn_heads f ! v). i < length (fn_arcs f)"
    using assms(1,2) by (simp_all add: net_ok_def)
  moreover have "\<exists>p'. fold_result (relax_initial f v) (fn_heads f ! v) p = Inr p' \<and> length p' = fn_nodes f"
    using calculation(2) assms by (intro fold_result_ok relax_initial_ok) auto
  ultimately show ?thesis using assms(2,3) by (simp add: relax_node_def index_at_ok)
qed

lemma initial_potentials_ok:
  assumes "net_ok f" and "source < fn_nodes f"
  shows "\<exists>p. initial_potentials f source = Inr p \<and> length p = fn_nodes f"
proof -
  have "\<exists>p. fold_result (relax_node f) [0..<fn_nodes f]
      ((replicate (fn_nodes f) unreachable)[source := 0]) = Inr p \<and> length p = fn_nodes f"
    by (rule fold_result_ok) (simp_all add: relax_node_ok assms(1))
  then show ?thesis using assms(2) by (auto simp: initial_potentials_def)
qed

text \<open>One augmentation along the path the search left.\<close>

lemma augmentation_ok:
  assumes net: "net_ok f" and st: "search_ok f source st" and sink: "sink < fn_nodes f"
    and found: "sr_dist st ! sink < unreachable"
    and walk: "walk_back (fn_arcs f) (sr_prev st) source sink = Some r"
  shows "\<exists>path. r = Inr path \<and>
    (let b = bottleneck_of (fn_arcs f) path; arcs = push_path b path (fn_arcs f)
     in 0 < b \<and> net_ok (f\<lparr>fn_arcs := arcs\<rparr>) \<and> map arc_shape arcs = map arc_shape (fn_arcs f) \<and>
        (\<forall>v. outflow arcs v = outflow (fn_arcs f) v + b * (of_bool (source = v) - of_bool (sink = v))))"
proof -
  let ?arcs = "fn_arcs f"
  obtain path where path: "r = Inr path" "is_path ?arcs source sink path"
    using walk_back_path [OF walk refl refl net st sink found] by blast
  have all: "\<forall>i < length ?arcs. arc_ok (fn_nodes f) ?arcs i" using net by (simp add: net_ok_def)
  have "\<forall>w i. sr_prev st ! w = Some i \<longrightarrow> w < length (sr_prev st) \<longrightarrow> fa_to (?arcs ! i) = w"
    using st by (simp add: search_ok_def)
  then have dist: "distinct (map (\<lambda>i. fa_to (?arcs ! i)) path)"
    using walk path by (intro walk_back_distinct [where v = sink]) simp_all
  let ?b = "bottleneck_of ?arcs path"
  let ?new = "push_path ?b path ?arcs"
  have pre: "arcs_ok (fn_nodes f) ?arcs" "0 \<le> ?b" "distinct path" "\<forall>i \<in> set path. twin i \<notin> set path"
    "\<forall>i \<in> set path. i < length ?arcs \<and> ?b \<le> residual (?arcs ! i)"
    using all bottleneck_bounds [OF path(2)] dist path_twin_free [OF path(2) dist all]
      path_index_less [OF path(2)] by (auto simp: arcs_ok_def distinct_map)
  note effect = push_path_effect [OF pre]
  have len: "length ?new = length ?arcs" and ok: "arcs_ok (fn_nodes f) ?new"
    and shape: "map arc_shape ?new = map arc_shape ?arcs"
    using effect by blast+
  have start: "fa_from (?new ! i) = fa_from (?arcs ! i)" if "i < length ?arcs" for i
    using arg_cong [OF shape, of "\<lambda>xs. fst (xs ! i)"] that len by (simp add: arc_shape_def)
  have "length (fn_heads f) = fn_nodes f" "even (length ?arcs)"
    "\<forall>v < fn_nodes f. \<forall>i \<in> set (fn_heads f ! v). i < length ?arcs \<and> fa_from (?arcs ! i) = v"
    using net by (simp_all add: net_ok_def)
  then have "net_ok (f\<lparr>fn_arcs := ?new\<rparr>)"
    using ok start unfolding net_ok_def arcs_ok_def by (simp add: len)
  then show ?thesis
    using path(1) bottleneck_bounds(1) [OF path(2)] effect path_balance [OF path(2)] by (simp add: Let_def)
qed

definition feasible_from :: "flow_network \<Rightarrow> nat \<Rightarrow> nat \<Rightarrow> flow_network \<Rightarrow> bool" where
  "feasible_from f source sink g \<longleftrightarrow>
     fn_nodes g = fn_nodes f \<and> fn_heads g = fn_heads f \<and> net_ok g \<and>
     map arc_shape (fn_arcs g) = map arc_shape (fn_arcs f) \<and>
     (\<forall>v < fn_nodes f. v \<noteq> source \<longrightarrow> v \<noteq> sink \<longrightarrow> outflow (fn_arcs g) v = outflow (fn_arcs f) v)"

lemma augment_loop_ok:
  assumes "augment_loop k source sink g p res = Some r"
    and "net_ok g" and "length p = fn_nodes g" and "source < fn_nodes g" and "sink < fn_nodes g"
    and "source \<noteq> sink" and "sv_flow res = wrap64 (outflow (fn_arcs g) source - base)"
  shows "\<exists>h out. r = Inr (h, out) \<and> feasible_from g source sink h \<and>
    sv_flow out = wrap64 (outflow (fn_arcs h) source - base) \<and>
    sv_augmentations out \<le> sv_augmentations res + k"
  using assms
proof (induction k arbitrary: g p res)
  case 0
  then show ?case by (auto simp: feasible_from_def)
next
  case (Suc k)
  obtain st where st: "shortest_path g source sink p = Inr (sr_dist st ! sink < unreachable, st)"
    "search_ok g source st"
    using shortest_path_ok [OF Suc.prems(2-5)] by blast
  have same: "feasible_from g source sink g" using Suc.prems(2) by (simp add: feasible_from_def)
  let ?cost = "wrap64 (sr_dist st ! sink + p ! sink - p ! source)"
  show ?case
  proof (cases "\<not> sr_dist st ! sink < unreachable \<or> ?cost \<ge> 0")
    case True
    then have "r = Inr (g, res)" using Suc.prems(1) st(1) by (auto simp: Let_def split: if_splits)
    then show ?thesis using same Suc.prems(7) by simp
  next
    case False
    then obtain w where w: "walk_back (fn_arcs g) (sr_prev st) source sink = Some w"
      using Suc.prems(1) st(1) by (cases "walk_back (fn_arcs g) (sr_prev st) source sink")
        (auto simp: Let_def)
    from False have "sr_dist st ! sink < unreachable" by simp
    from augmentation_ok [OF Suc.prems(2) st(2) Suc.prems(5) this w]
    obtain path where path: "w = Inr path" by (auto simp: Let_def)
    define b where "b = bottleneck_of (fn_arcs g) path"
    define arcs where "arcs = push_path b path (fn_arcs g)"
    have new: "net_ok (g\<lparr>fn_arcs := arcs\<rparr>)" "map arc_shape arcs = map arc_shape (fn_arcs g)"
      "outflow arcs v = outflow (fn_arcs g) v + b * (of_bool (source = v) - of_bool (sink = v))" for v
      using augmentation_ok [OF Suc.prems(2) st(2) Suc.prems(5) \<open>sr_dist st ! sink < unreachable\<close> w] path
      by (simp_all add: Let_def b_def arcs_def)
    let ?res = "res\<lparr>sv_flow := wrap64 (sv_flow res + b),
      sv_cost := wrap64 (sv_cost res + wrap64 (b * ?cost)), sv_augmentations := sv_augmentations res + 1\<rparr>"
    have "augment_loop k source sink (g\<lparr>fn_arcs := arcs\<rparr>) (raise_potentials p (sr_dist st)) ?res = Some r"
      using Suc.prems(1) st(1) False w path by (simp add: Let_def b_def arcs_def)
    moreover have "sv_flow ?res = wrap64 (outflow arcs source - base)"
      using Suc.prems(6,7) new(3) [of source] by (simp add: wrap64_def algebra_simps mod_simps)
    moreover have "length (raise_potentials p (sr_dist st)) = fn_nodes g"
      using Suc.prems(3) st(2) by (simp add: raise_potentials_def search_ok_def)
    ultimately obtain h out where h: "r = Inr (h, out)" "feasible_from (g\<lparr>fn_arcs := arcs\<rparr>) source sink h"
      "sv_flow out = wrap64 (outflow (fn_arcs h) source - base)" "sv_augmentations out \<le> sv_augmentations ?res + k"
      using Suc.IH [of "g\<lparr>fn_arcs := arcs\<rparr>" "raise_potentials p (sr_dist st)" ?res] new(1) Suc.prems(4-6)
      by auto
    have "feasible_from g source sink h"
      using h(2) new(2,3) by (auto simp: feasible_from_def)
    then show ?thesis using h by simp
  qed
qed

text \<open>C6: When \<^verbatim>\<open>solve\<close> returns on a well-formed network, it has not panicked, it has kept
  every arc between zero and its capacity and every twin at the negated flow, every node but the source and
  the sink passes on exactly what it receives, the reported flow is what left the source, and no more
  augmentations were made than allowed.\<close>

theorem solve_feasible:
  assumes "net_ok f" and "source < fn_nodes f" and "sink < fn_nodes f" and "source \<noteq> sink"
    and "solve_flow f source sink k = Some r"
  shows "\<exists>g out. r = Inr (g, out) \<and> feasible_from f source sink g \<and>
    (\<forall>i < length (fn_arcs g). even i \<longrightarrow>
       0 \<le> fa_flow (fn_arcs g ! i) \<and> fa_flow (fn_arcs g ! i) \<le> fa_capacity (fn_arcs g ! i) \<and>
       fa_flow (fn_arcs g ! twin i) = - fa_flow (fn_arcs g ! i)) \<and>
    sv_flow out = wrap64 (outflow (fn_arcs g) source - outflow (fn_arcs f) source) \<and>
    sv_augmentations out \<le> k"
proof -
  obtain p where p: "initial_potentials f source = Inr p" "length p = fn_nodes f"
    using initial_potentials_ok [OF assms(1,2)] by blast
  let ?res = "\<lparr>sv_flow = 0, sv_cost = 0, sv_augmentations = 0, sv_limit_reached = False\<rparr>"
  have "augment_loop k source sink f p ?res = Some r"
    using assms(5) p(1) by (simp add: solve_flow_def)
  moreover have "sv_flow ?res = wrap64 (outflow (fn_arcs f) source - outflow (fn_arcs f) source)"
    by (simp add: wrap64_def)
  ultimately obtain g out where g: "r = Inr (g, out)" "feasible_from f source sink g"
    "sv_flow out = wrap64 (outflow (fn_arcs g) source - outflow (fn_arcs f) source)"
    "sv_augmentations out \<le> sv_augmentations ?res + k"
    using augment_loop_ok [OF _ assms(1) p(2) assms(2-4)] by blast
  have all: "\<forall>i < length (fn_arcs g). arc_ok (fn_nodes g) (fn_arcs g) i"
    using g(2) unfolding feasible_from_def net_ok_def by blast
  then have "\<forall>i < length (fn_arcs g). even i \<longrightarrow>
       0 \<le> fa_flow (fn_arcs g ! i) \<and> fa_flow (fn_arcs g ! i) \<le> fa_capacity (fn_arcs g ! i) \<and>
       fa_flow (fn_arcs g ! twin i) = - fa_flow (fn_arcs g ! i)"
    using arc_ok_flow(4) [OF all] by (simp add: arc_ok_def)
  then show ?thesis using g by simp
qed

section \<open>Three networks\<close>

definition layered_network :: "nat \<Rightarrow> (nat \<times> nat \<times> int \<times> int) list \<Rightarrow> flow_network" where
  "layered_network n edges = fold (\<lambda>(a, b, c, w) f. snd (add_edge a b c w f)) edges (new_flow_network n)"

text \<open>The money at stake in a flow: the cost of the forward arcs.\<close>

definition flow_cost :: "flow_network \<Rightarrow> int" where
  "flow_cost f = (\<Sum>arc \<leftarrow> fn_arcs f. if 0 < fa_flow arc then fa_flow arc * fa_cost arc else 0)"

definition with_flows :: "int list \<Rightarrow> flow_network \<Rightarrow> flow_network" where
  "with_flows flows f = f\<lparr>fn_arcs := map2 (\<lambda>x arc. arc\<lparr>fa_flow := x\<rparr>) flows (fn_arcs f)\<rparr>"

text \<open>Two lots (nodes 1 and 2) and two bids (3 and 4).\<close>

definition two_by_two :: flow_network where
  "two_by_two = layered_network 6 [(0, 1, 2, 0), (0, 2, 4, 0), (1, 3, 3, -4), (2, 3, 3, 0),
     (1, 4, 1, -6), (2, 4, 4, -3), (3, 5, 4, 0), (4, 5, 3, 0)]"

text \<open>Two lots and three bids.\<close>

definition two_by_three :: flow_network where
  "two_by_three = layered_network 7 [(0, 1, 3, 0), (0, 2, 3, 0), (1, 3, 1, -4), (2, 3, 3, -9),
     (1, 4, 1, -3), (2, 4, 2, -9), (1, 5, 1, -7), (3, 6, 2, 0), (4, 6, 4, 0), (5, 6, 4, 0)]"

text \<open>Four lots and two bids.\<close>

definition four_by_two :: flow_network where
  "four_by_two = layered_network 8 [(0, 1, 4, 0), (0, 2, 1, 0), (0, 3, 7, 0), (0, 4, 4, 0), (1, 5, 4, -8),
     (4, 5, 4, -2), (1, 6, 1, -9), (2, 6, 1, -8), (3, 6, 1, -8), (4, 6, 1, -3), (5, 7, 8, 0), (6, 7, 2, 0)]"

lemma solve_feasible_witness:
  "\<exists>g out. solve_flow two_by_two 0 5 9 = Some (Inr (g, out)) \<and> feasible_from two_by_two 0 5 g \<and>
    sv_flow out = outflow (fn_arcs g) 0"
proof -
  have net: "net_ok two_by_two" by code_simp
  obtain r where r: "solve_flow two_by_two 0 5 9 = Some r"
  proof -
    have "solve_flow two_by_two 0 5 9 \<noteq> None" by code_simp
    then show ?thesis using that by blast
  qed
  have nodes: "(0::nat) < fn_nodes two_by_two" "5 < fn_nodes two_by_two" by code_simp+
  obtain g out where g: "r = Inr (g, out)" "feasible_from two_by_two 0 5 g"
    "sv_flow out = wrap64 (outflow (fn_arcs g) 0 - outflow (fn_arcs two_by_two) 0)"
    using solve_feasible [OF net nodes _ r] by auto
  have eval: "(case solve_flow two_by_two 0 5 9 of Some (Inr (g, out)) \<Rightarrow> sv_flow out = outflow (fn_arcs g) 0
      | _ \<Rightarrow> False)" by code_simp
  then have "sv_flow out = outflow (fn_arcs g) 0" using r g(1) by simp
  then show ?thesis using r g by blast
qed

definition better_flow :: flow_network where
  "better_flow = with_flows [2, -2, 3, -3, 2, -2, 0, 0, 0, 0, 3, -3, 2, -2, 3, -3] two_by_two"

lemma better_flow_feasible: "feasible_from two_by_two 0 5 better_flow"
proof -
  have "fn_nodes better_flow = fn_nodes two_by_two" "fn_heads better_flow = fn_heads two_by_two"
    by (simp_all add: better_flow_def with_flows_def)
  moreover have "net_ok better_flow" "fn_nodes two_by_two = 6" by code_simp+
  moreover have "map arc_shape (fn_arcs better_flow) = map arc_shape (fn_arcs two_by_two)" by code_simp
  moreover have sums: "map (outflow (fn_arcs better_flow)) [1, 2, 3, 4] = map (outflow (fn_arcs two_by_two)) [1, 2, 3, 4]"
    by code_simp
  moreover have "outflow (fn_arcs better_flow) v = outflow (fn_arcs two_by_two) v"
    if "v < 6" "v \<noteq> 0" "v \<noteq> 5" for v
  proof -
    have "v \<in> set [1, 2, 3, 4]" using that by auto
    then show ?thesis using sums by (simp only: map_eq_conv)
  qed
  ultimately show ?thesis unfolding feasible_from_def by simp
qed

text \<open>
  The run stops at surplus 16 although the same network carries a feasible flow of surplus 17: after the first
  early exit a reduced cost is negative, and the search settles the sink too soon.
\<close>

theorem solve_misses_the_best_flow:
  "(case solve_flow two_by_two 0 5 9 of
      Some (Inr (g, out)) \<Rightarrow> \<not> sv_limit_reached out \<and> flow_cost g = -16
    | _ \<Rightarrow> False) \<and>
   feasible_from two_by_two 0 5 better_flow \<and> flow_cost better_flow = -17"
proof (intro conjI)
  show "feasible_from two_by_two 0 5 better_flow" by (rule better_flow_feasible)
qed code_simp+

text \<open>The reported cost is not the cost of the flow either.\<close>

theorem solve_misreports_the_cost:
  "case solve_flow four_by_two 0 7 9 of
     Some (Inr (g, out)) \<Rightarrow> \<not> sv_limit_reached out \<and> sv_cost out = -51 \<and> flow_cost g = -56
   | _ \<Rightarrow> False"
  by code_simp

text \<open>One turn of the augmentation loop that augments, for stepping through a run.\<close>

definition turn :: "nat \<Rightarrow> nat \<Rightarrow> flow_network \<times> int list \<times> solve_result \<Rightarrow>
    (flow_network \<times> int list \<times> solve_result) option" where
  "turn source sink s = (case s of (f, p, res) \<Rightarrow>
     (case shortest_path f source sink p of
       Inl e \<Rightarrow> None
     | Inr (found, st) \<Rightarrow>
         let c = wrap64 (sr_dist st ! sink + p ! sink - p ! source)
         in if \<not> found \<or> c \<ge> 0 then None
            else (case walk_back (fn_arcs f) (sr_prev st) source sink of
                Some (Inr path) \<Rightarrow>
                  let b = bottleneck_of (fn_arcs f) path
                  in Some (f\<lparr>fn_arcs := push_path b path (fn_arcs f)\<rparr>, raise_potentials p (sr_dist st),
                       res\<lparr>sv_flow := wrap64 (sv_flow res + b),
                           sv_cost := wrap64 (sv_cost res + wrap64 (b * c)),
                           sv_augmentations := sv_augmentations res + 1\<rparr>)
              | _ \<Rightarrow> None)))"

primrec turns :: "nat \<Rightarrow> nat \<Rightarrow> nat \<Rightarrow> flow_network \<times> int list \<times> solve_result \<Rightarrow>
    (flow_network \<times> int list \<times> solve_result) option" where
  "turns 0 source sink s = Some s"
| "turns (Suc n) source sink s = Option.bind (turn source sink s) (turns n source sink)"

lemma augment_turn:
  assumes "turn source sink (f, p, res) = Some (f', p', res')"
  shows "augment_loop (Suc k) source sink f p res = augment_loop k source sink f' p' res'"
  using assms by (auto simp: turn_def Let_def split: sum.splits if_splits option.splits prod.splits)

lemma augment_turns:
  assumes "turns n source sink (f, p, res) = Some (f', p', res')"
  shows "augment_loop (n + k) source sink f p res = augment_loop k source sink f' p' res'"
  using assms
proof (induction n arbitrary: f p res)
  case 0
  then show ?case by simp
next
  case (Suc n)
  then obtain f1 p1 r1 where "turn source sink (f, p, res) = Some (f1, p1, r1)"
    "turns n source sink (f1, p1, r1) = Some (f', p', res')"
    by (auto simp: bind_eq_Some_conv)
  then show ?case using Suc.IH augment_turn by simp
qed

text \<open>Predecessors that form a cycle: the walk never comes back.\<close>

lemma walk_back_cycle:
  assumes "\<forall>v \<in> C. v \<noteq> source \<and> v < length prev \<and>
    (\<exists>i. prev ! v = Some i \<and> i < length arcs \<and> fa_from (arcs ! i) \<in> C)"
    and "v \<in> C"
  shows "walk_back arcs prev source v = None"
proof (rule ccontr)
  assume "walk_back arcs prev source v \<noteq> None"
  then obtain r where walk: "walk_back arcs prev source v = Some r" by blast
  have "(\<forall>v \<in> C. v \<noteq> source \<and> v < length prev \<and>
    (\<exists>i. prev ! v = Some i \<and> i < length arcs \<and> fa_from (arcs ! i) \<in> C)) \<longrightarrow> v \<notin> C"
    using walk
  proof (induction arcs prev source v r rule: walk_back.raw_induct [rotated, consumes 1, case_names step])
    case (step walk arcs prev source v r)
    show ?case
    proof (intro impI notI)
      assume C: "\<forall>v \<in> C. v \<noteq> source \<and> v < length prev \<and>
        (\<exists>i. prev ! v = Some i \<and> i < length arcs \<and> fa_from (arcs ! i) \<in> C)" and v: "v \<in> C"
      then obtain i where i: "v \<noteq> source" "v < length prev" "prev ! v = Some i" "i < length arcs"
        "fa_from (arcs ! i) \<in> C" by blast
      then have "Option.bind (walk arcs prev source (fa_from (arcs ! i)))
          (\<lambda>r. Some (and_then r (\<lambda>path. Inr (i # path)))) = Some r"
        using step(2) by (simp add: index_at_ok)
      then obtain q where "walk arcs prev source (fa_from (arcs ! i)) = Some q"
        by (cases "walk arcs prev source (fa_from (arcs ! i))") simp_all
      from step(1) [OF this] show False using C i(5) by blast
    qed
  qed
  then show False using assms by blast
qed

text \<open>
  The fourth augmentation on \<open>two_by_three\<close> leaves predecessors that lead from the sink through
  the cycle 4, 2, 3, 1: with a limit of five augmentations or more the call never returns.
\<close>

definition stuck_network :: flow_network where
  "stuck_network = with_flows
     [2, -2, 3, -3, 0, 0, 2, -2, 1, -1, 1, -1, 1, -1, 2, -2, 2, -2, 1, -1] two_by_three"

definition stuck_search :: search where
  "stuck_search = (case shortest_path stuck_network 0 6 [0, 0, 5, -4, -3, -7, -3] of Inr (b, st) \<Rightarrow> st)"

theorem solve_may_not_return:
  "net_ok two_by_three \<and> (\<forall>k. solve_flow two_by_three 0 6 (5 + k) = None)"
proof
  show "net_ok two_by_three" by code_simp
  show "\<forall>k. solve_flow two_by_three 0 6 (5 + k) = None"
  proof
    fix k
    let ?p = "[0, 0, 5, -4, -3, -7, -3] :: int list"
    let ?r0 = "\<lparr>sv_flow = 0, sv_cost = 0, sv_augmentations = 0, sv_limit_reached = False\<rparr>"
    let ?r4 = "\<lparr>sv_flow = 5, sv_cost = -37, sv_augmentations = 4, sv_limit_reached = False\<rparr>"
    have init: "initial_potentials two_by_three 0 = Inr [0, 0, 0, -9, -9, -7, -9]" by code_simp
    have four: "turns 4 0 6 (two_by_three, [0, 0, 0, -9, -9, -7, -9], ?r0) = Some (stuck_network, ?p, ?r4)"
      by code_simp
    have "shortest_path stuck_network 0 6 ?p = Inr (True, stuck_search)" by code_simp
    moreover have "\<not> wrap64 (sr_dist stuck_search ! 6 + ?p ! 6 - ?p ! 0) \<ge> 0" by code_simp
    moreover have "walk_back (fn_arcs stuck_network) (sr_prev stuck_search) 0 6 = None"
    proof (rule walk_back_cycle [where C = "{6, 4, 2, 3, 1}"])
      have "(\<forall>(v, i) \<in> set [(6, 16), (4, 10), (2, 7), (3, 4), (1, 9)].
        v \<noteq> (0::nat) \<and> v < length (sr_prev stuck_search) \<and> sr_prev stuck_search ! v = Some i \<and>
        i < length (fn_arcs stuck_network) \<and> fa_from (fn_arcs stuck_network ! i) \<in> set [6, 4, 2, 3, 1])"
        by code_simp
      then show "\<forall>v \<in> {6, 4, 2, 3, 1}. v \<noteq> 0 \<and> v < length (sr_prev stuck_search) \<and>
        (\<exists>i. sr_prev stuck_search ! v = Some i \<and> i < length (fn_arcs stuck_network) \<and>
          fa_from (fn_arcs stuck_network ! i) \<in> {6, 4, 2, 3, 1})" by simp
    qed simp
    ultimately have stop: "augment_loop (Suc k) 0 6 stuck_network ?p ?r4 = None"
      by (simp only: augment_loop.simps) (simp add: Let_def)
    have "solve_flow two_by_three 0 6 (4 + Suc k) =
        augment_loop (4 + Suc k) 0 6 two_by_three [0, 0, 0, -9, -9, -7, -9] ?r0"
      unfolding solve_flow_def init by simp
    also have "\<dots> = None" using augment_turns [OF four, of "Suc k"] stop by simp
    finally show "solve_flow two_by_three 0 6 (5 + k) = None" by simp
  qed
qed

end
