(* ===== verification/Solver.thy ===== *)
theory Solver
  imports Certificate Flow_Solve
begin

text \<open>
  \<^verbatim>\<open>internal/auction/solver.go\<close> and \<^verbatim>\<open>solver_search.go\<close>: canonical
  form, the edges with their values, branch and bound over minimum lots, the repair of concentration limits,
  the flow relaxation and the conversion of cash into allocations. A computation that runs the flow may never
  return (\<open>None\<close>); one that does returns an error or a value. The Go maps of the search are
  association lists in insertion order and sets of edge indices.
\<close>

section \<open>Computations that may not return\<close>

definition run_then :: "'a result option \<Rightarrow> ('a \<Rightarrow> 'b result option) \<Rightarrow> 'b result option" where
  "run_then m f = (case m of None \<Rightarrow> None | Some (Inl e) \<Rightarrow> Some (Inl e) | Some (Inr x) \<Rightarrow> f x)"

lemma run_then_simps [simp]:
  "run_then None f = None" "run_then (Some (Inl e)) f = Some (Inl e)" "run_then (Some (Inr x)) f = f x"
  by (simp_all add: run_then_def)

lemma run_then_Inr_iff [result_simps]:
  "run_then m f = Some (Inr y) \<longleftrightarrow> (\<exists>x. m = Some (Inr x) \<and> f x = Some (Inr y))"
  by (auto simp: run_then_def split: option.splits sum.splits)

section \<open>The canonical problem\<close>

record 'd edge_spec =
  es_lot :: nat
  es_bid :: nat
  es_value :: int
  es_max_cash :: int
  es_unit_price :: 'd
  es_minimum_cash :: int

record 'd problem =
  pb_auction_id :: uuid
  pb_lots :: "lot list"
  pb_bids :: "'d bid list"
  pb_edges :: "'d edge_spec list"
  pb_blocked :: "rejection list"
  pb_currency :: currency_code
  pb_params :: "'d solver_params"

definition solver_version_v1 :: string where "solver_version_v1 = ''solver-v1''"

definition edge_for :: "'d decimal_ops \<Rightarrow> 'd solver_params \<Rightarrow> lot \<Rightarrow> 'd bid \<Rightarrow> nat \<Rightarrow> nat \<Rightarrow> 'd edge_spec result" where
  "edge_for D P l b i j =
    and_then (lot_implied_yield D l) (\<lambda>yield.
    and_then (lot_unit_price D l) (\<lambda>unit_price.
    and_then (grade_rank (lot_grade l)) (\<lambda>rank.
      let surplus = d_sub D yield (bid_min_yield b);
          v = d_sub D (d_add D (d_mul D (sp_surplus_weight P) surplus) (sp_funding_weight P))
                      (d_mul D (sp_risk_penalty P) (d_of_int D rank));
          points = d_int_part D (d_round_bank D (d_mul D v (d_of_int D value_scale)) 0);
          max_cash = (if minor (bid_budget b) < minor (lot_reserve_price l) then minor (bid_budget b)
                      else minor (lot_reserve_price l))
      in and_then (if amount_positive (bid_minimum_lot b)
                   then and_then (lot_cost_of D l (bid_minimum_lot b)) (\<lambda>cost. Inr (minor cost))
                   else Inr 0) (\<lambda>minimum_cash.
           Inr \<lparr>es_lot = i, es_bid = j, es_value = (if points < 0 then 0 else points), es_max_cash = max_cash,
                es_unit_price = unit_price, es_minimum_cash = minimum_cash\<rparr>))))"

text \<open>One pair of the double loop: the edges so far, the explanation of the bid, and whether it is fixed.\<close>

definition consider_lot ::
  "'d decimal_ops \<Rightarrow> 'd solver_params \<Rightarrow> 'd bid \<Rightarrow> nat \<Rightarrow> nat \<times> lot \<Rightarrow>
    'd edge_spec list \<times> rejection \<times> bool \<Rightarrow> ('d edge_spec list \<times> rejection \<times> bool) result" where
  "consider_lot D P b j il acc =
    (case il of (i, l) \<Rightarrow> case acc of (edges, blocked, recorded) \<Rightarrow>
      and_then (feasible D b l) (\<lambda>binding. case binding of
        Some c \<Rightarrow>
          Inr (edges,
               if recorded then blocked
               else \<lparr>rj_bid_id = bid_id b, rj_lot_id = lot_id l, rj_constraint = Some c\<rparr>, True)
      | None \<Rightarrow>
          and_then (edge_for D P l b i j) (\<lambda>spec.
            Inr (edges @ [spec],
                 \<lparr>rj_bid_id = bid_id b, rj_lot_id = uuid_nil, rj_constraint = Some CNoRemainingCapacity\<rparr>,
                 True))))"

definition consider_bid ::
  "'d decimal_ops \<Rightarrow> 'd solver_params \<Rightarrow> lot list \<Rightarrow> nat \<times> 'd bid \<Rightarrow>
    'd edge_spec list \<times> rejection list \<Rightarrow> ('d edge_spec list \<times> rejection list) result" where
  "consider_bid D P lots jb acc =
    (case jb of (j, b) \<Rightarrow> case acc of (edges, blocked) \<Rightarrow>
      and_then (fold_result (consider_lot D P b j) (enumerate 0 lots)
        (edges, \<lparr>rj_bid_id = bid_id b, rj_lot_id = uuid_nil, rj_constraint = Some CNoRemainingCapacity\<rparr>, False))
        (\<lambda>(edges', r, _). Inr (edges', blocked @ [r])))"

definition edge_better :: "'d edge_spec \<Rightarrow> 'd edge_spec \<Rightarrow> bool" where
  "edge_better x y = (if es_value x \<noteq> es_value y then es_value x > es_value y else es_lot x < es_lot y)"

definition edge_before :: "'d edge_spec \<Rightarrow> 'd edge_spec \<Rightarrow> bool" where
  "edge_before x y = (if es_bid x \<noteq> es_bid y then es_bid x < es_bid y else es_lot x < es_lot y)"

definition prune :: "'d solver_params \<Rightarrow> nat \<Rightarrow> 'd edge_spec list \<Rightarrow> 'd edge_spec list" where
  "prune P n edges =
    (if sp_max_edges_per_bid P = 0 \<or> length edges \<le> sp_edge_prune_threshold P then edges
     else let by_bid = map (\<lambda>j. filter (\<lambda>e. es_bid e = j) edges) [0..<n];
              keep = map (\<lambda>specs. if length specs > sp_max_edges_per_bid P
                then take (sp_max_edges_per_bid P) (sort_by edge_better specs) else specs) by_bid
          in sort_by edge_before (concat keep))"

text \<open>The bids that take part: active, of this auction, placed before it closed.\<close>

definition admit_bid :: "auction \<Rightarrow> 'd bid option \<Rightarrow> 'd bid list \<Rightarrow> 'd bid list result" where
  "admit_bid a ob active =
    (case ob of
       None \<Rightarrow> Inr active
     | Some b \<Rightarrow>
         if bid_status b \<noteq> BidActive then Inr active
         else if bid_auction_id b \<noteq> auc_id a then Inl (Invalid ''bids'')
         else if bid_created_at b > auc_closes_at a then Inr active
         else Inr (active @ [b]))"

definition canonicalize ::
  "'d decimal_ops \<Rightarrow> uuid_ops \<Rightarrow> 'd solver_params \<Rightarrow> auction option \<Rightarrow> 'd bid option list \<Rightarrow> 'd problem result" where
  "canonicalize D U P auction bids =
    (case auction of
       None \<Rightarrow> Inl (Invalid ''auction'')
     | Some a \<Rightarrow>
         if auc_lots a = [] then Inl (Invalid ''auction.lots'')
         else let lots = sort_by (lot_before U) (auc_lots a) in
           and_then (fold_result (admit_bid a) bids []) (\<lambda>admitted.
             let active = sort_by (bid_before U) admitted in
             and_then (fold_result (consider_bid D P lots) (enumerate 0 active) ([], [])) (\<lambda>(edges, blocked).
               Inr \<lparr>pb_auction_id = auc_id a, pb_lots = lots, pb_bids = active,
                    pb_edges = prune P (length active) edges, pb_blocked = blocked,
                    pb_currency = currency (lot_supply (hd lots)), pb_params = P\<rparr>)))"

section \<open>Branch states\<close>

record branch =
  br_forbidden :: "nat set"
  br_preassign :: "(nat \<times> int) list"
  br_capped :: "(nat \<times> int) list"
  br_forced :: "nat set"

definition new_branch :: branch where
  "new_branch = \<lparr>br_forbidden = {}, br_preassign = [], br_capped = [], br_forced = {}\<rparr>"

definition capacity_of :: "branch \<Rightarrow> nat \<Rightarrow> 'd edge_spec \<Rightarrow> int" where
  "capacity_of st index spec =
    (case map_of (br_capped st) index of
       None \<Rightarrow> es_max_cash spec
     | Some c \<Rightarrow> if c < es_max_cash spec then c else es_max_cash spec)"

record raw_solution =
  rw_cash :: "int list"
  rw_dropped :: "nat list"
  rw_objective :: int
  rw_branch_nodes :: nat
  rw_repair_rounds :: nat
  rw_limit_reached :: bool

record solver_run =
  rn_solves :: nat
  rn_exhausted :: bool

section \<open>Repairs\<close>

type_synonym exposure_key = "nat \<times> string"

definition key_before :: "exposure_key \<times> 'a \<Rightarrow> exposure_key \<times> 'a \<Rightarrow> bool" where
  "key_before x y =
    (if fst (fst x) \<noteq> fst (fst y) then fst (fst x) < fst (fst y) else snd (fst x) < snd (fst y))"

record exposure_group =
  eg_limit :: int
  eg_spent :: int
  eg_edges :: "nat list"

definition group_add ::
  "exposure_key \<Rightarrow> amount \<Rightarrow> nat \<Rightarrow> int \<Rightarrow> (exposure_key \<times> exposure_group) list \<Rightarrow>
    (exposure_key \<times> exposure_group) list" where
  "group_add key limit index cash groups =
    (let g = (case map_of groups key of
                None \<Rightarrow> \<lparr>eg_limit = minor limit, eg_spent = 0, eg_edges = []\<rparr> | Some g \<Rightarrow> g)
     in AList.update key (g\<lparr>eg_spent := wrap64 (eg_spent g + cash), eg_edges := eg_edges g @ [index]\<rparr>) groups)"

definition expose_edge ::
  "'d decimal_ops \<Rightarrow> 'd problem \<Rightarrow> int list \<Rightarrow> nat \<times> 'd edge_spec \<Rightarrow>
    (exposure_key \<times> exposure_group) list \<Rightarrow> (exposure_key \<times> exposure_group) list result" where
  "expose_edge D pb amounts ie groups =
    (case ie of (index, spec) \<Rightarrow>
      let cash = amounts ! index; l = pb_lots pb ! es_lot spec; b = pb_bids pb ! es_bid spec
      in if cash \<le> 0 then Inr groups
         else and_then (debtor_limit D b) (\<lambda>debtor.
              and_then (grade_limit D b (lot_grade l)) (\<lambda>grade.
                Inr (group_add (es_bid spec, ''grade:'' @ lot_grade l) grade index cash
                      (group_add (es_bid spec, ''debtor:'' @ lot_debtor_ref l) debtor index cash groups)))))"

definition exposure_groups ::
  "'d decimal_ops \<Rightarrow> 'd problem \<Rightarrow> raw_solution \<Rightarrow> (exposure_key \<times> exposure_group) list result" where
  "exposure_groups D pb raw = fold_result (expose_edge D pb (rw_cash raw)) (enumerate 0 (pb_edges pb)) []"

definition most_valuable :: "'d edge_spec list \<Rightarrow> nat \<Rightarrow> nat \<Rightarrow> bool" where
  "most_valuable edges i j =
    (if es_value (edges ! i) \<noteq> es_value (edges ! j) then es_value (edges ! i) > es_value (edges ! j) else i < j)"

definition cap_edge ::
  "exposure_group \<Rightarrow> int list \<Rightarrow> nat \<Rightarrow> int \<times> (nat \<times> int) list \<Rightarrow> int \<times> (nat \<times> int) list" where
  "cap_edge g cash index acc =
    (let share = go_quot (wrap64 (eg_limit g * cash ! index)) (eg_spent g);
         capped = snd acc
     in (wrap64 (fst acc + share),
         case map_of capped index of
           None \<Rightarrow> AList.update index share capped
         | Some existing \<Rightarrow> if share < existing then AList.update index share capped else capped))"

definition block_edge :: "nat \<Rightarrow> branch \<Rightarrow> branch" where
  "block_edge index st =
    st\<lparr>br_forbidden := (if (case map_of (br_capped st) index of None \<Rightarrow> 0 | Some c \<Rightarrow> c) \<le> 0
         then insert index (br_forbidden st) else br_forbidden st),
       br_preassign := AList.delete index (br_preassign st)\<rparr>"

definition repair_group ::
  "'d edge_spec list \<Rightarrow> raw_solution \<Rightarrow> exposure_key \<times> exposure_group \<Rightarrow> bool \<times> branch \<Rightarrow>
    (bool \<times> branch) result" where
  "repair_group edges raw kg acc =
    (case kg of (key, g) \<Rightarrow> case acc of (repaired, st) \<Rightarrow>
      if eg_spent g \<le> eg_limit g then Inr (repaired, st)
      else if eg_spent g = 0 then Inl Panic
      else
        let ordered = sort_by (most_valuable edges) (eg_edges g);
            (assigned, capped) = fold (cap_edge g (rw_cash raw)) ordered (0, br_capped st);
            remainder = wrap64 (eg_limit g - assigned);
            capped' = (if remainder > 0 \<and> ordered \<noteq> []
              then AList.update (hd ordered)
                (wrap64 ((case map_of capped (hd ordered) of None \<Rightarrow> 0 | Some c \<Rightarrow> c) + remainder)) capped
              else capped)
        in Inr (True, fold block_edge ordered (st\<lparr>br_capped := capped'\<rparr>)))"

definition repair_exposure ::
  "'d decimal_ops \<Rightarrow> 'd problem \<Rightarrow> branch \<Rightarrow> raw_solution \<Rightarrow> (bool \<times> branch) result" where
  "repair_exposure D pb st raw =
    and_then (exposure_groups D pb raw) (\<lambda>groups.
      fold_result (repair_group (pb_edges pb) raw) (sort_by key_before groups) (False, st))"

definition drop_below_minimum ::
  "int list \<Rightarrow> nat \<times> 'd edge_spec \<Rightarrow> bool \<times> branch \<times> nat list \<Rightarrow> bool \<times> branch \<times> nat list" where
  "drop_below_minimum cash is acc =
    (case is of (index, spec) \<Rightarrow> case acc of (repaired, st, dropped) \<Rightarrow>
      if es_minimum_cash spec = 0 \<or> cash ! index \<le> 0 \<or> cash ! index \<ge> es_minimum_cash spec then acc
      else (True,
            st\<lparr>br_forced := br_forced st - {index}, br_forbidden := insert index (br_forbidden st),
               br_preassign := AList.delete index (br_preassign st)\<rparr>,
            dropped @ [index]))"

definition repair_minimum_lots ::
  "'d problem \<Rightarrow> branch \<Rightarrow> raw_solution \<Rightarrow> bool \<times> branch \<times> raw_solution" where
  "repair_minimum_lots pb st raw =
    (case fold (drop_below_minimum (rw_cash raw)) (enumerate 0 (pb_edges pb)) (False, st, rw_dropped raw) of
       (repaired, st', dropped) \<Rightarrow> (repaired, st', raw\<lparr>rw_dropped := dropped\<rparr>))"

section \<open>The flow relaxation\<close>

definition issuer_key :: "uuid_ops \<Rightarrow> 'd problem \<Rightarrow> 'd edge_spec \<Rightarrow> exposure_key" where
  "issuer_key U pb spec = (es_bid spec, uuid_string U (lot_issuer_id (pb_lots pb ! es_lot spec)))"

record capacities =
  cp_issuer :: "(exposure_key \<times> int) list"
  cp_members :: "(exposure_key \<times> nat list) list"
  cp_edge :: "int list"

definition edge_capacity ::
  "'d decimal_ops \<Rightarrow> uuid_ops \<Rightarrow> 'd problem \<Rightarrow> branch \<Rightarrow> nat \<times> 'd edge_spec \<Rightarrow> capacities \<Rightarrow> capacities result" where
  "edge_capacity D U pb st is caps =
    (case is of (index, spec) \<Rightarrow>
      if index \<in> br_forbidden st then Inr caps
      else and_then (issuer_limit D (pb_bids pb ! es_bid spec)) (\<lambda>limit.
        let key = issuer_key U pb spec;
            members = (case map_of (cp_members caps) key of None \<Rightarrow> [] | Some ms \<Rightarrow> ms)
        in Inr \<lparr>cp_issuer = AList.update key (minor limit) (cp_issuer caps),
                cp_members = AList.update key (members @ [index]) (cp_members caps),
                cp_edge = (cp_edge caps)[index := capacity_of st index spec]\<rparr>))"

text \<open>An issuer limit that concerns one edge only is folded into that edge.\<close>

definition fold_single :: "exposure_key \<times> nat list \<Rightarrow> capacities \<Rightarrow> capacities" where
  "fold_single ks caps =
    (case ks of (key, indices) \<Rightarrow>
      if length indices > 1 then caps
      else let index = hd indices;
               limit = (case map_of (cp_issuer caps) key of None \<Rightarrow> 0 | Some l \<Rightarrow> l)
           in caps\<lparr>cp_edge := (if limit < cp_edge caps ! index then (cp_edge caps)[index := limit]
                               else cp_edge caps),
                   cp_issuer := AList.delete key (cp_issuer caps)\<rparr>)"

record spending =
  sd_lot :: "int list"
  sd_bid :: "int list"
  sd_issuer :: "(exposure_key \<times> int) list"
  sd_cash :: "int list"
  sd_objective :: int

definition spend_preassigned ::
  "uuid_ops \<Rightarrow> 'd problem \<Rightarrow> branch \<Rightarrow> int list \<Rightarrow> nat \<times> int \<Rightarrow> spending option \<Rightarrow> spending option" where
  "spend_preassigned U pb st edge_cap ia acc =
    (case acc of None \<Rightarrow> None | Some sd \<Rightarrow> (case ia of (index, amount) \<Rightarrow>
      if index \<in> br_forbidden st \<or> amount \<le> 0 then Some sd
      else
        let spec = pb_edges pb ! index; key = issuer_key U pb spec;
            lot_left = wrap64 (sd_lot sd ! es_lot spec - amount);
            bid_left = wrap64 (sd_bid sd ! es_bid spec - amount);
            issuer_left = map_option (\<lambda>c. wrap64 (c - amount)) (map_of (sd_issuer sd) key)
        in if (case issuer_left of None \<Rightarrow> False | Some c \<Rightarrow> c < 0) then None
           else if lot_left < 0 \<or> bid_left < 0 \<or> amount > edge_cap ! index then None
           else Some \<lparr>sd_lot = (sd_lot sd)[es_lot spec := lot_left],
                      sd_bid = (sd_bid sd)[es_bid spec := bid_left],
                      sd_issuer = (case issuer_left of None \<Rightarrow> sd_issuer sd
                                   | Some c \<Rightarrow> AList.update key c (sd_issuer sd)),
                      sd_cash = (sd_cash sd)[index := amount],
                      sd_objective = wrap64 (sd_objective sd + wrap64 (amount * es_value spec))\<rparr>))"

text \<open>The network: source, lots, issuer nodes, bids, sink, numbered in that order.\<close>

definition add_positive :: "(nat \<times> nat \<times> int) \<Rightarrow> flow_network \<Rightarrow> flow_network" where
  "add_positive abc f = (case abc of (a, b, c) \<Rightarrow> if c > 0 then snd (add_edge a b c 0 f) else f)"

definition add_pair ::
  "uuid_ops \<Rightarrow> 'd problem \<Rightarrow> branch \<Rightarrow> int list \<Rightarrow> int list \<Rightarrow> (exposure_key \<times> nat) list \<Rightarrow> nat \<Rightarrow>
    nat \<times> 'd edge_spec \<Rightarrow> nat option list \<times> flow_network \<Rightarrow> nat option list \<times> flow_network" where
  "add_pair U pb st edge_cap cash node_of bid_base is acc =
    (case is of (index, spec) \<Rightarrow> case acc of (arcs, f) \<Rightarrow>
      let capacity = wrap64 (edge_cap ! index - cash ! index);
          target = (case map_of node_of (issuer_key U pb spec) of
                      Some node \<Rightarrow> node | None \<Rightarrow> bid_base + es_bid spec)
      in if index \<in> br_forbidden st \<or> capacity \<le> 0 then (arcs @ [None], f)
         else case add_edge (1 + es_lot spec) target capacity (wrap64 (- es_value spec)) f of
                (arc, f') \<Rightarrow> (arcs @ [Some arc], f'))"

definition build_network ::
  "uuid_ops \<Rightarrow> 'd problem \<Rightarrow> branch \<Rightarrow> int list \<Rightarrow> spending \<Rightarrow> nat option list \<times> nat \<times> flow_network" where
  "build_network U pb st edge_cap sd =
    (let lots = length (pb_lots pb);
         issuers = sort_by key_before (sd_issuer sd);
         node_of = zip (map fst issuers) [1 + lots..<1 + lots + length issuers];
         bid_base = 1 + lots + length issuers;
         sink = bid_base + length (pb_bids pb);
         f0 = fold add_positive (map (\<lambda>(i, c). (0, 1 + i, c)) (enumerate 0 (sd_lot sd)))
                (new_flow_network (sink + 1));
         (arcs, f1) = fold (add_pair U pb st edge_cap (sd_cash sd) node_of bid_base)
                (enumerate 0 (pb_edges pb)) ([], f0);
         f2 = fold add_positive (map (\<lambda>((key, c), node). (node, bid_base + fst key, c))
                (zip issuers (map snd node_of))) f1;
         f3 = fold add_positive (map (\<lambda>(j, c). (bid_base + j, sink, c)) (enumerate 0 (sd_bid sd))) f2
     in (arcs, sink, f3))"

definition read_flow ::
  "flow_network \<Rightarrow> 'd problem \<Rightarrow> nat \<times> nat option \<Rightarrow> int list \<times> int \<Rightarrow> (int list \<times> int) result" where
  "read_flow f pb ia acc =
    (case ia of (index, None) \<Rightarrow> Inr acc
     | (index, Some arc) \<Rightarrow> and_then (flow_on f arc) (\<lambda>flow.
         Inr ((fst acc)[index := wrap64 (fst acc ! index + flow)],
              wrap64 (snd acc + wrap64 (flow * es_value (pb_edges pb ! index))))))"

definition solve_relaxed ::
  "'d decimal_ops \<Rightarrow> uuid_ops \<Rightarrow> 'd solver_params \<Rightarrow> 'd problem \<Rightarrow> branch \<Rightarrow> raw_solution option result option" where
  "solve_relaxed D U P pb st =
    run_then (Some (fold_result (edge_capacity D U pb st) (enumerate 0 (pb_edges pb))
        \<lparr>cp_issuer = [], cp_members = [], cp_edge = replicate (length (pb_edges pb)) 0\<rparr>)) (\<lambda>caps0.
      let caps = fold fold_single (cp_members caps0) caps0 in
      case fold (spend_preassigned U pb st (cp_edge caps)) (br_preassign st)
          (Some \<lparr>sd_lot = map (minor \<circ> lot_reserve_price) (pb_lots pb),
                 sd_bid = map (minor \<circ> bid_budget) (pb_bids pb), sd_issuer = cp_issuer caps,
                 sd_cash = replicate (length (pb_edges pb)) 0, sd_objective = 0\<rparr>) of
        None \<Rightarrow> Some (Inr None)
      | Some sd \<Rightarrow>
          (case build_network U pb st (cp_edge caps) sd of (arcs, sink, f) \<Rightarrow>
            run_then (solve_flow f 0 sink (sp_max_augmentations P)) (\<lambda>(g, out).
            run_then (Some (fold_result (read_flow g pb) (enumerate 0 arcs) (sd_cash sd, sd_objective sd)))
              (\<lambda>(cash, objective).
              Some (Inr (Some \<lparr>rw_cash = cash, rw_dropped = [], rw_objective = objective,
                rw_branch_nodes = 0, rw_repair_rounds = 0, rw_limit_reached = sv_limit_reached out\<rparr>))))))"

section \<open>Search\<close>

text \<open>
  One repair round: the allocation of the relaxation, the branch state after the repairs, which change it in
  place, and whether anything had to be repaired.
\<close>

definition repair_turn ::
  "'d decimal_ops \<Rightarrow> uuid_ops \<Rightarrow> 'd solver_params \<Rightarrow> 'd problem \<Rightarrow> branch \<Rightarrow> nat \<Rightarrow> nat list \<Rightarrow>
    (raw_solution option \<times> branch \<times> bool) result option" where
  "repair_turn D U P pb st turn_no dropped =
    run_then (solve_relaxed D U P pb st) (\<lambda>relaxed. case relaxed of
      None \<Rightarrow> Some (Inr (None, st, False))
    | Some raw0 \<Rightarrow>
        let raw = raw0\<lparr>rw_repair_rounds := turn_no, rw_dropped := dropped\<rparr> in
        run_then (Some (repair_exposure D pb st raw)) (\<lambda>(repaired, st1).
          if repaired then Some (Inr (Some raw, st1, True))
          else case repair_minimum_lots pb st1 raw of
                 (again, st2, raw2) \<Rightarrow> Some (Inr (Some raw2, st2, again))))"

text \<open>The rounds of one branch; the first argument counts the rounds left after this one.\<close>

fun repair_rounds ::
  "nat \<Rightarrow> nat \<Rightarrow> 'd decimal_ops \<Rightarrow> uuid_ops \<Rightarrow> 'd solver_params \<Rightarrow> 'd problem \<Rightarrow> branch \<Rightarrow> nat list \<Rightarrow>
    solver_run \<Rightarrow> (raw_solution option \<times> branch \<times> solver_run) result option" where
  "repair_rounds left turn_no D U P pb st dropped rn =
    (let rn' = rn\<lparr>rn_solves := rn_solves rn + 1\<rparr> in
     run_then (repair_turn D U P pb st turn_no dropped) (\<lambda>(out, st', again). case out of
       None \<Rightarrow> Some (Inr (None, st', rn'))
     | Some raw \<Rightarrow>
         if \<not> again then Some (Inr (Some raw, st', rn'))
         else (case left of
                 0 \<Rightarrow> Some (Inr (None, st', rn'))
               | Suc left' \<Rightarrow>
                   repair_rounds left' (turn_no + 1) D U P pb st' (rw_dropped raw) rn')))"

definition solve_state ::
  "'d decimal_ops \<Rightarrow> uuid_ops \<Rightarrow> 'd solver_params \<Rightarrow> 'd problem \<Rightarrow> branch \<Rightarrow> solver_run \<Rightarrow>
    (raw_solution option \<times> branch \<times> solver_run) result option" where
  "solve_state D U P pb st rn = repair_rounds (sp_max_repair_rounds P) 0 D U P pb st [] rn"

record exploration =
  ex_best :: "raw_solution option"
  ex_nodes :: nat
  ex_limit_reached :: bool
  ex_repair_rounds :: nat
  ex_run :: solver_run

text \<open>The branch that takes exactly the minimum of a dropped edge.\<close>

definition force_minimum :: "'d problem \<Rightarrow> nat \<Rightarrow> branch \<Rightarrow> branch" where
  "force_minimum pb index st =
    \<lparr>br_forbidden = br_forbidden st - {index},
     br_preassign = AList.update index (es_minimum_cash (pb_edges pb ! index)) (br_preassign st),
     br_capped = AList.delete index (br_capped st),
     br_forced = insert index (br_forced st)\<rparr>"

definition better_of :: "raw_solution option \<Rightarrow> raw_solution \<Rightarrow> raw_solution" where
  "better_of best raw =
    (case best of None \<Rightarrow> raw | Some b \<Rightarrow> if rw_objective raw > rw_objective b then raw else b)"

function explore ::
  "'d decimal_ops \<Rightarrow> uuid_ops \<Rightarrow> 'd solver_params \<Rightarrow> 'd problem \<Rightarrow> branch \<Rightarrow> exploration \<Rightarrow>
    exploration result option" where
  "explore D U P pb st ex =
    (if ex_nodes ex \<ge> sp_max_branch_nodes P then Some (Inr (ex\<lparr>ex_limit_reached := True\<rparr>))
     else if rn_solves (ex_run ex) \<ge> sp_max_relaxed_solves P
     then Some (Inr (ex\<lparr>ex_limit_reached := True, ex_run := (ex_run ex)\<lparr>rn_exhausted := True\<rparr>\<rparr>))
     else (case solve_state D U P pb st (ex_run ex) of
         None \<Rightarrow> None
       | Some (Inl e) \<Rightarrow> Some (Inl e)
       | Some (Inr (None, st', rn)) \<Rightarrow>
           Some (Inr (ex\<lparr>ex_nodes := ex_nodes ex + 1, ex_run := rn\<rparr>))
       | Some (Inr (Some raw, st', rn)) \<Rightarrow>
           let ex' = ex\<lparr>ex_best := Some (better_of (ex_best ex) raw), ex_nodes := ex_nodes ex + 1,
             ex_limit_reached := ex_limit_reached ex \<or> rw_limit_reached raw,
             ex_repair_rounds := ex_repair_rounds ex + rw_repair_rounds raw, ex_run := rn\<rparr>
           in case find (\<lambda>i. i \<notin> br_forced st') (rw_dropped raw) of
                None \<Rightarrow> Some (Inr ex')
              | Some index \<Rightarrow> explore D U P pb (force_minimum pb index st') ex'))"
  by pat_completeness auto
termination
  by (relation "measure (\<lambda>(D, U, P, pb, st, ex). sp_max_branch_nodes P - ex_nodes ex)") auto

declare explore.simps [simp del]
declare repair_rounds.simps [simp del]

definition branch_and_bound ::
  "'d decimal_ops \<Rightarrow> uuid_ops \<Rightarrow> 'd solver_params \<Rightarrow> 'd problem \<Rightarrow> raw_solution result option" where
  "branch_and_bound D U P pb =
    run_then (explore D U P pb new_branch
        \<lparr>ex_best = None, ex_nodes = 0, ex_limit_reached = False, ex_repair_rounds = 0,
         ex_run = \<lparr>rn_solves = 0, rn_exhausted = False\<rparr>\<rparr>) (\<lambda>ex.
      let best = (case ex_best ex of
            Some b \<Rightarrow> b
          | None \<Rightarrow> \<lparr>rw_cash = replicate (length (pb_edges pb)) 0, rw_dropped = [], rw_objective = 0,
                     rw_branch_nodes = 0, rw_repair_rounds = 0, rw_limit_reached = False\<rparr>)
      in Some (Inr (best\<lparr>rw_repair_rounds := ex_repair_rounds ex,
           rw_limit_reached := ex_limit_reached ex \<or> rn_exhausted (ex_run ex),
           rw_branch_nodes := ex_nodes ex\<rparr>)))"

section \<open>From cash to allocations\<close>

record filling =
  fl_allocations :: "allocation list"
  fl_remaining :: "amount list"
  fl_allocated :: "nat set"
  fl_notional :: amount
  fl_cash :: amount
  fl_objective :: int

text \<open>The notional of an edge: floored, lifted to the minimum the cash covers, capped by what is left.\<close>

definition notional_for ::
  "'d decimal_ops \<Rightarrow> currency_code \<Rightarrow> 'd edge_spec \<Rightarrow> 'd bid \<Rightarrow> int \<Rightarrow> amount \<Rightarrow> amount result" where
  "notional_for D cur spec b cash remaining =
    and_then (amount_new cash cur) (\<lambda>cash_amount.
    and_then (amount_div_floor D cash_amount (es_unit_price spec)) (\<lambda>floored.
      let notional =
        (if amount_positive (bid_minimum_lot b)
         then (case amount_cmp floored (bid_minimum_lot b) of
                 Inl e \<Rightarrow> floored
               | Inr c \<Rightarrow> if c < 0 \<and> cash \<ge> es_minimum_cash spec then bid_minimum_lot b else floored)
         else floored)
      in and_then (amount_cmp notional remaining) (\<lambda>c. Inr (if c > 0 then remaining else notional))))"

definition fill_edge ::
  "'d decimal_ops \<Rightarrow> 'd problem \<Rightarrow> int list \<Rightarrow> nat \<times> 'd edge_spec \<Rightarrow> filling \<Rightarrow> filling result" where
  "fill_edge D pb cash is fl =
    (case is of (index, spec) \<Rightarrow>
      if cash ! index \<le> 0 then Inr fl
      else
        let l = pb_lots pb ! es_lot spec; b = pb_bids pb ! es_bid spec; left = fl_remaining fl ! es_lot spec in
        and_then (notional_for D (pb_currency pb) spec b (cash ! index) left) (\<lambda>notional.
          if \<not> amount_positive notional then Inr fl
          else
            and_then (lot_cost_of D l notional) (\<lambda>price.
            and_then (amount_sub left notional) (\<lambda>left'.
            and_then (amount_add (fl_notional fl) notional) (\<lambda>total_notional.
            and_then (amount_add (fl_cash fl) price) (\<lambda>total_cash.
              Inr \<lparr>fl_allocations = fl_allocations fl @
                     [\<lparr>al_lot_id = lot_id l, al_invoice_id = lot_invoice_id l, al_asset_id = lot_asset_id l,
                       al_bid_id = bid_id b, al_investor_id = bid_investor_id b, al_notional = notional,
                       al_price = price, al_rank = 0\<rparr>],
                   fl_remaining = (fl_remaining fl)[es_lot spec := left'],
                   fl_allocated = insert (es_bid spec) (fl_allocated fl),
                   fl_notional = total_notional, fl_cash = total_cash,
                   fl_objective = wrap64 (fl_objective fl + wrap64 (minor price * es_value spec))\<rparr>))))))"

definition allocation_before :: "uuid_ops \<Rightarrow> allocation \<Rightarrow> allocation \<Rightarrow> bool" where
  "allocation_before U x y =
    (if al_bid_id x \<noteq> al_bid_id y then uuid_string U (al_bid_id x) < uuid_string U (al_bid_id y)
     else if al_invoice_id x \<noteq> al_invoice_id y
     then uuid_string U (al_invoice_id x) < uuid_string U (al_invoice_id y)
     else uuid_string U (al_lot_id x) < uuid_string U (al_lot_id y))"

definition rank_allocations :: "uuid_ops \<Rightarrow> allocation list \<Rightarrow> allocation list" where
  "rank_allocations U als =
    map (\<lambda>(i, al). al\<lparr>al_rank := int i\<rparr>) (enumerate 0 (sort_by (allocation_before U) als))"

definition materialize ::
  "'d decimal_ops \<Rightarrow> uuid_ops \<Rightarrow> string \<Rightarrow> 'd problem \<Rightarrow> raw_solution \<Rightarrow> solution result" where
  "materialize D U version pb raw =
    and_then (amount_zero (pb_currency pb)) (\<lambda>zero.
    and_then (fold_result (fill_edge D pb (rw_cash raw)) (enumerate 0 (pb_edges pb))
      \<lparr>fl_allocations = [], fl_remaining = map lot_supply (pb_lots pb), fl_allocated = {},
       fl_notional = zero, fl_cash = zero, fl_objective = 0\<rparr>) (\<lambda>fl.
      Inr \<lparr>sol_auction_id = pb_auction_id pb, sol_solver_version = version,
           sol_allocations = rank_allocations U (fl_allocations fl),
           sol_rejections = map (\<lambda>(j, b). (pb_blocked pb ! j)\<lparr>rj_bid_id := bid_id b\<rparr>)
             (filter (\<lambda>(j, b). j \<notin> fl_allocated fl) (enumerate 0 (pb_bids pb))),
           sol_objective = fl_objective fl, sol_total_notional = fl_notional fl,
           sol_total_cash = fl_cash fl, sol_branch_nodes = rw_branch_nodes raw,
           sol_repair_rounds = rw_repair_rounds raw, sol_limit_reached = rw_limit_reached raw,
           sol_certificate_hash = [], sol_verified = False\<rparr>))"

record 'd solver =
  sv_version :: string
  sv_params :: "'d solver_params"

definition new_solver :: "'d decimal_ops \<Rightarrow> 'd solver result" where
  "new_solver D =
    and_then (solver_params_v1 D) (\<lambda>P. Inr \<lparr>sv_version = solver_version_v1, sv_params = P\<rparr>)"

definition clear_batch ::
  "(string \<Rightarrow> string) \<Rightarrow> 'd decimal_ops \<Rightarrow> uuid_ops \<Rightarrow> 'd solver \<Rightarrow> auction option \<Rightarrow> 'd bid option list \<Rightarrow>
    solution result option" where
  "clear_batch H D U sv auction bids =
    run_then (Some (canonicalize D U (sv_params sv) auction bids)) (\<lambda>pb.
    run_then (branch_and_bound D U (sv_params sv) pb) (\<lambda>raw.
    run_then (Some (materialize D U (sv_version sv) pb raw)) (\<lambda>s.
    run_then (Some (verify D U auction bids (Some s) (sv_params sv))) (\<lambda>_.
      Some (case auction of
        None \<Rightarrow> Inl Panic
      | Some a \<Rightarrow> Inr (s\<lparr>sol_verified := True,
          sol_certificate_hash := certificate H D U a (pb_bids pb) s (sv_params sv)\<rparr>))))))"

end
