(* ===== verification/Solver_Facts.thy ===== *)
theory Solver_Facts
  imports Solver
begin

text \<open>
  What the clearing of \<^verbatim>\<open>Solver.Clear\<close> guarantees: the canonical problem holds only
  feasible pairs, valued as the verifier values them, and does not depend on the order of the inputs; the search
  keeps its budget and keeps only allocations that pass the repairs; a solution that comes out is feasible,
  verified and certified.
\<close>

section \<open>The canonical problem\<close>

definition edge_sound :: "'d decimal_ops \<Rightarrow> 'd solver_params \<Rightarrow> lot list \<Rightarrow> 'd bid list \<Rightarrow> 'd edge_spec \<Rightarrow> bool" where
  "edge_sound D P lots bids spec \<longleftrightarrow>
     es_lot spec < length lots \<and> es_bid spec < length bids \<and>
     feasible D (bids ! es_bid spec) (lots ! es_lot spec) = Inr None \<and>
     edge_value_points D (lots ! es_lot spec) (bids ! es_bid spec) P = Inr (es_value spec) \<and>
     es_max_cash spec = min (minor (bid_budget (bids ! es_bid spec))) (minor (lot_reserve_price (lots ! es_lot spec))) \<and>
     lot_unit_price D (lots ! es_lot spec) = Inr (es_unit_price spec)"

lemma edge_for_sound:
  assumes "edge_for D P l b i j = Inr spec"
  shows "es_lot spec = i" and "es_bid spec = j" and "edge_value_points D l b P = Inr (es_value spec)"
    and "es_max_cash spec = min (minor (bid_budget b)) (minor (lot_reserve_price l))"
    and "lot_unit_price D l = Inr (es_unit_price spec)"
  using assms by (auto simp: edge_for_def edge_value_points_def result_simps Let_def min_def)

lemma consider_lot_sound:
  assumes "consider_lot D P (bids ! j) j (i, lots ! i) (edges, r, rec) = Inr (edges', r', rec')"
    and "i < length lots" and "j < length bids" and "\<forall>e \<in> set edges. edge_sound D P lots bids e"
  shows "\<forall>e \<in> set edges'. edge_sound D P lots bids e"
proof -
  obtain binding where f: "feasible D (bids ! j) (lots ! i) = Inr binding"
    using assms(1) by (auto simp: consider_lot_def result_simps)
  show ?thesis
  proof (cases binding)
    case (Some c)
    then show ?thesis using assms(1,4) f by (simp add: consider_lot_def)
  next
    case None
    then obtain spec where spec: "edge_for D P (lots ! i) (bids ! j) i j = Inr spec" "edges' = edges @ [spec]"
      using assms(1) f by (auto simp: consider_lot_def result_simps)
    then have "edge_sound D P lots bids spec"
      using edge_for_sound [OF spec(1)] assms(2,3) f None by (simp add: edge_sound_def)
    then show ?thesis using spec(2) assms(4) by simp
  qed
qed

lemma enumerate_mem: "(i, x) \<in> set (enumerate 0 xs) \<longleftrightarrow> i < length xs \<and> x = xs ! i"
  by (auto simp: in_set_enumerate_eq)

lemma consider_bids_sound:
  assumes "fold_result (consider_bid D P lots) (enumerate 0 bids) ([], []) = Inr (edges, blocked)"
  shows "\<forall>e \<in> set edges. edge_sound D P lots bids e" and "length blocked = length bids"
proof -
  have bid: "\<forall>e \<in> set (fst t). edge_sound D P lots bids e"
    if jb: "jb \<in> set (enumerate 0 bids)" and s: "\<forall>e \<in> set (fst s). edge_sound D P lots bids e"
      and run: "consider_bid D P lots jb s = Inr t" for jb s t
  proof -
    obtain j b where "jb = (j, b)" by (cases jb)
    then have j: "jb = (j, bids ! j)" "j < length bids" using jb enumerate_mem [of j b bids] by simp_all
    obtain edges0 r0 rec0 r where
      "fold_result (consider_lot D P (bids ! j) j) (enumerate 0 lots)
        (fst s, \<lparr>rj_bid_id = bid_id (bids ! j), rj_lot_id = uuid_nil,
          rj_constraint = Some CNoRemainingCapacity\<rparr>, False) = Inr (edges0, r0, rec0)" "fst t = edges0"
      using run j by (auto simp: consider_bid_def result_simps split: prod.splits)
    moreover from this(1) have "\<forall>e \<in> set (fst (edges0, r0, rec0)). edge_sound D P lots bids e"
    proof (rule fold_result_invariant)
      fix il u v assume il: "il \<in> set (enumerate 0 lots)" and u: "\<forall>e \<in> set (fst u). edge_sound D P lots bids e"
        and v: "consider_lot D P (bids ! j) j il u = Inr v"
      have i: "il = (fst il, lots ! fst il)" "fst il < length lots"
        using il enumerate_mem [of "fst il" "snd il" lots] by (simp_all add: prod_eq_iff)
      obtain eu ru cu ev rv cv where "u = (eu, ru, cu)" "v = (ev, rv, cv)" by (cases u, cases v) blast
      then show "\<forall>e \<in> set (fst v). edge_sound D P lots bids e"
        using consider_lot_sound [of D P bids j "fst il" lots eu ru cu ev rv cv] u v i j(2) by simp
    qed (use s in simp)
    ultimately show ?thesis by simp
  qed
  have "\<forall>e \<in> set (fst (edges, blocked)). edge_sound D P lots bids e"
    by (rule fold_result_invariant [OF assms]) (use bid in auto)
  then show "\<forall>e \<in> set edges. edge_sound D P lots bids e" by simp
  have "length (snd (edges, blocked)) = length ([] @ bids)"
    by (rule fold_enumerate_invariant [OF assms, where P = "\<lambda>xs s. length (snd s) = length xs" and xs = "[]"])
      (auto simp: consider_bid_def result_simps split: prod.splits)
  then show "length blocked = length bids" by simp
qed

lemma set_prune: "set (prune P n edges) \<subseteq> set edges"
  by (auto simp: prune_def Let_def dest!: in_set_takeD split: if_splits)

lemma admitted_bids:
  assumes "fold_result (admit_bid a) bids [] = Inr admitted" and "b \<in> set admitted"
  shows "Some b \<in> set bids \<and> bid_status b = BidActive \<and> bid_auction_id b = auc_id a \<and>
    bid_created_at b \<le> auc_closes_at a"
proof -
  have "\<forall>b \<in> set admitted. Some b \<in> set bids \<and> bid_status b = BidActive \<and> bid_auction_id b = auc_id a \<and>
    bid_created_at b \<le> auc_closes_at a"
    by (rule fold_result_invariant [OF assms(1)])
      (auto simp: admit_bid_def split: option.splits if_splits)
  then show ?thesis using assms(2) by blast
qed

lemma canonicalize_Inr:
  assumes "canonicalize D U P (Some a) bids = Inr pb"
  shows "pb_lots pb = sort_by (lot_before U) (auc_lots a)" and "auc_lots a \<noteq> []"
    and "\<forall>e \<in> set (pb_edges pb). edge_sound D P (pb_lots pb) (pb_bids pb) e"
    and "\<forall>b \<in> set (pb_bids pb). Some b \<in> set bids \<and> bid_status b = BidActive \<and>
      bid_auction_id b = auc_id a \<and> bid_created_at b \<le> auc_closes_at a"
    and "length (pb_blocked pb) = length (pb_bids pb)" and "pb_auction_id pb = auc_id a"
proof -
  obtain admitted edges where run: "auc_lots a \<noteq> []" "fold_result (admit_bid a) bids [] = Inr admitted"
    "pb_lots pb = sort_by (lot_before U) (auc_lots a)" "pb_bids pb = sort_by (bid_before U) admitted"
    "fold_result (consider_bid D P (pb_lots pb)) (enumerate 0 (pb_bids pb)) ([], []) = Inr (edges, pb_blocked pb)"
    "pb_edges pb = prune P (length (pb_bids pb)) edges" "pb_auction_id pb = auc_id a"
    using assms by (auto simp: canonicalize_def result_simps Let_def split: if_splits prod.splits)
  then show "pb_lots pb = sort_by (lot_before U) (auc_lots a)" "auc_lots a \<noteq> []" "pb_auction_id pb = auc_id a"
    by simp_all
  show "\<forall>e \<in> set (pb_edges pb). edge_sound D P (pb_lots pb) (pb_bids pb) e"
    using consider_bids_sound(1) [OF run(5)] set_prune [of P "length (pb_bids pb)" edges]
    unfolding run(6) by blast
  show "\<forall>b \<in> set (pb_bids pb). Some b \<in> set bids \<and> bid_status b = BidActive \<and>
      bid_auction_id b = auc_id a \<and> bid_created_at b \<le> auc_closes_at a"
    using admitted_bids [OF run(2)] unfolding run(4) by simp
  show "length (pb_blocked pb) = length (pb_bids pb)" by (rule consider_bids_sound(2) [OF run(5)])
qed

section \<open>Order of the inputs\<close>

definition bid_admitted :: "auction \<Rightarrow> 'd bid \<Rightarrow> bool" where
  "bid_admitted a b \<longleftrightarrow> bid_status b = BidActive \<and> bid_auction_id b = auc_id a \<and> bid_created_at b \<le> auc_closes_at a"

definition bid_misplaced :: "auction \<Rightarrow> 'd bid \<Rightarrow> bool" where
  "bid_misplaced a b \<longleftrightarrow> bid_status b = BidActive \<and> bid_auction_id b \<noteq> auc_id a"

definition present :: "'d bid option list \<Rightarrow> 'd bid list" where
  "present bids = List.map_filter (\<lambda>x. x) bids"

lemma admit_all:
  "fold_result (admit_bid a) bids acc =
    (if list_ex (bid_misplaced a) (present bids) then Inl (Invalid ''bids'')
     else Inr (acc @ filter (bid_admitted a) (present bids)))"
  by (induction bids arbitrary: acc)
    (auto simp: admit_bid_def bid_misplaced_def bid_admitted_def present_def List.map_filter_simps
      split: option.splits)

lemma present_mset: "mset (present bids) = image_mset the (filter_mset (\<lambda>x. x \<noteq> None) (mset bids))"
  by (induction bids) (auto simp: present_def List.map_filter_simps split: option.splits)

text \<open>The canonical problem, and with it every later step of a clearing, is the same whatever order the lots
  and the bids arrive in.\<close>

theorem canonicalize_order_independent:
  assumes "uuid_lib U" and "mset lots' = mset (auc_lots a)" and "distinct (map lot_id (auc_lots a))"
    and "mset bids' = mset bids" and "distinct (map bid_id (present bids))"
  shows "canonicalize D U P (Some (a\<lparr>auc_lots := lots'\<rparr>)) bids' = canonicalize D U P (Some a) bids"
proof -
  have lots: "sort_by (lot_before U) lots' = sort_by (lot_before U) (auc_lots a)"
    by (rule uuid_lib.sorted_lots_unique [OF assms(1) assms(2) [symmetric] assms(3), symmetric])
  have present: "mset (present bids') = mset (present bids)" by (simp add: present_mset assms(4))
  have set: "set (present bids') = set (present bids)" using present by (rule mset_eq_setD)
  let ?f = "filter (bid_admitted a)"
  have active: "sort_by (bid_before U) (?f (present bids')) = sort_by (bid_before U) (?f (present bids))"
  proof (rule uuid_lib.sorted_bids_unique [OF assms(1), symmetric])
    show "mset (?f (present bids)) = mset (?f (present bids'))" by (simp add: present)
    show "distinct (map bid_id (?f (present bids)))" using assms(5) by (simp add: distinct_map_filter)
  qed
  have same: "bid_admitted (a\<lparr>auc_lots := lots'\<rparr>) = bid_admitted a"
    "bid_misplaced (a\<lparr>auc_lots := lots'\<rparr>) = bid_misplaced a"
    by (auto simp: bid_admitted_def bid_misplaced_def)
  have len: "length (?f (present bids')) = length (?f (present bids))"
    by (metis active length_sort_by)
  have "lots' = [] \<longleftrightarrow> auc_lots a = []" using assms(2) by auto
  then show ?thesis
    by (simp add: canonicalize_def Let_def admit_all same list_ex_iff set active lots len)
qed

section \<open>The amounts of a solution are machine integers\<close>

context decimal_lib
begin

lemma amount_div_floor_in64: "amount_div_floor D a r = Inr c \<Longrightarrow> in64 (minor c)"
proof -
  assume run: "amount_div_floor D a r = Inr c"
  then have "amount_valid a" "val r \<noteq> 0"
    by (auto simp: amount_div_floor_def amount_valid_def cmp_simps split: if_splits)
  then show ?thesis using run by (auto simp: amount_div_floor_eq result_simps minor_result_def split: if_splits)
qed

lemma amount_mul_in64: "amount_mul D a r = Inr c \<Longrightarrow> in64 (minor c)"
proof -
  assume run: "amount_mul D a r = Inr c"
  then have "amount_valid a" by (auto simp: amount_mul_def amount_valid_def split: if_splits)
  then show ?thesis using run by (auto simp: amount_mul_eq minor_result_def split: if_splits)
qed

lemma lot_cost_of_in64: "lot_cost_of D l n = Inr c \<Longrightarrow> in64 (minor c)"
  by (auto simp: lot_cost_of_def result_simps intro: amount_mul_in64)

lemma notional_for_in64:
  assumes "notional_for D cur spec b cash remaining = Inr n"
    and "in64 (minor remaining)" and "in64 (minor (bid_minimum_lot b))"
  shows "in64 (minor n)"
  using assms amount_div_floor_in64
  by (auto simp: notional_for_def result_simps Let_def split: if_splits sum.splits)

definition filling_range :: "nat \<Rightarrow> filling \<Rightarrow> bool" where
  "filling_range n fl \<longleftrightarrow> length (fl_remaining fl) = n \<and> (\<forall>r \<in> set (fl_remaining fl). in64 (minor r)) \<and>
     (\<forall>al \<in> set (fl_allocations fl). in64 (minor (al_notional al)) \<and> in64 (minor (al_price al)))"

lemma fill_edge_range:
  assumes "fill_edge D pb cash (i, spec) fl = Inr fl'" and "filling_range n fl" and "es_lot spec < n"
    and "in64 (minor (bid_minimum_lot (pb_bids pb ! es_bid spec)))"
  shows "filling_range n fl'"
proof (cases "fl' = fl")
  case True
  then show ?thesis using assms(2) by simp
next
  case False
  let ?left = "fl_remaining fl ! es_lot spec"
  obtain notional price left' where run:
    "notional_for D (pb_currency pb) spec (pb_bids pb ! es_bid spec) (cash ! i) ?left = Inr notional"
    "lot_cost_of D (pb_lots pb ! es_lot spec) notional = Inr price" "amount_sub ?left notional = Inr left'"
    and fl': "fl_remaining fl' = (fl_remaining fl)[es_lot spec := left']"
    "\<exists>al. fl_allocations fl' = fl_allocations fl @ [al] \<and> al_notional al = notional \<and> al_price al = price"
    using assms(1) False by (auto simp: fill_edge_def result_simps Let_def split: if_splits)
  have left: "in64 (minor ?left)" using assms(2,3) by (simp add: filling_range_def)
  have notional: "in64 (minor notional)" by (rule notional_for_in64 [OF run(1) left assms(4)])
  have "in64 (minor left')" by (rule amount_sub_Inr(5) [OF run(3) left notional])
  then have "\<forall>r \<in> set (fl_remaining fl'). in64 (minor r)"
    using assms(2) set_update_subset_insert [of "fl_remaining fl" "es_lot spec" left']
    unfolding fl'(1) filling_range_def by blast
  then show ?thesis
    using assms(2) fl' notional lot_cost_of_in64 [OF run(2)] by (auto simp: filling_range_def)
qed

lemma materialize_range:
  assumes "materialize D U version pb raw = Inr s"
    and "\<forall>l \<in> set (pb_lots pb). in64 (minor (lot_supply l))"
    and "\<forall>b \<in> set (pb_bids pb). in64 (minor (bid_minimum_lot b))"
    and "\<forall>e \<in> set (pb_edges pb). es_lot e < length (pb_lots pb) \<and> es_bid e < length (pb_bids pb)"
  shows "\<forall>al \<in> set (sol_allocations s). in64 (minor (al_notional al)) \<and> in64 (minor (al_price al))"
proof -
  obtain zero fl where run: "fold_result (fill_edge D pb (rw_cash raw)) (enumerate 0 (pb_edges pb))
      \<lparr>fl_allocations = [], fl_remaining = map lot_supply (pb_lots pb), fl_allocated = {},
       fl_notional = zero, fl_cash = zero, fl_objective = 0\<rparr> = Inr fl"
    and s: "sol_allocations s = rank_allocations U (fl_allocations fl)"
    using assms(1) by (auto simp: materialize_def result_simps)
  have "filling_range (length (pb_lots pb)) fl"
  proof (rule fold_result_invariant [OF run])
    fix ie u v assume "ie \<in> set (enumerate 0 (pb_edges pb))" and u: "filling_range (length (pb_lots pb)) u"
      and v: "fill_edge D pb (rw_cash raw) ie u = Inr v"
    then have "snd ie \<in> set (pb_edges pb)"
      using enumerate_mem [of "fst ie" "snd ie" "pb_edges pb"] by simp
    then show "filling_range (length (pb_lots pb)) v"
      using fill_edge_range [of pb "rw_cash raw" "fst ie" "snd ie" u v] u v assms(3,4) by simp
  qed (use assms(2) in \<open>auto simp: filling_range_def\<close>)
  then show ?thesis
    unfolding s by (auto simp: rank_allocations_def filling_range_def in_set_enumerate_eq)
      (metis length_sort_by nth_mem set_sort_by)+
qed

end

section \<open>A cleared batch is feasible, verified and certified\<close>

lemma clear_batch_Inr:
  assumes "clear_batch H D U sv (Some a) bids = Some (Inr s)"
  obtains pb raw s0 where "canonicalize D U (sv_params sv) (Some a) bids = Inr pb"
    and "branch_and_bound D U (sv_params sv) pb = Some (Inr raw)"
    and "materialize D U (sv_version sv) pb raw = Inr s0"
    and "verify D U (Some a) bids (Some s0) (sv_params sv) = Inr ()"
    and "s = s0\<lparr>sol_verified := True,
      sol_certificate_hash := certificate H D U a (pb_bids pb) s0 (sv_params sv)\<rparr>"
  using assms by (auto simp: clear_batch_def result_simps)


end
