(* ===== verification/Search_Facts.thy ===== *)
theory Search_Facts
  imports Solver_Facts
begin

text \<open>
  The search of \<^verbatim>\<open>solver_search.go\<close>: it ends within its published budget, every
  allocation it considers has passed both repairs, and a repaired group is capped at its limit.
\<close>

section \<open>The budget\<close>

lemma repair_turn_Some:
  assumes "repair_turn D U P pb st n dropped = Some (Inr (Some raw, st', again))"
  obtains raw0 repaired st1 where "solve_relaxed D U P pb st = Some (Inr (Some raw0))"
    and "repair_exposure D pb st (raw0\<lparr>rw_repair_rounds := n, rw_dropped := dropped\<rparr>) = Inr (repaired, st1)"
    and "rw_cash raw = rw_cash raw0" and "rw_repair_rounds raw = n" and "rw_objective raw = rw_objective raw0"
    and "\<not> again \<Longrightarrow> \<not> repaired \<and>
      fst (repair_minimum_lots pb st1 (raw0\<lparr>rw_repair_rounds := n, rw_dropped := dropped\<rparr>)) = False"
proof -
  obtain raw0 where raw0: "solve_relaxed D U P pb st = Some (Inr (Some raw0))"
    using assms by (auto simp: repair_turn_def result_simps split: option.split_asm)
  let ?raw = "raw0\<lparr>rw_repair_rounds := n, rw_dropped := dropped\<rparr>"
  obtain repaired st1 where rep: "repair_exposure D pb st ?raw = Inr (repaired, st1)"
    using assms raw0 by (auto simp: repair_turn_def result_simps Let_def)
  obtain more st2 raw2 where min: "repair_minimum_lots pb st1 ?raw = (more, st2, raw2)"
    by (cases "repair_minimum_lots pb st1 ?raw") blast
  then have "rw_cash raw2 = rw_cash raw0" "rw_repair_rounds raw2 = n" "rw_objective raw2 = rw_objective raw0"
    by (auto simp: repair_minimum_lots_def split: prod.split_asm)
  moreover have "(repaired \<and> again \<and> raw = ?raw) \<or> (\<not> repaired \<and> again = more \<and> raw = raw2)"
    using assms raw0 rep min by (auto simp: repair_turn_def Let_def split: if_split_asm)
  ultimately show ?thesis using that [OF raw0 rep] min by auto
qed

lemma repair_turn_rounds:
  "repair_turn D U P pb st n dropped = Some (Inr (Some raw, st', again)) \<Longrightarrow> rw_repair_rounds raw = n"
  by (erule repair_turn_Some)

lemma repair_rounds_step:
  assumes "repair_rounds left n D U P pb st dropped rn = Some (Inr (out, st', rn'))"
  obtains (none) "out = None" "rn' = rn\<lparr>rn_solves := rn_solves rn + 1\<rparr>"
    | (final) raw where "out = Some raw" "repair_turn D U P pb st n dropped = Some (Inr (Some raw, st', False))"
        "rn' = rn\<lparr>rn_solves := rn_solves rn + 1\<rparr>"
    | (again) left' st2 d where "left = Suc left'"
        "repair_rounds left' (n + 1) D U P pb st2 d (rn\<lparr>rn_solves := rn_solves rn + 1\<rparr>) = Some (Inr (out, st', rn'))"
proof -
  obtain o1 st1 more where turn: "repair_turn D U P pb st n dropped = Some (Inr (o1, st1, more))"
    using assms by (subst (asm) repair_rounds.simps) (auto simp: result_simps Let_def)
  note run = assms [unfolded repair_rounds.simps [of left] Let_def turn run_then_simps prod.case]
  show ?thesis
  proof (cases o1)
    case None
    then show ?thesis using run none by simp
  next
    case (Some raw)
    show ?thesis
    proof (cases more)
      case False
      then show ?thesis using run turn Some by (intro final [of raw]) simp_all
    next
      case True
      then show ?thesis using run Some none again by (cases left) simp_all
    qed
  qed
qed

lemma repair_rounds_bounds:
  assumes "repair_rounds left n D U P pb st dropped rn = Some (Inr (out, st', rn'))"
  shows "rn_solves rn < rn_solves rn' \<and> rn_solves rn' \<le> rn_solves rn + left + 1 \<and>
    (\<forall>raw. out = Some raw \<longrightarrow> rw_repair_rounds raw \<le> n + left)"
  using assms
proof (induction left arbitrary: n st dropped rn)
  case 0
  then show ?case by (rule repair_rounds_step) (auto dest: repair_turn_rounds)
next
  case (Suc left)
  from Suc.prems show ?case
  proof (cases rule: repair_rounds_step)
    case (again left' st2 d)
    then show ?thesis using Suc.IH [of "n + 1" st2 d "rn\<lparr>rn_solves := rn_solves rn + 1\<rparr>"] by auto
  qed (auto dest: repair_turn_rounds)
qed

text \<open>What a branch returns has come through its last round unrepaired.\<close>

lemma repair_rounds_final:
  assumes "repair_rounds left n D U P pb st dropped rn = Some (Inr (Some raw, st', rn'))"
  shows "\<exists>st1 m d. repair_turn D U P pb st1 m d = Some (Inr (Some raw, st', False))"
  using assms
proof (induction left arbitrary: n st dropped rn)
  case 0
  then show ?case by (rule repair_rounds_step) auto
next
  case (Suc left)
  from Suc.prems show ?case
  proof (cases rule: repair_rounds_step)
    case (again left' st2 d)
    then show ?thesis using Suc.IH by simp
  qed auto
qed

text \<open>What every way of ending and extending a node keeps, the whole search keeps.\<close>

definition open_node :: "'d solver_params \<Rightarrow> exploration \<Rightarrow> bool" where
  "open_node P ex \<longleftrightarrow> ex_nodes ex < sp_max_branch_nodes P \<and> rn_solves (ex_run ex) < sp_max_relaxed_solves P"

definition extended :: "exploration \<Rightarrow> raw_solution \<Rightarrow> solver_run \<Rightarrow> exploration" where
  "extended ex raw rn = ex\<lparr>ex_best := Some (better_of (ex_best ex) raw), ex_nodes := ex_nodes ex + 1,
     ex_limit_reached := ex_limit_reached ex \<or> rw_limit_reached raw,
     ex_repair_rounds := ex_repair_rounds ex + rw_repair_rounds raw, ex_run := rn\<rparr>"

lemma explore_invariant:
  assumes "explore D U P pb st ex = Some (Inr ex')" and "Q ex"
    and nodes: "\<And>x. Q x \<Longrightarrow> Q (x\<lparr>ex_limit_reached := True\<rparr>)"
    and solves: "\<And>x. Q x \<Longrightarrow> Q (x\<lparr>ex_limit_reached := True, ex_run := (ex_run x)\<lparr>rn_exhausted := True\<rparr>\<rparr>)"
    and infeasible: "\<And>x s s' rn. Q x \<Longrightarrow> open_node P x \<Longrightarrow>
      solve_state D U P pb s (ex_run x) = Some (Inr (None, s', rn)) \<Longrightarrow>
      Q (x\<lparr>ex_nodes := ex_nodes x + 1, ex_run := rn\<rparr>)"
    and candidate: "\<And>x s s' rn raw. Q x \<Longrightarrow> open_node P x \<Longrightarrow>
      solve_state D U P pb s (ex_run x) = Some (Inr (Some raw, s', rn)) \<Longrightarrow> Q (extended x raw rn)"
  shows "Q ex'"
  using assms(1,2)
proof (induction "sp_max_branch_nodes P - ex_nodes ex" arbitrary: st ex rule: less_induct)
  case less
  show ?case
  proof (cases "open_node P ex")
    case False
    then show ?thesis using less.prems nodes [of ex] solves [of ex]
      by (subst (asm) explore.simps) (auto simp: open_node_def not_less split: if_splits)
  next
    case True
    then obtain out st' rn where node: "solve_state D U P pb st (ex_run ex) = Some (Inr (out, st', rn))"
      using less.prems(1) by (subst (asm) explore.simps) (auto simp: open_node_def split: option.splits sum.splits)
    show ?thesis
    proof (cases out)
      case None
      then have "ex' = ex\<lparr>ex_nodes := ex_nodes ex + 1, ex_run := rn\<rparr>"
        using less.prems(1) True node by (subst (asm) explore.simps) (simp add: open_node_def)
      then show ?thesis using infeasible [OF less.prems(2) True] node None by simp
    next
      case (Some raw)
      have Q: "Q (extended ex raw rn)" by (rule candidate [OF less.prems(2) True node [unfolded Some]])
      show ?thesis
      proof (cases "find (\<lambda>i. i \<notin> br_forced st') (rw_dropped raw)")
        case None
        then have "ex' = extended ex raw rn"
          using less.prems(1) True node Some
          by (subst (asm) explore.simps) (simp add: open_node_def extended_def Let_def)
        then show ?thesis using Q by simp
      next
        case (Some index)
        then have "explore D U P pb (force_minimum pb index st') (extended ex raw rn) = Some (Inr ex')"
          using less.prems(1) True node \<open>out = Some raw\<close>
          by (subst (asm) explore.simps) (simp add: open_node_def extended_def Let_def)
        moreover have "sp_max_branch_nodes P - ex_nodes (extended ex raw rn) < sp_max_branch_nodes P - ex_nodes ex"
          using True unfolding open_node_def extended_def by simp linarith
        ultimately show ?thesis using less.hyps Q by blast
      qed
    qed
  qed
qed

definition new_exploration :: exploration where
  "new_exploration = \<lparr>ex_best = None, ex_nodes = 0, ex_limit_reached = False, ex_repair_rounds = 0,
     ex_run = \<lparr>rn_solves = 0, rn_exhausted = False\<rparr>\<rparr>"

definition within_budget :: "'d solver_params \<Rightarrow> exploration \<Rightarrow> bool" where
  "within_budget P ex \<longleftrightarrow> ex_nodes ex \<le> sp_max_branch_nodes P \<and>
     rn_solves (ex_run ex) \<le> sp_max_relaxed_solves P + sp_max_repair_rounds P \<and>
     ex_repair_rounds ex \<le> ex_nodes ex * sp_max_repair_rounds P"

lemma explore_within_budget:
  assumes "explore D U P pb st ex = Some (Inr ex')" and "within_budget P ex"
  shows "within_budget P ex'"
proof (rule explore_invariant [where Q = "within_budget P", OF assms])
  fix x s s' rn assume x: "within_budget P x" "open_node P x"
    and node: "solve_state D U P pb s (ex_run x) = Some (Inr (None, s', rn))"
  then show "within_budget P (x\<lparr>ex_nodes := ex_nodes x + 1, ex_run := rn\<rparr>)"
    using repair_rounds_bounds [OF node [unfolded solve_state_def]] by (simp add: within_budget_def open_node_def)
next
  fix x s s' rn raw assume x: "within_budget P x" "open_node P x"
    and node: "solve_state D U P pb s (ex_run x) = Some (Inr (Some raw, s', rn))"
  then show "within_budget P (extended x raw rn)"
    using repair_rounds_bounds [OF node [unfolded solve_state_def]]
    by (simp add: within_budget_def open_node_def extended_def)
qed (simp_all add: within_budget_def)

section \<open>The groups of the exposure repair\<close>

definition debtor_key :: "'d problem \<Rightarrow> 'd edge_spec \<Rightarrow> exposure_key" where
  "debtor_key pb spec = (es_bid spec, ''debtor:'' @ lot_debtor_ref (pb_lots pb ! es_lot spec))"

definition grade_key :: "'d problem \<Rightarrow> 'd edge_spec \<Rightarrow> exposure_key" where
  "grade_key pb spec = (es_bid spec, ''grade:'' @ lot_grade (pb_lots pb ! es_lot spec))"

text \<open>The cash on the used edges among the first ones whose key is \<open>k\<close>.\<close>

definition group_cash :: "('d edge_spec \<Rightarrow> exposure_key) \<Rightarrow> int list \<Rightarrow> 'd edge_spec list \<Rightarrow> exposure_key \<Rightarrow> int" where
  "group_cash key cash xs k =
    (\<Sum>(i, s) \<leftarrow> enumerate 0 xs. if 0 < cash ! i \<and> key s = k then cash ! i else 0)"

lemma group_cash_snoc:
  "group_cash key cash (xs @ [s]) k =
    group_cash key cash xs k + (if 0 < cash ! length xs \<and> key s = k then cash ! length xs else 0)"
  by (simp add: group_cash_def enumerate_append_eq)

lemma group_cash_Nil: "group_cash key cash [] k = 0"
  by (simp add: group_cash_def)

lemma keys_apart: "debtor_key pb s \<noteq> grade_key pb t"
  by (simp add: debtor_key_def grade_key_def)

lemma group_add_lookup:
  "map_of (group_add key limit i c groups) k =
    (if k = key then Some (case map_of groups key of
         None \<Rightarrow> \<lparr>eg_limit = minor limit, eg_spent = wrap64 c, eg_edges = [i]\<rparr>
       | Some g \<Rightarrow> g\<lparr>eg_spent := wrap64 (eg_spent g + c), eg_edges := eg_edges g @ [i]\<rparr>)
     else map_of groups k)"
  by (simp add: group_add_def Let_def update_conv split: option.split)

definition grouped ::
  "'d decimal_ops \<Rightarrow> 'd problem \<Rightarrow> int list \<Rightarrow> 'd edge_spec list \<Rightarrow> (exposure_key \<times> exposure_group) list \<Rightarrow> bool" where
  "grouped D pb cash xs groups \<longleftrightarrow>
     (\<forall>k. case map_of groups k of
        None \<Rightarrow> group_cash (debtor_key pb) cash xs k = 0 \<and> group_cash (grade_key pb) cash xs k = 0
      | Some g \<Rightarrow> eg_spent g =
          wrap64 (group_cash (debtor_key pb) cash xs k + group_cash (grade_key pb) cash xs k)) \<and>
     (\<forall>s g. map_of groups (debtor_key pb s) = Some g \<longrightarrow>
        (\<exists>l. debtor_limit D (pb_bids pb ! es_bid s) = Inr l \<and> eg_limit g = minor l)) \<and>
     (\<forall>s g. map_of groups (grade_key pb s) = Some g \<longrightarrow>
        (\<exists>l. grade_limit D (pb_bids pb ! es_bid s) (lot_grade (pb_lots pb ! es_lot s)) = Inr l \<and>
           eg_limit g = minor l)) \<and>
     (\<forall>i < length xs. 0 < cash ! i \<longrightarrow>
        map_of groups (debtor_key pb (xs ! i)) \<noteq> None \<and> map_of groups (grade_key pb (xs ! i)) \<noteq> None)"

lemma grouped_step:
  assumes pre: "grouped D pb cash xs groups" and pos: "0 < cash ! length xs"
    and limits: "debtor_limit D (pb_bids pb ! es_bid s) = Inr dl"
      "grade_limit D (pb_bids pb ! es_bid s) (lot_grade (pb_lots pb ! es_lot s)) = Inr gl"
  shows "grouped D pb cash (xs @ [s])
    (group_add (grade_key pb s) gl (length xs) (cash ! length xs)
      (group_add (debtor_key pb s) dl (length xs) (cash ! length xs) groups))"
proof -
  let ?c = "cash ! length xs"
  let ?new = "group_add (grade_key pb s) gl (length xs) ?c (group_add (debtor_key pb s) dl (length xs) ?c groups)"
  note look = group_add_lookup keys_apart keys_apart [symmetric]
  have spent: "case map_of ?new k of
        None \<Rightarrow> group_cash (debtor_key pb) cash (xs @ [s]) k = 0 \<and> group_cash (grade_key pb) cash (xs @ [s]) k = 0
      | Some g \<Rightarrow> eg_spent g = wrap64 (group_cash (debtor_key pb) cash (xs @ [s]) k +
          group_cash (grade_key pb) cash (xs @ [s]) k)" for k
  proof -
    have old: "case map_of groups k of
        None \<Rightarrow> group_cash (debtor_key pb) cash xs k = 0 \<and> group_cash (grade_key pb) cash xs k = 0
      | Some g \<Rightarrow> eg_spent g =
          wrap64 (group_cash (debtor_key pb) cash xs k + group_cash (grade_key pb) cash xs k)"
      using pre unfolding grouped_def by blast
    have wrap: "wrap64 (?c + wrap64 x) = wrap64 (?c + x)" for x
      by (simp add: wrap64_def mod_simps algebra_simps)
    consider "k = debtor_key pb s" | "k = grade_key pb s" | "k \<noteq> debtor_key pb s" "k \<noteq> grade_key pb s" by blast
    then show ?thesis
      using old pos by cases (auto simp: look group_cash_snoc wrap add.assoc add.commute add.left_commute
        split: option.splits)
  qed
  have oldd: "\<exists>l. debtor_limit D (pb_bids pb ! es_bid t) = Inr l \<and> eg_limit g = minor l"
    if "map_of groups (debtor_key pb t) = Some g" for t g
    using pre that unfolding grouped_def by blast
  have oldg: "\<exists>l. grade_limit D (pb_bids pb ! es_bid t) (lot_grade (pb_lots pb ! es_lot t)) = Inr l \<and>
      eg_limit g = minor l"
    if "map_of groups (grade_key pb t) = Some g" for t g
    using pre that unfolding grouped_def by blast
  have dlim: "\<exists>l. debtor_limit D (pb_bids pb ! es_bid t) = Inr l \<and> eg_limit g = minor l"
    if "map_of ?new (debtor_key pb t) = Some g" for t g
  proof (cases "debtor_key pb t = debtor_key pb s")
    case True
    then have "es_bid t = es_bid s" by (simp add: debtor_key_def)
    then show ?thesis using that True limits(1) oldd [of s]
      by (cases "map_of groups (debtor_key pb s)") (auto simp: look)
  next
    case False
    then show ?thesis using that oldd [of t g] by (simp add: look)
  qed
  have glim: "\<exists>l. grade_limit D (pb_bids pb ! es_bid t) (lot_grade (pb_lots pb ! es_lot t)) = Inr l \<and>
      eg_limit g = minor l"
    if "map_of ?new (grade_key pb t) = Some g" for t g
  proof (cases "grade_key pb t = grade_key pb s")
    case True
    then have "es_bid t = es_bid s" "lot_grade (pb_lots pb ! es_lot t) = lot_grade (pb_lots pb ! es_lot s)"
      by (simp_all add: grade_key_def)
    then show ?thesis using that True limits(2) oldg [of s]
      by (cases "map_of groups (grade_key pb s)") (auto simp: look)
  next
    case False
    then show ?thesis using that oldg [of t g] by (simp add: look)
  qed
  have dom: "map_of ?new (debtor_key pb ((xs @ [s]) ! i)) \<noteq> None \<and> map_of ?new (grade_key pb ((xs @ [s]) ! i)) \<noteq> None"
    if "i < length (xs @ [s])" "0 < cash ! i" for i
    using pre that by (cases "i < length xs") (auto simp: look grouped_def nth_append)
  show ?thesis unfolding grouped_def using spent dlim glim dom by blast
qed

lemma exposure_groups_grouped:
  assumes "exposure_groups D pb raw = Inr groups"
  shows "grouped D pb (rw_cash raw) (pb_edges pb) groups"
proof -
  let ?cash = "rw_cash raw"
  have "grouped D pb ?cash ([] @ pb_edges pb) groups"
  proof (rule fold_enumerate_invariant [OF assms [unfolded exposure_groups_def]])
    show "grouped D pb ?cash [] []" by (simp add: grouped_def group_cash_Nil)
  next
    fix xs s g t assume pre: "grouped D pb ?cash xs g" and run: "expose_edge D pb ?cash (length xs, s) g = Inr t"
    show "grouped D pb ?cash (xs @ [s]) t"
    proof (cases "?cash ! length xs \<le> 0")
      case True
      then have "t = g" using run by (simp add: expose_edge_def)
      have cash: "group_cash key ?cash (xs @ [s]) = group_cash key ?cash xs" for key
        using True by (intro ext) (simp add: group_cash_snoc)
      have "\<forall>i < length (xs @ [s]). 0 < ?cash ! i \<longrightarrow>
          map_of g (debtor_key pb ((xs @ [s]) ! i)) \<noteq> None \<and> map_of g (grade_key pb ((xs @ [s]) ! i)) \<noteq> None"
        using pre True by (simp add: grouped_def nth_append less_Suc_eq)
      then show ?thesis using pre unfolding grouped_def cash \<open>t = g\<close> by blast
    next
      case False
      then obtain dl gl where "debtor_limit D (pb_bids pb ! es_bid s) = Inr dl"
        "grade_limit D (pb_bids pb ! es_bid s) (lot_grade (pb_lots pb ! es_lot s)) = Inr gl"
        "t = group_add (grade_key pb s) gl (length xs) (?cash ! length xs)
          (group_add (debtor_key pb s) dl (length xs) (?cash ! length xs) g)"
        using run by (auto simp: expose_edge_def result_simps Let_def debtor_key_def grade_key_def)
      then show ?thesis using grouped_step [OF pre] False by simp
    qed
  qed simp
  then show ?thesis by simp
qed

section \<open>What the search returns is repaired\<close>

text \<open>
  The published constraints the flow cannot express: the cash a bid puts on one debtor, and on one grade, is
  within its limit, and an allocation is either nothing or at least the bid's minimum lot. Sums are the
  program's 64-bit sums.
\<close>

definition repaired_cash :: "'d decimal_ops \<Rightarrow> 'd problem \<Rightarrow> int list \<Rightarrow> bool" where
  "repaired_cash D pb cash \<longleftrightarrow>
     (\<forall>i < length (pb_edges pb). let s = pb_edges pb ! i; b = pb_bids pb ! es_bid s in
       (es_minimum_cash s = 0 \<or> cash ! i \<le> 0 \<or> es_minimum_cash s \<le> cash ! i) \<and>
       (0 < cash ! i \<longrightarrow>
          at_most (wrap64 (group_cash (debtor_key pb) cash (pb_edges pb) (debtor_key pb s))) (debtor_limit D b) \<and>
          at_most (wrap64 (group_cash (grade_key pb) cash (pb_edges pb) (grade_key pb s)))
            (grade_limit D b (lot_grade (pb_lots pb ! es_lot s)))))"

lemma repair_groups_unrepaired:
  assumes "fold_result (repair_group edges raw) groups (False, st) = Inr (False, st')"
    and "(k, g) \<in> set groups"
  shows "eg_spent g \<le> eg_limit g"
proof -
  have sticky: "fst v" if "fold_result (repair_group edges raw) gs (True, u) = Inr v" for gs u v
    by (rule fold_result_invariant [OF that, where P = fst])
      (auto simp: repair_group_def Let_def split: prod.split_asm if_split_asm)
  show ?thesis
    using assms
  proof (induction groups arbitrary: st)
    case Nil
    then show ?case by simp
  next
    case (Cons kg groups)
    obtain key h where kg: "kg = (key, h)" by (cases kg)
    obtain u where u: "repair_group edges raw kg (False, st) = Inr u"
      "fold_result (repair_group edges raw) groups u = Inr (False, st')"
      using Cons.prems(1) by (auto simp: result_simps)
    have "\<not> fst u" using sticky [of groups "snd u" "(False, st')"] u(2) by (cases u) auto
    then have h: "eg_spent h \<le> eg_limit h" "u = (False, st)"
      using u(1) by (auto simp: repair_group_def kg Let_def split: if_split_asm prod.split_asm)
    then show ?case using Cons kg u(2) by auto
  qed
qed

lemma drop_none:
  assumes "fst (fold (drop_below_minimum cash) (enumerate n edges) (False, st, d)) = False"
  shows "\<forall>i < length edges. es_minimum_cash (edges ! i) = 0 \<or> cash ! (n + i) \<le> 0 \<or>
    es_minimum_cash (edges ! i) \<le> cash ! (n + i)"
proof -
  have sticky: "fst (fold (drop_below_minimum cash) xs (True, u))" for xs u
    by (induction xs arbitrary: u) (auto simp: drop_below_minimum_def split: prod.split)
  show ?thesis
    using assms
  proof (induction edges arbitrary: n st d)
    case Nil
    then show ?case by simp
  next
    case (Cons e edges)
    let ?ok = "es_minimum_cash e = 0 \<or> cash ! n \<le> 0 \<or> es_minimum_cash e \<le> cash ! n"
    have ok: ?ok
    proof (rule ccontr)
      assume "\<not> ?ok"
      then obtain u where "drop_below_minimum cash (n, e) (False, st, d) = (True, u)"
        by (simp add: drop_below_minimum_def)
      then show False using Cons.prems sticky [of "enumerate (Suc n) edges" u] by simp
    qed
    then have "drop_below_minimum cash (n, e) (False, st, d) = (False, st, d)"
      by (simp add: drop_below_minimum_def)
    then have "fst (fold (drop_below_minimum cash) (enumerate (Suc n) edges) (False, st, d)) = False"
      using Cons.prems by simp
    from Cons.IH [OF this] ok show ?case by (simp add: nth_Cons split: nat.split)
  qed
qed

lemma repair_turn_repaired:
  assumes "repair_turn D U P pb st n d = Some (Inr (Some raw, st', False))"
  shows "repaired_cash D pb (rw_cash raw)"
proof -
  from assms obtain raw0 st1 where run:
    "repair_exposure D pb st (raw0\<lparr>rw_repair_rounds := n, rw_dropped := d\<rparr>) = Inr (False, st1)"
    "rw_cash raw = rw_cash raw0"
    "fst (repair_minimum_lots pb st1 (raw0\<lparr>rw_repair_rounds := n, rw_dropped := d\<rparr>)) = False"
    by (elim repair_turn_Some) auto
  let ?edges = "pb_edges pb" and ?cash = "rw_cash raw"
  obtain groups where groups: "exposure_groups D pb raw = Inr groups"
    "fold_result (repair_group ?edges (raw0\<lparr>rw_repair_rounds := n, rw_dropped := d\<rparr>))
      (sort_by key_before groups) (False, st) = Inr (False, st1)"
    using run(1,2) by (auto simp: repair_exposure_def exposure_groups_def result_simps)
  have small: "eg_spent g \<le> eg_limit g" if "map_of groups k = Some g" for k g
    by (rule repair_groups_unrepaired [OF groups(2)]) (use map_of_SomeD [OF that] in simp)
  note grouped = exposure_groups_grouped [OF groups(1), unfolded grouped_def]
  have minimum: "\<forall>i < length ?edges. es_minimum_cash (?edges ! i) = 0 \<or> ?cash ! i \<le> 0 \<or>
      es_minimum_cash (?edges ! i) \<le> ?cash ! i"
    using drop_none [of ?cash 0 ?edges st1 d] run(2,3)
    by (auto simp: repair_minimum_lots_def split: prod.split_asm)
  have apart: "group_cash (grade_key pb) ?cash ?edges (debtor_key pb s) = 0"
    "group_cash (debtor_key pb) ?cash ?edges (grade_key pb s) = 0" for s
    by (simp_all add: group_cash_def keys_apart keys_apart [symmetric] split_def)
  have "at_most (wrap64 (group_cash (debtor_key pb) ?cash ?edges (debtor_key pb (?edges ! i))))
      (debtor_limit D (pb_bids pb ! es_bid (?edges ! i))) \<and>
    at_most (wrap64 (group_cash (grade_key pb) ?cash ?edges (grade_key pb (?edges ! i))))
      (grade_limit D (pb_bids pb ! es_bid (?edges ! i)) (lot_grade (pb_lots pb ! es_lot (?edges ! i))))"
    if i: "i < length ?edges" "0 < ?cash ! i" for i
  proof -
    let ?s = "?edges ! i"
    obtain g h where g: "map_of groups (debtor_key pb ?s) = Some g" and h: "map_of groups (grade_key pb ?s) = Some h"
      using grouped i by blast
    obtain l m where l: "debtor_limit D (pb_bids pb ! es_bid ?s) = Inr l" "eg_limit g = minor l"
      and m: "grade_limit D (pb_bids pb ! es_bid ?s) (lot_grade (pb_lots pb ! es_lot ?s)) = Inr m" "eg_limit h = minor m"
      using grouped g h by blast
    have "case map_of groups k of
        None \<Rightarrow> group_cash (debtor_key pb) ?cash ?edges k = 0 \<and> group_cash (grade_key pb) ?cash ?edges k = 0
      | Some g \<Rightarrow> eg_spent g = wrap64 (group_cash (debtor_key pb) ?cash ?edges k +
          group_cash (grade_key pb) ?cash ?edges k)" for k
      using grouped by blast
    from this [of "debtor_key pb ?s"] this [of "grade_key pb ?s"]
    have "eg_spent g = wrap64 (group_cash (debtor_key pb) ?cash ?edges (debtor_key pb ?s))"
      "eg_spent h = wrap64 (group_cash (grade_key pb) ?cash ?edges (grade_key pb ?s))"
      using g h apart by simp_all
    then show ?thesis using small [OF g] small [OF h] l m by (simp add: at_most_def)
  qed
  then show ?thesis using minimum by (simp add: repaired_cash_def Let_def)
qed

lemma solve_state_repaired:
  assumes "solve_state D U P pb st rn = Some (Inr (Some raw, st', rn'))"
  shows "repaired_cash D pb (rw_cash raw)"
  using repair_rounds_final [OF assms [unfolded solve_state_def]] repair_turn_repaired by blast

lemma explore_repaired:
  assumes "explore D U P pb st ex = Some (Inr ex')"
    and "\<forall>b. ex_best ex = Some b \<longrightarrow> repaired_cash D pb (rw_cash b)"
  shows "\<forall>b. ex_best ex' = Some b \<longrightarrow> repaired_cash D pb (rw_cash b)"
  by (rule explore_invariant [where Q = "\<lambda>x. \<forall>b. ex_best x = Some b \<longrightarrow> repaired_cash D pb (rw_cash b)", OF assms])
    (auto simp: extended_def better_of_def solve_state_repaired split: option.split)

lemma branch_and_bound_Inr:
  assumes "branch_and_bound D U P pb = Some (Inr raw)"
  obtains ex where "explore D U P pb new_branch new_exploration = Some (Inr ex)"
    and "rw_cash raw = (case ex_best ex of Some b \<Rightarrow> rw_cash b | None \<Rightarrow> replicate (length (pb_edges pb)) 0)"
    and "rw_branch_nodes raw = ex_nodes ex" and "rw_repair_rounds raw = ex_repair_rounds ex"
    and "rw_limit_reached raw \<longleftrightarrow> ex_limit_reached ex \<or> rn_exhausted (ex_run ex)"
proof -
  obtain ex where ex: "explore D U P pb new_branch new_exploration = Some (Inr ex)"
    using assms by (auto simp: branch_and_bound_def new_exploration_def result_simps)
  then show ?thesis using assms
    by (intro that [OF ex]) (auto simp: branch_and_bound_def new_exploration_def Let_def split: option.split)
qed

text \<open>Every allocation of cash the branch and bound returns respects the constraints its flow network
  cannot express: what a bid spends on one debtor and on one grade is within the bid's limits, and every edge
  carries either nothing or at least the bid's minimum lot. No allocation leaves the search half repaired.\<close>

theorem search_repaired:
  assumes "branch_and_bound D U P pb = Some (Inr raw)"
  shows "repaired_cash D pb (rw_cash raw)"
proof -
  obtain ex where ex: "explore D U P pb new_branch new_exploration = Some (Inr ex)"
    "rw_cash raw = (case ex_best ex of Some b \<Rightarrow> rw_cash b | None \<Rightarrow> replicate (length (pb_edges pb)) 0)"
    using branch_and_bound_Inr [OF assms] by blast
  have "\<forall>b. ex_best ex = Some b \<longrightarrow> repaired_cash D pb (rw_cash b)"
    by (rule explore_repaired [OF ex(1)]) (simp add: new_exploration_def)
  then show ?thesis using ex(2) by (auto simp: repaired_cash_def Let_def split: option.split)
qed

text \<open>The search keeps its published budget: it visits at most the allowed number of branch nodes, spends
  at most the allowed repair rounds on each, and starts no node once the allowed relaxations are spent, so it
  exceeds their number by less than the repair rounds of the node it was in.\<close>

theorem search_budget:
  assumes "branch_and_bound D U P pb = Some (Inr raw)"
  shows "rw_branch_nodes raw \<le> sp_max_branch_nodes P \<and>
    rw_repair_rounds raw \<le> rw_branch_nodes raw * sp_max_repair_rounds P \<and>
    (\<exists>ex. explore D U P pb new_branch new_exploration = Some (Inr ex) \<and>
       rn_solves (ex_run ex) \<le> sp_max_relaxed_solves P + sp_max_repair_rounds P)"
proof -
  obtain ex where ex: "explore D U P pb new_branch new_exploration = Some (Inr ex)"
    "rw_branch_nodes raw = ex_nodes ex" "rw_repair_rounds raw = ex_repair_rounds ex"
    using branch_and_bound_Inr [OF assms] by blast
  have "within_budget P ex"
    by (rule explore_within_budget [OF ex(1)]) (simp add: new_exploration_def within_budget_def)
  then show ?thesis using ex by (auto simp: within_budget_def)
qed

section \<open>Returning\<close>

lemma run_then_returns:
  "\<exists>r. m = Some r \<Longrightarrow> (\<And>x. \<exists>r. f x = Some r) \<Longrightarrow> \<exists>r. run_then m f = Some r"
  by (auto simp: run_then_def split: sum.split)

lemma repair_turn_returns:
  assumes "\<And>f s t. \<exists>r. solve_flow f s t (sp_max_augmentations P) = Some r"
  shows "\<exists>r. repair_turn D U P pb st n d = Some r"
proof -
  have "\<exists>r. solve_relaxed D U P pb st = Some r"
    using assms unfolding solve_relaxed_def Let_def
    by (auto intro!: run_then_returns split: option.split prod.split)
  then show ?thesis unfolding repair_turn_def Let_def
    by (auto intro!: run_then_returns split: option.split prod.split)
qed

lemma repair_rounds_returns:
  assumes "\<And>f s t. \<exists>r. solve_flow f s t (sp_max_augmentations P) = Some r"
  shows "\<exists>r. repair_rounds left n D U P pb st d rn = Some r"
proof (induction left arbitrary: n st d rn)
  case 0
  show ?case unfolding repair_rounds.simps [of 0] Let_def
    by (auto intro!: run_then_returns repair_turn_returns [OF assms] split: option.split)
next
  case (Suc left)
  then show ?case unfolding repair_rounds.simps [of "Suc left"] Let_def
    by (auto intro!: run_then_returns repair_turn_returns [OF assms] split: option.split)
qed

lemma explore_returns:
  assumes "\<And>f s t. \<exists>r. solve_flow f s t (sp_max_augmentations P) = Some r"
  shows "\<exists>r. explore D U P pb st ex = Some r"
proof (induction "sp_max_branch_nodes P - ex_nodes ex" arbitrary: st ex rule: less_induct)
  case less
  show ?case
  proof (cases "open_node P ex")
    case False
    then show ?thesis by (subst explore.simps) (auto simp: open_node_def)
  next
    case True
    obtain r where node: "solve_state D U P pb st (ex_run ex) = Some r"
      using repair_rounds_returns [OF assms] unfolding solve_state_def by blast
    have "sp_max_branch_nodes P - ex_nodes (extended ex raw rn) < sp_max_branch_nodes P - ex_nodes ex" for raw rn
      using True unfolding open_node_def extended_def by simp linarith
    then have "\<exists>r. explore D U P pb st' (extended ex raw rn) = Some r" for st' raw rn
      by (rule less.hyps)
    then show ?thesis using True node
      by (subst explore.simps) (auto simp: open_node_def extended_def Let_def split: sum.split option.split prod.split)
  qed
qed


section \<open>A batch with one lot and one bid\<close>

definition sample_edge :: "rat edge_spec" where
  "sample_edge = \<lparr>es_lot = 0, es_bid = 0, es_value = 211472, es_max_cash = 50000, es_unit_price = 24 / 25,
     es_minimum_cash = 0\<rparr>"

definition sample_problem :: "rat problem" where
  "sample_problem = \<lparr>pb_auction_id = 5, pb_lots = [sample_lot], pb_bids = [sample_bid], pb_edges = [sample_edge],
     pb_blocked = [\<lparr>rj_bid_id = 7, rj_lot_id = uuid_nil, rj_constraint = Some CNoRemainingCapacity\<rparr>],
     pb_currency = ''USD'', pb_params = sample_params\<rparr>"

text \<open>
  The sample bid may spend half its budget on one debtor. The relaxation spends all of it, the repair caps
  the edge, and the second round is final.
\<close>

definition sample_network :: "int \<Rightarrow> int \<Rightarrow> flow_network" where
  "sample_network capacity flow =
    (let arc = (\<lambda>a b c f w. \<lparr>fa_from = a, fa_to = b, fa_capacity = c, fa_flow = f, fa_cost = w\<rparr>) in
     \<lparr>fn_nodes = 4, fn_heads = [[0], [1, 2], [3, 4], [5]],
      fn_arcs = [arc 0 1 96000 flow 0, arc 1 0 0 (- flow) 0, arc 1 2 capacity flow (- 211472),
        arc 2 1 0 (- flow) 211472, arc 2 3 50000 flow 0, arc 3 2 0 (- flow) 0]\<rparr>)"

definition sample_raw :: "int \<Rightarrow> raw_solution" where
  "sample_raw cash = \<lparr>rw_cash = [cash], rw_dropped = [], rw_objective = cash * 211472, rw_branch_nodes = 0,
     rw_repair_rounds = 0, rw_limit_reached = False\<rparr>"

definition sample_capped :: branch where
  "sample_capped = new_branch\<lparr>br_capped := [(0, 25000)]\<rparr>"

definition sample_final :: raw_solution where
  "sample_final = (sample_raw 25000)\<lparr>rw_repair_rounds := 1\<rparr>"

lemma sample_canonical:
  "canonicalize rat_decimal rfc_uuid sample_params (Some sample_auction) [Some sample_bid, None] = Inr sample_problem"
  by code_simp

lemma solve_relaxed_stages:
  assumes "fold_result (edge_capacity D U pb st) (enumerate 0 (pb_edges pb))
      \<lparr>cp_issuer = [], cp_members = [], cp_edge = replicate (length (pb_edges pb)) 0\<rparr> = Inr caps0"
    and "fold fold_single (cp_members caps0) caps0 = caps"
    and "fold (spend_preassigned U pb st (cp_edge caps)) (br_preassign st)
      (Some \<lparr>sd_lot = map (minor \<circ> lot_reserve_price) (pb_lots pb), sd_bid = map (minor \<circ> bid_budget) (pb_bids pb),
         sd_issuer = cp_issuer caps, sd_cash = replicate (length (pb_edges pb)) 0, sd_objective = 0\<rparr>) = Some sd"
    and "build_network U pb st (cp_edge caps) sd = (arcs, sink, f)"
    and "solve_flow f 0 sink (sp_max_augmentations P) = Some (Inr (g, out))"
    and "fold_result (read_flow g pb) (enumerate 0 arcs) (sd_cash sd, sd_objective sd) = Inr (cash, objective)"
  shows "solve_relaxed D U P pb st = Some (Inr (Some \<lparr>rw_cash = cash, rw_dropped = [], rw_objective = objective,
    rw_branch_nodes = 0, rw_repair_rounds = 0, rw_limit_reached = sv_limit_reached out\<rparr>))"
  by (simp add: solve_relaxed_def assms Let_def)

lemma sample_flow:
  "solve_flow (sample_network 50000 0) 0 3 9 = Some (Inr (sample_network 50000 50000,
     \<lparr>sv_flow = 50000, sv_cost = - 10573600000, sv_augmentations = 1, sv_limit_reached = False\<rparr>))"
  "solve_flow (sample_network 25000 0) 0 3 9 = Some (Inr (sample_network 25000 25000,
     \<lparr>sv_flow = 25000, sv_cost = - 5286800000, sv_augmentations = 1, sv_limit_reached = False\<rparr>))"
  by code_simp+

lemma sample_problem_simps:
  "pb_edges sample_problem = [sample_edge]" "pb_bids sample_problem = [sample_bid]"
  "pb_lots sample_problem = [sample_lot]" "es_lot sample_edge = 0" "es_bid sample_edge = 0"
  "es_value sample_edge = 211472" "es_max_cash sample_edge = 50000"
  "pb_currency sample_problem = ''USD''" "pb_auction_id sample_problem = 5"
  "pb_blocked sample_problem = [\<lparr>rj_bid_id = 7, rj_lot_id = uuid_nil, rj_constraint = Some CNoRemainingCapacity\<rparr>]"
  by (simp_all add: sample_problem_def sample_edge_def)

lemma sample_issuer:
  "issuer_key rfc_uuid sample_problem sample_edge = (0, ''00000000-0000-0000-0000-000000000004'')"
  "issuer_limit rat_decimal sample_bid = Inr \<lparr>minor = 50000, currency = ''USD''\<rparr>"
  by code_simp+

lemma sample_amounts:
  "minor (lot_reserve_price sample_lot) = 96000" "minor (bid_budget sample_bid) = 50000"
  by (simp_all add: sample_lot_def sample_bid_def)

definition sample_caps :: "(exposure_key \<times> int) list \<Rightarrow> int \<Rightarrow> capacities" where
  "sample_caps issuers c = \<lparr>cp_issuer = issuers,
     cp_members = [((0, ''00000000-0000-0000-0000-000000000004''), [0])], cp_edge = [c]\<rparr>"

lemma sample_relaxed:
  assumes st: "st = new_branch \<and> c = 50000 \<or> st = sample_capped \<and> c = 25000"
  shows "solve_relaxed rat_decimal rfc_uuid sample_params sample_problem st = Some (Inr (Some (sample_raw c)))"
proof -
  let ?caps = "sample_caps [] c" and ?before = "sample_caps [((0, ''00000000-0000-0000-0000-000000000004''), 50000)] c"
  let ?sd = "\<lparr>sd_lot = [96000], sd_bid = [50000], sd_issuer = [], sd_cash = [0], sd_objective = 0\<rparr>"
  have branch: "br_forbidden st = {}" "br_preassign st = []" "capacity_of st 0 sample_edge = c"
    using st by (auto simp: new_branch_def sample_capped_def capacity_of_def sample_problem_simps)
  have caps0: "fold_result (edge_capacity rat_decimal rfc_uuid sample_problem st) (enumerate 0 (pb_edges sample_problem))
      \<lparr>cp_issuer = [], cp_members = [], cp_edge = replicate (length (pb_edges sample_problem)) 0\<rparr> = Inr ?before"
    by (simp add: sample_problem_simps edge_capacity_def branch sample_issuer Let_def sample_caps_def)
  have caps: "fold fold_single (cp_members ?before) ?before = ?caps"
    using st by (auto simp: sample_caps_def fold_single_def)
  have sd: "fold (spend_preassigned rfc_uuid sample_problem st (cp_edge ?caps)) (br_preassign st)
      (Some \<lparr>sd_lot = map (minor \<circ> lot_reserve_price) (pb_lots sample_problem),
         sd_bid = map (minor \<circ> bid_budget) (pb_bids sample_problem), sd_issuer = cp_issuer ?caps,
         sd_cash = replicate (length (pb_edges sample_problem)) 0, sd_objective = 0\<rparr>) = Some ?sd"
    by (simp add: branch sample_problem_simps sample_amounts sample_caps_def)
  have net: "build_network rfc_uuid sample_problem st (cp_edge ?caps) ?sd = ([Some 2], 3, sample_network c 0)"
    using st by (auto simp: build_network_def Let_def add_pair_def branch sample_problem_simps sample_issuer
      sample_caps_def sample_network_def add_positive_def new_flow_network_def add_edge_def wrap64_def)
  obtain out where out: "solve_flow (sample_network c 0) 0 3 (sp_max_augmentations sample_params) =
      Some (Inr (sample_network c c, out))" "sv_limit_reached out = False"
    using st sample_flow by (auto simp: sample_params_def)
  have "fold_result (read_flow (sample_network c c) sample_problem) (enumerate 0 [Some 2])
      (sd_cash ?sd, sd_objective ?sd) = Inr ([c], c * 211472)"
    using st by (auto simp: read_flow_def sample_problem_simps flow_on_def index_at_def sample_network_def Let_def
      wrap64_def)
  from solve_relaxed_stages [OF caps0 caps sd net out(1) this] show ?thesis
    by (simp add: sample_raw_def out(2))
qed

lemma sample_repairs:
  "repair_exposure rat_decimal sample_problem new_branch (sample_raw 50000) = Inr (True, sample_capped)"
  "repair_exposure rat_decimal sample_problem sample_capped sample_final = Inr (False, sample_capped)"
  "repair_minimum_lots sample_problem sample_capped sample_final = (False, sample_capped, sample_final)"
  by code_simp+

lemma sample_cleared:
  "branch_and_bound rat_decimal rfc_uuid sample_params sample_problem =
    Some (Inr (sample_final\<lparr>rw_branch_nodes := 1\<rparr>))"
proof -
  let ?start = "\<lparr>rn_solves = 2, rn_exhausted = False\<rparr>"
  have raw: "(sample_raw c)\<lparr>rw_repair_rounds := 0, rw_dropped := []\<rparr> = sample_raw c"
    "(sample_raw 25000)\<lparr>rw_repair_rounds := Suc 0, rw_dropped := []\<rparr> = sample_final"
    "rw_dropped (sample_raw c) = []" "rw_dropped sample_final = []" "rw_limit_reached sample_final = False"
    "rw_repair_rounds sample_final = 1" for c
    by (simp_all add: sample_raw_def sample_final_def)
  have "repair_turn rat_decimal rfc_uuid sample_params sample_problem new_branch 0 [] =
      Some (Inr (Some (sample_raw 50000), sample_capped, True))"
    "repair_turn rat_decimal rfc_uuid sample_params sample_problem sample_capped (Suc 0) [] =
      Some (Inr (Some sample_final, sample_capped, False))"
    using sample_relaxed [of new_branch 50000] sample_relaxed [of sample_capped 25000]
    by (simp_all add: repair_turn_def Let_def raw sample_repairs)
  then have "solve_state rat_decimal rfc_uuid sample_params sample_problem new_branch (ex_run new_exploration) =
      Some (Inr (Some sample_final, sample_capped, ?start))"
    by (simp add: solve_state_def repair_rounds.simps Let_def new_exploration_def sample_params_def raw)
  then have "explore rat_decimal rfc_uuid sample_params sample_problem new_branch new_exploration =
      Some (Inr (extended new_exploration sample_final ?start))"
    by (subst explore.simps) (simp add: sample_params_def new_exploration_def extended_def raw Let_def)
  then show ?thesis
    by (simp add: branch_and_bound_def new_exploration_def extended_def better_of_def raw sample_final_def
      sample_raw_def)
qed

theorem search_repaired_witness:
  "repaired_cash rat_decimal sample_problem [25000]"
  using search_repaired [OF sample_cleared] by (simp add: sample_raw_def sample_final_def)

theorem search_budget_witness:
  "(1::nat) \<le> sp_max_branch_nodes sample_params"
  using search_budget [OF sample_cleared] by simp

theorem canonicalize_order_independent_witness:
  "canonicalize rat_decimal rfc_uuid sample_params
      (Some (sample_auction\<lparr>auc_lots := [sample_lot\<lparr>lot_id := 9\<rparr>, sample_lot]\<rparr>)) [None, Some sample_bid] =
   canonicalize rat_decimal rfc_uuid sample_params
      (Some (sample_auction\<lparr>auc_lots := [sample_lot, sample_lot\<lparr>lot_id := 9\<rparr>]\<rparr>)) [Some sample_bid, None]"
  using canonicalize_order_independent [OF rfc.uuid_lib_axioms, where P = sample_params and D = rat_decimal
      and a = "sample_auction\<lparr>auc_lots := [sample_lot, sample_lot\<lparr>lot_id := 9\<rparr>]\<rparr>"
      and lots' = "[sample_lot\<lparr>lot_id := 9\<rparr>, sample_lot]" and bids = "[Some sample_bid, None]"
      and bids' = "[None, Some sample_bid]"]
  by (simp add: sample_lot_def present_def List.map_filter_simps)

definition sample_solver :: "rat solver" where
  "sample_solver = \<lparr>sv_version = ''solver-v1'', sv_params = sample_params\<rparr>"

definition sample_clearing_result :: solution where
  "sample_clearing_result = sample_solution\<lparr>sol_allocations := map (\<lambda>al. al\<lparr>al_notional := \<lparr>minor = 26041, currency = ''USD''\<rparr>,
       al_price := \<lparr>minor = 24999, currency = ''USD''\<rparr>\<rparr>) (sol_allocations sample_solution),
     sol_objective := 24999 * 211472, sol_total_notional := \<lparr>minor = 26041, currency = ''USD''\<rparr>,
     sol_total_cash := \<lparr>minor = 24999, currency = ''USD''\<rparr>, sol_repair_rounds := 1\<rparr>"

lemma sample_floors:
  "\<lfloor>at_scale (25000 / (24 / 25))\<rfloor> = 26041" "at_scale (96000 / 100000) = 24 / 25"
  by (simp_all add: at_scale_def round_half_away_def floor_eq_iff)

lemma sample_notional:
  "notional_for rat_decimal ''USD'' sample_edge sample_bid 25000 \<lparr>minor = 100000, currency = ''USD''\<rparr> =
    Inr \<lparr>minor = 26041, currency = ''USD''\<rparr>"
  "lot_cost_of rat_decimal sample_lot \<lparr>minor = 26041, currency = ''USD''\<rparr> =
    Inr \<lparr>minor = 24999, currency = ''USD''\<rparr>"
proof -
  have valid: "currency_valid ''USD''" "amount_valid \<lparr>minor = n, currency = ''USD''\<rparr>" for n
    by (simp_all add: amount_valid_def currency_valid_cases)
  have "amount_div_floor rat_decimal \<lparr>minor = 25000, currency = ''USD''\<rparr> (24 / 25) =
      minor_result 26041 ''USD''"
    using ratd.amount_div_floor_eq [OF valid(2), of "24 / 25" 25000] sample_floors(1) by simp
  then have "amount_div_floor rat_decimal \<lparr>minor = 25000, currency = ''USD''\<rparr> (24 / 25) =
      Inr \<lparr>minor = 26041, currency = ''USD''\<rparr>"
    by (simp add: minor_result_def in64_def min64_def max64_def)
  then show "notional_for rat_decimal ''USD'' sample_edge sample_bid 25000 \<lparr>minor = 100000, currency = ''USD''\<rparr> =
      Inr \<lparr>minor = 26041, currency = ''USD''\<rparr>"
    by (simp add: notional_for_def amount_new_def valid sample_edge_def sample_bid_def amount_positive_def
        amount_cmp_def assert_same_currency_def)
  have "lot_unit_price rat_decimal sample_lot = Inr (at_scale (96000 / 100000))"
    using ratd.val_div_round [of "100000" "96000" division_scale]
    by (simp add: lot_unit_price_def rate_against_def sample_lot_def assert_same_currency_def valid ratd.val_of_int
        at_scale_def division_scale_def)
  then have "lot_unit_price rat_decimal sample_lot = Inr (24 / 25)" by (simp only: sample_floors(2))
  moreover have "round_half_even (of_int 26041 * (24 / 25)) = 24999"
    using floor_divide_of_int_eq [of 624984 25, where ?'a = rat] by (simp add: round_half_even_def Let_def)
  ultimately show "lot_cost_of rat_decimal sample_lot \<lparr>minor = 26041, currency = ''USD''\<rparr> =
      Inr \<lparr>minor = 24999, currency = ''USD''\<rparr>"
    by (simp add: lot_cost_of_def ratd.amount_mul_eq [OF valid(2)] minor_result_def in64_def
        min64_def max64_def)
qed

lemma sample_filled:
  "fill_edge rat_decimal sample_problem [25000] (0, sample_edge)
      \<lparr>fl_allocations = [], fl_remaining = [\<lparr>minor = 100000, currency = ''USD''\<rparr>], fl_allocated = {},
       fl_notional = \<lparr>minor = 0, currency = ''USD''\<rparr>, fl_cash = \<lparr>minor = 0, currency = ''USD''\<rparr>, fl_objective = 0\<rparr> =
    Inr \<lparr>fl_allocations = sol_allocations sample_clearing_result,
       fl_remaining = [\<lparr>minor = 73959, currency = ''USD''\<rparr>], fl_allocated = {0},
       fl_notional = \<lparr>minor = 26041, currency = ''USD''\<rparr>, fl_cash = \<lparr>minor = 24999, currency = ''USD''\<rparr>,
       fl_objective = 24999 * 211472\<rparr>"
proof -
  have sums: "amount_sub \<lparr>minor = 100000, currency = ''USD''\<rparr> \<lparr>minor = 26041, currency = ''USD''\<rparr> =
      Inr \<lparr>minor = 73959, currency = ''USD''\<rparr>"
    "amount_add \<lparr>minor = 0, currency = ''USD''\<rparr> \<lparr>minor = 26041, currency = ''USD''\<rparr> =
      Inr \<lparr>minor = 26041, currency = ''USD''\<rparr>"
    "amount_add \<lparr>minor = 0, currency = ''USD''\<rparr> \<lparr>minor = 24999, currency = ''USD''\<rparr> =
      Inr \<lparr>minor = 24999, currency = ''USD''\<rparr>" by code_simp+
  show ?thesis
    by (simp add: fill_edge_def sample_problem_simps sample_notional sums Let_def amount_positive_def wrap64_def)
      (simp add: sample_clearing_result_def sample_solution_def sample_lot_def sample_bid_def)
qed

lemma sample_materialized:
  "materialize rat_decimal rfc_uuid ''solver-v1'' sample_problem (sample_final\<lparr>rw_branch_nodes := 1\<rparr>) =
    Inr sample_clearing_result"
proof -
  have zero: "amount_zero ''USD'' = Inr \<lparr>minor = 0, currency = ''USD''\<rparr>" by code_simp
  have offered: "lot_supply sample_lot = \<lparr>minor = 100000, currency = ''USD''\<rparr>" by (simp add: sample_lot_def)
  show ?thesis
    by (simp add: materialize_def sample_problem_simps zero offered sample_final_def sample_raw_def sample_filled)
      (simp add: rank_allocations_def sample_clearing_result_def sample_solution_def)
qed

lemma sample_result_verifies:
  "verify rat_decimal rfc_uuid (Some sample_auction) [Some sample_bid, None] (Some sample_clearing_result)
    sample_params = Inr ()"
  by code_simp


end
