(* ===== verification/Organization.thy ===== *)
theory Organization
  imports External Lifecycle
begin

text \<open>
  \<^verbatim>\<open>internal/organization\<close> (\<^verbatim>\<open>domain.go\<close>): the participants of the market,
  the eligibility decision that lets them trade, and the account their tokens are delivered to. The
  type of an organization is a text in the code that \<^verbatim>\<open>New\<close> validates; a stored
  organization carries one of three constructors. An empty reason, wallet or account is the empty
  string, as in the code. A name is bounded in bytes: strings are byte strings.
\<close>

section \<open>Types and eligibility\<close>

definition max_name_len :: nat where "max_name_len = 200"

datatype org_type = OrgIssuer | OrgInvestor | OrgOperator

definition org_type_names :: "(org_type \<times> string) list" where
  "org_type_names = [(OrgIssuer, ''ISSUER''), (OrgInvestor, ''INVESTOR''), (OrgOperator, ''OPERATOR'')]"

definition org_type_string :: "org_type \<Rightarrow> string" where
  "org_type_string t = the (map_of org_type_names t)"

definition org_parse_type :: "string \<Rightarrow> org_type result" where
  "org_parse_type s =
    (case find (\<lambda>(t, n). n = s) org_type_names of None \<Rightarrow> Inl ErrValidation | Some (t, n) \<Rightarrow> Inr t)"

lemma org_parse_type_string: "org_parse_type (org_type_string t) = Inr t"
  by (cases t) (simp_all add: org_parse_type_def org_type_string_def org_type_names_def)

datatype eligibility = EligPending | EligEligible | EligRejected

definition eligibility_names :: "(eligibility \<times> string) list" where
  "eligibility_names =
    [(EligPending, ''PENDING''), (EligEligible, ''ELIGIBLE''), (EligRejected, ''REJECTED'')]"

definition eligibility_string :: "eligibility \<Rightarrow> string" where
  "eligibility_string e = the (map_of eligibility_names e)"

definition parse_eligibility :: "string \<Rightarrow> eligibility result" where
  "parse_eligibility s =
    (case find (\<lambda>(e, n). n = s) eligibility_names of None \<Rightarrow> Inl ErrValidation | Some (e, n) \<Rightarrow> Inr e)"

lemma parse_eligibility_string: "parse_eligibility (eligibility_string e) = Inr e"
  by (cases e) (simp_all add: parse_eligibility_def eligibility_string_def eligibility_names_def)

section \<open>Organizations\<close>

record organization =
  org_id :: uuid
  org_type :: org_type
  org_name :: string
  org_wallet :: string
  org_eligibility :: eligibility
  org_reason :: string
  org_chain_account :: string
  org_version :: int
  org_created_at :: instant
  org_updated_at :: instant

record organization_params =
  nop_id :: uuid
  nop_type :: string
  nop_name :: string
  nop_wallet :: string

definition check_name :: "string \<Rightarrow> app_error list" where
  "check_name name =
    (if name = [] then [Invalid ''name'']
     else if length name > max_name_len then [Invalid ''name''] else [])"

definition new_organization :: "organization_params \<Rightarrow> instant \<Rightarrow> organization result" where
  "new_organization p now =
    (let name = trim_space (nop_name p);
         wallet = trim_space (nop_wallet p)
     in checked
          (violation (nop_id p = uuid_nil) (Invalid ''id'')
           @ violation (isl (org_parse_type (nop_type p))) (Invalid ''type'')
           @ check_name name
           @ violation (\<not> wallet_hex wallet) (Invalid ''wallet''))
          (and_then (org_parse_type (nop_type p)) (\<lambda>t.
            Inr \<lparr>org_id = nop_id p, org_type = t, org_name = name, org_wallet = to_lower wallet,
              org_eligibility = EligPending, org_reason = [], org_chain_account = [],
              org_version = 1, org_created_at = now, org_updated_at = now\<rparr>)))"

definition org_touch :: "instant \<Rightarrow> organization \<Rightarrow> organization" where
  "org_touch now g = g\<lparr>org_version := org_version g + 1, org_updated_at := now\<rparr>"

definition org_approve :: "instant \<Rightarrow> organization \<Rightarrow> organization result" where
  "org_approve now g =
    (if org_eligibility g = EligEligible then Inl ErrConflict
     else Inr (org_touch now (g\<lparr>org_eligibility := EligEligible, org_reason := []\<rparr>)))"

definition org_reject :: "string \<Rightarrow> instant \<Rightarrow> organization \<Rightarrow> organization result" where
  "org_reject reason now g =
    (let cleaned = trim_space reason
     in if cleaned = [] then Inl (Invalid ''reason'')
        else if length cleaned > max_reason_len then Inl (Invalid ''reason'')
        else if org_eligibility g = EligRejected then Inl ErrConflict
        else Inr (org_touch now (g\<lparr>org_eligibility := EligRejected, org_reason := cleaned\<rparr>)))"

definition org_rename :: "string \<Rightarrow> instant \<Rightarrow> organization \<Rightarrow> organization result" where
  "org_rename name now g =
    (let cleaned = trim_space name
     in if cleaned = [] then Inl (Invalid ''name'')
        else if length cleaned > max_name_len then Inl (Invalid ''name'')
        else Inr (org_touch now (g\<lparr>org_name := cleaned\<rparr>)))"

definition attach_chain_account :: "string \<Rightarrow> instant \<Rightarrow> organization \<Rightarrow> organization result" where
  "attach_chain_account account_id now g =
    (let account = trim_space account_id
     in if account = [] then Inl (Invalid ''chain_account_id'')
        else if org_chain_account g \<noteq> [] \<and> org_chain_account g \<noteq> account then Inl ErrConflict
        else Inr (org_touch now (g\<lparr>org_chain_account := account\<rparr>)))"

definition is_eligible :: "organization \<Rightarrow> bool" where
  "is_eligible g \<longleftrightarrow> org_eligibility g = EligEligible"

definition can_issue :: "organization \<Rightarrow> bool" where
  "can_issue g \<longleftrightarrow> org_type g = OrgIssuer \<and> is_eligible g"

definition can_invest :: "organization \<Rightarrow> bool" where
  "can_invest g \<longleftrightarrow> org_type g = OrgInvestor \<and> is_eligible g"

definition receives_at :: "organization \<Rightarrow> string" where
  "receives_at g = (if org_chain_account g \<noteq> [] then org_chain_account g else org_wallet g)"

section \<open>Commands\<close>

datatype org_command = OrgApprove instant | OrgReject string instant | OrgRename string instant
  | OrgAttach string instant

fun org_exec :: "org_command \<Rightarrow> organization \<Rightarrow> organization result" where
  "org_exec (OrgApprove now) = org_approve now"
| "org_exec (OrgReject r now) = org_reject r now"
| "org_exec (OrgRename n now) = org_rename n now"
| "org_exec (OrgAttach a now) = attach_chain_account a now"

lemmas org_command_defs = org_approve_def org_reject_def org_rename_def attach_chain_account_def
  org_touch_def Let_def

text \<open>A decision moves to the other verdict, from either side; nothing returns to PENDING.\<close>

definition org_edge :: "eligibility \<Rightarrow> eligibility \<Rightarrow> bool" where
  "org_edge e next \<longleftrightarrow> next = e \<or> next \<noteq> EligPending"

lemma org_execE:
  assumes "org_exec c g = Inr p"
  obtains (approve) now where "p = org_touch now (g\<lparr>org_eligibility := EligEligible, org_reason := []\<rparr>)"
  | (reject) now r where "r \<noteq> []" "length r \<le> max_reason_len"
      "p = org_touch now (g\<lparr>org_eligibility := EligRejected, org_reason := r\<rparr>)"
  | (rename) now n where "n \<noteq> []" "trim_space n = n" "length n \<le> max_name_len"
      "p = org_touch now (g\<lparr>org_name := n\<rparr>)"
  | (attach) now a where "a \<noteq> []" "org_chain_account g \<noteq> [] \<Longrightarrow> a = org_chain_account g"
      "p = org_touch now (g\<lparr>org_chain_account := a\<rparr>)"
proof (cases c)
  case (OrgApprove now)
  then show thesis using assms approve by (auto simp: org_approve_def split: if_splits)
next
  case (OrgReject r now)
  then show thesis using assms reject [of "trim_space r"]
    by (auto simp: org_reject_def Let_def split: if_splits)
next
  case (OrgRename n now)
  then show thesis using assms rename [of "trim_space n"]
    by (auto simp: org_rename_def Let_def split: if_splits)
next
  case (OrgAttach a now)
  then show thesis using assms attach [of "trim_space a"]
    by (auto simp: attach_chain_account_def Let_def split: if_splits)
qed

lemma org_exec_Inr:
  assumes "org_exec c g = Inr p"
  shows "org_edge (org_eligibility g) (org_eligibility p)" and "org_version p = org_version g + 1"
  using assms by (cases rule: org_execE; simp add: org_edge_def org_touch_def)+

interpretation org: lifecycle org_edge org_eligibility org_version org_exec
  by unfold_locales (auto dest: org_exec_Inr)

section \<open>What every reachable organization satisfies\<close>

definition org_sound :: "organization \<Rightarrow> bool" where
  "org_sound g \<longleftrightarrow> org_id g \<noteq> uuid_nil \<and>
     org_name g \<noteq> [] \<and> trim_space (org_name g) = org_name g \<and> length (org_name g) \<le> max_name_len \<and>
     wallet_hex (org_wallet g) \<and> to_lower (org_wallet g) = org_wallet g \<and>
     (org_reason g \<noteq> [] \<longleftrightarrow> org_eligibility g = EligRejected) \<and>
     length (org_reason g) \<le> max_reason_len \<and> receives_at g \<noteq> []"

definition org_identity where
  "org_identity g = (org_id g, org_type g, org_wallet g, org_created_at g)"

lemma wallet_hex_lower: "wallet_hex w \<Longrightarrow> wallet_hex (to_lower w)"
proof -
  assume w: "wallet_hex w"
  have "hex_char (lower_char c)" if "hex_char c" for c
    using that lower_char_lower_hex [of c]
    by (auto simp: hex_char_def lower_hex_char_def lower_char_def less_eq_char_def of_char_of)
  moreover have "lower_char CHR ''0'' = CHR ''0''" "lower_char CHR ''x'' = CHR ''x''"
    by (simp_all add: lower_char_def)
  ultimately show ?thesis
    using w by (auto simp: wallet_hex_def to_lower_def list_all_iff take_map drop_map)
qed

lemma wallet_hex_nonempty: "wallet_hex w \<Longrightarrow> w \<noteq> []"
  by (auto simp: wallet_hex_def)

lemma org_exec_identity: "org_exec c g = Inr p \<Longrightarrow> org_identity p = org_identity g"
  by (erule org_execE) (simp_all add: org_touch_def org_identity_def)

lemma org_sound_step:
  assumes "org_exec c g = Inr p" and "org_sound g"
  shows "org_sound p" and "org_identity p = org_identity g"
    and "org_chain_account g \<noteq> [] \<Longrightarrow> org_chain_account p = org_chain_account g"
proof -
  have w: "org_wallet g \<noteq> []" using assms(2) wallet_hex_nonempty by (auto simp: org_sound_def)
  show "org_sound p"
    using assms(1) by (cases rule: org_execE)
      (use assms(2) w in \<open>simp_all add: org_touch_def org_sound_def receives_at_def\<close>)
  show "org_identity p = org_identity g" by (rule org_exec_identity [OF assms(1)])
  show "org_chain_account p = org_chain_account g" if "org_chain_account g \<noteq> []"
    using assms(1) by (cases rule: org_execE) (use that in \<open>simp_all add: org_touch_def\<close>)
qed

lemma new_organization_sound:
  assumes "new_organization p now = Inr g"
  shows "org_sound g" and "org_eligibility g = EligPending" and "org_version g = 1"
proof -
  have "wallet_hex (trim_space (nop_wallet p))"
    using assms by (auto simp: new_organization_def Let_def result_simps)
  then show "org_sound g" "org_eligibility g = EligPending" "org_version g = 1"
    using assms wallet_hex_lower [of "trim_space (nop_wallet p)"]
    by (auto simp: new_organization_def Let_def result_simps org_sound_def check_name_def
        receives_at_def wallet_hex_def split: if_splits)
qed

section \<open>Properties\<close>

text \<open>Every organization reachable from registration by the commands of the program has a trimmed,
  bounded name, a lower-case 20-byte wallet address, a reason exactly when it is rejected and somewhere
  to receive tokens; its id, its type and its wallet are those it registered with, and an account
  once attached is the account it keeps. It can issue or invest only after an approval, and never
  both.\<close>

theorem organization_reachable_sound:
  assumes "new_organization p now = Inr g" and "reaches org_exec g x" and "reaches org_exec x y"
  shows "org_sound y \<and> org_identity y = org_identity g \<and>
    (org_chain_account x = [] \<or> receives_at y = receives_at x) \<and>
    \<not> (can_issue y \<and> can_invest y) \<and> \<not> can_issue g \<and> \<not> can_invest g"
proof -
  let ?P = "\<lambda>z. org_sound z \<and> org_identity z = org_identity g"
  have x: "?P x"
    by (rule reaches_invariant [OF assms(2)])
      (use new_organization_sound [OF assms(1)] org_sound_step in \<open>auto\<close>)
  let ?Q = "\<lambda>z. ?P z \<and> (org_chain_account x = [] \<or> org_chain_account z = org_chain_account x)"
  have "?Q y"
    by (rule reaches_invariant [OF assms(3), where P = ?Q])
      (use x org_sound_step in \<open>auto, (metis)+\<close>)
  then show ?thesis
    using new_organization_sound(2) [OF assms(1)]
    by (auto simp: can_issue_def can_invest_def is_eligible_def receives_at_def)
qed

definition sample_organization_params :: organization_params where
  "sample_organization_params = \<lparr>nop_id = 1, nop_type = ''ISSUER'', nop_name = ''Acme'',
     nop_wallet = ''0x'' @ replicate 40 CHR ''A''\<rparr>"

theorem organization_reachable_sound_witness:
  "\<exists>g x y. new_organization sample_organization_params 1 = Inr g \<and>
     run_cmds org_exec [OrgApprove 2, OrgAttach ''0.0.7'' 3] g = Inr x \<and>
     run_cmds org_exec [OrgReject ''late'' 4] x = Inr y \<and> receives_at y = ''0.0.7'' \<and> org_sound y"
proof -
  have t: "trim_space ''Acme'' = ''Acme''" "trim_space ''late'' = ''late''"
    "trim_space ''0.0.7'' = ''0.0.7''"
    "trim_space (''0x'' @ replicate 40 CHR ''A'') = ''0x'' @ replicate 40 CHR ''A''"
    by (rule trim_space_solid, simp add: white_space_def)+
  obtain g where g: "new_organization sample_organization_params 1 = Inr g"
    "org_eligibility g = EligPending" "org_chain_account g = []"
    using t by (simp add: new_organization_def sample_organization_params_def check_name_def
        max_name_len_def org_parse_type_def org_type_names_def wallet_hex_def hex_char_def
        checked_def violation_def list_all_iff)
  obtain x where x: "run_cmds org_exec [OrgApprove 2, OrgAttach ''0.0.7'' 3] g = Inr x"
    "org_eligibility x = EligEligible" "org_chain_account x = ''0.0.7''"
    using g(2,3) t by (simp add: org_command_defs)
  obtain y where y: "run_cmds org_exec [OrgReject ''late'' 4] x = Inr y"
    using x(2) t by (simp add: org_command_defs max_reason_len_def)
  have "org_sound y \<and> receives_at y = receives_at x"
    using organization_reachable_sound [OF g(1) run_cmds_reaches [OF x(1)] run_cmds_reaches [OF y]]
      x(3) by simp
  then show ?thesis using g(1) x y by (auto simp: receives_at_def)
qed

end
