(* ===== verification/Tokenization.thy ===== *)
theory Tokenization
  imports Money Lifecycle
begin

text \<open>
  \<^verbatim>\<open>internal/tokenization\<close> (\<^verbatim>\<open>domain.go\<close>, \<^verbatim>\<open>ports.go\<close>,
  \<^verbatim>\<open>hedera.go\<close>): the asset that stands for a receivable, the states it moves through, and
  the two issuers that mint it. The in-process issuer derives its identifiers from a hash, which is a
  parameter; the chain issuer calls a network client, which is a parameter with a state of its own.
  A chain status is a text in the parameters of \<^verbatim>\<open>New\<close>, and a constructor once stored.
\<close>

section \<open>Chain states\<close>

definition max_identifier_len :: nat where "max_identifier_len = 128"
definition max_url_len :: nat where "max_url_len = 512"

datatype chain_status = ChainPending | ChainIssued | ChainFrozen | ChainRedeemed

fun chain_transitions :: "chain_status \<Rightarrow> chain_status list" where
  "chain_transitions ChainPending = [ChainIssued]"
| "chain_transitions ChainIssued = [ChainFrozen, ChainRedeemed]"
| "chain_transitions ChainFrozen = [ChainIssued, ChainRedeemed]"
| "chain_transitions ChainRedeemed = []"

definition chain_status_names :: "(chain_status \<times> string) list" where
  "chain_status_names = [(ChainPending, ''PENDING''), (ChainIssued, ''ISSUED''),
     (ChainFrozen, ''FROZEN''), (ChainRedeemed, ''REDEEMED'')]"

definition chain_status_string :: "chain_status \<Rightarrow> string" where
  "chain_status_string s = the (map_of chain_status_names s)"

definition parse_chain_status :: "string \<Rightarrow> chain_status result" where
  "parse_chain_status s =
    (case find (\<lambda>(st, n). n = s) chain_status_names of None \<Rightarrow> Inl ErrValidation | Some (st, n) \<Rightarrow> Inr st)"

lemma parse_chain_status_string: "parse_chain_status (chain_status_string s) = Inr s"
  by (cases s) (simp_all add: parse_chain_status_def chain_status_string_def chain_status_names_def)

definition chain_can_transition :: "chain_status \<Rightarrow> chain_status \<Rightarrow> bool" where
  "chain_can_transition s next \<longleftrightarrow> next \<in> set (chain_transitions s)"

section \<open>Assets\<close>

record asset =
  tk_id :: uuid
  tk_invoice_id :: uuid
  tk_issuer_id :: uuid
  tk_network :: string
  tk_token_id :: string
  tk_contract_id :: string
  tk_supply :: amount
  tk_chain_status :: chain_status
  tk_transaction_id :: string
  tk_explorer_url :: string
  tk_created_at :: instant
  tk_updated_at :: instant

record asset_params =
  nas_id :: uuid
  nas_invoice_id :: uuid
  nas_issuer_id :: uuid
  nas_network :: string
  nas_token_id :: string
  nas_contract_id :: string
  nas_supply :: amount
  nas_chain_status :: string
  nas_transaction_id :: string
  nas_explorer_url :: string

definition validate_identifier :: "string \<Rightarrow> string \<Rightarrow> app_error list" where
  "validate_identifier field v =
    (let trimmed = trim_space v
     in if trimmed = [] then [Invalid field]
        else if length trimmed > max_identifier_len then [Invalid field] else [])"

definition new_asset :: "asset_params \<Rightarrow> instant \<Rightarrow> asset result" where
  "new_asset p now =
    (let status = (if nas_chain_status p = [] then Inr ChainPending
                   else parse_chain_status (nas_chain_status p))
     in checked
          (violation (nas_id p = uuid_nil) (Invalid ''id'')
           @ violation (nas_invoice_id p = uuid_nil) (Invalid ''invoice_id'')
           @ violation (nas_issuer_id p = uuid_nil) (Invalid ''issuer_id'')
           @ validate_identifier ''network'' (nas_network p)
           @ validate_identifier ''token_id'' (nas_token_id p)
           @ violation (length (nas_contract_id p) > max_identifier_len) (Invalid ''contract_id'')
           @ violation (length (nas_transaction_id p) > max_identifier_len) (Invalid ''transaction_id'')
           @ violation (length (nas_explorer_url p) > max_url_len) (Invalid ''explorer_url'')
           @ (if \<not> amount_valid (nas_supply p) then [Invalid ''supply'']
              else if \<not> amount_positive (nas_supply p) then [Invalid ''supply''] else [])
           @ violation (isl status) (Invalid ''chain_status''))
          (and_then status (\<lambda>st.
            Inr \<lparr>tk_id = nas_id p, tk_invoice_id = nas_invoice_id p, tk_issuer_id = nas_issuer_id p,
              tk_network = trim_space (nas_network p), tk_token_id = trim_space (nas_token_id p),
              tk_contract_id = trim_space (nas_contract_id p), tk_supply = nas_supply p,
              tk_chain_status = st, tk_transaction_id = trim_space (nas_transaction_id p),
              tk_explorer_url = trim_space (nas_explorer_url p),
              tk_created_at = now, tk_updated_at = now\<rparr>)))"

definition asset_transition :: "chain_status \<Rightarrow> instant \<Rightarrow> asset \<Rightarrow> asset result" where
  "asset_transition next now a =
    (if \<not> chain_can_transition (tk_chain_status a) next then Inl ErrConflict
     else Inr (a\<lparr>tk_chain_status := next, tk_updated_at := now\<rparr>))"

definition mark_issued :: "string \<Rightarrow> string \<Rightarrow> instant \<Rightarrow> asset \<Rightarrow> asset result" where
  "mark_issued transaction_id explorer_url now a =
    and_then (asset_transition ChainIssued now a) (\<lambda>b.
      let c = (if transaction_id \<noteq> [] then b\<lparr>tk_transaction_id := trim_space transaction_id\<rparr> else b)
      in Inr (if explorer_url \<noteq> [] then c\<lparr>tk_explorer_url := trim_space explorer_url\<rparr> else c))"

definition asset_freeze :: "instant \<Rightarrow> asset \<Rightarrow> asset result" where
  "asset_freeze now a = asset_transition ChainFrozen now a"

definition asset_unfreeze :: "instant \<Rightarrow> asset \<Rightarrow> asset result" where
  "asset_unfreeze now a = asset_transition ChainIssued now a"

definition asset_redeem :: "instant \<Rightarrow> asset \<Rightarrow> asset result" where
  "asset_redeem now a = asset_transition ChainRedeemed now a"

definition is_transferable :: "asset \<Rightarrow> bool" where
  "is_transferable a \<longleftrightarrow> tk_chain_status a = ChainIssued"

datatype asset_command = AssetIssued string string instant | AssetFreeze instant
  | AssetUnfreeze instant | AssetRedeem instant

fun asset_exec :: "asset_command \<Rightarrow> asset \<Rightarrow> asset result" where
  "asset_exec (AssetIssued tx url now) = mark_issued tx url now"
| "asset_exec (AssetFreeze now) = asset_freeze now"
| "asset_exec (AssetUnfreeze now) = asset_unfreeze now"
| "asset_exec (AssetRedeem now) = asset_redeem now"

lemma asset_transition_Inr [result_simps]:
  "asset_transition next now a = Inr b \<longleftrightarrow> chain_can_transition (tk_chain_status a) next \<and>
     b = a\<lparr>tk_chain_status := next, tk_updated_at := now\<rparr>"
  by (auto simp: asset_transition_def)

definition asset_terms where
  "asset_terms a = (tk_id a, tk_invoice_id a, tk_issuer_id a, tk_network a, tk_token_id a,
     tk_contract_id a, tk_supply a, tk_created_at a)"

lemma asset_exec_Inr:
  assumes "asset_exec c a = Inr b"
  shows "chain_can_transition (tk_chain_status a) (tk_chain_status b)" and "asset_terms b = asset_terms a"
  using assms
  by (cases c; auto simp: mark_issued_def asset_freeze_def asset_unfreeze_def asset_redeem_def
      result_simps Let_def asset_terms_def split: if_splits)+

definition asset_sound :: "asset \<Rightarrow> bool" where
  "asset_sound a \<longleftrightarrow> tk_id a \<noteq> uuid_nil \<and> tk_invoice_id a \<noteq> uuid_nil \<and> tk_issuer_id a \<noteq> uuid_nil \<and>
     tk_network a \<noteq> [] \<and> length (tk_network a) \<le> max_identifier_len \<and>
     tk_token_id a \<noteq> [] \<and> length (tk_token_id a) \<le> max_identifier_len \<and>
     amount_valid (tk_supply a) \<and> amount_positive (tk_supply a)"

lemma validate_identifier_Nil:
  "validate_identifier field v = [] \<longleftrightarrow> trim_space v \<noteq> [] \<and> length (trim_space v) \<le> max_identifier_len"
  by (auto simp: validate_identifier_def Let_def)

lemma new_asset_Inr:
  assumes "new_asset p now = Inr a"
  shows "asset_sound a" and "tk_invoice_id a = nas_invoice_id p" and "tk_id a = nas_id p"
    and "tk_supply a = nas_supply p"
    and "nas_chain_status p \<noteq> [] \<Longrightarrow> chain_status_string (tk_chain_status a) = nas_chain_status p"
proof -
  show "asset_sound a" "tk_invoice_id a = nas_invoice_id p" "tk_id a = nas_id p"
    "tk_supply a = nas_supply p"
    using assms by (auto simp: new_asset_def Let_def result_simps asset_sound_def
        validate_identifier_Nil split: if_splits)
  show "chain_status_string (tk_chain_status a) = nas_chain_status p" if "nas_chain_status p \<noteq> []"
    using assms that
    by (auto simp: new_asset_def Let_def result_simps parse_chain_status_def chain_status_names_def
        chain_status_string_def split: if_splits)
qed

section \<open>Issuers\<close>

record metadata =
  md_commitment :: string
  md_currency :: string
  md_face :: string
  md_maturity :: string
  md_grade :: string
  md_terms_hash :: string

record issue_request =
  ir_invoice_id :: uuid
  ir_issuer_id :: uuid
  ir_issuer_wallet :: string
  ir_supply :: amount
  ir_reference :: string
  ir_metadata :: metadata

record issue_result =
  is_network :: string
  is_token_id :: string
  is_contract_id :: string
  is_transaction_id :: string
  is_explorer_url :: string
  is_confirmed :: bool

definition validate_issue :: "issue_result \<Rightarrow> unit result" where
  "validate_issue r =
    (if trim_space (is_network r) = [] then Inl (Invalid ''network'')
     else if trim_space (is_token_id r) = [] then Inl (Invalid ''token_id'') else Inr ())"

type_synonym 'n issuer = "issue_request \<Rightarrow> 'n \<Rightarrow> issue_result result \<times> 'n"

definition check_request :: "issue_request \<Rightarrow> unit result" where
  "check_request r =
    (if ir_invoice_id r = uuid_nil then Inl (Invalid ''invoice_id'')
     else if \<not> amount_positive (ir_supply r) then Inl (Invalid ''supply'') else Inr ())"

text \<open>The in-process issuer keeps no state: the identifiers are a function of the request.\<close>

definition local_result :: "(string \<Rightarrow> string) \<Rightarrow> uuid_ops \<Rightarrow> issue_request \<Rightarrow> issue_result" where
  "local_result H U r =
    (let seed = H (uuid_string U (ir_invoice_id r) @ ''|'' @ ir_reference r)
     in \<lparr>is_network = ''local'', is_token_id = ''local-token-'' @ hex_encode (take 8 seed),
          is_contract_id = ''local-compliance-'' @ hex_encode (take 4 (drop 8 seed)),
          is_transaction_id = [], is_explorer_url = [], is_confirmed = True\<rparr>)"

definition local_issue :: "(string \<Rightarrow> string) \<Rightarrow> uuid_ops \<Rightarrow> 'n issuer" where
  "local_issue H U r n = (and_then (check_request r) (\<lambda>_. Inr (local_result H U r)), n)"

text \<open>The network client of \<^verbatim>\<open>platform/hedera\<close>: what creating a token takes and returns.\<close>

record chain_token =
  ct_name :: string
  ct_symbol :: string
  ct_memo :: string
  ct_decimals :: nat
  ct_supply :: nat

record token_receipt =
  tr_token_id :: string
  tr_transaction_id :: string
  tr_explorer_url :: string
  tr_status :: string

record 'n token_chain =
  tc_create :: "chain_token \<Rightarrow> 'n \<Rightarrow> token_receipt result \<times> 'n"
  tc_network :: string

definition short_id :: "uuid_ops \<Rightarrow> uuid \<Rightarrow> string" where
  "short_id U i = take 8 (uuid_string U i)"

definition token_name :: "uuid_ops \<Rightarrow> issue_request \<Rightarrow> string" where
  "token_name U r =
    (let grade = trim_space (md_grade (ir_metadata r))
     in if grade = [] then ''FactorFlow receivable '' @ short_id U (ir_invoice_id r)
        else ''FactorFlow receivable '' @ short_id U (ir_invoice_id r) @ '' grade '' @ grade)"

definition token_symbol :: "uuid_ops \<Rightarrow> issue_request \<Rightarrow> string" where
  "token_symbol U r = ''FF'' @ to_upper (short_id U (ir_invoice_id r))"

definition token_of :: "uuid_ops \<Rightarrow> issue_request \<Rightarrow> chain_token result" where
  "token_of U r =
    and_then (currency_exponent (currency (ir_supply r))) (\<lambda>e.
      if e < 0 then Inl (Invalid ''supply'')
      else Inr \<lparr>ct_name = token_name U r, ct_symbol = token_symbol U r,
             ct_memo = md_commitment (ir_metadata r), ct_decimals = nat e,
             ct_supply = nat (minor (ir_supply r))\<rparr>)"

definition hedera_issue :: "'n token_chain \<Rightarrow> uuid_ops \<Rightarrow> 'n issuer" where
  "hedera_issue C U r n =
    (case and_then (check_request r) (\<lambda>_. token_of U r) of
       Inl e \<Rightarrow> (Inl e, n)
     | Inr token \<Rightarrow>
         (case tc_create C token n of
            (Inl e, n') \<Rightarrow> (Inl e, n')
          | (Inr receipt, n') \<Rightarrow>
              (Inr \<lparr>is_network = tc_network C, is_token_id = tr_token_id receipt, is_contract_id = [],
                 is_transaction_id = tr_transaction_id receipt,
                 is_explorer_url = tr_explorer_url receipt,
                 is_confirmed = tr_status receipt = ''SUCCESS''\<rparr>, n')))"

text \<open>
  What both issuers share: a request without an invoice or without a positive supply is refused
  before anything is minted.
\<close>

locale issuing =
  fixes issue :: "'n issuer"
  assumes refuses: "check_request r = Inl e \<Longrightarrow> issue r n = (Inl e, n)"
begin

lemma issued_request: "issue r n = (Inr res, n') \<Longrightarrow> check_request r = Inr ()"
  using refuses [of r _ n] by (cases "check_request r") auto

lemma state_changes_with_a_request: "issue r n = (res, n') \<Longrightarrow> n' \<noteq> n \<Longrightarrow> check_request r = Inr ()"
  using refuses [of r _ n] by (cases "check_request r") auto

end

interpretation local_issuer: issuing "local_issue H U" for H U
  by unfold_locales (simp add: local_issue_def)

interpretation hedera_issuer: issuing "hedera_issue C U" for C U
  by unfold_locales (simp add: hedera_issue_def)

lemma check_request_Inr:
  "check_request r = Inr u \<longleftrightarrow> ir_invoice_id r \<noteq> uuid_nil \<and> amount_positive (ir_supply r)"
  by (auto simp: check_request_def)

text \<open>An identifier the in-process issuer derives is one \<^verbatim>\<open>New\<close> takes as it is.\<close>

lemma local_result_fields:
  "trim_space (is_network (local_result H U r)) = ''local''"
  "trim_space (is_token_id (local_result H U r)) = is_token_id (local_result H U r)"
  "validate_issue (local_result H U r) = Inr ()"
  "length (is_token_id (local_result H U r)) \<le> max_identifier_len"
  "length (is_contract_id (local_result H U r)) \<le> max_identifier_len"
proof -
  have v: "list_all visible_char ''local''" "list_all visible_char ''local-token-''"
    by (simp_all add: visible_char_def)
  show n: "trim_space (is_network (local_result H U r)) = ''local''"
    using trim_space_visible [OF v(1)] by (simp add: local_result_def Let_def)
  show k: "trim_space (is_token_id (local_result H U r)) = is_token_id (local_result H U r)"
    by (rule trim_space_visible) (use v(2) hex_encode_visible in \<open>simp add: local_result_def Let_def\<close>)
  show "validate_issue (local_result H U r) = Inr ()"
    unfolding validate_issue_def n k by (simp add: local_result_def Let_def)
  show "length (is_token_id (local_result H U r)) \<le> max_identifier_len"
    "length (is_contract_id (local_result H U r)) \<le> max_identifier_len"
    by (simp_all add: local_result_def Let_def max_identifier_len_def)
qed

section \<open>Properties\<close>

text \<open>An asset that \<^verbatim>\<open>New\<close> accepts names its invoice, its issuer, a network and a token, and
  stands for a positive amount of a known currency; no command of the program changes any of these, every
  step follows the published table, and a redeemed asset stays redeemed and is never transferable again.\<close>

theorem asset_reachable_sound:
  assumes "new_asset p now = Inr a" and "reaches asset_exec a x" and "reaches asset_exec x y"
  shows "asset_sound y \<and> asset_terms y = asset_terms a \<and>
    chain_can_transition\<^sup>*\<^sup>* (tk_chain_status x) (tk_chain_status y) \<and>
    (tk_chain_status x = ChainRedeemed \<longrightarrow> y = x \<and> \<not> is_transferable y)"
proof -
  have terms: "asset_terms d = asset_terms b" if "reaches asset_exec b d" for b d
    by (rule reaches_invariant [OF that]) (use asset_exec_Inr(2) in auto)
  have "asset_terms y = asset_terms a"
    using terms [OF assms(2)] terms [OF assms(3)] by simp
  moreover have "asset_sound y"
    using new_asset_Inr(1) [OF assms(1)] calculation by (auto simp: asset_sound_def asset_terms_def)
  moreover have "chain_can_transition\<^sup>*\<^sup>* (tk_chain_status x) (tk_chain_status y)"
    using assms(3) by (induction rule: reaches.induct)
      (auto dest: asset_exec_Inr(1) intro: rtranclp.rtrancl_into_rtrancl)
  moreover have "y = x" if "tk_chain_status x = ChainRedeemed"
    using assms(3) that
    by (induction rule: reaches.induct) (auto dest!: asset_exec_Inr(1) simp: chain_can_transition_def)
  ultimately show ?thesis by (simp add: is_transferable_def)
qed

definition sample_asset_params :: asset_params where
  "sample_asset_params = \<lparr>nas_id = 1, nas_invoice_id = 2, nas_issuer_id = 3, nas_network = ''local'',
     nas_token_id = ''t'', nas_contract_id = [], nas_supply = \<lparr>minor = 5000, currency = ''USD''\<rparr>,
     nas_chain_status = ''ISSUED'', nas_transaction_id = [], nas_explorer_url = []\<rparr>"

theorem asset_reachable_sound_witness:
  "\<exists>a x. new_asset sample_asset_params 1 = Inr a \<and>
     run_cmds asset_exec [AssetFreeze 2, AssetUnfreeze 3, AssetRedeem 4] a = Inr x \<and>
     asset_sound x \<and> \<not> is_transferable x"
proof -
  have t: "trim_space ''local'' = ''local''" "trim_space ''t'' = ''t''"
    by (rule trim_space_visible, simp add: visible_char_def)+
  obtain a where a: "new_asset sample_asset_params 1 = Inr a" "tk_chain_status a = ChainIssued"
    using t by (simp add: new_asset_def sample_asset_params_def validate_identifier_def
        max_identifier_len_def max_url_len_def parse_chain_status_def chain_status_names_def
        amount_valid_def currency_valid_cases amount_positive_def checked_def violation_def)
  obtain x where x: "run_cmds asset_exec [AssetFreeze 2, AssetUnfreeze 3, AssetRedeem 4] a = Inr x"
    "tk_chain_status x = ChainRedeemed"
    using a(2) by (simp add: asset_freeze_def asset_unfreeze_def asset_redeem_def
        asset_transition_def chain_can_transition_def)
  show ?thesis
    using asset_reachable_sound [OF a(1) run_cmds_reaches [OF x(1)] reaches_refl] a(1) x by blast
qed

end
