(* ===== verification/Network.thy ===== *)
theory Network
  imports Lifecycle
begin

text \<open>
  \<^verbatim>\<open>internal/platform/hedera\<close>: the client that creates tokens and moves them, and the
  mirror that says what a network holds. The SDK and the HTTP round trip are parameters with a
  network state of their own: what the code adds to them is here, that is the checks before a call,
  the transaction id that travels with a failed receipt, the reading of a mirror's answer, and the
  translation of transaction ids. A Go function that returns a value and an error returns both here,
  because the client returns a receipt together with an error.
\<close>

section \<open>The client\<close>

record hedera_receipt =
  hr_token_id :: string
  hr_transaction_id :: string
  hr_explorer_url :: string
  hr_status :: string

definition no_receipt :: hedera_receipt where
  "no_receipt = \<lparr>hr_token_id = [], hr_transaction_id = [], hr_explorer_url = [], hr_status = []\<rparr>"

text \<open>
  What the SDK offers: parsing of ids, submitting a token transfer, a transfer of the network's own
  unit or the creation of a token (name, symbol, memo, decimals, supply), and the receipt of a
  submitted transaction, with the token it created if the network names one.
\<close>

record 'n hedera_sdk =
  sdk_token_id :: "string \<Rightarrow> string option"
  sdk_account_id :: "string \<Rightarrow> string option"
  sdk_evm_account :: "string \<Rightarrow> string option"
  sdk_move_token :: "string \<Rightarrow> string \<Rightarrow> int \<Rightarrow> 'n \<Rightarrow> string result \<times> 'n"
  sdk_pay :: "string \<Rightarrow> int \<Rightarrow> string \<Rightarrow> 'n \<Rightarrow> string result \<times> 'n"
  sdk_receipt :: "string \<Rightarrow> 'n \<Rightarrow> string result \<times> 'n"
  sdk_create_token :: "string \<Rightarrow> string \<Rightarrow> string \<Rightarrow> nat \<Rightarrow> nat \<Rightarrow> 'n \<Rightarrow> string result \<times> 'n"
  sdk_token_receipt :: "string \<Rightarrow> 'n \<Rightarrow> (string option \<times> string) result \<times> 'n"

definition token_url :: "string \<Rightarrow> string \<Rightarrow> string" where
  "token_url network i = ''https://hashscan.io/'' @ network @ ''/token/'' @ i"

definition transaction_url :: "string \<Rightarrow> string \<Rightarrow> string" where
  "transaction_url network i = ''https://hashscan.io/'' @ network @ ''/transaction/'' @ i"

definition clamp_text :: "string \<Rightarrow> nat \<Rightarrow> string" where
  "clamp_text v limit = (if length v \<le> limit then v else take limit v)"

definition trim_prefix :: "string \<Rightarrow> string \<Rightarrow> string" where
  "trim_prefix s p = (if take (length p) s = p then drop (length p) s else s)"

definition account_from :: "'n hedera_sdk \<Rightarrow> string \<Rightarrow> string result" where
  "account_from S v =
    (let trimmed = trim_space v
     in if trimmed = [] then Inl (Invalid ''account'')
        else if CHR ''.'' \<in> set trimmed
          then (case sdk_account_id S trimmed of None \<Rightarrow> Inl (Invalid ''account'') | Some a \<Rightarrow> Inr a)
        else (case sdk_evm_account S (trim_prefix trimmed ''0x'') of
                None \<Rightarrow> Inl (Invalid ''account'') | Some a \<Rightarrow> Inr a))"

text \<open>A submission whose receipt cannot be read still reports the transaction it was submitted as.\<close>

definition read_receipt ::
  "'n hedera_sdk \<Rightarrow> string \<Rightarrow> string \<Rightarrow> string \<Rightarrow> 'n \<Rightarrow> (hedera_receipt \<times> app_error option) \<times> 'n" where
  "read_receipt S network token tx n =
    (case sdk_receipt S tx n of
       (Inl e, n') \<Rightarrow> ((no_receipt\<lparr>hr_transaction_id := tx\<rparr>, Some e), n')
     | (Inr status, n') \<Rightarrow>
         ((\<lparr>hr_token_id = token, hr_transaction_id = tx,
            hr_explorer_url = transaction_url network tx, hr_status = status\<rparr>, None), n'))"

definition client_transfer ::
  "'n hedera_sdk \<Rightarrow> string \<Rightarrow> string \<Rightarrow> string \<Rightarrow> int \<Rightarrow> 'n \<Rightarrow> (hedera_receipt \<times> app_error option) \<times> 'n" where
  "client_transfer S network token_id recipient amount n =
    (if amount \<le> 0 then ((no_receipt, Some (Invalid ''amount'')), n)
     else case sdk_token_id S (trim_space token_id) of
       None \<Rightarrow> ((no_receipt, Some (Invalid ''token_id'')), n)
     | Some token \<Rightarrow>
         (case account_from S recipient of
            Inl e \<Rightarrow> ((no_receipt, Some e), n)
          | Inr account \<Rightarrow>
              (case sdk_move_token S token account amount n of
                 (Inl e, n') \<Rightarrow> ((no_receipt, Some e), n')
               | (Inr tx, n') \<Rightarrow> read_receipt S network token tx n')))"

text \<open>
  Creating a token: the display fields are cut to the network's limit, and a receipt without a token
  is refused.
\<close>

definition client_create_token ::
  "'n hedera_sdk \<Rightarrow> string \<Rightarrow> string \<Rightarrow> string \<Rightarrow> string \<Rightarrow> nat \<Rightarrow> nat \<Rightarrow> 'n \<Rightarrow>
    (hedera_receipt \<times> app_error option) \<times> 'n" where
  "client_create_token S network name symbol memo decimals supp n =
    (if supp = 0 then ((no_receipt, Some (Invalid ''supply'')), n)
     else case sdk_create_token S (clamp_text name 100) (clamp_text symbol 100) (clamp_text memo 100)
         decimals supp n of
       (Inl e, n') \<Rightarrow> ((no_receipt, Some e), n')
     | (Inr tx, n') \<Rightarrow>
         (case sdk_token_receipt S tx n' of
            (Inl e, n'') \<Rightarrow> ((no_receipt\<lparr>hr_transaction_id := tx\<rparr>, Some e), n'')
          | (Inr (None, status), n'') \<Rightarrow> ((no_receipt, Some ErrUnavailable), n'')
          | (Inr (Some token, status), n'') \<Rightarrow>
              ((\<lparr>hr_token_id = token, hr_transaction_id = tx, hr_explorer_url = token_url network token,
                 hr_status = status\<rparr>, None), n'')))"

definition max_memo_len :: nat where "max_memo_len = 100"

definition client_pay ::
  "'n hedera_sdk \<Rightarrow> string \<Rightarrow> string \<Rightarrow> int \<Rightarrow> string \<Rightarrow> 'n \<Rightarrow> (hedera_receipt \<times> app_error option) \<times> 'n" where
  "client_pay S network recipient tinybars memo n =
    (if tinybars \<le> 0 then ((no_receipt, Some (Invalid ''amount'')), n)
     else case account_from S recipient of
       Inl e \<Rightarrow> ((no_receipt, Some e), n)
     | Inr account \<Rightarrow>
         (case sdk_pay S account tinybars (clamp_text memo max_memo_len) n of
            (Inl e, n') \<Rightarrow> ((no_receipt, Some e), n')
          | (Inr tx, n') \<Rightarrow> read_receipt S network [] tx n'))"

section \<open>The mirror\<close>

record mirror_transfer =
  mt_token_id :: string
  mt_account :: string
  mt_amount :: int

record mirror_credit =
  mc_account :: string
  mc_amount :: int

record mirror_record =
  mr_transaction_id :: string
  mr_found :: bool
  mr_status :: string
  mr_consensus_at :: instant
  mr_transfers :: "mirror_transfer list"
  mr_credits :: "mirror_credit list"
  mr_memo :: string

definition mirror_paid :: "mirror_record \<Rightarrow> string \<Rightarrow> int \<Rightarrow> bool" where
  "mirror_paid r account tinybars \<longleftrightarrow>
    list_ex (\<lambda>c. mc_account c = account \<and> mc_amount c \<ge> tinybars) (mr_credits r)"

definition mirror_paid_by :: "mirror_record \<Rightarrow> string \<Rightarrow> bool" where
  "mirror_paid_by r account \<longleftrightarrow>
    list_ex (\<lambda>c. mc_account c = account \<and> mc_amount c < 0) (mr_credits r)"

definition mirror_succeeded :: "mirror_record \<Rightarrow> bool" where
  "mirror_succeeded r \<longleftrightarrow> mr_found r \<and> mr_status r = ''SUCCESS''"

definition mirror_moved :: "mirror_record \<Rightarrow> string \<Rightarrow> string \<Rightarrow> int \<Rightarrow> bool" where
  "mirror_moved r token_id account amount \<longleftrightarrow>
    list_ex (\<lambda>t. mt_token_id t = token_id \<and> mt_account t = account \<and> mt_amount t = amount)
      (mr_transfers r)"

definition mirror_transaction_id :: "string \<Rightarrow> string" where
  "mirror_transaction_id transaction_id =
    (let i = trim_space transaction_id;
         account = takeWhile (\<lambda>c. c \<noteq> CHR ''@'') i;
         stamp = tl (dropWhile (\<lambda>c. c \<noteq> CHR ''@'') i);
         whole = takeWhile (\<lambda>c. c \<noteq> CHR ''.'') stamp;
         rest = dropWhile (\<lambda>c. c \<noteq> CHR ''.'') stamp
     in if i = [] then []
        else if CHR ''@'' \<notin> set i then i
        else account @ ''-'' @ (if rest = [] then stamp else whole @ ''-'' @ tl rest))"

text \<open>
  The answer of a mirror, after the HTTP round trip and the decoding of its JSON: a status code, or
  the transactions it lists. The consensus stamp is parsed by \<^verbatim>\<open>fmt.Sscanf\<close> and the memo
  by the base64 decoder; both are parameters.
\<close>

record mirror_row =
  mw_transaction_id :: string
  mw_result :: string
  mw_consensus_at :: string
  mw_memo_base64 :: string
  mw_transfers :: "mirror_credit list"
  mw_token_transfers :: "mirror_transfer list"

datatype mirror_answer = MirrorError app_error | MirrorStatus int | MirrorRows "mirror_row list"

record 'n mirror =
  mi_fetch :: "string \<Rightarrow> 'n \<Rightarrow> mirror_answer \<times> 'n"
  mi_consensus_time :: "string \<Rightarrow> instant"
  mi_decode_memo :: "string \<Rightarrow> string option"

definition absent_record :: "string \<Rightarrow> mirror_record" where
  "absent_record tx = \<lparr>mr_transaction_id = tx, mr_found = False, mr_status = [], mr_consensus_at = 0,
     mr_transfers = [], mr_credits = [], mr_memo = []\<rparr>"

definition mirror_transaction :: "'n mirror \<Rightarrow> string \<Rightarrow> 'n \<Rightarrow> mirror_record result \<times> 'n" where
  "mirror_transaction M transaction_id n =
    (let i = mirror_transaction_id transaction_id
     in if i = [] then (Inl (External ''no transaction id''), n)
        else case mi_fetch M i n of
          (MirrorError e, n') \<Rightarrow> (Inl e, n')
        | (MirrorStatus code, n') \<Rightarrow>
            (if code = 404 then Inr (absent_record transaction_id)
             else Inl (External ''mirror status''), n')
        | (MirrorRows [], n') \<Rightarrow> (Inr (absent_record transaction_id), n')
        | (MirrorRows (w # ws), n') \<Rightarrow>
            (Inr \<lparr>mr_transaction_id = mw_transaction_id w, mr_found = True, mr_status = mw_result w,
               mr_consensus_at = mi_consensus_time M (mw_consensus_at w),
               mr_transfers = mw_token_transfers w, mr_credits = mw_transfers w,
               mr_memo = (case mi_decode_memo M (mw_memo_base64 w) of None \<Rightarrow> [] | Some m \<Rightarrow> m)\<rparr>, n'))"

text \<open>
  The id the mirror indexes is the SDK's with its separators replaced: one that carries no
  \<open>@\<close> any more is left alone, so translating twice changes nothing.
\<close>

lemma mirror_transaction_id_form:
  assumes "CHR ''@'' \<notin> set account" "CHR ''.'' \<notin> set whole" "CHR ''@'' \<notin> set (account @ whole @ nanos)"
    and "list_all visible_char (account @ ''@'' @ whole @ ''.'' @ nanos)"
  shows "mirror_transaction_id (account @ ''@'' @ whole @ ''.'' @ nanos) = account @ ''-'' @ whole @ ''-'' @ nanos"
proof -
  have t: "trim_space (account @ ''@'' @ whole @ ''.'' @ nanos) = account @ ''@'' @ whole @ ''.'' @ nanos"
    using assms(4) by (rule trim_space_visible)
  have tw: "takeWhile (\<lambda>c. c \<noteq> x) (s @ x # r) = s" "dropWhile (\<lambda>c. c \<noteq> x) (s @ x # r) = x # r"
    if "x \<notin> set s" for x :: char and s r
    using that by (induction s) auto
  show ?thesis
    using tw [OF assms(1)] tw [OF assms(2)] t by (simp add: mirror_transaction_id_def Let_def)
qed

lemma mirror_transaction_id_idem:
  assumes "CHR ''@'' \<notin> set (trim_space i)"
  shows "mirror_transaction_id (mirror_transaction_id i) = mirror_transaction_id i"
  using assms by (simp add: mirror_transaction_id_def Let_def)

end
