(* ===== verification/Executor.thy ===== *)
theory Executor
  imports Settlement Network "HOL-Library.AList"
begin

text \<open>
  The executors of the settlement saga (\<^verbatim>\<open>internal/settlement/ports.go\<close> and
  \<^verbatim>\<open>hedera.go\<close>, with the chain adapter of \<^verbatim>\<open>cmd/factorflow/main.go\<close>): the
  in-process ledger, the one that submits to a network, and the one that routes between them. An
  executor is a pair of operations over a state of its own; \<^verbatim>\<open>Submit\<close> returns a receipt and an
  error, both, as in the code. The clock of an executor is an argument.
\<close>

section \<open>The port\<close>

record order =
  od_operation_id :: string
  od_asset_id :: string
  od_network :: string
  od_token_id :: string
  od_from_wallet :: string
  od_to_wallet :: string
  od_notional :: amount

record receipt =
  rc_tx_id :: string
  rc_duplicate :: bool
  rc_explorer_url :: string
  rc_submitted_at :: instant

record tx_record =
  rd_tx_id :: string
  rd_found :: bool
  rd_succeeded :: bool
  rd_status :: string
  rd_confirmed_at :: instant
  rd_credited :: "(string \<Rightarrow> string \<Rightarrow> int \<Rightarrow> bool) option"

record 'n executor =
  ex_submit :: "order \<Rightarrow> 'n \<Rightarrow> (receipt \<times> app_error option) \<times> 'n"
  ex_lookup :: "string \<Rightarrow> 'n \<Rightarrow> tx_record result \<times> 'n"

definition empty_receipt :: receipt where
  "empty_receipt = \<lparr>rc_tx_id = [], rc_duplicate = False, rc_explorer_url = [], rc_submitted_at = 0\<rparr>"

definition unknown_record :: "string \<Rightarrow> tx_record" where
  "unknown_record tx = \<lparr>rd_tx_id = tx, rd_found = False, rd_succeeded = False, rd_status = [],
     rd_confirmed_at = 0, rd_credited = None\<rparr>"

definition validate_order :: "order \<Rightarrow> unit result" where
  "validate_order r =
    (if trim_space (od_operation_id r) = [] then Inl (Invalid ''operation_id'')
     else if trim_space (od_from_wallet r) = [] then Inl (Invalid ''from_wallet'')
     else if trim_space (od_to_wallet r) = [] then Inl (Invalid ''to_wallet'')
     else if \<not> amount_valid (od_notional r) \<or> \<not> amount_positive (od_notional r)
       then Inl (Invalid ''notional'')
     else Inr ())"

section \<open>The in-process ledger\<close>

record local_ledger =
  lg_by_operation :: "(string \<times> string) list"
  lg_records :: "(string \<times> tx_record) list"
  lg_fail_submit :: "app_error option"
  lg_fail_lookup :: "app_error option"
  lg_pending :: bool

definition new_ledger :: local_ledger where
  "new_ledger = \<lparr>lg_by_operation = [], lg_records = [], lg_fail_submit = None, lg_fail_lookup = None,
     lg_pending = False\<rparr>"

definition local_tx_prefix :: string where "local_tx_prefix = ''local-''"

definition local_tx_id :: "(string \<Rightarrow> string) \<Rightarrow> string \<Rightarrow> string" where
  "local_tx_id H op = local_tx_prefix @ hex_encode (take 16 (H (''local-tx|'' @ op)))"

definition local_submit ::
  "(string \<Rightarrow> string) \<Rightarrow> instant \<Rightarrow> order \<Rightarrow> local_ledger \<Rightarrow> (receipt \<times> app_error option) \<times> local_ledger" where
  "local_submit H now r g =
    (case validate_order r of
       Inl e \<Rightarrow> ((empty_receipt, Some e), g)
     | Inr _ \<Rightarrow>
         (case lg_fail_submit g of
            Some e \<Rightarrow> ((empty_receipt, Some e), g)
          | None \<Rightarrow>
              (case map_of (lg_by_operation g) (od_operation_id r) of
                 Some tx \<Rightarrow>
                   ((empty_receipt\<lparr>rc_tx_id := tx, rc_duplicate := True,
                      rc_submitted_at := (case map_of (lg_records g) tx of
                        None \<Rightarrow> 0 | Some rd \<Rightarrow> rd_confirmed_at rd)\<rparr>, None), g)
               | None \<Rightarrow>
                   (let tx = local_tx_id H (od_operation_id r);
                        rd = \<lparr>rd_tx_id = tx, rd_found = \<not> lg_pending g, rd_succeeded = \<not> lg_pending g,
                              rd_status = ''SUCCESS'', rd_confirmed_at = now, rd_credited = None\<rparr>
                    in ((empty_receipt\<lparr>rc_tx_id := tx, rc_submitted_at := now\<rparr>, None),
                        g\<lparr>lg_by_operation := AList.update (od_operation_id r) tx (lg_by_operation g),
                          lg_records := AList.update tx rd (lg_records g)\<rparr>)))))"

definition local_lookup :: "string \<Rightarrow> local_ledger \<Rightarrow> tx_record result \<times> local_ledger" where
  "local_lookup tx g =
    (case lg_fail_lookup g of
       Some e \<Rightarrow> (Inl e, g)
     | None \<Rightarrow> (Inr (case map_of (lg_records g) tx of None \<Rightarrow> unknown_record tx | Some rd \<Rightarrow> rd), g))"

definition local_executor :: "(string \<Rightarrow> string) \<Rightarrow> instant \<Rightarrow> local_ledger executor" where
  "local_executor H now = \<lparr>ex_submit = local_submit H now, ex_lookup = local_lookup\<rparr>"

definition fail_submissions :: "app_error option \<Rightarrow> local_ledger \<Rightarrow> local_ledger" where
  "fail_submissions e g = g\<lparr>lg_fail_submit := e\<rparr>"

definition fail_lookups :: "app_error option \<Rightarrow> local_ledger \<Rightarrow> local_ledger" where
  "fail_lookups e g = g\<lparr>lg_fail_lookup := e\<rparr>"

definition withhold_confirmation :: "bool \<Rightarrow> local_ledger \<Rightarrow> local_ledger" where
  "withhold_confirmation pending g = g\<lparr>lg_pending := pending\<rparr>"

definition ledger_confirm :: "instant \<Rightarrow> string \<Rightarrow> local_ledger \<Rightarrow> local_ledger" where
  "ledger_confirm now tx g =
    (case map_of (lg_records g) tx of
       None \<Rightarrow> g
     | Some rd \<Rightarrow> g\<lparr>lg_records := AList.update tx (rd\<lparr>rd_found := True, rd_succeeded := True,
         rd_status := ''SUCCESS'', rd_confirmed_at := now\<rparr>) (lg_records g)\<rparr>)"

definition ledger_reject :: "instant \<Rightarrow> string \<Rightarrow> string \<Rightarrow> local_ledger \<Rightarrow> local_ledger" where
  "ledger_reject now tx status g =
    g\<lparr>lg_records := AList.update tx \<lparr>rd_tx_id = tx, rd_found = True, rd_succeeded = False,
       rd_status = status, rd_confirmed_at = now, rd_credited = None\<rparr> (lg_records g)\<rparr>"

definition submission_count :: "local_ledger \<Rightarrow> nat" where
  "submission_count g = length (lg_by_operation g)"

section \<open>The network executor\<close>

record chain_receipt =
  cr_transaction_id :: string
  cr_status :: string
  cr_explorer_url :: string

record chain_record =
  cd_transaction_id :: string
  cd_found :: bool
  cd_succeeded :: bool
  cd_status :: string
  cd_confirmed_at :: instant
  cd_credited :: "(string \<Rightarrow> string \<Rightarrow> int \<Rightarrow> bool) option"

record 'n settlement_chain =
  sc_transfer :: "string \<Rightarrow> string \<Rightarrow> int \<Rightarrow> 'n \<Rightarrow> (chain_receipt \<times> app_error option) \<times> 'n"
  sc_lookup :: "string \<Rightarrow> 'n \<Rightarrow> chain_record result \<times> 'n"

definition chain_submit ::
  "'n settlement_chain \<Rightarrow> instant \<Rightarrow> order \<Rightarrow> 'n \<Rightarrow> (receipt \<times> app_error option) \<times> 'n" where
  "chain_submit C now r n =
    (case validate_order r of
       Inl e \<Rightarrow> ((empty_receipt, Some e), n)
     | Inr _ \<Rightarrow>
         if trim_space (od_token_id r) = [] then ((empty_receipt, Some (Invalid ''token_id'')), n)
         else case sc_transfer C (od_token_id r) (od_to_wallet r) (minor (od_notional r)) n of
           ((cr, Some e), n') \<Rightarrow>
             (if cr_transaction_id cr \<noteq> []
              then ((empty_receipt\<lparr>rc_tx_id := cr_transaction_id cr, rc_submitted_at := now\<rparr>, Some e), n')
              else ((empty_receipt, Some e), n'))
         | ((cr, None), n') \<Rightarrow>
             ((\<lparr>rc_tx_id = cr_transaction_id cr, rc_duplicate = False,
                rc_explorer_url = cr_explorer_url cr, rc_submitted_at = now\<rparr>, None), n'))"

definition chain_lookup :: "'n settlement_chain \<Rightarrow> string \<Rightarrow> 'n \<Rightarrow> tx_record result \<times> 'n" where
  "chain_lookup C tx n =
    (case sc_lookup C tx n of
       (Inl e, n') \<Rightarrow> (Inl e, n')
     | (Inr cd, n') \<Rightarrow>
         (Inr \<lparr>rd_tx_id = cd_transaction_id cd, rd_found = cd_found cd, rd_succeeded = cd_succeeded cd,
            rd_status = cd_status cd, rd_confirmed_at = cd_confirmed_at cd,
            rd_credited = cd_credited cd\<rparr>, n'))"

definition chain_executor :: "'n settlement_chain \<Rightarrow> instant \<Rightarrow> 'n executor" where
  "chain_executor C now = \<lparr>ex_submit = chain_submit C now, ex_lookup = chain_lookup C\<rparr>"

text \<open>The adapter of \<^verbatim>\<open>main.go\<close>: transfers go through the client, lookups to the mirror.\<close>

definition hedera_transfer ::
  "'n hedera_sdk \<Rightarrow> string \<Rightarrow> string \<Rightarrow> string \<Rightarrow> int \<Rightarrow> 'n \<Rightarrow> (chain_receipt \<times> app_error option) \<times> 'n" where
  "hedera_transfer S network token recipient amount n =
    (case client_transfer S network token recipient amount n of
       ((hr, e), n') \<Rightarrow> ((\<lparr>cr_transaction_id = hr_transaction_id hr, cr_status = hr_status hr,
          cr_explorer_url = hr_explorer_url hr\<rparr>, e), n'))"

definition hedera_lookup :: "'n mirror \<Rightarrow> string \<Rightarrow> 'n \<Rightarrow> chain_record result \<times> 'n" where
  "hedera_lookup M tx n =
    (case mirror_transaction M tx n of
       (Inl e, n') \<Rightarrow> (Inl e, n')
     | (Inr mr, n') \<Rightarrow>
         (Inr \<lparr>cd_transaction_id = mr_transaction_id mr, cd_found = mr_found mr,
            cd_succeeded = mirror_succeeded mr, cd_status = mr_status mr,
            cd_confirmed_at = mr_consensus_at mr, cd_credited = Some (mirror_moved mr)\<rparr>, n'))"

definition hedera_chain :: "'n hedera_sdk \<Rightarrow> 'n mirror \<Rightarrow> string \<Rightarrow> 'n settlement_chain" where
  "hedera_chain S M network =
    \<lparr>sc_transfer = hedera_transfer S network, sc_lookup = hedera_lookup M\<rparr>"

section \<open>Routing\<close>

definition deliverable_on_chain :: "string \<Rightarrow> bool" where
  "deliverable_on_chain destination \<longleftrightarrow> take 4 (to_lower (trim_space destination)) = ''0.0.''"

definition on_left :: "('a \<Rightarrow> 'r \<times> 'a) \<Rightarrow> 'a \<times> 'b \<Rightarrow> 'r \<times> ('a \<times> 'b)" where
  "on_left f ab = (case f (fst ab) of (r, a) \<Rightarrow> (r, (a, snd ab)))"

definition on_right :: "('b \<Rightarrow> 'r \<times> 'b) \<Rightarrow> 'a \<times> 'b \<Rightarrow> 'r \<times> ('a \<times> 'b)" where
  "on_right f ab = (case f (snd ab) of (r, b) \<Rightarrow> (r, (fst ab, b)))"

definition routed_submit ::
  "'a executor \<Rightarrow> 'b executor \<Rightarrow> order \<Rightarrow> 'a \<times> 'b \<Rightarrow> (receipt \<times> app_error option) \<times> ('a \<times> 'b)" where
  "routed_submit chain local r =
    (if deliverable_on_chain (od_to_wallet r) then on_left (ex_submit chain r)
     else on_right (ex_submit local r))"

definition routed_lookup ::
  "'a executor \<Rightarrow> 'b executor \<Rightarrow> string \<Rightarrow> 'a \<times> 'b \<Rightarrow> tx_record result \<times> ('a \<times> 'b)" where
  "routed_lookup chain local tx =
    (if take (length local_tx_prefix) (trim_space tx) = local_tx_prefix then on_right (ex_lookup local tx)
     else on_left (ex_lookup chain tx))"

definition routed_executor :: "'a executor \<Rightarrow> 'b executor \<Rightarrow> ('a \<times> 'b) executor" where
  "routed_executor chain local =
    \<lparr>ex_submit = routed_submit chain local, ex_lookup = routed_lookup chain local\<rparr>"

section \<open>What an executor promises\<close>

text \<open>
  The contract the saga relies on: an operation that was accepted is on record under the transaction
  it was accepted as, accepting it again returns that transaction and is marked a duplicate, and a
  refused submission or a lookup changes nothing.
\<close>

locale idempotent_executor =
  fixes submit :: "order \<Rightarrow> 'n \<Rightarrow> (receipt \<times> app_error option) \<times> 'n"
    and performed :: "'n \<Rightarrow> string \<Rightarrow> string option"
  assumes accepted: "submit r n = ((rc, None), n') \<Longrightarrow>
      performed n' = (performed n)(od_operation_id r \<mapsto> rc_tx_id rc)"
    and duplicate: "submit r n = ((rc, None), n') \<Longrightarrow>
      rc_duplicate rc \<longleftrightarrow> performed n (od_operation_id r) \<noteq> None"
    and same_tx: "submit r n = ((rc, None), n') \<Longrightarrow> performed n (od_operation_id r) = Some tx \<Longrightarrow>
      rc_tx_id rc = tx"
    and refused: "submit r n = ((rc, Some e), n') \<Longrightarrow> n' = n"
begin

lemma submit_extends:
  assumes "submit r n = (res, n')" and "performed n op = Some tx" shows "performed n' op = Some tx"
proof -
  obtain rc e where res: "res = (rc, e)" by fastforce
  show ?thesis
  proof (cases e)
    case None
    then show ?thesis
      using accepted [of r n rc n'] same_tx [of r n rc n'] assms res by (cases "od_operation_id r = op") auto
  next
    case (Some x)
    then show ?thesis using refused [of r n rc x n'] assms res by simp
  qed
qed

lemma submit_again:
  assumes "submit r n = ((rc, None), n')" and "submit r n' = ((rc', None), n'')"
  shows "rc_tx_id rc' = rc_tx_id rc" and "rc_duplicate rc'" and "performed n'' = performed n'"
  using accepted [OF assms(1)] accepted [OF assms(2)] duplicate [OF assms(2)] same_tx [OF assms(2)]
  by (auto simp: fun_eq_iff)

lemma performed_new:
  assumes "submit r n = (res, n')" and "performed n op = None" and "performed n' op = Some tx"
  shows "op = od_operation_id r \<and> (\<exists>rc. res = (rc, None) \<and> rc_tx_id rc = tx \<and> \<not> rc_duplicate rc)"
proof -
  obtain rc e where res: "res = (rc, e)" by fastforce
  have e: "e = None" using refused [of r n rc _ n'] assms res by (cases e) auto
  then show ?thesis
    using accepted [of r n rc n'] duplicate [of r n rc n'] assms res
    by (auto split: if_splits)
qed

end

interpretation local_ex: idempotent_executor "local_submit H now" "map_of \<circ> lg_by_operation" for H now
  by unfold_locales
    (auto simp: local_submit_def empty_receipt_def Let_def update_conv fun_eq_iff
      split: sum.splits option.splits)

section \<open>What every reachable ledger satisfies\<close>

datatype ledger_event = LedgerSubmit order instant | LedgerConfirm string instant
  | LedgerReject string string instant | LedgerFailSubmissions "app_error option"
  | LedgerFailLookups "app_error option" | LedgerWithhold bool

type_synonym submission = "order \<times> receipt \<times> app_error option"

fun ledger_step :: "(string \<Rightarrow> string) \<Rightarrow> ledger_event \<Rightarrow> local_ledger \<Rightarrow> submission list \<times> local_ledger" where
  "ledger_step H (LedgerSubmit r now) g =
    (case local_submit H now r g of ((rc, e), g') \<Rightarrow> ([(r, rc, e)], g'))"
| "ledger_step H (LedgerConfirm tx now) g = ([], ledger_confirm now tx g)"
| "ledger_step H (LedgerReject tx status now) g = ([], ledger_reject now tx status g)"
| "ledger_step H (LedgerFailSubmissions e) g = ([], fail_submissions e g)"
| "ledger_step H (LedgerFailLookups e) g = ([], fail_lookups e g)"
| "ledger_step H (LedgerWithhold p) g = ([], withhold_confirmation p g)"

fun ledger_run ::
  "(string \<Rightarrow> string) \<Rightarrow> ledger_event list \<Rightarrow> local_ledger \<Rightarrow> submission list \<times> local_ledger" where
  "ledger_run H [] g = ([], g)"
| "ledger_run H (v # vs) g =
    (case ledger_step H v g of (sent, g') \<Rightarrow>
     case ledger_run H vs g' of (later, g'') \<Rightarrow> (sent @ later, g''))"

definition ledger_ok :: "(string \<Rightarrow> string) \<Rightarrow> local_ledger \<Rightarrow> bool" where
  "ledger_ok H g \<longleftrightarrow> distinct (map fst (lg_by_operation g)) \<and>
     (\<forall>op tx. map_of (lg_by_operation g) op = Some tx \<longrightarrow>
       tx = local_tx_id H op \<and> (\<exists>rd. map_of (lg_records g) tx = Some rd))"

lemma ledger_ok_new: "ledger_ok H new_ledger"
  by (simp add: ledger_ok_def new_ledger_def)

lemma ledger_ok_lookup:
  "ledger_ok H g \<Longrightarrow> map_of (lg_by_operation g) op = Some tx \<Longrightarrow> tx = local_tx_id H op"
  by (simp add: ledger_ok_def)

lemma ledger_ok_submit:
  assumes "ledger_ok H g" and "local_submit H now r g = ((rc, e), g')"
  shows "ledger_ok H g'" and "e = None \<Longrightarrow> rc_tx_id rc = local_tx_id H (od_operation_id r)"
proof -
  show "e = None \<Longrightarrow> rc_tx_id rc = local_tx_id H (od_operation_id r)"
    using assms ledger_ok_lookup [OF assms(1)]
    by (auto simp: local_submit_def empty_receipt_def Let_def split: sum.splits option.splits)
  show "ledger_ok H g'"
  proof (cases "g' = g")
    case False
    let ?op = "od_operation_id r"
    let ?tx = "local_tx_id H ?op"
    have "lg_by_operation g' = AList.update ?op ?tx (lg_by_operation g)"
      "\<exists>rd. lg_records g' = AList.update ?tx rd (lg_records g)"
      using assms(2) False
      by (auto simp: local_submit_def Let_def split: sum.splits option.splits)
    then show ?thesis
      using assms(1) by (auto simp: ledger_ok_def update_conv distinct_update)
  qed (use assms in simp)
qed

lemma ledger_ok_step:
  assumes "ledger_ok H g" and "ledger_step H v g = (sent, g')" shows "ledger_ok H g'"
proof (cases v)
  case (LedgerSubmit r now)
  then show ?thesis using ledger_ok_submit(1) [OF assms(1)] assms(2) by (auto split: prod.splits)
next
  case (LedgerConfirm tx now)
  then show ?thesis using assms
    by (auto simp: ledger_ok_def ledger_confirm_def update_conv split: option.splits)
next
  case (LedgerReject tx status now)
  then show ?thesis using assms by (auto simp: ledger_ok_def ledger_reject_def update_conv)
qed (use assms in \<open>auto simp: ledger_ok_def fail_submissions_def fail_lookups_def
      withhold_confirmation_def\<close>)

text \<open>Accepted submissions of an operation, and those that performed it.\<close>

definition accepted_ops :: "submission list \<Rightarrow> string set" where
  "accepted_ops sent = {od_operation_id r | r rc. (r, rc, None) \<in> set sent}"

definition performs :: "submission list \<Rightarrow> string \<Rightarrow> submission list" where
  "performs sent op = filter (\<lambda>(r, rc, e). od_operation_id r = op \<and> e = None \<and> \<not> rc_duplicate rc) sent"

lemma ledger_step_facts:
  assumes "ledger_ok H g" and "ledger_step H v g = (sent, g')"
  shows "fst ` set (lg_by_operation g') = fst ` set (lg_by_operation g) \<union> accepted_ops sent"
    and "\<forall>(r, rc, e) \<in> set sent. e = None \<longrightarrow> rc_tx_id rc = local_tx_id H (od_operation_id r)"
    and "length (performs sent op) =
      (if op \<in> accepted_ops sent \<and> op \<notin> fst ` set (lg_by_operation g) then 1 else 0)"
proof -
  have "fst ` set (lg_by_operation g') = fst ` set (lg_by_operation g) \<union> accepted_ops sent \<and>
    (\<forall>(r, rc, e) \<in> set sent. e = None \<longrightarrow> rc_tx_id rc = local_tx_id H (od_operation_id r)) \<and>
    length (performs sent op) =
      (if op \<in> accepted_ops sent \<and> op \<notin> fst ` set (lg_by_operation g) then 1 else 0)"
  proof (cases v)
    case (LedgerSubmit r now)
    obtain rc e where s: "local_submit H now r g = ((rc, e), g')" "sent = [(r, rc, e)]"
      using assms(2) LedgerSubmit by (auto split: prod.splits)
    show ?thesis
    proof (cases e)
      case None
      have "dom (map_of (lg_by_operation g')) = insert (od_operation_id r) (dom (map_of (lg_by_operation g)))"
        using local_ex.accepted [OF s(1) [unfolded None]] by simp
      moreover have "rc_duplicate rc \<longleftrightarrow> od_operation_id r \<in> fst ` set (lg_by_operation g)"
        using local_ex.duplicate [OF s(1) [unfolded None]] by (simp add: dom_map_of_conv_image_fst [symmetric] domIff)
      ultimately show ?thesis
        using ledger_ok_submit(2) [OF assms(1) s(1)] s(2) None
        by (auto simp: accepted_ops_def performs_def dom_map_of_conv_image_fst)
    next
      case (Some x)
      then show ?thesis
        using local_ex.refused [of H now r g rc x g'] s by (auto simp: accepted_ops_def performs_def)
    qed
  qed (use assms(2) in \<open>auto simp: accepted_ops_def performs_def ledger_confirm_def ledger_reject_def
      fail_submissions_def fail_lookups_def withhold_confirmation_def split: option.splits\<close>)
  then show "fst ` set (lg_by_operation g') = fst ` set (lg_by_operation g) \<union> accepted_ops sent"
    and "\<forall>(r, rc, e) \<in> set sent. e = None \<longrightarrow> rc_tx_id rc = local_tx_id H (od_operation_id r)"
    and "length (performs sent op) =
      (if op \<in> accepted_ops sent \<and> op \<notin> fst ` set (lg_by_operation g) then 1 else 0)"
    by blast+
qed

lemma accepted_ops_simps:
  "accepted_ops [] = {}"
  "accepted_ops ((r, rc, e) # sent) =
    (if e = None then insert (od_operation_id r) (accepted_ops sent) else accepted_ops sent)"
  by (auto simp: accepted_ops_def)

lemma accepted_ops_append: "accepted_ops (xs @ ys) = accepted_ops xs \<union> accepted_ops ys"
  by (auto simp: accepted_ops_def)

lemma ledger_run_facts:
  assumes "ledger_ok H g" and "ledger_run H vs g = (sent, g')"
  shows "ledger_ok H g'"
    and "fst ` set (lg_by_operation g') = fst ` set (lg_by_operation g) \<union> accepted_ops sent"
    and "\<forall>(r, rc, e) \<in> set sent. e = None \<longrightarrow> rc_tx_id rc = local_tx_id H (od_operation_id r)"
    and "length (performs sent op) =
      (if op \<in> accepted_ops sent \<and> op \<notin> fst ` set (lg_by_operation g) then 1 else 0)"
proof -
  have "ledger_ok H g' \<and>
    fst ` set (lg_by_operation g') = fst ` set (lg_by_operation g) \<union> accepted_ops sent \<and>
    (\<forall>(r, rc, e) \<in> set sent. e = None \<longrightarrow> rc_tx_id rc = local_tx_id H (od_operation_id r)) \<and>
    length (performs sent op) =
      (if op \<in> accepted_ops sent \<and> op \<notin> fst ` set (lg_by_operation g) then 1 else 0)"
    using assms
  proof (induction vs arbitrary: g sent)
    case Nil
    then show ?case by (simp add: accepted_ops_def performs_def)
  next
    case (Cons v vs)
    obtain l1 g1 l2 where v: "ledger_step H v g = (l1, g1)" "ledger_run H vs g1 = (l2, g')" "sent = l1 @ l2"
      using Cons.prems(2) by (auto split: prod.splits)
    note f1 = ledger_step_facts [OF Cons.prems(1) v(1)]
      and f2 = Cons.IH [OF ledger_ok_step [OF Cons.prems(1) v(1)] v(2)]
    have "length (performs sent op) = length (performs l1 op) + length (performs l2 op)"
      by (simp add: performs_def v(3))
    then show ?case
      using f1 f2 by (auto simp: v(3) accepted_ops_append)
  qed
  then show "ledger_ok H g'"
    and "fst ` set (lg_by_operation g') = fst ` set (lg_by_operation g) \<union> accepted_ops sent"
    and "\<forall>(r, rc, e) \<in> set sent. e = None \<longrightarrow> rc_tx_id rc = local_tx_id H (od_operation_id r)"
    and "length (performs sent op) =
      (if op \<in> accepted_ops sent \<and> op \<notin> fst ` set (lg_by_operation g) then 1 else 0)"
    by blast+
qed

section \<open>Where a transfer is looked up\<close>

lemma local_tx_id_trim: "trim_space (local_tx_id H op) = local_tx_id H op"
proof (rule trim_space_visible)
  show "list_all visible_char (local_tx_id H op)"
    using hex_encode_visible [of "take 16 (H (''local-tx|'' @ op))"]
    by (simp add: local_tx_id_def local_tx_prefix_def visible_char_def)
qed

lemma local_tx_id_prefix:
  "take (length local_tx_prefix) (trim_space (local_tx_id H op)) = local_tx_prefix"
  unfolding local_tx_id_trim by (simp add: local_tx_id_def)

text \<open>An adapter of \<^verbatim>\<open>main.go\<close> confirms what a transfer credited, because it reads it off the mirror.\<close>

lemma hedera_lookup_credits:
  assumes "chain_lookup (hedera_chain S M network) tx n = (Inr rd, n')"
  shows "\<exists>mr. mirror_transaction M tx n = (Inr mr, n') \<and> rd_credited rd = Some (mirror_moved mr) \<and>
    rd_succeeded rd = mirror_succeeded mr"
  using assms
  by (auto simp: chain_lookup_def hedera_chain_def hedera_lookup_def split: sum.splits prod.splits)

section \<open>Properties\<close>

text \<open>C14: However submissions, failures, confirmations and rejections are interleaved from a new in-process
  ledger on, every operation that was accepted is performed exactly once: exactly one of its accepted
  submissions is not a duplicate, all of them return the same transaction, and the ledger counts one transfer
  per accepted operation. The ledger refines the set of the operations it performed.\<close>

theorem ledger_performs_each_operation_once:
  assumes "ledger_run H vs new_ledger = (sent, g)"
  shows "fst ` set (lg_by_operation g) = accepted_ops sent \<and>
    submission_count g = card (accepted_ops sent) \<and>
    (\<forall>(r, rc, e) \<in> set sent. e = None \<longrightarrow> rc_tx_id rc = local_tx_id H (od_operation_id r)) \<and>
    (\<forall>op \<in> accepted_ops sent. length (performs sent op) = 1)"
proof -
  note f = ledger_run_facts [OF ledger_ok_new assms]
  have dom: "fst ` set (lg_by_operation g) = accepted_ops sent"
    using f(2) by (simp add: new_ledger_def)
  have "distinct (map fst (lg_by_operation g))" using f(1) by (simp add: ledger_ok_def)
  then have "submission_count g = card (accepted_ops sent)"
    using distinct_card [of "map fst (lg_by_operation g)"] dom by (simp add: submission_count_def)
  then show ?thesis using dom f(3,4) by (simp add: new_ledger_def)
qed

definition sample_order :: order where
  "sample_order = \<lparr>od_operation_id = ''0xop'', od_asset_id = ''a'', od_network = ''local'',
     od_token_id = ''t'', od_from_wallet = ''0xaa'', od_to_wallet = ''0xbb'',
     od_notional = \<lparr>minor = 5000, currency = ''USD''\<rparr>\<rparr>"

lemma sample_order_valid: "validate_order sample_order = Inr ()"
proof -
  have "trim_space ''0xop'' = ''0xop''" "trim_space ''0xaa'' = ''0xaa''" "trim_space ''0xbb'' = ''0xbb''"
    by (rule trim_space_visible, simp add: visible_char_def)+
  then show ?thesis
    by (simp add: validate_order_def sample_order_def amount_valid_def currency_valid_cases amount_positive_def)
qed

theorem ledger_performs_each_operation_once_witness:
  "\<exists>sent g. ledger_run id [LedgerSubmit sample_order 1, LedgerFailSubmissions (Some ErrUnavailable),
      LedgerSubmit sample_order 2, LedgerFailSubmissions None, LedgerSubmit sample_order 3] new_ledger =
      (sent, g) \<and> submission_count g = 1 \<and> accepted_ops sent = {''0xop''}"
proof -
  obtain sent g where run: "ledger_run id [LedgerSubmit sample_order 1,
      LedgerFailSubmissions (Some ErrUnavailable), LedgerSubmit sample_order 2,
      LedgerFailSubmissions None, LedgerSubmit sample_order 3] new_ledger = (sent, g)"
    by fastforce
  have "od_operation_id sample_order = ''0xop''" by (simp add: sample_order_def)
  then have "accepted_ops sent = {''0xop''}"
    using run by (auto simp: local_submit_def sample_order_valid new_ledger_def fail_submissions_def
        Let_def update_conv accepted_ops_simps)
  then show ?thesis using ledger_performs_each_operation_once [OF run] run by auto
qed

text \<open>A transfer that the routed executor accepted is looked up where it was performed: on the network when
  its destination is an account there, in the in-process ledger otherwise, provided the transactions of the
  network do not carry the name of the ledger.\<close>

theorem routed_lookup_asks_the_performer:
  assumes "ledger_ok H (snd ab)"
    and "routed_submit (chain_executor C now) (local_executor H now) r ab = ((rc, None), ab')"
    and "\<And>tok dest amt n cr n'. sc_transfer C tok dest amt n = ((cr, None), n') \<Longrightarrow>
      take (length local_tx_prefix) (trim_space (cr_transaction_id cr)) \<noteq> local_tx_prefix"
  shows "routed_lookup (chain_executor C now) (local_executor H now) (rc_tx_id rc) =
    (if deliverable_on_chain (od_to_wallet r) then on_left (chain_lookup C (rc_tx_id rc))
     else on_right (local_lookup (rc_tx_id rc)))"
proof (cases "deliverable_on_chain (od_to_wallet r)")
  case True
  then have "\<exists>n'. chain_submit C now r (fst ab) = ((rc, None), n')"
    using assms(2) by (auto simp: routed_submit_def on_left_def chain_executor_def split: prod.splits)
  then have "\<exists>tok dest amt n n' cr. sc_transfer C tok dest amt n = ((cr, None), n') \<and>
      rc_tx_id rc = cr_transaction_id cr"
    by (fastforce simp: chain_submit_def split: sum.splits prod.splits option.splits if_splits)
  then show ?thesis using assms(3) True
    by (auto simp: routed_lookup_def chain_executor_def)
next
  case False
  then have "\<exists>g'. local_submit H now r (snd ab) = ((rc, None), g')"
    using assms(2) by (auto simp: routed_submit_def on_right_def local_executor_def split: prod.splits)
  then have "rc_tx_id rc = local_tx_id H (od_operation_id r)"
    using ledger_ok_submit(2) [OF assms(1)] by blast
  then show ?thesis using False local_tx_id_prefix
    by (simp add: routed_lookup_def local_executor_def)
qed

definition sample_chain :: "nat settlement_chain" where
  "sample_chain = \<lparr>sc_transfer = (\<lambda>tok dest amt n. ((\<lparr>cr_transaction_id = ''0.0.2@7'',
       cr_status = ''SUCCESS'', cr_explorer_url = []\<rparr>, None), n + 1)),
     sc_lookup = (\<lambda>tx n. (Inr \<lparr>cd_transaction_id = tx, cd_found = 0 < n, cd_succeeded = 0 < n,
       cd_status = ''SUCCESS'', cd_confirmed_at = 0, cd_credited = None\<rparr>, n))\<rparr>"

theorem routed_lookup_asks_the_performer_witness:
  "\<exists>rc ab. routed_submit (chain_executor sample_chain 1) (local_executor id 1)
      (sample_order\<lparr>od_to_wallet := ''0.0.9''\<rparr>) (0, new_ledger) = ((rc, None), ab) \<and>
    routed_lookup (chain_executor sample_chain 1) (local_executor id 1) (rc_tx_id rc) =
      on_left (chain_lookup sample_chain (rc_tx_id rc))"
proof -
  let ?r = "sample_order\<lparr>od_to_wallet := ''0.0.9''\<rparr>"
  have t: "trim_space ''0.0.9'' = ''0.0.9''" "trim_space ''t'' = ''t''" "trim_space ''0.0.2@7'' = ''0.0.2@7''"
    by (rule trim_space_visible, simp add: visible_char_def)+
  have valid: "validate_order ?r = Inr ()"
    using sample_order_valid t(1) by (simp add: validate_order_def split: if_splits)
  have dest: "deliverable_on_chain (od_to_wallet ?r)"
    using t(1) by (simp add: deliverable_on_chain_def to_lower_def lower_char_def)
  obtain rc ab where s: "routed_submit (chain_executor sample_chain 1) (local_executor id 1) ?r
      (0, new_ledger) = ((rc, None), ab)"
    using dest valid t(2) by (simp add: routed_submit_def chain_executor_def on_left_def
        chain_submit_def sample_chain_def sample_order_def)
  have net: "take (length local_tx_prefix) (trim_space (cr_transaction_id cr)) \<noteq> local_tx_prefix"
    if "sc_transfer sample_chain tok dest amt n = ((cr, None), n')" for tok dest amt n cr n'
    using that t(3) by (auto simp: sample_chain_def local_tx_prefix_def)
  show ?thesis
    using routed_lookup_asks_the_performer [OF _ s net] ledger_ok_new dest s by auto
qed

end
