(* ===== verification/Identity.thy ===== *)
theory Identity
  imports External Lifecycle
begin

text \<open>
  \<^verbatim>\<open>internal/identity\<close> (\<^verbatim>\<open>domain.go\<close>, \<^verbatim>\<open>signature.go\<close>): the
  one-time message a wallet signs, the session it buys, and the check of a signature. Random bytes,
  the two hash functions and the recovery of a public key are parameters; a time the code keeps as a
  pointer is an option.
\<close>

section \<open>Wallets\<close>

definition normalize_wallet :: "string \<Rightarrow> string result" where
  "normalize_wallet wallet =
    (let trimmed = trim_space wallet
     in if \<not> wallet_hex trimmed then Inl (Invalid ''wallet'') else Inr (to_lower trimmed))"

definition describe_address :: "string \<Rightarrow> string" where
  "describe_address wallet = to_lower (trim_space wallet)"

definition random_hex :: "(nat \<Rightarrow> string result) \<Rightarrow> nat \<Rightarrow> string result" where
  "random_hex R n = and_then (R n) (\<lambda>bytes. Inr (hex_encode bytes))"

section \<open>Challenges\<close>

definition challenge_ttl :: int where "challenge_ttl = minutes 5"
definition session_ttl :: int where "session_ttl = hours 12"

record challenge =
  ch_nonce :: string
  ch_wallet :: string
  ch_issued_at :: instant
  ch_expires_at :: instant
  ch_consumed_at :: "instant option"

definition new_challenge :: "(nat \<Rightarrow> string result) \<Rightarrow> string \<Rightarrow> instant \<Rightarrow> challenge result" where
  "new_challenge R wallet now =
    and_then (normalize_wallet wallet) (\<lambda>normalized.
    and_then (random_hex R 16) (\<lambda>nonce.
      Inr \<lparr>ch_nonce = nonce, ch_wallet = normalized, ch_issued_at = now,
        ch_expires_at = now + challenge_ttl, ch_consumed_at = None\<rparr>))"

definition challenge_expired :: "instant \<Rightarrow> challenge \<Rightarrow> bool" where
  "challenge_expired now c \<longleftrightarrow> now > ch_expires_at c"

definition challenge_consumed :: "challenge \<Rightarrow> bool" where
  "challenge_consumed c \<longleftrightarrow> ch_consumed_at c \<noteq> None"

definition challenge_message :: "challenge \<Rightarrow> string" where
  "challenge_message c = join_strings [CHR 0x0A]
     [''FactorFlow wants you to sign in with your wallet.'', [],
      ''This signature proves you control the address below.'',
      ''It authorizes no payment and moves no funds.'', [],
      ''Wallet: '' @ describe_address (ch_wallet c),
      ''Nonce: '' @ ch_nonce c,
      ''Issued at: '' @ rfc3339 (ch_issued_at c),
      ''Expires at: '' @ rfc3339 (ch_expires_at c)]"

definition consume :: "instant \<Rightarrow> challenge \<Rightarrow> challenge result" where
  "consume now c =
    (if challenge_consumed c then Inl ErrConflict
     else if challenge_expired now c then Inl ErrConflict
     else Inr (c\<lparr>ch_consumed_at := Some now\<rparr>))"

section \<open>Sessions\<close>

record session =
  se_token_hash :: string
  se_organization_id :: uuid
  se_wallet :: string
  se_issued_at :: instant
  se_expires_at :: instant
  se_revoked_at :: "instant option"

definition hash_token :: "(string \<Rightarrow> string) \<Rightarrow> string \<Rightarrow> string" where
  "hash_token H token = hex_encode (H token)"

definition new_session ::
  "(string \<Rightarrow> string) \<Rightarrow> (nat \<Rightarrow> string result) \<Rightarrow> uuid \<Rightarrow> string \<Rightarrow> instant \<Rightarrow> (session \<times> string) result" where
  "new_session H R organization wallet now =
    (if organization = uuid_nil then Inl (Invalid ''organization_id'')
     else and_then (normalize_wallet wallet) (\<lambda>normalized.
     and_then (random_hex R 32) (\<lambda>token.
       Inr (\<lparr>se_token_hash = hash_token H token, se_organization_id = organization,
              se_wallet = normalized, se_issued_at = now, se_expires_at = now + session_ttl,
              se_revoked_at = None\<rparr>, token))))"

definition session_active :: "instant \<Rightarrow> session \<Rightarrow> bool" where
  "session_active now s \<longleftrightarrow> se_revoked_at s = None \<and> \<not> now > se_expires_at s"

definition revoke :: "instant \<Rightarrow> session \<Rightarrow> session" where
  "revoke now s = (case se_revoked_at s of None \<Rightarrow> s\<lparr>se_revoked_at := Some now\<rparr> | Some t \<Rightarrow> s)"

section \<open>Signatures\<close>

text \<open>
  \<^verbatim>\<open>keccak\<close> is the hash of the Ethereum address scheme; \<^verbatim>\<open>recover\<close> takes a compact
  signature and a digest to the uncompressed public key, if there is one.
\<close>

record crypto_ops =
  keccak :: "string \<Rightarrow> string"
  recover_key :: "string \<Rightarrow> string \<Rightarrow> string option"

definition signature_len :: nat where "signature_len = 65"

fun hex_pairs :: "string \<Rightarrow> string option" where
  "hex_pairs [] = Some []"
| "hex_pairs [c] = None"
| "hex_pairs (c # d # cs) =
    (if hex_char c \<and> hex_char d
     then map_option (\<lambda>bs. char_of (16 * hex_digit_val (lower_char c) + hex_digit_val (lower_char d)) # bs)
       (hex_pairs cs)
     else None)"

definition decode_signature :: "string \<Rightarrow> string result" where
  "decode_signature signature =
    (let t = trim_space signature;
         trimmed = (if take 2 t = ''0x'' then drop 2 t else t)
     in case hex_pairs trimmed of
          None \<Rightarrow> Inl (Invalid ''signature'')
        | Some raw \<Rightarrow> if length raw \<noteq> signature_len then Inl (Invalid ''signature'') else Inr raw)"

definition personal_sign_hash :: "crypto_ops \<Rightarrow> string \<Rightarrow> string" where
  "personal_sign_hash K message =
    keccak K ([CHR 0x19] @ ''Ethereum Signed Message:'' @ [CHR 0x0A]
      @ int_dec (int (length message)) @ message)"

definition recover_address :: "crypto_ops \<Rightarrow> string \<Rightarrow> string \<Rightarrow> string result" where
  "recover_address K message signature =
    and_then (decode_signature signature) (\<lambda>raw.
      let v = (of_char (raw ! 64) :: nat);
          recovery = (if v \<ge> 27 then v - 27 else v)
      in if recovery > 1 then Inl (Invalid ''signature'')
         else case recover_key K (char_of (recovery + 27) # take 64 raw) (personal_sign_hash K message) of
           None \<Rightarrow> Inl (Invalid ''signature'')
         | Some key \<Rightarrow> Inr (''0x'' @ hex_encode (drop 12 (keccak K (drop 1 key)))))"

text \<open>
  \<^verbatim>\<open>EqualFold\<close> against an address of lower-case hexadecimal digits, which have no other
  foldings than their upper case.
\<close>

definition verify_signature :: "crypto_ops \<Rightarrow> string \<Rightarrow> string \<Rightarrow> string \<Rightarrow> unit result" where
  "verify_signature K wallet message signature =
    and_then (recover_address K message signature) (\<lambda>recovered.
      if to_lower recovered \<noteq> to_lower (trim_space wallet) then Inl (Invalid ''signature'') else Inr ())"

section \<open>Facts\<close>

lemma normalize_wallet_Inr [result_simps]:
  "normalize_wallet w = Inr v \<longleftrightarrow> wallet_hex (trim_space w) \<and> v = to_lower (trim_space w)"
  by (auto simp: normalize_wallet_def Let_def)

lemma consume_Inr [result_simps]:
  "consume now c = Inr d \<longleftrightarrow> \<not> challenge_consumed c \<and> \<not> challenge_expired now c \<and>
     d = c\<lparr>ch_consumed_at := Some now\<rparr>"
  by (auto simp: consume_def)

lemma consume_once: "consume now c = Inr d \<Longrightarrow> consume later d = Inl ErrConflict"
  by (auto simp: result_simps consume_def challenge_consumed_def)

lemma revoke_inactive: "\<not> session_active later (revoke now s)"
  by (auto simp: revoke_def session_active_def split: option.splits)

text \<open>A signature proves the key of the wallet: both sides of the recovery id that wallets use agree.\<close>

lemma verify_signature_Inr:
  assumes "verify_signature K w m sig = Inr ()"
  shows "\<exists>a. recover_address K m sig = Inr a \<and> to_lower a = to_lower (trim_space w)"
  using assms by (auto simp: verify_signature_def result_simps split: if_splits)

lemma hex_pairs_encode: "hex_pairs (hex_encode bs) = Some bs"
proof (induction bs)
  case Nil
  then show ?case by (simp add: hex_encode_def)
next
  case (Cons b bs)
  let ?n = "of_char b :: nat"
  have n: "?n div 16 < 16" "?n mod 16 < 16"
    using of_char_mod_256 [of b, where ?'a = nat] mod_less_divisor [of 256 "of_char b"]
    by (simp_all add: less_mult_imp_div_less)
  have e: "hex_encode (b # bs) = hex_digit (?n div 16) # hex_digit (?n mod 16) # hex_encode bs"
    by (simp add: hex_encode_def)
  have h: "hex_char (hex_digit d) \<and> hex_digit_val (lower_char (hex_digit d)) = d" if "d < 16" for d
    using that hex_digit_lower [OF that] lower_char_lower_hex by (simp add: hex_char_def)
  have "16 * (?n div 16) + ?n mod 16 = ?n" by simp
  then show ?case using Cons h [OF n(1)] h [OF n(2)] by (simp add: e)
qed

end
