(* ===== verification/Audit_Log.thy ===== *)
theory Audit_Log
  imports External Lifecycle "HOL-Library.AList"
begin

text \<open>
  \<^verbatim>\<open>internal/platform/audit\<close> and the outbox rows of \<^verbatim>\<open>internal/platform/outbox\<close>:
  what a change records about itself, and the intent it leaves for a worker. A detail of an entry is a
  text, a number or a truth value, the kinds the program writes; the map of details is an association list. The
  digest of a state is taken over its JSON text; the one state the program digests is a status and a
  version. An outbox payload is the decoded command, one constructor per struct the program publishes,
  so encoding and decoding JSON is the identity.
\<close>

section \<open>Requests\<close>

text \<open>
  What a handler reads from its surroundings: the clock, the trace id of its context and the source of
  fresh ids. One reading of the clock stands for all the readings of one request, and \<open>rq_ids n\<close> is
  the id the \<open>n\<close>-th call of the source returns.
\<close>

record request =
  rq_now :: instant
  rq_trace :: string
  rq_ids :: "nat \<Rightarrow> uuid"

section \<open>Timeline entries\<close>

datatype detail = DetailText string | DetailInt int | DetailBool bool

record audit_event =
  ev_actor :: string
  ev_action :: string
  ev_entity_type :: string
  ev_entity_id :: string
  ev_before_hash :: string
  ev_after_hash :: string
  ev_trace_id :: string
  ev_detail :: "(string \<times> detail) list"
  ev_occurred_at :: instant

definition system_actor :: string where "system_actor = ''system''"

definition validate_event :: "audit_event \<Rightarrow> unit result" where
  "validate_event e =
    checked
      (violation (trim_space (ev_actor e) = []) (Invalid ''actor'')
       @ violation (trim_space (ev_action e) = []) (Invalid ''action'')
       @ violation (trim_space (ev_entity_type e) = []) (Invalid ''entity_type'')
       @ violation (trim_space (ev_entity_id e) = []) (Invalid ''entity_id'')
       @ violation (time_is_zero (ev_occurred_at e)) (Invalid ''occurred_at''))
      (Inr ())"

definition event_of :: "request \<Rightarrow> string \<Rightarrow> string \<Rightarrow> string \<Rightarrow> string \<Rightarrow> audit_event" where
  "event_of rq actor action entity_type entity_id =
    \<lparr>ev_actor = actor, ev_action = action, ev_entity_type = entity_type, ev_entity_id = entity_id,
     ev_before_hash = [], ev_after_hash = [], ev_trace_id = rq_trace rq, ev_detail = [],
     ev_occurred_at = rq_now rq\<rparr>"

definition with_detail :: "string \<Rightarrow> detail \<Rightarrow> audit_event \<Rightarrow> audit_event" where
  "with_detail key v e = e\<lparr>ev_detail := AList.update key v (ev_detail e)\<rparr>"

text \<open>\<^verbatim>\<open>Hash\<close> of the JSON text of a state; no text stands for a state that does not marshal.\<close>

definition audit_hash :: "(string \<Rightarrow> string) \<Rightarrow> string option \<Rightarrow> string" where
  "audit_hash H encoded =
    (case encoded of
       None \<Rightarrow> []
     | Some j \<Rightarrow> if j = ''null'' then [] else ''0x'' @ hex_encode (H j))"

definition status_json :: "(string \<times> int) option \<Rightarrow> string" where
  "status_json s =
    (case s of
       None \<Rightarrow> ''null''
     | Some (status, version) \<Rightarrow>
         ''{'' @ [CHR 0x22] @ ''status'' @ [CHR 0x22] @ '':'' @ [CHR 0x22] @ status @ [CHR 0x22] @ '',''
         @ [CHR 0x22] @ ''version'' @ [CHR 0x22] @ '':'' @ int_dec version @ ''}'')"

definition between ::
  "(string \<Rightarrow> string) \<Rightarrow> (string \<times> int) option \<Rightarrow> (string \<times> int) option \<Rightarrow> audit_event \<Rightarrow> audit_event" where
  "between H before after e =
    e\<lparr>ev_before_hash := audit_hash H (Some (status_json before)),
      ev_after_hash := audit_hash H (Some (status_json after))\<rparr>"

lemma validate_event_Inr [result_simps]:
  "validate_event e = Inr u \<longleftrightarrow> trim_space (ev_actor e) \<noteq> [] \<and> trim_space (ev_action e) \<noteq> [] \<and>
     trim_space (ev_entity_type e) \<noteq> [] \<and> trim_space (ev_entity_id e) \<noteq> [] \<and> ev_occurred_at e \<noteq> 0"
  by (auto simp: validate_event_def checked_def time_is_zero_def)

text \<open>Details and digests say nothing about the subject of an entry, so they never make one invalid.\<close>

lemma validate_event_decorated [simp]:
  "validate_event (with_detail k v e) = validate_event e"
  "validate_event (between H b a e) = validate_event e"
  by (simp_all add: validate_event_def with_detail_def between_def)

section \<open>Outbox rows\<close>

datatype outbox_payload =
    AssessPayload uuid string string string string int
  | TokenizePayload uuid uuid
  | SettlePayload uuid

record outbox_row =
  ob_id :: int
  ob_topic :: string
  ob_payload :: outbox_payload
  ob_attempts :: int
  ob_last_error :: string
  ob_trace_id :: string
  ob_available_at :: instant
  ob_delivered_at :: "instant option"
  ob_created_at :: instant

definition is_delivered :: "outbox_row \<Rightarrow> bool" where
  "is_delivered r \<longleftrightarrow> ob_delivered_at r \<noteq> None"

text \<open>The table numbers its rows itself, one after the other.\<close>

record outbox_table =
  ot_rows :: "outbox_row list"
  ot_next :: int

definition publish ::
  "string \<Rightarrow> outbox_payload \<Rightarrow> string \<Rightarrow> instant \<Rightarrow> outbox_table \<Rightarrow> outbox_table result" where
  "publish topic payload trace now t =
    (if topic = [] then Inl (Invalid ''topic'')
     else Inr (t\<lparr>ot_rows := ot_rows t @ [\<lparr>ob_id = ot_next t, ob_topic = topic, ob_payload = payload,
         ob_attempts = 0, ob_last_error = [], ob_trace_id = trace, ob_available_at = now,
         ob_delivered_at = None, ob_created_at = now\<rparr>],
       ot_next := ot_next t + 1\<rparr>))"

end
