(* ===== verification/Store.thy ===== *)
theory Store
  imports Audit_Log Identity Organization Tokenization Invoice Redemption Settlement Certificate
begin

text \<open>
  The storage the application layer works over: the repositories of
  \<^verbatim>\<open>internal/testsupport/memrepo\<close>, which implement the repository ports with the
  constraints of the SQL schema, and the outbox table. A Go map is an association list with one entry
  per key; its iteration order is the order of the list, and every listing that depends on an order
  sorts. Rows are values, so a row that is read is a copy. A transaction runs its body on the store and
  puts the previous contents back when the body or the commit fails; the snapshot it restores from
  does not include the explanations, so a rollback leaves that map nil: \<open>None\<close>.
\<close>

section \<open>Row types of the modules that are not modelled on their own\<close>

record explanation =
  ex_assessment_id :: uuid
  ex_source :: string
  ex_model :: string
  ex_bullets :: "string list"
  ex_created_at :: instant

record 'd market =
  mk_id :: string
  mk_subgraph_id :: string
  mk_asset :: string
  mk_net_supply_apy :: 'd
  mk_available_liquidity :: amount
  mk_block_number :: int

record 'd snapshot =
  sn_provider :: string
  sn_network :: string
  sn_asset :: string
  sn_query_hash :: string
  sn_payload_hash :: string
  sn_markets :: "'d market list"
  sn_subgraph_ids :: "string list"
  sn_block_numbers :: "int list"
  sn_benchmark :: 'd
  sn_liquidity_premium :: 'd
  sn_volatility :: 'd
  sn_total_liquidity :: amount
  sn_observed_at :: instant
  sn_ttl :: int

record blob =
  bl_key :: string
  bl_owner_id :: uuid
  bl_ciphertext :: string
  bl_size_bytes :: int
  bl_cipher_hash :: string
  bl_created_at :: instant

section \<open>Tables\<close>

type_synonym ('k, 'v) table = "('k \<times> 'v) list"

definition fetch :: "'k \<Rightarrow> ('k, 'v) table \<Rightarrow> 'v result" where
  "fetch k t = (case map_of t k of None \<Rightarrow> Inl ErrNotFound | Some v \<Rightarrow> Inr v)"

definition table_rows :: "('k, 'v) table \<Rightarrow> 'v list" where
  "table_rows t = map snd t"

definition table_put :: "'k \<Rightarrow> 'v \<Rightarrow> ('k, 'v) table \<Rightarrow> ('k, 'v) table" where
  "table_put k v t = AList.update k v t"

definition find_row :: "('v \<Rightarrow> bool) \<Rightarrow> ('k, 'v) table \<Rightarrow> 'v result" where
  "find_row P t = (case find P (table_rows t) of None \<Rightarrow> Inl ErrNotFound | Some v \<Rightarrow> Inr v)"

text \<open>The check every versioned repository makes before it writes.\<close>

definition versioned_put ::
  "('v \<Rightarrow> int) \<Rightarrow> 'k \<Rightarrow> 'v \<Rightarrow> int \<Rightarrow> ('k, 'v) table \<Rightarrow> ('k, 'v) table result" where
  "versioned_put version k v expected t =
    and_then (fetch k t) (\<lambda>stored.
      if version stored \<noteq> expected then Inl ErrConflict else Inr (table_put k v t))"

definition truncate_rows :: "int \<Rightarrow> 'a list \<Rightarrow> 'a list" where
  "truncate_rows limit items =
    (if limit > 0 \<and> int (length items) > limit then take (nat limit) items else items)"

definition newest :: "('v \<Rightarrow> instant) \<Rightarrow> 'v list \<Rightarrow> 'v option" where
  "newest created rows = fold (\<lambda>v best.
     case best of None \<Rightarrow> Some v | Some b \<Rightarrow> if created v > created b then Some v else best) rows None"

section \<open>The store\<close>

record 'd store =
  db_organizations :: "(uuid, organization) table"
  db_challenges :: "(string, challenge) table"
  db_sessions :: "(string, session) table"
  db_invoices :: "(uuid, invoice) table"
  db_documents :: "(uuid, document) table"
  db_assessments :: "(uuid, 'd assessment) table"
  db_explanations :: "(uuid, explanation) table option"
  db_snapshots :: "(string, 'd snapshot) table"
  db_assets :: "(uuid, asset) table"
  db_auctions :: "(uuid, auction) table"
  db_bids :: "(uuid, 'd bid) table"
  db_solutions :: "(uuid, solution) table"
  db_settlements :: "(uuid, settlement) table"
  db_repayments :: "(uuid, repayment) table"
  db_blobs :: "(string, blob) table"
  db_events :: "audit_event list"
  db_outbox :: outbox_table
  db_fail_commit :: "app_error option"

definition empty_store :: "'d store" where
  "empty_store = \<lparr>db_organizations = [], db_challenges = [], db_sessions = [], db_invoices = [],
     db_documents = [], db_assessments = [], db_explanations = Some [], db_snapshots = [],
     db_assets = [], db_auctions = [], db_bids = [], db_solutions = [], db_settlements = [],
     db_repayments = [], db_blobs = [], db_events = [], db_outbox = \<lparr>ot_rows = [], ot_next = 1\<rparr>,
     db_fail_commit = None\<rparr>"

definition rollback :: "'d store \<Rightarrow> 'd store" where
  "rollback s = s\<lparr>db_explanations := None\<rparr>"

text \<open>
  \<^verbatim>\<open>InTx\<close>: the body works on the store; when it fails, or when the commit does, the
  contents at \<^verbatim>\<open>begin\<close> are put back.
\<close>

definition in_tx :: "('d store \<Rightarrow> ('a \<times> 'd store) result) \<Rightarrow> 'd store \<Rightarrow> 'a result \<times> 'd store" where
  "in_tx body s =
    (case body s of
       Inl e \<Rightarrow> (Inl e, rollback s)
     | Inr (a, s') \<Rightarrow>
         (case db_fail_commit s' of Some e \<Rightarrow> (Inl e, rollback s) | None \<Rightarrow> (Inr a, s')))"

section \<open>Organizations\<close>

definition create_organization :: "organization \<Rightarrow> 'd store \<Rightarrow> 'd store result" where
  "create_organization g s =
    (if map_of (db_organizations s) (org_id g) \<noteq> None then Inl ErrConflict
     else if list_ex (\<lambda>r. org_wallet r = org_wallet g) (table_rows (db_organizations s)) then Inl ErrConflict
     else Inr (s\<lparr>db_organizations := table_put (org_id g) g (db_organizations s)\<rparr>))"

definition get_organization :: "uuid \<Rightarrow> 'd store \<Rightarrow> organization result" where
  "get_organization i s = fetch i (db_organizations s)"

definition get_organization_by_wallet :: "string \<Rightarrow> 'd store \<Rightarrow> organization result" where
  "get_organization_by_wallet w s = find_row (\<lambda>r. org_wallet r = w) (db_organizations s)"

definition update_organization :: "organization \<Rightarrow> int \<Rightarrow> 'd store \<Rightarrow> 'd store result" where
  "update_organization g expected s =
    and_then (versioned_put org_version (org_id g) g expected (db_organizations s)) (\<lambda>t.
      Inr (s\<lparr>db_organizations := t\<rparr>))"

definition list_organizations :: "uuid_ops \<Rightarrow> org_type option \<Rightarrow> int \<Rightarrow> 'd store \<Rightarrow> organization list" where
  "list_organizations U t limit s =
    truncate_rows limit (sort_by (\<lambda>x y.
        if org_created_at x \<noteq> org_created_at y then org_created_at x > org_created_at y
        else uuid_string U (org_id x) < uuid_string U (org_id y))
      (filter (\<lambda>r. case t of None \<Rightarrow> True | Some k \<Rightarrow> org_type r = k) (table_rows (db_organizations s))))"

section \<open>Challenges and sessions\<close>

definition save_challenge :: "challenge \<Rightarrow> 'd store \<Rightarrow> 'd store" where
  "save_challenge c s = s\<lparr>db_challenges := table_put (ch_nonce c) c (db_challenges s)\<rparr>"

definition get_challenge :: "string \<Rightarrow> 'd store \<Rightarrow> challenge result" where
  "get_challenge nonce s = fetch nonce (db_challenges s)"

definition consume_challenge :: "challenge \<Rightarrow> 'd store \<Rightarrow> 'd store result" where
  "consume_challenge c s =
    and_then (fetch (ch_nonce c) (db_challenges s)) (\<lambda>stored.
      if challenge_consumed stored then Inl ErrConflict else Inr (save_challenge c s))"

definition delete_expired_challenges :: "instant \<Rightarrow> 'd store \<Rightarrow> nat \<times> 'd store" where
  "delete_expired_challenges before s =
    (let kept = filter (\<lambda>(n, c). \<not> ch_expires_at c < before) (db_challenges s)
     in (length (db_challenges s) - length kept, s\<lparr>db_challenges := kept\<rparr>))"

definition save_session :: "session \<Rightarrow> 'd store \<Rightarrow> 'd store" where
  "save_session x s = s\<lparr>db_sessions := table_put (se_token_hash x) x (db_sessions s)\<rparr>"

definition get_session :: "string \<Rightarrow> 'd store \<Rightarrow> session result" where
  "get_session h s = fetch h (db_sessions s)"

definition revoke_session :: "session \<Rightarrow> 'd store \<Rightarrow> 'd store" where
  "revoke_session x s = s\<lparr>db_sessions := table_put (se_token_hash x) x (db_sessions s)\<rparr>"

section \<open>Invoices\<close>

definition create_invoice :: "(string \<Rightarrow> string) \<Rightarrow> invoice \<Rightarrow> 'd store \<Rightarrow> 'd store result" where
  "create_invoice H i s =
    (if map_of (db_invoices s) (inv_id i) \<noteq> None then Inl ErrConflict
     else if list_ex (\<lambda>r. \<not> inv_terminal (inv_status r) \<and> inv_fingerprint H r = inv_fingerprint H i)
       (table_rows (db_invoices s)) then Inl ErrConflict
     else Inr (s\<lparr>db_invoices := table_put (inv_id i) i (db_invoices s)\<rparr>))"

definition get_invoice :: "uuid \<Rightarrow> 'd store \<Rightarrow> invoice result" where
  "get_invoice i s = fetch i (db_invoices s)"

definition update_invoice :: "invoice \<Rightarrow> int \<Rightarrow> 'd store \<Rightarrow> 'd store result" where
  "update_invoice i expected s =
    and_then (versioned_put inv_version (inv_id i) i expected (db_invoices s)) (\<lambda>t.
      Inr (s\<lparr>db_invoices := t\<rparr>))"

definition invoices_where :: "uuid_ops \<Rightarrow> (invoice \<Rightarrow> bool) \<Rightarrow> int \<Rightarrow> 'd store \<Rightarrow> invoice list" where
  "invoices_where U P limit s =
    truncate_rows limit (sort_by (\<lambda>x y. uuid_string U (inv_id x) < uuid_string U (inv_id y))
      (filter P (table_rows (db_invoices s))))"

definition list_invoices_by_issuer :: "uuid_ops \<Rightarrow> uuid \<Rightarrow> int \<Rightarrow> 'd store \<Rightarrow> invoice list" where
  "list_invoices_by_issuer U issuer = invoices_where U (\<lambda>i. inv_issuer i = issuer)"

definition list_invoices_by_status :: "uuid_ops \<Rightarrow> inv_status \<Rightarrow> int \<Rightarrow> 'd store \<Rightarrow> invoice list" where
  "list_invoices_by_status U st = invoices_where U (\<lambda>i. inv_status i = st)"

definition save_document :: "document \<Rightarrow> 'd store \<Rightarrow> 'd store" where
  "save_document d s = s\<lparr>db_documents := table_put (doc_invoice_id d) d (db_documents s)\<rparr>"

definition get_document :: "uuid \<Rightarrow> 'd store \<Rightarrow> document result" where
  "get_document i s = fetch i (db_documents s)"

section \<open>Assessments and explanations\<close>

definition save_assessment :: "'d assessment \<Rightarrow> 'd store \<Rightarrow> 'd store" where
  "save_assessment a s = s\<lparr>db_assessments := table_put (am_id a) a (db_assessments s)\<rparr>"

definition get_assessment :: "uuid \<Rightarrow> 'd store \<Rightarrow> 'd assessment result" where
  "get_assessment i s = fetch i (db_assessments s)"

definition latest_assessment :: "uuid \<Rightarrow> 'd store \<Rightarrow> 'd assessment result" where
  "latest_assessment invoice s =
    (case newest am_created_at (filter (\<lambda>a. am_invoice_id a = invoice) (table_rows (db_assessments s))) of
       None \<Rightarrow> Inl ErrNotFound
     | Some a \<Rightarrow> Inr a)"

text \<open>Writing to a nil map panics; reading it finds nothing.\<close>

definition save_explanation :: "explanation \<Rightarrow> 'd store \<Rightarrow> 'd store result" where
  "save_explanation e s =
    (case db_explanations s of
       None \<Rightarrow> Inl Panic
     | Some t \<Rightarrow> Inr (s\<lparr>db_explanations := Some (table_put (ex_assessment_id e) e t)\<rparr>))"

definition get_explanation :: "uuid \<Rightarrow> 'd store \<Rightarrow> explanation result" where
  "get_explanation i s = (case db_explanations s of None \<Rightarrow> Inl ErrNotFound | Some t \<Rightarrow> fetch i t)"

section \<open>Market snapshots\<close>

definition save_snapshot :: "'d snapshot \<Rightarrow> 'd store \<Rightarrow> 'd store" where
  "save_snapshot x s = s\<lparr>db_snapshots := table_put (sn_payload_hash x) x (db_snapshots s)\<rparr>"

definition get_snapshot :: "string \<Rightarrow> 'd store \<Rightarrow> 'd snapshot result" where
  "get_snapshot h s = fetch h (db_snapshots s)"

definition latest_snapshot :: "string \<Rightarrow> string \<Rightarrow> 'd store \<Rightarrow> 'd snapshot result" where
  "latest_snapshot network asset s =
    (case newest sn_observed_at (filter (\<lambda>x. sn_network x = network \<and> sn_asset x = asset)
        (table_rows (db_snapshots s))) of
       None \<Rightarrow> Inl ErrNotFound
     | Some x \<Rightarrow> Inr x)"

section \<open>Assets\<close>

definition create_asset :: "asset \<Rightarrow> 'd store \<Rightarrow> 'd store result" where
  "create_asset a s =
    (if list_ex (\<lambda>r. tk_invoice_id r = tk_invoice_id a) (table_rows (db_assets s)) then Inl ErrConflict
     else Inr (s\<lparr>db_assets := table_put (tk_id a) a (db_assets s)\<rparr>))"

definition get_asset :: "uuid \<Rightarrow> 'd store \<Rightarrow> asset result" where
  "get_asset i s = fetch i (db_assets s)"

definition get_asset_by_invoice :: "uuid \<Rightarrow> 'd store \<Rightarrow> asset result" where
  "get_asset_by_invoice invoice s = find_row (\<lambda>a. tk_invoice_id a = invoice) (db_assets s)"

definition update_asset :: "asset \<Rightarrow> 'd store \<Rightarrow> 'd store result" where
  "update_asset a s =
    and_then (fetch (tk_id a) (db_assets s)) (\<lambda>_.
      Inr (s\<lparr>db_assets := table_put (tk_id a) a (db_assets s)\<rparr>))"

definition list_assets_by_issuer :: "uuid_ops \<Rightarrow> uuid \<Rightarrow> int \<Rightarrow> 'd store \<Rightarrow> asset list" where
  "list_assets_by_issuer U issuer limit s =
    truncate_rows limit (sort_by (\<lambda>x y. uuid_string U (tk_id x) < uuid_string U (tk_id y))
      (filter (\<lambda>a. tk_issuer_id a = issuer) (table_rows (db_assets s))))"

section \<open>Auctions, bids and solutions\<close>

definition auctioned_assets :: "'d store \<Rightarrow> uuid list" where
  "auctioned_assets s = concat (map (\<lambda>a. map lot_asset_id (auc_lots a)) (table_rows (db_auctions s)))"

definition create_auction :: "auction \<Rightarrow> 'd store \<Rightarrow> 'd store result" where
  "create_auction a s =
    (if map_of (db_auctions s) (auc_id a) \<noteq> None then Inl ErrConflict
     else if list_ex (\<lambda>l. lot_asset_id l \<in> set (auctioned_assets s)) (auc_lots a) then Inl ErrConflict
     else Inr (s\<lparr>db_auctions := table_put (auc_id a) a (db_auctions s)\<rparr>))"

definition get_auction :: "uuid \<Rightarrow> 'd store \<Rightarrow> auction result" where
  "get_auction i s = fetch i (db_auctions s)"

definition update_auction :: "auction \<Rightarrow> int \<Rightarrow> 'd store \<Rightarrow> 'd store result" where
  "update_auction a expected s =
    and_then (versioned_put auc_version (auc_id a) a expected (db_auctions s)) (\<lambda>t.
      Inr (s\<lparr>db_auctions := t\<rparr>))"

definition list_auctions :: "auc_status option \<Rightarrow> int \<Rightarrow> 'd store \<Rightarrow> auction list" where
  "list_auctions st limit s =
    truncate_rows limit (sort_by (\<lambda>x y. auc_closes_at x < auc_closes_at y)
      (filter (\<lambda>a. case st of None \<Rightarrow> True | Some k \<Rightarrow> auc_status a = k) (table_rows (db_auctions s))))"

definition listing_of :: "uuid \<Rightarrow> 'd store \<Rightarrow> listing result" where
  "listing_of invoice s =
    (case sort_by (\<lambda>x y. auc_created_at x > auc_created_at y)
        (concat (map (\<lambda>a. map (\<lambda>_. a) (filter (\<lambda>l. lot_invoice_id l = invoice) (auc_lots a)))
          (table_rows (db_auctions s)))) of
       [] \<Rightarrow> Inl ErrNotFound
     | a # _ \<Rightarrow> Inr \<lparr>lst_auction_id = auc_id a,
         lst_lot_id = (case find (\<lambda>l. lot_invoice_id l = invoice) (auc_lots a) of
           None \<Rightarrow> uuid_nil | Some l \<Rightarrow> lot_id l),
         lst_status = Some (auc_status a)\<rparr>)"

definition create_bid :: "'d bid \<Rightarrow> 'd store \<Rightarrow> 'd store" where
  "create_bid b s = s\<lparr>db_bids := table_put (bid_id b) b (db_bids s)\<rparr>"

definition get_bid :: "uuid \<Rightarrow> 'd store \<Rightarrow> 'd bid result" where
  "get_bid i s = fetch i (db_bids s)"

definition update_bid :: "'d bid \<Rightarrow> int \<Rightarrow> 'd store \<Rightarrow> 'd store result" where
  "update_bid b expected s =
    and_then (versioned_put bid_version (bid_id b) b expected (db_bids s)) (\<lambda>t.
      Inr (s\<lparr>db_bids := t\<rparr>))"

definition list_bids :: "uuid_ops \<Rightarrow> uuid \<Rightarrow> 'd store \<Rightarrow> 'd bid list" where
  "list_bids U auction s =
    sort_by (bid_before U) (filter (\<lambda>b. bid_auction_id b = auction) (table_rows (db_bids s)))"

definition save_solution :: "solution \<Rightarrow> 'd store \<Rightarrow> 'd store result" where
  "save_solution x s =
    (if map_of (db_solutions s) (sol_auction_id x) \<noteq> None then Inl ErrConflict
     else Inr (s\<lparr>db_solutions := table_put (sol_auction_id x) x (db_solutions s)\<rparr>))"

definition get_solution :: "uuid \<Rightarrow> 'd store \<Rightarrow> solution result" where
  "get_solution i s = fetch i (db_solutions s)"

section \<open>Settlements\<close>

definition create_settlement :: "settlement \<Rightarrow> 'd store \<Rightarrow> 'd store result" where
  "create_settlement x s =
    (if map_of (db_settlements s) (stl_id x) \<noteq> None then Inl ErrConflict
     else if list_ex (\<lambda>r. stl_operation_id r = stl_operation_id x \<or>
         (stl_auction_id r = stl_auction_id x \<and> stl_lot_id r = stl_lot_id x \<and> stl_bid_id r = stl_bid_id x))
       (table_rows (db_settlements s)) then Inl ErrConflict
     else Inr (s\<lparr>db_settlements := table_put (stl_id x) x (db_settlements s)\<rparr>))"

definition get_settlement :: "uuid \<Rightarrow> 'd store \<Rightarrow> settlement result" where
  "get_settlement i s = fetch i (db_settlements s)"

definition get_settlement_by_operation :: "string \<Rightarrow> 'd store \<Rightarrow> settlement result" where
  "get_settlement_by_operation op s = find_row (\<lambda>r. stl_operation_id r = op) (db_settlements s)"

definition update_settlement :: "settlement \<Rightarrow> int \<Rightarrow> 'd store \<Rightarrow> 'd store result" where
  "update_settlement x expected s =
    and_then (versioned_put stl_version (stl_id x) x expected (db_settlements s)) (\<lambda>t.
      Inr (s\<lparr>db_settlements := t\<rparr>))"

definition settlement_before :: "uuid_ops \<Rightarrow> settlement \<Rightarrow> settlement \<Rightarrow> bool" where
  "settlement_before U x y =
    (if stl_created_at x \<noteq> stl_created_at y then stl_created_at x < stl_created_at y
     else uuid_string U (stl_id x) < uuid_string U (stl_id y))"

definition settlements_where :: "uuid_ops \<Rightarrow> (settlement \<Rightarrow> bool) \<Rightarrow> int \<Rightarrow> 'd store \<Rightarrow> settlement list" where
  "settlements_where U P limit s =
    truncate_rows limit (sort_by (settlement_before U) (filter P (table_rows (db_settlements s))))"

definition list_settlements_by_auction :: "uuid_ops \<Rightarrow> uuid \<Rightarrow> 'd store \<Rightarrow> settlement list" where
  "list_settlements_by_auction U auction = settlements_where U (\<lambda>x. stl_auction_id x = auction) 0"

definition list_settlements_by_invoice :: "uuid_ops \<Rightarrow> uuid \<Rightarrow> 'd store \<Rightarrow> settlement list" where
  "list_settlements_by_invoice U invoice = settlements_where U (\<lambda>x. stl_invoice_id x = invoice) 0"

definition list_settlements_by_investor :: "uuid_ops \<Rightarrow> uuid \<Rightarrow> int \<Rightarrow> 'd store \<Rightarrow> settlement list" where
  "list_settlements_by_investor U investor = settlements_where U (\<lambda>x. stl_investor_id x = investor)"

definition list_unfinished_settlements :: "uuid_ops \<Rightarrow> int \<Rightarrow> 'd store \<Rightarrow> settlement list" where
  "list_unfinished_settlements U = settlements_where U (\<lambda>x. \<not> stl_is_finished x)"

section \<open>Repayments and stored ciphertexts\<close>

definition create_repayment :: "repayment \<Rightarrow> 'd store \<Rightarrow> 'd store result" where
  "create_repayment r s =
    (if map_of (db_repayments s) (rp_invoice_id r) \<noteq> None then Inl ErrConflict
     else Inr (s\<lparr>db_repayments := table_put (rp_invoice_id r) r (db_repayments s)\<rparr>))"

definition get_repayment_by_invoice :: "uuid \<Rightarrow> 'd store \<Rightarrow> repayment result" where
  "get_repayment_by_invoice i s = fetch i (db_repayments s)"

definition list_repayments_for :: "uuid_ops \<Rightarrow> uuid \<Rightarrow> int \<Rightarrow> 'd store \<Rightarrow> repayment list" where
  "list_repayments_for U party limit s =
    truncate_rows limit (sort_by (\<lambda>x y.
        if rp_received_at x \<noteq> rp_received_at y then rp_received_at x > rp_received_at y
        else uuid_string U (rp_id x) < uuid_string U (rp_id y))
      (filter (\<lambda>r. holds_share r party) (table_rows (db_repayments s))))"

definition put_blob :: "blob \<Rightarrow> 'd store \<Rightarrow> 'd store" where
  "put_blob b s =
    (if map_of (db_blobs s) (bl_key b) \<noteq> None then s
     else s\<lparr>db_blobs := table_put (bl_key b) b (db_blobs s)\<rparr>)"

definition get_blob :: "string \<Rightarrow> 'd store \<Rightarrow> blob result" where
  "get_blob k s = fetch k (db_blobs s)"

section \<open>The timeline and the outbox\<close>

definition record_event :: "audit_event \<Rightarrow> 'd store \<Rightarrow> 'd store result" where
  "record_event e s = and_then (validate_event e) (\<lambda>_. Inr (s\<lparr>db_events := db_events s @ [e]\<rparr>))"

definition events_for :: "string \<Rightarrow> string \<Rightarrow> 'd store \<Rightarrow> audit_event list" where
  "events_for entity_type entity_id s =
    filter (\<lambda>e. ev_entity_type e = entity_type \<and> ev_entity_id e = entity_id) (rev (db_events s))"

definition timeline :: "string \<Rightarrow> string \<Rightarrow> int \<Rightarrow> 'd store \<Rightarrow> audit_event list" where
  "timeline entity_type entity_id limit s = truncate_rows limit (events_for entity_type entity_id s)"

definition publish_command ::
  "string \<Rightarrow> outbox_payload \<Rightarrow> string \<Rightarrow> instant \<Rightarrow> 'd store \<Rightarrow> 'd store result" where
  "publish_command topic payload trace now s =
    and_then (publish topic payload trace now (db_outbox s)) (\<lambda>t. Inr (s\<lparr>db_outbox := t\<rparr>))"

end
