(* ===== verification/Store_Facts.thy ===== *)
theory Store_Facts
  imports Store
begin

text \<open>
  What the repositories promise. A versioned repository refuses a write that was prepared from a row
  somebody else has changed since: the locale \<open>versioned_repo\<close>, interpreted on the five
  repositories that carry a version. A failed transaction leaves nothing behind, and the constraints of
  the SQL schema hold in every store the program's writes lead to.
\<close>

section \<open>Tables\<close>

lemma map_of_table_put [simp]: "map_of (table_put k v t) = (map_of t)(k \<mapsto> v)"
  by (simp add: table_put_def update_conv')

lemma fetch_Inr [result_simps]: "fetch k t = Inr v \<longleftrightarrow> map_of t k = Some v"
  by (simp add: fetch_def split: option.splits)

lemma fetch_Inl [result_simps]: "fetch k t = Inl e \<longleftrightarrow> map_of t k = None \<and> e = ErrNotFound"
  by (auto simp: fetch_def split: option.splits)

lemma versioned_put_Inr [result_simps]:
  "versioned_put ver k v e t = Inr u \<longleftrightarrow>
    (\<exists>w. map_of t k = Some w \<and> ver w = e) \<and> u = table_put k v t"
  by (auto simp: versioned_put_def result_simps)

lemma find_row_Inr:
  "find_row P t = Inr v \<Longrightarrow> v \<in> set (table_rows t) \<and> P v"
  by (auto simp: find_row_def find_Some_iff table_rows_def split: option.splits)

text \<open>A table keyed by a field of its rows.\<close>

definition keyed :: "('v \<Rightarrow> 'k) \<Rightarrow> ('k, 'v) table \<Rightarrow> bool" where
  "keyed key t \<longleftrightarrow> distinct (map fst t) \<and> (\<forall>k v. map_of t k = Some v \<longrightarrow> key v = k)"

lemma keyed_Nil [simp]: "keyed key []"
  by (simp add: keyed_def)

lemma keyed_put [simp]: "keyed key t \<Longrightarrow> keyed key (table_put (key v) v t)"
  by (auto simp: keyed_def table_put_def distinct_update update_conv')

lemma keyed_lookup: "keyed key t \<Longrightarrow> map_of t k = Some v \<Longrightarrow> key v = k"
  by (simp add: keyed_def)

lemma keyed_rows: "keyed key t \<Longrightarrow> v \<in> set (table_rows t) \<longleftrightarrow> map_of t (key v) = Some v"
proof -
  assume t: "keyed key t"
  have "v \<in> set (table_rows t) \<longleftrightarrow> (\<exists>k. (k, v) \<in> set t)" by (force simp: table_rows_def)
  also have "\<dots> \<longleftrightarrow> (\<exists>k. map_of t k = Some v)" using t by (simp add: keyed_def)
  also have "\<dots> \<longleftrightarrow> map_of t (key v) = Some v" using keyed_lookup [OF t] by auto
  finally show ?thesis .
qed

lemma keyed_rows_distinct: "keyed key t \<Longrightarrow> distinct (table_rows t)"
proof -
  assume t: "keyed key t"
  have "map key (table_rows t) = map fst t"
    using t by (auto simp: table_rows_def keyed_def)
  then show ?thesis using t by (metis distinct_map keyed_def)
qed

lemma keyed_filter: "keyed key t \<Longrightarrow> keyed key (filter P t)"
  by (auto simp: keyed_def distinct_map_filter)

text \<open>Rows that may not stand beside one another.\<close>

definition apart :: "('v \<Rightarrow> 'v \<Rightarrow> bool) \<Rightarrow> ('k, 'v) table \<Rightarrow> bool" where
  "apart R t \<longleftrightarrow> (\<forall>k k' v v'. map_of t k = Some v \<longrightarrow> map_of t k' = Some v' \<longrightarrow> R v v' \<longrightarrow> k = k')"

lemma apart_Nil [simp]: "apart R []"
  by (simp add: apart_def)

lemma apart_put:
  assumes "apart R t" and "symp R" and "\<And>k' v'. map_of t k' = Some v' \<Longrightarrow> k' \<noteq> k \<Longrightarrow> \<not> R v v'"
  shows "apart R (table_put k v t)"
  using assms(1,3) sympD [OF assms(2)] unfolding apart_def map_of_table_put
  by (auto split: if_splits) (metis assms(3))+

lemma apart_advance:
  assumes "apart R t" and "symp R" and "map_of t k = Some w" and "\<And>v'. R v v' \<Longrightarrow> R w v'"
  shows "apart R (table_put k v t)"
proof (rule apart_put [OF assms(1,2)])
  fix k' v'
  assume "map_of t k' = Some v'" "k' \<noteq> k"
  then show "\<not> R v v'" using assms(1,3) assms(4) [of v'] unfolding apart_def by blast
qed

section \<open>Versioned repositories\<close>

locale versioned_repo =
  fixes read :: "'k \<Rightarrow> 's \<Rightarrow> 'v result"
    and store :: "'v \<Rightarrow> int \<Rightarrow> 's \<Rightarrow> 's result"
    and key :: "'v \<Rightarrow> 'k"
    and version :: "'v \<Rightarrow> int"
  assumes stored: "store v e s = Inr t \<Longrightarrow> \<exists>w. read (key v) s = Inr w \<and> version w = e"
    and read_back: "store v e s = Inr t \<Longrightarrow> read k t = (if k = key v then Inr v else read k s)"
    and accepted: "read (key v) s = Inr w \<Longrightarrow> version w = e \<Longrightarrow> \<exists>t. store v e s = Inr t"
    and stale: "read (key v) s = Inr w \<Longrightarrow> version w \<noteq> e \<Longrightarrow> store v e s = Inl ErrConflict"
begin

text \<open>
  Two writers prepared their rows from the same version: whoever is second is refused, whatever
  it wants to write, as long as the first one moved the version on.
\<close>

lemma second_writer_refused:
  assumes "store v e s = Inr t" and "key w = key v" and "version v \<noteq> e"
  shows "store w e t = Inl ErrConflict"
  using read_back [OF assms(1), of "key w"] assms(2,3) by (intro stale) auto

lemma read_own_write: "store v e s = Inr t \<Longrightarrow> read (key v) t = Inr v"
  using read_back by simp

lemma other_rows_kept: "store v e s = Inr t \<Longrightarrow> k \<noteq> key v \<Longrightarrow> read k t = read k s"
  using read_back by simp

end

interpretation invoice_repo: versioned_repo get_invoice update_invoice inv_id inv_version
  by unfold_locales
    (auto simp: get_invoice_def update_invoice_def result_simps fetch_def versioned_put_def)

interpretation auction_repo: versioned_repo get_auction update_auction auc_id auc_version
  by unfold_locales
    (auto simp: get_auction_def update_auction_def result_simps fetch_def versioned_put_def)

interpretation bid_repo: versioned_repo get_bid update_bid bid_id bid_version
  by unfold_locales
    (auto simp: get_bid_def update_bid_def result_simps fetch_def versioned_put_def)

interpretation settlement_repo: versioned_repo get_settlement update_settlement stl_id stl_version
  by unfold_locales
    (auto simp: get_settlement_def update_settlement_def result_simps fetch_def versioned_put_def)

interpretation organization_repo:
    versioned_repo get_organization update_organization org_id org_version
  by unfold_locales
    (auto simp: get_organization_def update_organization_def result_simps fetch_def versioned_put_def)

section \<open>Transactions\<close>

lemma in_tx_Inr:
  "in_tx body s = (Inr a, t) \<longleftrightarrow> body s = Inr (a, t) \<and> db_fail_commit t = None"
  by (auto simp: in_tx_def split: sum.splits prod.splits option.splits)

lemma in_tx_Inl: "in_tx body s = (Inl e, t) \<Longrightarrow> t = rollback s"
  by (auto simp: in_tx_def split: sum.splits prod.splits option.splits)

section \<open>The constraints of the schema\<close>

text \<open>
  The writes the program makes. A row that is written back was read from its table and moved on by
  commands of its aggregate; everything else is a creation the repository checks.
\<close>

inductive store_step :: "(string \<Rightarrow> string) \<Rightarrow> 'd store \<Rightarrow> 'd store \<Rightarrow> bool" for H where
  step_create_organization: "create_organization g s = Inr t \<Longrightarrow> store_step H s t"
| step_organization: "get_organization i s = Inr g \<Longrightarrow> reaches org_exec g g' \<Longrightarrow>
    update_organization g' e s = Inr t \<Longrightarrow> store_step H s t"
| step_create_invoice: "create_invoice H v s = Inr t \<Longrightarrow> store_step H s t"
| step_invoice: "get_invoice i s = Inr v \<Longrightarrow> reaches inv_exec v v' \<Longrightarrow>
    update_invoice v' e s = Inr t \<Longrightarrow> store_step H s t"
| step_document: "store_step H s (save_document d s)"
| step_assessment: "store_step H s (save_assessment am s)"
| step_explanation: "save_explanation ex s = Inr t \<Longrightarrow> store_step H s t"
| step_snapshot: "store_step H s (save_snapshot sn s)"
| step_create_asset: "create_asset a s = Inr t \<Longrightarrow> store_step H s t"
| step_asset: "get_asset i s = Inr a \<Longrightarrow> reaches asset_exec a a' \<Longrightarrow> update_asset a' s = Inr t \<Longrightarrow>
    store_step H s t"
| step_create_auction: "distinct (map lot_asset_id (auc_lots c)) \<Longrightarrow> create_auction c s = Inr t \<Longrightarrow>
    store_step H s t"
| step_auction: "get_auction i s = Inr c \<Longrightarrow> reaches auc_exec c c' \<Longrightarrow>
    update_auction c' e s = Inr t \<Longrightarrow> store_step H s t"
| step_create_bid: "store_step H s (create_bid b s)"
| step_bid: "update_bid b e s = Inr t \<Longrightarrow> store_step H s t"
| step_solution: "save_solution so s = Inr t \<Longrightarrow> store_step H s t"
| step_create_settlement: "create_settlement x s = Inr t \<Longrightarrow> store_step H s t"
| step_settlement: "get_settlement i s = Inr x \<Longrightarrow> reaches stl_exec x x' \<Longrightarrow>
    update_settlement x' e s = Inr t \<Longrightarrow> store_step H s t"
| step_repayment: "create_repayment r s = Inr t \<Longrightarrow> store_step H s t"
| step_blob: "store_step H s (put_blob bl s)"
| step_event: "record_event v s = Inr t \<Longrightarrow> store_step H s t"
| step_command: "publish_command topic p trace now s = Inr t \<Longrightarrow> store_step H s t"
| step_challenge: "store_step H s (save_challenge ch s)"
| step_consume: "consume_challenge ch s = Inr t \<Longrightarrow> store_step H s t"
| step_purge: "store_step H s (snd (delete_expired_challenges now s))"
| step_session: "store_step H s (save_session se s)"
| step_revoke: "store_step H s (revoke_session se s)"
| step_rollback: "store_step H s (rollback s)"

definition same_wallet :: "organization \<Rightarrow> organization \<Rightarrow> bool" where
  "same_wallet g h \<longleftrightarrow> org_wallet g = org_wallet h"

definition financed_twice :: "(string \<Rightarrow> string) \<Rightarrow> invoice \<Rightarrow> invoice \<Rightarrow> bool" where
  "financed_twice H v w \<longleftrightarrow> \<not> inv_terminal (inv_status v) \<and> \<not> inv_terminal (inv_status w) \<and>
     inv_fingerprint H v = inv_fingerprint H w"

definition same_receivable :: "asset \<Rightarrow> asset \<Rightarrow> bool" where
  "same_receivable a b \<longleftrightarrow> tk_invoice_id a = tk_invoice_id b"

definition share_an_asset :: "auction \<Rightarrow> auction \<Rightarrow> bool" where
  "share_an_asset c d \<longleftrightarrow> lot_asset_id ` set (auc_lots c) \<inter> lot_asset_id ` set (auc_lots d) \<noteq> {}"

definition same_transfer :: "settlement \<Rightarrow> settlement \<Rightarrow> bool" where
  "same_transfer x y \<longleftrightarrow> stl_operation_id x = stl_operation_id y \<or>
     (stl_auction_id x = stl_auction_id y \<and> stl_lot_id x = stl_lot_id y \<and> stl_bid_id x = stl_bid_id y)"

definition store_keyed :: "'d store \<Rightarrow> bool" where
  "store_keyed s \<longleftrightarrow> keyed org_id (db_organizations s) \<and> keyed ch_nonce (db_challenges s) \<and>
     keyed se_token_hash (db_sessions s) \<and> keyed inv_id (db_invoices s) \<and>
     keyed am_id (db_assessments s) \<and> keyed tk_id (db_assets s) \<and> keyed auc_id (db_auctions s) \<and>
     keyed bid_id (db_bids s) \<and> keyed sol_auction_id (db_solutions s) \<and>
     keyed stl_id (db_settlements s) \<and> keyed rp_invoice_id (db_repayments s)"

definition store_unique :: "(string \<Rightarrow> string) \<Rightarrow> 'd store \<Rightarrow> bool" where
  "store_unique H s \<longleftrightarrow> apart same_wallet (db_organizations s) \<and>
     apart (financed_twice H) (db_invoices s) \<and> apart same_receivable (db_assets s) \<and>
     apart share_an_asset (db_auctions s) \<and> apart same_transfer (db_settlements s) \<and>
     (\<forall>i c. map_of (db_auctions s) i = Some c \<longrightarrow> distinct (map lot_asset_id (auc_lots c)))"

lemmas repository_defs = create_organization_def update_organization_def create_invoice_def
  update_invoice_def save_document_def save_assessment_def save_explanation_def save_snapshot_def
  create_asset_def update_asset_def create_auction_def update_auction_def create_bid_def
  update_bid_def save_solution_def create_settlement_def update_settlement_def create_repayment_def
  put_blob_def record_event_def publish_command_def save_challenge_def consume_challenge_def
  delete_expired_challenges_def save_session_def revoke_session_def rollback_def

lemmas get_defs = get_organization_def get_invoice_def get_asset_def get_auction_def get_bid_def
  get_settlement_def get_solution_def get_repayment_by_invoice_def

lemma conflicts_symmetric:
  "symp same_wallet" "symp (financed_twice H)" "symp same_receivable" "symp share_an_asset"
  "symp same_transfer"
  by (auto simp: symp_def same_wallet_def financed_twice_def same_receivable_def same_transfer_def)
    (simp add: symp_def share_an_asset_def Int_commute)

lemma store_keyed_step: "store_step H s t \<Longrightarrow> store_keyed s \<Longrightarrow> store_keyed t"
  by (induction rule: store_step.induct)
    (auto simp: store_keyed_def repository_defs result_simps keyed_filter Let_def split: option.splits)

text \<open>The facts of a row that no command of its aggregate changes.\<close>

lemma reaches_same:
  assumes "reaches exec a b" and "\<And>c x y. exec c x = Inr y \<Longrightarrow> f y = f x" shows "f b = f a"
  by (rule reaches_invariant [OF assms(1)]) (use assms(2) in auto)

lemma advanced_facts:
  "reaches org_exec g g' \<Longrightarrow> org_identity g' = org_identity g"
  "reaches inv_exec v v' \<Longrightarrow> inv_terms v' = inv_terms v"
  "reaches asset_exec a a' \<Longrightarrow> asset_terms a' = asset_terms a"
  "reaches auc_exec c c' \<Longrightarrow> auc_facts c' = auc_facts c"
  "reaches stl_exec x x' \<Longrightarrow> stl_plan x' = stl_plan x"
  by (erule reaches_same; blast intro: org_exec_identity inv_exec_terms asset_exec_Inr(2)
      auc_exec_facts stl_exec_plan)+

lemma live_before: "reaches inv_exec v v' \<Longrightarrow> \<not> inv_terminal (inv_status v') \<Longrightarrow> \<not> inv_terminal (inv_status v)"
  using inv.terminal_reaches [of v v'] by (auto simp: inv_terminal_def inv_can_transition_def)

lemma apart_create:
  assumes "apart R t" and "symp R" and "\<not> list_ex (R v) (table_rows t)"
  shows "apart R (table_put k v t)"
proof (rule apart_put [OF assms(1,2)])
  fix k' v'
  assume "map_of t k' = Some v'"
  then show "\<not> R v v'" using assms(3) by (force simp: list_ex_iff table_rows_def dest: map_of_SomeD)
qed

lemma create_checks:
  "create_organization g s = Inr t \<Longrightarrow> \<not> list_ex (same_wallet g) (table_rows (db_organizations s))"
  "create_invoice H v s = Inr t \<Longrightarrow> \<not> list_ex (financed_twice H v) (table_rows (db_invoices s))"
  "create_asset a s = Inr t \<Longrightarrow> \<not> list_ex (same_receivable a) (table_rows (db_assets s))"
  "create_auction c s = Inr t \<Longrightarrow> \<not> list_ex (share_an_asset c) (table_rows (db_auctions s))"
  "create_settlement x s = Inr t \<Longrightarrow> \<not> list_ex (same_transfer x) (table_rows (db_settlements s))"
  by (auto simp: create_organization_def create_invoice_def create_asset_def create_settlement_def
      create_auction_def auctioned_assets_def list_ex_iff same_wallet_def financed_twice_def
      same_receivable_def same_transfer_def share_an_asset_def split: if_splits)

lemma advanced_conflicts:
  "reaches org_exec g g' \<Longrightarrow> same_wallet g' h \<Longrightarrow> same_wallet g h"
  "reaches inv_exec v v' \<Longrightarrow> financed_twice H v' w \<Longrightarrow> financed_twice H v w"
  "reaches asset_exec a a' \<Longrightarrow> same_receivable a' b \<Longrightarrow> same_receivable a b"
  "reaches auc_exec c c' \<Longrightarrow> share_an_asset c' d \<Longrightarrow> share_an_asset c d"
  "reaches stl_exec x x' \<Longrightarrow> same_transfer x' y \<Longrightarrow> same_transfer x y"
  using advanced_facts live_before
  by (auto simp: same_wallet_def org_identity_def financed_twice_def inv_fingerprint_def
      inv_terms_def same_receivable_def asset_terms_def share_an_asset_def auc_facts_def
      same_transfer_def stl_plan_def)

lemma store_unique_step:
  assumes "store_step H s t" and "store_keyed s" and "store_unique H s" shows "store_unique H t"
  using assms
proof (induction rule: store_step.induct)
  case (step_create_organization g s t)
  then show ?case
    using apart_create [OF _ conflicts_symmetric(1) create_checks(1) [OF step_create_organization(1)]]
    by (auto simp: store_unique_def create_organization_def split: if_splits)
next
  case (step_organization i s g g' e t)
  have "org_id g' = i"
    using keyed_lookup [of org_id "db_organizations s" i g] advanced_facts(1) [OF step_organization(2)] step_organization.prems step_organization(1)
    by (auto simp: store_keyed_def get_defs result_simps org_identity_def)
  then show ?case
    using apart_advance [where R = "same_wallet" and v = g' and w = g and k = i, OF _ conflicts_symmetric(1) _
        advanced_conflicts(1) [OF step_organization(2)]] step_organization.prems step_organization(1,3) advanced_facts(1) [OF step_organization(2)]
    by (auto simp: store_unique_def update_organization_def get_defs result_simps)
next
  case (step_create_invoice v s t)
  then show ?case
    using apart_create [OF _ conflicts_symmetric(2) create_checks(2) [OF step_create_invoice(1)]]
    by (auto simp: store_unique_def create_invoice_def split: if_splits)
next
  case (step_invoice i s v v' e t)
  have "inv_id v' = i"
    using keyed_lookup [of inv_id "db_invoices s" i v] advanced_facts(2) [OF step_invoice(2)] step_invoice.prems step_invoice(1)
    by (auto simp: store_keyed_def get_defs result_simps inv_terms_def)
  then show ?case
    using apart_advance [where R = "financed_twice H" and v = v' and w = v and k = i, OF _ conflicts_symmetric(2) _
        advanced_conflicts(2) [OF step_invoice(2)]] step_invoice.prems step_invoice(1,3) advanced_facts(2) [OF step_invoice(2)]
    by (auto simp: store_unique_def update_invoice_def get_defs result_simps)
next
  case (step_create_asset a s t)
  then show ?case
    using apart_create [OF _ conflicts_symmetric(3) create_checks(3) [OF step_create_asset(1)]]
    by (auto simp: store_unique_def create_asset_def split: if_splits)
next
  case (step_asset i s a a' t)
  have "tk_id a' = i"
    using keyed_lookup [of tk_id "db_assets s" i a] advanced_facts(3) [OF step_asset(2)] step_asset.prems step_asset(1)
    by (auto simp: store_keyed_def get_defs result_simps asset_terms_def)
  then show ?case
    using apart_advance [where R = "same_receivable" and v = a' and w = a and k = i, OF _ conflicts_symmetric(3) _
        advanced_conflicts(3) [OF step_asset(2)]] step_asset.prems step_asset(1,3) advanced_facts(3) [OF step_asset(2)]
    by (auto simp: store_unique_def update_asset_def get_defs result_simps)
next
  case (step_create_auction c s t)
  then show ?case
    using apart_create [OF _ conflicts_symmetric(4) create_checks(4) [OF step_create_auction(2)]]
    by (auto simp: store_unique_def create_auction_def split: if_splits)
next
  case (step_auction i s c c' e t)
  have "auc_id c' = i"
    using keyed_lookup [of auc_id "db_auctions s" i c] advanced_facts(4) [OF step_auction(2)] step_auction.prems step_auction(1)
    by (auto simp: store_keyed_def get_defs result_simps auc_facts_def split: if_splits)
  then show ?case
    using apart_advance [where R = "share_an_asset" and v = c' and w = c and k = i, OF _ conflicts_symmetric(4) _
        advanced_conflicts(4) [OF step_auction(2)]] step_auction.prems step_auction(1,3) advanced_facts(4) [OF step_auction(2)]
    by (auto simp: store_unique_def update_auction_def get_defs result_simps auc_facts_def split: if_splits)
next
  case (step_create_settlement x s t)
  then show ?case
    using apart_create [OF _ conflicts_symmetric(5) create_checks(5) [OF step_create_settlement(1)]]
    by (auto simp: store_unique_def create_settlement_def split: if_splits)
next
  case (step_settlement i s x x' e t)
  have "stl_id x' = i"
    using keyed_lookup [of stl_id "db_settlements s" i x] advanced_facts(5) [OF step_settlement(2)] step_settlement.prems step_settlement(1)
    by (auto simp: store_keyed_def get_defs result_simps stl_plan_def)
  then show ?case
    using apart_advance [where R = "same_transfer" and v = x' and w = x and k = i, OF _ conflicts_symmetric(5) _
        advanced_conflicts(5) [OF step_settlement(2)]] step_settlement.prems step_settlement(1,3) advanced_facts(5) [OF step_settlement(2)]
    by (auto simp: store_unique_def update_settlement_def get_defs result_simps)
qed (auto simp: store_unique_def repository_defs result_simps Let_def split: option.splits if_splits)

section \<open>Properties\<close>

text \<open>In every store the program's writes lead to, starting from an empty one and with failed
  transactions anywhere in between, the constraints of the schema hold: one organization per wallet, one live
  invoice per set of terms, one asset per receivable, no asset in two batches or twice in one, and one
  settlement per operation and per allocation.\<close>

theorem storage_constraints_hold:
  assumes "(store_step H)\<^sup>*\<^sup>* empty_store s"
  shows "store_keyed s \<and> store_unique H s"
  using assms
proof (induction rule: rtranclp_induct)
  case base
  show ?case by (simp add: store_keyed_def store_unique_def empty_store_def)
next
  case (step s t)
  then show ?case using store_keyed_step store_unique_step by blast
qed

definition sample_organization :: organization where
  "sample_organization = \<lparr>org_id = 1, org_type = OrgIssuer, org_name = ''Acme'', org_wallet = ''0xaa'',
     org_eligibility = EligPending, org_reason = [], org_chain_account = [], org_version = 1,
     org_created_at = 1, org_updated_at = 1\<rparr>"

theorem storage_constraints_hold_witness:
  "\<exists>s t :: rat store. create_organization sample_organization empty_store = Inr s \<and>
     update_organization (org_touch 2 (sample_organization\<lparr>org_eligibility := EligEligible, org_reason := []\<rparr>)) 1 s =
       Inr t \<and> store_unique id t \<and>
     create_organization (sample_organization\<lparr>org_id := 2\<rparr>) t = Inl ErrConflict"
proof -
  let ?g = "org_touch 2 (sample_organization\<lparr>org_eligibility := EligEligible, org_reason := []\<rparr>)"
  obtain s :: "rat store" where s: "create_organization sample_organization empty_store = Inr s"
    "db_organizations s = [(1, sample_organization)]"
    by (simp add: create_organization_def empty_store_def sample_organization_def table_rows_def table_put_def)
  obtain t where t: "update_organization ?g 1 s = Inr t" "db_organizations t = [(1, ?g)]"
    using s(2) by (simp add: update_organization_def versioned_put_def fetch_def table_put_def
        sample_organization_def org_touch_def)
  have "org_exec (OrgApprove 2) sample_organization = Inr ?g"
    by (simp add: org_approve_def sample_organization_def)
  then have "reaches org_exec sample_organization ?g" by (blast intro: reaches.intros)
  then have "store_step id s t"
    using s(2) by (intro step_organization [OF _ _ t(1)]) (simp_all add: get_organization_def fetch_def)
  then have "(store_step id)\<^sup>*\<^sup>* empty_store t"
    using step_create_organization [OF s(1), where H = id]
    by (meson converse_rtranclp_into_rtranclp r_into_rtranclp)
  then have "store_unique id t" using storage_constraints_hold by blast
  then show ?thesis
    using s(1) t by (auto simp: create_organization_def table_rows_def sample_organization_def org_touch_def)
qed

text \<open>C15: No update is lost. When two writers read the same row and each applied commands of the program to
  it, at least one each, the first write is stored and read back, and the second is refused as a conflict; for
  invoices and for settlements.\<close>

theorem no_update_is_lost:
  assumes "reaches inv_exec v v1" and "v1 \<noteq> v" and "reaches inv_exec v v2"
    and "update_invoice v1 (inv_version v) s = Inr t"
    and "reaches stl_exec x x1" and "x1 \<noteq> x" and "reaches stl_exec x x2"
    and "update_settlement x1 (stl_version x) u = Inr w"
  shows "get_invoice (inv_id v) t = Inr v1 \<and> update_invoice v2 (inv_version v) t = Inl ErrConflict \<and>
    get_settlement (stl_id x) w = Inr x1 \<and> update_settlement x2 (stl_version x) w = Inl ErrConflict"
proof -
  have key: "inv_id v1 = inv_id v" "inv_id v2 = inv_id v" "stl_id x1 = stl_id x" "stl_id x2 = stl_id x"
    using advanced_facts(2) [OF assms(1)] advanced_facts(2) [OF assms(3)]
      advanced_facts(5) [OF assms(5)] advanced_facts(5) [OF assms(7)]
    by (simp_all add: inv_terms_def stl_plan_def)
  have "inv_version v1 \<noteq> inv_version v"
    using inv.version_names_state [OF assms(1)] assms(2) by blast
  moreover have "stl_version x1 \<noteq> stl_version x"
    using stl.version_names_state [OF assms(5)] assms(6) by blast
  ultimately show ?thesis
    using invoice_repo.read_own_write [OF assms(4)] settlement_repo.read_own_write [OF assms(8)]
      invoice_repo.second_writer_refused [OF assms(4), of v2]
      settlement_repo.second_writer_refused [OF assms(8), of x2] key by simp
qed

definition sample_store :: "rat store" where
  "sample_store = empty_store\<lparr>db_invoices := [(1, sample_invoice)],
     db_settlements := [(8, sample_settlement 8 20)]\<rparr>"

theorem no_update_is_lost_witness:
  "\<exists>v1 x1 t w. update_invoice v1 1 sample_store = Inr t \<and> update_settlement x1 1 sample_store = Inr w \<and>
     update_invoice v1 1 t = Inl ErrConflict \<and> update_settlement x1 1 w = Inl ErrConflict"
proof -
  let ?v = sample_invoice
  let ?x = "sample_settlement 8 20"
  obtain v1 where v1: "inv_exec (MarkUploaded 6) ?v = Inr v1" "inv_version v1 = 2" "inv_id v1 = 1"
    by (simp add: mark_uploaded_def inv_transition_def inv_can_transition_def sample_invoice_def)
  have trim: "trim_space ''tx'' = ''tx''" by (rule trim_space_visible) (simp add: visible_char_def)
  obtain x1 where x1: "stl_exec (StlSubmit ''tx'' 21) ?x = Inr x1" "stl_version x1 = 2" "stl_id x1 = 8"
    using trim by (simp add: stl_submit_def stl_transition_def stl_can_transition_def stl_touch_def
        sample_settlement_def)
  obtain t where t: "update_invoice v1 1 sample_store = Inr t"
    using v1(3) by (simp add: update_invoice_def versioned_put_def fetch_def sample_store_def sample_invoice_def)
  obtain w where w: "update_settlement x1 1 sample_store = Inr w"
    using x1(3) by (simp add: update_settlement_def versioned_put_def fetch_def sample_store_def
        sample_settlement_def)
  have r: "reaches inv_exec ?v v1" "reaches stl_exec ?x x1"
    using v1(1) x1(1) by (blast intro: reaches.intros)+
  have ne: "v1 \<noteq> ?v" "x1 \<noteq> ?x" using v1(2) x1(2) by (auto simp: sample_invoice_def sample_settlement_def)
  have ver: "inv_version ?v = 1" "stl_version ?x = 1"
    by (simp_all add: sample_invoice_def sample_settlement_def)
  show ?thesis
    using no_update_is_lost [OF r(1) ne(1) r(1) _ r(2) ne(2) r(2)] t w unfolding ver by blast
qed



end
