(* ===== verification/Dispatch.thy ===== *)
theory Dispatch
  imports Store_Facts
begin

text \<open>
  \<^verbatim>\<open>internal/platform/outbox\<close>: the queries over the outbox table and the dispatcher
  that claims due rows, runs their handlers and stores what came of each. A handler takes the row, the store
  and the state of the outside world. The clock is read once for the claim and once per row; the float
  expression that spreads a delay is a function of the delay. \<open>ctx\<close> tells whether the context was
  cancelled before a row.
\<close>

section \<open>Queries\<close>

definition fetch_limit :: "int \<Rightarrow> nat" where
  "fetch_limit limit = (if limit \<le> 0 \<or> limit > 500 then 50 else nat limit)"

definition due_before :: "outbox_row \<Rightarrow> outbox_row \<Rightarrow> bool" where
  "due_before x y \<longleftrightarrow>
    (if ob_available_at x \<noteq> ob_available_at y then ob_available_at x < ob_available_at y else ob_id x < ob_id y)"

definition is_due :: "instant \<Rightarrow> outbox_row \<Rightarrow> bool" where
  "is_due now r \<longleftrightarrow> ob_delivered_at r = None \<and> ob_available_at r \<le> now"

definition fetch_due :: "int \<Rightarrow> instant \<Rightarrow> outbox_table \<Rightarrow> outbox_row list" where
  "fetch_due limit now t = take (fetch_limit limit) (sort_by due_before (filter (is_due now) (ot_rows t)))"

text \<open>An update of the undelivered row with an id, and the number of rows it affected.\<close>

definition is_pending :: "int \<Rightarrow> outbox_row \<Rightarrow> bool" where
  "is_pending i r \<longleftrightarrow> ob_id r = i \<and> ob_delivered_at r = None"

definition update_pending :: "int \<Rightarrow> (outbox_row \<Rightarrow> outbox_row) \<Rightarrow> outbox_table \<Rightarrow> outbox_table \<times> nat" where
  "update_pending i change t =
    (t\<lparr>ot_rows := map (\<lambda>r. if is_pending i r then change r else r) (ot_rows t)\<rparr>,
     length (filter (is_pending i) (ot_rows t)))"

definition delivered_row :: "instant \<Rightarrow> outbox_row \<Rightarrow> outbox_row" where
  "delivered_row now r = r\<lparr>ob_delivered_at := Some now, ob_attempts := ob_attempts r + 1, ob_last_error := []\<rparr>"

definition mark_delivered :: "int \<Rightarrow> instant \<Rightarrow> outbox_table \<Rightarrow> outbox_table result" where
  "mark_delivered i now t =
    (case update_pending i (delivered_row now) t of (u, affected) \<Rightarrow> if affected = 0 then Inl ErrConflict else Inr u)"

definition max_outbox_error :: nat where "max_outbox_error = 500"

definition truncate_error :: "string \<Rightarrow> string" where
  "truncate_error reason =
    (if length reason \<le> max_outbox_error then reason else take max_outbox_error reason @ ''...'')"

definition failed_row :: "string \<Rightarrow> instant \<Rightarrow> outbox_row \<Rightarrow> outbox_row" where
  "failed_row reason next r =
    r\<lparr>ob_attempts := ob_attempts r + 1, ob_last_error := truncate_error reason, ob_available_at := next\<rparr>"

definition reschedule :: "int \<Rightarrow> string \<Rightarrow> instant \<Rightarrow> outbox_table \<Rightarrow> outbox_table" where
  "reschedule i reason next t = fst (update_pending i (failed_row reason next) t)"

definition retry_event :: "int \<Rightarrow> instant \<Rightarrow> outbox_table \<Rightarrow> outbox_table result" where
  "retry_event i now t =
    (case update_pending i (\<lambda>r. r\<lparr>ob_available_at := now, ob_attempts := 0, ob_last_error := []\<rparr>) t of
       (u, affected) \<Rightarrow> if affected = 0 then Inl ErrNotFound else Inr u)"

definition list_parked :: "int \<Rightarrow> int \<Rightarrow> outbox_table \<Rightarrow> outbox_row list" where
  "list_parked min_attempts limit t =
    take (fetch_limit limit) (sort_by (\<lambda>x y. ob_id x < ob_id y)
      (filter (\<lambda>r. ob_delivered_at r = None \<and> ob_attempts r \<ge> min_attempts) (ot_rows t)))"

section \<open>Waiting\<close>

record backoff =
  bo_base :: int
  bo_max :: int
  bo_jitter :: "(int \<Rightarrow> int) option"

fun doubled_delay :: "nat \<Rightarrow> int \<Rightarrow> int \<Rightarrow> int" where
  "doubled_delay 0 cap d = d"
| "doubled_delay (Suc n) cap d = (let d' = wrap64 (d * 2) in if d' \<ge> cap then cap else doubled_delay n cap d')"

definition backoff_delay :: "backoff \<Rightarrow> int \<Rightarrow> int" where
  "backoff_delay b attempts =
    (let delay = doubled_delay (nat attempts) (bo_max b) (bo_base b)
     in case bo_jitter b of
          None \<Rightarrow> delay
        | Some spread \<Rightarrow> let jittered = spread delay in if jittered < 0 then 0 else jittered)"

record dispatcher_config =
  dc_batch_size :: int
  dc_max_attempts :: int
  dc_park_for :: int
  dc_backoff :: backoff

definition new_dispatcher :: "dispatcher_config \<Rightarrow> dispatcher_config" where
  "new_dispatcher c =
    (let c1 = if dc_batch_size c \<le> 0 then c\<lparr>dc_batch_size := 50\<rparr> else c;
         c2 = if dc_max_attempts c1 \<le> 0 then c1\<lparr>dc_max_attempts := 3\<rparr> else c1
     in if dc_park_for c2 \<le> 0 then c2\<lparr>dc_park_for := hours 24\<rparr> else c2)"

section \<open>Delivering\<close>

type_synonym ('d, 'n) handler = "outbox_row \<Rightarrow> 'd store \<times> 'n \<Rightarrow> unit result \<times> 'd store \<times> 'n"

definition register_handler ::
  "string \<Rightarrow> ('d, 'n) handler \<Rightarrow> (string \<rightharpoonup> ('d, 'n) handler) \<Rightarrow> (string \<rightharpoonup> ('d, 'n) handler) result" where
  "register_handler topic h hs = (if hs topic \<noteq> None then Inl Panic else Inr (hs(topic \<mapsto> h)))"

record pass_result =
  pr_claimed :: nat
  pr_delivered :: nat
  pr_failed :: nat
  pr_parked :: nat

text \<open>The cause is stored with the next time; a failure to store it is dropped.\<close>

definition record_delivery_failure ::
  "dispatcher_config \<Rightarrow> instant \<Rightarrow> outbox_row \<Rightarrow> string \<Rightarrow> pass_result \<Rightarrow> 'd store \<Rightarrow> pass_result \<times> 'd store" where
  "record_delivery_failure c now event cause res s =
    (let parks = ob_attempts event + 1 \<ge> dc_max_attempts c;
         delay = if parks then dc_park_for c else backoff_delay (dc_backoff c) (ob_attempts event);
         res1 = if parks then res\<lparr>pr_parked := pr_parked res + 1\<rparr> else res
     in (res1\<lparr>pr_failed := pr_failed res1 + 1\<rparr>,
         snd (in_tx (\<lambda>s. Inr ((), s\<lparr>db_outbox := reschedule (ob_id event) cause (now + delay) (db_outbox s)\<rparr>)) s)))"

definition unhandled_topic :: "string \<Rightarrow> string" where
  "unhandled_topic topic = ''outbox: no handler registered for topic: '' @ topic"

definition deliver ::
  "(app_error \<Rightarrow> string) \<Rightarrow> dispatcher_config \<Rightarrow> (string \<rightharpoonup> ('d, 'n) handler) \<Rightarrow> instant \<Rightarrow> outbox_row \<Rightarrow>
    pass_result \<Rightarrow> 'd store \<times> 'n \<Rightarrow> pass_result result \<times> 'd store \<times> 'n" where
  "deliver err_text c hs now event res = (\<lambda>(s, n).
    case hs (ob_topic event) of
      None \<Rightarrow> (let (res', t) = record_delivery_failure c now event (unhandled_topic (ob_topic event)) res s
               in (Inr res', t, n))
    | Some h \<Rightarrow>
        (case h event (s, n) of
           (Inl e, t, n') \<Rightarrow>
             (let (res', u) = record_delivery_failure c now event (err_text e) res t in (Inr res', u, n'))
         | (Inr _, t, n') \<Rightarrow>
             (case in_tx (\<lambda>s. and_then (mark_delivered (ob_id event) now (db_outbox s)) (\<lambda>o'. Inr ((), s\<lparr>db_outbox := o'\<rparr>))) t of
                (Inl e, u) \<Rightarrow> (Inl e, u, n')
              | (Inr _, u) \<Rightarrow> (Inr (res\<lparr>pr_delivered := pr_delivered res + 1\<rparr>), u, n'))))"

text \<open>The loop over the claimed rows: the counts so far, and the error that stopped it.\<close>

fun deliver_all ::
  "(app_error \<Rightarrow> string) \<Rightarrow> dispatcher_config \<Rightarrow> (string \<rightharpoonup> ('d, 'n) handler) \<Rightarrow> (nat \<Rightarrow> instant) \<Rightarrow>
    (nat \<Rightarrow> app_error option) \<Rightarrow> nat \<Rightarrow> outbox_row list \<Rightarrow> pass_result \<Rightarrow> 'd store \<times> 'n \<Rightarrow>
    (pass_result \<times> app_error option) \<times> 'd store \<times> 'n" where
  "deliver_all err_text c hs clock ctx k [] res sn = ((res, None), sn)"
| "deliver_all err_text c hs clock ctx k (event # rest) res sn =
    (case ctx k of
       Some e \<Rightarrow> ((res, Some e), sn)
     | None \<Rightarrow>
         (case deliver err_text c hs (clock (Suc k)) event res sn of
            (Inl e, sn') \<Rightarrow> ((res, Some e), sn')
          | (Inr res', sn') \<Rightarrow> deliver_all err_text c hs clock ctx (Suc k) rest res' sn'))"

definition run_once ::
  "(app_error \<Rightarrow> string) \<Rightarrow> dispatcher_config \<Rightarrow> (string \<rightharpoonup> ('d, 'n) handler) \<Rightarrow> (nat \<Rightarrow> instant) \<Rightarrow>
    (nat \<Rightarrow> app_error option) \<Rightarrow> 'd store \<times> 'n \<Rightarrow> (pass_result \<times> app_error option) \<times> 'd store \<times> 'n" where
  "run_once err_text c hs clock ctx = (\<lambda>(s, n).
    case in_tx (\<lambda>s. Inr (fetch_due (dc_batch_size c) (clock 0) (db_outbox s), s)) s of
      (Inl e, t) \<Rightarrow> ((\<lparr>pr_claimed = 0, pr_delivered = 0, pr_failed = 0, pr_parked = 0\<rparr>, Some e), t, n)
    | (Inr claimed, t) \<Rightarrow>
        deliver_all err_text c hs clock ctx 0 claimed
          \<lparr>pr_claimed = length claimed, pr_delivered = 0, pr_failed = 0, pr_parked = 0\<rparr> (t, n))"

end
