(* ===== verification/Dispatch_Facts.thy ===== *)
theory Dispatch_Facts
  imports Dispatch
begin

text \<open>
  What a pass of the dispatcher does to the outbox: every claimed row is handed to its handler once, is
  marked delivered when the handler succeeded and rescheduled otherwise, and no row is lost. The delay before the next
  attempt doubles up to its cap. The claim itself writes nothing, so two workers can hold the same rows.
\<close>

section \<open>The delay\<close>

lemma doubled_delay_eq:
  assumes "0 < d" and "d \<le> cap" and "cap < 2 ^ 62"
  shows "doubled_delay n cap d = min cap (d * 2 ^ n)"
  using assms
proof (induction n arbitrary: d)
  case (Suc n)
  have fits: "wrap64 (d * 2) = d * 2" using Suc.prems by (intro wrap64_id) (simp add: in64_def min64_def max64_def)
  show ?case
  proof (cases "cap \<le> d * 2")
    case True
    have "d * 2 * 1 \<le> d * 2 * 2 ^ n" using Suc.prems(1) by (intro mult_left_mono) simp_all
    then show ?thesis using True by (simp add: fits min_def)
  next
    case False
    then have "doubled_delay n cap (d * 2) = min cap (d * 2 * 2 ^ n)" using Suc by simp
    then show ?thesis using False by (simp add: fits)
  qed
qed simp

section \<open>One row\<close>

text \<open>What the dispatcher relies on: a handler leaves the outbox alone and does not break the storage.\<close>

locale delivery =
  fixes hs :: "string \<rightharpoonup> ('d, 'n) handler"
  assumes quiet: "hs topic = Some h \<Longrightarrow> h event (s, n) = (r, t, n') \<Longrightarrow>
    db_outbox t = db_outbox s \<and> db_fail_commit t = db_fail_commit s"

text \<open>Handlers that remember which rows they were given and how they answered.\<close>

definition logged_handlers ::
  "(string \<rightharpoonup> ('d, 'n) handler) \<Rightarrow> (string \<rightharpoonup> ('d, 'n \<times> (int \<times> bool) list) handler)" where
  "logged_handlers hs topic = map_option (\<lambda>h event (s, n, given).
     let (r, t, n') = h event (s, n) in (r, t, n', given @ [(ob_id event, \<not> isl r)])) (hs topic)"

definition wait_before :: "dispatcher_config \<Rightarrow> outbox_row \<Rightarrow> int" where
  "wait_before c r =
    (if ob_attempts r + 1 \<ge> dc_max_attempts c then dc_park_for c else backoff_delay (dc_backoff c) (ob_attempts r))"

definition row_outcome :: "dispatcher_config \<Rightarrow> instant \<Rightarrow> bool \<Rightarrow> outbox_row \<Rightarrow> outbox_row \<Rightarrow> bool" where
  "row_outcome c now ok r r' \<longleftrightarrow>
    (if ok then r' = delivered_row now r else \<exists>reason. r' = failed_row reason (now + wait_before c r) r)"

definition ids_distinct :: "outbox_table \<Rightarrow> bool" where
  "ids_distinct t \<longleftrightarrow> distinct (map ob_id (ot_rows t))"

lemma pending_is_row:
  assumes "ids_distinct t" and "e \<in> set (ot_rows t)" and "ob_delivered_at e = None" and "r \<in> set (ot_rows t)"
  shows "is_pending (ob_id e) r \<longleftrightarrow> r = e"
  using assms by (auto simp: is_pending_def ids_distinct_def distinct_map dest: inj_onD)

lemma update_pending_row:
  assumes "ids_distinct t" and "e \<in> set (ot_rows t)" and "ob_delivered_at e = None"
  shows "ot_rows (fst (update_pending (ob_id e) change t)) = map (\<lambda>r. if r = e then change e else r) (ot_rows t)"
    and "snd (update_pending (ob_id e) change t) \<noteq> 0"
proof -
  show "ot_rows (fst (update_pending (ob_id e) change t)) = map (\<lambda>r. if r = e then change e else r) (ot_rows t)"
    using pending_is_row [OF assms] by (auto simp: update_pending_def)
  have "is_pending (ob_id e) e" using assms(3) by (simp add: is_pending_def)
  then show "snd (update_pending (ob_id e) change t) \<noteq> 0"
    using assms(2) by (auto simp: update_pending_def filter_empty_conv)
qed

text \<open>The table after one row was delivered or failed.\<close>

definition replaced :: "outbox_row \<Rightarrow> outbox_row \<Rightarrow> outbox_table \<Rightarrow> outbox_table \<Rightarrow> bool" where
  "replaced e e' t u \<longleftrightarrow> ot_rows u = map (\<lambda>r. if r = e then e' else r) (ot_rows t)"

lemma record_delivery_failure_effect:
  assumes "record_delivery_failure c now e cause res s = (res', t)" and "ids_distinct (db_outbox s)"
    and "e \<in> set (ot_rows (db_outbox s))" and "ob_delivered_at e = None" and "db_fail_commit s = None"
  shows "db_fail_commit t = None \<and> pr_claimed res' = pr_claimed res \<and> pr_delivered res' = pr_delivered res \<and>
    pr_failed res' = pr_failed res + 1 \<and> pr_parked res \<le> pr_parked res' \<and> pr_parked res' \<le> pr_parked res + 1 \<and>
    (\<exists>e'. row_outcome c now False e e' \<and> replaced e e' (db_outbox s) (db_outbox t))"
  using assms(1,5) update_pending_row(1) [OF assms(2-4)]
  by (auto simp: record_delivery_failure_def Let_def in_tx_def reschedule_def wait_before_def row_outcome_def
      replaced_def split: if_splits)

text \<open>A row after a pass. \<open>oks\<close> is what the handlers answered, in order.\<close>

definition row_after ::
  "dispatcher_config \<Rightarrow> outbox_row list \<Rightarrow> (int \<times> bool) list \<Rightarrow> outbox_row \<Rightarrow> outbox_row \<Rightarrow> bool" where
  "row_after c claimed oks r r' \<longleftrightarrow>
    (if r \<in> set claimed then \<exists>now. row_outcome c now ((ob_id r, True) \<in> set oks) r r' else r' = r)"

context delivery
begin

lemma deliver_effect:
  assumes "deliver err_text c (logged_handlers hs) now e res (s, n, given) = (r, t, n', given')"
    and "ids_distinct (db_outbox s)" and "e \<in> set (ot_rows (db_outbox s))" and "ob_delivered_at e = None"
    and "db_fail_commit s = None"
  shows "\<exists>res' ok. r = Inr res' \<and> db_fail_commit t = None \<and>
    given' = given @ (if hs (ob_topic e) = None then [] else [(ob_id e, ok)]) \<and>
    (hs (ob_topic e) = None \<longrightarrow> \<not> ok) \<and>
    pr_claimed res' = pr_claimed res \<and> pr_delivered res' = pr_delivered res + (if ok then 1 else 0) \<and>
    pr_failed res' = pr_failed res + (if ok then 0 else 1) \<and> pr_parked res' + pr_failed res \<le> pr_parked res + pr_failed res' \<and>
    (\<exists>e'. row_outcome c now ok e e' \<and> replaced e e' (db_outbox s) (db_outbox t))"
proof (cases "hs (ob_topic e)")
  case None
  obtain res' u where failed: "record_delivery_failure c now e (unhandled_topic (ob_topic e)) res s = (res', u)"
    by (metis prod.exhaust)
  then have "r = Inr res'" "t = u" "given' = given"
    using assms(1) None by (auto simp: deliver_def logged_handlers_def)
  then show ?thesis using record_delivery_failure_effect [OF failed assms(2-5)] None by auto
next
  case (Some h)
  obtain hr u m where h: "h e (s, n) = (hr, u, m)" by (metis prod_cases3)
  note same = quiet [OF Some h]
  show ?thesis
  proof (cases hr)
    case (Inl x)
    obtain res' w where failed: "record_delivery_failure c now e (err_text x) res u = (res', w)"
      by (metis prod.exhaust)
    then have "r = Inr res'" "t = w" "given' = given @ [(ob_id e, False)]"
      using assms(1) Some h Inl by (auto simp: deliver_def logged_handlers_def)
    then show ?thesis using record_delivery_failure_effect [OF failed] assms(2-5) same Some by auto
  next
    case (Inr x)
    have "mark_delivered (ob_id e) now (db_outbox s) = Inr (fst (update_pending (ob_id e) (delivered_row now) (db_outbox s)))"
      using update_pending_row(2) [OF assms(2-4), of "delivered_row now"]
      by (auto simp: mark_delivered_def split: prod.splits)
    then have "r = Inr (res\<lparr>pr_delivered := pr_delivered res + 1\<rparr>)" "given' = given @ [(ob_id e, True)]"
      and t: "t = u\<lparr>db_outbox := fst (update_pending (ob_id e) (delivered_row now) (db_outbox s))\<rparr>"
      using assms(1,5) Some h Inr same by (auto simp: deliver_def logged_handlers_def in_tx_def)
    moreover have "replaced e (delivered_row now e) (db_outbox s) (db_outbox t)"
      using update_pending_row(1) [OF assms(2-4)] by (simp add: t replaced_def)
    ultimately show ?thesis using assms(5) same Some by (auto simp: row_outcome_def)
  qed
qed

lemma replaced_keeps:
  assumes "replaced e e' t u" and "ob_id e' = ob_id e" and "ids_distinct t"
  shows "ids_distinct u" and "r \<in> set (ot_rows t) \<Longrightarrow> r \<noteq> e \<Longrightarrow> r \<in> set (ot_rows u)"
proof -
  have "map ob_id (ot_rows u) = map ob_id (ot_rows t)" using assms(1,2) by (simp add: replaced_def)
  then show "ids_distinct u" using assms(3) by (simp add: ids_distinct_def)
  show "r \<in> set (ot_rows t) \<Longrightarrow> r \<noteq> e \<Longrightarrow> r \<in> set (ot_rows u)" using assms(1) by (force simp: replaced_def)
qed

lemma row_outcome_id: "row_outcome c now ok r r' \<Longrightarrow> ob_id r' = ob_id r"
  by (auto simp: row_outcome_def delivered_row_def failed_row_def split: if_splits)

lemma deliver_all_effect:
  assumes "deliver_all err_text c (logged_handlers hs) clock (\<lambda>_. None) k evs res (s, n, given) =
      ((res', err), t, n', given')"
    and "ids_distinct (db_outbox s)" and "set evs \<subseteq> set (ot_rows (db_outbox s))"
    and "\<forall>e \<in> set evs. ob_delivered_at e = None" and "distinct (map ob_id evs)" and "db_fail_commit s = None"
  shows "err = None \<and> pr_claimed res' = pr_claimed res \<and>
    pr_delivered res' + pr_failed res' = pr_delivered res + pr_failed res + length evs \<and>
    pr_parked res' + pr_failed res \<le> pr_parked res + pr_failed res' \<and>
    (\<exists>oks. given' = given @ oks \<and> map fst oks = map ob_id (filter (\<lambda>e. hs (ob_topic e) \<noteq> None) evs) \<and>
      list_all2 (row_after c evs oks) (ot_rows (db_outbox s)) (ot_rows (db_outbox t)))"
  using assms
proof (induction evs arbitrary: k res s n given)
  case Nil
  then show ?case by (auto simp: row_after_def list_all2_same)
next
  case (Cons e evs)
  obtain r u m given1 where step: "deliver err_text c (logged_handlers hs) (clock (Suc k)) e res (s, n, given) =
      (r, u, m, given1)" by (metis prod_cases4)
  have e: "e \<in> set (ot_rows (db_outbox s))" "ob_delivered_at e = None" using Cons.prems(3,4) by auto
  obtain res1 ok e' where one: "r = Inr res1" "db_fail_commit u = None"
      "given1 = given @ (if hs (ob_topic e) = None then [] else [(ob_id e, ok)])" "hs (ob_topic e) = None \<longrightarrow> \<not> ok"
      "pr_claimed res1 = pr_claimed res" "pr_delivered res1 = pr_delivered res + (if ok then 1 else 0)"
      "pr_failed res1 = pr_failed res + (if ok then 0 else 1)"
      "pr_parked res1 + pr_failed res \<le> pr_parked res + pr_failed res1"
    and e': "row_outcome c (clock (Suc k)) ok e e'" "replaced e e' (db_outbox s) (db_outbox u)"
    using deliver_effect [OF step Cons.prems(2) e Cons.prems(6)] by (elim exE conjE) (rule that, assumption+)
  note keeps = replaced_keeps [OF e'(2) row_outcome_id [OF e'(1)] Cons.prems(2)]
  have others: "ob_id e \<notin> ob_id ` set evs" using Cons.prems(5) by simp
  have rest: "deliver_all err_text c (logged_handlers hs) clock (\<lambda>_. None) (Suc k) evs res1 (u, m, given1) =
      ((res', err), t, n', given')" using Cons.prems(1) step one(1) by simp
  have "set evs \<subseteq> set (ot_rows (db_outbox u))" using Cons.prems(3) others keeps(2) by auto
  moreover have "\<forall>e \<in> set evs. ob_delivered_at e = None" "distinct (map ob_id evs)" using Cons.prems(4,5) by auto
  ultimately obtain oks where later: "err = None" "pr_claimed res' = pr_claimed res1"
      "pr_delivered res' + pr_failed res' = pr_delivered res1 + pr_failed res1 + length evs"
      "pr_parked res' + pr_failed res1 \<le> pr_parked res1 + pr_failed res'" "given' = given1 @ oks"
      "map fst oks = map ob_id (filter (\<lambda>e. hs (ob_topic e) \<noteq> None) evs)"
      "list_all2 (row_after c evs oks) (ot_rows (db_outbox u)) (ot_rows (db_outbox t))"
    using Cons.IH [OF rest keeps(1) _ _ _ one(2)] by blast
  let ?oks = "(if hs (ob_topic e) = None then [] else [(ob_id e, ok)]) @ oks"
  have "fst ` set oks \<subseteq> ob_id ` set evs" using later(6) by (metis filter_is_subset image_mono image_set)
  then have fresh: "(ob_id e, b) \<notin> set oks" for b using others by force
  have row: "row_after c (e # evs) ?oks x y" if "row_after c evs oks (if x = e then e' else x) y" "x \<in> set (ot_rows (db_outbox s))" for x y
  proof (cases "x = e")
    case True
    have "e' \<notin> set evs" using others row_outcome_id [OF e'(1)] by (metis image_eqI)
    then have "y = e'" using that True by (simp add: row_after_def)
    moreover have "((ob_id e, True) \<in> set ?oks) = ok" using fresh one(4) by auto
    ultimately show ?thesis using True e'(1) by (auto simp: row_after_def)
  next
    case False
    have "x \<in> set evs \<Longrightarrow> ob_id x \<noteq> ob_id e" using others by (metis image_eqI)
    then show ?thesis using that(1) False by (auto simp: row_after_def)
  qed
  have "list_all2 (row_after c (e # evs) ?oks) (ot_rows (db_outbox s)) (ot_rows (db_outbox t))"
  proof (rule list.rel_mono_strong)
    show "list_all2 (\<lambda>x. row_after c evs oks (if x = e then e' else x)) (ot_rows (db_outbox s)) (ot_rows (db_outbox t))"
      using later(7) e'(2) by (simp add: replaced_def list_all2_map1)
  qed (rule row)
  moreover have "given' = given @ ?oks" using later(5) one(3) by simp
  moreover have "map fst ?oks = map ob_id (filter (\<lambda>e. hs (ob_topic e) \<noteq> None) (e # evs))" using later(6) by simp
  moreover have "pr_parked res' + pr_failed res \<le> pr_parked res + pr_failed res'" using later(4) one(8) by linarith
  moreover have "pr_delivered res' + pr_failed res' = pr_delivered res + pr_failed res + length (e # evs)"
    using later(3) one(6,7) by simp
  ultimately show ?case using later(1,2) one(5) by (intro conjI exI [of _ ?oks]) simp_all
qed

lemma run_once_effect:
  assumes "run_once err_text c (logged_handlers hs) clock (\<lambda>_. None) (s, n, []) = ((res, err), t, n', given)"
    and "ids_distinct (db_outbox s)" and "db_fail_commit s = None"
  defines "claimed \<equiv> fetch_due (dc_batch_size c) (clock 0) (db_outbox s)"
  shows "err = None \<and> pr_claimed res = length claimed \<and> pr_delivered res + pr_failed res = length claimed \<and>
    pr_parked res \<le> pr_failed res \<and>
    map fst given = map ob_id (filter (\<lambda>e. hs (ob_topic e) \<noteq> None) claimed) \<and>
    list_all2 (row_after c claimed given) (ot_rows (db_outbox s)) (ot_rows (db_outbox t))"
proof -
  let ?due = "filter (is_due (clock 0)) (ot_rows (db_outbox s))"
  have sub: "set claimed \<subseteq> set ?due"
    using set_take_subset [of "fetch_limit (dc_batch_size c)" "sort_by due_before ?due"]
    by (simp add: claimed_def fetch_due_def)
  have "distinct (map ob_id (ot_rows (db_outbox s)))" using assms(2) by (simp add: ids_distinct_def)
  then have "distinct (map ob_id ?due)" by (metis distinct_map_filter)
  moreover have "mset (map ob_id (sort_by due_before ?due)) = mset (map ob_id ?due)" by simp
  ultimately have "distinct (map ob_id (sort_by due_before ?due))" by (metis mset_eq_imp_distinct_iff)
  then have d: "distinct (map ob_id claimed)"
    by (simp add: claimed_def fetch_due_def take_map [symmetric] distinct_take)
  have "deliver_all err_text c (logged_handlers hs) clock (\<lambda>_. None) 0 claimed
      \<lparr>pr_claimed = length claimed, pr_delivered = 0, pr_failed = 0, pr_parked = 0\<rparr> (s, n, []) = ((res, err), t, n', given)"
    using assms(1,3) by (simp add: run_once_def in_tx_def claimed_def)
  from deliver_all_effect [OF this assms(2) _ _ d assms(3)] sub show ?thesis
    by (auto simp: is_due_def)
qed

end

end
