(* ===== verification/Explanation.thy ===== *)
theory Explanation
  imports Store
begin

text \<open>
  \<^verbatim>\<open>internal/risk/explanation.go\<close>, and the narrator of
  \<^verbatim>\<open>internal/app/assessment/narrator.go\<close>: words about a price that was decided. A language
  model may narrate an assessment, and what it writes is kept only when every figure in it is one the assessment
  published; otherwise the explanation derived from the stored numbers stays. \<open>rate_text\<close> is the
  text the decimal package gives a rate; the model is a function of the prompt and the state of the outside.
\<close>

section \<open>Figures\<close>

definition decimal_digit :: "char \<Rightarrow> bool" where
  "decimal_digit c \<longleftrightarrow> CHR ''0'' \<le> c \<and> c \<le> CHR ''9''"

text \<open>The leftmost matches of \<^verbatim>\<open>\d[\d,]*(?:\.\d+)?\<close>, one after the other.\<close>

definition figure_run :: "string \<Rightarrow> string" where
  "figure_run s = takeWhile (\<lambda>c. decimal_digit c \<or> c = CHR '','') s"

definition figure_fraction :: "string \<Rightarrow> string" where
  "figure_fraction s =
    (case s of
       [] \<Rightarrow> []
     | c # cs \<Rightarrow> if c = CHR ''.'' \<and> takeWhile decimal_digit cs \<noteq> [] then c # takeWhile decimal_digit cs else [])"

definition first_figure :: "string \<Rightarrow> string" where
  "first_figure s = figure_run s @ figure_fraction (drop (length (figure_run s)) s)"

lemma first_figure_nonempty: "decimal_digit c \<Longrightarrow> first_figure (c # cs) \<noteq> []"
  by (simp add: first_figure_def figure_run_def)

function figures :: "string \<Rightarrow> string list" where
  "figures [] = []"
| "figures (c # cs) =
    (if decimal_digit c then first_figure (c # cs) # figures (drop (length (first_figure (c # cs))) (c # cs))
     else figures cs)"
  by pat_completeness auto
termination
proof (relation "measure length")
  show "(drop (length (first_figure (c # cs))) (c # cs), c # cs) \<in> measure length" if "decimal_digit c" for c cs
    using first_figure_nonempty [OF that, of cs] by (cases "first_figure (c # cs)") auto
qed simp_all

declare figures.simps(2) [simp del]

definition without_commas :: "string \<Rightarrow> string" where
  "without_commas s = filter (\<lambda>c. c \<noteq> CHR '','') s"

section \<open>What an assessment published\<close>

definition trim_right_char :: "char \<Rightarrow> string \<Rightarrow> string" where
  "trim_right_char c s = rev (dropWhile (\<lambda>x. x = c) (rev s))"

definition add_figure :: "string \<Rightarrow> string list" where
  "add_figure v = (let f = trim_space (without_commas v) in if f = [] then [] else [f])"

definition hundredfold :: "'d decimal_ops \<Rightarrow> 'd \<Rightarrow> 'd" where
  "hundredfold D r = d_mul D r (d_of_int D 100)"

definition rate_figures :: "'d decimal_ops \<Rightarrow> ('d \<Rightarrow> string) \<Rightarrow> 'd \<Rightarrow> string list" where
  "rate_figures D rate_text r =
    concat (map add_figure
      [rate_text r, rate_string_fixed D r 2, rate_string_fixed D r 4, rate_text (hundredfold D r),
       rate_string_fixed D (hundredfold D r) 0, rate_string_fixed D (hundredfold D r) 1,
       rate_string_fixed D (hundredfold D r) 2,
       trim_right_char (CHR ''.'') (trim_right_char (CHR ''0'') (rate_string_fixed D (hundredfold D r) 2))])"

text \<open>The text of an amount, which \<^const>\<open>amount_string\<close> always has.\<close>

definition amount_text :: "'d decimal_ops \<Rightarrow> amount \<Rightarrow> string" where
  "amount_text D m = (case amount_string D m of Inl e \<Rightarrow> [] | Inr t \<Rightarrow> t)"

lemma amount_string_total: "\<exists>t. amount_string D m = Inr t"
  by (auto simp: amount_string_def amount_valid_def currency_valid_def amount_decimal_def currency_exponent_def
      and_then_def split: option.splits)

definition amount_figures :: "'d decimal_ops \<Rightarrow> amount \<Rightarrow> string list" where
  "amount_figures D m =
    add_figure (amount_text D m)
    @ add_figure (trim_right_char (CHR ''.'') (trim_right_char (CHR ''0'') (amount_text D m)))"

definition feature_values :: "'d features \<Rightarrow> (string \<times> 'd) list" where
  "feature_values f = map (\<lambda>(name, value, coeff). (name, value f)) feature_refs"

definition published_numbers :: "'d decimal_ops \<Rightarrow> ('d \<Rightarrow> string) \<Rightarrow> 'd assessment \<Rightarrow> string list" where
  "published_numbers D rate_text a =
    concat (map (rate_figures D rate_text)
      [am_pd a, am_lgd a, am_confidence a, am_benchmark_apr a, am_discount_apr a, prem_risk (am_premiums a),
       prem_liquidity (am_premiums a), prem_concentration (am_premiums a), premiums_total D (am_premiums a)])
    @ concat (map (amount_figures D) [am_expected_loss a, am_reserve_price a, am_platform_fee a])
    @ concat (map (\<lambda>ct. concat (map (rate_figures D rate_text) [ct_value ct, ct_weight ct, ct_effect ct]))
        (am_contributions a))
    @ concat (map (\<lambda>(name, v). rate_figures D rate_text v) (feature_values (am_features a)))"

section \<open>Narrating\<close>

definition source_model :: string where "source_model = ''model''"
definition source_derived :: string where "source_derived = ''derived''"
definition max_bullets :: nat where "max_bullets = 5"
definition max_bullet_len :: nat where "max_bullet_len = 200"

text \<open>The marks a model puts before a point: a hyphen, a bullet in UTF-8, an asterisk.\<close>

definition bullet_marks :: "string list" where
  "bullet_marks = [''-'', [CHR 0xE2, CHR 0x80, CHR 0xA2], ''*'']"

definition clean_bullet :: "string \<Rightarrow> string" where
  "clean_bullet b = trim_space (trim_space (trim_prefixes bullet_marks (trim_space b)))"

definition check_bullet :: "string list \<Rightarrow> string \<Rightarrow> app_error list" where
  "check_bullet allowed b =
    violation (length b > max_bullet_len) (Invalid ''bullets'')
    @ concat (map (\<lambda>f. violation (without_commas f \<notin> set allowed) (Invalid ''bullets'')) (figures b))"

definition narrate ::
  "'d decimal_ops \<Rightarrow> ('d \<Rightarrow> string) \<Rightarrow> 'd assessment option \<Rightarrow> string \<Rightarrow> string list \<Rightarrow> instant \<Rightarrow>
    explanation result" where
  "narrate D rate_text ao model bullets now =
    (case ao of
       None \<Rightarrow> Inl (Invalid ''assessment'')
     | Some a \<Rightarrow>
         let cleaned = filter (\<lambda>b. b \<noteq> []) (map clean_bullet bullets)
         in checked
              ((if cleaned = [] then [Invalid ''bullets'']
                else if length cleaned > max_bullets then [Invalid ''bullets''] else [])
               @ concat (map (check_bullet (published_numbers D rate_text a)) cleaned))
              (Inr \<lparr>ex_assessment_id = am_id a, ex_source = source_model, ex_model = trim_space model,
                ex_bullets = cleaned, ex_created_at = now\<rparr>))"

section \<open>The derived explanation\<close>

definition effect_direction :: "'d decimal_ops \<Rightarrow> 'd \<Rightarrow> string" where
  "effect_direction D effect = (if d_is_negative D effect then ''lowering'' else ''raising'')"

definition feature_words :: "string \<Rightarrow> string" where
  "feature_words feature =
    (let spaced = map (\<lambda>c. if c = CHR ''_'' then CHR '' '' else c) feature
     in if spaced = [] then spaced else to_upper (take 1 spaced) @ drop 1 spaced)"

definition percent :: "'d decimal_ops \<Rightarrow> 'd \<Rightarrow> string" where
  "percent D r = rate_string_fixed D (hundredfold D r) 2 @ ''%''"

definition ranked_bullets :: "'d decimal_ops \<Rightarrow> 'd contribution list \<Rightarrow> string list" where
  "ranked_bullets D ranked =
    (case ranked of
       [] \<Rightarrow> []
     | x # rest \<Rightarrow>
         (feature_words (ct_feature x) @ '' moved the score most, '' @ effect_direction D (ct_effect x) @ '' it.'')
         # (case rest of
              [] \<Rightarrow> []
            | y # _ \<Rightarrow> [feature_words (ct_feature y) @ '' came next, '' @ effect_direction D (ct_effect y) @ '' it.'']))"

definition derive :: "'d decimal_ops \<Rightarrow> 'd assessment option \<Rightarrow> instant \<Rightarrow> explanation option" where
  "derive D ao now =
    map_option (\<lambda>a. \<lparr>ex_assessment_id = am_id a, ex_source = source_derived, ex_model = [],
      ex_bullets = ranked_bullets D (ranked_contributions D a) @
        [''Grade '' @ am_grade a @ '': a default probability of '' @ percent D (am_pd a)
           @ '' against a loss given default of '' @ percent D (am_lgd a) @ ''.'',
         ''The discount of '' @ percent D (am_discount_apr a) @ '' is the market benchmark of ''
           @ percent D (am_benchmark_apr a) @ '' plus '' @ percent D (premiums_total D (am_premiums a)) @ '' of premiums.'',
         ''After an expected loss of '' @ amount_text D (am_expected_loss a)
           @ '' and the platform fee, the reserve price is '' @ amount_text D (am_reserve_price a) @ ''.''],
      ex_created_at = now\<rparr>) ao"

definition feature_names_sorted :: "string list" where
  "feature_names_sorted = sort_by (<) (map fst feature_refs)"

section \<open>Asking a model\<close>

definition new_line :: string where "new_line = [CHR 0x0A]"

definition prompt_row :: "('d \<Rightarrow> string) \<Rightarrow> 'd contribution \<Rightarrow> string" where
  "prompt_row rate_text ct =
    ''- '' @ ct_feature ct @ '': value '' @ rate_text (ct_value ct) @ '', weight '' @ rate_text (ct_weight ct)
    @ '', effect '' @ rate_text (ct_effect ct) @ new_line"

definition narration_prompt :: "'d decimal_ops \<Rightarrow> ('d \<Rightarrow> string) \<Rightarrow> 'd assessment \<Rightarrow> string" where
  "narration_prompt D rate_text a =
    concat (map (\<lambda>(name, v). name @ '': '' @ v @ new_line)
      [(''model_version'', am_model_version a), (''grade'', am_grade a),
       (''probability_of_default'', percent D (am_pd a)), (''loss_given_default'', percent D (am_lgd a)),
       (''extraction_confidence'', percent D (am_confidence a)), (''expected_loss'', amount_text D (am_expected_loss a)),
       (''platform_fee'', amount_text D (am_platform_fee a)), (''reserve_price'', amount_text D (am_reserve_price a)),
       (''market_benchmark_apr'', percent D (am_benchmark_apr a)), (''risk_premium'', percent D (prem_risk (am_premiums a))),
       (''liquidity_premium'', percent D (prem_liquidity (am_premiums a))),
       (''concentration_premium'', percent D (prem_concentration (am_premiums a))),
       (''discount_apr'', percent D (am_discount_apr a))])
    @ new_line @ ''contributions, largest first (feature, value, weight, effect on log-odds):'' @ new_line
    @ concat (map (prompt_row rate_text) (ranked_contributions D a))
    @ (if am_requires_manual_review a
       then new_line @ ''This assessment is held for manual review: the extraction confidence gate was not met.'' @ new_line
       else [])"

text \<open>\<^verbatim>\<open>strings.Split\<close> by lines.\<close>

fun split_lines :: "string \<Rightarrow> string \<Rightarrow> string list" where
  "split_lines line [] = [rev line]"
| "split_lines line (c # cs) = (if [c] = new_line then rev line # split_lines [] cs else split_lines (c # line) cs)"

definition answer_bullets :: "string \<Rightarrow> string list" where
  "answer_bullets reply = filter (\<lambda>b. b \<noteq> []) (map trim_space (split_lines [] reply))"

type_synonym 'n language_model = "string \<times> (string \<Rightarrow> 'n \<Rightarrow> string result \<times> 'n)"

definition narrator ::
  "'d decimal_ops \<Rightarrow> ('d \<Rightarrow> string) \<Rightarrow> 'n language_model option \<Rightarrow> 'd assessment option \<Rightarrow> instant \<Rightarrow> 'n \<Rightarrow>
    explanation option \<times> 'n" where
  "narrator D rate_text client ao now n =
    (case (client, ao) of
       (Some (name, ask), Some a) \<Rightarrow>
         (case ask (narration_prompt D rate_text a) n of
            (Inl e, n') \<Rightarrow> (derive D ao now, n')
          | (Inr reply, n') \<Rightarrow>
              (case narrate D rate_text ao name (answer_bullets reply) now of
                 Inl e \<Rightarrow> (derive D ao now, n')
               | Inr x \<Rightarrow> (Some x, n')))
     | _ \<Rightarrow> (derive D ao now, n))"

end
