(* ===== verification/Application.thy ===== *)
theory Application
  imports Store_Facts
begin

text \<open>
  What the services of \<^verbatim>\<open>internal/app\<close> share: the caller of an operation, the entry a
  change leaves on the timeline, the address an organization receives at, and the relation between the
  stores before and after the writes of an operation. A service is a function from the store to a result
  and the store; a failed unit of work returns the store as the rollback leaves it.
\<close>

lemma not_isl_iff: "\<not> isl r \<longleftrightarrow> (\<exists>x. r = Inr x)"
  by (cases r) auto

section \<open>Callers\<close>

record actor =
  ac_organization_id :: uuid
  ac_operator :: bool

definition actor_ref :: "uuid_ops \<Rightarrow> actor \<Rightarrow> string" where
  "actor_ref U who =
    (if ac_organization_id who = uuid_nil then system_actor else uuid_string U (ac_organization_id who))"

text \<open>The guard of the operations an issuer runs on what it owns.\<close>

definition may_act_for :: "actor \<Rightarrow> uuid \<Rightarrow> bool" where
  "may_act_for who owner \<longleftrightarrow> ac_operator who \<or> owner = ac_organization_id who"

section \<open>The entry of a change\<close>

definition entry_of ::
  "uuid_ops \<Rightarrow> request \<Rightarrow> string \<Rightarrow> string \<Rightarrow> string \<Rightarrow> uuid \<Rightarrow> (string \<times> detail) list \<Rightarrow> audit_event" where
  "entry_of U rq actor action entity_type i details =
    fold (\<lambda>(k, v). with_detail k v) details (event_of rq actor action entity_type (uuid_string U i))"

definition annotate ::
  "uuid_ops \<Rightarrow> request \<Rightarrow> string \<Rightarrow> string \<Rightarrow> string \<Rightarrow> uuid \<Rightarrow> (string \<times> detail) list \<Rightarrow>
    'd store \<Rightarrow> 'd store result" where
  "annotate U rq actor action entity_type i details s =
    record_event (entry_of U rq actor action entity_type i details) s"

definition invoice_entity :: string where "invoice_entity = ''invoice''"

text \<open>The status and version of an invoice, as an entry digests them.\<close>

definition standing :: "invoice \<Rightarrow> (string \<times> int) option" where
  "standing v = Some (inv_status_string (inv_status v), inv_version v)"

definition auction_entity :: string where "auction_entity = ''auction''"

definition id_detail :: "uuid_ops \<Rightarrow> uuid \<Rightarrow> detail" where
  "id_detail U i = DetailText (uuid_string U i)"

text \<open>An entry touches the timeline and nothing else.\<close>

lemma annotate_Inr:
  assumes "annotate U rq actor action entity_type i details s = Inr t"
  shows "\<exists>e. t = s\<lparr>db_events := db_events s @ [e]\<rparr>"
  using assms by (auto simp: annotate_def record_event_def result_simps)

lemma fold_with_detail_valid [simp]:
  "validate_event (fold (\<lambda>(k, v). with_detail k v) details e) = validate_event e"
  by (induction details arbitrary: e) (auto split: prod.splits)

text \<open>An entry with a subject and an author is always recorded.\<close>

context uuid_lib
begin

lemma uuid_visible: "trim_space (uuid_string U i) = uuid_string U i"
proof (rule trim_space_visible)
  have "visible_char c" if "lower_hex_char c \<or> c = CHR ''-''" for c
    using that by (auto simp: lower_hex_char_def visible_char_def less_eq_char_def)
  then show "list_all visible_char (uuid_string U i)" using uuid_string_chars by (auto simp: list_all_iff)
qed

lemma uuid_text [simp]: "trim_space (uuid_string U i) \<noteq> []"
  using uuid_string_length [of i] by (auto simp: uuid_visible)

lemma actor_ref_text [simp]: "trim_space (actor_ref U who) \<noteq> []"
proof -
  have "trim_space system_actor \<noteq> []" by code_simp
  then show ?thesis by (simp add: actor_ref_def)
qed

lemma annotate_valid:
  assumes "trim_space actor \<noteq> []" and "trim_space action \<noteq> []" and "trim_space entity_type \<noteq> []"
    and "rq_now rq \<noteq> 0"
  shows "annotate U rq actor action entity_type i details s =
    Inr (s\<lparr>db_events := db_events s @ [entry_of U rq actor action entity_type i details]\<rparr>)"
proof -
  have "validate_event (entry_of U rq actor action entity_type i details) = Inr ()"
    using assms by (simp add: entry_of_def validate_event_Inr event_of_def)
  then show ?thesis by (simp add: annotate_def record_event_def)
qed

end

lemma entity_texts [simp]:
  "trim_space system_actor = system_actor" "system_actor \<noteq> []"
  "trim_space invoice_entity \<noteq> []" "trim_space auction_entity \<noteq> []"
  by code_simp+

section \<open>Wallets\<close>

definition wallet_of :: "uuid \<Rightarrow> 'd store \<Rightarrow> string result" where
  "wallet_of i s = and_then (get_organization i s) (\<lambda>g. Inr (receives_at g))"

section \<open>The rows of a store are sound\<close>

definition rows_sound :: "'d store \<Rightarrow> bool" where
  "rows_sound s \<longleftrightarrow>
     (\<forall>i v. map_of (db_organizations s) i = Some v \<longrightarrow> org_sound v) \<and>
     (\<forall>i v. map_of (db_invoices s) i = Some v \<longrightarrow> inv_sound v) \<and>
     (\<forall>i v. map_of (db_assets s) i = Some v \<longrightarrow> asset_sound v) \<and>
     (\<forall>i v. map_of (db_auctions s) i = Some v \<longrightarrow> auc_sound v) \<and>
     (\<forall>i v. map_of (db_settlements s) i = Some v \<longrightarrow> stl_sound v) \<and>
     (\<forall>i v. map_of (db_solutions s) i = Some v \<longrightarrow> sol_verified v)"

text \<open>
  A write of an operation: one of the writes of \<^const>\<open>store_step\<close>, which leaves the rows sound when
  they were. \<open>writes\<close> is a sequence of them.
\<close>

definition sound_write :: "(string \<Rightarrow> string) \<Rightarrow> 'd store \<Rightarrow> 'd store \<Rightarrow> bool" where
  "sound_write H s t \<longleftrightarrow> store_step H s t \<and> (rows_sound s \<longrightarrow> rows_sound t)"

abbreviation writes :: "(string \<Rightarrow> string) \<Rightarrow> 'd store \<Rightarrow> 'd store \<Rightarrow> bool" where
  "writes H \<equiv> (sound_write H)\<^sup>*\<^sup>*"

lemma org_sound_reaches: "reaches org_exec g g' \<Longrightarrow> org_sound g \<Longrightarrow> org_sound g'"
  by (rule reaches_invariant) (auto intro: org_sound_step)

lemma inv_sound_reaches: "reaches inv_exec v v' \<Longrightarrow> inv_sound v \<Longrightarrow> inv_sound v'"
  by (rule reaches_invariant) (auto intro: inv_sound_step)

lemma inv_command: "inv_exec c v = Inr w \<Longrightarrow> reaches inv_exec v w"
  by (rule reaches_step [OF reaches_refl])

lemma asset_sound_reaches: "reaches asset_exec a a' \<Longrightarrow> asset_sound a \<Longrightarrow> asset_sound a'"
  by (drule advanced_facts(3)) (auto simp: asset_sound_def asset_terms_def)

lemma auc_sound_reaches: "reaches auc_exec c c' \<Longrightarrow> auc_sound c \<Longrightarrow> auc_sound c'"
  by (rule reaches_invariant) (auto intro: auc_sound_step)

lemma stl_sound_reaches: "reaches stl_exec x x' \<Longrightarrow> stl_sound x \<Longrightarrow> stl_sound x'"
  by (rule reaches_invariant) (auto intro: stl_sound_step)

lemmas row_lookup = rows_sound_def get_defs result_simps

text \<open>Writes of the rows an aggregate moved on.\<close>

lemma write_organization:
  assumes "get_organization i s = Inr g" and "reaches org_exec g g'" and "update_organization g' e s = Inr t"
  shows "sound_write H s t"
  unfolding sound_write_def
proof
  show "store_step H s t" by (rule step_organization [OF assms])
  show "rows_sound s \<longrightarrow> rows_sound t"
    using assms org_sound_reaches [OF assms(2)] by (auto simp: row_lookup update_organization_def split: if_splits)
qed

lemma write_invoice:
  assumes "get_invoice i s = Inr v" and "reaches inv_exec v v'" and "update_invoice v' e s = Inr t"
  shows "sound_write H s t"
  unfolding sound_write_def
proof
  show "store_step H s t" by (rule step_invoice [OF assms])
  show "rows_sound s \<longrightarrow> rows_sound t"
    using assms inv_sound_reaches [OF assms(2)] by (auto simp: row_lookup update_invoice_def split: if_splits)
qed

lemma write_asset:
  assumes "get_asset i s = Inr a" and "reaches asset_exec a a'" and "update_asset a' s = Inr t"
  shows "sound_write H s t"
  unfolding sound_write_def
proof
  show "store_step H s t" by (rule step_asset [OF assms])
  show "rows_sound s \<longrightarrow> rows_sound t"
    using assms asset_sound_reaches [OF assms(2)] by (auto simp: row_lookup update_asset_def split: if_splits)
qed

lemma write_auction:
  assumes "get_auction i s = Inr c" and "reaches auc_exec c c'" and "update_auction c' e s = Inr t"
  shows "sound_write H s t"
  unfolding sound_write_def
proof
  show "store_step H s t" by (rule step_auction [OF assms])
  show "rows_sound s \<longrightarrow> rows_sound t"
    using assms auc_sound_reaches [OF assms(2)] by (auto simp: row_lookup update_auction_def split: if_splits)
qed

lemma write_settlement:
  assumes "get_settlement i s = Inr x" and "reaches stl_exec x x'" and "update_settlement x' e s = Inr t"
  shows "sound_write H s t"
  unfolding sound_write_def
proof
  show "store_step H s t" by (rule step_settlement [OF assms])
  show "rows_sound s \<longrightarrow> rows_sound t"
    using assms stl_sound_reaches [OF assms(2)] by (auto simp: row_lookup update_settlement_def split: if_splits)
qed

text \<open>Creations of rows their constructors built.\<close>

lemma write_create_organization:
  "create_organization g s = Inr t \<Longrightarrow> org_sound g \<Longrightarrow> sound_write H s t"
  by (auto simp: sound_write_def create_organization_def rows_sound_def step_create_organization
      split: if_splits)

lemma write_create_invoice: "create_invoice H v s = Inr t \<Longrightarrow> inv_sound v \<Longrightarrow> sound_write H s t"
  by (auto simp: sound_write_def create_invoice_def rows_sound_def step_create_invoice
      split: if_splits)

lemma write_create_asset: "create_asset a s = Inr t \<Longrightarrow> asset_sound a \<Longrightarrow> sound_write H s t"
  by (auto simp: sound_write_def create_asset_def rows_sound_def step_create_asset
      split: if_splits)

lemma write_create_auction:
  "create_auction c s = Inr t \<Longrightarrow> auc_sound c \<Longrightarrow> distinct (map lot_asset_id (auc_lots c)) \<Longrightarrow> sound_write H s t"
  by (auto simp: sound_write_def create_auction_def rows_sound_def step_create_auction
      split: if_splits)

lemma write_create_settlement: "create_settlement x s = Inr t \<Longrightarrow> stl_sound x \<Longrightarrow> sound_write H s t"
  by (auto simp: sound_write_def create_settlement_def rows_sound_def step_create_settlement
      split: if_splits)

lemma write_solution: "save_solution x s = Inr t \<Longrightarrow> sol_verified x \<Longrightarrow> sound_write H s t"
  by (auto simp: sound_write_def save_solution_def rows_sound_def step_solution split: if_splits)

text \<open>Writes of the tables that have no machine, which leave the rows of the others as they are.\<close>

lemma same_rows_write:
  assumes "store_step H s t" and "db_organizations t = db_organizations s" and "db_invoices t = db_invoices s"
    and "db_assets t = db_assets s" and "db_auctions t = db_auctions s"
    and "db_settlements t = db_settlements s" and "db_solutions t = db_solutions s"
  shows "sound_write H s t"
  using assms by (simp add: sound_write_def rows_sound_def)

lemma write_bid: "update_bid b e s = Inr t \<Longrightarrow> sound_write H s t"
  by (rule same_rows_write [OF step_bid]) (auto simp: update_bid_def result_simps)

lemma write_explanation: "save_explanation ex s = Inr t \<Longrightarrow> sound_write H s t"
  by (rule same_rows_write [OF step_explanation]) (auto simp: save_explanation_def split: option.splits)

lemma write_repayment: "create_repayment r s = Inr t \<Longrightarrow> sound_write H s t"
  by (rule same_rows_write [OF step_repayment]) (auto simp: create_repayment_def split: if_splits)

lemma write_command: "publish_command topic p trace now s = Inr t \<Longrightarrow> sound_write H s t"
  by (rule same_rows_write [OF step_command]) (auto simp: publish_command_def result_simps)

lemma write_event: "record_event v s = Inr t \<Longrightarrow> sound_write H s t"
  by (rule same_rows_write [OF step_event]) (auto simp: record_event_def result_simps)

lemma write_entry: "annotate U rq actor action entity_type i details s = Inr t \<Longrightarrow> sound_write H s t"
  unfolding annotate_def by (rule write_event)

lemma write_consume: "consume_challenge ch s = Inr t \<Longrightarrow> sound_write H s t"
  by (rule same_rows_write [OF step_consume]) (auto simp: consume_challenge_def save_challenge_def result_simps)

lemma write_plain:
  "sound_write H s (create_bid b s)" "sound_write H s (save_document d s)"
  "sound_write H s (save_assessment am s)" "sound_write H s (save_snapshot sn s)"
  "sound_write H s (put_blob bl s)" "sound_write H s (rollback s)" "sound_write H s (save_challenge ch s)"
  "sound_write H s (snd (delete_expired_challenges now s))" "sound_write H s (save_session se s)"
  "sound_write H s (revoke_session se s)"
  subgoal by (rule same_rows_write [OF step_create_bid]) (simp_all add: create_bid_def)
  subgoal by (rule same_rows_write [OF step_document]) (simp_all add: save_document_def)
  subgoal by (rule same_rows_write [OF step_assessment]) (simp_all add: save_assessment_def)
  subgoal by (rule same_rows_write [OF step_snapshot]) (simp_all add: save_snapshot_def)
  subgoal by (rule same_rows_write [OF step_blob]) (simp_all add: put_blob_def)
  subgoal by (rule same_rows_write [OF step_rollback]) (simp_all add: rollback_def)
  subgoal by (rule same_rows_write [OF step_challenge]) (simp_all add: save_challenge_def)
  subgoal by (rule same_rows_write [OF step_purge]) (simp_all add: delete_expired_challenges_def Let_def)
  subgoal by (rule same_rows_write [OF step_session]) (simp_all add: save_session_def)
  subgoal by (rule same_rows_write [OF step_revoke]) (simp_all add: revoke_session_def)
  done

text \<open>A unit of work writes what its body writes, or rolls back.\<close>

lemma in_tx_writes:
  assumes "in_tx body s = (r, t)" and "\<And>x u. body s = Inr (x, u) \<Longrightarrow> writes H s u"
  shows "writes H s t"
proof (cases r)
  case (Inl e)
  then have "t = rollback s" by (intro in_tx_Inl [of body s e]) (simp add: assms(1))
  then show ?thesis by (simp add: write_plain r_into_rtranclp)
next
  case (Inr x)
  then have "body s = Inr (x, t)" using assms(1) by (simp add: in_tx_Inr)
  then show ?thesis by (rule assms(2))
qed

text \<open>What holds of a store after writes.\<close>

lemma writes_sound: "writes H s t \<Longrightarrow> rows_sound s \<Longrightarrow> rows_sound t"
  by (induction rule: rtranclp_induct) (auto simp: sound_write_def)

lemma writes_steps: "writes H s t \<Longrightarrow> (store_step H)\<^sup>*\<^sup>* s t"
  by (induction rule: rtranclp_induct) (auto simp: sound_write_def intro: rtranclp.rtrancl_into_rtrancl)

lemma writes_trans [trans]: "writes H s t \<Longrightarrow> writes H t u \<Longrightarrow> writes H s u"
  by (rule rtranclp_trans)

lemma two_writes: "sound_write H s u \<Longrightarrow> sound_write H u t \<Longrightarrow> writes H s t"
  by (rule rtranclp.rtrancl_into_rtrancl [OF r_into_rtranclp])

lemma writes_then: "writes H s t \<Longrightarrow> sound_write H t u \<Longrightarrow> writes H s u"
  by (rule rtranclp.rtrancl_into_rtrancl)

end
