(* ===== verification/Issuance.thy ===== *)
theory Issuance
  imports Application
begin

text \<open>
  \<^verbatim>\<open>internal/app/issuance/worker.go\<close>: the worker that turns an approved invoice into an
  asset. It asks the issuer outside any unit of work, and stores the asset and moves the invoice in one. An
  issuer takes a request and its own state. \<open>err_text\<close> is the text of an error.
\<close>

definition action_tokenized :: string where "action_tokenized = ''invoice.tokenized''"

definition max_cause_len :: nat where "max_cause_len = 200"

definition safe_reason :: "string \<Rightarrow> string" where
  "safe_reason cause = (if length cause > max_cause_len then take max_cause_len cause @ ''...'' else cause)"

section \<open>Storing the outcome\<close>

definition finish_issue ::
  "uuid_ops \<Rightarrow> request \<Rightarrow> invoice \<Rightarrow> asset \<Rightarrow> 'd store \<Rightarrow> (unit \<times> 'd store) result" where
  "finish_issue U rq v a s =
    and_then (complete_tokenization (tk_id a) (rq_now rq) v) (\<lambda>v'.
    and_then (update_invoice v' (inv_version v) s) (\<lambda>s1.
    and_then (annotate U rq system_actor action_tokenized invoice_entity (inv_id v')
        [(''asset_id'', id_detail U (tk_id a)), (''network'', DetailText (tk_network a)),
         (''token_id'', DetailText (tk_token_id a)),
         (''chain_status'', DetailText (chain_status_string (tk_chain_status a))),
         (''transaction_id'', DetailText (tk_transaction_id a)),
         (''status'', DetailText (inv_status_string (inv_status v')))] s1) (\<lambda>s2.
    Inr ((), s2))))"

definition commit_issue ::
  "uuid_ops \<Rightarrow> request \<Rightarrow> invoice \<Rightarrow> asset \<Rightarrow> 'd store \<Rightarrow> unit result \<times> 'd store" where
  "commit_issue U rq v a s = in_tx (\<lambda>s. and_then (create_asset a s) (finish_issue U rq v a)) s"

definition complete_issue ::
  "uuid_ops \<Rightarrow> request \<Rightarrow> invoice \<Rightarrow> asset \<Rightarrow> 'd store \<Rightarrow> unit result \<times> 'd store" where
  "complete_issue U rq v a s = in_tx (finish_issue U rq v a) s"

text \<open>The cause comes back when the failure could be stored, the error of storing it otherwise.\<close>

definition record_issue_failure ::
  "(app_error \<Rightarrow> string) \<Rightarrow> request \<Rightarrow> uuid \<Rightarrow> app_error \<Rightarrow> 'd store \<Rightarrow> unit result \<times> 'd store" where
  "record_issue_failure err_text rq i cause s =
    (case in_tx (\<lambda>s.
        and_then (get_invoice i s) (\<lambda>v.
        if inv_status v \<noteq> InvTokenizing then Inr ((), s)
        else and_then (fail_tokenization (safe_reason (err_text cause)) (rq_now rq) v) (\<lambda>v'.
             and_then (update_invoice v' (inv_version v) s) (\<lambda>t. Inr ((), t))))) s of
       (Inl e, t) \<Rightarrow> (Inl e, t)
     | (Inr _, t) \<Rightarrow> (Inl cause, t))"

section \<open>Asking the issuer\<close>

definition request_of ::
  "uuid_ops \<Rightarrow> 'x decimal_ops \<Rightarrow> invoice \<Rightarrow> 'd assessment \<Rightarrow> string \<Rightarrow> issue_request result" where
  "request_of U D v am wallet =
    and_then (amount_string D (inv_face v)) (\<lambda>face.
    Inr \<lparr>ir_invoice_id = inv_id v, ir_issuer_id = inv_issuer v, ir_issuer_wallet = wallet, ir_supply = inv_face v,
      ir_reference = uuid_string U (am_id am),
      ir_metadata = \<lparr>md_commitment = am_confidential_commitment am, md_currency = currency (inv_face v),
        md_face = face, md_maturity = rfc3339 (inv_due_at v), md_grade = am_grade am,
        md_terms_hash = am_market_snapshot_hash am\<rparr>\<rparr>)"

definition asset_of :: "request \<Rightarrow> invoice \<Rightarrow> issue_result \<Rightarrow> asset result" where
  "asset_of rq v res =
    new_asset \<lparr>nas_id = rq_ids rq 0, nas_invoice_id = inv_id v, nas_issuer_id = inv_issuer v,
      nas_network = is_network res, nas_token_id = is_token_id res, nas_contract_id = is_contract_id res,
      nas_supply = inv_face v,
      nas_chain_status = chain_status_string (if is_confirmed res then ChainIssued else ChainPending),
      nas_transaction_id = is_transaction_id res, nas_explorer_url = is_explorer_url res\<rparr> (rq_now rq)"

definition issue_inputs :: "invoice \<Rightarrow> 'd store \<Rightarrow> ('d assessment \<times> string) result" where
  "issue_inputs v s =
    and_then (latest_assessment (inv_id v) s) (\<lambda>am.
    and_then (wallet_of (inv_issuer v) s) (\<lambda>wallet. Inr (am, wallet)))"

definition accept_issue ::
  "(app_error \<Rightarrow> string) \<Rightarrow> uuid_ops \<Rightarrow> request \<Rightarrow> invoice \<Rightarrow> issue_result result \<Rightarrow> 'd store \<Rightarrow> unit result \<times> 'd store" where
  "accept_issue err_text U rq v answer s =
    (case answer of
       Inl e \<Rightarrow> record_issue_failure err_text rq (inv_id v) ErrUnavailable s
     | Inr res \<Rightarrow>
         (case and_then (validate_issue res) (\<lambda>_. asset_of rq v res) of
            Inl e \<Rightarrow> record_issue_failure err_text rq (inv_id v) e s
          | Inr a \<Rightarrow> commit_issue U rq v a s))"

definition handle_issue ::
  "(app_error \<Rightarrow> string) \<Rightarrow> uuid_ops \<Rightarrow> 'x decimal_ops \<Rightarrow> 'n issuer \<Rightarrow> request \<Rightarrow> uuid \<Rightarrow> 'd store \<times> 'n \<Rightarrow>
    unit result \<times> 'd store \<times> 'n" where
  "handle_issue err_text U D issue rq i = (\<lambda>(s, n).
    if i = uuid_nil then (Inl (Invalid ''invoice_id''), s, n)
    else case get_invoice i s of
      Inl e \<Rightarrow> (Inl e, s, n)
    | Inr v \<Rightarrow>
        if inv_status v \<noteq> InvTokenizing then (Inr (), s, n)
        else (case get_asset_by_invoice (inv_id v) s of
            Inr a \<Rightarrow> (let (r, t) = complete_issue U rq v a s in (r, t, n))
          | Inl e \<Rightarrow>
              if \<not> is_not_found e then (Inl e, s, n)
              else (case issue_inputs v s of
                  Inl e \<Rightarrow> (let (r, t) = record_issue_failure err_text rq (inv_id v) e s in (r, t, n))
                | Inr (am, wallet) \<Rightarrow>
                    (case request_of U D v am wallet of
                       Inl e \<Rightarrow> (Inl e, s, n)
                     | Inr q \<Rightarrow>
                         (let (answer, n') = issue q n; (r, t) = accept_issue err_text U rq v answer s
                          in (r, t, n'))))))"

end
