(* ===== verification/Market_Data.thy ===== *)
theory Market_Data
  imports Application
begin

text \<open>
  \<^verbatim>\<open>internal/marketdata\<close>: market rows, the canonical digests of a query and of the rows,
  and the normalizer that filters the rows, clips the tails of the rates by liquidity, and aggregates
  them into a snapshot. The provider is a function of the query and its own state; the static provider is the one of
  the program. Where \<^verbatim>\<open>sort.Slice\<close> leaves the order of equal keys open, the model keeps
  the order of the input.
\<close>

section \<open>Rows and queries\<close>

definition default_ttl :: int where "default_ttl = seconds (15 * 60)"

definition validate_market :: "'d decimal_ops \<Rightarrow> 'd market \<Rightarrow> app_error list" where
  "validate_market D m =
    violation (trim_space (mk_id m) = []) (Invalid ''market.id'')
    @ violation (trim_space (mk_subgraph_id m) = []) (Invalid ''market.subgraph_id'')
    @ violation (d_is_negative D (mk_net_supply_apy m)) (Invalid ''market.net_supply_apy'')
    @ (if \<not> amount_valid (mk_available_liquidity m) then [Invalid ''market.available_liquidity'']
       else if amount_negative (mk_available_liquidity m) then [Invalid ''market.available_liquidity''] else [])
    @ violation (mk_block_number m < 0) (Invalid ''market.block_number'')"

record market_query =
  mq_provider :: string
  mq_network :: string
  mq_asset :: string
  mq_graphql :: string
  mq_variables :: "(string \<times> string) list"

definition validate_query :: "market_query \<Rightarrow> app_error list" where
  "validate_query q =
    violation (trim_space (mq_provider q) = []) (Invalid ''query.provider'')
    @ violation (trim_space (mq_network q) = []) (Invalid ''query.network'')
    @ violation (trim_space (mq_asset q) = []) (Invalid ''query.asset'')
    @ violation (trim_space (mq_graphql q) = []) (Invalid ''query.graphql'')"

section \<open>Digests\<close>

definition market_field_sep :: string where "market_field_sep = [CHR 0x1F]"
definition market_record_sep :: string where "market_record_sep = [CHR 0x1E]"

definition market_digest :: "(string \<Rightarrow> string) \<Rightarrow> string \<Rightarrow> string" where
  "market_digest H s = ''0x'' @ hex_encode (H s)"

text \<open>\<^verbatim>\<open>strings.Fields\<close>: the words between runs of white space.\<close>

function text_fields :: "string \<Rightarrow> string \<Rightarrow> string list" where
  "text_fields word s =
    (case s of
       [] \<Rightarrow> if word = [] then [] else [rev word]
     | c # cs \<Rightarrow>
         (case starts_with_any white_space (c # cs) of
            Some p \<Rightarrow> (if word = [] then [] else [rev word]) @ text_fields [] (drop (length p) (c # cs))
          | None \<Rightarrow> text_fields (c # word) cs))"
  by pat_completeness auto
termination
proof (relation "measure (\<lambda>(word, s). length s)")
  show "(([], drop (length p) (c # cs)), word, s) \<in> measure (\<lambda>(word, s). length s)"
    if "s = c # cs" "starts_with_any white_space (c # cs) = Some p" for word s :: string and c cs p
    using starts_with_any_Some [OF that(2)] that(1) by (cases p) auto
qed auto

declare text_fields.simps [simp del]

definition normalize_graphql :: "string \<Rightarrow> string" where
  "normalize_graphql query = join_strings '' '' (text_fields [] query)"

definition query_text :: "market_query \<Rightarrow> string" where
  "query_text q =
    mq_provider q @ market_field_sep @ mq_network q @ market_field_sep @ mq_asset q @ market_field_sep
    @ normalize_graphql (mq_graphql q)
    @ concat (map (\<lambda>(name, v). market_record_sep @ name @ market_field_sep @ v)
        (sort_by (\<lambda>x y. fst x < fst y) (mq_variables q)))"

definition hash_query :: "(string \<Rightarrow> string) \<Rightarrow> market_query \<Rightarrow> string" where
  "hash_query H q = market_digest H (query_text q)"

text \<open>\<^verbatim>\<open>Format(time.RFC3339Nano)\<close>: the fraction of the second without trailing zeros.\<close>

definition rfc3339_nano :: "instant \<Rightarrow> string" where
  "rfc3339_nano t =
    (let fraction = t mod seconds 1; whole = butlast (rfc3339 t)
     in if fraction = 0 then rfc3339 t
        else whole @ ''.'' @ rev (dropWhile (\<lambda>c. c = CHR ''0'') (rev (pad_left 9 (int_dec fraction)))) @ ''Z'')"

definition payload_row :: "'d decimal_ops \<Rightarrow> 'd market \<Rightarrow> string" where
  "payload_row D m =
    market_record_sep @ mk_subgraph_id m @ market_field_sep @ mk_id m @ market_field_sep @ mk_asset m @ market_field_sep
    @ rate_string_fixed D (mk_net_supply_apy m) rate_scale @ market_field_sep
    @ int_dec (minor (mk_available_liquidity m)) @ market_field_sep @ currency (mk_available_liquidity m)
    @ market_field_sep @ int_dec (mk_block_number m)"

definition hash_payload :: "(string \<Rightarrow> string) \<Rightarrow> 'd decimal_ops \<Rightarrow> 'd snapshot \<Rightarrow> string" where
  "hash_payload H D s =
    market_digest H (sn_query_hash s @ market_field_sep @ rfc3339_nano (sn_observed_at s)
      @ concat (map (payload_row D) (sn_markets s)))"

section \<open>Normalizing\<close>

record 'd normalizer_params =
  np_winsor :: 'd
  np_liquidity_constant :: 'd
  np_premium_floor :: 'd
  np_premium_ceiling :: 'd
  np_volatility_scale :: 'd
  np_ttl :: int

definition normalizer_params_v1 :: "'d decimal_ops \<Rightarrow> 'd normalizer_params result" where
  "normalizer_params_v1 D =
    and_then (must_parse_rate D ''0.10'') (\<lambda>winsor.
    and_then (must_parse_rate D ''95'') (\<lambda>constant.
    and_then (must_parse_rate D ''0.0025'') (\<lambda>low.
    and_then (must_parse_rate D ''0.05'') (\<lambda>high.
    and_then (must_parse_rate D ''0.10'') (\<lambda>scale.
      Inr \<lparr>np_winsor = winsor, np_liquidity_constant = constant, np_premium_floor = low,
           np_premium_ceiling = high, np_volatility_scale = scale, np_ttl = default_ttl\<rparr>)))))"

text \<open>The integer square root of \<^verbatim>\<open>big.Int\<close>.\<close>

fun nat_root :: "nat \<Rightarrow> nat" where
  "nat_root n =
    (if n = 0 then 0
     else let r = 2 * nat_root (n div 4) in if (r + 1) * (r + 1) \<le> n then r + 1 else r)"

declare nat_root.simps [simp del]

definition sqrt_scale :: int where "sqrt_scale = 6"

definition sqrt_decimal :: "'d decimal_ops \<Rightarrow> 'd \<Rightarrow> int \<Rightarrow> 'd" where
  "sqrt_decimal D d scale =
    (if d_is_negative D d \<or> d_is_zero D d then d_zero D
     else d_new D (int (nat_root (nat (d_big_int D (d_truncate D (d_shift D d (2 * scale)) 0))))) (- scale))"

definition liquidity_weight :: "'d decimal_ops \<Rightarrow> 'd market \<Rightarrow> 'd result" where
  "liquidity_weight D m =
    and_then (amount_decimal D (mk_available_liquidity m)) (\<lambda>d. Inr (sqrt_decimal D d sqrt_scale))"

definition apy_before :: "'d decimal_ops \<Rightarrow> 'd market \<Rightarrow> 'd market \<Rightarrow> bool" where
  "apy_before D x y \<longleftrightarrow>
    (let cmp = d_cmp D (mk_net_supply_apy x) (mk_net_supply_apy y)
     in if cmp \<noteq> 0 then cmp < 0
        else if mk_subgraph_id x \<noteq> mk_subgraph_id y then mk_subgraph_id x < mk_subgraph_id y
        else mk_id x < mk_id y)"

definition sorted_by_apy :: "'d decimal_ops \<Rightarrow> 'd market list \<Rightarrow> 'd market list" where
  "sorted_by_apy D ms = sort_by (apy_before D) ms"

text \<open>
  The walk over the rates in order, with their weights: the first rate whose cumulative weight
  reaches the low target, and the first that reaches the high one, where the walk stops.
\<close>

fun winsor_bounds ::
  "'d decimal_ops \<Rightarrow> 'd \<Rightarrow> 'd \<Rightarrow> ('d \<times> 'd) list \<Rightarrow> 'd \<Rightarrow> bool \<Rightarrow> 'd \<times> 'd \<Rightarrow> 'd \<times> 'd" where
  "winsor_bounds D lo hi [] cumulative found bounds = bounds"
| "winsor_bounds D lo hi ((w, apy) # rest) cumulative found (low, high) =
    (let reached = d_add D cumulative w;
         hit = \<not> found \<and> \<not> d_lt D reached lo;
         low' = (if hit then apy else low)
     in if \<not> d_lt D reached hi then (low', apy)
        else winsor_bounds D lo hi rest reached (found \<or> hit) (low', high))"

definition clip_market :: "'d decimal_ops \<Rightarrow> 'd \<times> 'd \<Rightarrow> 'd market \<Rightarrow> 'd market result" where
  "clip_market D bounds m =
    and_then (rate_clamp D (mk_net_supply_apy m) (fst bounds) (snd bounds)) (\<lambda>r. Inr (m\<lparr>mk_net_supply_apy := r\<rparr>))"

definition winsorize :: "'d decimal_ops \<Rightarrow> 'd normalizer_params \<Rightarrow> 'd market list \<Rightarrow> 'd market list result" where
  "winsorize D P ms =
    (let by_apy = sorted_by_apy D ms
     in if length by_apy < 2 then Inr by_apy
        else and_then (traverse (liquidity_weight D) by_apy) (\<lambda>weights.
          let tot = fold (\<lambda>w acc. d_add D acc w) weights (d_zero D)
          in if d_is_zero D tot then Inr by_apy
             else let lo = d_mul D tot (np_winsor P);
                      hi = d_mul D tot (d_sub D (d_of_int D 1) (np_winsor P));
                      bounds = winsor_bounds D lo hi (zip weights (map mk_net_supply_apy by_apy)) (d_zero D) False
                        (mk_net_supply_apy (hd by_apy), mk_net_supply_apy (last by_apy))
                  in traverse (clip_market D bounds) by_apy))"

fun median_walk :: "'d decimal_ops \<Rightarrow> 'd \<Rightarrow> ('d \<times> 'd) list \<Rightarrow> 'd \<Rightarrow> 'd \<Rightarrow> 'd" where
  "median_walk D half [] cumulative final = final"
| "median_walk D half ((w, apy) # rest) cumulative final =
    (let reached = d_add D cumulative w
     in if \<not> d_lt D reached half then apy else median_walk D half rest reached final)"

definition weighted_median_apy :: "'d decimal_ops \<Rightarrow> 'd market list \<Rightarrow> 'd result" where
  "weighted_median_apy D ms =
    (if ms = [] then Inr (d_zero D)
     else let by_apy = sorted_by_apy D ms in
       and_then (traverse (liquidity_weight D) by_apy) (\<lambda>weights.
         let tot = fold (\<lambda>w acc. d_add D acc w) weights (d_zero D);
             half = d_div D tot (d_of_int D 2)
         in Inr (median_walk D half (zip weights (map mk_net_supply_apy by_apy)) (d_zero D)
              (mk_net_supply_apy (last by_apy)))))"

definition liquidity_premium :: "'d decimal_ops \<Rightarrow> 'd normalizer_params \<Rightarrow> amount \<Rightarrow> 'd result" where
  "liquidity_premium D P tot =
    and_then (amount_decimal D tot) (\<lambda>d.
      let root = sqrt_decimal D d sqrt_scale
      in if d_is_zero D root then Inr (np_premium_ceiling P)
         else and_then (rate_div D (np_liquidity_constant P) root) (\<lambda>premium.
           rate_clamp D (rate_quantize D premium rate_scale) (np_premium_floor P) (np_premium_ceiling P)))"

definition volatility :: "'d decimal_ops \<Rightarrow> 'd normalizer_params \<Rightarrow> 'd market list \<Rightarrow> 'd result" where
  "volatility D P ms =
    (if length ms < 2 then Inr (d_zero D)
     else let rates = map mk_net_supply_apy ms;
              low = fold (\<lambda>r acc. min_rate D acc r) (tl rates) (hd rates);
              high = fold (\<lambda>r acc. max_rate D acc r) (tl rates) (hd rates)
          in case rate_div D (d_sub D high low) (np_volatility_scale P) of
               Inl e \<Rightarrow> Inr (d_zero D)
             | Inr spread \<Rightarrow> rate_clamp D (rate_quantize D spread rate_scale) (d_zero D) (one_rate D))"

definition market_before :: "'d market \<Rightarrow> 'd market \<Rightarrow> bool" where
  "market_before x y \<longleftrightarrow>
    (if mk_subgraph_id x \<noteq> mk_subgraph_id y then mk_subgraph_id x < mk_subgraph_id y else mk_id x < mk_id y)"

text \<open>The rows that take part, in canonical order.\<close>

definition eligible_markets :: "'d market list \<Rightarrow> 'd market list result" where
  "eligible_markets ms =
    (let eligible = filter (\<lambda>m. amount_positive (mk_available_liquidity m)) ms
     in if eligible = [] then Inl ErrUnavailable
        else if \<not> list_all (\<lambda>m. currency (mk_available_liquidity m) = currency (mk_available_liquidity (hd eligible))) eligible
          then Inl (Invalid ''market.available_liquidity'')
        else Inr (sort_by market_before eligible))"

definition total_liquidity_of :: "'d market list \<Rightarrow> amount result" where
  "total_liquidity_of ms = amount_sum (map mk_available_liquidity ms)"

definition distinct_subgraph_ids :: "'d market list \<Rightarrow> string list" where
  "distinct_subgraph_ids ms = sort_by (<) (remdups (map mk_subgraph_id ms))"

definition block_numbers_of :: "'d market list \<Rightarrow> int list" where
  "block_numbers_of ms = map mk_block_number ms"

definition normalize ::
  "(string \<Rightarrow> string) \<Rightarrow> 'd decimal_ops \<Rightarrow> 'd normalizer_params \<Rightarrow> market_query \<Rightarrow> 'd market list \<Rightarrow> instant \<Rightarrow>
    'd snapshot result" where
  "normalize H D P q ms observed_at =
    checked (validate_query q) (checked (concat (map (validate_market D) ms))
      (and_then (eligible_markets ms) (\<lambda>eligible.
       and_then (total_liquidity_of eligible) (\<lambda>tot.
       and_then (winsorize D P eligible) (\<lambda>winsorized.
       and_then (weighted_median_apy D winsorized) (\<lambda>benchmark.
       and_then (liquidity_premium D P tot) (\<lambda>premium.
       and_then (volatility D P winsorized) (\<lambda>spread.
       let s = \<lparr>sn_provider = mq_provider q, sn_network = mq_network q, sn_asset = mq_asset q,
                sn_query_hash = hash_query H q, sn_payload_hash = [], sn_markets = eligible,
                sn_subgraph_ids = distinct_subgraph_ids eligible,
                sn_block_numbers = block_numbers_of eligible,
                sn_benchmark = rate_quantize D benchmark rate_scale, sn_liquidity_premium = premium,
                sn_volatility = spread, sn_total_liquidity = tot, sn_observed_at = observed_at, sn_ttl = np_ttl P\<rparr>
       in Inr (s\<lparr>sn_payload_hash := hash_payload H D s\<rparr>)))))))))"

section \<open>Freshness and providers\<close>

definition expires_at :: "'d snapshot \<Rightarrow> instant" where
  "expires_at s = sn_observed_at s + sn_ttl s"

definition is_fresh :: "instant \<Rightarrow> 'd snapshot \<Rightarrow> bool" where
  "is_fresh now s \<longleftrightarrow> \<not> now > expires_at s"

definition snapshot_age :: "instant \<Rightarrow> 'd snapshot \<Rightarrow> int" where
  "snapshot_age now s = now - sn_observed_at s"

definition ensure_fresh :: "instant \<Rightarrow> 'd snapshot \<Rightarrow> unit result" where
  "ensure_fresh now s = (if is_fresh now s then Inr () else Inl ErrUnavailable)"

type_synonym ('d, 'n) provider = "market_query \<Rightarrow> 'n \<Rightarrow> 'd market list result \<times> 'n"

definition take_snapshot ::
  "(string \<Rightarrow> string) \<Rightarrow> 'd decimal_ops \<Rightarrow> 'd normalizer_params \<Rightarrow> ('d, 'n) provider \<Rightarrow> market_query \<Rightarrow> instant \<Rightarrow> 'n \<Rightarrow>
    'd snapshot result \<times> 'n" where
  "take_snapshot H D P fetch_markets q now n =
    (case fetch_markets q n of
       (Inl e, n') \<Rightarrow> (Inl ErrUnavailable, n')
     | (Inr ms, n') \<Rightarrow> (normalize H D P q ms now, n'))"

definition static_provider :: "'d market list \<Rightarrow> ('d, 'n) provider" where
  "static_provider markets q n =
    (Inr (sort_by (\<lambda>x y. mk_id x < mk_id y) (filter (\<lambda>m. mq_asset q = [] \<or> mk_asset m = mq_asset q) markets)), n)"

end
