(* ===== verification/Assessing.thy ===== *)
theory Assessing
  imports Explanation Issuance Market_Data
begin

text \<open>
  \<^verbatim>\<open>internal/app/assessment/worker.go\<close> with the ports it calls,
  \<^verbatim>\<open>internal/risk/ports.go\<close> and \<^verbatim>\<open>internal/risk/pending.go\<close>: a confidential workflow answers
  for a document nobody else may read, the market gives a benchmark, and the model of \<open>Risk\<close> prices the
  receivable from the two. The workflow, the market provider and the language model share one state of the
  outside world. \<open>H\<close> is SHA-256 as a function on byte strings.
\<close>

section \<open>The port of the workflow\<close>

record workflow_request =
  wq_invoice_id :: uuid
  wq_object_key :: string
  wq_cipher_hash :: string
  wq_key_ref :: string
  wq_mime :: string
  wq_nonce :: string
  wq_schema_version :: string

record 'd workflow_result =
  wr_invoice_id :: uuid
  wr_features :: "'d features"
  wr_confidence :: 'd
  wr_arithmetic_valid :: bool
  wr_mitigations :: mitigations
  wr_commitment :: string
  wr_schema_version :: string
  wr_model_version :: string
  wr_evidence :: string

definition validate_result :: "'d decimal_ops \<Rightarrow> 'd workflow_result \<Rightarrow> workflow_request \<Rightarrow> unit result" where
  "validate_result D r q =
    (if wr_invoice_id r \<noteq> wq_invoice_id q then Inl (Invalid ''invoice_id'')
     else if wq_schema_version q \<noteq> [] \<and> wr_schema_version r \<noteq> wq_schema_version q then Inl (Invalid ''schema_version'')
     else if \<not> commitment_hex (to_lower (wr_commitment r)) then Inl (Invalid ''commitment'')
     else if d_is_negative D (wr_confidence r) \<or> d_cmp D (wr_confidence r) (one_rate D) > 0
       then Inl (Invalid ''confidence'')
     else checked (features_validate D (wr_features r)) (Inr ()))"

type_synonym ('d, 'n) workflow = "workflow_request \<Rightarrow> 'n \<Rightarrow> 'd workflow_result result \<times> 'n"

definition collected_elsewhere :: app_error where
  "collected_elsewhere = External ''the confidential workflow collects its own work''"

definition pending_workflow :: "('d, 'n) workflow" where
  "pending_workflow q n = (Inl collected_elsewhere, n)"

definition derive_nonce :: "(string \<Rightarrow> string) \<Rightarrow> uuid_ops \<Rightarrow> uuid \<Rightarrow> string \<Rightarrow> string" where
  "derive_nonce H U i cipher_hash =
    hex_encode (take 16 (H (''factorflow:confidential:'' @ uuid_string U i @ ''|'' @ to_lower (trim_space cipher_hash))))"

definition feature_schema_v1 :: string where "feature_schema_v1 = ''features-v1''"

section \<open>The workflow of the offline demo\<close>

definition seed_byte :: "string \<Rightarrow> nat \<Rightarrow> int" where
  "seed_byte seed k = of_char (seed ! k)"

definition seed_feature :: "'d decimal_ops \<Rightarrow> string \<Rightarrow> nat \<Rightarrow> 'd" where
  "seed_feature D seed k =
    (case rate_from_fraction D (seed_byte seed k * 256 + seed_byte seed (k + 1)) 65535 of
       Inl e \<Rightarrow> d_zero D
     | Inr r \<Rightarrow> rate_quantize D r rate_scale)"

definition bool_text :: "bool \<Rightarrow> string" where
  "bool_text b = (if b then ''true'' else ''false'')"

definition commit_text :: "'d decimal_ops \<Rightarrow> uuid_ops \<Rightarrow> workflow_request \<Rightarrow> 'd workflow_result \<Rightarrow> string" where
  "commit_text D U q r =
    uuid_string U (wq_invoice_id q) @ ''|'' @ to_lower (wq_cipher_hash q) @ ''|'' @ wq_nonce q @ ''|''
    @ wr_schema_version r @ ''|'' @ wr_model_version r
    @ concat (map (\<lambda>(name, v). ''|'' @ name @ ''='' @ rate_string_fixed D v rate_scale) (feature_values (wr_features r)))
    @ ''|confidence='' @ rate_string_fixed D (wr_confidence r) rate_scale
    @ ''|arithmetic='' @ bool_text (wr_arithmetic_valid r)
    @ ''|recourse='' @ bool_text (recourse (wr_mitigations r))
    @ ''|collateral='' @ bool_text (collateralized (wr_mitigations r))"

definition commit_result ::
  "(string \<Rightarrow> string) \<Rightarrow> 'd decimal_ops \<Rightarrow> uuid_ops \<Rightarrow> workflow_request \<Rightarrow> 'd workflow_result \<Rightarrow> string" where
  "commit_result H D U q r = ''0x'' @ hex_encode (H (commit_text D U q r))"

definition seed_features :: "'d decimal_ops \<Rightarrow> string \<Rightarrow> 'd features" where
  "seed_features D seed =
    \<lparr>dso_norm = seed_feature D seed 0, late_payment_rate = seed_feature D seed 2,
     dispute_flag = (if seed_byte seed 10 mod 4 = 0 then one_rate D else d_zero D),
     debtor_concentration = seed_feature D seed 4, market_volatility = seed_feature D seed 6,
     debtor_risk = seed_feature D seed 8\<rparr>"

definition deterministic_workflow ::
  "(string \<Rightarrow> string) \<Rightarrow> 'd decimal_ops \<Rightarrow> uuid_ops \<Rightarrow> string \<Rightarrow> ('d, 'n) workflow" where
  "deterministic_workflow H D U schema q n =
    (if wq_invoice_id q = uuid_nil then (Inl (Invalid ''invoice_id''), n)
     else if wq_cipher_hash q = [] then (Inl (Invalid ''cipher_hash''), n)
     else let seed = H (wq_cipher_hash q @ ''|'' @ uuid_string U (wq_invoice_id q))
       in (and_then (rate_from_fraction D (880 + seed_byte seed 11 mod 120) 1000) (\<lambda>confidence.
           let r = \<lparr>wr_invoice_id = wq_invoice_id q, wr_features = seed_features D seed,
             wr_confidence = rate_quantize D confidence rate_scale, wr_arithmetic_valid = True,
             wr_mitigations = \<lparr>recourse = seed_byte seed 12 mod 2 = 0, collateralized = seed_byte seed 13 mod 3 = 0\<rparr>,
             wr_commitment = [], wr_schema_version = (if schema = [] then feature_schema_v1 else schema),
             wr_model_version = ''risk-v1'', wr_evidence = ''deterministic-local-workflow''\<rparr>
           in Inr (r\<lparr>wr_commitment := commit_result H D U q r\<rparr>)), n))"

section \<open>The worker\<close>

definition action_assessed :: string where "action_assessed = ''invoice.assessed''"

text \<open>What the worker was wired with; a client of no language model is normal.\<close>

record ('d, 'n) assessor =
  asr_workflow :: "('d, 'n) workflow"
  asr_provider :: "('d, 'n) provider"
  asr_normalizer :: "'d normalizer_params"
  asr_model :: "'d risk_model"
  asr_query :: market_query
  asr_client :: "'n language_model option"
  asr_rate_text :: "'d \<Rightarrow> string"

record assess_order =
  ao_invoice_id :: uuid
  ao_object_key :: string
  ao_cipher_hash :: string
  ao_key_ref :: string
  ao_mime :: string

definition workflow_request_of :: "(string \<Rightarrow> string) \<Rightarrow> uuid_ops \<Rightarrow> assess_order \<Rightarrow> workflow_request" where
  "workflow_request_of H U c =
    \<lparr>wq_invoice_id = ao_invoice_id c, wq_object_key = ao_object_key c, wq_cipher_hash = ao_cipher_hash c,
     wq_key_ref = ao_key_ref c, wq_mime = ao_mime c, wq_nonce = derive_nonce H U (ao_invoice_id c) (ao_cipher_hash c),
     wq_schema_version = feature_schema_v1\<rparr>"

definition run_workflow ::
  "'d decimal_ops \<Rightarrow> ('d, 'n) workflow \<Rightarrow> workflow_request \<Rightarrow> 'n \<Rightarrow> 'd workflow_result result \<times> 'n" where
  "run_workflow D w q n =
    (case w q n of
       (Inl e, n') \<Rightarrow> (Inl (if e = collected_elsewhere then e else ErrUnavailable), n')
     | (Inr r, n') \<Rightarrow> (and_then (validate_result D r q) (\<lambda>_. Inr r), n'))"

definition fresh_snapshot ::
  "(string \<Rightarrow> string) \<Rightarrow> 'd decimal_ops \<Rightarrow> ('d, 'n) assessor \<Rightarrow> instant \<Rightarrow> 'n \<Rightarrow> 'd snapshot result \<times> 'n" where
  "fresh_snapshot H D A now n =
    (let (x, n') = take_snapshot H D (asr_normalizer A) (asr_provider A) (asr_query A) now n
     in (and_then x (\<lambda>x. and_then (ensure_fresh now x) (\<lambda>_. Inr x)), n'))"

text \<open>The market's own volatility replaces the one the workflow reported.\<close>

definition score_receivable ::
  "'d decimal_ops \<Rightarrow> 'd risk_model \<Rightarrow> request \<Rightarrow> invoice \<Rightarrow> 'd snapshot \<Rightarrow> workflow_request \<Rightarrow> 'd workflow_result \<Rightarrow>
    'd assessment result" where
  "score_receivable D m rq v x q r =
    (if inv_days_to_due v (rq_now rq) \<le> 0 then Inl (Invalid ''due_at'')
     else assess D m
       \<lparr>as_id = rq_ids rq 0, as_invoice_id = inv_id v, as_face = inv_face v,
        as_days_to_due = inv_days_to_due v (rq_now rq),
        as_features = (wr_features r)\<lparr>market_volatility := sn_volatility x\<rparr>, as_confidence = wr_confidence r,
        as_mitigations = wr_mitigations r, as_arithmetic_valid = wr_arithmetic_valid r,
        as_benchmark = sn_benchmark x, as_liquidity_premium = sn_liquidity_premium x,
        as_market_snapshot_hash = sn_payload_hash x, as_confidential_commitment = wr_commitment r,
        as_confidential_nonce = wq_nonce q\<rparr> (rq_now rq))"

definition commit_assessment_tx ::
  "uuid_ops \<Rightarrow> 'd decimal_ops \<Rightarrow> request \<Rightarrow> invoice \<Rightarrow> 'd snapshot \<Rightarrow> 'd assessment \<Rightarrow> 'd store \<Rightarrow>
    (unit \<times> 'd store) result" where
  "commit_assessment_tx U D rq v x a s =
    (case derive D (Some a) (rq_now rq) of
       None \<Rightarrow> Inl Panic
     | Some e \<Rightarrow>
         and_then (save_explanation e (save_assessment a (save_snapshot x s))) (\<lambda>s1.
         and_then (complete_assessment (am_id a) (rq_now rq) v) (\<lambda>v'.
         and_then (update_invoice v' (inv_version v) s1) (\<lambda>s2.
         and_then (annotate U rq system_actor action_assessed invoice_entity (inv_id v')
             [(''assessment_id'', id_detail U (am_id a)), (''model_version'', DetailText (am_model_version a)),
              (''grade'', DetailText (am_grade a)), (''market_snapshot_hash'', DetailText (am_market_snapshot_hash a)),
              (''confidential_commitment'', DetailText (am_confidential_commitment a)),
              (''requires_manual_review'', DetailBool (am_requires_manual_review a)),
              (''status'', DetailText (inv_status_string (inv_status v')))] s2) (\<lambda>s3.
         Inr ((), s3))))))"

definition commit_assessment ::
  "uuid_ops \<Rightarrow> 'd decimal_ops \<Rightarrow> request \<Rightarrow> invoice \<Rightarrow> 'd snapshot \<Rightarrow> 'd assessment \<Rightarrow> 'd store \<Rightarrow> unit result \<times> 'd store" where
  "commit_assessment U D rq v x a = in_tx (commit_assessment_tx U D rq v x a)"

text \<open>The cause comes back when the failure could be stored, the error of storing it otherwise. The reason is cut
  as \<^const>\<open>safe_reason\<close> of the issuance worker cuts it.\<close>

definition record_assess_failure ::
  "(app_error \<Rightarrow> string) \<Rightarrow> request \<Rightarrow> uuid \<Rightarrow> app_error \<Rightarrow> 'd store \<Rightarrow> unit result \<times> 'd store" where
  "record_assess_failure err_text rq i cause s =
    (case in_tx (\<lambda>s.
        and_then (get_invoice i s) (\<lambda>v.
        if inv_status v \<noteq> InvExtracting then Inr ((), s)
        else and_then (fail_assessment (safe_reason (err_text cause)) (rq_now rq) v) (\<lambda>v'.
             and_then (update_invoice v' (inv_version v) s) (\<lambda>t. Inr ((), t))))) s of
       (Inl e, t) \<Rightarrow> (Inl e, t)
     | (Inr _, t) \<Rightarrow> (Inl cause, t))"

definition narrate_assessment ::
  "'d decimal_ops \<Rightarrow> ('d, 'n) assessor \<Rightarrow> request \<Rightarrow> 'd assessment \<Rightarrow> 'd store \<times> 'n \<Rightarrow> 'd store \<times> 'n" where
  "narrate_assessment D A rq a = (\<lambda>(s, n).
    if asr_client A = None then (s, n)
    else case narrator D (asr_rate_text A) (asr_client A) (Some a) (rq_now rq) n of
      (None, n') \<Rightarrow> (s, n')
    | (Some e, n') \<Rightarrow>
        if ex_source e \<noteq> source_model then (s, n')
        else (snd (in_tx (\<lambda>s. and_then (save_explanation e s) (\<lambda>t. Inr ((), t))) s), n'))"

text \<open>From a trusted result to a stored price, which both ways of answering share.\<close>

definition price_and_store ::
  "(app_error \<Rightarrow> string) \<Rightarrow> (string \<Rightarrow> string) \<Rightarrow> 'd decimal_ops \<Rightarrow> uuid_ops \<Rightarrow> ('d, 'n) assessor \<Rightarrow> request \<Rightarrow> invoice \<Rightarrow>
    workflow_request \<Rightarrow> 'd workflow_result \<Rightarrow> 'd store \<times> 'n \<Rightarrow> unit result \<times> 'd store \<times> 'n" where
  "price_and_store err_text H D U A rq v q r = (\<lambda>(s, n).
    case fresh_snapshot H D A (rq_now rq) n of
      (Inl e, n1) \<Rightarrow> (let (res, t) = record_assess_failure err_text rq (inv_id v) e s in (res, t, n1))
    | (Inr x, n1) \<Rightarrow>
        (case score_receivable D (asr_model A) rq v x q r of
           Inl e \<Rightarrow> (let (res, t) = record_assess_failure err_text rq (inv_id v) e s in (res, t, n1))
         | Inr a \<Rightarrow>
             (case commit_assessment U D rq v x a s of
                (Inl e, t) \<Rightarrow> (Inl e, t, n1)
              | (Inr _, t) \<Rightarrow> (let (t', n2) = narrate_assessment D A rq a (t, n1) in (Inr (), t', n2)))))"

definition handle_assess ::
  "(app_error \<Rightarrow> string) \<Rightarrow> (string \<Rightarrow> string) \<Rightarrow> 'd decimal_ops \<Rightarrow> uuid_ops \<Rightarrow> ('d, 'n) assessor \<Rightarrow> request \<Rightarrow> assess_order \<Rightarrow>
    'd store \<times> 'n \<Rightarrow> unit result \<times> 'd store \<times> 'n" where
  "handle_assess err_text H D U A rq c = (\<lambda>(s, n).
    if ao_invoice_id c = uuid_nil then (Inl (Invalid ''invoice_id''), s, n)
    else case get_invoice (ao_invoice_id c) s of
      Inl e \<Rightarrow> (Inl e, s, n)
    | Inr v \<Rightarrow>
        if inv_status v \<noteq> InvExtracting then (Inr (), s, n)
        else (case run_workflow D (asr_workflow A) (workflow_request_of H U c) n of
            (Inl e, n1) \<Rightarrow>
              if e = collected_elsewhere then (Inr (), s, n1)
              else (let (res, t) = record_assess_failure err_text rq (ao_invoice_id c) e s in (res, t, n1))
          | (Inr r, n1) \<Rightarrow> price_and_store err_text H D U A rq v (workflow_request_of H U c) r (s, n1)))"

text \<open>The other end of a workflow that collects its own work.\<close>

definition order_for :: "invoice \<Rightarrow> document \<Rightarrow> assess_order" where
  "order_for v doc =
    \<lparr>ao_invoice_id = inv_id v, ao_object_key = doc_object_key doc, ao_cipher_hash = doc_cipher_hash doc,
     ao_key_ref = doc_key_ref doc, ao_mime = doc_mime doc\<rparr>"

definition complete_elsewhere ::
  "(app_error \<Rightarrow> string) \<Rightarrow> (string \<Rightarrow> string) \<Rightarrow> 'd decimal_ops \<Rightarrow> uuid_ops \<Rightarrow> ('d, 'n) assessor \<Rightarrow> request \<Rightarrow> uuid \<Rightarrow>
    'd workflow_result \<Rightarrow> 'd store \<times> 'n \<Rightarrow> unit result \<times> 'd store \<times> 'n" where
  "complete_elsewhere err_text H D U A rq i r = (\<lambda>(s, n).
    case get_invoice i s of
      Inl e \<Rightarrow> (Inl e, s, n)
    | Inr v \<Rightarrow>
        if inv_status v \<noteq> InvExtracting then (Inl ErrConflict, s, n)
        else (case and_then (get_document (inv_id v) s) (\<lambda>doc.
              let q = workflow_request_of H U (order_for v doc) in and_then (validate_result D r q) (\<lambda>_. Inr q)) of
            Inl e \<Rightarrow> (Inl e, s, n)
          | Inr q \<Rightarrow> price_and_store err_text H D U A rq v q r (s, n)))"

end
