(* ===== verification/Marketplace.thy ===== *)
theory Marketplace
  imports Application Search_Facts
begin

text \<open>
  \<^verbatim>\<open>internal/app/marketplace/service.go\<close>: opening a batch over tokenized invoices, clearing it
  and withdrawing it. Each operation is one unit of work over the repositories. Clearing runs the solver,
  which may not return: \<open>None\<close>. The ids an operation draws are numbered in the order it draws them: one
  for every lot, then one for the batch.
\<close>

section \<open>Opening a batch\<close>

definition max_lots_per_auction :: nat where "max_lots_per_auction = 50"

definition action_created :: string where "action_created = ''auction.created''"
definition action_auction_opened :: string where "action_auction_opened = ''invoice.auction_opened''"
definition action_cleared :: string where "action_cleared = ''auction.cleared''"
definition action_cancelled :: string where "action_cancelled = ''auction.cancelled''"
definition action_invoice_allocated :: string where "action_invoice_allocated = ''invoice.allocated''"
definition action_invoice_released :: string where
  "action_invoice_released = ''invoice.auction_released''"

record open_params =
  op_invoice_ids :: "uuid list"
  op_opens_at :: instant
  op_closes_at :: instant

definition new_lot :: "invoice \<Rightarrow> 'd assessment \<Rightarrow> asset \<Rightarrow> uuid \<Rightarrow> instant \<Rightarrow> lot" where
  "new_lot v am a i now =
    \<lparr>lot_id = i, lot_invoice_id = inv_id v, lot_asset_id = tk_id a, lot_issuer_id = inv_issuer v,
     lot_debtor_ref = inv_debtor_ref v, lot_supply = inv_face v, lot_reserve_price = am_reserve_price am,
     lot_grade = am_grade am, lot_tenor_days = inv_days_to_due v now\<rparr>"

definition build_lot :: "request \<Rightarrow> actor \<Rightarrow> 'd store \<Rightarrow> nat \<times> uuid \<Rightarrow> (invoice \<times> lot) result" where
  "build_lot rq who s = (\<lambda>(n, invoice).
    and_then (get_invoice invoice s) (\<lambda>v.
    if \<not> may_act_for who (inv_issuer v) then Inl ErrNotFound
    else if inv_status v \<noteq> InvTokenized then Inl ErrConflict
    else and_then (latest_assessment (inv_id v) s) (\<lambda>am.
    and_then (get_asset_by_invoice (inv_id v) s) (\<lambda>a.
    if \<not> is_transferable a then Inl ErrConflict
    else if inv_days_to_due v (rq_now rq) \<le> 0 then Inl ErrConflict
    else let l = new_lot v am a (rq_ids rq n) (rq_now rq)
         in and_then (lot_validate l) (\<lambda>_. Inr (v, l))))))"

text \<open>One turn of the loop that moves the invoices into the batch.\<close>

definition list_invoice ::
  "uuid_ops \<Rightarrow> request \<Rightarrow> actor \<Rightarrow> auction \<Rightarrow> invoice \<Rightarrow> 'd store \<Rightarrow> 'd store result" where
  "list_invoice U rq who a v s =
    and_then (inv_open_auction (rq_now rq) v) (\<lambda>v'.
    and_then (update_invoice v' (inv_version v) s) (\<lambda>t.
    annotate U rq (uuid_string U (ac_organization_id who)) action_auction_opened invoice_entity (inv_id v')
      [(''auction_id'', id_detail U (auc_id a)), (''status'', DetailText (inv_status_string (inv_status v')))] t))"

definition open_auction_tx ::
  "uuid_ops \<Rightarrow> request \<Rightarrow> actor \<Rightarrow> open_params \<Rightarrow> 'd store \<Rightarrow> (auction \<times> 'd store) result" where
  "open_auction_tx U rq who p s =
    and_then (traverse (build_lot rq who s) (enumerate 0 (op_invoice_ids p))) (\<lambda>rows.
    and_then (new_auction \<lparr>nap_id = rq_ids rq (length rows), nap_issuer_id = ac_organization_id who,
        nap_lots = map snd rows, nap_opens_at = op_opens_at p, nap_closes_at = op_closes_at p\<rparr>
        (rq_now rq)) (\<lambda>draft.
    and_then (auc_open (rq_now rq) draft) (\<lambda>a.
    and_then (create_auction a s) (\<lambda>s1.
    and_then (fold_result (list_invoice U rq who a) (map fst rows) s1) (\<lambda>s2.
    and_then (annotate U rq (uuid_string U (ac_organization_id who)) action_created auction_entity (auc_id a)
        [(''lots'', DetailInt (int (length (auc_lots a)))),
         (''status'', DetailText (auc_status_string (auc_status a)))] s2) (\<lambda>s3.
    Inr (a, s3)))))))"

definition open_auction ::
  "uuid_ops \<Rightarrow> request \<Rightarrow> actor \<Rightarrow> open_params \<Rightarrow> 'd store \<Rightarrow> auction result \<times> 'd store" where
  "open_auction U rq who p s =
    (if ac_organization_id who = uuid_nil then (Inl ErrForbidden, s)
     else if op_invoice_ids p = [] then (Inl (Invalid ''invoice_ids''), s)
     else if length (op_invoice_ids p) > max_lots_per_auction then (Inl (Invalid ''invoice_ids''), s)
     else if \<not> distinct (op_invoice_ids p) then (Inl (Invalid ''invoice_ids''), s)
     else in_tx (open_auction_tx U rq who p) s)"

section \<open>Clearing a batch\<close>

definition record_bid_outcome :: "solution \<Rightarrow> 'd bid \<Rightarrow> 'd store \<Rightarrow> 'd store result" where
  "record_bid_outcome x b s =
    (if bid_status b \<noteq> BidActive then Inr s
     else update_bid (b\<lparr>bid_status := (if bid_id b \<in> al_bid_id ` set (sol_allocations x)
                                       then BidAllocated else BidRejected),
                        bid_version := bid_version b + 1\<rparr>) (bid_version b) s)"

definition record_bid_outcomes :: "'d bid list \<Rightarrow> solution \<Rightarrow> 'd store \<Rightarrow> 'd store result" where
  "record_bid_outcomes bids x = fold_result (record_bid_outcome x) bids"

definition unsold_reason :: string where "unsold_reason = ''no bid took this lot''"

definition record_invoice_outcome ::
  "uuid_ops \<Rightarrow> request \<Rightarrow> auction \<Rightarrow> solution \<Rightarrow> lot \<Rightarrow> 'd store \<Rightarrow> 'd store result" where
  "record_invoice_outcome U rq a x l s =
    and_then (get_invoice (lot_invoice_id l) s) (\<lambda>v.
    if inv_status v \<noteq> InvAuctionOpen then Inr s
    else let sold = lot_invoice_id l \<in> al_invoice_id ` set (sol_allocations x)
         in and_then (if sold then mark_allocated (rq_now rq) v
                      else inv_cancel_auction unsold_reason (rq_now rq) v) (\<lambda>v'.
            and_then (annotate U rq system_actor
                (if sold then action_invoice_allocated else action_invoice_released) invoice_entity (inv_id v')
                [(''auction_id'', id_detail U (auc_id a)),
                 (''status'', DetailText (inv_status_string (inv_status v')))] s) (\<lambda>t.
            update_invoice v' (inv_version v) t)))"

definition record_invoice_outcomes ::
  "uuid_ops \<Rightarrow> request \<Rightarrow> auction \<Rightarrow> solution \<Rightarrow> 'd store \<Rightarrow> 'd store result" where
  "record_invoice_outcomes U rq a x = fold_result (record_invoice_outcome U rq a x) (auc_lots a)"

text \<open>What follows the solver, with the batch in CLEARING.\<close>

definition record_clearing ::
  "uuid_ops \<Rightarrow> request \<Rightarrow> actor \<Rightarrow> auction \<Rightarrow> 'd bid list \<Rightarrow> solution \<Rightarrow> 'd store \<Rightarrow>
    (solution \<times> 'd store) result" where
  "record_clearing U rq who a bids x s =
    and_then (save_solution x s) (\<lambda>s1.
    and_then (record_bid_outcomes bids x s1) (\<lambda>s2.
    and_then (record_invoice_outcomes U rq a x s2) (\<lambda>s3.
    and_then (mark_cleared (sol_solver_version x) (sol_certificate_hash x) (rq_now rq) a) (\<lambda>a'.
    and_then (update_auction a' (auc_version a) s3) (\<lambda>s4.
    and_then (annotate U rq (actor_ref U who) action_cleared auction_entity (auc_id a')
        [(''certificate_hash'', DetailText (sol_certificate_hash x)),
         (''solver_version'', DetailText (sol_solver_version x)),
         (''allocations'', DetailInt (int (length (sol_allocations x)))),
         (''status'', DetailText (auc_status_string (auc_status a')))] s4) (\<lambda>s5.
    Inr (x, s5)))))))"

definition clear_auction_tx ::
  "(string \<Rightarrow> string) \<Rightarrow> 'd decimal_ops \<Rightarrow> uuid_ops \<Rightarrow> 'd solver \<Rightarrow> request \<Rightarrow> actor \<Rightarrow> uuid \<Rightarrow> 'd store \<Rightarrow>
    (solution \<times> 'd store) result option" where
  "clear_auction_tx H D U sv rq who auction s =
    run_then (Some (get_auction auction s)) (\<lambda>a.
    if \<not> may_act_for who (auc_issuer_id a) then Some (Inl ErrForbidden)
    else let bids = list_bids U (auc_id a) s in
      run_then (Some (start_clearing (rq_now rq) a)) (\<lambda>a1.
      run_then (Some (update_auction a1 (auc_version a) s)) (\<lambda>s1.
      run_then (clear_batch H D U sv (Some a1) (map Some bids)) (\<lambda>x.
      Some (record_clearing U rq who a1 bids x s1)))))"

definition clear_auction ::
  "(string \<Rightarrow> string) \<Rightarrow> 'd decimal_ops \<Rightarrow> uuid_ops \<Rightarrow> 'd solver \<Rightarrow> request \<Rightarrow> actor \<Rightarrow> uuid \<Rightarrow> 'd store \<Rightarrow>
    (solution result \<times> 'd store) option" where
  "clear_auction H D U sv rq who auction s =
    map_option (\<lambda>r. in_tx (\<lambda>_. r) s) (clear_auction_tx H D U sv rq who auction s)"

section \<open>Withdrawing a batch\<close>

definition release_invoice ::
  "uuid_ops \<Rightarrow> request \<Rightarrow> auction \<Rightarrow> string \<Rightarrow> lot \<Rightarrow> 'd store \<Rightarrow> 'd store result" where
  "release_invoice U rq a reason l s =
    and_then (get_invoice (lot_invoice_id l) s) (\<lambda>v.
    if inv_status v \<noteq> InvAuctionOpen then Inr s
    else and_then (inv_cancel_auction reason (rq_now rq) v) (\<lambda>v'.
         and_then (update_invoice v' (inv_version v) s) (\<lambda>t.
         annotate U rq system_actor action_invoice_released invoice_entity (inv_id v')
           [(''auction_id'', id_detail U (auc_id a)),
            (''status'', DetailText (inv_status_string (inv_status v')))] t)))"

definition release_invoices ::
  "uuid_ops \<Rightarrow> request \<Rightarrow> auction \<Rightarrow> string \<Rightarrow> 'd store \<Rightarrow> 'd store result" where
  "release_invoices U rq a reason = fold_result (release_invoice U rq a reason) (auc_lots a)"

definition cancel_auction_tx ::
  "uuid_ops \<Rightarrow> request \<Rightarrow> actor \<Rightarrow> uuid \<Rightarrow> string \<Rightarrow> 'd store \<Rightarrow> (auction \<times> 'd store) result" where
  "cancel_auction_tx U rq who auction reason s =
    and_then (get_auction auction s) (\<lambda>a.
    if \<not> may_act_for who (auc_issuer_id a) then Inl ErrForbidden
    else and_then (auc_cancel reason (rq_now rq) a) (\<lambda>a'.
         and_then (update_auction a' (auc_version a) s) (\<lambda>s1.
         and_then (release_invoices U rq a' reason s1) (\<lambda>s2.
         and_then (annotate U rq (actor_ref U who) action_cancelled auction_entity (auc_id a')
             [(''reason'', DetailText reason),
              (''status'', DetailText (auc_status_string (auc_status a')))] s2) (\<lambda>s3.
         Inr (a', s3))))))"

definition cancel_auction ::
  "uuid_ops \<Rightarrow> request \<Rightarrow> actor \<Rightarrow> uuid \<Rightarrow> string \<Rightarrow> 'd store \<Rightarrow> auction result \<times> 'd store" where
  "cancel_auction U rq who auction reason s = in_tx (cancel_auction_tx U rq who auction reason) s"

end
