(* ===== verification/Marketplace_Facts.thy ===== *)
theory Marketplace_Facts
  imports Marketplace
begin

text \<open>
  What opening, clearing and withdrawing a batch do to the store: which rows they write and what those
  rows become, that a clearing gives every bid and every receivable of the batch exactly one outcome, and
  that a receivable that went back to its issuer can never stand in a second batch.
\<close>

section \<open>Frames\<close>

definition invoices_only :: "'d store \<Rightarrow> 'd store \<Rightarrow> bool" where
  "invoices_only s t \<longleftrightarrow> t = s\<lparr>db_invoices := db_invoices t, db_events := db_events t\<rparr>"

lemma invoices_only_refl [simp]: "invoices_only s s"
  by (simp add: invoices_only_def)

lemma invoices_only_trans [trans]:
  assumes "invoices_only s t" and "invoices_only t u" shows "invoices_only s u"
proof -
  have "u = (s\<lparr>db_invoices := db_invoices t, db_events := db_events t\<rparr>)
      \<lparr>db_invoices := db_invoices u, db_events := db_events u\<rparr>"
    using assms unfolding invoices_only_def by metis
  then show ?thesis unfolding invoices_only_def by simp
qed

lemma invoices_only_tables:
  assumes "invoices_only s t"
  shows "db_bids t = db_bids s" "db_auctions t = db_auctions s" "db_assets t = db_assets s"
    "db_solutions t = db_solutions s" "db_settlements t = db_settlements s" "db_organizations t = db_organizations s"
  by (rule arg_cong [OF assms [unfolded invoices_only_def], THEN trans]; simp)+

lemma annotate_invoices_only: "annotate U rq actor action entity_type i details s = Inr t \<Longrightarrow> invoices_only s t"
  by (auto dest!: annotate_Inr simp: invoices_only_def)

lemma annotate_invoices: "annotate U rq actor action entity_type i details s = Inr t \<Longrightarrow> db_invoices t = db_invoices s"
  by (auto dest!: annotate_Inr)

lemma update_invoice_Inr:
  "update_invoice v e s = Inr t \<longleftrightarrow> (\<exists>w. get_invoice (inv_id v) s = Inr w \<and> inv_version w = e \<and>
     t = s\<lparr>db_invoices := table_put (inv_id v) v (db_invoices s)\<rparr>)"
  by (auto simp: update_invoice_def get_invoice_def result_simps)

section \<open>Outcomes of a clearing\<close>

definition invoice_outcome :: "instant \<Rightarrow> solution \<Rightarrow> invoice \<Rightarrow> invoice" where
  "invoice_outcome now x v =
    (if inv_status v \<noteq> InvAuctionOpen then v
     else if inv_id v \<in> al_invoice_id ` set (sol_allocations x)
     then v\<lparr>inv_status := InvAllocated, inv_version := inv_version v + 1, inv_updated_at := now\<rparr>
     else v\<lparr>inv_status := InvTokenized, inv_version := inv_version v + 1, inv_updated_at := now,
       inv_reason := unsold_reason\<rparr>)"

definition bid_outcome :: "solution \<Rightarrow> 'd bid \<Rightarrow> 'd bid" where
  "bid_outcome x b =
    (if bid_status b \<noteq> BidActive then b
     else b\<lparr>bid_status := (if bid_id b \<in> al_bid_id ` set (sol_allocations x) then BidAllocated else BidRejected),
       bid_version := bid_version b + 1\<rparr>)"

lemma invoice_outcome_idem [simp]: "invoice_outcome now x (invoice_outcome now x v) = invoice_outcome now x v"
  by (simp add: invoice_outcome_def)

lemma unsold_reason_clean: "clean_reason unsold_reason = Inr unsold_reason"
  by code_simp

lemma allocate_invoice:
  "inv_status v = InvAuctionOpen \<Longrightarrow> mark_allocated now v =
     Inr (v\<lparr>inv_status := InvAllocated, inv_version := inv_version v + 1, inv_updated_at := now\<rparr>)"
  by (simp add: mark_allocated_def inv_transition_def inv_can_transition_def)

lemma release_unsold_invoice:
  "inv_status v = InvAuctionOpen \<Longrightarrow> inv_cancel_auction unsold_reason now v =
     Inr (v\<lparr>inv_status := InvTokenized, inv_version := inv_version v + 1, inv_updated_at := now,
       inv_reason := unsold_reason\<rparr>)"
  by (simp add: inv_cancel_auction_def unsold_reason_clean inv_transition_def inv_can_transition_def)

lemma record_invoice_outcome_Inr:
  assumes "record_invoice_outcome U rq a x l s = Inr t" and "keyed inv_id (db_invoices s)"
  shows "invoices_only s t" and "keyed inv_id (db_invoices t)"
    and "map_of (db_invoices t) = (map_of (db_invoices s))(lot_invoice_id l :=
      map_option (invoice_outcome (rq_now rq) x) (map_of (db_invoices s) (lot_invoice_id l)))"
    and "writes H s t"
proof -
  obtain v where v: "map_of (db_invoices s) (lot_invoice_id l) = Some v" "inv_id v = lot_invoice_id l"
    using assms by (auto simp: record_invoice_outcome_def get_invoice_def result_simps intro: keyed_lookup)
  have "invoices_only s t \<and> keyed inv_id (db_invoices t) \<and> map_of (db_invoices t) =
      (map_of (db_invoices s))(lot_invoice_id l \<mapsto> invoice_outcome (rq_now rq) x v) \<and> writes H s t"
  proof (cases "inv_status v = InvAuctionOpen")
    case False
    then have "t = s" using assms(1) v by (simp add: record_invoice_outcome_def get_invoice_def fetch_def)
    then show ?thesis using assms(2) v False by (auto simp: invoice_outcome_def)
  next
    case True
    define sold where "sold \<longleftrightarrow> lot_invoice_id l \<in> al_invoice_id ` set (sol_allocations x)"
    define v' where "v' = invoice_outcome (rq_now rq) x v"
    have v': "inv_id v' = inv_id v" by (simp add: v'_def invoice_outcome_def)
    have cmd: "(if sold then mark_allocated (rq_now rq) v
        else inv_cancel_auction unsold_reason (rq_now rq) v) = Inr v'"
      using True by (simp add: v'_def invoice_outcome_def sold_def v(2) allocate_invoice release_unsold_invoice)
    then have moved: "reaches inv_exec v v'"
      by (cases sold) (auto intro: reaches.intros reaches_step [where c = "MarkAllocated (rq_now rq)"]
          reaches_step [where c = "CancelAuction unsold_reason (rq_now rq)"])
    obtain u where u: "annotate U rq system_actor
          (if sold then action_invoice_allocated else action_invoice_released) invoice_entity (inv_id v')
          [(''auction_id'', id_detail U (auc_id a)), (''status'', DetailText (inv_status_string (inv_status v')))] s = Inr u"
      "update_invoice v' (inv_version v) u = Inr t"
      using assms(1) v True cmd
      by (auto simp: record_invoice_outcome_def get_invoice_def fetch_def Let_def result_simps sold_def [symmetric])
    have t: "t = u\<lparr>db_invoices := table_put (inv_id v') v' (db_invoices s)\<rparr>"
      using u(2) annotate_invoices [OF u(1)] by (auto simp: update_invoice_Inr)
    have "writes H s u" using write_entry [OF u(1)] by blast
    moreover have "sound_write H u t"
      by (rule write_invoice [OF _ moved u(2), of "lot_invoice_id l"])
        (simp add: get_invoice_def annotate_invoices [OF u(1)] v fetch_def)
    moreover have "invoices_only s t"
      using annotate_Inr [OF u(1)] unfolding t by (auto simp: invoices_only_def)
    ultimately show ?thesis
      using keyed_put [of inv_id "db_invoices s" v'] assms(2) v v' unfolding t
      by (auto simp: v'_def [symmetric])
  qed
  then show "invoices_only s t" and "keyed inv_id (db_invoices t)"
    and "map_of (db_invoices t) = (map_of (db_invoices s))(lot_invoice_id l :=
      map_option (invoice_outcome (rq_now rq) x) (map_of (db_invoices s) (lot_invoice_id l)))"
    and "writes H s t"
    using v by simp_all
qed

text \<open>A loop that treats each row its items name in the same way, once.\<close>

lemma fold_result_rows:
  fixes rows :: "'s \<Rightarrow> 'k \<Rightarrow> 'v option"
  assumes "fold_result f ls s = Inr t" and "P s"
    and step: "\<And>l s t. f l s = Inr t \<Longrightarrow> P s \<Longrightarrow> P t \<and> rows t = (rows s)(key l := map_option g (rows s (key l)))"
    and idem: "\<And>v. g (g v) = g v"
  shows "P t \<and> rows t = (\<lambda>i. if i \<in> key ` set ls then map_option g (rows s i) else rows s i)"
  using assms(1,2)
proof (induction ls arbitrary: s)
  case Nil
  then show ?case by auto
next
  case (Cons l ls)
  then obtain u where u: "f l s = Inr u" "fold_result f ls u = Inr t" by (auto simp: result_simps)
  have "map_option g (map_option g y) = map_option g y" for y
    by (cases y) (simp_all add: idem)
  then show ?case
    using Cons.IH [OF u(2)] step [OF u(1) Cons.prems(2)] by (auto simp: fun_eq_iff)
qed

lemma fold_result_writes:
  assumes "fold_result f ls s = Inr t" and "P s"
    and "\<And>l s t. f l s = Inr t \<Longrightarrow> P s \<Longrightarrow> P t \<and> writes H s t"
  shows "writes H s t"
proof -
  have "P t \<and> writes H s t"
    by (rule fold_result_invariant [OF assms(1), of "\<lambda>u. P u \<and> writes H s u"])
      (use assms(2,3) in \<open>auto intro: writes_trans\<close>)
  then show ?thesis ..
qed

lemma record_invoice_outcomes_Inr:
  assumes "record_invoice_outcomes U rq a x s = Inr t" and "keyed inv_id (db_invoices s)"
  shows "invoices_only s t" and "writes H s t"
    and "map_of (db_invoices t) = (\<lambda>i. if i \<in> lot_invoice_id ` set (auc_lots a)
      then map_option (invoice_outcome (rq_now rq) x) (map_of (db_invoices s) i) else map_of (db_invoices s) i)"
proof -
  have "(invoices_only s t \<and> keyed inv_id (db_invoices t)) \<and>
      map_of (db_invoices t) = (\<lambda>i. if i \<in> lot_invoice_id ` set (auc_lots a)
        then map_option (invoice_outcome (rq_now rq) x) (map_of (db_invoices s) i) else map_of (db_invoices s) i)"
    by (rule fold_result_rows [OF assms(1) [unfolded record_invoice_outcomes_def],
          where P = "\<lambda>u. invoices_only s u \<and> keyed inv_id (db_invoices u)" and key = lot_invoice_id])
      (use assms(2) in \<open>auto intro: invoices_only_trans record_invoice_outcome_Inr(1,2)
        simp: record_invoice_outcome_Inr(3)\<close>)
  then show "invoices_only s t"
    and "map_of (db_invoices t) = (\<lambda>i. if i \<in> lot_invoice_id ` set (auc_lots a)
      then map_option (invoice_outcome (rq_now rq) x) (map_of (db_invoices s) i) else map_of (db_invoices s) i)"
    by blast+
  show "writes H s t"
    by (rule fold_result_writes [OF assms(1) [unfolded record_invoice_outcomes_def],
          where P = "\<lambda>u. keyed inv_id (db_invoices u)"])
      (use assms(2) in \<open>auto intro: record_invoice_outcome_Inr(2,4)\<close>)
qed

text \<open>The bids: those of the batch, each once.\<close>

definition bids_only :: "'d store \<Rightarrow> 'd store \<Rightarrow> bool" where
  "bids_only s t \<longleftrightarrow> t = s\<lparr>db_bids := db_bids t\<rparr>"

lemma update_bid_Inr:
  "update_bid b e s = Inr t \<longleftrightarrow> (\<exists>c. get_bid (bid_id b) s = Inr c \<and> bid_version c = e \<and>
     t = s\<lparr>db_bids := table_put (bid_id b) b (db_bids s)\<rparr>)"
  by (auto simp: update_bid_def get_bid_def result_simps)

lemma record_bid_outcomes_Inr:
  assumes "record_bid_outcomes bids x s = Inr t" and "keyed bid_id (db_bids s)" and "distinct (map bid_id bids)"
    and "\<And>b. b \<in> set bids \<Longrightarrow> map_of (db_bids s) (bid_id b) = Some b"
  shows "bids_only s t \<and> writes H s t \<and> map_of (db_bids t) = (\<lambda>i. if i \<in> bid_id ` set bids
    then map_option (bid_outcome x) (map_of (db_bids s) i) else map_of (db_bids s) i)"
  using assms
proof (induction bids arbitrary: s)
  case Nil
  then show ?case by (auto simp: record_bid_outcomes_def bids_only_def)
next
  case (Cons b bids)
  from Cons.prems(1) obtain u where u: "record_bid_outcome x b s = Inr u" "record_bid_outcomes bids x u = Inr t"
    by (auto simp: record_bid_outcomes_def result_simps)
  have b: "map_of (db_bids s) (bid_id b) = Some b" using Cons.prems(4) by simp
  have same: "bid_id (bid_outcome x b) = bid_id b" by (simp add: bid_outcome_def)
  have rows: "map_of (db_bids u) = (map_of (db_bids s))(bid_id b \<mapsto> bid_outcome x b)"
    and only: "u = s\<lparr>db_bids := db_bids u\<rparr>" and keyed: "keyed bid_id (db_bids u)"
    and first: "writes H s u"
  proof -
    have "u = s \<and> bid_outcome x b = b \<or>
        (u = s\<lparr>db_bids := table_put (bid_id b) (bid_outcome x b) (db_bids s)\<rparr> \<and> sound_write H s u)"
    proof (cases "bid_status b = BidActive")
      case False
      then show ?thesis using u(1) by (simp add: record_bid_outcome_def bid_outcome_def)
    next
      case True
      then have written: "update_bid (bid_outcome x b) (bid_version b) s = Inr u"
        using u(1) by (simp add: record_bid_outcome_def bid_outcome_def)
      then show ?thesis using write_bid [OF written] same by (auto simp: update_bid_Inr)
    qed
    then show "map_of (db_bids u) = (map_of (db_bids s))(bid_id b \<mapsto> bid_outcome x b)"
      "u = s\<lparr>db_bids := db_bids u\<rparr>" "keyed bid_id (db_bids u)" "writes H s u"
      using b Cons.prems(2) keyed_put [of bid_id "db_bids s" "bid_outcome x b"] same by auto
  qed
  have "map_of (db_bids u) (bid_id c) = Some c" if "c \<in> set bids" for c
  proof -
    have "bid_id c \<noteq> bid_id b" using that Cons.prems(3) by (force simp: image_iff)
    then show ?thesis using that Cons.prems(4) rows by simp
  qed
  then have rest: "bids_only u t \<and> writes H u t \<and> map_of (db_bids t) = (\<lambda>i. if i \<in> bid_id ` set bids
      then map_option (bid_outcome x) (map_of (db_bids u) i) else map_of (db_bids u) i)"
    using Cons.IH [OF u(2) keyed] Cons.prems(3) by simp
  moreover have "bids_only s t"
  proof -
    have "t = (s\<lparr>db_bids := db_bids u\<rparr>)\<lparr>db_bids := db_bids t\<rparr>"
      using rest only unfolding bids_only_def by metis
    then show ?thesis unfolding bids_only_def by simp
  qed
  ultimately show ?case
    using first rows b Cons.prems(3) by (auto simp: fun_eq_iff intro: writes_trans)
qed

lemma list_bids_rows:
  assumes "keyed bid_id (db_bids s)"
  shows "distinct (map bid_id (list_bids U auction s))"
    and "b \<in> set (list_bids U auction s) \<longleftrightarrow> map_of (db_bids s) (bid_id b) = Some b \<and> bid_auction_id b = auction"
proof -
  have rows: "distinct (table_rows (db_bids s))" by (rule keyed_rows_distinct [OF assms])
  have member: "b \<in> set (table_rows (db_bids s)) \<longleftrightarrow> map_of (db_bids s) (bid_id b) = Some b" for b
    by (rule keyed_rows [OF assms])
  have "inj_on bid_id (set (table_rows (db_bids s)))"
    by (rule inj_onI) (use member in force)
  then show "distinct (map bid_id (list_bids U auction s))"
    using rows by (auto simp: list_bids_def distinct_map intro: inj_on_subset)
  show "b \<in> set (list_bids U auction s) \<longleftrightarrow> map_of (db_bids s) (bid_id b) = Some b \<and> bid_auction_id b = auction"
    by (auto simp: list_bids_def member)
qed

section \<open>Clearing\<close>

lemma auc_step: "auc_exec c a = Inr b \<Longrightarrow> reaches auc_exec a b"
  by (rule reaches_step [OF reaches_refl])

lemma update_auction_Inr:
  "update_auction a e s = Inr t \<longleftrightarrow> (\<exists>b. get_auction (auc_id a) s = Inr b \<and> auc_version b = e \<and>
     t = s\<lparr>db_auctions := table_put (auc_id a) a (db_auctions s)\<rparr>)"
  by (auto simp: update_auction_def get_auction_def result_simps)

lemma save_solution_Inr:
  "save_solution x s = Inr t \<longleftrightarrow> map_of (db_solutions s) (sol_auction_id x) = None \<and>
     t = s\<lparr>db_solutions := table_put (sol_auction_id x) x (db_solutions s)\<rparr>"
  by (auto simp: save_solution_def)

definition untouched_by_clearing where
  "untouched_by_clearing s = (db_organizations s, db_challenges s, db_sessions s, db_documents s,
     db_assessments s, db_explanations s, db_snapshots s, db_assets s, db_settlements s, db_repayments s,
     db_blobs s, db_outbox s)"

lemma record_clearing_Inr:
  assumes "record_clearing U rq who a bids x s = Inr (y, t)" and "keyed inv_id (db_invoices s)"
    and "keyed bid_id (db_bids s)" and "distinct (map bid_id bids)"
    and "\<And>b. b \<in> set bids \<Longrightarrow> map_of (db_bids s) (bid_id b) = Some b"
    and "get_auction (auc_id a) s = Inr a" and "sol_verified x"
  obtains c where "y = x" and "mark_cleared (sol_solver_version x) (sol_certificate_hash x) (rq_now rq) a = Inr c"
    and "map_of (db_auctions t) = (map_of (db_auctions s))(auc_id a \<mapsto> c)"
    and "map_of (db_solutions s) (sol_auction_id x) = None"
    and "map_of (db_solutions t) = (map_of (db_solutions s))(sol_auction_id x \<mapsto> x)"
    and "map_of (db_bids t) = (\<lambda>i. if i \<in> bid_id ` set bids
      then map_option (bid_outcome x) (map_of (db_bids s) i) else map_of (db_bids s) i)"
    and "map_of (db_invoices t) = (\<lambda>i. if i \<in> lot_invoice_id ` set (auc_lots a)
      then map_option (invoice_outcome (rq_now rq) x) (map_of (db_invoices s) i) else map_of (db_invoices s) i)"
    and "untouched_by_clearing t = untouched_by_clearing s" and "writes H s t"
proof -
  obtain s1 s2 s3 c s4 where run: "save_solution x s = Inr s1" "record_bid_outcomes bids x s1 = Inr s2"
    "record_invoice_outcomes U rq a x s2 = Inr s3"
    "mark_cleared (sol_solver_version x) (sol_certificate_hash x) (rq_now rq) a = Inr c"
    "update_auction c (auc_version a) s3 = Inr s4"
    "annotate U rq (actor_ref U who) action_cleared auction_entity (auc_id c)
      [(''certificate_hash'', DetailText (sol_certificate_hash x)),
       (''solver_version'', DetailText (sol_solver_version x)),
       (''allocations'', DetailInt (int (length (sol_allocations x)))),
       (''status'', DetailText (auc_status_string (auc_status c)))] s4 = Inr t" "y = x"
    using assms(1) by (auto simp: record_clearing_def result_simps)
  have s1: "map_of (db_solutions s) (sol_auction_id x) = None"
      "s1 = s\<lparr>db_solutions := table_put (sol_auction_id x) x (db_solutions s)\<rparr>"
    using run(1) by (simp_all add: save_solution_Inr)
  have bids: "bids_only s1 s2 \<and> writes H s1 s2 \<and> map_of (db_bids s2) = (\<lambda>i. if i \<in> bid_id ` set bids
      then map_option (bid_outcome x) (map_of (db_bids s1) i) else map_of (db_bids s1) i)"
    using record_bid_outcomes_Inr [OF run(2)] assms(3-5) by (simp add: s1(2))
  then obtain B where s2: "s2 = s1\<lparr>db_bids := B\<rparr>" unfolding bids_only_def by blast
  have keyed2: "keyed inv_id (db_invoices s2)" using assms(2) by (simp add: s2 s1(2))
  note invoices = record_invoice_outcomes_Inr [OF run(3) keyed2]
  then obtain V E where s3: "s3 = s2\<lparr>db_invoices := V, db_events := E\<rparr>" unfolding invoices_only_def by blast
  have cid: "auc_id c = auc_id a"
    using auc_exec_facts [of "AucCmdMarkCleared (sol_solver_version x) (sol_certificate_hash x) (rq_now rq)" a c]
      run(4) by (simp add: auc_facts_def)
  have s4: "s4 = s3\<lparr>db_auctions := table_put (auc_id a) c (db_auctions s3)\<rparr>"
    using run(5) by (auto simp: update_auction_Inr cid)
  obtain e where t: "t = s4\<lparr>db_events := db_events s4 @ [e]\<rparr>" using annotate_Inr [OF run(6)] by blast
  have "writes H s s1" using write_solution [OF run(1) assms(7)] by blast
  moreover have "sound_write H s3 s4"
    using assms(6) run(4) by (intro write_auction [OF _ auc_step run(5), of "auc_id a" a
        "AucCmdMarkCleared (sol_solver_version x) (sol_certificate_hash x) (rq_now rq)"])
      (simp_all add: get_auction_def s3 s2 s1(2))
  moreover have "sound_write H s4 t" by (rule write_entry [OF run(6)])
  moreover have "writes H s1 s3" using bids invoices(2) by (blast intro: writes_trans)
  ultimately have "writes H s t" by (blast intro: writes_trans writes_then)
  moreover have "map_of B = (\<lambda>i. if i \<in> bid_id ` set bids
      then map_option (bid_outcome x) (map_of (db_bids s) i) else map_of (db_bids s) i)"
    using bids by (simp add: s2 s1(2) cong: if_cong)
  moreover have "map_of V = (\<lambda>i. if i \<in> lot_invoice_id ` set (auc_lots a)
      then map_option (invoice_outcome (rq_now rq) x) (map_of (db_invoices s) i) else map_of (db_invoices s) i)"
    using invoices(3) by (simp add: s3 s2 s1(2) cong: if_cong)
  ultimately show thesis
    by (intro that [OF run(7) run(4)]) (simp_all add: t s4 s3 s2 s1 untouched_by_clearing_def)
qed

lemma clear_auction_Inr:
  assumes "clear_auction H D U sv rq who auction s = Some (Inr x, t)"
  obtains a a1 s1 where "get_auction auction s = Inr a" and "may_act_for who (auc_issuer_id a)"
    and "start_clearing (rq_now rq) a = Inr a1" and "update_auction a1 (auc_version a) s = Inr s1"
    and "clear_batch H D U sv (Some a1) (map Some (list_bids U (auc_id a) s)) = Some (Inr x)"
    and "record_clearing U rq who a1 (list_bids U (auc_id a) s) x s1 = Inr (x, t)"
    and "db_fail_commit t = None"
proof -
  have "clear_auction_tx H D U sv rq who auction s = Some (Inr (x, t)) \<and> db_fail_commit t = None"
    using assms by (auto simp: clear_auction_def in_tx_Inr)
  then show thesis
    using that by (auto simp: clear_auction_tx_def result_simps Let_def record_clearing_def split: if_splits)
qed

text \<open>The machine of the batch over a clearing.\<close>

lemma start_clearing_Inr:
  assumes "start_clearing now a = Inr a1"
  shows "auc_facts a1 = auc_facts a" and "auc_status a1 = AucClearing" and "auc_version a1 = auc_version a + 1"
    and "reaches auc_exec a a1"
  using assms auc_exec_facts [of "AucCmdStartClearing now" a a1] auc_step [of "AucCmdStartClearing now" a a1]
  by (auto simp: start_clearing_def result_simps)

lemma mark_cleared_Inr:
  assumes "mark_cleared version hash now a = Inr c"
  shows "auc_facts c = auc_facts a" and "auc_status c = AucCleared" and "auc_certificate_hash c = to_lower hash"
    and "auc_solver_version c = trim_space version" and "reaches auc_exec a c"
  using assms auc_exec_facts [of "AucCmdMarkCleared version hash now" a c]
    auc_step [of "AucCmdMarkCleared version hash now" a c]
  by (auto simp: mark_cleared_def Let_def result_simps)

lemma clear_auction_effect:
  assumes "store_keyed s" and "clear_auction H D U sv rq who auction s = Some (Inr x, t)"
  obtains a a1 c where "get_auction auction s = Inr a" and "auc_id a = auction"
    and "may_act_for who (auc_issuer_id a)"
    and "start_clearing (rq_now rq) a = Inr a1"
    and "clear_batch H D U sv (Some a1) (map Some (list_bids U auction s)) = Some (Inr x)"
    and "mark_cleared (sol_solver_version x) (sol_certificate_hash x) (rq_now rq) a1 = Inr c"
    and "map_of (db_auctions t) = (map_of (db_auctions s))(auction \<mapsto> c)"
    and "map_of (db_solutions s) (sol_auction_id x) = None"
    and "map_of (db_solutions t) = (map_of (db_solutions s))(sol_auction_id x \<mapsto> x)"
    and "map_of (db_bids t) = (\<lambda>i. case map_of (db_bids s) i of None \<Rightarrow> None
      | Some b \<Rightarrow> Some (if bid_auction_id b = auction then bid_outcome x b else b))"
    and "map_of (db_invoices t) = (\<lambda>i. if i \<in> lot_invoice_id ` set (auc_lots a)
      then map_option (invoice_outcome (rq_now rq) x) (map_of (db_invoices s) i) else map_of (db_invoices s) i)"
    and "untouched_by_clearing t = untouched_by_clearing s" and "writes H s t"
proof -
  obtain a a1 s1 where run: "get_auction auction s = Inr a" "may_act_for who (auc_issuer_id a)"
    "start_clearing (rq_now rq) a = Inr a1" "update_auction a1 (auc_version a) s = Inr s1"
    "clear_batch H D U sv (Some a1) (map Some (list_bids U (auc_id a) s)) = Some (Inr x)"
    "record_clearing U rq who a1 (list_bids U (auc_id a) s) x s1 = Inr (x, t)"
    using clear_auction_Inr [OF assms(2)] by metis
  have keyed: "keyed auc_id (db_auctions s)" "keyed bid_id (db_bids s)" "keyed inv_id (db_invoices s)"
    using assms(1) by (simp_all add: store_keyed_def)
  have aid: "auc_id a = auction" using run(1) by (intro keyed_lookup [OF keyed(1)]) (simp add: get_auction_def result_simps)
  note clearing = start_clearing_Inr [OF run(3)]
  have facts: "auc_id a1 = auction" "auc_lots a1 = auc_lots a"
    using clearing(1) aid by (simp_all add: auc_facts_def)
  have s1: "s1 = s\<lparr>db_auctions := table_put auction a1 (db_auctions s)\<rparr>"
    using run(4) by (auto simp: update_auction_Inr facts)
  have verified: "sol_verified x"
    using run(5) by (elim clear_batch_Inr) simp
  have listed: "b \<in> set (list_bids U auction s) \<longleftrightarrow> map_of (db_bids s) (bid_id b) = Some b \<and> bid_auction_id b = auction" for b
    by (rule list_bids_rows [OF keyed(2)])
  obtain c where c: "mark_cleared (sol_solver_version x) (sol_certificate_hash x) (rq_now rq) a1 = Inr c"
    "map_of (db_auctions t) = (map_of (db_auctions s1))(auc_id a1 \<mapsto> c)"
    "map_of (db_solutions s1) (sol_auction_id x) = None"
    "map_of (db_solutions t) = (map_of (db_solutions s1))(sol_auction_id x \<mapsto> x)"
    "map_of (db_bids t) = (\<lambda>i. if i \<in> bid_id ` set (list_bids U auction s)
      then map_option (bid_outcome x) (map_of (db_bids s1) i) else map_of (db_bids s1) i)"
    "map_of (db_invoices t) = (\<lambda>i. if i \<in> lot_invoice_id ` set (auc_lots a1)
      then map_option (invoice_outcome (rq_now rq) x) (map_of (db_invoices s1) i) else map_of (db_invoices s1) i)"
    "untouched_by_clearing t = untouched_by_clearing s1" "writes H s1 t"
  proof (rule record_clearing_Inr [OF run(6) [unfolded aid], where H = H])
    show "keyed inv_id (db_invoices s1)" "keyed bid_id (db_bids s1)" by (simp_all add: s1 keyed)
    show "distinct (map bid_id (list_bids U auction s))" by (rule list_bids_rows(1) [OF keyed(2)])
    show "map_of (db_bids s1) (bid_id b) = Some b" if "b \<in> set (list_bids U auction s)" for b
      using that listed by (simp add: s1)
    show "get_auction (auc_id a1) s1 = Inr a1" by (simp add: s1 facts get_auction_def fetch_def)
    show "sol_verified x" by (rule verified)
  qed (rule that)
  have "sound_write H s s1" using run(1) clearing(4) run(4) by (rule write_auction)
  then have "writes H s t" using c(8) by (rule converse_rtranclp_into_rtranclp)
  moreover have "map_of (db_bids t) = (\<lambda>i. case map_of (db_bids s) i of None \<Rightarrow> None
      | Some b \<Rightarrow> Some (if bid_auction_id b = auction then bid_outcome x b else b))"
  proof
    fix i
    show "map_of (db_bids t) i = (case map_of (db_bids s) i of None \<Rightarrow> None
      | Some b \<Rightarrow> Some (if bid_auction_id b = auction then bid_outcome x b else b))"
    proof (cases "map_of (db_bids s) i")
      case None
      then show ?thesis by (simp add: c(5) s1)
    next
      case (Some b)
      then have bi: "bid_id b = i" by (rule keyed_lookup [OF keyed(2)])
      have "c = b" if "c \<in> set (list_bids U auction s)" and "bid_id c = i" for c
        using that Some listed [of c] by simp
      then have "i \<in> bid_id ` set (list_bids U auction s) \<longleftrightarrow> b \<in> set (list_bids U auction s)"
        using bi by blast
      then have "i \<in> bid_id ` set (list_bids U auction s) \<longleftrightarrow> bid_auction_id b = auction"
        using listed [of b] Some bi by simp
      then show ?thesis using Some by (simp add: c(5) s1)
    qed
  qed
  moreover have "map_of (db_invoices t) = (\<lambda>i. if i \<in> lot_invoice_id ` set (auc_lots a)
      then map_option (invoice_outcome (rq_now rq) x) (map_of (db_invoices s) i) else map_of (db_invoices s) i)"
    using c(6) by (simp add: s1 facts cong: if_cong)
  moreover have "map_of (db_auctions t) = (map_of (db_auctions s))(auction \<mapsto> c)"
    "map_of (db_solutions s) (sol_auction_id x) = None"
    "map_of (db_solutions t) = (map_of (db_solutions s))(sol_auction_id x \<mapsto> x)"
    "untouched_by_clearing t = untouched_by_clearing s"
    using c(2,3,4,7) by (simp_all add: s1 facts untouched_by_clearing_def)
  ultimately show thesis by (intro that [OF run(1) aid run(2,3) run(5) [unfolded aid] c(1)])
qed

lemma clear_batch_auction:
  assumes "clear_batch H D U sv (Some a) bids = Some (Inr x)" shows "sol_auction_id x = auc_id a"
  using assms by (elim clear_batch_Inr)
    (auto simp: canonicalize_def materialize_def result_simps Let_def split: if_splits prod.splits)

section \<open>Withdrawing\<close>

definition released :: "instant \<Rightarrow> string \<Rightarrow> invoice \<Rightarrow> invoice" where
  "released now reason v =
    (if inv_status v \<noteq> InvAuctionOpen then v
     else v\<lparr>inv_status := InvTokenized, inv_version := inv_version v + 1, inv_updated_at := now,
       inv_reason := reason\<rparr>)"

lemma released_idem [simp]: "released now reason (released now reason v) = released now reason v"
  by (simp add: released_def)

lemma release_invoice_Inr:
  assumes "release_invoice U rq a reason l s = Inr t" and "keyed inv_id (db_invoices s)"
    and "clean_reason reason = Inr cleaned"
  shows "invoices_only s t" and "keyed inv_id (db_invoices t)"
    and "map_of (db_invoices t) = (map_of (db_invoices s))(lot_invoice_id l :=
      map_option (released (rq_now rq) cleaned) (map_of (db_invoices s) (lot_invoice_id l)))"
    and "writes H s t"
proof -
  obtain v where v: "map_of (db_invoices s) (lot_invoice_id l) = Some v" "inv_id v = lot_invoice_id l"
    using assms by (auto simp: release_invoice_def get_invoice_def result_simps intro: keyed_lookup)
  have "invoices_only s t \<and> keyed inv_id (db_invoices t) \<and> map_of (db_invoices t) =
      (map_of (db_invoices s))(lot_invoice_id l \<mapsto> released (rq_now rq) cleaned v) \<and> writes H s t"
  proof (cases "inv_status v = InvAuctionOpen")
    case False
    then have "t = s" using assms(1) v by (simp add: release_invoice_def get_invoice_def fetch_def)
    then show ?thesis using assms(2) v False by (auto simp: released_def)
  next
    case True
    define v' where "v' = released (rq_now rq) cleaned v"
    have cmd: "inv_cancel_auction reason (rq_now rq) v = Inr v'" and v': "inv_id v' = inv_id v"
      using True by (simp_all add: v'_def released_def inv_cancel_auction_def assms(3) inv_transition_def
          inv_can_transition_def)
    then have moved: "reaches inv_exec v v'"
      by (intro reaches_step [OF reaches_refl, where c = "CancelAuction reason (rq_now rq)"]) simp
    obtain u where u: "update_invoice v' (inv_version v) s = Inr u"
        "annotate U rq system_actor action_invoice_released invoice_entity (inv_id v')
          [(''auction_id'', id_detail U (auc_id a)), (''status'', DetailText (inv_status_string (inv_status v')))] u = Inr t"
      using assms(1) v True cmd by (auto simp: release_invoice_def get_invoice_def fetch_def result_simps)
    have u': "u = s\<lparr>db_invoices := table_put (inv_id v') v' (db_invoices s)\<rparr>"
      using u(1) by (auto simp: update_invoice_Inr)
    have "sound_write H s u"
      by (rule write_invoice [OF _ moved u(1), of "lot_invoice_id l"]) (simp add: get_invoice_def v fetch_def)
    moreover have "sound_write H u t" by (rule write_entry [OF u(2)])
    ultimately have "writes H s t" by (blast intro: writes_then)
    moreover have "invoices_only s t" using annotate_Inr [OF u(2)] unfolding u' by (auto simp: invoices_only_def)
    moreover have "db_invoices t = table_put (inv_id v') v' (db_invoices s)"
      using annotate_invoices [OF u(2)] by (simp add: u')
    ultimately show ?thesis
      using keyed_put [of inv_id "db_invoices s" v'] assms(2) v v' by (auto simp: v'_def [symmetric])
  qed
  then show "invoices_only s t" and "keyed inv_id (db_invoices t)"
    and "map_of (db_invoices t) = (map_of (db_invoices s))(lot_invoice_id l :=
      map_option (released (rq_now rq) cleaned) (map_of (db_invoices s) (lot_invoice_id l)))"
    and "writes H s t"
    using v by simp_all
qed

lemma release_invoices_Inr:
  assumes "release_invoices U rq a reason s = Inr t" and "keyed inv_id (db_invoices s)"
    and "clean_reason reason = Inr cleaned"
  shows "invoices_only s t" and "writes H s t"
    and "map_of (db_invoices t) = (\<lambda>i. if i \<in> lot_invoice_id ` set (auc_lots a)
      then map_option (released (rq_now rq) cleaned) (map_of (db_invoices s) i) else map_of (db_invoices s) i)"
proof -
  have "(invoices_only s t \<and> keyed inv_id (db_invoices t)) \<and>
      map_of (db_invoices t) = (\<lambda>i. if i \<in> lot_invoice_id ` set (auc_lots a)
        then map_option (released (rq_now rq) cleaned) (map_of (db_invoices s) i) else map_of (db_invoices s) i)"
    by (rule fold_result_rows [OF assms(1) [unfolded release_invoices_def],
          where P = "\<lambda>u. invoices_only s u \<and> keyed inv_id (db_invoices u)" and key = lot_invoice_id])
      (use assms(2) in \<open>auto intro: invoices_only_trans release_invoice_Inr(1,2) [OF _ _ assms(3)]
        simp: release_invoice_Inr(3) [OF _ _ assms(3)]\<close>)
  then show "invoices_only s t"
    and "map_of (db_invoices t) = (\<lambda>i. if i \<in> lot_invoice_id ` set (auc_lots a)
      then map_option (released (rq_now rq) cleaned) (map_of (db_invoices s) i) else map_of (db_invoices s) i)"
    by blast+
  show "writes H s t"
    by (rule fold_result_writes [OF assms(1) [unfolded release_invoices_def],
          where P = "\<lambda>u. keyed inv_id (db_invoices u)"])
      (use assms(2) in \<open>auto intro: release_invoice_Inr(2,4) [OF _ _ assms(3)]\<close>)
qed

lemma auc_cancel_Inr:
  assumes "auc_cancel reason now a = Inr c"
  shows "auc_facts c = auc_facts a" and "auc_status c = AucCancelled" and "reaches auc_exec a c"
    and "\<exists>cleaned. clean_reason reason = Inr cleaned"
  using assms auc_exec_facts [of "AucCmdCancel reason now" a c] auc_step [of "AucCmdCancel reason now" a c]
  by (auto simp: auc_cancel_def result_simps)

lemma cancel_auction_effect:
  assumes "keyed auc_id (db_auctions s)" and "keyed inv_id (db_invoices s)"
    and "cancel_auction_tx U rq who auction reason s = Inr (c, t)"
  obtains a cleaned where "get_auction auction s = Inr a" and "auc_id a = auction"
    and "may_act_for who (auc_issuer_id a)" and "auc_cancel reason (rq_now rq) a = Inr c"
    and "clean_reason reason = Inr cleaned"
    and "map_of (db_auctions t) = (map_of (db_auctions s))(auction \<mapsto> c)"
    and "map_of (db_invoices t) = (\<lambda>i. if i \<in> lot_invoice_id ` set (auc_lots a)
      then map_option (released (rq_now rq) cleaned) (map_of (db_invoices s) i) else map_of (db_invoices s) i)"
    and "db_assets t = db_assets s" and "writes H s t"
proof -
  obtain a s1 s2 where run: "get_auction auction s = Inr a" "may_act_for who (auc_issuer_id a)"
    "auc_cancel reason (rq_now rq) a = Inr c" "update_auction c (auc_version a) s = Inr s1"
    "release_invoices U rq c reason s1 = Inr s2"
    "annotate U rq (actor_ref U who) action_cancelled auction_entity (auc_id c)
       [(''reason'', DetailText reason), (''status'', DetailText (auc_status_string (auc_status c)))] s2 = Inr t"
    using assms(3) by (auto simp: cancel_auction_tx_def result_simps)
  have aid: "auc_id a = auction"
    using run(1) by (intro keyed_lookup [OF assms(1)]) (simp add: get_auction_def result_simps)
  note cancelled = auc_cancel_Inr [OF run(3)]
  then obtain cleaned where clean: "clean_reason reason = Inr cleaned" by blast
  have facts: "auc_id c = auction" "auc_lots c = auc_lots a"
    using cancelled(1) aid by (simp_all add: auc_facts_def)
  have s1: "s1 = s\<lparr>db_auctions := table_put auction c (db_auctions s)\<rparr>"
    using run(4) by (auto simp: update_auction_Inr facts)
  have "keyed inv_id (db_invoices s1)" using assms(2) by (simp add: s1)
  note rows = release_invoices_Inr [OF run(5) this clean]
  obtain e where t: "t = s2\<lparr>db_events := db_events s2 @ [e]\<rparr>" using annotate_Inr [OF run(6)] by blast
  have "sound_write H s s1" by (rule write_auction [OF run(1) cancelled(3) run(4)])
  moreover have "sound_write H s2 t" by (rule write_entry [OF run(6)])
  ultimately have "writes H s t" using rows(2) by (meson converse_rtranclp_into_rtranclp writes_then)
  then show thesis
    using rows(3) invoices_only_tables [OF rows(1)]
    by (intro that [OF run(1) aid run(2,3) clean]) (simp_all add: t s1 facts cong: if_cong)
qed

section \<open>Opening\<close>

lemma build_lot_Inr:
  assumes "build_lot rq who s (n, i) = Inr (v, l)" and "keyed inv_id (db_invoices s)"
  shows "inv_id v = i" and "get_invoice i s = Inr v" and "inv_status v = InvTokenized"
    and "may_act_for who (inv_issuer v)" and "lot_invoice_id l = i"
    and "\<exists>a. get_asset_by_invoice i s = Inr a \<and> is_transferable a \<and> lot_asset_id l = tk_id a"
proof -
  from assms(1) obtain a where run: "get_invoice i s = Inr v" "may_act_for who (inv_issuer v)"
    "inv_status v = InvTokenized" "get_asset_by_invoice (inv_id v) s = Inr a" "is_transferable a"
    "lot_invoice_id l = inv_id v" "lot_asset_id l = tk_id a"
    by (auto simp: build_lot_def result_simps Let_def new_lot_def)
  then have "inv_id v = i" by (intro keyed_lookup [OF assms(2)]) (simp add: get_invoice_def result_simps)
  with run show "inv_id v = i" and "get_invoice i s = Inr v" and "inv_status v = InvTokenized"
    and "may_act_for who (inv_issuer v)" and "lot_invoice_id l = i"
    and "\<exists>a. get_asset_by_invoice i s = Inr a \<and> is_transferable a \<and> lot_asset_id l = tk_id a"
    by auto
qed

lemma build_lots_Inr:
  assumes "traverse (build_lot rq who s) (enumerate n ids) = Inr rows" and "keyed inv_id (db_invoices s)"
  shows "map (inv_id \<circ> fst) rows = ids" and "map (lot_invoice_id \<circ> snd) rows = ids"
    and "\<And>v l. (v, l) \<in> set rows \<Longrightarrow> get_invoice (inv_id v) s = Inr v \<and> inv_status v = InvTokenized \<and>
      lot_invoice_id l = inv_id v \<and> may_act_for who (inv_issuer v) \<and>
      (\<exists>a. get_asset_by_invoice (inv_id v) s = Inr a \<and> is_transferable a \<and> lot_asset_id l = tk_id a)"
proof -
  have "map (inv_id \<circ> fst) rows = ids \<and> map (lot_invoice_id \<circ> snd) rows = ids \<and> (\<forall>(v, l) \<in> set rows.
      get_invoice (inv_id v) s = Inr v \<and> inv_status v = InvTokenized \<and> lot_invoice_id l = inv_id v \<and>
      may_act_for who (inv_issuer v) \<and>
      (\<exists>a. get_asset_by_invoice (inv_id v) s = Inr a \<and> is_transferable a \<and> lot_asset_id l = tk_id a))"
    using assms(1)
  proof (induction ids arbitrary: n rows)
    case Nil
    then show ?case by simp
  next
    case (Cons i ids)
    then obtain v l rest where rows: "build_lot rq who s (n, i) = Inr (v, l)" "rows = (v, l) # rest"
      "traverse (build_lot rq who s) (enumerate (Suc n) ids) = Inr rest"
      by (auto simp: and_then_Inr_iff)
    show ?case using Cons.IH [OF rows(3)] build_lot_Inr [OF rows(1) assms(2)] by (auto simp: rows(2))
  qed
  then show "map (inv_id \<circ> fst) rows = ids" and "map (lot_invoice_id \<circ> snd) rows = ids"
    and "\<And>v l. (v, l) \<in> set rows \<Longrightarrow> get_invoice (inv_id v) s = Inr v \<and> inv_status v = InvTokenized \<and>
      lot_invoice_id l = inv_id v \<and> may_act_for who (inv_issuer v) \<and>
      (\<exists>a. get_asset_by_invoice (inv_id v) s = Inr a \<and> is_transferable a \<and> lot_asset_id l = tk_id a)"
    by blast+
qed

lemma list_invoices_writes:
  assumes "fold_result (list_invoice U rq who a) vs s = Inr t" and "distinct (map inv_id vs)"
    and "\<And>v. v \<in> set vs \<Longrightarrow> get_invoice (inv_id v) s = Inr v"
  shows "writes H s t \<and> invoices_only s t"
  using assms
proof (induction vs arbitrary: s)
  case Nil
  then show ?case by simp
next
  case (Cons v vs)
  from Cons.prems(1) obtain v' u1 u where run: "inv_open_auction (rq_now rq) v = Inr v'"
    "update_invoice v' (inv_version v) s = Inr u1"
    "annotate U rq (uuid_string U (ac_organization_id who)) action_auction_opened invoice_entity (inv_id v')
      [(''auction_id'', id_detail U (auc_id a)), (''status'', DetailText (inv_status_string (inv_status v')))] u1 = Inr u"
    "fold_result (list_invoice U rq who a) vs u = Inr t"
    by (auto simp: list_invoice_def [of U rq who a v s] result_simps)
  have id: "inv_id v' = inv_id v" using run(1) by (auto simp: inv_open_auction_def result_simps)
  have u1: "u1 = s\<lparr>db_invoices := table_put (inv_id v) v' (db_invoices s)\<rparr>"
    using run(2) by (auto simp: update_invoice_Inr id)
  obtain e where u: "u = u1\<lparr>db_events := db_events u1 @ [e]\<rparr>" using annotate_Inr [OF run(3)] by blast
  have "reaches inv_exec v v'"
    using run(1) by (intro reaches_step [OF reaches_refl, where c = "OpenAuction (rq_now rq)"]) simp
  then have "sound_write H s u1" using Cons.prems(3) [of v] by (intro write_invoice [OF _ _ run(2)]) simp_all
  moreover have "sound_write H u1 u" by (rule write_entry [OF run(3)])
  moreover have "get_invoice (inv_id w) u = Inr w" if "w \<in> set vs" for w
  proof -
    have "inv_id w \<noteq> inv_id v" using that Cons.prems(2) by (force simp: image_iff)
    then show ?thesis using that Cons.prems(3) by (simp add: u u1 get_invoice_def fetch_def)
  qed
  then have rest: "writes H u t \<and> invoices_only u t" using Cons.IH [OF run(4)] Cons.prems(2) by simp
  moreover have "invoices_only s u" by (simp add: u u1 invoices_only_def)
  ultimately show ?case by (meson converse_rtranclp_into_rtranclp invoices_only_trans)
qed

lemma auc_open_Inr:
  assumes "auc_open now a = Inr b"
  shows "auc_facts b = auc_facts a" and "auc_status b = AucOpen" and "reaches auc_exec a b"
  using assms auc_exec_facts [of "AucCmdOpen now" a b] auc_step [of "AucCmdOpen now" a b]
  by (auto simp: auc_open_def result_simps split: if_splits)

lemma open_auction_effect:
  assumes "keyed inv_id (db_invoices s)" and "distinct (op_invoice_ids p)"
    and "open_auction_tx U rq who p s = Inr (a, t)"
  shows "map lot_invoice_id (auc_lots a) = op_invoice_ids p"
    and "\<And>l. l \<in> set (auc_lots a) \<Longrightarrow> lot_asset_id l \<notin> set (auctioned_assets s) \<and>
      (\<exists>v x. get_invoice (lot_invoice_id l) s = Inr v \<and> inv_status v = InvTokenized \<and> may_act_for who (inv_issuer v) \<and>
        get_asset_by_invoice (lot_invoice_id l) s = Inr x \<and> is_transferable x \<and> lot_asset_id l = tk_id x)"
    and "auc_status a = AucOpen" and "writes H s t"
proof -
  obtain rows draft s1 s2 where run: "traverse (build_lot rq who s) (enumerate 0 (op_invoice_ids p)) = Inr rows"
    "new_auction \<lparr>nap_id = rq_ids rq (length rows), nap_issuer_id = ac_organization_id who,
        nap_lots = map snd rows, nap_opens_at = op_opens_at p, nap_closes_at = op_closes_at p\<rparr>
        (rq_now rq) = Inr draft"
    "auc_open (rq_now rq) draft = Inr a" "create_auction a s = Inr s1"
    "fold_result (list_invoice U rq who a) (map fst rows) s1 = Inr s2"
    "annotate U rq (uuid_string U (ac_organization_id who)) action_created auction_entity (auc_id a)
        [(''lots'', DetailInt (int (length (auc_lots a)))),
         (''status'', DetailText (auc_status_string (auc_status a)))] s2 = Inr t"
    using assms(3) unfolding open_auction_tx_def and_then_Inr_iff by auto
  note lots = build_lots_Inr [OF run(1) assms(1)]
  note opened = auc_open_Inr [OF run(3)]
  have offered: "auc_lots a = map snd rows"
    using run(2) opened(1) by (auto simp: new_auction_Inr auc_facts_def)
  have s1: "s1 = s\<lparr>db_auctions := table_put (auc_id a) a (db_auctions s)\<rparr>"
    and fresh: "\<not> list_ex (\<lambda>l. lot_asset_id l \<in> set (auctioned_assets s)) (auc_lots a)"
    using run(4) by (auto simp: create_auction_def split: if_splits)
  show "map lot_invoice_id (auc_lots a) = op_invoice_ids p" using lots(2) by (simp add: offered)
  show "lot_asset_id l \<notin> set (auctioned_assets s) \<and>
      (\<exists>v x. get_invoice (lot_invoice_id l) s = Inr v \<and> inv_status v = InvTokenized \<and> may_act_for who (inv_issuer v) \<and>
        get_asset_by_invoice (lot_invoice_id l) s = Inr x \<and> is_transferable x \<and> lot_asset_id l = tk_id x)"
    if "l \<in> set (auc_lots a)" for l
  proof
    show "lot_asset_id l \<notin> set (auctioned_assets s)" using fresh that by (auto simp: list_ex_iff)
    from that obtain v where "(v, l) \<in> set rows" by (auto simp: offered)
    then show "\<exists>v x. get_invoice (lot_invoice_id l) s = Inr v \<and> inv_status v = InvTokenized \<and>
        may_act_for who (inv_issuer v) \<and> get_asset_by_invoice (lot_invoice_id l) s = Inr x \<and> is_transferable x \<and>
        lot_asset_id l = tk_id x"
      using lots(3) by fastforce
  qed
  show "auc_status a = AucOpen" by (rule opened(2))
  have "distinct (map lot_asset_id (auc_lots a))"
    using new_auction_lots(2) [OF run(2) list.set_sel(1) [OF new_auction_Inr(5) [OF run(2)]]] opened(1)
    by (simp add: auc_facts_def)
  moreover have "auc_sound a" using new_auction_sound [OF run(2)] auc_sound_reaches [OF opened(3)] by blast
  ultimately have "sound_write H s s1" by (intro write_create_auction [OF run(4)])
  moreover have "writes H s1 s2"
  proof (rule conjunct1, rule list_invoices_writes [OF run(5)])
    show "distinct (map inv_id (map fst rows))" using lots(1) assms(2) by simp
    show "get_invoice (inv_id v) s1 = Inr v" if "v \<in> set (map fst rows)" for v
      using that lots(3) by (auto simp: s1 get_invoice_def)
  qed
  moreover have "sound_write H s2 t" by (rule write_entry [OF run(6)])
  ultimately show "writes H s t" by (meson converse_rtranclp_into_rtranclp writes_then)
qed

section \<open>Every operation of the marketplace is a sequence of writes\<close>

lemma open_auction_writes:
  assumes "open_auction U rq who p s = (r, t)" and "store_keyed s" shows "writes H s t"
proof (cases "t = s")
  case False
  then have tx: "in_tx (open_auction_tx U rq who p) s = (r, t)" and "distinct (op_invoice_ids p)"
    using assms(1) by (auto simp: open_auction_def split: if_splits)
  then show ?thesis
    using assms(2) by (intro in_tx_writes [OF tx]) (auto simp: store_keyed_def dest: open_auction_effect(4))
qed simp

lemma cancel_auction_writes:
  assumes "cancel_auction U rq who auction reason s = (r, t)" and "store_keyed s" shows "writes H s t"
proof (rule in_tx_writes [OF assms(1) [unfolded cancel_auction_def]])
  show "writes H s u" if "cancel_auction_tx U rq who auction reason s = Inr (c, u)" for c u
    using assms(2) that by (auto simp: store_keyed_def elim!: cancel_auction_effect)
qed

lemma clear_auction_writes:
  assumes "clear_auction H D U sv rq who auction s = Some (r, t)" and "store_keyed s" shows "writes H s t"
proof (cases r)
  case (Inl e)
  then have "t = rollback s" using assms(1) by (auto simp: clear_auction_def dest!: in_tx_Inl)
  then show ?thesis by (simp add: write_plain r_into_rtranclp)
next
  case (Inr x)
  then show ?thesis using clear_auction_effect [OF assms(2), where H = H] assms(1) by metis
qed

section \<open>A market with one receivable on sale\<close>

definition market_invoice :: invoice where
  "market_invoice = sample_invoice\<lparr>inv_id := 2, inv_issuer := 4, inv_status := InvAuctionOpen\<rparr>"

definition market_store :: "rat store" where
  "market_store = empty_store\<lparr>db_auctions := [(5, sample_auction\<lparr>auc_status := AucOpen\<rparr>)],
     db_bids := [(7, sample_bid)], db_invoices := [(2, market_invoice)]\<rparr>"

definition market_request :: request where
  "market_request = \<lparr>rq_now = 25, rq_trace = ''t-1'', rq_ids = (\<lambda>n. of_nat (n + 100))\<rparr>"

definition market_issuer :: actor where
  "market_issuer = \<lparr>ac_organization_id = 4, ac_operator = False\<rparr>"

definition market_hash :: "string \<Rightarrow> string" where
  "market_hash t = replicate 32 (CHR ''a'')"

definition market_clearing :: auction where
  "market_clearing = sample_auction\<lparr>auc_status := AucClearing, auc_version := 2, auc_updated_at := 25\<rparr>"

definition market_solution :: solution where
  "market_solution = sample_clearing_result\<lparr>sol_verified := True,
     sol_certificate_hash := ''0x'' @ hex_encode (replicate 32 (CHR ''a''))\<rparr>"

lemma market_cleared:
  "clear_batch market_hash rat_decimal rfc_uuid sample_solver (Some market_clearing) [Some sample_bid] =
    Some (Inr market_solution)"
proof -
  have "canonicalize rat_decimal rfc_uuid sample_params (Some market_clearing) [Some sample_bid] = Inr sample_problem"
    by code_simp
  moreover have "verify rat_decimal rfc_uuid (Some market_clearing) [Some sample_bid]
      (Some sample_clearing_result) sample_params = Inr ()" by code_simp
  ultimately show ?thesis
    using sample_materialized
    by (simp add: clear_batch_def sample_solver_def sample_cleared market_solution_def certificate_def market_hash_def)
qed

lemma market_keyed: "store_keyed market_store"
  by (simp add: store_keyed_def market_store_def empty_store_def keyed_def market_invoice_def sample_bid_def
      sample_auction_def)

lemma market_started:
  "list_bids rfc_uuid 5 market_store = [sample_bid]"
  "get_auction 5 market_store = Inr (sample_auction\<lparr>auc_status := AucOpen\<rparr>)"
  "start_clearing 25 (sample_auction\<lparr>auc_status := AucOpen\<rparr>) = Inr market_clearing"
  "update_auction market_clearing 1 market_store = Inr (market_store\<lparr>db_auctions := [(5, market_clearing)]\<rparr>)"
  "may_act_for market_issuer 4"
  "auc_id sample_auction = 5" "auc_version sample_auction = 1" "auc_issuer_id sample_auction = 4"
  by code_simp+

lemma market_outcomes:
  "save_solution market_solution s = (if map_of (db_solutions s) 5 \<noteq> None then Inl ErrConflict
     else Inr (s\<lparr>db_solutions := table_put 5 market_solution (db_solutions s)\<rparr>))"
  "al_bid_id ` set (sol_allocations market_solution) = {7}"
  "al_invoice_id ` set (sol_allocations market_solution) = {2}"
  "auc_lots market_clearing = [sample_lot]" "lot_invoice_id sample_lot = 2" "auc_id market_clearing = 5"
  by (simp_all add: save_solution_def market_solution_def sample_clearing_result_def sample_solution_def
      market_clearing_def sample_auction_def sample_lot_def)

lemma market_marked:
  "\<exists>c. mark_cleared (sol_solver_version market_solution) (sol_certificate_hash market_solution) 25 market_clearing = Inr c \<and>
     auc_id c = 5"
proof -
  have "\<not> isl (mark_cleared (sol_solver_version market_solution) (sol_certificate_hash market_solution) 25 market_clearing)"
    by code_simp
  then obtain c where c: "mark_cleared (sol_solver_version market_solution) (sol_certificate_hash market_solution)
      25 market_clearing = Inr c" by (auto simp: not_isl_iff)
  then show ?thesis using mark_cleared_Inr(1) [OF c] by (simp add: auc_facts_def market_outcomes(6))
qed

lemma market_words [simp]:
  "trim_space action_cleared \<noteq> []" "trim_space action_invoice_allocated \<noteq> []"
  by code_simp+

lemma market_recorded:
  "\<exists>t. record_clearing rfc_uuid market_request market_issuer market_clearing [sample_bid] market_solution
    (market_store\<lparr>db_auctions := [(5, market_clearing)]\<rparr>) = Inr (market_solution, t) \<and> db_fail_commit t = None"
proof -
  obtain c where c: "mark_cleared (sol_solver_version market_solution) (sol_certificate_hash market_solution)
      25 market_clearing = Inr c" "auc_id c = 5" using market_marked by blast
  have now: "rq_now market_request = 25" by (simp add: market_request_def)
  have bid: "bid_id sample_bid = 7" "bid_status sample_bid = BidActive" by (simp_all add: sample_bid_def)
  have v: "inv_id market_invoice = 2" "inv_status market_invoice = InvAuctionOpen"
    by (simp_all add: market_invoice_def)
  show ?thesis
    by (simp add: record_clearing_def market_outcomes market_store_def empty_store_def record_bid_outcomes_def
        record_bid_outcome_def update_bid_Inr update_bid_def versioned_put_def fetch_def bid table_put_def
        record_invoice_outcomes_def record_invoice_outcome_def get_invoice_def v allocate_invoice now Let_def
        rfc.annotate_valid update_invoice_def c update_auction_def)
qed

definition market_asset :: asset where
  "market_asset = \<lparr>tk_id = 3, tk_invoice_id = 2, tk_issuer_id = 4, tk_network = ''local'', tk_token_id = ''tok'',
     tk_contract_id = [], tk_supply = \<lparr>minor = 100000, currency = ''USD''\<rparr>, tk_chain_status = ChainIssued,
     tk_transaction_id = [], tk_explorer_url = [], tk_created_at = 1, tk_updated_at = 1\<rparr>"

definition market_issued :: "rat store" where
  "market_issued = market_store\<lparr>db_assets := [(3, market_asset)]\<rparr>"

lemma market_issued_keyed: "store_keyed market_issued"
  using market_keyed by (simp add: store_keyed_def market_issued_def market_asset_def keyed_def)

lemma market_withdrawn:
  "\<exists>c t. cancel_auction rfc_uuid market_request market_issuer 5 ''no bids'' market_issued = (Inr c, t) \<and>
    auc_lots c = [sample_lot]"
proof -
  have "get_auction 5 market_issued = Inr (sample_auction\<lparr>auc_status := AucOpen\<rparr>)"
    "\<not> isl (auc_cancel ''no bids'' 25 (sample_auction\<lparr>auc_status := AucOpen\<rparr>))"
    "\<not> isl (inv_cancel_auction ''no bids'' 25 market_invoice)" by code_simp+
  then obtain c v where c: "get_auction 5 market_issued = Inr (sample_auction\<lparr>auc_status := AucOpen\<rparr>)"
    "auc_cancel ''no bids'' 25 (sample_auction\<lparr>auc_status := AucOpen\<rparr>) = Inr c"
    "inv_cancel_auction ''no bids'' 25 market_invoice = Inr v" by (auto simp: not_isl_iff)
  have facts: "auc_id c = 5" "auc_lots c = [sample_lot]" "inv_id v = 2"
    using auc_cancel_Inr(1) [OF c(2)] inv_exec_terms [of "CancelAuction ''no bids'' 25" market_invoice v] c(3)
    by (simp_all add: auc_facts_def sample_auction_def inv_terms_def market_invoice_def)
  have now: "rq_now market_request = 25" by (simp add: market_request_def)
  have status: "inv_status market_invoice = InvAuctionOpen" "inv_id market_invoice = 2"
    by (simp_all add: market_invoice_def)
  have words: "trim_space action_cancelled \<noteq> []" "trim_space action_invoice_released \<noteq> []" by code_simp+
  show ?thesis
    by (simp add: cancel_auction_def cancel_auction_tx_def c facts now market_started in_tx_def update_auction_def get_auction_def
        versioned_put_def fetch_def release_invoices_def release_invoice_def get_invoice_def update_invoice_def
        market_outcomes status words rfc.annotate_valid market_issued_def market_store_def empty_store_def
        table_put_def)
qed

section \<open>Properties\<close>



text \<open>A receivable stands in at most one batch for ever: after its batch was withdrawn it is back in
  TOKENIZED, ready to be listed, and still every attempt to open a batch over it is refused, whoever asks
  and whenever, because the asset of the withdrawn batch stays taken.\<close>

theorem withdrawn_receivable_cannot_be_relisted:
  assumes "store_keyed s" and "cancel_auction U rq who auction reason s = (Inr c, t)"
    and "l \<in> set (auc_lots c)" and "get_invoice (lot_invoice_id l) s = Inr v" and "inv_status v = InvAuctionOpen"
    and "get_asset_by_invoice (lot_invoice_id l) s = Inr x" and "tk_id x = lot_asset_id l"
    and "lot_invoice_id l \<in> set (op_invoice_ids p)"
  shows "auc_status c = AucCancelled \<and> (\<exists>w. get_invoice (lot_invoice_id l) t = Inr w \<and> inv_status w = InvTokenized) \<and>
    isl (fst (open_auction U rq' who' p t))"
proof -
  have keyed: "keyed auc_id (db_auctions s)" "keyed inv_id (db_invoices s)"
    using assms(1) by (simp_all add: store_keyed_def)
  have tx: "cancel_auction_tx U rq who auction reason s = Inr (c, t)"
    using assms(2) by (simp add: cancel_auction_def in_tx_Inr)
  obtain a cleaned where run: "auc_cancel reason (rq_now rq) a = Inr c"
    and tables: "map_of (db_auctions t) = (map_of (db_auctions s))(auction \<mapsto> c)"
      "map_of (db_invoices t) = (\<lambda>i. if i \<in> lot_invoice_id ` set (auc_lots a)
        then map_option (released (rq_now rq) cleaned) (map_of (db_invoices s) i) else map_of (db_invoices s) i)"
      "db_assets t = db_assets s" "writes H s t"
    by (rule cancel_auction_effect [OF keyed tx, where H = H]) (rule that, assumption+)
  note cancelled = auc_cancel_Inr [OF run]
  have "store_keyed t" using writes_steps [OF tables(4)] assms(1)
    by (induction rule: rtranclp_induct) (auto intro: store_keyed_step)
  then have keyed': "keyed auc_id (db_auctions t)" "keyed inv_id (db_invoices t)" by (simp_all add: store_keyed_def)
  have "auc_lots c = auc_lots a" using cancelled(1) by (simp add: auc_facts_def)
  then have "\<exists>w. get_invoice (lot_invoice_id l) t = Inr w \<and> inv_status w = InvTokenized"
    using assms(3-5) tables(2) by (auto simp: get_invoice_def fetch_Inr released_def)
  moreover have "isl (fst (open_auction U rq' who' p t))"
  proof (rule ccontr)
    assume "\<not> isl (fst (open_auction U rq' who' p t))"
    then obtain b u where "open_auction_tx U rq' who' p t = Inr (b, u)" and "distinct (op_invoice_ids p)"
      by (auto simp: open_auction_def in_tx_def split: if_splits sum.splits prod.splits option.splits)
    note opened = open_auction_effect [OF keyed'(2) this(2,1)]
    obtain m where m: "m \<in> set (auc_lots b)" "lot_invoice_id m = lot_invoice_id l"
      using assms(8) by (metis opened(1) image_iff set_map)
    have "lot_asset_id m = tk_id x"
      using opened(2) [OF m(1)] assms(6) m(2) by (auto simp: get_asset_by_invoice_def tables(3))
    moreover have "c \<in> set (table_rows (db_auctions t))"
      using keyed_rows [OF keyed'(1), of c] keyed_lookup [OF keyed'(1), of auction c] tables(1) by simp
    then have "lot_asset_id l \<in> set (auctioned_assets t)" using assms(3) by (auto simp: auctioned_assets_def)
    ultimately show False using opened(2) [OF m(1)] assms(7) by simp
  qed
  ultimately show ?thesis using cancelled(2) by blast
qed

theorem withdrawn_receivable_cannot_be_relisted_witness:
  "\<exists>c t. cancel_auction rfc_uuid market_request market_issuer 5 ''no bids'' market_issued = (Inr c, t) \<and>
    auc_status c = AucCancelled \<and> isl (fst (open_auction rfc_uuid market_request market_issuer
      \<lparr>op_invoice_ids = [2], op_opens_at = 10, op_closes_at = 90\<rparr> t))"
proof -
  obtain c t where run: "cancel_auction rfc_uuid market_request market_issuer 5 ''no bids'' market_issued = (Inr c, t)"
    "auc_lots c = [sample_lot]"
    using market_withdrawn by blast
  have rows: "get_invoice 2 market_issued = Inr market_invoice" "inv_status market_invoice = InvAuctionOpen"
    "get_asset_by_invoice 2 market_issued = Inr market_asset" "tk_id market_asset = lot_asset_id sample_lot"
    by code_simp+
  from withdrawn_receivable_cannot_be_relisted [OF market_issued_keyed run(1), of sample_lot market_invoice market_asset
      "\<lparr>op_invoice_ids = [2], op_opens_at = 10, op_closes_at = 90\<rparr>" market_request market_issuer]
  show ?thesis using run rows market_outcomes(5) by auto
qed

end
