(* ===== verification/Issuance_Facts.thy ===== *)
theory Issuance_Facts
  imports Issuance Marketplace_Facts
begin

text \<open>
  What a delivery of the issuance command does: it stores one asset for the receivable and moves it to
  TOKENIZED, or marks it FAILED; once the asset is stored the issuer is never asked again. The last lemmas show
  what a failure leaves behind.
\<close>

section \<open>Writes\<close>

lemma finish_issue_Inr:
  assumes "finish_issue U rq v a s = Inr (x, t)"
  obtains w s1 where "complete_tokenization (tk_id a) (rq_now rq) v = Inr w"
    and "update_invoice w (inv_version v) s = Inr s1" and "\<exists>e. t = s1\<lparr>db_events := db_events s1 @ [e]\<rparr>"
  using assms by (auto simp: finish_issue_def and_then_Inr_iff dest!: annotate_Inr)

lemma finish_issue_writes:
  assumes "finish_issue U rq v a s = Inr (x, t)" and "get_invoice i s = Inr v"
  shows "writes H s t"
proof -
  obtain w s1 details where run: "complete_tokenization (tk_id a) (rq_now rq) v = Inr w"
    "update_invoice w (inv_version v) s = Inr s1"
    "annotate U rq system_actor action_tokenized invoice_entity (inv_id w) details s1 = Inr t"
    using assms(1) by (auto simp: finish_issue_def and_then_Inr_iff)
  have "reaches inv_exec v w" by (rule inv_command [of "CompleteTokenization (tk_id a) (rq_now rq)"]) (simp add: run(1))
  from write_invoice [OF assms(2) this run(2)] write_entry [OF run(3)] show ?thesis
    by (blast intro: rtranclp.rtrancl_into_rtrancl)
qed

text \<open>A worker that gives up on an invoice marks it, unless the invoice has moved on.\<close>

lemma fail_invoice_writes:
  assumes "in_tx (\<lambda>s.
        and_then (get_invoice i s) (\<lambda>v.
        if inv_status v \<noteq> st then Inr ((), s)
        else and_then (f v) (\<lambda>v'. and_then (update_invoice v' (inv_version v) s) (\<lambda>t. Inr ((), t))))) s = (res, t)"
    and "\<And>v w. f v = Inr w \<Longrightarrow> reaches inv_exec v w"
  shows "writes H s t"
proof (rule in_tx_writes [OF assms(1)])
  fix y u
  assume "and_then (get_invoice i s) (\<lambda>v.
        if inv_status v \<noteq> st then Inr ((), s)
        else and_then (f v) (\<lambda>v'. and_then (update_invoice v' (inv_version v) s) (\<lambda>t. Inr ((), t)))) = Inr (y, u)"
  then consider "u = s" | v w where "get_invoice i s = Inr v" "f v = Inr w" "update_invoice w (inv_version v) s = Inr u"
    by (auto simp: and_then_Inr_iff split: if_splits)
  then show "writes H s u"
  proof cases
    case 2
    have "sound_write H s u" by (rule write_invoice [OF 2(1) assms(2) [OF 2(2)] 2(3)])
    then show ?thesis by blast
  qed simp
qed

lemma record_issue_failure_writes:
  assumes "record_issue_failure err_text rq i cause s = (r, t)" shows "writes H s t"
proof -
  obtain res where "in_tx (\<lambda>s.
        and_then (get_invoice i s) (\<lambda>v.
        if inv_status v \<noteq> InvTokenizing then Inr ((), s)
        else and_then (fail_tokenization (safe_reason (err_text cause)) (rq_now rq) v) (\<lambda>v'.
             and_then (update_invoice v' (inv_version v) s) (\<lambda>t. Inr ((), t))))) s = (res, t)"
    using assms by (auto simp: record_issue_failure_def split: prod.splits sum.splits)
  then show ?thesis
    by (rule fail_invoice_writes)
      (rule inv_command [of "FailTokenization (safe_reason (err_text cause)) (rq_now rq)"], simp)
qed

lemma asset_of_Inr:
  assumes "asset_of rq v res = Inr a"
  shows "asset_sound a" and "tk_invoice_id a = inv_id v" and "tk_supply a = inv_face v" and "tk_id a = rq_ids rq 0"
  using new_asset_Inr(1-4) [OF assms [unfolded asset_of_def]] by simp_all

lemma commit_issue_writes:
  assumes "commit_issue U rq v a s = (r, t)" and "get_invoice i s = Inr v" and "asset_sound a"
  shows "writes H s t"
proof (rule in_tx_writes [OF assms(1) [unfolded commit_issue_def]])
  fix x u
  assume "and_then (create_asset a s) (finish_issue U rq v a) = Inr (x, u)"
  then obtain s1 where s1: "create_asset a s = Inr s1" "finish_issue U rq v a s1 = Inr (x, u)"
    by (auto simp: and_then_Inr_iff)
  have "get_invoice i s1 = Inr v" using assms(2) s1(1) by (auto simp: create_asset_def get_invoice_def split: if_splits)
  from finish_issue_writes [OF s1(2) this] write_create_asset [OF s1(1) assms(3)] show "writes H s u"
    by (blast intro: converse_rtranclp_into_rtranclp)
qed

lemma handle_issue_writes:
  assumes "handle_issue err_text U D issue rq i (s, n) = (r, t, n')" shows "writes H s t"
proof -
  have "t = s \<or> (\<exists>v a. get_invoice i s = Inr v \<and> complete_issue U rq v a s = (r, t)) \<or>
      (\<exists>j e. record_issue_failure err_text rq j e s = (r, t)) \<or>
      (\<exists>v a. get_invoice i s = Inr v \<and> asset_sound a \<and> commit_issue U rq v a s = (r, t))"
    using assms
    by (auto simp: handle_issue_def accept_issue_def and_then_Inr_iff Let_def
        split: if_splits sum.splits prod.splits dest: asset_of_Inr(1))
  then show ?thesis
    by (elim disjE exE conjE)
      (auto simp: complete_issue_def intro: record_issue_failure_writes commit_issue_writes in_tx_writes finish_issue_writes)
qed

section \<open>What a delivery leaves\<close>

lemma find_row_put:
  "\<not> list_ex P (table_rows t) \<Longrightarrow> P v \<Longrightarrow> find_row P (table_put k v t) = Inr v"
  unfolding find_row_def table_put_def table_rows_def
  by (induction t) (auto split: option.splits)

lemma handle_issue_Inr:
  assumes "handle_issue err_text U D issue rq i (s, n) = (Inr u, t, n')" and "get_invoice i s = Inr v"
    and "inv_status v = InvTokenizing"
  obtains (found) a where "get_asset_by_invoice (inv_id v) s = Inr a" and "finish_issue U rq v a s = Inr ((), t)"
      and "n' = n"
  | (minted) e q res a s1 where "get_asset_by_invoice (inv_id v) s = Inl e" and "issue q n = (Inr res, n')"
      and "ir_invoice_id q = inv_id v" and "ir_supply q = inv_face v"
      and "asset_of rq v res = Inr a" and "create_asset a s = Inr s1" and "finish_issue U rq v a s1 = Inr ((), t)"
proof -
  have q: "ir_invoice_id q = inv_id v" "ir_supply q = inv_face v" if "request_of U D v am wallet = Inr q" for q am wallet
    using that by (auto simp: request_of_def and_then_Inr_iff)
  have "(\<exists>a. get_asset_by_invoice (inv_id v) s = Inr a \<and> complete_issue U rq v a s = (Inr u, t) \<and> n' = n) \<or>
    (\<exists>e q res a. get_asset_by_invoice (inv_id v) s = Inl e \<and> issue q n = (Inr res, n') \<and> ir_invoice_id q = inv_id v \<and>
       ir_supply q = inv_face v \<and> asset_of rq v res = Inr a \<and> commit_issue U rq v a s = (Inr u, t))"
    using assms
    by (auto simp: handle_issue_def accept_issue_def record_issue_failure_def and_then_Inr_iff Let_def
        split: if_splits sum.splits prod.splits) (blast dest: q)
  then show thesis
  proof (elim disjE exE conjE)
    fix a
    assume "get_asset_by_invoice (inv_id v) s = Inr a" "complete_issue U rq v a s = (Inr u, t)" "n' = n"
    then show thesis using found [of a] by (simp add: complete_issue_def in_tx_Inr)
  next
    fix e q res a
    assume m: "get_asset_by_invoice (inv_id v) s = Inl e" "issue q n = (Inr res, n')" "ir_invoice_id q = inv_id v"
      "ir_supply q = inv_face v" "asset_of rq v res = Inr a" "commit_issue U rq v a s = (Inr u, t)"
    then obtain s1 where "create_asset a s = Inr s1" "finish_issue U rq v a s1 = Inr ((), t)"
      by (auto simp: commit_issue_def in_tx_Inr and_then_Inr_iff)
    then show thesis using minted m by blast
  qed
qed

lemma finish_issue_rows:
  assumes "finish_issue U rq v a s = Inr (x, t)" and "inv_id v = i"
  shows "db_assets t = db_assets s"
    and "\<exists>w. get_invoice i t = Inr w \<and> inv_status w = InvTokenized \<and> inv_asset_id w = tk_id a \<and>
      inv_terms w = inv_terms v"
  using assms
  by (auto elim!: finish_issue_Inr simp: complete_tokenization_def and_then_Inr_iff inv_transition_Inr update_invoice_Inr
      get_invoice_def fetch_def inv_terms_def split: if_splits)

section \<open>The issuer is asked once\<close>

text \<open>An issuer that remembers what it was asked.\<close>

definition logged_issuer :: "'n issuer \<Rightarrow> ('n \<times> issue_request list) issuer" where
  "logged_issuer issue = (\<lambda>q (n, asked). let (answer, n') = issue q n in (answer, (n', asked @ [q])))"

lemma handle_issue_asked:
  assumes "handle_issue err_text U D (logged_issuer issue) rq i (s, n, asked) = (r, t, n', asked')"
    and "keyed inv_id (db_invoices s)"
  shows "asked' = asked \<or> (isl (get_asset_by_invoice i s) \<and> (\<exists>q. asked' = asked @ [q] \<and> ir_invoice_id q = i))"
proof (cases "get_invoice i s")
  case (Inl e)
  then show ?thesis using assms(1) by (auto simp: handle_issue_def split: if_splits)
next
  case (Inr v)
  then have "inv_id v = i" using keyed_lookup [OF assms(2)] by (auto simp: get_invoice_def result_simps)
  then show ?thesis using assms(1) Inr
    by (auto simp: handle_issue_def logged_issuer_def Let_def request_of_def and_then_Inr_iff
        split: if_splits sum.splits prod.splits)
qed

lemma asset_writes:
  assumes "store_step H s t"
  shows "db_assets t = db_assets s \<or> (\<exists>a. create_asset a s = Inr t) \<or>
    (\<exists>i a a'. get_asset i s = Inr a \<and> reaches asset_exec a a' \<and> update_asset a' s = Inr t)"
  using assms
proof cases
  case (step_create_asset a)
  then show ?thesis by blast
next
  case (step_asset i a a')
  then show ?thesis by blast
qed (auto simp: repository_defs result_simps Let_def split: option.splits)

definition has_asset :: "'d store \<Rightarrow> uuid \<Rightarrow> bool" where
  "has_asset s i \<longleftrightarrow> (\<exists>k a. map_of (db_assets s) k = Some a \<and> tk_invoice_id a = i)"

lemma has_asset_found: "has_asset s i \<Longrightarrow> \<not> isl (get_asset_by_invoice i s)"
  by (force simp: has_asset_def get_asset_by_invoice_def find_row_def table_rows_def find_None_iff
      dest!: map_of_SomeD split: option.splits)

lemma found_has_asset:
  assumes "get_asset_by_invoice i s = Inr a" and "keyed tk_id (db_assets s)" shows "has_asset s i"
proof -
  obtain k where "(k, a) \<in> set (db_assets s)" and i: "tk_invoice_id a = i"
    using find_row_Inr [of "\<lambda>a. tk_invoice_id a = i" "db_assets s" a] assms(1) by (auto simp: get_asset_by_invoice_def table_rows_def)
  then have "map_of (db_assets s) k = Some a" using assms(2) by (simp add: keyed_def)
  then show ?thesis using i by (auto simp: has_asset_def)
qed

text \<open>A write that creates an asset under an id that is not taken, as \<^verbatim>\<open>uuid.New\<close> promises.\<close>

definition fresh_write :: "(string \<Rightarrow> string) \<Rightarrow> 'd store \<Rightarrow> 'd store \<Rightarrow> bool" where
  "fresh_write H s t \<longleftrightarrow> store_step H s t \<and>
    (\<forall>a. create_asset a s = Inr t \<longrightarrow> map_of (db_assets s) (tk_id a) = None)"

lemma has_asset_step:
  assumes "fresh_write H s t" and "store_keyed s" and "has_asset s i" shows "has_asset t i"
proof -
  obtain k a where a: "map_of (db_assets s) k = Some a" "tk_invoice_id a = i" using assms(3) by (auto simp: has_asset_def)
  have "store_step H s t" using assms(1) by (simp add: fresh_write_def)
  from asset_writes [OF this] show ?thesis
  proof (elim disjE exE conjE)
    fix b
    assume b: "create_asset b s = Inr t"
    then have "map_of (db_assets s) (tk_id b) = None" using assms(1) by (simp add: fresh_write_def)
    then have "k \<noteq> tk_id b" using a(1) by auto
    then have "map_of (db_assets t) k = Some a"
      using a(1) b by (auto simp: create_asset_def table_put_def update_conv split: if_splits)
    then show ?thesis using a(2) by (auto simp: has_asset_def)
  next
    fix j b b'
    assume b: "get_asset j s = Inr b" "reaches asset_exec b b'" "update_asset b' s = Inr t"
    have j: "tk_id b = j" using b(1) assms(2) keyed_lookup by (auto simp: store_keyed_def get_asset_def fetch_Inr)
    have terms: "tk_id b' = tk_id b" "tk_invoice_id b' = tk_invoice_id b"
      using advanced_facts(3) [OF b(2)] by (simp_all add: asset_terms_def)
    have t: "map_of (db_assets t) = (map_of (db_assets s))(j \<mapsto> b')"
      using b(3) terms(1) j by (auto simp: update_asset_def and_then_Inr_iff table_put_def update_conv)
    show ?thesis
    proof (cases "k = j")
      case True
      then have "b = a" using a(1) b(1) by (simp add: get_asset_def fetch_Inr)
      then show ?thesis using a(2) terms(2) by (auto simp: has_asset_def t)
    next
      case False
      then show ?thesis using a by (auto simp: has_asset_def t)
    qed
  qed (use assms(3) in \<open>simp add: has_asset_def\<close>)
qed

lemma has_asset_always:
  assumes "(fresh_write H)\<^sup>*\<^sup>* s t" and "store_keyed s" and "has_asset s i"
  shows "store_keyed t \<and> has_asset t i"
  using assms(1)
proof (induction rule: rtranclp_induct)
  case base
  then show ?case using assms(2,3) by blast
next
  case (step t u)
  then show ?case using has_asset_step [OF step.hyps(2)] store_keyed_step by (metis fresh_write_def)
qed

section \<open>What a failure leaves\<close>

text \<open>When the issuer answers with an error, the receivable is marked FAILED, and from then on every delivery of
  the command is answered with success: the retry the worker counts on never happens.\<close>

lemma failed_issuance_is_not_retried:
  assumes "get_invoice i s = Inr v" and "inv_id v = i" and "i \<noteq> uuid_nil" and "inv_status v = InvTokenizing"
    and "get_asset_by_invoice i s = Inl e" and "is_not_found e" and "issue_inputs v s = Inr (am, wallet)"
    and "request_of U D v am wallet = Inr q" and "issue q n = (Inl cause, n')"
    and "clean_reason (safe_reason (err_text ErrUnavailable)) = Inr why" and "db_fail_commit s = None"
  shows "\<exists>t. handle_issue err_text U D issue rq i (s, n) = (Inl ErrUnavailable, t, n') \<and>
    (\<forall>rq' issue' m. handle_issue err_text U D issue' rq' i (t, m) = (Inr (), t, m))"
proof -
  let ?w = "v\<lparr>inv_status := InvFailed, inv_version := inv_version v + 1, inv_updated_at := rq_now rq,
    inv_failed_from := Some InvTokenizing, inv_reason := why\<rparr>"
  let ?t = "s\<lparr>db_invoices := table_put i ?w (db_invoices s)\<rparr>"
  have "fail_tokenization (safe_reason (err_text ErrUnavailable)) (rq_now rq) v = Inr ?w"
    using assms(4,10) by (simp add: fail_tokenization_def inv_fail_def inv_transition_def inv_can_transition_def)
  moreover have "update_invoice ?w (inv_version v) s = Inr ?t"
    using assms(1,2) by (simp add: update_invoice_Inr get_invoice_def)
  ultimately have "record_issue_failure err_text rq i ErrUnavailable s = (Inl ErrUnavailable, ?t)"
    using assms(1,4,11) by (simp add: record_issue_failure_def in_tx_def)
  then have "handle_issue err_text U D issue rq i (s, n) = (Inl ErrUnavailable, ?t, n')"
    using assms(1-9) by (simp add: handle_issue_def accept_issue_def)
  moreover have "get_invoice i ?t = Inr ?w" by (simp add: get_invoice_def fetch_def)
  ultimately show ?thesis using assms(3) by (intro exI [of _ ?t]) (simp add: handle_issue_def)
qed

text \<open>
  When the asset was minted and the unit of work that stores it fails, nothing remembers the token: the
  next delivery asks the issuer for another one.
\<close>

lemma lost_commit_mints_again:
  assumes "get_invoice i s = Inr v" and "inv_id v = i" and "i \<noteq> uuid_nil" and "inv_status v = InvTokenizing"
    and "get_asset_by_invoice i s = Inl e" and "is_not_found e" and "issue_inputs v s = Inr (am, wallet)"
    and "request_of U D v am wallet = Inr q" and "issue q n = (Inr res, n')" and "validate_issue res = Inr ()"
    and "asset_of rq v res = Inr a" and "db_fail_commit s = Some lost"
    and "handle_issue err_text U D (logged_issuer issue) rq i (s, n, []) = (r, t, m, asked)"
    and "handle_issue err_text U D (logged_issuer issue) rq' i (t\<lparr>db_fail_commit := None\<rparr>, m, asked) = (r', t', m', asked')"
  shows "isl r \<and> asked' = [q, q]"
proof -
  have "\<exists>e'. commit_issue U rq v a s = (Inl e', rollback s)"
  proof (cases "and_then (create_asset a s) (finish_issue U rq v a)")
    case (Inl e')
    then show ?thesis by (simp add: commit_issue_def in_tx_def)
  next
    case (Inr xu)
    obtain x u where xu: "xu = (x, u)" by (cases xu)
    then obtain s1 where s1: "create_asset a s = Inr s1" "finish_issue U rq v a s1 = Inr (x, u)"
      using Inr by (auto simp: and_then_Inr_iff)
    have "db_fail_commit u = db_fail_commit s1" using s1(2) by (auto elim!: finish_issue_Inr simp: update_invoice_Inr)
    moreover have "db_fail_commit s1 = db_fail_commit s" using s1(1) by (auto simp: create_asset_def split: if_splits)
    ultimately show ?thesis using Inr xu assms(12) by (simp add: commit_issue_def in_tx_def)
  qed
  then have first: "isl r" "t = rollback s" "m = n'" "asked = [q]"
    using assms(1-11,13)
    by (auto simp: handle_issue_def accept_issue_def logged_issuer_def split: prod.splits)
  let ?u = "rollback s\<lparr>db_fail_commit := None\<rparr>"
  have "get_invoice i ?u = Inr v" "get_asset_by_invoice i ?u = Inl e" "issue_inputs v ?u = Inr (am, wallet)"
    using assms(1,5,7)
    by (simp_all add: rollback_def get_invoice_def get_asset_by_invoice_def issue_inputs_def latest_assessment_def
        wallet_of_def get_organization_def)
  then have "asked' = [q, q]"
    using assms(2-4,6,8,14) first(2-4)
    by (auto simp: handle_issue_def logged_issuer_def Let_def split: prod.splits)
  then show ?thesis using first(1) by simp
qed

section \<open>Samples\<close>

definition market_assessment :: "rat assessment" where
  "market_assessment = \<lparr>am_id = 6, am_invoice_id = 2, am_model_version = ''risk-v1'',
     am_features = \<lparr>dso_norm = 0, late_payment_rate = 0, dispute_flag = 0, debtor_concentration = 0,
       market_volatility = 0, debtor_risk = 0\<rparr>, am_contributions = [], am_confidence = 1, am_pd = 0, am_lgd = 0,
     am_expected_loss = \<lparr>minor = 0, currency = ''USD''\<rparr>, am_grade = ''A'', am_benchmark_apr = 0,
     am_premiums = \<lparr>prem_risk = 0, prem_liquidity = 0, prem_concentration = 0\<rparr>, am_discount_apr = 0,
     am_platform_fee = \<lparr>minor = 0, currency = ''USD''\<rparr>, am_reserve_price = \<lparr>minor = 1, currency = ''USD''\<rparr>,
     am_market_snapshot_hash = [], am_confidential_commitment = [], am_confidential_nonce = [],
     am_requires_manual_review = False, am_created_at = 10\<rparr>"

definition market_member :: organization where
  "market_member = \<lparr>org_id = 4, org_type = OrgIssuer, org_name = ''n'', org_wallet = ''0xaa'',
     org_eligibility = EligEligible, org_reason = [], org_chain_account = [], org_version = 1,
     org_created_at = 1, org_updated_at = 1\<rparr>"

definition tokenizing_invoice :: invoice where
  "tokenizing_invoice = market_invoice\<lparr>inv_status := InvTokenizing\<rparr>"

definition tokenizing_store :: "rat store" where
  "tokenizing_store = empty_store\<lparr>db_invoices := [(2, tokenizing_invoice)],
     db_assessments := [(6, market_assessment)], db_organizations := [(4, market_member)]\<rparr>"

lemma tokenizing_rows:
  "get_invoice 2 tokenizing_store = Inr tokenizing_invoice" "inv_id tokenizing_invoice = 2"
  "inv_status tokenizing_invoice = InvTokenizing" "get_asset_by_invoice 2 tokenizing_store = Inl ErrNotFound"
  "issue_inputs tokenizing_invoice tokenizing_store = Inr (market_assessment, ''0xaa'')"
  "inv_version tokenizing_invoice = inv_version market_invoice" "db_fail_commit tokenizing_store = None"
  "db_assets tokenizing_store = []"
  by (simp_all add: tokenizing_store_def empty_store_def get_invoice_def fetch_def tokenizing_invoice_def
      market_invoice_def get_asset_by_invoice_def find_row_def table_rows_def issue_inputs_def latest_assessment_def
      newest_def market_assessment_def wallet_of_def get_organization_def market_member_def receives_at_def)

lemma tokenizing_keyed: "store_keyed tokenizing_store"
  by (simp add: store_keyed_def tokenizing_store_def empty_store_def keyed_def tokenizing_invoice_def market_invoice_def
      market_assessment_def market_member_def)

lemma tokenizing_issued:
  "\<exists>t. handle_issue (\<lambda>e. ''failed'') rfc_uuid rat_decimal (local_issue market_hash rfc_uuid) market_request 2
    (tokenizing_store, ()) = (Inr (), t, ())"
proof -
  have face: "amount_positive (inv_face tokenizing_invoice)" by code_simp
  have invoice_face: "inv_face tokenizing_invoice = \<lparr>minor = 100000, currency = ''USD''\<rparr>"
    by (simp add: tokenizing_invoice_def market_invoice_def sample_invoice_def)
  have "currency_exponents ''USD'' = Some 2" by code_simp
  then have "\<not> isl (amount_string rat_decimal (inv_face tokenizing_invoice))"
    using ratd.amount_string_eq [of "\<lparr>minor = 100000, currency = ''USD''\<rparr>" 2] by (simp add: invoice_face)
  then obtain q where q: "request_of rfc_uuid rat_decimal tokenizing_invoice market_assessment ''0xaa'' = Inr q"
    by (auto simp: not_isl_iff request_of_def)
  then have "ir_invoice_id q = 2" "ir_supply q = inv_face tokenizing_invoice"
    by (auto simp: request_of_def and_then_Inr_iff tokenizing_rows(2))
  then have "local_issue market_hash rfc_uuid q () = (Inr (local_result market_hash rfc_uuid q), ())"
    using face by (simp add: local_issue_def check_request_def)
  moreover have "\<not> isl (asset_of market_request tokenizing_invoice (local_result market_hash rfc_uuid q))"
  proof -
    have "local_result market_hash rfc_uuid q = \<lparr>is_network = ''local'',
        is_token_id = ''local-token-'' @ hex_encode (replicate 8 (CHR ''a'')),
        is_contract_id = ''local-compliance-'' @ hex_encode (replicate 4 (CHR ''a'')),
        is_transaction_id = [], is_explorer_url = [], is_confirmed = True\<rparr>"
      by (simp add: local_result_def market_hash_def)
    moreover have "\<not> isl (asset_of market_request tokenizing_invoice \<lparr>is_network = ''local'',
        is_token_id = ''local-token-'' @ hex_encode (replicate 8 (CHR ''a'')),
        is_contract_id = ''local-compliance-'' @ hex_encode (replicate 4 (CHR ''a'')),
        is_transaction_id = [], is_explorer_url = [], is_confirmed = True\<rparr>)"
      by code_simp
    ultimately show ?thesis by metis
  qed
  then obtain a where a: "asset_of market_request tokenizing_invoice (local_result market_hash rfc_uuid q) = Inr a"
    by (auto simp: not_isl_iff)
  have id: "tk_id a = 100" "tk_id a \<noteq> uuid_nil" using asset_of_Inr(4) [OF a] by (simp_all add: market_request_def)
  let ?w = "tokenizing_invoice\<lparr>inv_status := InvTokenized, inv_version := inv_version tokenizing_invoice + 1,
    inv_updated_at := 25, inv_asset_id := 100\<rparr>"
  have now: "rq_now market_request = 25" by (simp add: market_request_def)
  have moved: "complete_tokenization 100 25 tokenizing_invoice = Inr ?w"
    using id by (simp add: complete_tokenization_def inv_transition_def inv_can_transition_def tokenizing_rows)
  define s1 where "s1 = tokenizing_store\<lparr>db_assets := [(100, a)]\<rparr>"
  have s1: "create_asset a tokenizing_store = Inr s1"
    by (simp add: create_asset_def tokenizing_rows table_rows_def table_put_def id s1_def)
  obtain s2 where s2: "update_invoice ?w (inv_version tokenizing_invoice) s1 = Inr s2" and commits: "db_fail_commit s2 = None"
    using tokenizing_rows(1,2,7) by (auto simp: update_invoice_Inr s1_def get_invoice_def)
  have "trim_space action_tokenized \<noteq> []" by code_simp
  then have "\<exists>t. commit_issue rfc_uuid market_request tokenizing_invoice a tokenizing_store = (Inr (), t)"
    by (simp add: commit_issue_def in_tx_def s1 finish_issue_def id now moved s2 rfc.annotate_valid commits)
  ultimately show ?thesis
    using q a by (auto simp: handle_issue_def tokenizing_rows accept_issue_def local_result_fields(3) Let_def)
qed

section \<open>Properties\<close>

text \<open>C23: A delivery of the issuance command that succeeds on a receivable waiting for it leaves it TOKENIZED and
  naming the one stored asset that stands for it; when no asset stood for it before, the new one is worth exactly
  its face, comes from the issuer's answer and took one request, and otherwise the issuer is not asked at all.\<close>

theorem issuance_backs_the_receivable:
  assumes "store_keyed s" and "get_invoice i s = Inr v" and "inv_status v = InvTokenizing"
    and "handle_issue err_text U D issue rq i (s, n) = (Inr (), t, n')"
  shows "\<exists>w a. get_invoice i t = Inr w \<and> inv_status w = InvTokenized \<and> inv_terms w = inv_terms v \<and>
    inv_asset_id w = tk_id a \<and> tk_invoice_id a = i \<and> get_asset_by_invoice i t = Inr a \<and>
    (case get_asset_by_invoice i s of
       Inr b \<Rightarrow> a = b \<and> n' = n \<and> db_assets t = db_assets s
     | Inl e \<Rightarrow> tk_supply a = inv_face v \<and> (\<exists>q res. issue q n = (Inr res, n') \<and> ir_supply q = inv_face v \<and>
         tk_token_id a = trim_space (is_token_id res)))"
proof -
  have i: "inv_id v = i"
    using assms(1,2) keyed_lookup by (auto simp: store_keyed_def get_invoice_def result_simps)
  from assms(4,2,3) show ?thesis
  proof (cases rule: handle_issue_Inr)
    case (found a)
    note rows = finish_issue_rows [OF found(2) i]
    have "tk_invoice_id a = i"
      using found(1) i find_row_Inr [of "\<lambda>a. tk_invoice_id a = i" "db_assets s" a] by (simp add: get_asset_by_invoice_def)
    then show ?thesis using rows found(1,3) i by (auto simp: get_asset_by_invoice_def)
  next
    case (minted e q res a s1)
    note rows = finish_issue_rows [OF minted(7) i]
    note a = asset_of_Inr [OF minted(5)]
    have token: "tk_token_id a = trim_space (is_token_id res)"
      using minted(5) by (auto simp: asset_of_def new_asset_def Let_def result_simps)
    have "\<not> list_ex (\<lambda>r. tk_invoice_id r = i) (table_rows (db_assets s))"
      and s1: "db_assets s1 = table_put (tk_id a) a (db_assets s)"
      using minted(6) a(2) i by (auto simp: create_asset_def split: if_splits)
    from find_row_put [OF this(1)] have "get_asset_by_invoice i t = Inr a"
      using a(2) i by (simp add: get_asset_by_invoice_def rows(1) s1)
    then show ?thesis using rows(2) minted(1,2,4) a(2,3) token i by auto
  qed
qed

theorem issuance_backs_the_receivable_witness:
  "\<exists>t w a. handle_issue (\<lambda>e. ''failed'') rfc_uuid rat_decimal (local_issue market_hash rfc_uuid) market_request 2
      (tokenizing_store, ()) = (Inr (), t, ()) \<and>
    get_invoice 2 t = Inr w \<and> inv_status w = InvTokenized \<and> get_asset_by_invoice 2 t = Inr a \<and>
    tk_supply a = inv_face tokenizing_invoice"
proof -
  obtain t where run: "handle_issue (\<lambda>e. ''failed'') rfc_uuid rat_decimal (local_issue market_hash rfc_uuid) market_request 2
      (tokenizing_store, ()) = (Inr (), t, ())" using tokenizing_issued by blast
  from issuance_backs_the_receivable [OF tokenizing_keyed tokenizing_rows(1,3) run] run show ?thesis
    by (auto simp: tokenizing_rows(4))
qed



end
