(* ===== verification/Explanation_Facts.thy ===== *)
theory Explanation_Facts
  imports Explanation Risk_Facts
begin

text \<open>
  The rule a narration is held to: every digit a reader sees belongs to a figure the assessment published. The
  derived explanation keeps it by construction.
\<close>

section \<open>Figures cover the digits\<close>

lemma first_figure_prefix: "s = first_figure s @ drop (length (first_figure s)) s"
proof -
  have "\<exists>u. r = figure_fraction r @ u" for r
  proof (cases r)
    case (Cons c cs)
    have "cs = takeWhile decimal_digit cs @ dropWhile decimal_digit cs" by simp
    then show ?thesis unfolding Cons figure_fraction_def by (auto intro: exI [of _ "dropWhile decimal_digit cs"])
  qed (simp add: figure_fraction_def)
  then obtain u where "drop (length (figure_run s)) s = figure_fraction (drop (length (figure_run s)) s) @ u" by blast
  moreover have "s = figure_run s @ drop (length (figure_run s)) s"
    unfolding figure_run_def by (metis append_eq_conv_conj takeWhile_dropWhile_id)
  ultimately have "s = first_figure s @ u" unfolding first_figure_def by (metis append_assoc)
  then show ?thesis by (metis append_eq_conv_conj)
qed

lemma figures_digits: "filter decimal_digit s = filter decimal_digit (concat (figures s))"
proof (induction s rule: figures.induct)
  case (2 c cs)
  show ?case
  proof (cases "decimal_digit c")
    case True
    then show ?thesis
      using 2(1) first_figure_prefix [of "c # cs"]
      by (metis concat.simps(2) figures.simps(2) filter_append)
  next
    case False
    then show ?thesis using 2(2) by (simp add: figures.simps)
  qed
qed simp

text \<open>What a list of points may say: at most five, none of them long, and no digit that is not part of a published figure.\<close>

definition cites_published :: "'d decimal_ops \<Rightarrow> ('d \<Rightarrow> string) \<Rightarrow> 'd assessment \<Rightarrow> string \<Rightarrow> bool" where
  "cites_published D rate_text a b \<longleftrightarrow>
    (\<exists>fs. filter decimal_digit b = filter decimal_digit (concat fs) \<and>
      (\<forall>f \<in> set fs. without_commas f \<in> set (published_numbers D rate_text a)))"

lemma cites_publishedI:
  "\<forall>f \<in> set (figures b). without_commas f \<in> set (published_numbers D rate_text a) \<Longrightarrow> cites_published D rate_text a b"
  using figures_digits [of b] by (auto simp: cites_published_def)

lemma narrate_Inr:
  assumes "narrate D rate_text (Some a) model bullets now = Inr x"
  shows "ex_assessment_id x = am_id a" and "ex_source x = source_model"
    and "ex_bullets x = filter (\<lambda>b. b \<noteq> []) (map clean_bullet bullets)"
    and "ex_bullets x \<noteq> []" and "length (ex_bullets x) \<le> max_bullets"
    and "b \<in> set (ex_bullets x) \<Longrightarrow> length b \<le> max_bullet_len \<and> cites_published D rate_text a b"
proof -
  let ?c = "filter (\<lambda>b. b \<noteq> []) (map clean_bullet bullets)"
  have ok: "(if ?c = [] then [Invalid ''bullets''] else if length ?c > max_bullets then [Invalid ''bullets''] else []) = []"
    "concat (map (check_bullet (published_numbers D rate_text a)) ?c) = []"
    and x: "x = \<lparr>ex_assessment_id = am_id a, ex_source = source_model, ex_model = trim_space model,
                ex_bullets = ?c, ex_created_at = now\<rparr>"
    using assms unfolding narrate_def option.case Let_def checked_Inr_iff append_is_Nil_conv by auto
  show "ex_assessment_id x = am_id a" "ex_source x = source_model" "ex_bullets x = ?c" by (simp_all add: x)
  show "ex_bullets x \<noteq> []" "length (ex_bullets x) \<le> max_bullets" using ok(1) by (auto simp: x split: if_splits)
  show "length b \<le> max_bullet_len \<and> cites_published D rate_text a b" if "b \<in> set (ex_bullets x)"
  proof -
    have "check_bullet (published_numbers D rate_text a) b = []" using ok(2) that by (simp add: x)
    then show ?thesis by (auto simp: check_bullet_def violation_def intro: cites_publishedI split: if_splits)
  qed
qed

section \<open>Figures of a text\<close>

definition wordy :: "string \<Rightarrow> bool" where
  "wordy s \<longleftrightarrow> list_all (\<lambda>c. \<not> decimal_digit c) s"

lemma figures_wordy: "wordy u \<Longrightarrow> figures (u @ v) = figures v"
  by (induction u) (simp_all add: wordy_def figures.simps)

lemma figures_wordy_only: "wordy u \<Longrightarrow> figures u = []"
  using figures_wordy [of u "[]"] by simp

lemma nat_dec_decimal: "c \<in> set (nat_dec n) \<Longrightarrow> decimal_digit c"
  using nat_dec_digits by (simp add: decimal_digit_def)

lemma pad_left_decimal: "c \<in> set (pad_left p (nat_dec n)) \<Longrightarrow> decimal_digit c"
  using nat_dec_decimal by (auto simp: pad_left_def decimal_digit_def less_eq_char_def)

text \<open>A point, a blank, a percent sign: what follows a number in a sentence does not run on into it.\<close>

definition ends_figure :: "string \<Rightarrow> bool" where
  "ends_figure rest \<longleftrightarrow> (case rest of [] \<Rightarrow> True | c # cs \<Rightarrow> \<not> decimal_digit c \<and> c \<noteq> CHR '','') \<and> figure_fraction rest = []"

lemma figures_fixed_text:
  assumes "0 \<le> n" and "ends_figure rest"
  shows "figures (fixed_text n p @ rest) = fixed_text n p # figures rest"
proof -
  let ?whole = "nat_dec (nat n div (if p = 0 then 1 else 10 ^ p))"
  let ?part = "if p = 0 then [] else CHR ''.'' # pad_left p (nat_dec (nat n mod 10 ^ p))"
  have t: "fixed_text n p = ?whole @ ?part" using assms(1) by (simp add: fixed_text_def)
  obtain c cs where w: "?whole = c # cs" by (cases ?whole) simp_all
  have digits: "decimal_digit x" if "x \<in> set ?whole" for x using that by (rule nat_dec_decimal)
  have stop: "takeWhile decimal_digit rest = []" "takeWhile (\<lambda>c. decimal_digit c \<or> c = CHR '','') rest = []"
    using assms(2) by (auto simp: ends_figure_def split: list.splits)
  have point: "\<not> decimal_digit (CHR ''.'')" by (simp add: decimal_digit_def less_eq_char_def)
  have run: "figure_run (?whole @ ?part @ rest) = ?whole"
    using digits stop(2) point by (auto simp: figure_run_def takeWhile_append2)
  have "pad_left p (nat_dec (nat n mod 10 ^ p)) \<noteq> []" by (simp add: pad_left_def)
  then have "figure_fraction (?part @ rest) = ?part"
    using pad_left_decimal [of _ p] stop(1) assms(2)
    by (auto simp: figure_fraction_def ends_figure_def takeWhile_append2 split: if_splits)
  then have "first_figure (?whole @ ?part @ rest) = ?whole @ ?part"
    by (simp only: first_figure_def run append_eq_conv_conj [THEN iffD1, OF refl, THEN conjunct2] drop_append) simp
  then have "first_figure (c # cs @ ?part @ rest) = c # cs @ ?part" using w by simp
  moreover have "decimal_digit c" using digits w by simp
  ultimately have "figures (c # cs @ ?part @ rest) = (c # cs @ ?part) # figures rest"
    by (subst figures.simps) (simp add: drop_append)
  then show ?thesis unfolding t using w by simp
qed

section \<open>The derived explanation\<close>

lemma fixed_text_visible:
  "list_all visible_char (fixed_text n p)" "without_commas (fixed_text n p) = fixed_text n p" "fixed_text n p \<noteq> []"
proof -
  have chars: "c = CHR ''-'' \<or> c = CHR ''.'' \<or> CHR ''0'' \<le> c \<and> c \<le> CHR ''9''" if "c \<in> set (fixed_text n p)" for c
    using fixed_text_chars [OF that] .
  then show "list_all visible_char (fixed_text n p)"
    by (fastforce simp: list_all_iff visible_char_def less_eq_char_def)
  show "without_commas (fixed_text n p) = fixed_text n p"
    using chars by (fastforce simp: without_commas_def filter_id_conv less_eq_char_def)
  show "fixed_text n p \<noteq> []" by (simp add: fixed_text_def)
qed

lemma add_fixed_text: "add_figure (fixed_text n p) = [fixed_text n p]"
  using fixed_text_visible [of n p] by (simp add: add_figure_def trim_space_visible)

context decimal_lib
begin

lemma hundredfold_text:
  "\<exists>n. rate_string_fixed D (hundredfold D r) 2 = fixed_text n 2 \<and> (0 \<le> val r \<longrightarrow> 0 \<le> n)"
proof -
  let ?x = "d_round_bank D (hundredfold D r) 2"
  have "0 \<le> val r \<Longrightarrow> 0 \<le> val ?x" by (simp add: hundredfold_def val_simps round_half_even_nonneg)
  then have "0 \<le> val r \<Longrightarrow> 0 \<le> round_half_away (val ?x * 10 powi 2)" using round_half_away_ge [of 0] by simp
  then show ?thesis using string_fixed [of 2 ?x] by (auto simp: rate_string_fixed_def)
qed

lemma percent_text:
  assumes "0 \<le> val r"
  obtains n where "percent D r = fixed_text n 2 @ ''%''" and "0 \<le> n" and "fixed_text n 2 \<in> set (rate_figures D rate_text r)"
proof -
  obtain n where n: "rate_string_fixed D (hundredfold D r) 2 = fixed_text n 2" "0 \<le> n" using hundredfold_text assms by blast
  show thesis by (rule that [of n]) (simp_all add: percent_def rate_figures_def n add_fixed_text)
qed

lemma amount_text_fixed:
  assumes "amount_valid m" and "0 \<le> minor m"
  obtains p where "amount_text D m = fixed_text (minor m) p" and "fixed_text (minor m) p \<in> set (amount_figures D m)"
proof -
  obtain e where "currency_exponents (currency m) = Some e"
    using assms(1) by (auto simp: amount_valid_def currency_valid_def)
  then have "amount_text D m = fixed_text (minor m) (nat e)" by (simp add: amount_text_def amount_string_eq)
  then show thesis using that by (simp add: amount_figures_def add_fixed_text)
qed

lemma figures_percent:
  assumes "0 \<le> val r" and "f \<in> set (figures (percent D r @ rest))"
  shows "f \<in> set (rate_figures D rate_text r) \<or> f \<in> set (figures rest)"
proof -
  obtain n where n: "percent D r = fixed_text n 2 @ ''%''" "0 \<le> n" "fixed_text n 2 \<in> set (rate_figures D rate_text r)"
    by (rule percent_text [OF assms(1)])
  have "ends_figure (''%'' @ rest)" "wordy ''%''"
    by (simp_all add: ends_figure_def figure_fraction_def wordy_def decimal_digit_def less_eq_char_def)
  then have "figures (percent D r @ rest) = fixed_text n 2 # figures rest"
    using figures_fixed_text [OF n(2), of "''%'' @ rest" 2] figures_wordy [of "''%''" rest] by (simp add: n(1))
  then show ?thesis using assms(2) n(3) by auto
qed

lemma figures_percent_then:
  "0 \<le> val r \<Longrightarrow> wordy u \<Longrightarrow> f \<in> set (figures (percent D r @ u @ rest)) \<Longrightarrow>
    f \<in> set (rate_figures D rate_text r) \<or> f \<in> set (figures rest)"
  using figures_percent [of r f "u @ rest"] by (simp add: figures_wordy)

lemma figures_amount:
  assumes "amount_valid m" and "0 \<le> minor m" and "ends_figure rest" and "f \<in> set (figures (amount_text D m @ rest))"
  shows "f \<in> set (amount_figures D m) \<or> f \<in> set (figures rest)"
proof -
  obtain p where p: "amount_text D m = fixed_text (minor m) p" "fixed_text (minor m) p \<in> set (amount_figures D m)"
    by (rule amount_text_fixed [OF assms(1,2)])
  have "figures (amount_text D m @ rest) = fixed_text (minor m) p # figures rest"
    using figures_fixed_text [OF assms(2,3)] by (simp add: p(1))
  then show ?thesis using assms(4) p(2) by auto
qed

text \<open>Every figure of the set has no comma, so it is found as it is.\<close>

lemma published_no_commas: "f \<in> set (published_numbers D rate_text a) \<Longrightarrow> without_commas f = f"
proof -
  have "without_commas f = f" if "f \<in> set (add_figure v)" for f v
  proof -
    have "set f \<subseteq> set (without_commas v)" using that set_trim_space by (auto simp: add_figure_def Let_def split: if_splits)
    then show ?thesis by (auto simp: without_commas_def filter_id_conv)
  qed
  then show "f \<in> set (published_numbers D rate_text a) \<Longrightarrow> without_commas f = f"
    by (fastforce simp: published_numbers_def rate_figures_def amount_figures_def)
qed

text \<open>What the derived explanation quotes is not negative.\<close>

definition quotes_nonnegative :: "'d assessment \<Rightarrow> bool" where
  "quotes_nonnegative a \<longleftrightarrow> 0 \<le> val (am_pd a) \<and> 0 \<le> val (am_lgd a) \<and> 0 \<le> val (am_discount_apr a) \<and>
    0 \<le> val (am_benchmark_apr a) \<and> 0 \<le> val (premiums_total D (am_premiums a)) \<and>
    amount_valid (am_expected_loss a) \<and> 0 \<le> minor (am_expected_loss a) \<and>
    amount_valid (am_reserve_price a) \<and> 0 \<le> minor (am_reserve_price a)"

lemma assess_quotes:
  assumes "model_v1 D = Inr m" and "amount_ok (as_face i)" and "assess D m i now = Inr a"
  shows "quotes_nonnegative a" and "am_contributions a = contributions D (as_features i) (model_coefficients m)"
    and "grade_valid (am_grade a)"
proof -
  note sound = assess_sound [OF assms]
  show "grade_valid (am_grade a)" using sound unfolding assessment_sound_def by blast
  have m: "model_sound val m" using model_v1_sound assms(1) by auto
  obtain pd lgd price where run: "probability_of_default D m (as_features i) = Inr pd"
    "price_receivable D m
        \<lparr>pi_face = as_face i, pi_days_to_due = as_days_to_due i, pi_benchmark = as_benchmark i,
         pi_liquidity_premium = as_liquidity_premium i, pi_pd = pd, pi_lgd = lgd,
         pi_debtor_concentration = debtor_concentration (as_features i)\<rparr> = Inr price"
    and a: "am_pd a = pd" "am_lgd a = lgd" "am_premiums a = pr_premiums price" "am_discount_apr a = pr_discount_apr price"
      "am_benchmark_apr a = rate_quantize D (as_benchmark i) rate_scale"
      "am_contributions a = contributions D (as_features i) (model_coefficients m)"
    using assms(3) by (auto simp: assess_def result_simps checked_def split: if_splits)
  show "am_contributions a = contributions D (as_features i) (model_coefficients m)" by (rule a(6))
  let ?i = "\<lparr>pi_face = as_face i, pi_days_to_due = as_days_to_due i, pi_benchmark = as_benchmark i,
         pi_liquidity_premium = as_liquidity_premium i, pi_pd = pd, pi_lgd = lgd,
         pi_debtor_concentration = debtor_concentration (as_features i)\<rparr>"
  note g = price_receivable_guards [OF run(2)]
  have "features_validate D (as_features i) = []"
    using run(1) by (auto simp: probability_of_default_def checked_def split: if_splits)
  then have conc: "0 \<le> val (debtor_concentration (as_features i))"
    by (rule features_in_unit [where name = "''debtor_concentration''" and coeff = co_debtor_concentration])
      (simp add: feature_refs_def)
  have rates: "0 \<le> val pd" "0 \<le> val lgd" using sound by (simp_all add: assessment_sound_def a)
  have p: "pr_premiums price = price_premiums D m ?i" "pr_discount_apr price = price_discount D m ?i"
    using run(2) by (auto simp: price_receivable_def Let_def result_simps split: if_splits)
  have ok: "price_input_ok val ?i" using assms(2) rates conc by (simp add: price_input_ok_def)
  have "0 \<le> val (price_discount D m ?i)" using discount_nonneg [OF m ok] g(3,4) by simp
  moreover have "0 \<le> val (premiums_total D (price_premiums D m ?i))"
    using m rates conc g(4)
    by (simp add: premiums_total_def price_premiums_def risk_premium_def concentration_premium_def
        val_add quantize_nonneg val_mul model_sound_def)
  moreover have "0 \<le> val (am_benchmark_apr a)" using g(3) by (simp add: a quantize_nonneg)
  ultimately show "quotes_nonnegative a"
    using sound rates assms(2)
    by (simp add: quotes_nonnegative_def a p assessment_sound_def amount_ok_def amount_valid_def)
qed

lemma feature_words_wordy: "ct \<in> set (contributions D f c) \<Longrightarrow> wordy (feature_words (ct_feature ct))"
proof -
  have "list_all (\<lambda>n. wordy (feature_words n)) (map fst feature_refs)" by code_simp
  then show "ct \<in> set (contributions D f c) \<Longrightarrow> wordy (feature_words (ct_feature ct))"
    by (auto simp: contributions_def list_all_iff)
qed

end

lemma grade_wordy: "grade_valid g \<Longrightarrow> wordy g"
  by (auto simp: grade_valid_def grade_ranks_def wordy_def decimal_digit_def less_eq_char_def split: if_splits)

lemma wordy_append: "wordy (u @ v) \<longleftrightarrow> wordy u \<and> wordy v"
  by (simp add: wordy_def)

lemma direction_wordy: "wordy (effect_direction D e)"
  by (simp add: effect_direction_def wordy_def decimal_digit_def less_eq_char_def)

lemma sentence_wordy:
  "wordy '' moved the score most, ''" "wordy '' it.''" "wordy '' came next, ''" "wordy ''Grade ''"
  "wordy '': a default probability of ''" "wordy '' against a loss given default of ''" "wordy ''.''"
  "wordy ''The discount of ''" "wordy '' is the market benchmark of ''" "wordy '' plus ''" "wordy '' of premiums.''"
  "wordy ''After an expected loss of ''" "wordy '' and the platform fee, the reserve price is ''"
  by code_simp+

lemma ranked_wordy:
  assumes "\<And>ct. ct \<in> set ranked \<Longrightarrow> wordy (feature_words (ct_feature ct))" and "b \<in> set (ranked_bullets D ranked)"
  shows "figures b = []"
proof -
  have "\<exists>ct \<in> set ranked. b = feature_words (ct_feature ct) @ '' moved the score most, '' @ effect_direction D (ct_effect ct) @ '' it.''
      \<or> b = feature_words (ct_feature ct) @ '' came next, '' @ effect_direction D (ct_effect ct) @ '' it.''"
    using assms(2) by (auto simp: ranked_bullets_def simp del: append_Cons split: list.splits)
  then have "wordy b" using assms(1) by (auto simp only: wordy_append direction_wordy sentence_wordy)
  then show ?thesis by (rule figures_wordy_only)
qed

context decimal_lib
begin

lemma derived_cites:
  assumes "quotes_nonnegative a" and "\<And>ct. ct \<in> set (am_contributions a) \<Longrightarrow> wordy (feature_words (ct_feature ct))"
    and "grade_valid (am_grade a)" and "derive D (Some a) later = Some x"
    and "b \<in> set (ex_bullets x)" and "f \<in> set (figures b)"
  shows "f \<in> set (published_numbers D rate_text a)"
proof -
  have q: "0 \<le> val (am_pd a)" "0 \<le> val (am_lgd a)" "0 \<le> val (am_discount_apr a)" "0 \<le> val (am_benchmark_apr a)"
    "0 \<le> val (premiums_total D (am_premiums a))" "amount_valid (am_expected_loss a)" "0 \<le> minor (am_expected_loss a)"
    "amount_valid (am_reserve_price a)" "0 \<le> minor (am_reserve_price a)"
    using assms(1) by (simp_all add: quotes_nonnegative_def)
  have no: "f \<notin> set (figures u)" if "wordy u" for u using figures_wordy_only [OF that] by simp
  have blank: "ends_figure ('' and the platform fee, the reserve price is '' @ u)" "ends_figure ''.''" for u
    by (simp_all add: ends_figure_def figure_fraction_def decimal_digit_def less_eq_char_def)
  note percent_then = figures_percent_then [where rate_text = rate_text]
    and percent_last = figures_percent [where rate_text = rate_text]
  consider (ranked) "b \<in> set (ranked_bullets D (ranked_contributions D a))"
    | (grade) "b = ''Grade '' @ am_grade a @ '': a default probability of '' @ percent D (am_pd a)
           @ '' against a loss given default of '' @ percent D (am_lgd a) @ ''.''"
    | (discount) "b = ''The discount of '' @ percent D (am_discount_apr a) @ '' is the market benchmark of ''
           @ percent D (am_benchmark_apr a) @ '' plus '' @ percent D (premiums_total D (am_premiums a)) @ '' of premiums.''"
    | (reserve) "b = ''After an expected loss of '' @ amount_text D (am_expected_loss a)
           @ '' and the platform fee, the reserve price is '' @ amount_text D (am_reserve_price a) @ ''.''"
    using assms(4,5) by (auto simp: derive_def simp del: append_Cons)
  then show ?thesis
  proof cases
    case ranked
    then show ?thesis using ranked_wordy [of "ranked_contributions D a" b D] assms(2,6) by (simp add: ranked_contributions_def)
  next
    case grade
    have "f \<in> set (figures (percent D (am_pd a) @ '' against a loss given default of '' @ percent D (am_lgd a) @ ''.''))"
      using assms(6) unfolding grade by (simp only: figures_wordy sentence_wordy grade_wordy [OF assms(3)])
    then have "f \<in> set (rate_figures D rate_text (am_pd a)) \<or> f \<in> set (rate_figures D rate_text (am_lgd a))"
      by (elim percent_then [OF q(1) sentence_wordy(6), THEN disjE]
          percent_last [OF q(2), THEN disjE]) (simp_all only: no [OF sentence_wordy(7)] simp_thms)
    then show ?thesis by (auto simp: published_numbers_def)
  next
    case discount
    have "f \<in> set (figures (percent D (am_discount_apr a) @ '' is the market benchmark of ''
           @ percent D (am_benchmark_apr a) @ '' plus '' @ percent D (premiums_total D (am_premiums a)) @ '' of premiums.''))"
      using assms(6) unfolding discount by (simp only: figures_wordy sentence_wordy)
    then have "f \<in> set (rate_figures D rate_text (am_discount_apr a)) \<or> f \<in> set (rate_figures D rate_text (am_benchmark_apr a)) \<or>
        f \<in> set (rate_figures D rate_text (premiums_total D (am_premiums a)))"
      by (elim percent_then [OF q(3) sentence_wordy(9), THEN disjE]
          percent_then [OF q(4) sentence_wordy(10), THEN disjE]
          percent_last [OF q(5), THEN disjE]) (simp_all only: no [OF sentence_wordy(11)] simp_thms)
    then show ?thesis by (auto simp: published_numbers_def)
  next
    case reserve
    have "f \<in> set (figures (amount_text D (am_expected_loss a)
           @ '' and the platform fee, the reserve price is '' @ amount_text D (am_reserve_price a) @ ''.''))"
      using assms(6) unfolding reserve by (simp only: figures_wordy sentence_wordy)
    then have "f \<in> set (amount_figures D (am_expected_loss a)) \<or> f \<in> set (amount_figures D (am_reserve_price a))"
      by (elim figures_amount [OF q(6,7) blank(1), THEN disjE])
        (simp only: simp_thms, simp only: figures_wordy sentence_wordy,
          elim figures_amount [OF q(8,9) blank(2), THEN disjE], simp_all only: no [OF sentence_wordy(7)] simp_thms)
    then show ?thesis by (auto simp: published_numbers_def)
  qed
qed

lemma assessed_cites:
  assumes "model_v1 D = Inr m" and "amount_ok (as_face i)" and "assess D m i now = Inr a"
    and "derive D (Some a) later = Some x"
  shows "list_all (\<lambda>b. list_all (\<lambda>f. without_commas f \<in> set (published_numbers D rate_text a)) (figures b)) (ex_bullets x)"
proof -
  note quotes = assess_quotes [OF assms(1-3)]
  have "f \<in> set (published_numbers D rate_text a)" if "b \<in> set (ex_bullets x)" "f \<in> set (figures b)" for b f
    by (rule derived_cites [OF quotes(1) _ quotes(3) assms(4) that]) (simp only: quotes(2) feature_words_wordy)
  then have "without_commas f \<in> set (published_numbers D rate_text a)" if "b \<in> set (ex_bullets x)" "f \<in> set (figures b)" for b f
    using published_no_commas [of f rate_text a] that by simp
  then show ?thesis by (simp add: list_all_iff)
qed

end

section \<open>Properties\<close>


definition sample_reply :: string where "sample_reply = ''- The debtor pays late.''"

lemma sample_narrated:
  "narrate rat_decimal txt (Some a) ''m'' (answer_bullets sample_reply) now =
    Inr \<lparr>ex_assessment_id = am_id a, ex_source = source_model, ex_model = ''m'', ex_bullets = [''The debtor pays late.''],
      ex_created_at = now\<rparr>"
proof -
  have "answer_bullets sample_reply = [sample_reply]" "clean_bullet sample_reply = ''The debtor pays late.''"
    "figures ''The debtor pays late.'' = []" "trim_space ''m'' = ''m''" "length ''The debtor pays late.'' \<le> max_bullet_len"
    "1 \<le> max_bullets"
    by code_simp+
  then show ?thesis by (simp add: narrate_def check_bullet_def violation_def checked_def)
qed


text \<open>The derived explanation of an assessment of the published model keeps the rule a narration is held to: every figure in
  it is one the assessment published.\<close>

theorem derived_cites_only_published:
  assumes "decimal_lib D val" and "model_v1 D = Inr m" and "amount_ok (as_face i)" and "assess D m i now = Inr a"
    and "derive D (Some a) later = Some x"
  shows "list_all (\<lambda>b. list_all (\<lambda>f. without_commas f \<in> set (published_numbers D rate_text a)) (figures b)) (ex_bullets x)"
  by (rule decimal_lib.assessed_cites [OF assms])

theorem derived_cites_only_published_witness:
  "\<exists>a x. assess rat_decimal sample_model sample_assess_input 7 = Inr a \<and> derive rat_decimal (Some a) 7 = Some x \<and>
    list_all (\<lambda>b. list_all (\<lambda>f. without_commas f \<in> set (published_numbers rat_decimal (\<lambda>_. []) a)) (figures b)) (ex_bullets x)"
proof -
  obtain a where a: "assess rat_decimal sample_model sample_assess_input 7 = Inr a" using sample_assessed by blast
  have "amount_ok (as_face sample_assess_input)"
    by (simp add: sample_assess_input_def amount_ok_def amount_valid_def currency_valid_cases in64_def min64_def max64_def)
  moreover obtain x where x: "derive rat_decimal (Some a) 7 = Some x" by (simp add: derive_def)
  ultimately show ?thesis
    using derived_cites_only_published [OF ratd.decimal_lib_axioms sample_model _ a x] a x by blast
qed

end
