(* ===== verification/Market_Facts.thy ===== *)
theory Market_Facts
  imports Market_Data
begin

text \<open>
  What a snapshot says: the benchmark is a weighted median of the clipped rates and a rate some market quoted,
  premium and volatility stay in their published ranges, and none of it depends on the order in which the
  gateway returned the rows.
\<close>

section \<open>The square root\<close>

lemma nat_root_spec: "nat_root n * nat_root n \<le> n \<and> n < (nat_root n + 1) * (nat_root n + 1)"
proof (induction n rule: nat_root.induct)
  case (1 n)
  show ?case
  proof (cases "n = 0")
    case True
    then show ?thesis by (simp add: nat_root.simps)
  next
    case False
    define r where "r = nat_root (n div 4)"
    have ih: "r * r \<le> n div 4" "n div 4 < (r + 1) * (r + 1)" using 1 False unfolding r_def by simp_all
    have "4 * (r * r) \<le> n" using ih(1) by linarith
    then have low: "2 * r * (2 * r) \<le> n" by (simp add: algebra_simps)
    have "n div 4 + 1 \<le> (r + 1) * (r + 1)" using ih(2) by simp
    then have "n < 4 * ((r + 1) * (r + 1))" by linarith
    then have high: "n < (2 * r + 1 + 1) * (2 * r + 1 + 1)" by (simp add: algebra_simps)
    have root: "nat_root n = (if (2 * r + 1) * (2 * r + 1) \<le> n then 2 * r + 1 else 2 * r)"
      using False by (subst nat_root.simps) (simp add: r_def Let_def)
    show ?thesis
    proof (cases "(2 * r + 1) * (2 * r + 1) \<le> n")
      case True
      then show ?thesis using high by (simp only: root if_True)
    next
      case False
      then have "n < (2 * r + 1) * (2 * r + 1)" by (simp only: not_le)
      then show ?thesis using low False by (simp only: root if_False)
    qed
  qed
qed

section \<open>Canonical order\<close>

lemma market_before_lex: "market_before = (\<lambda>x y. if mk_subgraph_id x \<noteq> mk_subgraph_id y
    then mk_subgraph_id x < mk_subgraph_id y else mk_id x < mk_id y)"
  by (intro ext) (simp add: market_before_def)

interpretation market_order: sort_order market_before
  unfolding market_before_lex by (rule sort_order_lex)

definition market_key :: "'d market \<Rightarrow> string \<times> string" where
  "market_key m = (mk_subgraph_id m, mk_id m)"

lemma eligible_markets_cong:
  assumes "eligible_markets ms = Inr es" and "mset ms' = mset ms"
    and "distinct (map market_key (filter (\<lambda>m. amount_positive (mk_available_liquidity m)) ms))"
  shows "eligible_markets ms' = Inr es"
proof -
  let ?live = "\<lambda>m. amount_positive (mk_available_liquidity m)"
  let ?cur = "\<lambda>m. currency (mk_available_liquidity m)"
  have same: "mset (filter ?live ms') = mset (filter ?live ms)" using assms(2) by simp
  have some: "filter ?live ms \<noteq> []" and one: "\<forall>m \<in> set (filter ?live ms). ?cur m = ?cur (hd (filter ?live ms))"
    and es: "es = sort_by market_before (filter ?live ms)"
    using assms(1) by (auto simp: eligible_markets_def Let_def list_all_iff split: if_splits)
  have some': "filter ?live ms' \<noteq> []" using same some by (metis mset_zero_iff)
  have sets: "set (filter ?live ms') = set (filter ?live ms)" using same by (metis set_mset_mset)
  have "hd (filter ?live ms') \<in> set (filter ?live ms)" using some' sets by (metis hd_in_set)
  then have one': "\<forall>m \<in> set (filter ?live ms'). ?cur m = ?cur (hd (filter ?live ms'))"
    using one sets by metis
  have "sort_by market_before (filter ?live ms') = sort_by market_before (filter ?live ms)"
  proof (rule market_order.sort_by_cong [OF same])
    fix x y
    assume x: "x \<in> set (filter ?live ms')" "y \<in> set (filter ?live ms')" "\<not> market_before x y" "\<not> market_before y x"
    then have "market_key x = market_key y" by (auto simp: market_before_def market_key_def not_less split: if_splits)
    then show "x = y" using x(1,2) assms(3) unfolding sets by (auto simp: distinct_map dest: inj_onD)
  qed
  then show ?thesis using some' one' by (simp add: eligible_markets_def Let_def list_all_iff es)
qed

section \<open>The clipped rates\<close>

lemma winsor_bounds_quoted:
  "winsor_bounds D lo hi ws c found (low, high) = (low', high') \<Longrightarrow>
    low' \<in> insert low (snd ` set ws) \<and> high' \<in> insert high (snd ` set ws)"
  by (induction ws arbitrary: c found low high) (auto simp: Let_def split: if_splits prod.splits)

definition market_weight :: "'d decimal_ops \<Rightarrow> ('d \<Rightarrow> rat) \<Rightarrow> 'd market \<Rightarrow> rat" where
  "market_weight D val m = (case liquidity_weight D m of Inl e \<Rightarrow> 0 | Inr w \<Rightarrow> val w)"

definition weight_where :: "'d decimal_ops \<Rightarrow> ('d \<Rightarrow> rat) \<Rightarrow> ('d market \<Rightarrow> bool) \<Rightarrow> 'd market list \<Rightarrow> rat" where
  "weight_where D val P ms = sum_list (map (market_weight D val) (filter P ms))"

context decimal_lib
begin

lemma sqrt_decimal_val:
  "\<exists>k \<ge> 0. val (sqrt_decimal D d sqrt_scale) = of_int k / 10 ^ 6"
proof (cases "d_is_negative D d \<or> d_is_zero D d")
  case True
  then show ?thesis by (intro exI [of _ 0]) (simp add: sqrt_decimal_def val_zero)
next
  case False
  let ?k = "int (nat_root (nat (d_big_int D (d_truncate D (d_shift D d (2 * sqrt_scale)) 0))))"
  have "(10 :: rat) powi (- sqrt_scale) = 1 / 10 ^ 6" by (simp add: sqrt_scale_def power_int_minus)
  moreover have "val (sqrt_decimal D d sqrt_scale) = of_int ?k * 10 powi (- sqrt_scale)"
    using False by (simp only: sqrt_decimal_def if_False val_new)
  ultimately have "val (sqrt_decimal D d sqrt_scale) = of_int ?k / 10 ^ 6" by simp
  then show ?thesis by (intro exI [of _ ?k]) simp
qed

lemma weight_val: "liquidity_weight D m = Inr w \<Longrightarrow> \<exists>k \<ge> 0. val w = of_int k / 10 ^ 6"
  using sqrt_decimal_val by (auto simp: liquidity_weight_def and_then_Inr_iff)

lemma weight_nonneg: "0 \<le> market_weight D val m"
  using weight_val by (force simp: market_weight_def split: sum.splits)

lemma val_fold_add: "val (fold (\<lambda>w acc. d_add D acc w) ws a) = val a + sum_list (map val ws)"
  by (induction ws arbitrary: a) (simp_all add: val_add)

lemma median_walk_splits:
  assumes "sorted_wrt (\<lambda>x y. val (snd x) \<le> val (snd y)) ws" and "\<forall>x \<in> set ws. 0 \<le> val (fst x)" and "ws \<noteq> []"
    and "final = snd (last ws)" and "val c \<le> val half" and "val half \<le> val c + sum_list (map (\<lambda>x. val (fst x)) ws)"
  defines "b \<equiv> median_walk D half ws c final"
  shows "b \<in> snd ` set ws"
    and "val c + sum_list (map (\<lambda>x. val (fst x)) (filter (\<lambda>x. val (snd x) < val b) ws)) \<le> val half"
    and "val half \<le> val c + sum_list (map (\<lambda>x. val (fst x)) (filter (\<lambda>x. val (snd x) \<le> val b) ws))"
proof -
  have "b \<in> snd ` set ws \<and>
      val c + sum_list (map (\<lambda>x. val (fst x)) (filter (\<lambda>x. val (snd x) < val b) ws)) \<le> val half \<and>
      val half \<le> val c + sum_list (map (\<lambda>x. val (fst x)) (filter (\<lambda>x. val (snd x) \<le> val b) ws))"
    using assms(1-6) unfolding b_def
  proof (induction ws arbitrary: c)
    case (Cons x ws)
    obtain w a where x: "x = (w, a)" by (cases x)
    have nonneg: "0 \<le> sum_list (map (\<lambda>x. val (fst x)) (filter P ws))" for P
      using Cons.prems(2) by (intro sum_list_nonneg) auto
    show ?case
    proof (cases "val half \<le> val c + val w")
      case True
      have "filter (\<lambda>y. val (snd y) < val a) ws = []"
        using Cons.prems(1) x by (auto simp: filter_empty_conv)
      then show ?thesis using True Cons.prems(5) nonneg [of "\<lambda>y. val (snd y) \<le> val a"]
        by (simp add: x Let_def cmp_simps val_add)
    next
      case False
      have "ws \<noteq> []" using False Cons.prems(6) x by auto
      then have fin: "final = snd (last ws)" using Cons.prems(4) by simp
      let ?b = "median_walk D half ws (d_add D c w) final"
      have ih: "?b \<in> snd ` set ws \<and>
          val c + val w + sum_list (map (\<lambda>x. val (fst x)) (filter (\<lambda>x. val (snd x) < val ?b) ws)) \<le> val half \<and>
          val half \<le> val c + val w + sum_list (map (\<lambda>x. val (fst x)) (filter (\<lambda>x. val (snd x) \<le> val ?b) ws))"
        using Cons.IH [of "d_add D c w"] Cons.prems \<open>ws \<noteq> []\<close> fin False x
        by (simp add: val_add algebra_simps)
      have "val a \<le> val ?b" using ih Cons.prems(1) x by auto
      moreover have "median_walk D half (x # ws) c final = ?b"
        using False by (simp add: x Let_def cmp_simps val_add)
      moreover have "0 \<le> val w" using Cons.prems(2) x by simp
      ultimately show ?thesis using ih by (auto simp: x)
    qed
  qed simp
  then show "b \<in> snd ` set ws"
    and "val c + sum_list (map (\<lambda>x. val (fst x)) (filter (\<lambda>x. val (snd x) < val b) ws)) \<le> val half"
    and "val half \<le> val c + sum_list (map (\<lambda>x. val (fst x)) (filter (\<lambda>x. val (snd x) \<le> val b) ws))"
    by blast+
qed

lemma apy_order: "sort_order (apy_before D)"
  by unfold_locales (auto simp: apy_before_def Let_def cmp cmp_int_def split: if_splits)

lemma sorted_rates: "sorted_wrt (\<lambda>x y. val (mk_net_supply_apy x) \<le> val (mk_net_supply_apy y)) (sorted_by_apy D ms)"
proof -
  have "sorted_wrt (\<lambda>x y. \<not> apy_before D y x) (sorted_by_apy D ms)"
    unfolding sorted_by_apy_def by (rule sort_order.sorted_sort_by [OF apy_order])
  then show ?thesis
    by (rule sorted_wrt_mono_rel [rotated]) (auto simp: apy_before_def Let_def cmp cmp_int_def split: if_splits)
qed

lemma weights_zip:
  assumes "list_all2 (\<lambda>m w. liquidity_weight D m = Inr w) ms weights"
  shows "sum_list (map (\<lambda>x. val (fst x)) (filter (\<lambda>x. Q (snd x)) (zip weights (map mk_net_supply_apy ms)))) =
      weight_where D val (\<lambda>m. Q (mk_net_supply_apy m)) ms"
    and "sum_list (map val weights) = weight_where D val (\<lambda>_. True) ms"
    and "\<forall>w \<in> set weights. 0 \<le> val w" and "\<exists>k. sum_list (map val weights) = of_int k / 10 ^ 6"
proof -
  show "sum_list (map (\<lambda>x. val (fst x)) (filter (\<lambda>x. Q (snd x)) (zip weights (map mk_net_supply_apy ms)))) =
      weight_where D val (\<lambda>m. Q (mk_net_supply_apy m)) ms"
    using assms by (induction rule: list_all2_induct) (auto simp: weight_where_def market_weight_def)
  show "sum_list (map val weights) = weight_where D val (\<lambda>_. True) ms"
    using assms by (induction rule: list_all2_induct) (auto simp: weight_where_def market_weight_def)
  show "\<forall>w \<in> set weights. 0 \<le> val w"
    using assms by (induction rule: list_all2_induct) (auto dest!: weight_val)
  show "\<exists>k. sum_list (map val weights) = of_int k / 10 ^ 6"
    using assms
  proof (induction rule: list_all2_induct)
    case Nil
    then show ?case by (intro exI [of _ 0]) simp
  next
    case (Cons m ms w ws)
    then obtain j k where "val w = of_int j / 10 ^ 6" "sum_list (map val ws) = of_int k / 10 ^ 6"
      using weight_val by blast
    then show ?case by (intro exI [of _ "j + k"]) (simp add: add_divide_distrib)
  qed
qed

lemma half_exact:
  assumes "val t = of_int k / 10 ^ 6" shows "val (d_div D t (d_of_int D 2)) = val t / 2"
proof -
  have "val t / 2 * 10 powi 16 = (of_int (k * 5 * 10 ^ 9) :: rat)" by (simp add: assms)
  moreover have "val (d_of_int D 2) = 2" by (simp add: val_of_int)
  ultimately have "val (d_div D t (d_of_int D 2)) = of_int (k * 5 * 10 ^ 9) / 10 powi 16"
    using val_div [of "d_of_int D 2" t] by (simp del: of_int_mult)
  then show ?thesis by (simp add: assms)
qed

lemma mset_weight_where: "mset ms = mset ms' \<Longrightarrow> weight_where D val Q ms = weight_where D val Q ms'"
  unfolding weight_where_def by (metis mset_filter mset_map sum_mset_sum_list)

lemma weighted_median_apy_Inr:
  assumes "weighted_median_apy D ms = Inr b" and "ms \<noteq> []"
  shows "b \<in> mk_net_supply_apy ` set ms"
    and "2 * weight_where D val (\<lambda>m. val (mk_net_supply_apy m) < val b) ms \<le> weight_where D val (\<lambda>_. True) ms"
    and "weight_where D val (\<lambda>_. True) ms \<le> 2 * weight_where D val (\<lambda>m. val (mk_net_supply_apy m) \<le> val b) ms"
proof -
  let ?L = "sorted_by_apy D ms" and ?total = "weight_where D val (\<lambda>_. True)"
  have L: "mset ?L = mset ms" "set ?L = set ms" "?L \<noteq> []"
    using assms(2) unfolding sorted_by_apy_def by (metis mset_sort_by mset_zero_iff set_sort_by)+
  obtain weights where w: "list_all2 (\<lambda>m w. liquidity_weight D m = Inr w) ?L weights"
    and b: "b = median_walk D (d_div D (fold (\<lambda>w acc. d_add D acc w) weights (d_zero D)) (d_of_int D 2))
        (zip weights (map mk_net_supply_apy ?L)) (d_zero D) (mk_net_supply_apy (last ?L))"
    using assms by (auto simp: weighted_median_apy_def Let_def and_then_Inr_iff traverse_Inr_iff)
  note z = weights_zip [OF w]
  let ?tot = "fold (\<lambda>w acc. d_add D acc w) weights (d_zero D)"
  have tot: "val ?tot = ?total ms"
    using z(2) mset_weight_where [OF L(1)] by (simp add: val_fold_add val_zero)
  have half: "val (d_div D ?tot (d_of_int D 2)) = ?total ms / 2"
    using half_exact z(4) tot z(2) mset_weight_where [OF L(1)] by (metis)
  let ?ws = "zip weights (map mk_net_supply_apy ?L)"
  have len: "length weights = length ?L" using list_all2_lengthD [OF w] by simp
  have total_nonneg: "0 \<le> ?total ms"
    unfolding weight_where_def by (rule sum_list_nonneg) (auto simp: weight_nonneg)
  have "sorted_wrt (\<lambda>x y. val (snd x) \<le> val (snd y)) ?ws"
  proof -
    have "sorted_wrt (\<lambda>x y. val x \<le> val y) (map snd ?ws)"
      using sorted_rates [of ms] len by (simp add: sorted_wrt_map)
    then show ?thesis by (simp only: sorted_wrt_map)
  qed
  moreover have "\<forall>x \<in> set ?ws. 0 \<le> val (fst x)" using z(3) by (auto dest: set_zip_leftD)
  moreover have "?ws \<noteq> []" using L(3) len by (cases weights; cases ?L) auto
  moreover have "mk_net_supply_apy (last ?L) = snd (last ?ws)"
    using L(3) len \<open>?ws \<noteq> []\<close> by (simp add: last_zip last_map)
  moreover have "sum_list (map (\<lambda>x. val (fst x)) ?ws) = ?total ms"
    using z(1) [of "\<lambda>_. True"] mset_weight_where [OF L(1)] by simp
  ultimately have m: "b \<in> snd ` set ?ws"
    "sum_list (map (\<lambda>x. val (fst x)) (filter (\<lambda>x. val (snd x) < val b) ?ws)) \<le> ?total ms / 2"
    "?total ms / 2 \<le> sum_list (map (\<lambda>x. val (fst x)) (filter (\<lambda>x. val (snd x) \<le> val b) ?ws))"
    using median_walk_splits [of ?ws "mk_net_supply_apy (last ?L)" "d_zero D" "d_div D ?tot (d_of_int D 2)"]
      half total_nonneg by (simp_all add: val_zero b)
  show "b \<in> mk_net_supply_apy ` set ms" using m(1) L(2) by (auto dest: set_zip_rightD)
  show "2 * weight_where D val (\<lambda>m. val (mk_net_supply_apy m) < val b) ms \<le> ?total ms"
    using m(2) z(1) [of "\<lambda>r. val r < val b"] mset_weight_where [OF L(1)] by simp
  show "?total ms \<le> 2 * weight_where D val (\<lambda>m. val (mk_net_supply_apy m) \<le> val b) ms"
    using m(3) z(1) [of "\<lambda>r. val r \<le> val b"] mset_weight_where [OF L(1)] by simp
qed

lemma winsorize_Inr:
  assumes "winsorize D P ms = Inr ws" and "r \<in> mk_net_supply_apy ` set ws"
  shows "r \<in> mk_net_supply_apy ` set ms"
proof -
  let ?L = "sorted_by_apy D ms"
  have L: "set ?L = set ms" by (simp add: sorted_by_apy_def)
  show ?thesis
  proof (cases "ws = ?L")
    case True
    then show ?thesis using assms(2) L by simp
  next
    case False
    then obtain weights lo hi where w: "list_all2 (\<lambda>m w. liquidity_weight D m = Inr w) ?L weights"
      and two: "\<not> length ?L < 2"
      and clipped: "list_all2 (\<lambda>m m'. clip_market D (winsor_bounds D lo hi (zip weights (map mk_net_supply_apy ?L))
        (d_zero D) False (mk_net_supply_apy (hd ?L), mk_net_supply_apy (last ?L))) m = Inr m') ?L ws"
      using assms(1) by (auto simp: winsorize_def Let_def and_then_Inr_iff traverse_Inr_iff split: if_splits)
    define bounds where "bounds = winsor_bounds D lo hi (zip weights (map mk_net_supply_apy ?L)) (d_zero D) False
        (mk_net_supply_apy (hd ?L), mk_net_supply_apy (last ?L))"
    have "?L \<noteq> []" using two by auto
    then have "hd ?L \<in> set ?L" "last ?L \<in> set ?L" by simp_all
    moreover have "snd ` set (zip weights (map mk_net_supply_apy ?L)) \<subseteq> mk_net_supply_apy ` set ?L"
      by (auto dest: set_zip_rightD)
    moreover obtain low high where lh: "bounds = (low, high)" by (cases bounds)
    ultimately have quoted: "low \<in> mk_net_supply_apy ` set ?L" "high \<in> mk_net_supply_apy ` set ?L"
      using winsor_bounds_quoted bounds_def by (metis (no_types, lifting) image_eqI insertE subsetD)+
    obtain i where i: "i < length ws" "r = mk_net_supply_apy (ws ! i)" using assms(2) by (auto simp: in_set_conv_nth)
    then have m: "?L ! i \<in> set ?L" "clip_market D bounds (?L ! i) = Inr (ws ! i)"
      using clipped unfolding bounds_def by (auto simp: list_all2_conv_all_nth)
    obtain r' where r': "rate_clamp D (mk_net_supply_apy (?L ! i)) low high = Inr r'"
      "ws ! i = (?L ! i)\<lparr>mk_net_supply_apy := r'\<rparr>"
      using m(2) by (auto simp: clip_market_def and_then_Inr_iff lh)
    from r'(1) have "r' \<in> {mk_net_supply_apy (?L ! i), low, high}" by (auto simp: rate_clamp_def split: if_splits)
    then have "r \<in> {mk_net_supply_apy (?L ! i), low, high}" by (simp add: i(2) r'(2))
    then show ?thesis using quoted L m(1) by auto
  qed
qed

lemma winsorize_nonempty: "winsorize D P ms = Inr ws \<Longrightarrow> ms \<noteq> [] \<Longrightarrow> ws \<noteq> []"
proof -
  assume a: "winsorize D P ms = Inr ws" "ms \<noteq> []"
  have "length (sorted_by_apy D ms) = length ms" by (simp add: sorted_by_apy_def)
  then have "length ws = length ms"
    using a(1) by (auto simp: winsorize_def Let_def and_then_Inr_iff traverse_Inr_iff dest!: list_all2_lengthD split: if_splits)
  then show ?thesis using a(2) by auto
qed

lemma liquidity_premium_Inr:
  assumes "liquidity_premium D P t = Inr r" and "val (np_premium_floor P) \<le> val (np_premium_ceiling P)"
  shows "val (np_premium_floor P) \<le> val r \<and> val r \<le> val (np_premium_ceiling P)"
  using assms rate_clamp_Inr(2,3) by (auto simp: liquidity_premium_def and_then_Inr_iff Let_def split: if_splits)

lemma volatility_Inr:
  assumes "volatility D P ms = Inr r" shows "0 \<le> val r \<and> val r \<le> 1"
proof (cases "r = d_zero D")
  case False
  then obtain x where "rate_clamp D x (d_zero D) (one_rate D) = Inr r"
    using assms by (auto simp: volatility_def Let_def split: if_splits sum.splits)
  then show ?thesis using rate_clamp_Inr(2,3) [of x "d_zero D" "one_rate D" r] by (simp add: val_zero val_one_rate)
qed (simp add: val_zero)

lemma normalize_Inr:
  assumes "normalize H D P q ms now = Inr s"
  obtains ws b where "eligible_markets ms = Inr (sn_markets s)" and "winsorize D P (sn_markets s) = Inr ws"
    and "weighted_median_apy D ws = Inr b" and "sn_benchmark s = rate_quantize D b rate_scale"
    and "liquidity_premium D P (sn_total_liquidity s) = Inr (sn_liquidity_premium s)"
    and "volatility D P ws = Inr (sn_volatility s)" and "sn_observed_at s = now" and "sn_ttl s = np_ttl P"
    and "amount_sum (map mk_available_liquidity (sn_markets s)) = Inr (sn_total_liquidity s)"
  using assms by (auto simp: normalize_def result_simps and_then_Inr_iff Let_def total_liquidity_of_def)

end

lemma eligible_markets_Inr:
  assumes "eligible_markets ms = Inr es"
  shows "set es = {m \<in> set ms. amount_positive (mk_available_liquidity m)}" and "es \<noteq> []"
proof -
  have es: "es = sort_by market_before (filter (\<lambda>m. amount_positive (mk_available_liquidity m)) ms)"
    and some: "filter (\<lambda>m. amount_positive (mk_available_liquidity m)) ms \<noteq> []"
    using assms by (auto simp: eligible_markets_def Let_def split: if_splits)
  show "set es = {m \<in> set ms. amount_positive (mk_available_liquidity m)}" by (auto simp: es)
  have "mset es = mset (filter (\<lambda>m. amount_positive (mk_available_liquidity m)) ms)" by (simp add: es)
  then show "es \<noteq> []" using some by (metis mset_zero_iff)
qed

section \<open>A sample\<close>

definition sample_market :: "string \<Rightarrow> rat \<Rightarrow> int \<Rightarrow> rat market" where
  "sample_market i apy liquidity = \<lparr>mk_id = i, mk_subgraph_id = ''s'', mk_asset = ''USDC'', mk_net_supply_apy = apy,
     mk_available_liquidity = \<lparr>minor = liquidity, currency = ''USD''\<rparr>, mk_block_number = 1\<rparr>"

definition sample_query :: market_query where
  "sample_query = \<lparr>mq_provider = ''static-demo'', mq_network = ''demo'', mq_asset = ''USDC'', mq_graphql = ''q'',
     mq_variables = []\<rparr>"

definition sample_normalizer :: "rat normalizer_params" where
  "sample_normalizer = \<lparr>np_winsor = 1 / 10, np_liquidity_constant = 95, np_premium_floor = 1 / 400,
     np_premium_ceiling = 1 / 20, np_volatility_scale = 1 / 10, np_ttl = default_ttl\<rparr>"

definition sample_markets :: "rat market list" where
  "sample_markets = [sample_market ''b'' (3 / 50) 400, sample_market ''a'' (1 / 20) 100, sample_market ''c'' (9 / 10) 0]"

definition sample_eligible :: "rat market list" where
  "sample_eligible = [sample_market ''a'' (1 / 20) 100, sample_market ''b'' (3 / 50) 400]"

lemma sample_roots: "nat_root 1000000000000 = 1000000" "nat_root 4000000000000 = 2000000" "nat_root 5000000000000 = 2236067" by (simp_all add: nat_root.simps Let_def)

lemma sample_sqrt: "sqrt_decimal rat_decimal 1 sqrt_scale = 1" "sqrt_decimal rat_decimal 4 sqrt_scale = 2" "sqrt_decimal rat_decimal 5 sqrt_scale = 2236067 / 1000000" 
  by (simp_all add: sqrt_decimal_def ratd.cmp_simps, simp_all add: rat_decimal_simps sqrt_scale_def sample_roots power_int_minus)

lemma usd_exponent: "currency_exponent ''USD'' = Inr 2" by code_simp

lemma sample_decimals: "amount_decimal rat_decimal \<lparr>minor = 100, currency = ''USD''\<rparr> = Inr 1"
  "amount_decimal rat_decimal \<lparr>minor = 400, currency = ''USD''\<rparr> = Inr 4"
  "amount_decimal rat_decimal \<lparr>minor = 500, currency = ''USD''\<rparr> = Inr 5"
  by (simp_all add: amount_decimal_def usd_exponent rat_decimal_def power_int_minus)

lemma sample_weights: "liquidity_weight rat_decimal (sample_market ''a'' r 100) = Inr 1" 
   "liquidity_weight rat_decimal (sample_market ''b'' r 400) = Inr 2"
  by (simp_all add: liquidity_weight_def sample_market_def sample_decimals sample_sqrt)

lemma sample_by_apy: "sorted_by_apy rat_decimal sample_eligible = sample_eligible" 
  by (simp add: sample_eligible_def sorted_by_apy_def sort_by_def apy_before_def sample_market_def rat_decimal_simps)

lemma sample_winsorized: "winsorize rat_decimal sample_normalizer sample_eligible =
  Inr sample_eligible"
  by (simp add: sample_eligible_def winsorize_def sample_by_apy [unfolded sample_eligible_def] sample_weights ratd.cmp_simps Let_def, simp add: rat_decimal_def sample_normalizer_def sample_market_def clip_market_def rate_clamp_def d_lt_def cmp_int_def)

lemma sample_median: "weighted_median_apy rat_decimal sample_eligible \<noteq> Inl e"
  by (simp add: sample_eligible_def weighted_median_apy_def sample_by_apy [unfolded sample_eligible_def] sample_weights Let_def)

lemma sample_premium: "liquidity_premium rat_decimal sample_normalizer \<lparr>minor = 500, currency = ''USD''\<rparr> \<noteq> Inl e"
  by (simp add: liquidity_premium_def sample_decimals sample_sqrt ratd.cmp_simps rate_div_def sample_normalizer_def rate_clamp_def Let_def)

lemma sample_spread: "volatility rat_decimal sample_normalizer sample_eligible \<noteq> Inl e"
  by (simp add: sample_eligible_def volatility_def rate_clamp_def ratd.cmp_simps ratd.val_one_rate Let_def ratd.val_zero split: sum.split)

lemma sample_snapshot:
  "\<exists>s. normalize H rat_decimal sample_normalizer sample_query sample_markets 0 = Inr s"
proof -
  have "concat (map (validate_market rat_decimal) sample_markets) = []" "validate_query sample_query = []"
    by code_simp+
  moreover have "eligible_markets sample_markets = Inr sample_eligible"
    and "amount_sum (map mk_available_liquidity sample_eligible) = Inr \<lparr>minor = 500, currency = ''USD''\<rparr>"
    by code_simp+
  moreover obtain m p v where "weighted_median_apy rat_decimal sample_eligible = Inr m"
    "liquidity_premium rat_decimal sample_normalizer \<lparr>minor = 500, currency = ''USD''\<rparr> = Inr p"
    "volatility rat_decimal sample_normalizer sample_eligible = Inr v"
    using sample_median sample_premium sample_spread by (meson sumE)
  ultimately show ?thesis using sample_winsorized by (simp add: normalize_def result_simps total_liquidity_of_def)
qed

section \<open>Properties\<close>

text \<open>C26: A snapshot is built from the rows that have liquidity. Its benchmark is, up to the published rounding, a rate
  one of those rows quotes, and a weighted median of the clipped rates: at most half of the weight lies below it, and
  at least half at or below it. Its premium stays between floor and ceiling and its volatility between 0 and 1.\<close>

theorem snapshot_is_quoted_and_bounded:
  assumes "decimal_lib D val" and "val (np_premium_floor P) \<le> val (np_premium_ceiling P)"
    and "normalize H D P q ms now = Inr s"
  shows "set (sn_markets s) = {m \<in> set ms. amount_positive (mk_available_liquidity m)} \<and>
    val (np_premium_floor P) \<le> val (sn_liquidity_premium s) \<and>
    val (sn_liquidity_premium s) \<le> val (np_premium_ceiling P) \<and>
    0 \<le> val (sn_volatility s) \<and> val (sn_volatility s) \<le> 1 \<and>
    (\<exists>ws b. winsorize D P (sn_markets s) = Inr ws \<and> sn_benchmark s = rate_quantize D b rate_scale \<and>
      b \<in> mk_net_supply_apy ` set (sn_markets s) \<and>
      2 * weight_where D val (\<lambda>m. val (mk_net_supply_apy m) < val b) ws \<le> weight_where D val (\<lambda>_. True) ws \<and>
      weight_where D val (\<lambda>_. True) ws \<le> 2 * weight_where D val (\<lambda>m. val (mk_net_supply_apy m) \<le> val b) ws)"
proof -
  obtain ws b where n: "eligible_markets ms = Inr (sn_markets s)" "winsorize D P (sn_markets s) = Inr ws"
    "weighted_median_apy D ws = Inr b" "sn_benchmark s = rate_quantize D b rate_scale"
    "liquidity_premium D P (sn_total_liquidity s) = Inr (sn_liquidity_premium s)"
    "volatility D P ws = Inr (sn_volatility s)"
    using decimal_lib.normalize_Inr [OF assms(1,3)] by metis
  note es = eligible_markets_Inr [OF n(1)]
  note median = decimal_lib.weighted_median_apy_Inr [OF assms(1) n(3) decimal_lib.winsorize_nonempty [OF assms(1) n(2) es(2)]]
  have "b \<in> mk_net_supply_apy ` set (sn_markets s)"
    by (rule decimal_lib.winsorize_Inr [OF assms(1) n(2) median(1)])
  then show ?thesis
    using es(1) n(2,4) median(2,3) decimal_lib.liquidity_premium_Inr [OF assms(1) n(5) assms(2)]
      decimal_lib.volatility_Inr [OF assms(1) n(6)] by blast
qed


theorem snapshot_is_quoted_and_bounded_witness:
  "\<exists>s. normalize (\<lambda>_. []) rat_decimal sample_normalizer sample_query sample_markets 0 = Inr s \<and>
    1 / 400 \<le> sn_liquidity_premium s \<and> sn_liquidity_premium s \<le> 1 / 20 \<and>
    0 \<le> sn_volatility s \<and> sn_volatility s \<le> 1"
proof -
  obtain s where s: "normalize (\<lambda>_. []) rat_decimal sample_normalizer sample_query sample_markets 0 = Inr s"
    using sample_snapshot by blast
  have "np_premium_floor sample_normalizer \<le> np_premium_ceiling sample_normalizer" by (simp add: sample_normalizer_def)
  from snapshot_is_quoted_and_bounded [OF ratd.decimal_lib_axioms this s] s show ?thesis
    by (auto simp: sample_normalizer_def)
qed

text \<open>The rows of a snapshot do not depend on the order in which the gateway returned them: the same rows in
  any order, each with its own key, give the same snapshot, digest included.\<close>

theorem normalize_order_independent:
  assumes "mset ms' = mset ms" and "distinct (map market_key (filter (\<lambda>m. amount_positive (mk_available_liquidity m)) ms))"
    and "normalize H D P q ms now = Inr s"
  shows "normalize H D P q ms' now = Inr s"
proof -
  have rows: "validate_query q = []" "concat (map (validate_market D) ms) = []"
    using assms(3) by (simp_all add: normalize_def checked_def split: if_splits)
  obtain es where es: "eligible_markets ms = Inr es"
    using assms(3) rows by (auto simp: normalize_def result_simps and_then_Inr_iff)
  have "set ms' = set ms" using assms(1) by (metis set_mset_mset)
  then have "concat (map (validate_market D) ms') = []" using rows(2) by simp
  then show ?thesis using assms(3) rows es eligible_markets_cong [OF es assms(1,2)] by (simp add: normalize_def checked_def)
qed

theorem normalize_order_independent_witness:
  "\<exists>s. normalize (\<lambda>_. []) rat_decimal sample_normalizer sample_query (rev sample_markets) 0 = Inr s \<and>
    normalize (\<lambda>_. []) rat_decimal sample_normalizer sample_query sample_markets 0 = Inr s \<and>
    rev sample_markets \<noteq> sample_markets"
proof -
  obtain s where s: "normalize (\<lambda>_. []) rat_decimal sample_normalizer sample_query sample_markets 0 = Inr s"
    using sample_snapshot by blast
  have "distinct (map market_key (filter (\<lambda>m. amount_positive (mk_available_liquidity m)) sample_markets))"
    by code_simp
  then show ?thesis
    using normalize_order_independent [OF _ _ s, of "rev sample_markets"] s
    by (auto simp: sample_markets_def sample_market_def)
qed

end
