(* ===== verification/Assessing_Facts.thy ===== *)
theory Assessing_Facts
  imports Assessing Issuance_Facts Explanation_Facts Market_Facts
begin

text \<open>
  What a delivery of the assessment command does: the price, the snapshot it rests on, its explanation and the
  state of the invoice are stored together or not at all, and the demo's workflow only gives results
  the worker accepts. The last lemmas show what a failure leaves behind and what a commitment is not checked against.
\<close>

section \<open>Writes\<close>

lemma record_assess_failure_writes:
  assumes "record_assess_failure err_text rq i cause s = (r, t)" shows "writes H s t"
proof -
  obtain res where "in_tx (\<lambda>s.
        and_then (get_invoice i s) (\<lambda>v.
        if inv_status v \<noteq> InvExtracting then Inr ((), s)
        else and_then (fail_assessment (safe_reason (err_text cause)) (rq_now rq) v) (\<lambda>v'.
             and_then (update_invoice v' (inv_version v) s) (\<lambda>t. Inr ((), t))))) s = (res, t)"
    using assms by (auto simp: record_assess_failure_def split: prod.splits sum.splits)
  then show ?thesis
    by (rule fail_invoice_writes)
      (rule inv_command [of "FailAssessment (safe_reason (err_text cause)) (rq_now rq)"], simp)
qed

lemma commit_assessment_tx_Inr:
  assumes "commit_assessment_tx U D rq v x a s = Inr (y, t)"
  obtains e w s1 s2 details where "derive D (Some a) (rq_now rq) = Some e"
    and "save_explanation e (save_assessment a (save_snapshot x s)) = Inr s1"
    and "complete_assessment (am_id a) (rq_now rq) v = Inr w" and "update_invoice w (inv_version v) s1 = Inr s2"
    and "annotate U rq system_actor action_assessed invoice_entity (inv_id w) details s2 = Inr t"
  using assms by (auto simp: commit_assessment_tx_def and_then_Inr_iff split: option.splits)

lemma save_explanation_Inr:
  assumes "save_explanation e s = Inr t"
  obtains m where "db_explanations s = Some m" and "t = s\<lparr>db_explanations := Some (table_put (ex_assessment_id e) e m)\<rparr>"
  using assms by (auto simp: save_explanation_def split: option.splits)

lemma commit_assessment_tx_writes:
  assumes "commit_assessment_tx U D rq v x a s = Inr (y, t)" and "get_invoice i s = Inr v" shows "writes H s t"
  using assms(1)
proof (cases rule: commit_assessment_tx_Inr)
  case (1 e w s1 s2 details)
  have "get_invoice i s1 = Inr v"
    using 1(2) assms(2)
    by (auto elim!: save_explanation_Inr simp: get_invoice_def save_assessment_def save_snapshot_def)
  moreover have "reaches inv_exec v w"
    by (rule inv_command [of "CompleteAssessment (am_id a) (rq_now rq)"]) (simp add: 1(3))
  ultimately have "sound_write H s1 s2" using 1(4) by (rule write_invoice)
  have "writes H s s1" by (rule writes_then [OF two_writes [OF write_plain(4,3)] write_explanation [OF 1(2)]])
  from writes_then [OF writes_then [OF this \<open>sound_write H s1 s2\<close>] write_entry [OF 1(5)]] show ?thesis .
qed

lemma narrate_assessment_writes:
  assumes "narrate_assessment D A rq a (s, n) = (t, n')" shows "writes H s t"
proof -
  consider "t = s" | e where "t = snd (in_tx (\<lambda>s. and_then (save_explanation e s) (\<lambda>t. Inr ((), t))) s)"
    using assms by (auto simp: narrate_assessment_def split: if_splits prod.splits option.splits)
  then show ?thesis
  proof cases
    case (2 e)
    obtain r where "in_tx (\<lambda>s. and_then (save_explanation e s) (\<lambda>t. Inr ((), t))) s = (r, t)"
      using 2 by (metis prod.collapse)
    then show ?thesis
      by (rule in_tx_writes) (auto simp: and_then_Inr_iff intro: write_explanation)
  qed simp
qed

text \<open>The ways through the shared part.\<close>

lemma price_and_store_cases:
  assumes "price_and_store err_text H D U A rq v q r (s, n) = (res, t, n')"
  obtains (failed) e where "record_assess_failure err_text rq (inv_id v) e s = (res, t)"
  | (uncommitted) x a e where "commit_assessment U D rq v x a s = (Inl e, t)" and "res = Inl e"
  | (stored) x a u n1 where "fresh_snapshot H D A (rq_now rq) n = (Inr x, n1)"
      and "score_receivable D (asr_model A) rq v x q r = Inr a" and "commit_assessment U D rq v x a s = (Inr (), u)"
      and "narrate_assessment D A rq a (u, n1) = (t, n')" and "res = Inr ()"
proof -
  obtain x n1 where x: "fresh_snapshot H D A (rq_now rq) n = (x, n1)" by (metis prod.collapse)
  show thesis
  proof (cases x)
    case (Inl e)
    then have "record_assess_failure err_text rq (inv_id v) e s = (res, t)"
      using assms x by (simp add: price_and_store_def Let_def split: prod.splits)
    then show thesis by (rule failed)
  next
    case x': (Inr x)
    show thesis
    proof (cases "score_receivable D (asr_model A) rq v x q r")
      case (Inl e)
      then have "record_assess_failure err_text rq (inv_id v) e s = (res, t)"
        using assms x x' by (simp add: price_and_store_def Let_def split: prod.splits)
      then show thesis by (rule failed)
    next
      case a: (Inr a)
      obtain o' u where u: "commit_assessment U D rq v x a s = (o', u)" by (metis prod.collapse)
      show thesis
      proof (cases o')
        case (Inl e)
        have "(res, t, n') = (Inl e, u, n1)"
          unfolding assms [symmetric] price_and_store_def by (simp add: x x' a u Inl)
        then show thesis using u Inl by (intro uncommitted [of x a e]) simp_all
      next
        case (Inr y)
        obtain t' n2 where narrated: "narrate_assessment D A rq a (u, n1) = (t', n2)" by (metis prod.collapse)
        have "(res, t, n') = (Inr (), t', n2)"
          unfolding assms [symmetric] price_and_store_def by (simp add: x x' a u Inr narrated)
        then show thesis using x x' a u Inr narrated by (intro stored [of x n1 a u]) simp_all
      qed
    qed
  qed
qed

lemma price_and_store_writes:
  assumes "price_and_store err_text H' D U A rq v q r (s, n) = (res, t, n')" and "get_invoice i s = Inr v"
  shows "writes H s t"
  using assms(1)
proof (cases rule: price_and_store_cases)
  case failed
  then show ?thesis by (rule record_assess_failure_writes)
next
  case uncommitted
  from uncommitted(1) [unfolded commit_assessment_def] show ?thesis
    by (rule in_tx_writes) (rule commit_assessment_tx_writes [OF _ assms(2)])
next
  case (stored x a u n1)
  from stored(3) [unfolded commit_assessment_def] have "writes H s u"
    by (rule in_tx_writes) (rule commit_assessment_tx_writes [OF _ assms(2)])
  also have "writes H u t" by (rule narrate_assessment_writes [OF stored(4)])
  finally show ?thesis .
qed

lemma handle_assess_cases:
  assumes "handle_assess err_text H D U A rq c (s, n) = (res, t, n')"
  obtains (same) "t = s"
  | (failed) e where "record_assess_failure err_text rq (ao_invoice_id c) e s = (res, t)"
  | (priced) v r n1 where "get_invoice (ao_invoice_id c) s = Inr v" and "inv_status v = InvExtracting"
      and "run_workflow D (asr_workflow A) (workflow_request_of H U c) n = (Inr r, n1)"
      and "price_and_store err_text H D U A rq v (workflow_request_of H U c) r (s, n1) = (res, t, n')"
  using assms by (auto simp: handle_assess_def Let_def split: if_splits prod.splits sum.splits)

lemma handle_assess_writes:
  assumes "handle_assess err_text H' D U A rq c (s, n) = (res, t, n')" shows "writes H s t"
  using assms
  by (cases rule: handle_assess_cases) (auto intro: record_assess_failure_writes price_and_store_writes)

lemma complete_elsewhere_writes:
  assumes "complete_elsewhere err_text H' D U A rq i r (s, n) = (res, t, n')" shows "writes H s t"
proof -
  have "t = s \<or> (\<exists>v q. get_invoice i s = Inr v \<and> price_and_store err_text H' D U A rq v q r (s, n) = (res, t, n'))"
    using assms by (auto simp: complete_elsewhere_def split: if_splits sum.splits)
  then show ?thesis by (auto intro: price_and_store_writes)
qed

section \<open>What a delivery leaves\<close>

text \<open>Only the workflow itself can say that it answers elsewhere.\<close>

lemma run_workflow_elsewhere:
  "run_workflow D w q n = (Inl collected_elsewhere, n1) \<longleftrightarrow> w q n = (Inl collected_elsewhere, n1)"
  by (auto simp: run_workflow_def validate_result_def checked_def collected_elsewhere_def and_then_def
      split: prod.splits sum.splits if_splits)

lemma record_assess_failure_Inl:
  assumes "record_assess_failure err_text rq i cause s = (r, t)"
  obtains e where "r = Inl e"
  using assms by (auto simp: record_assess_failure_def split: prod.splits sum.splits)

lemma score_receivable_Inr:
  assumes "score_receivable D m rq v x q r = Inr a"
  shows "am_id a = rq_ids rq 0" and "am_invoice_id a = inv_id v" and "0 < inv_days_to_due v (rq_now rq)"
    and "am_market_snapshot_hash a = to_lower (sn_payload_hash x)"
    and "am_confidential_commitment a = to_lower (wr_commitment r)"
    and "am_features a = (wr_features r)\<lparr>market_volatility := sn_volatility x\<rparr>"
  using assms by (auto simp: score_receivable_def assess_def result_simps checked_def split: if_splits)

lemma commit_assessment_rows:
  assumes "commit_assessment U D rq v x a s = (Inr (), u)" and "inv_id v = i"
  obtains e w m where "derive D (Some a) (rq_now rq) = Some e" and "ex_assessment_id e = am_id a"
    and "get_invoice i u = Inr w" and "inv_status w = InvAssessed" and "inv_assessment_id w = am_id a"
    and "inv_terms w = inv_terms v" and "get_assessment (am_id a) u = Inr a"
    and "get_snapshot (sn_payload_hash x) u = Inr x" and "db_explanations u = Some m"
    and "fetch (am_id a) m = Inr e" and "db_fail_commit u = None"
proof -
  have tx: "commit_assessment_tx U D rq v x a s = Inr ((), u)" and commits: "db_fail_commit u = None"
    using assms(1) by (simp_all add: commit_assessment_def in_tx_Inr)
  from tx obtain e w s1 s2 details where run: "derive D (Some a) (rq_now rq) = Some e"
    "save_explanation e (save_assessment a (save_snapshot x s)) = Inr s1"
    "complete_assessment (am_id a) (rq_now rq) v = Inr w" "update_invoice w (inv_version v) s1 = Inr s2"
    "annotate U rq system_actor action_assessed invoice_entity (inv_id w) details s2 = Inr u"
    by (rule commit_assessment_tx_Inr) blast
  have w: "inv_status w = InvAssessed" "inv_assessment_id w = am_id a" "inv_id w = i" "inv_terms w = inv_terms v"
    using run(3) assms(2)
    by (auto simp: complete_assessment_def and_then_Inr_iff inv_transition_Inr inv_terms_def split: if_splits)
  obtain m where m: "s1 = (save_assessment a (save_snapshot x s))
      \<lparr>db_explanations := Some (table_put (ex_assessment_id e) e m)\<rparr>"
    using run(2) by (rule save_explanation_Inr) auto
  have e: "ex_assessment_id e = am_id a" using run(1) by (auto simp: derive_def)
  obtain ev where ev: "u = s2\<lparr>db_events := db_events s2 @ [ev]\<rparr>" using annotate_Inr [OF run(5)] by blast
  have "get_invoice i u = Inr w" "get_assessment (am_id a) u = Inr a" "get_snapshot (sn_payload_hash x) u = Inr x"
    "db_explanations u = Some (table_put (am_id a) e m)" "fetch (am_id a) (table_put (am_id a) e m) = Inr e"
    using run(4) m ev e w(3)
    by (auto simp: update_invoice_Inr get_invoice_def fetch_def get_assessment_def get_snapshot_def save_assessment_def
        save_snapshot_def)
  then show thesis using that run(1) e w(1,2,4) commits by blast
qed

text \<open>A narration replaces the explanation and nothing else.\<close>

lemma narrate_assessment_effect:
  assumes "narrate_assessment D A rq a (u, n) = (t, n')" and "db_explanations u = Some m" and "db_fail_commit u = None"
  obtains (kept) "t = u"
  | (narrated) name ask reply e where "asr_client A = Some (name, ask)"
      and "narrate D (asr_rate_text A) (Some a) name (answer_bullets reply) (rq_now rq) = Inr e"
      and "t = u\<lparr>db_explanations := Some (table_put (am_id a) e m)\<rparr>"
proof -
  consider "t = u" | e where "narrator D (asr_rate_text A) (asr_client A) (Some a) (rq_now rq) n = (Some e, n')"
      "ex_source e = source_model" "t = snd (in_tx (\<lambda>s. and_then (save_explanation e s) (\<lambda>t. Inr ((), t))) u)"
    using assms(1) by (auto simp: narrate_assessment_def split: if_splits prod.splits option.splits)
  then show thesis
  proof cases
    case (2 e)
    from 2(1,2) obtain name ask reply where "asr_client A = Some (name, ask)"
      and e: "narrate D (asr_rate_text A) (Some a) name (answer_bullets reply) (rq_now rq) = Inr e"
      by (auto simp: narrator_def derive_def source_model_def source_derived_def
          split: option.splits prod.splits sum.splits)
    moreover have "ex_assessment_id e = am_id a" by (rule narrate_Inr(1) [OF e])
    then have "t = u\<lparr>db_explanations := Some (table_put (am_id a) e m)\<rparr>"
      using 2(3) assms(2,3) by (simp add: in_tx_def save_explanation_def)
    ultimately show thesis by (rule narrated)
  qed (rule kept)
qed

lemma record_assess_failure_effect:
  assumes "record_assess_failure err_text rq i cause s = (r, t)" and "store_keyed s"
  shows "db_assessments t = db_assessments s \<and> db_snapshots t = db_snapshots s \<and>
    (get_invoice i t = get_invoice i s \<or>
     (\<exists>v w. get_invoice i s = Inr v \<and> inv_status v = InvExtracting \<and> get_invoice i t = Inr w \<and>
       inv_status w = InvFailed \<and> inv_failed_from w = Some InvExtracting \<and> inv_assessment_id w = inv_assessment_id v))"
proof -
  let ?body = "\<lambda>s. and_then (get_invoice i s) (\<lambda>v.
        if inv_status v \<noteq> InvExtracting then Inr ((), s)
        else and_then (fail_assessment (safe_reason (err_text cause)) (rq_now rq) v) (\<lambda>v'.
             and_then (update_invoice v' (inv_version v) s) (\<lambda>t. Inr ((), t))))"
  obtain res where tx: "in_tx ?body s = (res, t)"
    using assms(1) by (auto simp: record_assess_failure_def split: prod.splits sum.splits)
  show ?thesis
  proof (cases res)
    case (Inl e)
    then have "t = rollback s" by (intro in_tx_Inl [of ?body s e]) (simp add: tx)
    then show ?thesis by (simp add: rollback_def get_invoice_def)
  next
    case (Inr y)
    then have "?body s = Inr (y, t)" using tx by (simp add: in_tx_Inr)
    then consider "t = s" | v w where "get_invoice i s = Inr v" "inv_status v = InvExtracting"
        "fail_assessment (safe_reason (err_text cause)) (rq_now rq) v = Inr w" "update_invoice w (inv_version v) s = Inr t"
      by (auto simp: and_then_Inr_iff split: if_splits)
    then show ?thesis
    proof cases
      case (2 v w)
      have "inv_id v = i" using 2(1) assms(2) keyed_lookup by (auto simp: store_keyed_def get_invoice_def result_simps)
      moreover have "inv_id w = inv_id v" "inv_status w = InvFailed" "inv_failed_from w = Some InvExtracting"
        "inv_assessment_id w = inv_assessment_id v"
        using 2(2,3) by (auto simp: fail_assessment_def inv_fail_def and_then_Inr_iff inv_transition_Inr)
      ultimately show ?thesis using 2(1,2,4) by (auto simp: update_invoice_Inr get_invoice_def fetch_def)
    qed simp
  qed
qed

section \<open>A sample\<close>

definition waiting_invoice :: invoice where
  "waiting_invoice = market_invoice\<lparr>inv_status := InvExtracting, inv_due_at := hours (24 * 366)\<rparr>"

definition waiting_store :: "rat store" where
  "waiting_store = empty_store\<lparr>db_invoices := [(2, waiting_invoice)]\<rparr>"

definition waiting_request :: request where
  "waiting_request = market_request\<lparr>rq_now := hours 24\<rparr>"

definition sample_answer :: "rat workflow_result" where
  "sample_answer = \<lparr>wr_invoice_id = 2, wr_features = as_features sample_assess_input, wr_confidence = 9 / 10,
     wr_arithmetic_valid = True, wr_mitigations = \<lparr>recourse = True, collateralized = False\<rparr>,
     wr_commitment = ''0x'' @ replicate 64 (CHR ''b''), wr_schema_version = feature_schema_v1,
     wr_model_version = ''risk-v1'', wr_evidence = []\<rparr>"

definition sample_assessor :: "(rat, unit) assessor" where
  "sample_assessor = \<lparr>asr_workflow = (\<lambda>q n. (Inr sample_answer, n)),
     asr_provider = static_provider [sample_market ''a'' (1 / 20) 100],
     asr_normalizer = sample_normalizer\<lparr>np_premium_floor := 1 / 100, np_premium_ceiling := 1 / 100\<rparr>,
     asr_model = sample_model, asr_query = sample_query, asr_client = None, asr_rate_text = (\<lambda>_. [])\<rparr>"

definition sample_order :: assess_order where
  "sample_order = \<lparr>ao_invoice_id = 2, ao_object_key = [], ao_cipher_hash = [], ao_key_ref = [], ao_mime = []\<rparr>"

lemma waiting_rows:
  "get_invoice 2 waiting_store = Inr waiting_invoice" "inv_id waiting_invoice = 2" "inv_status waiting_invoice = InvExtracting"
  "store_keyed waiting_store" "db_fail_commit waiting_store = None" "db_explanations waiting_store = Some []"
  "inv_face waiting_invoice = \<lparr>minor = 100000, currency = ''USD''\<rparr>" "rq_now waiting_request = hours 24"
  "rq_ids waiting_request 0 = 100"
  by (simp_all add: waiting_store_def empty_store_def get_invoice_def fetch_def waiting_invoice_def market_invoice_def
      sample_invoice_def store_keyed_def keyed_def waiting_request_def market_request_def)

lemma sample_observed:
  "\<exists>x. fresh_snapshot market_hash rat_decimal sample_assessor (hours 24) () = (Inr x, ()) \<and> sn_benchmark x = 5 / 100 \<and>
    sn_liquidity_premium x = 1 / 100 \<and> sn_volatility x = 0 \<and> commitment_hex (to_lower (sn_payload_hash x))"
proof -
  let ?m = "sample_market ''a'' (1 / 20) 100"
  let ?P = "sample_normalizer\<lparr>np_premium_floor := 1 / 100, np_premium_ceiling := 1 / 100\<rparr>"
  have rows: "concat (map (validate_market rat_decimal) [?m]) = []" "validate_query sample_query = []"
    "eligible_markets [?m] = Inr [?m]" "amount_sum (map mk_available_liquidity [?m]) = Inr \<lparr>minor = 100, currency = ''USD''\<rparr>"
    by code_simp+
  have ordered: "sorted_by_apy rat_decimal [?m] = [?m]" by (simp add: sorted_by_apy_def sort_by_def)
  have stages: "winsorize rat_decimal ?P [?m] = Inr [?m]" "weighted_median_apy rat_decimal [?m] = Inr (1 / 20)"
    "volatility rat_decimal ?P [?m] = Inr 0"
    by (simp_all add: winsorize_def weighted_median_apy_def volatility_def ordered sample_weights Let_def ratd.val_zero)
      (simp_all add: sample_market_def Let_def)
  have premium: "liquidity_premium rat_decimal ?P \<lparr>minor = 100, currency = ''USD''\<rparr> = Inr (1 / 100)"
    by (simp add: liquidity_premium_def sample_decimals sample_sqrt ratd.cmp_simps rate_div_def rate_clamp_def Let_def)
  have hash: "hash_payload market_hash rat_decimal s = ''0x'' @ hex_encode (replicate 32 (CHR ''a''))" for s
    by (simp add: hash_payload_def market_digest_def market_hash_def)
  have "commitment_hex (to_lower (''0x'' @ hex_encode (replicate 32 (CHR ''a''))))" by code_simp
  moreover have "static_provider [?m] sample_query () = (Inr [?m], ())"
    by (simp add: static_provider_def sort_by_def sample_query_def sample_market_def)
  moreover have "np_ttl sample_normalizer = default_ttl" "0 \<le> default_ttl" "rate_quantize rat_decimal (1 / 20) rate_scale = 1 / 20"
    by (simp_all add: sample_normalizer_def default_ttl_def seconds_def evaluate_rates)
  ultimately show ?thesis
    using rows stages premium
    by (simp add: fresh_snapshot_def take_snapshot_def sample_assessor_def normalize_def result_simps total_liquidity_of_def
        Let_def hash ensure_fresh_def is_fresh_def expires_at_def)
qed

text \<open>The fields of an input that only name things do not decide whether it can be assessed.\<close>

lemma assess_renamed:
  assumes "assess D m i now = Inr a" and "assess_validate D j = []" and "as_face j = as_face i"
    and "as_days_to_due j = as_days_to_due i" and "as_features j = as_features i"
    and "as_mitigations j = as_mitigations i" and "as_benchmark j = as_benchmark i"
    and "as_liquidity_premium j = as_liquidity_premium i"
  shows "\<exists>b. assess D m j later = Inr b"
  using assms by (auto simp: assess_def result_simps checked_def split: if_splits)

lemma waiting_assessed:
  "\<exists>t. handle_assess (\<lambda>e. ''failed'') market_hash rat_decimal rfc_uuid sample_assessor waiting_request sample_order
    (waiting_store, ()) = (Inr (), t, ())"
proof -
  let ?q = "workflow_request_of market_hash rfc_uuid sample_order"
  obtain x where x: "fresh_snapshot market_hash rat_decimal sample_assessor (hours 24) () = (Inr x, ())"
    "sn_benchmark x = 5 / 100" "sn_liquidity_premium x = 1 / 100" "sn_volatility x = 0"
    "commitment_hex (to_lower (sn_payload_hash x))"
    using sample_observed by blast
  have commitment: "commitment_hex (to_lower (''0x'' @ replicate 64 (CHR ''b'')))" by code_simp
  have valid: "validate_result rat_decimal sample_answer ?q = Inr ()"
    using commitment sample_features
    by (simp add: validate_result_def sample_answer_def workflow_request_of_def sample_order_def checked_def evaluate_rates)
  let ?i = "\<lparr>as_id = 100, as_invoice_id = 2, as_face = inv_face waiting_invoice, as_days_to_due = 365,
        as_features = (as_features sample_assess_input)\<lparr>market_volatility := 0\<rparr>, as_confidence = 9 / 10,
        as_mitigations = \<lparr>recourse = True, collateralized = False\<rparr>, as_arithmetic_valid = True,
        as_benchmark = 5 / 100, as_liquidity_premium = 1 / 100,
        as_market_snapshot_hash = sn_payload_hash x, as_confidential_commitment = ''0x'' @ replicate 64 (CHR ''b''),
        as_confidential_nonce = wq_nonce ?q\<rparr> :: rat assess_input"
  have "assess_validate rat_decimal ?i = []"
    unfolding assess_validate_def using x(5) commitment
    by (simp add: violation_def evaluate_rates waiting_rows)
  moreover obtain b where "assess rat_decimal sample_model sample_assess_input 7 = Inr b" using sample_assessed by blast
  ultimately have "\<exists>a. assess rat_decimal sample_model ?i (hours 24) = Inr a"
    by (intro assess_renamed [of rat_decimal sample_model sample_assess_input 7 b])
      (simp_all add: sample_assess_input_def waiting_rows)
  then obtain a where a: "assess rat_decimal sample_model ?i (hours 24) = Inr a" by blast
  have "inv_days_to_due waiting_invoice (hours 24) = 365"
    by (simp add: inv_days_to_due_def tenor_days_between_def waiting_invoice_def time_sub_def hours_def go_quot_def min64_def max64_def)
  then have score: "score_receivable rat_decimal sample_model waiting_request waiting_invoice x ?q sample_answer = Inr a"
    using a by (simp add: score_receivable_def waiting_rows sample_answer_def x(2-4))
  note rows = score_receivable_Inr [OF score]
  have "trim_space action_assessed \<noteq> []" by code_simp
  moreover have "am_id a = 100" using rows(1) by (simp add: waiting_rows)
  moreover obtain e where "derive rat_decimal (Some a) (hours 24) = Some e" by (simp add: derive_def)
  ultimately have "\<exists>t. commit_assessment rfc_uuid rat_decimal waiting_request waiting_invoice x a waiting_store = (Inr (), t)"
    using waiting_rows(1)
    by (simp add: commit_assessment_def in_tx_def commit_assessment_tx_def save_explanation_def save_assessment_def
        save_snapshot_def waiting_rows complete_assessment_def inv_transition_def inv_can_transition_def update_invoice_def
        versioned_put_def get_invoice_def fetch_def rfc.annotate_valid hours_def)
  then obtain t where "commit_assessment rfc_uuid rat_decimal waiting_request waiting_invoice x a waiting_store = (Inr (), t)"
    by blast
  then show ?thesis
    using x(1) valid score
    by (simp add: handle_assess_def sample_order_def waiting_rows run_workflow_def sample_assessor_def
       price_and_store_def narrate_assessment_def)
qed

section \<open>The workflow of the demo\<close>

lemma seed_byte_bounds: "0 \<le> seed_byte seed k" "seed_byte seed k \<le> 255"
proof -
  have "seed_byte seed k = int (of_char (seed ! k))" unfolding seed_byte_def by (rule of_nat_of_char [symmetric])
  moreover have "(of_char (seed ! k) :: nat) < 256" by (rule nat_of_char_less_256)
  ultimately show "0 \<le> seed_byte seed k" "seed_byte seed k \<le> 255" by linarith+
qed

lemma hex_commitment:
  assumes "length d = 32" shows "commitment_hex (to_lower (''0x'' @ hex_encode d))"
proof -
  have "commitment_hex (''0x'' @ hex_encode d)" using assms hex_encode_lower [of d] by (simp add: commitment_hex_def)
  then show ?thesis using commitment_hex_trim by metis
qed

context decimal_lib
begin

lemma quantized_fraction:
  assumes "rate_from_fraction D num den = Inr r" and "0 \<le> num" and "num \<le> den"
  shows "0 \<le> val (rate_quantize D r rate_scale)" and "val (rate_quantize D r rate_scale) \<le> 1"
proof -
  have den: "den \<noteq> 0" and r: "val r = at_scale (of_int num / of_int den)" using rate_from_fraction_Inr [OF assms(1)] by auto
  then have "0 \<le> (of_int num / of_int den :: rat)" "of_int num / of_int den \<le> (1 :: rat)" using assms(2,3) by simp_all
  then have "0 \<le> val r" "val r \<le> 1"
    using r at_scale_mono [of 0 "of_int num / of_int den"] at_scale_mono [of "of_int num / of_int den" 1]
      at_scale_of_int [of 0] at_scale_of_int [of 1] by simp_all
  then show "0 \<le> val (rate_quantize D r rate_scale)" "val (rate_quantize D r rate_scale) \<le> 1"
    using quantize_nonneg [of r rate_scale] round_half_even_le [of "val r * 10 powi 6" "10 ^ 6"]
    by (simp_all add: val_quantize rate_scale_def)
qed

lemma seed_feature_bounds: "0 \<le> val (seed_feature D seed k)" "val (seed_feature D seed k) \<le> 1"
proof -
  let ?raw = "seed_byte seed k * 256 + seed_byte seed (k + 1)"
  have "0 \<le> ?raw" "?raw \<le> 65535" using seed_byte_bounds [of seed k] seed_byte_bounds [of seed "k + 1"] by linarith+
  then show "0 \<le> val (seed_feature D seed k)" "val (seed_feature D seed k) \<le> 1"
    using quantized_fraction [of ?raw 65535] by (auto simp: seed_feature_def val_zero split: sum.split)
qed

lemma seed_features_valid: "features_validate D (seed_features D seed) = []"
proof -
  have "d_cmp D x y > 0 \<longleftrightarrow> val y < val x" for x y by (simp add: cmp cmp_int_def)
  then show ?thesis
    by (simp add: features_validate_def feature_refs_def violation_def cmp_simps seed_features_def val_one_rate val_zero
        seed_feature_bounds not_less)
qed

lemma offline_result:
  assumes "\<And>t. length (H t) = 32" and "wq_invoice_id q \<noteq> uuid_nil" and "wq_cipher_hash q \<noteq> []"
    and "wq_schema_version q \<in> {[], if schema = [] then feature_schema_v1 else schema}"
  shows "\<exists>r. deterministic_workflow H D U schema q n = (Inr r, n) \<and> validate_result D r q = Inr () \<and>
    wr_commitment r = commit_result H D U q r"
proof -
  let ?seed = "H (wq_cipher_hash q @ ''|'' @ uuid_string U (wq_invoice_id q))"
  let ?num = "880 + seed_byte ?seed 11 mod 120"
  obtain c where c: "rate_from_fraction D ?num 1000 = Inr c" by (simp add: rate_from_fraction_def)
  have "0 \<le> ?num" "?num \<le> 1000" using pos_mod_bound [of 120 "seed_byte ?seed 11"] pos_mod_sign [of 120 "seed_byte ?seed 11"] by linarith+
  from quantized_fraction [OF c this] have unit: "\<not> d_is_negative D (rate_quantize D c rate_scale)"
    "\<not> d_cmp D (rate_quantize D c rate_scale) (one_rate D) > 0"
    by (auto simp: cmp_simps cmp cmp_int_def val_one_rate)
  have commit: "commit_result H D U q (r\<lparr>wr_commitment := h\<rparr>) = commit_result H D U q r" for r h
    by (simp add: commit_result_def commit_text_def)
  have hex: "commitment_hex (to_lower (commit_result H D U q r))" for r
    unfolding commit_result_def by (rule hex_commitment) (rule assms(1))
  let ?r = "\<lparr>wr_invoice_id = wq_invoice_id q, wr_features = seed_features D ?seed,
             wr_confidence = rate_quantize D c rate_scale, wr_arithmetic_valid = True,
             wr_mitigations = \<lparr>recourse = seed_byte ?seed 12 mod 2 = 0, collateralized = seed_byte ?seed 13 mod 3 = 0\<rparr>,
             wr_commitment = [], wr_schema_version = (if schema = [] then feature_schema_v1 else schema),
             wr_model_version = ''risk-v1'', wr_evidence = ''deterministic-local-workflow''\<rparr>"
  let ?a = "?r\<lparr>wr_commitment := commit_result H D U q ?r\<rparr>"
  have "deterministic_workflow H D U schema q n = (Inr ?a, n)"
    using assms(2,3) c by (simp add: deterministic_workflow_def Let_def)
  moreover have "validate_result D ?a q = Inr ()"
    using assms(4) hex unit by (auto simp: validate_result_def seed_features_valid checked_def)
  moreover have "wr_commitment ?a = commit_result H D U q ?a" by (simp only: commit) simp
  ultimately show ?thesis by blast
qed

end

section \<open>What a failure leaves, and what is not checked\<close>

text \<open>The comment on \<^verbatim>\<open>recordFailure\<close> says that the outbox retries the assessment because the error comes back.
  The retry finds the invoice FAILED and answers with success, without asking the workflow again.\<close>

lemma failed_assessment_is_not_retried:
  assumes "get_invoice (ao_invoice_id c) t = Inr v" and "inv_status v = InvFailed" and "ao_invoice_id c \<noteq> uuid_nil"
  shows "handle_assess err_text H D U A rq c (t, n) = (Inr (), t, n)"
  using assms by (simp add: handle_assess_def)

text \<open>The comment on \<^verbatim>\<open>DeriveNonce\<close> says the platform recomputes the commitment to check that a result belongs to
  its request. A result is accepted with any digest in its place.\<close>

lemma commitment_is_not_recomputed:
  assumes "validate_result D r q = Inr ()" and "commitment_hex (to_lower h)"
  shows "validate_result D (r\<lparr>wr_commitment := h\<rparr>) q = Inr ()"
  using assms by (auto simp: validate_result_def split: if_splits)

section \<open>Properties\<close>

text \<open>Narrating an assessment that was committed leaves its rows, and an explanation of it of one kind or the other.\<close>

lemma narrated_rows:
  assumes "narrate_assessment D A rq a (u, n) = (t, n')" and "derive D (Some a) (rq_now rq) = Some e"
    and "db_explanations u = Some m" and "fetch (am_id a) m = Inr e" and "db_fail_commit u = None"
  shows "get_invoice i t = get_invoice i u \<and> get_assessment k t = get_assessment k u \<and>
    get_snapshot h t = get_snapshot h u \<and>
    (\<exists>e'. get_explanation (am_id a) t = Inr e' \<and> (derive D (Some a) (rq_now rq) = Some e' \<or>
     (\<exists>name ask reply. asr_client A = Some (name, ask) \<and>
       narrate D (asr_rate_text A) (Some a) name (answer_bullets reply) (rq_now rq) = Inr e')))"
  using assms(1,3,5)
proof (cases rule: narrate_assessment_effect)
  case kept
  then show ?thesis using assms(2,3,4) by (simp add: get_explanation_def)
next
  case (narrated name ask reply e')
  have "get_explanation (am_id a) t = Inr e'" by (simp add: narrated(3) get_explanation_def fetch_def)
  then show ?thesis
    using narrated(1,2) by (auto simp: narrated(3) get_invoice_def get_assessment_def get_snapshot_def)
qed

text \<open>C30: A delivery of the assessment command that succeeds on an invoice waiting for it either leaves everything as it is,
  because the workflow collects its own work, or leaves the whole of an assessment: the invoice ASSESSED with its
  terms unchanged and naming the stored price, the snapshot the price rests on stored and fresh, the price
  bound to the digest of the snapshot and the commitment of a validated result, scored with the market's
  own volatility, and an explanation of it that is the derived one or a narration that passed its check.\<close>

theorem assessment_lands_whole:
  assumes "store_keyed s" and "get_invoice i s = Inr v" and "inv_status v = InvExtracting" and "ao_invoice_id c = i"
    and "q = workflow_request_of H U c" and "handle_assess err_text H D U A rq c (s, n) = (Inr (), t, n')"
  shows "(t = s \<and> fst (asr_workflow A q n) = Inl collected_elsewhere) \<or>
    (\<exists>r x a w e. fst (asr_workflow A q n) = Inr r \<and> validate_result D r q = Inr () \<and> is_fresh (rq_now rq) x \<and>
      get_invoice i t = Inr w \<and> inv_status w = InvAssessed \<and> inv_terms w = inv_terms v \<and> inv_assessment_id w = am_id a \<and>
      get_assessment (am_id a) t = Inr a \<and> am_invoice_id a = i \<and> get_snapshot (sn_payload_hash x) t = Inr x \<and>
      am_market_snapshot_hash a = to_lower (sn_payload_hash x) \<and>
      am_confidential_commitment a = to_lower (wr_commitment r) \<and>
      am_features a = (wr_features r)\<lparr>market_volatility := sn_volatility x\<rparr> \<and>
      get_explanation (am_id a) t = Inr e \<and>
      (derive D (Some a) (rq_now rq) = Some e \<or>
       (\<exists>name ask reply. asr_client A = Some (name, ask) \<and>
         narrate D (asr_rate_text A) (Some a) name (answer_bullets reply) (rq_now rq) = Inr e)))"
proof -
  have i: "inv_id v = i" using assms(1,2) keyed_lookup by (auto simp: store_keyed_def get_invoice_def result_simps)
  obtain answer n1 where asked: "asr_workflow A q n = (answer, n1)" by (metis prod.collapse)
  have nil: "ao_invoice_id c \<noteq> uuid_nil" using assms(6) by (auto simp: handle_assess_def split: if_splits)
  show ?thesis
  proof (cases "answer = Inl collected_elsewhere")
    case True
    then show ?thesis using assms(2-6) asked nil by (simp add: handle_assess_def run_workflow_def)
  next
    case False
    then have here: "run_workflow D (asr_workflow A) q n \<noteq> (Inl collected_elsewhere, n1)"
      by (simp add: run_workflow_elsewhere asked)
    obtain o1 where o1: "run_workflow D (asr_workflow A) q n = (o1, n1)" using asked by (cases answer) (auto simp: run_workflow_def)
    obtain r where r: "o1 = Inr r" and priced: "price_and_store err_text H D U A rq v q r (s, n1) = (Inr (), t, n')"
      using assms(2-6) nil here o1
      by (cases o1) (auto simp: handle_assess_def Let_def elim!: record_assess_failure_Inl split: if_splits prod.splits)
    have r: "answer = Inr r" "validate_result D r q = Inr ()"
      using o1 r asked by (auto simp: run_workflow_def and_then_Inr_iff split: sum.splits)
    from priced obtain x a u n2 where run: "fresh_snapshot H D A (rq_now rq) n1 = (Inr x, n2)"
      "score_receivable D (asr_model A) rq v x q r = Inr a" "commit_assessment U D rq v x a s = (Inr (), u)"
      "narrate_assessment D A rq a (u, n2) = (t, n')"
      by (cases rule: price_and_store_cases) (auto elim!: record_assess_failure_Inl)
    have fresh: "is_fresh (rq_now rq) x"
      using run(1) by (auto simp: fresh_snapshot_def Let_def and_then_Inr_iff ensure_fresh_def split: prod.splits if_splits)
    note a = score_receivable_Inr [OF run(2)]
    obtain e w m where rows: "derive D (Some a) (rq_now rq) = Some e" "get_invoice i u = Inr w"
      "inv_status w = InvAssessed" "inv_assessment_id w = am_id a" "inv_terms w = inv_terms v"
      "get_assessment (am_id a) u = Inr a" "get_snapshot (sn_payload_hash x) u = Inr x"
      "db_explanations u = Some m" "fetch (am_id a) m = Inr e" "db_fail_commit u = None"
      using commit_assessment_rows [OF run(3) i] by metis
    obtain e' where "get_invoice i t = Inr w" "get_assessment (am_id a) t = Inr a"
      "get_snapshot (sn_payload_hash x) t = Inr x" "get_explanation (am_id a) t = Inr e'"
      "derive D (Some a) (rq_now rq) = Some e' \<or> (\<exists>name ask reply. asr_client A = Some (name, ask) \<and>
         narrate D (asr_rate_text A) (Some a) name (answer_bullets reply) (rq_now rq) = Inr e')"
      using narrated_rows [OF run(4) rows(1,8,9,10)] rows(2,6,7) by metis
    then show ?thesis using asked r fresh a(2,4,5,6) i rows(3-5)
      by (intro disjI2 exI [of _ r] exI [of _ x] exI [of _ a] exI [of _ w] exI [of _ e']) simp
  qed
qed

theorem assessment_lands_whole_witness:
  "\<exists>t w a x. handle_assess (\<lambda>e. ''failed'') market_hash rat_decimal rfc_uuid sample_assessor waiting_request sample_order
      (waiting_store, ()) = (Inr (), t, ()) \<and>
    get_invoice 2 t = Inr w \<and> inv_status w = InvAssessed \<and> inv_assessment_id w = am_id a \<and>
    get_assessment (am_id a) t = Inr a \<and> get_snapshot (sn_payload_hash x) t = Inr x \<and>
    am_market_snapshot_hash a = to_lower (sn_payload_hash x)"
proof -
  obtain t where run: "handle_assess (\<lambda>e. ''failed'') market_hash rat_decimal rfc_uuid sample_assessor waiting_request
      sample_order (waiting_store, ()) = (Inr (), t, ())" using waiting_assessed by blast
  have "fst (asr_workflow sample_assessor q ()) \<noteq> Inl collected_elsewhere" for q by (simp add: sample_assessor_def)
  then show ?thesis
    using assessment_lands_whole [OF waiting_rows(4,1,3) _ refl run] run by (simp add: sample_order_def) blast
qed

text \<open>A delivery of the assessment command that ends in an error leaves no price and no snapshot behind: the invoice is
  what it was, or it is FAILED from EXTRACTING and names no new assessment.\<close>

theorem refused_assessment_leaves_no_price:
  assumes "store_keyed s" and "handle_assess err_text H D U A rq c (s, n) = (Inl cause, t, n')"
    and "ao_invoice_id c = i"
  shows "db_assessments t = db_assessments s \<and> db_snapshots t = db_snapshots s \<and>
    (get_invoice i t = get_invoice i s \<or>
     (\<exists>v w. get_invoice i s = Inr v \<and> inv_status v = InvExtracting \<and> get_invoice i t = Inr w \<and>
       inv_status w = InvFailed \<and> inv_failed_from w = Some InvExtracting \<and> inv_assessment_id w = inv_assessment_id v))"
  using assms(2)
proof (cases rule: handle_assess_cases)
  case (priced v r n1)
  have i: "inv_id v = i"
    using assms(1,3) priced(1) keyed_lookup by (auto simp: store_keyed_def get_invoice_def result_simps)
  from priced(4) show ?thesis
  proof (cases rule: price_and_store_cases)
    case (failed e)
    from record_assess_failure_effect [OF failed assms(1)] show ?thesis by (simp add: i)
  next
    case (uncommitted x a e)
    then have "t = rollback s" unfolding commit_assessment_def by (intro in_tx_Inl) simp
    then show ?thesis by (simp add: rollback_def get_invoice_def)
  qed simp
next
  case (failed e)
  from record_assess_failure_effect [OF failed assms(1)] assms(3) show ?thesis by simp
qed simp

theorem refused_assessment_leaves_no_price_witness:
  "\<exists>cause t. handle_assess (\<lambda>e. ''failed'') market_hash rat_decimal rfc_uuid
      (sample_assessor\<lparr>asr_workflow := (\<lambda>q n. (Inl (External ''timed out''), n))\<rparr>) waiting_request sample_order
      (waiting_store, ()) = (Inl cause, t, ()) \<and> db_assessments t = []"
proof -
  let ?A = "sample_assessor\<lparr>asr_workflow := (\<lambda>q n. (Inl (External ''timed out''), n))\<rparr>"
  obtain res t where failure: "record_assess_failure (\<lambda>e. ''failed'') waiting_request 2 ErrUnavailable waiting_store = (res, t)"
    by (metis prod.collapse)
  then obtain e where "res = Inl e" by (rule record_assess_failure_Inl)
  then have run: "handle_assess (\<lambda>e. ''failed'') market_hash rat_decimal rfc_uuid ?A waiting_request sample_order
      (waiting_store, ()) = (Inl e, t, ())"
    using failure by (simp add: handle_assess_def sample_order_def waiting_rows run_workflow_def collected_elsewhere_def)
  have "db_assessments waiting_store = []" by (simp add: waiting_store_def empty_store_def)
  then show ?thesis
    using refused_assessment_leaves_no_price [OF waiting_rows(4) run refl] run by (metis (no_types))
qed

text \<open>The workflow of the offline demo honours the contract of the port: for any request that names an invoice and a
  ciphertext and expects its schema, it answers with a result the worker accepts, every feature and the confidence
  within [0,1], under the commitment that binds it to the request.\<close>

theorem offline_results_are_accepted:
  assumes "decimal_lib D val" and "\<And>t. length (H t) = 32" and "wq_invoice_id q \<noteq> uuid_nil" and "wq_cipher_hash q \<noteq> []"
    and "wq_schema_version q \<in> {[], if schema = [] then feature_schema_v1 else schema}"
  shows "\<exists>r. deterministic_workflow H D U schema q n = (Inr r, n) \<and> validate_result D r q = Inr () \<and>
    wr_commitment r = commit_result H D U q r"
  by (rule decimal_lib.offline_result [OF assms])

theorem offline_results_are_accepted_witness:
  "\<exists>r. deterministic_workflow market_hash rat_decimal rfc_uuid [] (workflow_request_of market_hash rfc_uuid
      (sample_order\<lparr>ao_cipher_hash := ''c1''\<rparr>)) () = (Inr r, ()) \<and>
    validate_result rat_decimal r (workflow_request_of market_hash rfc_uuid (sample_order\<lparr>ao_cipher_hash := ''c1''\<rparr>)) = Inr ()"
  using offline_results_are_accepted [OF ratd.decimal_lib_axioms, of market_hash
      "workflow_request_of market_hash rfc_uuid (sample_order\<lparr>ao_cipher_hash := ''c1''\<rparr>)" "[]" rfc_uuid "()"]
  by (auto simp: market_hash_def workflow_request_of_def sample_order_def)

end
