(* ===== verification/Settling.thy ===== *)
theory Settling
  imports Marketplace_Facts Executor
begin

text \<open>
  \<^verbatim>\<open>internal/app/marketplace/settlement.go\<close> and \<^verbatim>\<open>settlement_worker.go\<close>: planning
  the transfers of a cleared batch, and the worker that drives each of them to the end against an executor.
  A step of the worker takes the plan it holds, the store and the state of the executor, and returns the
  plan it stored or the error it met. \<open>err_text\<close> is the text of an error, which the worker keeps as the
  cause of a failure.
\<close>

section \<open>Planning\<close>

definition topic_settle :: string where "topic_settle = ''settlement.execute''"

definition action_settlement_planned :: string where
  "action_settlement_planned = ''auction.settlement_planned''"
definition action_settled :: string where "action_settled = ''auction.settled''"
definition action_invoice_settled :: string where "action_invoice_settled = ''invoice.settled''"

definition plan_transfer ::
  "(string \<Rightarrow> string) \<Rightarrow> uuid_ops \<Rightarrow> 'x decimal_ops \<Rightarrow> request \<Rightarrow> auction \<Rightarrow> string \<Rightarrow> nat \<Rightarrow> allocation \<Rightarrow>
    'd store \<Rightarrow> settlement result" where
  "plan_transfer H U D rq a issuer_wallet n al s =
    and_then (wallet_of (al_investor_id al) s) (\<lambda>investor_wallet.
    new_settlement H U D \<lparr>nsp_id = rq_ids rq n, nsp_auction_id = auc_id a, nsp_lot_id = al_lot_id al,
      nsp_bid_id = al_bid_id al, nsp_invoice_id = al_invoice_id al, nsp_asset_id = al_asset_id al,
      nsp_investor_id = al_investor_id al, nsp_from_wallet = issuer_wallet, nsp_to_wallet = investor_wallet,
      nsp_notional = al_notional al, nsp_price = al_price al\<rparr> (rq_now rq))"

text \<open>One turn of the loop over the allocations: the plans so far and the store.\<close>

definition plan_allocation ::
  "(string \<Rightarrow> string) \<Rightarrow> uuid_ops \<Rightarrow> 'x decimal_ops \<Rightarrow> request \<Rightarrow> auction \<Rightarrow> string \<Rightarrow> allocation \<Rightarrow>
    settlement list \<times> 'd store \<Rightarrow> (settlement list \<times> 'd store) result" where
  "plan_allocation H U D rq a issuer_wallet al = (\<lambda>(planned, s).
    and_then (plan_transfer H U D rq a issuer_wallet (length planned) al s) (\<lambda>x.
    and_then (create_settlement x s) (\<lambda>t. Inr (planned @ [x], t))))"

definition queue_settlement :: "request \<Rightarrow> string \<Rightarrow> settlement \<Rightarrow> 'd store \<Rightarrow> 'd store result" where
  "queue_settlement rq trace x s =
    (if stl_is_finished x then Inr s
     else publish_command topic_settle (SettlePayload (stl_id x)) trace (rq_now rq) s)"

definition queue_settlements :: "request \<Rightarrow> string \<Rightarrow> settlement list \<Rightarrow> 'd store \<Rightarrow> 'd store result" where
  "queue_settlements rq trace = fold_result (queue_settlement rq trace)"

definition settle_auction_tx ::
  "(string \<Rightarrow> string) \<Rightarrow> uuid_ops \<Rightarrow> 'x decimal_ops \<Rightarrow> request \<Rightarrow> actor \<Rightarrow> uuid \<Rightarrow> string \<Rightarrow> 'd store \<Rightarrow>
    (settlement list \<times> 'd store) result" where
  "settle_auction_tx H U D rq who auction trace s =
    and_then (get_auction auction s) (\<lambda>a.
    if \<not> may_act_for who (auc_issuer_id a) then Inl ErrForbidden
    else let existing = list_settlements_by_auction U (auc_id a) s in
      if existing \<noteq> [] then and_then (queue_settlements rq trace existing s) (\<lambda>t. Inr (existing, t))
      else if auc_status a \<noteq> AucCleared then Inl ErrConflict
      else and_then (get_solution (auc_id a) s) (\<lambda>x.
        if sol_allocations x = [] then Inl ErrConflict
        else and_then (wallet_of (auc_issuer_id a) s) (\<lambda>issuer_wallet.
          and_then (fold_result (plan_allocation H U D rq a issuer_wallet) (sol_allocations x) ([], s))
            (\<lambda>(planned, s1).
          and_then (start_settling (rq_now rq) a) (\<lambda>a'.
          and_then (update_auction a' (auc_version a) s1) (\<lambda>s2.
          and_then (annotate U rq (actor_ref U who) action_settlement_planned auction_entity (auc_id a')
              [(''transfers'', DetailInt (int (length planned))),
               (''status'', DetailText (auc_status_string (auc_status a')))] s2) (\<lambda>s3.
          and_then (queue_settlements rq trace planned s3) (\<lambda>t. Inr (planned, t)))))))))"

definition settle_auction ::
  "(string \<Rightarrow> string) \<Rightarrow> uuid_ops \<Rightarrow> 'x decimal_ops \<Rightarrow> request \<Rightarrow> actor \<Rightarrow> uuid \<Rightarrow> string \<Rightarrow> 'd store \<Rightarrow>
    settlement list result \<times> 'd store" where
  "settle_auction H U D rq who auction trace s = in_tx (settle_auction_tx H U D rq who auction trace) s"

definition settlements_of ::
  "uuid_ops \<Rightarrow> actor \<Rightarrow> uuid \<Rightarrow> 'd store \<Rightarrow> settlement list result" where
  "settlements_of U who auction s =
    and_then (get_auction auction s) (\<lambda>a.
    if \<not> may_act_for who (auc_issuer_id a) then Inl ErrForbidden
    else Inr (list_settlements_by_auction U (auc_id a) s))"

section \<open>Accounting\<close>

definition finish_invoice :: "uuid_ops \<Rightarrow> request \<Rightarrow> settlement \<Rightarrow> 'd store \<Rightarrow> 'd store result" where
  "finish_invoice U rq x s =
    and_then (get_invoice (stl_invoice_id x) s) (\<lambda>v.
    if inv_status v = InvSettled then Inr s
    else and_then (mark_settled (rq_now rq) v) (\<lambda>v'.
         and_then (update_invoice v' (inv_version v) s) (\<lambda>t.
         annotate U rq system_actor action_invoice_settled invoice_entity (inv_id v')
           [(''auction_id'', id_detail U (stl_auction_id x)), (''tx_id'', DetailText (stl_tx_id x)),
            (''status'', DetailText (inv_status_string (inv_status v')))] t)))"

definition finish_auction :: "uuid_ops \<Rightarrow> request \<Rightarrow> uuid \<Rightarrow> 'd store \<Rightarrow> 'd store result" where
  "finish_auction U rq auction s =
    (let plans = list_settlements_by_auction U auction s
     in if \<not> list_all stl_is_finished plans then Inr s
        else and_then (get_auction auction s) (\<lambda>a.
          if auc_status a = AucSettled then Inr s
          else and_then (auc_mark_settled (rq_now rq) a) (\<lambda>a'.
               and_then (update_auction a' (auc_version a) s) (\<lambda>t.
               annotate U rq system_actor action_settled auction_entity (auc_id a')
                 [(''transfers'', DetailInt (int (length plans))),
                  (''status'', DetailText (auc_status_string (auc_status a')))] t))))"

section \<open>The worker\<close>

definition account_tx ::
  "uuid_ops \<Rightarrow> request \<Rightarrow> settlement \<Rightarrow> 'd store \<Rightarrow> (settlement \<times> 'd store) result" where
  "account_tx U rq plan s =
    and_then (get_settlement (stl_id plan) s) (\<lambda>current.
    if stl_is_finished current then Inr (current, s)
    else and_then (stl_account (rq_now rq) current) (\<lambda>x.
         and_then (update_settlement x (stl_version current) s) (\<lambda>s1.
         and_then (finish_invoice U rq x s1) (\<lambda>s2.
         and_then (finish_auction U rq (stl_auction_id x) s2) (\<lambda>s3.
         Inr (x, s3))))))"

definition account ::
  "uuid_ops \<Rightarrow> request \<Rightarrow> settlement \<Rightarrow> 'd store \<Rightarrow> settlement result \<times> 'd store" where
  "account U rq plan s = in_tx (account_tx U rq plan) s"

definition store_step_of ::
  "(settlement \<Rightarrow> settlement result) \<Rightarrow> settlement \<Rightarrow> 'd store \<Rightarrow> settlement result \<times> 'd store" where
  "store_step_of change plan =
    in_tx (\<lambda>s. and_then (change plan) (\<lambda>x.
      and_then (update_settlement x (stl_version plan) s) (\<lambda>t. Inr (x, t))))"

definition order_of :: "uuid_ops \<Rightarrow> asset \<Rightarrow> settlement \<Rightarrow> order" where
  "order_of U a x =
    \<lparr>od_operation_id = stl_operation_id x, od_asset_id = uuid_string U (stl_asset_id x),
     od_network = tk_network a, od_token_id = tk_token_id a, od_from_wallet = stl_from_wallet x,
     od_to_wallet = stl_to_wallet x, od_notional = stl_notional x\<rparr>"

definition submit_plan ::
  "uuid_ops \<Rightarrow> 'n executor \<Rightarrow> request \<Rightarrow> settlement \<Rightarrow> 'd store \<times> 'n \<Rightarrow> settlement result \<times> 'd store \<times> 'n" where
  "submit_plan U ex rq plan = (\<lambda>(s, n).
    case get_asset (stl_asset_id plan) s of
      Inl e \<Rightarrow> (Inl e, s, n)
    | Inr a \<Rightarrow>
        (case ex_submit ex (order_of U a plan) n of
           ((rc, Some e), n') \<Rightarrow> (Inl e, s, n')
         | ((rc, None), n') \<Rightarrow>
             (let (r, t) = store_step_of (stl_submit (rc_tx_id rc) (rq_now rq)) plan s in (r, t, n'))))"

definition confirm_consensus ::
  "'n executor \<Rightarrow> request \<Rightarrow> settlement \<Rightarrow> 'd store \<times> 'n \<Rightarrow> settlement result \<times> 'd store \<times> 'n" where
  "confirm_consensus ex rq plan = (\<lambda>(s, n).
    case ex_lookup ex (stl_tx_id plan) n of
      (Inl e, n') \<Rightarrow> (Inl e, s, n')
    | (Inr rd, n') \<Rightarrow>
        if \<not> rd_found rd then (Inl ErrUnavailable, s, n')
        else if \<not> rd_succeeded rd then (Inl ErrConflict, s, n')
        else let (r, t) = store_step_of (stl_confirm_consensus (rq_now rq)) plan s in (r, t, n'))"

text \<open>What the reader saw delivered, when it can say so.\<close>

definition check_credit :: "tx_record \<Rightarrow> settlement \<Rightarrow> 'd store \<Rightarrow> unit result" where
  "check_credit rd plan s =
    (case rd_credited rd of
       None \<Rightarrow> Inr ()
     | Some credited \<Rightarrow>
         and_then (get_asset (stl_asset_id plan) s) (\<lambda>a.
           if \<not> credited (tk_token_id a) (stl_to_wallet plan) (minor (stl_notional plan)) then Inl ErrConflict
           else Inr ()))"

definition confirm_mirror ::
  "'n executor \<Rightarrow> request \<Rightarrow> settlement \<Rightarrow> 'd store \<times> 'n \<Rightarrow> settlement result \<times> 'd store \<times> 'n" where
  "confirm_mirror ex rq plan = (\<lambda>(s, n).
    case ex_lookup ex (stl_tx_id plan) n of
      (Inl e, n') \<Rightarrow> (Inl e, s, n')
    | (Inr rd, n') \<Rightarrow>
        if \<not> rd_found rd \<or> \<not> rd_succeeded rd then (Inl ErrUnavailable, s, n')
        else (case check_credit rd plan s of
                Inl e \<Rightarrow> (Inl e, s, n')
              | Inr _ \<Rightarrow> (let (r, t) = store_step_of (stl_confirm_mirror (rq_now rq)) plan s in (r, t, n'))))"

definition advance ::
  "uuid_ops \<Rightarrow> 'n executor \<Rightarrow> request \<Rightarrow> settlement \<Rightarrow> 'd store \<times> 'n \<Rightarrow> settlement result \<times> 'd store \<times> 'n" where
  "advance U ex rq plan sn =
    (if \<not> stl_is_submitted plan then submit_plan U ex rq plan sn
     else case stl_state plan of
            StlSubmitted \<Rightarrow> confirm_consensus ex rq plan sn
          | StlFailed \<Rightarrow> confirm_consensus ex rq plan sn
          | StlConsensusConfirmed \<Rightarrow> confirm_mirror ex rq plan sn
          | StlMirrorConfirmed \<Rightarrow>
              (let (r, t) = account U rq plan (fst sn) in (r, t, snd sn))
          | _ \<Rightarrow> (Inl ErrConflict, sn))"

text \<open>
  The cause is kept as the last error of the plan; when that fails too, both are reported, in one error
  that matches what the cause matches.
\<close>

definition record_settle_failure ::
  "(app_error \<Rightarrow> string) \<Rightarrow> request \<Rightarrow> settlement \<Rightarrow> app_error \<Rightarrow> 'd store \<Rightarrow> app_error \<times> 'd store" where
  "record_settle_failure err_text rq plan cause s =
    (case in_tx (\<lambda>s.
        and_then (get_settlement (stl_id plan) s) (\<lambda>current.
        if stl_is_finished current then Inr ((), s)
        else and_then (stl_fail (err_text cause) (rq_now rq) current) (\<lambda>x.
             and_then (update_settlement x (stl_version current) s) (\<lambda>t. Inr ((), t))))) s of
       (Inl e, t) \<Rightarrow> (cause, t)
     | (Inr _, t) \<Rightarrow> (cause, t))"

text \<open>
  \<^verbatim>\<open>Handle\<close> steps until the plan is finished or a step fails. Every step that succeeds moves the
  plan to a state closer to the end, so the loop returns whatever the executor answers.
\<close>

definition steps_left :: "settlement \<Rightarrow> nat" where
  "steps_left x =
    (if stl_is_finished x then 0
     else if \<not> stl_is_submitted x then 4
     else case stl_state x of
       StlPrepared \<Rightarrow> 4 | StlSubmitted \<Rightarrow> 3 | StlFailed \<Rightarrow> 3 | StlConsensusConfirmed \<Rightarrow> 2
     | StlMirrorConfirmed \<Rightarrow> 1 | StlAccounted \<Rightarrow> 0)"

lemma store_step_of_Inr:
  "store_step_of change plan s = (Inr x, t) \<longleftrightarrow>
    change plan = Inr x \<and> update_settlement x (stl_version plan) s = Inr t \<and> db_fail_commit t = None"
  by (auto simp: store_step_of_def in_tx_Inr result_simps)

text \<open>What accounting for a plan did: nothing, or the four writes.\<close>

lemma account_Inr:
  assumes "account U rq plan s = (Inr x, t)"
  obtains (found) "get_settlement (stl_id plan) s = Inr x" and "stl_is_finished x" and "t = s"
  | (moved) current s1 s2 where "get_settlement (stl_id plan) s = Inr current" and "\<not> stl_is_finished current"
      and "stl_account (rq_now rq) current = Inr x" and "update_settlement x (stl_version current) s = Inr s1"
      and "finish_invoice U rq x s1 = Inr s2" and "finish_auction U rq (stl_auction_id x) s2 = Inr t"
proof -
  have "account_tx U rq plan s = Inr (x, t)" using assms by (simp add: account_def in_tx_Inr)
  then obtain current where current: "get_settlement (stl_id plan) s = Inr current"
    "(if stl_is_finished current then Inr (current, s)
      else and_then (stl_account (rq_now rq) current) (\<lambda>x.
         and_then (update_settlement x (stl_version current) s) (\<lambda>s1.
         and_then (finish_invoice U rq x s1) (\<lambda>s2.
         and_then (finish_auction U rq (stl_auction_id x) s2) (\<lambda>s3.
         Inr (x, s3)))))) = Inr (x, t)"
    unfolding account_tx_def and_then_Inr_iff [of "get_settlement (stl_id plan) s"] by blast
  show thesis
  proof (cases "stl_is_finished current")
    case True
    then show thesis using current by (intro found) simp_all
  next
    case False
    then show thesis using current by (auto simp: and_then_Inr_iff intro: moved)
  qed
qed

lemma account_state: "account U rq plan s = (Inr x, t) \<Longrightarrow> stl_state x = StlAccounted"
  by (erule account_Inr)
    (auto simp: stl_account_def stl_touch_def stl_is_finished_def stl_state_finished_def result_simps)

lemma submit_plan_Inr:
  assumes "submit_plan U ex rq plan (s, n) = (Inr x, t, n')"
  obtains a rc where "get_asset (stl_asset_id plan) s = Inr a"
    and "ex_submit ex (order_of U a plan) n = ((rc, None), n')"
    and "stl_submit (rc_tx_id rc) (rq_now rq) plan = Inr x" and "update_settlement x (stl_version plan) s = Inr t"
  using assms by (auto simp: submit_plan_def store_step_of_Inr split: sum.splits prod.splits option.splits)

lemma confirm_consensus_Inr:
  assumes "confirm_consensus ex rq plan (s, n) = (Inr x, t, n')"
  obtains rd where "ex_lookup ex (stl_tx_id plan) n = (Inr rd, n')" and "rd_found rd" and "rd_succeeded rd"
    and "stl_confirm_consensus (rq_now rq) plan = Inr x" and "update_settlement x (stl_version plan) s = Inr t"
  using assms by (auto simp: confirm_consensus_def store_step_of_Inr split: sum.splits prod.splits if_splits)

lemma confirm_mirror_Inr:
  assumes "confirm_mirror ex rq plan (s, n) = (Inr x, t, n')"
  obtains rd where "ex_lookup ex (stl_tx_id plan) n = (Inr rd, n')" and "rd_found rd" and "rd_succeeded rd"
    and "check_credit rd plan s = Inr ()"
    and "stl_confirm_mirror (rq_now rq) plan = Inr x" and "update_settlement x (stl_version plan) s = Inr t"
  using assms by (auto simp: confirm_mirror_def store_step_of_Inr split: sum.splits prod.splits if_splits)

lemma advance_Inr:
  assumes "advance U ex rq plan (s, n) = (Inr x, t, n')"
  obtains (submit) a rc where "\<not> stl_is_submitted plan" and "get_asset (stl_asset_id plan) s = Inr a"
      and "ex_submit ex (order_of U a plan) n = ((rc, None), n')"
      and "stl_submit (rc_tx_id rc) (rq_now rq) plan = Inr x" and "update_settlement x (stl_version plan) s = Inr t"
  | (consensus) rd where "stl_is_submitted plan" and "stl_state plan \<in> {StlSubmitted, StlFailed}"
      and "ex_lookup ex (stl_tx_id plan) n = (Inr rd, n')" and "rd_found rd" and "rd_succeeded rd"
      and "stl_confirm_consensus (rq_now rq) plan = Inr x" and "update_settlement x (stl_version plan) s = Inr t"
  | (mirror) rd where "stl_is_submitted plan" and "stl_state plan = StlConsensusConfirmed"
      and "ex_lookup ex (stl_tx_id plan) n = (Inr rd, n')" and "rd_found rd" and "rd_succeeded rd"
      and "check_credit rd plan s = Inr ()"
      and "stl_confirm_mirror (rq_now rq) plan = Inr x" and "update_settlement x (stl_version plan) s = Inr t"
  | (account) "stl_is_submitted plan" and "stl_state plan = StlMirrorConfirmed"
      and "account U rq plan s = (Inr x, t)" and "n' = n"
proof (cases "stl_is_submitted plan")
  case False
  then have "submit_plan U ex rq plan (s, n) = (Inr x, t, n')" using assms by (simp add: advance_def)
  then show thesis by (rule submit_plan_Inr) (rule submit [OF False])
next
  case True
  then consider "stl_state plan \<in> {StlSubmitted, StlFailed}" "confirm_consensus ex rq plan (s, n) = (Inr x, t, n')"
    | "stl_state plan = StlConsensusConfirmed" "confirm_mirror ex rq plan (s, n) = (Inr x, t, n')"
    | "stl_state plan = StlMirrorConfirmed" "account U rq plan s = (Inr x, t)" "n' = n"
    using assms by (cases "stl_state plan") (auto simp: advance_def split: prod.splits)
  then show thesis
  proof cases
    case 1
    from 1(2) show thesis by (rule confirm_consensus_Inr) (rule consensus [OF True 1(1)])
  next
    case 2
    from 2(2) show thesis by (rule confirm_mirror_Inr) (rule mirror [OF True 2(1)])
  next
    case 3
    then show thesis using account True by blast
  qed
qed

text \<open>A step that succeeds brings the plan to the next state of the saga.\<close>

lemma advance_moves:
  assumes "advance U ex rq plan (s, n) = (Inr x, t, n')" and "\<not> stl_is_finished plan"
  shows "steps_left x < steps_left plan"
  using assms(1)
proof (cases rule: advance_Inr)
  case (submit a rc)
  then show ?thesis using assms(2)
    by (auto simp: steps_left_def stl_submit_def stl_touch_def stl_is_submitted_def result_simps
        stl_is_finished_def stl_state_finished_def)
next
  case (consensus rd)
  then show ?thesis
    by (auto simp: steps_left_def stl_confirm_consensus_def stl_touch_def stl_is_submitted_def result_simps
        stl_is_finished_def stl_state_finished_def)
next
  case (mirror rd)
  then show ?thesis
    by (auto simp: steps_left_def stl_confirm_mirror_def stl_touch_def stl_is_submitted_def result_simps
        stl_is_finished_def stl_state_finished_def)
next
  case account
  then show ?thesis
    by (simp add: account_state steps_left_def stl_is_finished_def stl_state_finished_def)
qed

function handle_steps ::
  "(app_error \<Rightarrow> string) \<Rightarrow> uuid_ops \<Rightarrow> 'n executor \<Rightarrow> request \<Rightarrow> settlement \<Rightarrow> 'd store \<times> 'n \<Rightarrow>
    unit result \<times> 'd store \<times> 'n" where
  "handle_steps err_text U ex rq plan sn =
    (if stl_is_finished plan then (Inr (), sn)
     else case advance U ex rq plan sn of
            (Inl e, (s, n)) \<Rightarrow> (let (e', t) = record_settle_failure err_text rq plan e s in (Inl e', t, n))
          | (Inr plan', sn') \<Rightarrow> handle_steps err_text U ex rq plan' sn')"
  by pat_completeness auto
termination
  by (relation "measure (\<lambda>(err_text, U, ex, rq, plan, sn). steps_left plan)") (auto dest: advance_moves [OF sym])

declare handle_steps.simps [simp del]

definition handle_settle ::
  "(app_error \<Rightarrow> string) \<Rightarrow> uuid_ops \<Rightarrow> 'n executor \<Rightarrow> request \<Rightarrow> uuid \<Rightarrow> 'd store \<times> 'n \<Rightarrow>
    unit result \<times> 'd store \<times> 'n" where
  "handle_settle err_text U ex rq i sn =
    (if i = uuid_nil then (Inl (Invalid ''settlement_id''), sn)
     else case get_settlement i (fst sn) of
            Inl e \<Rightarrow> (Inl e, sn)
          | Inr plan \<Rightarrow>
              if stl_is_finished plan then (Inr (), sn) else handle_steps err_text U ex rq plan sn)"

end
