(* ===== verification/Settling_Facts.thy ===== *)
theory Settling_Facts
  imports Settling
begin

text \<open>
  What planning and the settlement worker do to the store and to the executor: every operation is a
  sequence of writes, the worker only ever asks the executor to submit a plan that has no transaction id,
  it ends, and against an executor that confirms it ends with the books closed.
\<close>

section \<open>Writes\<close>

lemma inv_step: "inv_exec c v = Inr w \<Longrightarrow> reaches inv_exec v w"
  by (rule reaches_step [OF reaches_refl])

lemma stl_step: "stl_exec c x = Inr y \<Longrightarrow> reaches stl_exec x y"
  by (rule reaches_step [OF reaches_refl])

lemma update_settlement_Inr:
  "update_settlement x e s = Inr t \<longleftrightarrow> (\<exists>y. get_settlement (stl_id x) s = Inr y \<and> stl_version y = e \<and>
     t = s\<lparr>db_settlements := table_put (stl_id x) x (db_settlements s)\<rparr>)"
  by (auto simp: update_settlement_def get_settlement_def result_simps)

lemma stl_ids:
  "stl_submit tx now x = Inr y \<Longrightarrow> stl_id y = stl_id x"
  "stl_confirm_consensus now x = Inr y \<Longrightarrow> stl_id y = stl_id x"
  "stl_confirm_mirror now x = Inr y \<Longrightarrow> stl_id y = stl_id x"
  "stl_account now x = Inr y \<Longrightarrow> stl_id y = stl_id x"
  "stl_fail cause now x = Inr y \<Longrightarrow> stl_id y = stl_id x"
  by (auto simp: stl_command_defs result_simps split: if_splits)

lemma finish_invoice_Inr:
  assumes "finish_invoice U rq x s = Inr t"
  shows "writes H s t" and "invoices_only s t"
    and "\<exists>v. get_invoice (stl_invoice_id x) s = Inr v \<and> (inv_status v \<in> {InvSettled, InvAllocated, InvFailed})"
proof -
  obtain v where v: "get_invoice (stl_invoice_id x) s = Inr v"
    "(if inv_status v = InvSettled then Inr s
      else and_then (mark_settled (rq_now rq) v) (\<lambda>v'.
         and_then (update_invoice v' (inv_version v) s) (\<lambda>t.
         annotate U rq system_actor action_invoice_settled invoice_entity (inv_id v')
           [(''auction_id'', id_detail U (stl_auction_id x)), (''tx_id'', DetailText (stl_tx_id x)),
            (''status'', DetailText (inv_status_string (inv_status v')))] t))) = Inr t"
    using assms unfolding finish_invoice_def and_then_Inr_iff [of "get_invoice (stl_invoice_id x) s"] by blast
  have "writes H s t \<and> invoices_only s t \<and> inv_status v \<in> {InvSettled, InvAllocated, InvFailed}"
  proof (cases "inv_status v = InvSettled")
    case True
    then show ?thesis using v(2) by simp
  next
    case False
    with v(2) obtain v' u where run: "mark_settled (rq_now rq) v = Inr v'" "update_invoice v' (inv_version v) s = Inr u"
      "annotate U rq system_actor action_invoice_settled invoice_entity (inv_id v')
           [(''auction_id'', id_detail U (stl_auction_id x)), (''tx_id'', DetailText (stl_tx_id x)),
            (''status'', DetailText (inv_status_string (inv_status v')))] u = Inr t"
      by (auto simp: and_then_Inr_iff)
    have "sound_write H s u"
      using run(1) by (intro write_invoice [OF v(1) inv_step run(2), where c1 = "MarkSettled (rq_now rq)"]) simp
    moreover have "sound_write H u t" by (rule write_entry [OF run(3)])
    moreover have "inv_can_transition (inv_status v) InvSettled"
      using run(1) by (simp add: mark_settled_def inv_transition_Inr)
    moreover have "invoices_only s t"
      using run(2) annotate_Inr [OF run(3)] by (auto simp: update_invoice_Inr invoices_only_def)
    ultimately show ?thesis
      by (cases "inv_status v") (auto simp: inv_can_transition_def intro: writes_then)
  qed
  then show "writes H s t" and "invoices_only s t"
    and "\<exists>v. get_invoice (stl_invoice_id x) s = Inr v \<and> (inv_status v \<in> {InvSettled, InvAllocated, InvFailed})"
    using v(1) by auto
qed

lemma auc_settled_step: "auc_mark_settled now a = Inr b \<Longrightarrow> reaches auc_exec a b"
  by (rule auc_step [where c = "AucCmdMarkSettled now"]) simp

lemma finish_auction_Inr:
  assumes "finish_auction U rq i s = Inr t"
  shows "writes H s t" and "db_settlements t = db_settlements s" and "db_invoices t = db_invoices s"
    and "db_assets t = db_assets s"
proof -
  have "writes H s t \<and> db_settlements t = db_settlements s \<and> db_invoices t = db_invoices s \<and> db_assets t = db_assets s"
  proof (cases "t = s")
    case False
    then obtain a a' u details where run: "get_auction i s = Inr a" "auc_mark_settled (rq_now rq) a = Inr a'"
      "update_auction a' (auc_version a) s = Inr u"
      "annotate U rq system_actor action_settled auction_entity (auc_id a') details u = Inr t"
      using assms by (auto simp: finish_auction_def Let_def and_then_Inr_iff split: if_splits)
    have "sound_write H s u" by (rule write_auction [OF run(1) auc_settled_step [OF run(2)] run(3)])
    moreover have "sound_write H u t" by (rule write_entry [OF run(4)])
    ultimately show ?thesis
      using run(3) annotate_Inr [OF run(4)] by (auto simp: update_auction_Inr intro: writes_then)
  qed simp
  then show "writes H s t" and "db_settlements t = db_settlements s" and "db_invoices t = db_invoices s"
    and "db_assets t = db_assets s" by blast+
qed

lemma account_effect:
  assumes "account U rq plan s = (Inr x, t)" and "keyed stl_id (db_settlements s)"
  shows "writes H s t" and "get_settlement (stl_id plan) t = Inr x" and "stl_id x = stl_id plan"
    and "keyed stl_id (db_settlements t)"
proof -
  have "writes H s t \<and> get_settlement (stl_id plan) t = Inr x \<and> stl_id x = stl_id plan \<and> keyed stl_id (db_settlements t)"
    using assms(1)
  proof (cases rule: account_Inr)
    case found
    then show ?thesis using assms(2) keyed_lookup [OF assms(2)]
      by (auto simp: get_settlement_def result_simps)
  next
    case (moved current s1 s2)
    have id: "stl_id current = stl_id plan"
      using moved(1) keyed_lookup [OF assms(2)] by (auto simp: get_settlement_def result_simps)
    have xid: "stl_id x = stl_id plan" using stl_ids(4) [OF moved(3)] id by simp
    have s1: "s1 = s\<lparr>db_settlements := table_put (stl_id plan) x (db_settlements s)\<rparr>"
      using moved(4) by (auto simp: update_settlement_Inr xid)
    have "sound_write H s s1"
      using moved(3) by (intro write_settlement [OF moved(1) stl_step moved(4), where c1 = "StlAccount (rq_now rq)"]) simp
    moreover have "writes H s1 s2" by (rule finish_invoice_Inr(1) [OF moved(5)])
    moreover have "writes H s2 t" by (rule finish_auction_Inr(1) [OF moved(6)])
    moreover have "db_settlements t = db_settlements s1"
      using finish_auction_Inr(2) [OF moved(6)] invoices_only_tables(5) [OF finish_invoice_Inr(2) [OF moved(5)]]
      by simp
    ultimately show ?thesis
      using keyed_put [of stl_id "db_settlements s" x] assms(2) xid
      by (auto simp: s1 get_settlement_def fetch_def intro: converse_rtranclp_into_rtranclp writes_trans)
  qed
  then show "writes H s t" and "get_settlement (stl_id plan) t = Inr x" and "stl_id x = stl_id plan"
    and "keyed stl_id (db_settlements t)" by blast+
qed

text \<open>A step of the worker on the plan as it is stored.\<close>

lemma advance_effect:
  assumes "advance U ex rq plan (s, n) = (Inr x, t, n')" and "keyed stl_id (db_settlements s)"
    and "get_settlement (stl_id plan) s = Inr plan"
  shows "writes H s t" and "get_settlement (stl_id x) t = Inr x" and "stl_id x = stl_id plan"
    and "keyed stl_id (db_settlements t)"
proof -
  have stored: "sound_write H s t \<and> get_settlement (stl_id x) t = Inr x \<and> stl_id x = stl_id plan \<and>
      keyed stl_id (db_settlements t)"
    if "stl_exec c plan = Inr x" and "update_settlement x (stl_version plan) s = Inr t" and "stl_id x = stl_id plan" for c
    using that(2,3) write_settlement [OF assms(3) stl_step [OF that(1)] that(2)] keyed_put [of stl_id _ x] assms(2)
    by (auto simp: update_settlement_Inr get_settlement_def fetch_def)
  have "writes H s t \<and> get_settlement (stl_id x) t = Inr x \<and> stl_id x = stl_id plan \<and> keyed stl_id (db_settlements t)"
    using assms(1)
  proof (cases rule: advance_Inr)
    case (submit a rc)
    then show ?thesis
      using stored [of "StlSubmit (rc_tx_id rc) (rq_now rq)"] stl_ids(1) [OF submit(4)] by auto
  next
    case (consensus rd)
    then show ?thesis
      using stored [of "StlConfirmConsensus (rq_now rq)"] stl_ids(2) [OF consensus(6)] by auto
  next
    case (mirror rd)
    then show ?thesis
      using stored [of "StlConfirmMirror (rq_now rq)"] stl_ids(3) [OF mirror(7)] by auto
  next
    case account
    then show ?thesis using account_effect [OF account(3) assms(2)] by auto
  qed
  then show "writes H s t" and "get_settlement (stl_id x) t = Inr x" and "stl_id x = stl_id plan"
    and "keyed stl_id (db_settlements t)" by blast+
qed

lemma in_tx_error: "in_tx body s = (Inl e, t) \<Longrightarrow> t = rollback s"
  by (rule in_tx_Inl)

lemma advance_error:
  assumes "advance U ex rq plan (s, n) = (Inl e, t, n')" shows "t = s \<or> t = rollback s"
  using assms
  by (auto simp: advance_def submit_plan_def confirm_consensus_def confirm_mirror_def store_step_of_def account_def
      dest!: in_tx_Inl split: if_splits stl_state.splits sum.splits prod.splits option.splits)

lemma record_failure_writes:
  assumes "record_settle_failure err_text rq plan cause s = (e, t)" shows "writes H s t"
proof -
  obtain r where "in_tx (\<lambda>s.
        and_then (get_settlement (stl_id plan) s) (\<lambda>current.
        if stl_is_finished current then Inr ((), s)
        else and_then (stl_fail (err_text cause) (rq_now rq) current) (\<lambda>x.
             and_then (update_settlement x (stl_version current) s) (\<lambda>t. Inr ((), t))))) s = (r, t)"
    using assms by (auto simp: record_settle_failure_def split: prod.splits sum.splits)
  then show ?thesis
  proof (rule in_tx_writes)
    fix y u
    assume "and_then (get_settlement (stl_id plan) s) (\<lambda>current.
        if stl_is_finished current then Inr ((), s)
        else and_then (stl_fail (err_text cause) (rq_now rq) current) (\<lambda>x.
             and_then (update_settlement x (stl_version current) s) (\<lambda>t. Inr ((), t)))) = Inr (y, u)"
    then consider "u = s" | current x where "get_settlement (stl_id plan) s = Inr current"
        "stl_exec (StlFail (err_text cause) (rq_now rq)) current = Inr x"
        "update_settlement x (stl_version current) s = Inr u"
      by (auto simp: and_then_Inr_iff split: if_splits)
    then show "writes H s u"
    proof cases
      case 2
      have "sound_write H s u" by (rule write_settlement [OF 2(1) stl_step [OF 2(2)] 2(3)])
      then show ?thesis by blast
    qed simp
  qed
qed

lemma handle_steps_writes:
  assumes "keyed stl_id (db_settlements s)" and "get_settlement (stl_id plan) s = Inr plan"
    and "handle_steps err_text U ex rq plan (s, n) = (r, t, n')"
  shows "writes H s t"
  using assms
proof (induction "steps_left plan" arbitrary: plan s n rule: less_induct)
  case less
  show ?case
  proof (cases "stl_is_finished plan")
    case True
    then show ?thesis using less.prems(3) by (simp add: handle_steps.simps)
  next
    case unfinished: False
    obtain res u m where step: "advance U ex rq plan (s, n) = (res, u, m)" by (metis prod_cases3)
    show ?thesis
    proof (cases res)
      case (Inl e)
      then obtain e' where "record_settle_failure err_text rq plan e u = (e', t)"
        using less.prems(3) unfinished step by (auto simp: handle_steps.simps split: prod.splits)
      then have "writes H u t" by (rule record_failure_writes)
      moreover have "writes H s u" using advance_error [OF step [unfolded Inl]] write_plain(6) by blast
      ultimately show ?thesis by (blast intro: writes_trans)
    next
      case (Inr x)
      note effect = advance_effect [OF step [unfolded Inr] less.prems(1,2)]
      have "handle_steps err_text U ex rq x (u, m) = (r, t, n')"
        using less.prems(3) unfinished step Inr by (simp add: handle_steps.simps [of _ _ _ _ plan])
      then have "writes H u t"
        by (rule less.hyps [OF advance_moves [OF step [unfolded Inr] unfinished] effect(4,2)])
      then show ?thesis using effect(1) by (blast intro: writes_trans)
    qed
  qed
qed

lemma handle_settle_writes:
  assumes "keyed stl_id (db_settlements s)" and "handle_settle err_text U ex rq i (s, n) = (r, t, n')"
  shows "writes H s t"
proof (cases "t = s")
  case False
  then obtain plan where plan: "get_settlement i s = Inr plan" "handle_steps err_text U ex rq plan (s, n) = (r, t, n')"
    using assms(2) by (auto simp: handle_settle_def split: if_splits sum.splits)
  then have "stl_id plan = i" using keyed_lookup [OF assms(1)] by (auto simp: get_settlement_def result_simps)
  then show ?thesis using plan by (intro handle_steps_writes [OF assms(1)]) simp_all
qed simp

section \<open>Planning\<close>

lemma table_put_new: "map_of t k = None \<Longrightarrow> table_put k v t = t @ [(k, v)]"
  unfolding table_put_def by (induction t) (auto split: if_splits)

definition settle_command :: "instant \<Rightarrow> string \<Rightarrow> settlement \<Rightarrow> int \<Rightarrow> outbox_row" where
  "settle_command now trace x i =
    \<lparr>ob_id = i, ob_topic = topic_settle, ob_payload = SettlePayload (stl_id x), ob_attempts = 0, ob_last_error = [],
     ob_trace_id = trace, ob_available_at = now, ob_delivered_at = None, ob_created_at = now\<rparr>"

lemma topic_settle_text: "topic_settle \<noteq> []"
  by code_simp

lemma queue_settlements_Inr:
  assumes "queue_settlements rq trace xs s = Inr t"
  shows "writes H s t" and "db_settlements t = db_settlements s" and "db_auctions t = db_auctions s"
    and "map ob_payload (ot_rows (db_outbox t)) = map ob_payload (ot_rows (db_outbox s)) @
      map (SettlePayload \<circ> stl_id) (filter (\<lambda>x. \<not> stl_is_finished x) xs)"
proof -
  have "writes H s t \<and> db_settlements t = db_settlements s \<and> db_auctions t = db_auctions s \<and>
      map ob_payload (ot_rows (db_outbox t)) = map ob_payload (ot_rows (db_outbox s)) @
        map (SettlePayload \<circ> stl_id) (filter (\<lambda>x. \<not> stl_is_finished x) xs)"
    using assms unfolding queue_settlements_def
  proof (induction xs arbitrary: s)
    case Nil
    then show ?case by simp
  next
    case (Cons x xs)
    then obtain u where u: "queue_settlement rq trace x s = Inr u" "fold_result (queue_settlement rq trace) xs u = Inr t"
      by (auto simp: and_then_Inr_iff)
    have "writes H s u \<and> db_settlements u = db_settlements s \<and> db_auctions u = db_auctions s \<and>
        map ob_payload (ot_rows (db_outbox u)) = map ob_payload (ot_rows (db_outbox s)) @
          (if stl_is_finished x then [] else [SettlePayload (stl_id x)])"
      using u(1) write_command [of topic_settle "SettlePayload (stl_id x)" trace "rq_now rq" s u H]
      by (auto simp: queue_settlement_def publish_command_def publish_def result_simps split: if_splits)
    then show ?case using Cons.IH [OF u(2)] by (auto intro: writes_trans)
  qed
  then show "writes H s t" and "db_settlements t = db_settlements s" and "db_auctions t = db_auctions s"
    and "map ob_payload (ot_rows (db_outbox t)) = map ob_payload (ot_rows (db_outbox s)) @
      map (SettlePayload \<circ> stl_id) (filter (\<lambda>x. \<not> stl_is_finished x) xs)" by blast+
qed

text \<open>The part of an allocation a plan carries over.\<close>

definition planned_as :: "uuid \<Rightarrow> allocation \<Rightarrow> settlement \<Rightarrow> bool" where
  "planned_as auction al x \<longleftrightarrow> stl_auction_id x = auction \<and> stl_lot_id x = al_lot_id al \<and> stl_bid_id x = al_bid_id al \<and>
     stl_invoice_id x = al_invoice_id al \<and> stl_asset_id x = al_asset_id al \<and> stl_investor_id x = al_investor_id al \<and>
     stl_notional x = al_notional al \<and> stl_price x = al_price al \<and> stl_state x = StlPrepared \<and> stl_tx_id x = []"

lemma plan_transfer_Inr:
  assumes "plan_transfer H U D rq a wallet n al s = Inr x"
  shows "planned_as (auc_id a) al x" and "stl_sound x"
proof -
  show "planned_as (auc_id a) al x"
    using assms by (auto simp: plan_transfer_def planned_as_def new_settlement_def Let_def result_simps)
  show "stl_sound x"
    using assms unfolding plan_transfer_def and_then_Inr_iff by (blast intro: new_settlement_sound)
qed

lemma plan_allocations_Inr:
  assumes "fold_result (plan_allocation H U D rq a wallet) als (planned, s) = Inr (planned', t)"
  obtains new where "planned' = planned @ new" and "list_all2 (planned_as (auc_id a)) als new"
    and "t = s\<lparr>db_settlements := db_settlements s @ map (\<lambda>x. (stl_id x, x)) new\<rparr>" and "writes H' s t"
proof -
  have "\<exists>new. planned' = planned @ new \<and> list_all2 (planned_as (auc_id a)) als new \<and>
      t = s\<lparr>db_settlements := db_settlements s @ map (\<lambda>x. (stl_id x, x)) new\<rparr> \<and> writes H' s t"
    using assms
  proof (induction als arbitrary: planned s)
    case Nil
    then show ?case by simp
  next
    case (Cons al als)
    then obtain x u where run: "plan_transfer H U D rq a wallet (length planned) al s = Inr x"
      "create_settlement x s = Inr u"
      "fold_result (plan_allocation H U D rq a wallet) als (planned @ [x], u) = Inr (planned', t)"
      by (auto simp: plan_allocation_def [of H U D rq a wallet al] and_then_Inr_iff)
    have u: "u = s\<lparr>db_settlements := db_settlements s @ [(stl_id x, x)]\<rparr>"
      using run(2) by (auto simp: create_settlement_def table_put_new split: if_splits)
    note x = plan_transfer_Inr [OF run(1)]
    obtain new where new: "planned' = (planned @ [x]) @ new" "list_all2 (planned_as (auc_id a)) als new"
      "t = u\<lparr>db_settlements := db_settlements u @ map (\<lambda>x. (stl_id x, x)) new\<rparr>" "writes H' u t"
      using Cons.IH [OF run(3)] by blast
    have "sound_write H' s u" by (rule write_create_settlement [OF run(2) x(2)])
    then have "writes H' s t" using new(4) by (rule converse_rtranclp_into_rtranclp)
    then show ?case using new x(1) by (intro exI [of _ "x # new"]) (simp add: u)
  qed
  then show thesis using that by blast
qed

lemma start_settling_Inr:
  assumes "start_settling now a = Inr b"
  shows "auc_facts b = auc_facts a" and "auc_status b = AucSettling" and "reaches auc_exec a b"
  using assms auc_exec_facts [of "AucCmdStartSettling now" a b] auc_step [of "AucCmdStartSettling now" a b]
  by (auto simp: start_settling_def result_simps)

lemma settle_auction_tx_Inr:
  assumes "settle_auction_tx H U D rq who auction trace s = Inr (planned, t)" and "keyed auc_id (db_auctions s)"
  obtains (again) "list_settlements_by_auction U auction s \<noteq> []"
      and "planned = list_settlements_by_auction U auction s" and "queue_settlements rq trace planned s = Inr t"
  | (first) a x a' s1 s2 s3 where "list_settlements_by_auction U auction s = []" and "get_auction auction s = Inr a"
      and "auc_id a = auction" and "auc_status a = AucCleared" and "get_solution auction s = Inr x"
      and "list_all2 (planned_as auction) (sol_allocations x) planned"
      and "s1 = s\<lparr>db_settlements := db_settlements s @ map (\<lambda>x. (stl_id x, x)) planned\<rparr>" and "writes H' s s1"
      and "start_settling (rq_now rq) a = Inr a'" and "update_auction a' (auc_version a) s1 = Inr s2"
      and "annotate U rq (actor_ref U who) action_settlement_planned auction_entity (auc_id a')
              [(''transfers'', DetailInt (int (length planned))),
               (''status'', DetailText (auc_status_string (auc_status a')))] s2 = Inr s3"
      and "queue_settlements rq trace planned s3 = Inr t"
proof -
  obtain a where a: "get_auction auction s = Inr a"
    using assms(1) unfolding settle_auction_tx_def and_then_Inr_iff by blast
  have aid: "auc_id a = auction"
    using a keyed_lookup [OF assms(2)] by (auto simp: get_auction_def result_simps)
  show thesis
  proof (cases "list_settlements_by_auction U auction s = []")
    case False
    then show thesis
      using assms(1) a aid by (intro again) (auto simp: settle_auction_tx_def Let_def result_simps split: if_splits)
  next
    case True
    with assms(1) a aid obtain x wallet s1 a' s2 s3 where run: "auc_status a = AucCleared"
      "get_solution auction s = Inr x"
      "fold_result (plan_allocation H U D rq a wallet) (sol_allocations x) ([], s) = Inr (planned, s1)"
      "start_settling (rq_now rq) a = Inr a'" "update_auction a' (auc_version a) s1 = Inr s2"
      "annotate U rq (actor_ref U who) action_settlement_planned auction_entity (auc_id a')
              [(''transfers'', DetailInt (int (length planned))),
               (''status'', DetailText (auc_status_string (auc_status a')))] s2 = Inr s3"
      "queue_settlements rq trace planned s3 = Inr t"
      by (auto simp: settle_auction_tx_def Let_def and_then_Inr_iff split: if_splits)
    from run(3) obtain "list_all2 (planned_as auction) (sol_allocations x) planned"
      and "s1 = s\<lparr>db_settlements := db_settlements s @ map (\<lambda>x. (stl_id x, x)) planned\<rparr>" and "writes H' s s1"
      by (rule plan_allocations_Inr [where H' = H']) (auto simp: aid)
    then show thesis using first [OF True a aid] run by blast
  qed
qed

lemma settle_auction_writes:
  assumes "settle_auction H U D rq who auction trace s = (r, t)" and "store_keyed s" shows "writes H' s t"
proof (rule in_tx_writes [OF assms(1) [unfolded settle_auction_def]])
  fix planned u
  assume tx: "settle_auction_tx H U D rq who auction trace s = Inr (planned, u)"
  have keyed: "keyed auc_id (db_auctions s)" using assms(2) by (simp add: store_keyed_def)
  show "writes H' s u" using tx keyed
  proof (cases rule: settle_auction_tx_Inr [where H' = H'])
    case again
    then show ?thesis using queue_settlements_Inr(1) by blast
  next
    case (first a x a' s1 s2 s3)
    have "sound_write H' s1 s2"
      using first(2,7) by (intro write_auction [OF _ start_settling_Inr(3) [OF first(9)] first(10)]) (simp add: get_auction_def)
    moreover have "sound_write H' s2 s3" by (rule write_entry [OF first(11)])
    moreover have "writes H' s3 u" by (rule queue_settlements_Inr(1) [OF first(12)])
    ultimately show ?thesis using first(8) by (meson converse_rtranclp_into_rtranclp writes_trans)
  qed
qed

section \<open>One submission\<close>

text \<open>An executor that writes down what it is asked to submit.\<close>

definition logged :: "'n executor \<Rightarrow> ('n \<times> order list) executor" where
  "logged ex =
    \<lparr>ex_submit = (\<lambda>r (n, asked). let (res, n') = ex_submit ex r n in (res, n', asked @ [r])),
     ex_lookup = (\<lambda>tx (n, asked). let (res, n') = ex_lookup ex tx n in (res, n', asked))\<rparr>"

lemma logged_submit:
  assumes "ex_submit (logged ex) r (n, asked) = (res, m)" shows "snd m = asked @ [r]"
  using assms by (auto simp: logged_def split: prod.splits)

lemma logged_lookup:
  assumes "ex_lookup (logged ex) tx (n, asked) = (res, m)" shows "snd m = asked"
  using assms by (auto simp: logged_def split: prod.splits)

lemma advance_asked:
  assumes "advance U (logged ex) rq plan (s, n, asked) = (r, t, m)"
  shows "snd m = asked \<or> (\<not> stl_is_submitted plan \<and>
    (\<exists>a. get_asset (stl_asset_id plan) s = Inr a \<and> snd m = asked @ [order_of U a plan]))"
proof (cases "stl_is_submitted plan")
  case False
  then show ?thesis
    using assms by (auto simp: advance_def submit_plan_def dest: logged_submit
        split: sum.splits prod.splits option.splits)
next
  case True
  then show ?thesis
    using assms by (auto simp: advance_def confirm_consensus_def confirm_mirror_def dest: logged_lookup
        split: stl_state.splits sum.splits prod.splits if_splits)
qed

lemma advance_submitted:
  assumes "advance U ex rq plan (s, n) = (Inr x, t, n')"
  shows "stl_is_submitted x \<or> stl_is_finished x"
  using assms
proof (cases rule: advance_Inr)
  case account
  then show ?thesis by (simp add: account_state stl_is_finished_def stl_state_finished_def)
qed (auto simp: stl_command_defs stl_is_submitted_def result_simps)

lemma handle_steps_asked:
  assumes "stl_is_submitted plan \<or> stl_is_finished plan"
    and "handle_steps err_text U (logged ex) rq plan (s, n, asked) = (r, t, m)"
  shows "snd m = asked"
  using assms
proof (induction "steps_left plan" arbitrary: plan s n rule: less_induct)
  case less
  show ?case
  proof (cases "stl_is_finished plan")
    case True
    then show ?thesis using less.prems(2) by (auto simp: handle_steps.simps)
  next
    case unfinished: False
    obtain res u n' asked' where step: "advance U (logged ex) rq plan (s, n, asked) = (res, u, n', asked')"
      by (metis prod_cases4)
    have same: "asked' = asked" using advance_asked [OF step] less.prems(1) unfinished by simp
    show ?thesis
    proof (cases res)
      case (Inl e)
      then show ?thesis
        using less.prems(2) unfinished step same by (auto simp: handle_steps.simps split: prod.splits)
    next
      case (Inr x)
      have "handle_steps err_text U (logged ex) rq x (u, n', asked) = (r, t, m)"
        using less.prems(2) unfinished step Inr same by (simp add: handle_steps.simps [of _ _ _ _ plan])
      then show ?thesis
        using less.hyps [OF advance_moves [OF step [unfolded Inr] unfinished]] advance_submitted [OF step [unfolded Inr]]
        by blast
    qed
  qed
qed

lemma handle_settle_asked:
  assumes "handle_settle err_text U (logged ex) rq i (s, n, asked) = (r, t, m)"
  shows "snd m = asked \<or> (\<exists>plan a. get_settlement i s = Inr plan \<and> \<not> stl_is_submitted plan \<and>
    get_asset (stl_asset_id plan) s = Inr a \<and> snd m = asked @ [order_of U a plan])"
proof (cases "\<exists>plan. get_settlement i s = Inr plan \<and> \<not> stl_is_finished plan \<and> i \<noteq> uuid_nil")
  case False
  then show ?thesis using assms by (auto simp: handle_settle_def split: sum.splits if_splits)
next
  case True
  then obtain plan where plan: "get_settlement i s = Inr plan" "\<not> stl_is_finished plan"
    "handle_steps err_text U (logged ex) rq plan (s, n, asked) = (r, t, m)"
    using assms by (auto simp: handle_settle_def)
  obtain res u n' asked' where step: "advance U (logged ex) rq plan (s, n, asked) = (res, u, n', asked')"
    by (metis prod_cases4)
  have "snd m = asked'"
  proof (cases res)
    case (Inl e)
    then show ?thesis using plan(2,3) step by (auto simp: handle_steps.simps split: prod.splits)
  next
    case (Inr x)
    then have "handle_steps err_text U (logged ex) rq x (u, n', asked') = (r, t, m)"
      using plan(2,3) step by (simp add: handle_steps.simps [of _ _ _ _ plan])
    then show ?thesis by (rule handle_steps_asked [OF advance_submitted [OF step [unfolded Inr]]])
  qed
  then show ?thesis using advance_asked [OF step] plan(1) by auto
qed

text \<open>No write of the program takes a transaction id back.\<close>

lemma settlement_writes:
  assumes "store_step H s t"
  shows "db_settlements t = db_settlements s \<or> (\<exists>x. create_settlement x s = Inr t) \<or>
    (\<exists>i x x' e. get_settlement i s = Inr x \<and> reaches stl_exec x x' \<and> update_settlement x' e s = Inr t)"
  using assms
proof cases
  case (step_create_settlement x)
  then show ?thesis by blast
next
  case (step_settlement i x x' e)
  then show ?thesis by blast
qed (auto simp: repository_defs result_simps Let_def split: option.splits)

lemma tx_id_kept:
  assumes "store_step H s t" and "store_keyed s" and "get_settlement i s = Inr x" and "stl_is_submitted x"
  shows "\<exists>y. get_settlement i t = Inr y \<and> stl_is_submitted y"
  using settlement_writes [OF assms(1)]
proof (elim disjE exE conjE)
  assume "db_settlements t = db_settlements s"
  then show ?thesis using assms(3,4) by (auto simp: get_settlement_def)
next
  fix z
  assume "create_settlement z s = Inr t"
  then show ?thesis using assms(3,4) by (auto simp: create_settlement_def get_settlement_def fetch_Inr split: if_splits)
next
  fix j z z' e
  assume z: "get_settlement j s = Inr z" "reaches stl_exec z z'" "update_settlement z' e s = Inr t"
  show ?thesis
  proof (cases "stl_id z' = i")
    case False
    then show ?thesis using z(3) assms(3,4) by (auto simp: update_settlement_Inr get_settlement_def fetch_Inr)
  next
    case True
    have "stl_id z' = stl_id z" using advanced_facts(5) [OF z(2)] by (simp add: stl_plan_def)
    moreover have "stl_id z = j"
      using z(1) assms(2) keyed_lookup by (auto simp: store_keyed_def get_settlement_def fetch_Inr)
    ultimately have "z = x" using z(1) assms(3) True by simp
    then have "stl_is_submitted z'"
      using assms(4) stl_tx_step unfolding stl_is_submitted_def
      by (intro reaches_invariant [OF z(2), where P = "\<lambda>y. stl_tx_id y \<noteq> []"]) auto
    then show ?thesis using z(3) True by (auto simp: update_settlement_Inr get_settlement_def fetch_Inr)
  qed
qed

lemma tx_id_kept_always:
  assumes "(store_step H)\<^sup>*\<^sup>* s t" and "store_keyed s" and "get_settlement i s = Inr x" and "stl_is_submitted x"
  shows "store_keyed t \<and> (\<exists>y. get_settlement i t = Inr y \<and> stl_is_submitted y)"
  using assms(1)
proof (induction rule: rtranclp_induct)
  case base
  then show ?case using assms(2-4) by blast
next
  case (step t u)
  then show ?case using tx_id_kept [OF step.hyps(2)] store_keyed_step by metis
qed

section \<open>Properties\<close>

text \<open>C18: Settling a cleared batch plans exactly one transfer per allocation, in the order of the solution and
  carrying its terms, all unsubmitted, moves the batch to SETTLING and queues one command for each; settling it
  again plans nothing, touches no transfer and only queues the unfinished ones again.\<close>

theorem settling_plans_each_allocation_once:
  assumes "store_keyed s" and "settle_auction H U D rq who auction trace s = (Inr planned, t)"
  shows "map ob_payload (ot_rows (db_outbox t)) = map ob_payload (ot_rows (db_outbox s)) @
      map (SettlePayload \<circ> stl_id) (filter (\<lambda>x. \<not> stl_is_finished x) planned) \<and>
    (if list_settlements_by_auction U auction s \<noteq> []
     then planned = list_settlements_by_auction U auction s \<and> db_settlements t = db_settlements s \<and>
       db_auctions t = db_auctions s
     else \<exists>x c. get_solution auction s = Inr x \<and> list_all2 (planned_as auction) (sol_allocations x) planned \<and>
       db_settlements t = db_settlements s @ map (\<lambda>x. (stl_id x, x)) planned \<and>
       get_auction auction t = Inr c \<and> auc_status c = AucSettling)"
proof -
  have tx: "settle_auction_tx H U D rq who auction trace s = Inr (planned, t)"
    using assms(2) by (simp add: settle_auction_def in_tx_Inr)
  have keyed: "keyed auc_id (db_auctions s)" using assms(1) by (simp add: store_keyed_def)
  from tx keyed show ?thesis
  proof (cases rule: settle_auction_tx_Inr [where H' = H])
    case again
    then show ?thesis using queue_settlements_Inr [OF again(3)] by simp
  next
    case (first a x a' s1 s2 s3)
    note queued = queue_settlements_Inr [OF first(12)]
    have id: "auc_id a' = auction"
      using start_settling_Inr(1) [OF first(9)] first(3) by (simp add: auc_facts_def)
    have s2: "s2 = s1\<lparr>db_auctions := table_put auction a' (db_auctions s1)\<rparr>"
      using first(10) by (auto simp: update_auction_Inr id)
    obtain e where s3: "s3 = s2\<lparr>db_events := db_events s2 @ [e]\<rparr>" using annotate_Inr [OF first(11)] by blast
    have "db_outbox s3 = db_outbox s" "db_settlements s3 = db_settlements s @ map (\<lambda>x. (stl_id x, x)) planned"
      "get_auction auction s3 = Inr a'"
      by (simp_all add: s3 s2 first(7) get_auction_def fetch_def)
    then show ?thesis
      using queued first(1,5,6) start_settling_Inr(2) [OF first(9)] by (auto simp: get_auction_def)
  qed
qed


end
