(* ===== verification/Collections.thy ===== *)
theory Collections
  imports Settling_Facts
begin

text \<open>
  \<^verbatim>\<open>internal/app/collections/service.go\<close>: the receivable comes due. A payment is
  divided among the parties whose transfers have finished, the unsold rest stays with the issuer, and the
  receivable is closed in the same unit of work. The map from a party to its position is an association list.
\<close>

section \<open>The holders of a receivable\<close>

text \<open>Adding to the position of a party, which starts at nothing.\<close>

definition add_position ::
  "currency_code \<Rightarrow> uuid \<Rightarrow> amount \<Rightarrow> (uuid, amount) table \<Rightarrow> (uuid, amount) table result" where
  "add_position c party notional held =
    and_then (case map_of held party of None \<Rightarrow> amount_zero c | Some x \<Rightarrow> Inr x) (\<lambda>current.
    and_then (amount_add current notional) (\<lambda>raised. Inr (table_put party raised held)))"

text \<open>One turn of the loop over the transfers: the positions and what was sold.\<close>

definition add_transfer ::
  "currency_code \<Rightarrow> settlement \<Rightarrow> (uuid, amount) table \<times> amount \<Rightarrow> ((uuid, amount) table \<times> amount) result" where
  "add_transfer c x = (\<lambda>(held, sold).
    if \<not> stl_is_finished x then Inr (held, sold)
    else and_then (add_position c (stl_investor_id x) (stl_notional x) held) (\<lambda>held'.
         and_then (amount_add sold (stl_notional x)) (\<lambda>sold'. Inr (held', sold'))))"

definition holders_of :: "uuid_ops \<Rightarrow> invoice \<Rightarrow> 'd store \<Rightarrow> holder list result" where
  "holders_of U v s =
    (let c = currency (inv_face v) in
     and_then (amount_zero c) (\<lambda>zero.
     and_then (fold_result (add_transfer c) (list_settlements_by_invoice U (inv_id v) s) ([], zero)) (\<lambda>(held, sold).
     and_then (amount_sub (inv_face v) sold) (\<lambda>retained.
     if amount_negative retained then Inl ErrConflict
     else and_then (if amount_positive retained then add_position c (inv_issuer v) retained held else Inr held)
       (\<lambda>all. Inr (sort_by (\<lambda>x y. uuid_string U (h_party x) < uuid_string U (h_party y))
                    (map (\<lambda>(party, notional). \<lparr>h_party = party, h_notional = notional\<rparr>) all)))))))"

section \<open>Recording a payment\<close>

definition action_repaid :: string where "action_repaid = ''invoice.repaid''"
definition action_defaulted :: string where "action_defaulted = ''invoice.defaulted''"

record payment =
  py_invoice_id :: uuid
  py_amount :: amount
  py_reference :: string
  py_received_at :: instant

definition close_receivable :: "'x decimal_ops \<Rightarrow> instant \<Rightarrow> repayment \<Rightarrow> invoice \<Rightarrow> invoice result" where
  "close_receivable D now r v =
    (if is_shortfall r
     then and_then (amount_string D (rp_amount r)) (\<lambda>paid. and_then (amount_string D (rp_face r)) (\<lambda>owed.
          mark_defaulted (''the debtor paid '' @ paid @ '' of '' @ owed) now v))
     else mark_matured now v)"

definition repaid_details :: "'x decimal_ops \<Rightarrow> repayment \<Rightarrow> (string \<times> detail) list result" where
  "repaid_details D r =
    and_then (amount_string D (rp_amount r)) (\<lambda>paid.
    and_then (amount_string D (rp_face r)) (\<lambda>owed.
    and_then (shortfall r) (\<lambda>missing.
    and_then (amount_string D missing) (\<lambda>short.
    Inr [(''amount'', DetailText paid), (''face'', DetailText owed), (''shortfall'', DetailText short),
         (''reference'', DetailText (rp_reference r)), (''holders'', DetailInt (int (length (rp_shares r))))]))))"

definition record_new_payment ::
  "(string \<Rightarrow> string) \<Rightarrow> uuid_ops \<Rightarrow> 'x decimal_ops \<Rightarrow> request \<Rightarrow> actor \<Rightarrow> payment \<Rightarrow> invoice \<Rightarrow> 'd store \<Rightarrow>
    ((repayment \<times> invoice) \<times> 'd store) result" where
  "record_new_payment H U D rq who p v s =
    (if inv_status v \<noteq> InvSettled then Inl ErrConflict
     else and_then (holders_of U v s) (\<lambda>holders.
       and_then (new_repayment U \<lparr>nrp_id = rq_ids rq 0, nrp_invoice_id = inv_id v, nrp_face = inv_face v,
           nrp_amount = py_amount p, nrp_reference = py_reference p, nrp_received_at = py_received_at p,
           nrp_recorded_by = ac_organization_id who, nrp_holders = holders\<rparr> (rq_now rq)) (\<lambda>r.
       and_then (create_repayment r s) (\<lambda>s1.
       and_then (close_receivable D (rq_now rq) r v) (\<lambda>v'.
       and_then (update_invoice v' (inv_version v) s1) (\<lambda>s2.
       and_then (repaid_details D r) (\<lambda>details.
       and_then (record_event (fold (\<lambda>(k, x). with_detail k x) details
           (between H (standing v) (standing v') (event_of rq (uuid_string U (ac_organization_id who)) action_repaid
             invoice_entity (uuid_string U (inv_id v'))))) s2) (\<lambda>s3.
       Inr ((r, v'), s3)))))))))"

definition record_payment_tx ::
  "(string \<Rightarrow> string) \<Rightarrow> uuid_ops \<Rightarrow> 'x decimal_ops \<Rightarrow> request \<Rightarrow> actor \<Rightarrow> payment \<Rightarrow> 'd store \<Rightarrow>
    ((repayment \<times> invoice) \<times> 'd store) result" where
  "record_payment_tx H U D rq who p s =
    and_then (get_invoice (py_invoice_id p) s) (\<lambda>v.
    case get_repayment_by_invoice (inv_id v) s of
      Inr r \<Rightarrow> if \<not> amount_equal (rp_amount r) (py_amount p) \<or> rp_reference r \<noteq> py_reference p
               then Inl ErrConflict else Inr ((r, v), s)
    | Inl e \<Rightarrow> if \<not> is_not_found e then Inl e else record_new_payment H U D rq who p v s)"

definition record_payment ::
  "(string \<Rightarrow> string) \<Rightarrow> uuid_ops \<Rightarrow> 'x decimal_ops \<Rightarrow> request \<Rightarrow> actor \<Rightarrow> payment \<Rightarrow> 'd store \<Rightarrow>
    (repayment \<times> invoice) result \<times> 'd store" where
  "record_payment H U D rq who p s =
    (if \<not> ac_operator who then (Inl ErrForbidden, s) else in_tx (record_payment_tx H U D rq who p) s)"

section \<open>A payment that never came\<close>

definition default_receivable_tx ::
  "(string \<Rightarrow> string) \<Rightarrow> uuid_ops \<Rightarrow> request \<Rightarrow> actor \<Rightarrow> uuid \<Rightarrow> string \<Rightarrow> 'd store \<Rightarrow> (invoice \<times> 'd store) result" where
  "default_receivable_tx H U rq who i reason s =
    and_then (get_invoice i s) (\<lambda>v.
    if inv_status v \<noteq> InvSettled then Inl ErrConflict
    else if \<not> inv_is_overdue v (rq_now rq) then Inl ErrConflict
    else and_then (mark_defaulted reason (rq_now rq) v) (\<lambda>v'.
         and_then (update_invoice v' (inv_version v) s) (\<lambda>s1.
         and_then (record_event (fold (\<lambda>(k, x). with_detail k x)
             [(''reason'', DetailText (inv_reason v')), (''due_at'', DetailText (rfc3339 (inv_due_at v')))]
             (between H (standing v) (standing v') (event_of rq (uuid_string U (ac_organization_id who)) action_defaulted
               invoice_entity (uuid_string U (inv_id v'))))) s1) (\<lambda>s2.
         Inr (v', s2)))))"

definition default_receivable ::
  "(string \<Rightarrow> string) \<Rightarrow> uuid_ops \<Rightarrow> request \<Rightarrow> actor \<Rightarrow> uuid \<Rightarrow> string \<Rightarrow> 'd store \<Rightarrow> invoice result \<times> 'd store" where
  "default_receivable H U rq who i reason s =
    (if \<not> ac_operator who then (Inl ErrForbidden, s) else in_tx (default_receivable_tx H U rq who i reason) s)"

section \<open>Reading\<close>

definition repayment_for :: "actor \<Rightarrow> uuid \<Rightarrow> 'd store \<Rightarrow> repayment result" where
  "repayment_for who i s =
    and_then (get_repayment_by_invoice i s) (\<lambda>r.
    if ac_operator who \<or> holds_share r (ac_organization_id who) then Inr r
    else and_then (get_invoice i s) (\<lambda>v.
         if inv_issuer v = ac_organization_id who then Inr r else Inl ErrNotFound))"

record holding =
  hg_settlement :: settlement
  hg_invoice :: invoice
  hg_repayment :: "repayment option"

definition holding_of :: "settlement \<Rightarrow> 'd store \<Rightarrow> holding result" where
  "holding_of x s =
    (case get_invoice (stl_invoice_id x) s of
       Inl e \<Rightarrow> Inl (if is_not_found e then ErrConflict else e)
     | Inr v \<Rightarrow> (case get_repayment_by_invoice (inv_id v) s of
         Inr r \<Rightarrow> Inr \<lparr>hg_settlement = x, hg_invoice = v, hg_repayment = Some r\<rparr>
       | Inl e \<Rightarrow> if \<not> is_not_found e then Inl e
                 else Inr \<lparr>hg_settlement = x, hg_invoice = v, hg_repayment = None\<rparr>))"

definition holdings :: "uuid_ops \<Rightarrow> actor \<Rightarrow> int \<Rightarrow> 'd store \<Rightarrow> holding list result" where
  "holdings U who limit s =
    (if ac_organization_id who = uuid_nil then Inl ErrForbidden
     else traverse (\<lambda>x. holding_of x s) (list_settlements_by_investor U (ac_organization_id who) limit s))"

definition repayments_received :: "uuid_ops \<Rightarrow> actor \<Rightarrow> int \<Rightarrow> 'd store \<Rightarrow> repayment list result" where
  "repayments_received U who limit s =
    (if ac_organization_id who = uuid_nil then Inl ErrForbidden
     else Inr (list_repayments_for U (ac_organization_id who) limit s))"

end
