(* ===== verification/Settling_Progress.thy ===== *)
theory Settling_Progress
  imports Settling_Facts
begin

text \<open>
  The worker finishes. An executor that answers (it accepts a well-formed order, under a transaction it
  later confirms) is an interface; the in-process ledger provides it when nothing makes it fail. Against such
  an executor one delivery of the command takes a transfer from wherever it stands to ACCOUNTED and closes
  the books: the receivable is SETTLED, and so is the batch when this was its last transfer.
\<close>

section \<open>Executors that answer\<close>

locale answering_executor =
  fixes ex :: "'n executor" and ready :: "'n \<Rightarrow> bool" and confirmed :: "'n \<Rightarrow> string \<Rightarrow> bool"
  assumes submit_answers: "ready n \<Longrightarrow> validate_order r = Inr () \<Longrightarrow>
      \<exists>rc n'. ex_submit ex r n = ((rc, None), n') \<and> ready n' \<and> rc_tx_id rc \<noteq> [] \<and>
        trim_space (rc_tx_id rc) = rc_tx_id rc \<and> confirmed n' (rc_tx_id rc)"
    and lookup_answers: "ready n \<Longrightarrow> confirmed n tx \<Longrightarrow>
      \<exists>rd. ex_lookup ex tx n = (Inr rd, n) \<and> rd_found rd \<and> rd_succeeded rd \<and> rd_credited rd = None"

section \<open>Books that can be closed\<close>

definition closable :: "'d store \<Rightarrow> settlement \<Rightarrow> bool" where
  "closable s x \<longleftrightarrow> db_fail_commit s = None \<and> keyed inv_id (db_invoices s) \<and> keyed auc_id (db_auctions s) \<and>
     keyed stl_id (db_settlements s) \<and> (\<exists>a. get_asset (stl_asset_id x) s = Inr a) \<and>
     (\<exists>v. get_invoice (stl_invoice_id x) s = Inr v \<and> inv_status v \<in> {InvAllocated, InvSettled}) \<and>
     (\<exists>c. get_auction (stl_auction_id x) s = Inr c \<and> auc_status c \<in> {AucSettling, AucSettled})"

definition books_closed :: "uuid_ops \<Rightarrow> 'd store \<Rightarrow> settlement \<Rightarrow> bool" where
  "books_closed U t y \<longleftrightarrow> get_settlement (stl_id y) t = Inr y \<and> stl_is_finished y \<and>
     (\<exists>v. get_invoice (stl_invoice_id y) t = Inr v \<and> inv_status v = InvSettled) \<and>
     (list_all stl_is_finished (list_settlements_by_auction U (stl_auction_id y) t) \<longrightarrow>
       (\<exists>c. get_auction (stl_auction_id y) t = Inr c \<and> auc_status c = AucSettled))"

lemma closing_words [simp]: "trim_space action_invoice_settled \<noteq> []" "trim_space action_settled \<noteq> []"
  by code_simp+

lemma finish_invoice_closes:
  assumes "uuid_lib U" and "rq_now rq \<noteq> 0" and "keyed inv_id (db_invoices s)"
    and "get_invoice (stl_invoice_id x) s = Inr v" and "inv_status v \<in> {InvAllocated, InvSettled}"
  obtains t w where "finish_invoice U rq x s = Inr t" and "invoices_only s t"
    and "get_invoice (stl_invoice_id x) t = Inr w" and "inv_status w = InvSettled"
proof (cases "inv_status v = InvSettled")
  case True
  then show thesis using assms(4) by (intro that [of s v]) (simp_all add: finish_invoice_def)
next
  case False
  define w where "w = v\<lparr>inv_status := InvSettled, inv_version := inv_version v + 1, inv_updated_at := rq_now rq\<rparr>"
  have w: "mark_settled (rq_now rq) v = Inr w" "inv_id w = inv_id v" "inv_status w = InvSettled"
    using False assms(5) by (simp_all add: w_def mark_settled_def inv_transition_def inv_can_transition_def)
  have id: "inv_id v = stl_invoice_id x"
    using assms(4) keyed_lookup [OF assms(3)] by (auto simp: get_invoice_def fetch_Inr)
  define u where "u = s\<lparr>db_invoices := table_put (stl_invoice_id x) w (db_invoices s)\<rparr>"
  have "update_invoice w (inv_version v) s = Inr u"
    using assms(4) by (auto simp: update_invoice_Inr w id u_def)
  then obtain e where e: "finish_invoice U rq x s = Inr (u\<lparr>db_events := db_events u @ [e]\<rparr>)"
    using False by (auto simp: finish_invoice_def assms(2,4) w uuid_lib.annotate_valid [OF assms(1)])
  show thesis
    by (rule that [OF e, of w]) (use w(3) in \<open>simp_all add: invoices_only_def u_def get_invoice_def fetch_Inr\<close>)
qed

lemma finish_auction_closes:
  assumes "uuid_lib U" and "rq_now rq \<noteq> 0" and "keyed auc_id (db_auctions s)"
    and "get_auction i s = Inr a" and "auc_status a \<in> {AucSettling, AucSettled}"
  obtains t c where "finish_auction U rq i s = Inr t" and "db_fail_commit t = db_fail_commit s"
    and "list_all stl_is_finished (list_settlements_by_auction U i t) \<longrightarrow>
      get_auction i t = Inr c \<and> auc_status c = AucSettled"
proof (cases "list_all stl_is_finished (list_settlements_by_auction U i s) \<and> auc_status a \<noteq> AucSettled")
  case False
  then show thesis using assms(4) by (intro that [of s a]) (auto simp: finish_auction_def Let_def)
next
  case True
  define c where "c = a\<lparr>auc_status := AucSettled, auc_version := auc_version a + 1, auc_updated_at := rq_now rq\<rparr>"
  have c: "auc_mark_settled (rq_now rq) a = Inr c" "auc_id c = auc_id a" "auc_status c = AucSettled"
    using True assms(5) by (simp_all add: c_def auc_mark_settled_def auc_transition_def auc_can_transition_def)
  have id: "auc_id a = i" using assms(4) keyed_lookup [OF assms(3)] by (auto simp: get_auction_def fetch_Inr)
  define u where "u = s\<lparr>db_auctions := table_put i c (db_auctions s)\<rparr>"
  have "update_auction c (auc_version a) s = Inr u"
    using assms(4) by (auto simp: update_auction_Inr c id u_def)
  then obtain e where e: "finish_auction U rq i s = Inr (u\<lparr>db_events := db_events u @ [e]\<rparr>)"
    using True by (auto simp: finish_auction_def Let_def assms(2,4) c uuid_lib.annotate_valid [OF assms(1)])
  show thesis
    by (rule that [OF e, of c]) (use c(3) in \<open>simp_all add: u_def get_auction_def fetch_Inr\<close>)
qed

lemma account_closes:
  assumes "uuid_lib U" and "rq_now rq \<noteq> 0" and "closable s x" and "get_settlement (stl_id x) s = Inr x"
    and "stl_state x = StlMirrorConfirmed"
  obtains y t where "account U rq x s = (Inr y, t)" and "books_closed U t y"
proof -
  define y where "y = stl_touch (rq_now rq) (x\<lparr>stl_state := StlAccounted\<rparr>)"
  have y: "stl_account (rq_now rq) x = Inr y" "stl_id y = stl_id x" "stl_state y = StlAccounted"
    "stl_invoice_id y = stl_invoice_id x" "stl_auction_id y = stl_auction_id x"
    using assms(5) by (simp_all add: y_def stl_account_def stl_transition_def stl_can_transition_def stl_touch_def)
  define s1 where "s1 = s\<lparr>db_settlements := table_put (stl_id x) y (db_settlements s)\<rparr>"
  have update: "update_settlement y (stl_version x) s = Inr s1"
    using assms(4) by (auto simp: update_settlement_Inr y s1_def)
  have keyed: "keyed inv_id (db_invoices s1)" "keyed auc_id (db_auctions s1)"
    and commit: "db_fail_commit s1 = None"
    using assms(3) by (simp_all add: closable_def s1_def)
  obtain v a where rows: "get_invoice (stl_invoice_id y) s1 = Inr v" "inv_status v \<in> {InvAllocated, InvSettled}"
    "get_auction (stl_auction_id y) s1 = Inr a" "auc_status a \<in> {AucSettling, AucSettled}"
    using assms(3) by (auto simp: closable_def s1_def y get_invoice_def get_auction_def)
  obtain s2 w where s2: "finish_invoice U rq y s1 = Inr s2" "invoices_only s1 s2"
    "get_invoice (stl_invoice_id y) s2 = Inr w" "inv_status w = InvSettled"
    by (rule finish_invoice_closes [OF assms(1,2) keyed(1) rows(1,2)])
  have kept: "db_auctions s2 = db_auctions s1" "db_settlements s2 = db_settlements s1"
    by (rule invoices_only_tables [OF s2(2)])+
  have commit2: "db_fail_commit s2 = None"
    using arg_cong [OF s2(2) [unfolded invoices_only_def], of db_fail_commit] commit by simp
  obtain t c where t: "finish_auction U rq (stl_auction_id y) s2 = Inr t" "db_fail_commit t = db_fail_commit s2"
    "list_all stl_is_finished (list_settlements_by_auction U (stl_auction_id y) t) \<longrightarrow>
      get_auction (stl_auction_id y) t = Inr c \<and> auc_status c = AucSettled"
  proof (rule finish_auction_closes [OF assms(1,2), where s = s2 and a = a and i = "stl_auction_id y"])
    show "keyed auc_id (db_auctions s2)" using keyed(2) by (simp add: kept)
    show "get_auction (stl_auction_id y) s2 = Inr a" using rows(3) by (simp add: get_auction_def kept)
    show "auc_status a \<in> {AucSettling, AucSettled}" by (rule rows(4))
  qed (rule that)
  have "account U rq x s = (Inr y, t)"
    using assms(4,5) update s2(1) t(1) y
    by (simp add: account_def in_tx_Inr account_tx_def stl_is_finished_def stl_state_finished_def t(2) commit2)
  moreover have "books_closed U t y"
    using finish_auction_Inr [OF t(1)] s2(3,4) t(3) y
    by (auto simp: books_closed_def get_settlement_def get_invoice_def kept s1_def fetch_Inr stl_is_finished_def
        stl_state_finished_def)
  ultimately show thesis by (rule that)
qed

section \<open>Progress\<close>

context answering_executor
begin

text \<open>A plan a delivery can take further.\<close>

definition handleable :: "uuid_ops \<Rightarrow> settlement \<Rightarrow> 'd store \<Rightarrow> 'n \<Rightarrow> bool" where
  "handleable U x s n \<longleftrightarrow> closable s x \<and> get_settlement (stl_id x) s = Inr x \<and> stl_sound x \<and> ready n \<and>
     (if stl_is_submitted x then confirmed n (stl_tx_id x)
      else \<forall>a. get_asset (stl_asset_id x) s = Inr a \<longrightarrow> validate_order (order_of U a x) = Inr ())"

lemma store_step_of_succeeds:
  assumes "handleable U x s n" and "stl_exec c x = Inr y" and "stl_is_submitted y" and "ready m"
    and "confirmed m (stl_tx_id y)"
  obtains t where "store_step_of (stl_exec c) x s = (Inr y, t)" and "handleable U y t m"
proof -
  have plan: "stl_id y = stl_id x" "stl_invoice_id y = stl_invoice_id x" "stl_auction_id y = stl_auction_id x"
    "stl_asset_id y = stl_asset_id x"
    using stl_exec_plan [OF assms(2)] by (simp_all add: stl_plan_def)
  define t where "t = s\<lparr>db_settlements := table_put (stl_id x) y (db_settlements s)\<rparr>"
  have "update_settlement y (stl_version x) s = Inr t"
    using assms(1) by (auto simp: update_settlement_Inr plan t_def handleable_def)
  moreover have "keyed stl_id (db_settlements t)"
    using keyed_put [of stl_id "db_settlements s" y] assms(1) by (simp add: t_def plan handleable_def closable_def)
  moreover have "stl_sound y" using stl_sound_step [OF assms(2)] assms(1) by (simp add: handleable_def)
  ultimately show thesis
    using assms
    by (intro that [of t]) (auto simp: store_step_of_Inr handleable_def closable_def t_def plan get_settlement_def
        get_asset_def get_invoice_def get_auction_def fetch_Inr)
qed

lemma submit_succeeds:
  assumes "handleable U x s n" and "\<not> stl_is_submitted x"
  obtains y t n' where "advance U ex rq x (s, n) = (Inr y, t, n')" and "handleable U y t n'"
proof -
  obtain a where a: "get_asset (stl_asset_id x) s = Inr a" "validate_order (order_of U a x) = Inr ()"
    using assms by (auto simp: handleable_def closable_def)
  have ready: "ready n" using assms(1) by (simp add: handleable_def)
  obtain rc n' where rc: "ex_submit ex (order_of U a x) n = ((rc, None), n')" "ready n'" "rc_tx_id rc \<noteq> []"
    "trim_space (rc_tx_id rc) = rc_tx_id rc" "confirmed n' (rc_tx_id rc)"
    using submit_answers [OF ready a(2)] by blast
  have state: "stl_state x \<in> {StlPrepared, StlFailed}"
    using assms by (auto simp: handleable_def stl_sound_def stl_is_submitted_def)
  obtain y where y: "stl_exec (StlSubmit (rc_tx_id rc) (rq_now rq)) x = Inr y" "stl_tx_id y = rc_tx_id rc"
    using state rc(3,4) by (auto simp: stl_submit_def stl_transition_def stl_can_transition_def stl_touch_def)
  have "stl_is_submitted y" "confirmed n' (stl_tx_id y)" using y(2) rc(3,5) by (simp_all add: stl_is_submitted_def)
  then obtain t where "store_step_of (stl_exec (StlSubmit (rc_tx_id rc) (rq_now rq))) x s = (Inr y, t)"
    "handleable U y t n'"
    by (rule store_step_of_succeeds [OF assms(1) y(1) _ rc(2)])
  then show thesis
    using assms(2) a(1) rc(1) by (intro that [of y t n']) (simp_all add: advance_def submit_plan_def)
qed

lemma confirm_succeeds:
  assumes "handleable U x s n" and "stl_is_submitted x"
    and "stl_state x \<in> {StlSubmitted, StlFailed, StlConsensusConfirmed}"
  obtains y t where "advance U ex rq x (s, n) = (Inr y, t, n)" and "handleable U y t n"
proof -
  obtain rd where rd: "ex_lookup ex (stl_tx_id x) n = (Inr rd, n)" "rd_found rd" "rd_succeeded rd" "rd_credited rd = None"
    using lookup_answers [of n "stl_tx_id x"] assms(1,2) by (auto simp: handleable_def)
  define c where "c = (if stl_state x = StlConsensusConfirmed then StlConfirmMirror (rq_now rq)
    else StlConfirmConsensus (rq_now rq))"
  obtain y where y: "stl_exec c x = Inr y" "stl_tx_id y = stl_tx_id x"
    using assms(2,3) by (auto simp: c_def stl_confirm_consensus_def stl_confirm_mirror_def stl_transition_def
        stl_can_transition_def stl_touch_def)
  have "stl_is_submitted y" "ready n" "confirmed n (stl_tx_id y)"
    using y(2) assms(1,2) by (simp_all add: stl_is_submitted_def handleable_def)
  then obtain t where "store_step_of (stl_exec c) x s = (Inr y, t)" "handleable U y t n"
    by (rule store_step_of_succeeds [OF assms(1) y(1)])
  then show thesis
    using assms(2,3) rd
    by (intro that [of y t]) (auto simp: advance_def confirm_consensus_def confirm_mirror_def check_credit_def c_def)
qed

lemma handle_finishes:
  assumes "uuid_lib U" and "rq_now rq \<noteq> 0" and "handleable U x s n" and "\<not> stl_is_finished x"
  shows "\<exists>y t n'. handle_steps err_text U ex rq x (s, n) = (Inr (), t, n') \<and> stl_id y = stl_id x \<and> books_closed U t y"
  using assms(3,4)
proof (induction "steps_left x" arbitrary: x s n rule: less_induct)
  case less
  have unfold: "handle_steps err_text U ex rq x (s, n) = handle_steps err_text U ex rq y (t, n')"
    if "advance U ex rq x (s, n) = (Inr y, t, n')" for y t n'
    using that less.prems(2) by (simp add: handle_steps.simps [of _ _ _ _ x])
  have keyed: "keyed stl_id (db_settlements s)" "get_settlement (stl_id x) s = Inr x"
    using less.prems(1) by (simp_all add: handleable_def closable_def)
  show ?case
  proof (cases "stl_is_submitted x \<and> stl_state x = StlMirrorConfirmed")
    case True
    then obtain y t where y: "account U rq x s = (Inr y, t)" "books_closed U t y"
      using account_closes [OF assms(1,2), of s x] less.prems(1) by (auto simp: handleable_def)
    have step: "advance U ex rq x (s, n) = (Inr y, t, n)" using True y(1) by (simp add: advance_def)
    have "stl_is_finished y" using y(2) by (simp add: books_closed_def)
    then have "handle_steps err_text U ex rq x (s, n) = (Inr (), t, n)"
      by (simp add: unfold [OF step] handle_steps.simps [of _ _ _ _ y])
    then show ?thesis using y(2) advance_effect(3) [OF step keyed] by blast
  next
    case False
    have "stl_state x \<in> {StlSubmitted, StlFailed, StlConsensusConfirmed}" if "stl_is_submitted x"
      using that False less.prems
      by (cases "stl_state x") (auto simp: handleable_def stl_sound_def stl_is_submitted_def stl_is_finished_def
          stl_state_finished_def)
    then obtain y t n' where step: "advance U ex rq x (s, n) = (Inr y, t, n')" "handleable U y t n'"
      using submit_succeeds [OF less.prems(1)] confirm_succeeds [OF less.prems(1)] by metis
    have id: "stl_id y = stl_id x" by (rule advance_effect(3) [OF step(1) keyed])
    have moved: "steps_left y < steps_left x" by (rule advance_moves [OF step(1) less.prems(2)])
    have "\<not> stl_is_finished y"
      using step(1) False less.prems(2)
      by (cases rule: advance_Inr) (auto simp: stl_command_defs result_simps stl_is_finished_def stl_state_finished_def)
    then show ?thesis using less.hyps [OF moved step(2)] by (simp add: unfold [OF step(1)] id)
  qed
qed

end

section \<open>The in-process ledger answers\<close>

definition ledger_confirmed :: "local_ledger \<Rightarrow> string \<Rightarrow> bool" where
  "ledger_confirmed g tx \<longleftrightarrow> (\<exists>rd. map_of (lg_records g) tx = Some rd \<and> rd_found rd \<and> rd_succeeded rd \<and> rd_credited rd = None)"

definition ledger_ready :: "(string \<Rightarrow> string) \<Rightarrow> local_ledger \<Rightarrow> bool" where
  "ledger_ready H g \<longleftrightarrow> lg_fail_submit g = None \<and> lg_fail_lookup g = None \<and> \<not> lg_pending g \<and>
     (\<forall>op tx. map_of (lg_by_operation g) op = Some tx \<longrightarrow> tx = local_tx_id H op \<and> ledger_confirmed g tx)"

lemma local_tx_id_text: "local_tx_id H op \<noteq> []" "trim_space (local_tx_id H op) = local_tx_id H op"
proof -
  have "list_all visible_char local_tx_prefix" by code_simp
  then have "list_all visible_char (local_tx_id H op)"
    using hex_encode_visible by (simp add: local_tx_id_def)
  then show "trim_space (local_tx_id H op) = local_tx_id H op" by (rule trim_space_visible)
qed (simp add: local_tx_id_def local_tx_prefix_def)

interpretation local_answers: answering_executor "local_executor H now" "ledger_ready H" ledger_confirmed
  for H now
proof unfold_locales
  fix g r
  assume g: "ledger_ready H g" and r: "validate_order r = Inr ()"
  show "\<exists>rc n'. ex_submit (local_executor H now) r g = ((rc, None), n') \<and> ledger_ready H n' \<and> rc_tx_id rc \<noteq> [] \<and>
      trim_space (rc_tx_id rc) = rc_tx_id rc \<and> ledger_confirmed n' (rc_tx_id rc)"
  proof (cases "map_of (lg_by_operation g) (od_operation_id r)")
    case None
    then show ?thesis using g r
      by (auto simp: local_executor_def local_submit_def ledger_ready_def ledger_confirmed_def Let_def
          empty_receipt_def update_conv' local_tx_id_text)
  next
    case (Some tx)
    then have "tx = local_tx_id H (od_operation_id r)" using g by (simp add: ledger_ready_def)
    then have "tx \<noteq> []" "trim_space tx = tx" using local_tx_id_text [of H] by simp_all
    then show ?thesis using Some g r
      by (auto simp: local_executor_def local_submit_def ledger_ready_def ledger_confirmed_def Let_def
          empty_receipt_def)
  qed
next
  fix g tx
  assume "ledger_ready H g" and "ledger_confirmed g tx"
  then show "\<exists>rd. ex_lookup (local_executor H now) tx g = (Inr rd, g) \<and> rd_found rd \<and> rd_succeeded rd \<and> rd_credited rd = None"
    by (auto simp: local_executor_def local_lookup_def ledger_ready_def ledger_confirmed_def)
qed

section \<open>Properties\<close>


section \<open>A batch with one transfer\<close>

definition sample_plan :: settlement where
  "sample_plan = \<lparr>stl_id = 9, stl_auction_id = 5, stl_lot_id = 1, stl_bid_id = 7, stl_invoice_id = 2, stl_asset_id = 3,
     stl_investor_id = 8, stl_from_wallet = ''0xaa'', stl_to_wallet = ''0xbb'',
     stl_notional = \<lparr>minor = 26041, currency = ''USD''\<rparr>, stl_price = \<lparr>minor = 24999, currency = ''USD''\<rparr>,
     stl_operation_id = ''0x01'', stl_tx_id = [], stl_state = StlPrepared, stl_attempts = 0, stl_last_error = [],
     stl_version = 1, stl_created_at = 30, stl_updated_at = 30\<rparr>"

definition settling_store :: "rat store" where
  "settling_store = market_issued\<lparr>db_auctions := [(5, sample_auction\<lparr>auc_status := AucSettling\<rparr>)],
     db_invoices := [(2, market_invoice\<lparr>inv_status := InvAllocated\<rparr>)], db_settlements := [(9, sample_plan)]\<rparr>"

lemma settling_rows:
  "get_settlement 9 settling_store = Inr sample_plan" "\<not> stl_is_finished sample_plan"
  "\<not> stl_is_submitted sample_plan" "stl_sound sample_plan"
  "get_asset (stl_asset_id sample_plan) settling_store = Inr market_asset"
  "validate_order (order_of rfc_uuid market_asset sample_plan) = Inr ()"
  "get_invoice (stl_invoice_id sample_plan) settling_store = Inr (market_invoice\<lparr>inv_status := InvAllocated\<rparr>)"
  "get_auction (stl_auction_id sample_plan) settling_store = Inr (sample_auction\<lparr>auc_status := AucSettling\<rparr>)"
  "db_fail_commit settling_store = None"
  by code_simp+

lemma settling_keyed: "store_keyed settling_store"
  using market_issued_keyed
  by (simp add: store_keyed_def settling_store_def keyed_def sample_plan_def market_invoice_def sample_auction_def)

lemma settling_closable: "closable settling_store sample_plan"
  using settling_keyed by (auto simp: closable_def settling_rows store_keyed_def)



section \<open>A cleared batch\<close>

definition sample_member :: "uuid \<Rightarrow> string \<Rightarrow> organization" where
  "sample_member i wallet = \<lparr>org_id = i, org_type = OrgIssuer, org_name = ''n'', org_wallet = wallet,
     org_eligibility = EligEligible, org_reason = [], org_chain_account = [], org_version = 1,
     org_created_at = 1, org_updated_at = 1\<rparr>"

definition cleared_auction :: auction where
  "cleared_auction = sample_auction\<lparr>auc_status := AucCleared, auc_certificate_hash := sample_hash\<rparr>"

definition cleared_store :: "rat store" where
  "cleared_store = empty_store\<lparr>db_auctions := [(5, cleared_auction)], db_solutions := [(5, market_solution)],
     db_organizations := [(4, sample_member 4 ''0xaa''), (8, sample_member 8 ''0xbb'')]\<rparr>"

lemma cleared_keyed: "store_keyed cleared_store"
  by (simp add: store_keyed_def cleared_store_def empty_store_def keyed_def cleared_auction_def sample_auction_def
      sample_member_def market_solution_def sample_clearing_result_def sample_solution_def)

lemma cleared_rows:
  "get_auction 5 cleared_store = Inr cleared_auction" "auc_id cleared_auction = 5" "auc_issuer_id cleared_auction = 4"
  "auc_status cleared_auction = AucCleared" "list_settlements_by_auction rfc_uuid 5 cleared_store = []"
  "get_solution 5 cleared_store = Inr market_solution" "wallet_of 4 cleared_store = Inr ''0xaa''"
  "db_settlements cleared_store = []" "db_outbox cleared_store = \<lparr>ot_rows = [], ot_next = 1\<rparr>"
  "may_act_for market_issuer 4"
  by code_simp+

lemma cleared_plan:
  "\<exists>al x. sol_allocations market_solution = [al] \<and>
    plan_transfer id rfc_uuid rat_decimal market_request cleared_auction ''0xaa'' 0 al cleared_store = Inr x \<and>
    \<not> stl_is_finished x"
proof -
  have trimmed: "trim_space ''0xaa'' = ''0xaa''" "trim_space ''0xbb'' = ''0xbb''" by code_simp+
  obtain al where al: "sol_allocations market_solution = [al]" "al_investor_id al = 8" "al_lot_id al = 1"
    "al_bid_id al = 7" "al_invoice_id al = 2" "al_asset_id al = 3" "al_notional al = \<lparr>minor = 26041, currency = ''USD''\<rparr>"
    "al_price al = \<lparr>minor = 24999, currency = ''USD''\<rparr>"
    by (simp add: market_solution_def sample_clearing_result_def sample_solution_def)
  have "wallet_of 8 cleared_store = Inr ''0xbb''" by code_simp
  then show ?thesis
    using al ratd.amount_string_eq [of "\<lparr>minor = 26041, currency = ''USD''\<rparr>" 2]
    by (simp add: plan_transfer_def new_settlement_def Let_def trimmed market_request_def cleared_rows checked_def
        violation_def amount_valid_def currency_valid_cases amount_positive_def operation_id_def
        operation_preimage_def currency_exponents_def to_lower_def lower_char_def stl_is_finished_def
        stl_state_finished_def)
qed

lemma cleared_settles:
  "\<exists>planned t. settle_auction id rfc_uuid rat_decimal market_request market_issuer 5 ''t-1'' cleared_store = (Inr planned, t)"
proof -
  obtain al x where x: "sol_allocations market_solution = [al]" "\<not> stl_is_finished x"
    "plan_transfer id rfc_uuid rat_decimal market_request cleared_auction ''0xaa'' 0 al cleared_store = Inr x"
    using cleared_plan by blast
  have now: "rq_now market_request = 25" by (simp add: market_request_def)
  have "\<not> isl (start_settling 25 cleared_auction)" by code_simp
  then obtain a' where a': "start_settling 25 cleared_auction = Inr a'" by (auto simp: not_isl_iff)
  then have id: "auc_id a' = 5" using start_settling_Inr(1) [OF a'] by (simp add: auc_facts_def cleared_rows)
  define s1 where "s1 = cleared_store\<lparr>db_settlements := [(stl_id x, x)]\<rparr>"
  have s1: "create_settlement x cleared_store = Inr s1"
    by (simp add: create_settlement_def cleared_rows table_rows_def table_put_def s1_def)
  define s2 where "s2 = s1\<lparr>db_auctions := table_put 5 a' (db_auctions s1)\<rparr>"
  have "get_auction 5 s1 = Inr cleared_auction" using cleared_rows(1) by (simp add: s1_def get_auction_def)
  then have s2: "update_auction a' (auc_version cleared_auction) s1 = Inr s2"
    by (auto simp: update_auction_Inr id s2_def)
  have words: "trim_space action_settlement_planned \<noteq> []" by code_simp
  have "db_fail_commit cleared_store = None" by (simp add: cleared_store_def empty_store_def)
  then have commits: "db_fail_commit s2 = None" by (simp add: s2_def s1_def)
  show ?thesis
    by (simp add: settle_auction_def settle_auction_tx_def cleared_rows x a' s1 s2 plan_allocation_def in_tx_def now
        rfc.annotate_valid words queue_settlements_def queue_settlement_def publish_command_def publish_def
        topic_settle_text commits)
qed

theorem settling_plans_each_allocation_once_witness:
  "\<exists>planned t. settle_auction id rfc_uuid rat_decimal market_request market_issuer 5 ''t-1'' cleared_store = (Inr planned, t) \<and>
    list_all2 (planned_as 5) (sol_allocations market_solution) planned"
proof -
  obtain planned t where run: "settle_auction id rfc_uuid rat_decimal market_request market_issuer 5 ''t-1'' cleared_store =
      (Inr planned, t)" using cleared_settles by blast
  from settling_plans_each_allocation_once [OF cleared_keyed this] show ?thesis
    using run by (auto simp: cleared_rows)
qed

end
