(* ===== verification/Collections_Facts.thy ===== *)
theory Collections_Facts
  imports Collections Settling_Progress
begin

text \<open>
  What a recorded payment does: the holders it is divided among are the parties whose transfers have finished,
  each for what it was sold, and the issuer for the rest. Once a receivable is closed it stays closed, and
  a transfer of it that was still in flight can never be accounted for.
\<close>

section \<open>Positions\<close>

definition finished_for :: "uuid \<Rightarrow> settlement \<Rightarrow> bool" where
  "finished_for i x \<longleftrightarrow> stl_invoice_id x = i \<and> stl_is_finished x"

lemma finished_for_eq: "finished_for i = (\<lambda>x. stl_invoice_id x = i \<and> stl_is_finished x)"
  by (auto simp: finished_for_def)

abbreviation face_of :: "settlement \<Rightarrow> int" where "face_of x \<equiv> minor (stl_notional x)"

definition sold_of :: "uuid \<Rightarrow> 'd store \<Rightarrow> int" where
  "sold_of i s = sum_list (map face_of (filter (finished_for i) (table_rows (db_settlements s))))"

definition position_of :: "uuid \<Rightarrow> uuid \<Rightarrow> 'd store \<Rightarrow> int" where
  "position_of i party s =
    sum_list (map face_of (filter (\<lambda>x. finished_for i x \<and> stl_investor_id x = party) (table_rows (db_settlements s))))"

text \<open>What a party owns of a receivable: what it was sold, and for the issuer what nobody was.\<close>

definition stake_of :: "invoice \<Rightarrow> uuid \<Rightarrow> 'd store \<Rightarrow> int" where
  "stake_of v party s = position_of (inv_id v) party s
    + (if party = inv_issuer v then minor (inv_face v) - sold_of (inv_id v) s else 0)"

definition amounts_fit :: "'d store \<Rightarrow> bool" where
  "amounts_fit s \<longleftrightarrow> (\<forall>x \<in> set (table_rows (db_settlements s)). in64 (face_of x)) \<and>
    (\<forall>v \<in> set (table_rows (db_invoices s)). in64 (minor (inv_face v)))"

section \<open>The positions the code adds up\<close>

definition held_value :: "(uuid, amount) table \<Rightarrow> uuid \<Rightarrow> int" where
  "held_value held party = (case map_of held party of None \<Rightarrow> 0 | Some a \<Rightarrow> minor a)"

abbreviation held_total :: "(uuid, amount) table \<Rightarrow> int" where
  "held_total held \<equiv> sum_list (map (\<lambda>a. minor (snd a)) held)"

definition held_ok :: "(uuid, amount) table \<Rightarrow> bool" where
  "held_ok held \<longleftrightarrow> distinct (map fst held) \<and> (\<forall>a \<in> snd ` set held. in64 (minor a))"

lemma held_total_update:
  "distinct (map fst held) \<Longrightarrow>
    held_total (table_put party a held) = held_total held - held_value held party + minor a"
  unfolding table_put_def held_value_def by (induction held) auto

lemma held_value_put: "held_value (table_put party a held) q = (if q = party then minor a else held_value held q)"
  by (simp add: held_value_def table_put_def update_conv)

lemma snd_update: "snd ` set (AList.update k v t) \<subseteq> insert v (snd ` set t)"
  by (induction t) auto

lemma held_ok_put:
  assumes "held_ok held" and "in64 (minor a)" shows "held_ok (table_put party a held)"
  unfolding held_ok_def table_put_def
proof
  show "distinct (map fst (AList.update party a held))" using assms(1) by (simp add: held_ok_def distinct_update)
  show "\<forall>b \<in> snd ` set (AList.update party a held). in64 (minor b)"
    using snd_update [of party a held] assms by (fastforce simp: held_ok_def simp del: image_iff)
qed

lemma held_lookup:
  "held_ok held \<Longrightarrow> map_of held party = Some x \<Longrightarrow> in64 (minor x) \<and> minor x = held_value held party"
  by (force simp: held_ok_def held_value_def dest: map_of_SomeD)

lemma add_position_Inr:
  assumes "add_position c party a held = Inr held'" and "held_ok held" and "in64 (minor a)"
  shows "held_ok held'" and "held_value held' q = held_value held q + (if q = party then minor a else 0)"
    and "held_total held' = held_total held + minor a" and "fst ` set held' = insert party (fst ` set held)"
proof -
  obtain current raised where c: "(case map_of held party of None \<Rightarrow> amount_zero c | Some x \<Rightarrow> Inr x) = Inr current"
    and r: "amount_add current a = Inr raised" "held' = table_put party raised held"
    using assms(1) by (auto simp: add_position_def and_then_Inr_iff)
  have "in64 (minor current) \<and> minor current = held_value held party"
    using c held_lookup [OF assms(2), of party current]
    by (cases "map_of held party")
      (auto simp: held_value_def amount_zero_def must_new_def amount_new_def in64_def min64_def max64_def
        split: sum.splits if_splits)
  then have m: "minor raised = held_value held party + minor a" "in64 (minor raised)"
    using amount_add_Inr [OF r(1) _ assms(3)] by auto
  show "held_ok held'" using held_ok_put [OF assms(2) m(2)] by (simp add: r(2))
  show "held_value held' q = held_value held q + (if q = party then minor a else 0)"
    by (simp add: r(2) held_value_put m(1))
  show "held_total held' = held_total held + minor a"
    using assms(2) by (simp add: r(2) held_total_update held_ok_def m(1))
  show "fst ` set held' = insert party (fst ` set held)"
    using dom_update [of party raised held] by (simp add: r(2) table_put_def dom_map_of_conv_image_fst)
qed

lemma add_transfer_turn:
  "\<not> stl_is_finished x \<Longrightarrow> add_transfer c x hs = Inr hs"
  "stl_is_finished x \<Longrightarrow> add_transfer c x (held, sold) =
    and_then (add_position c (stl_investor_id x) (stl_notional x) held) (\<lambda>held'.
    and_then (amount_add sold (stl_notional x)) (\<lambda>sold'. Inr (held', sold')))"
  by (auto simp: add_transfer_def)

lemma add_transfers_Inr:
  assumes "fold_result (add_transfer c) xs (held, sold) = Inr (held', sold')" and "held_ok held" and "in64 (minor sold)"
    and "\<forall>x \<in> set xs. in64 (face_of x)"
  shows "held_ok held' \<and> in64 (minor sold') \<and>
    (\<forall>q. held_value held' q = held_value held q +
      sum_list (map face_of (filter (\<lambda>x. stl_is_finished x \<and> stl_investor_id x = q) xs))) \<and>
    held_total held' = held_total held + sum_list (map face_of (filter stl_is_finished xs)) \<and>
    minor sold + sum_list (map face_of (filter stl_is_finished xs)) = minor sold' \<and>
    fst ` set held' = fst ` set held \<union> stl_investor_id ` set (filter stl_is_finished xs)"
  using assms
proof (induction xs arbitrary: held sold)
  case (Cons x xs)
  show ?case
  proof (cases "stl_is_finished x")
    case False
    have rest: "fold_result (add_transfer c) xs (held, sold) = Inr (held', sold')"
      using Cons.prems(1) False by (simp add: add_transfer_turn)
    have "\<forall>x \<in> set xs. in64 (face_of x)" using Cons.prems(4) by simp
    from Cons.IH [OF rest Cons.prems(2,3) this] False show ?thesis by simp
  next
    case True
    obtain h1 s1 where step: "add_position c (stl_investor_id x) (stl_notional x) held = Inr h1"
      "amount_add sold (stl_notional x) = Inr s1" "fold_result (add_transfer c) xs (h1, s1) = Inr (held', sold')"
      using Cons.prems(1) True by (auto simp: add_transfer_turn and_then_Inr_iff)
    have fits: "in64 (face_of x)" using Cons.prems(4) by simp
    note pos = add_position_Inr [OF step(1) Cons.prems(2) fits]
    note sum = amount_add_Inr [OF step(2) Cons.prems(3) fits]
    have "\<forall>x \<in> set xs. in64 (face_of x)" using Cons.prems(4) by simp
    from Cons.IH [OF step(3) pos(1) sum(5) this] True show ?thesis by (auto simp: pos(2,3,4) sum(1) add.assoc)
  qed
qed simp

text \<open>Reading through the index of the table or through its rows adds up the same.\<close>

lemma sum_settlements_of:
  "sum_list (map face_of (filter P (list_settlements_by_invoice U i s))) =
    sum_list (map face_of (filter (\<lambda>x. stl_invoice_id x = i \<and> P x) (table_rows (db_settlements s))))"
proof -
  let ?of = "filter (\<lambda>x. stl_invoice_id x = i) (table_rows (db_settlements s))"
  have "mset (list_settlements_by_invoice U i s) = mset ?of"
    by (simp add: list_settlements_by_invoice_def settlements_where_def truncate_rows_def)
  then have "mset (map face_of (filter P (list_settlements_by_invoice U i s))) = mset (map face_of (filter P ?of))"
    by (simp only: mset_map mset_filter)
  from arg_cong [OF this, of sum_mset] show ?thesis
    by (simp only: sum_mset_sum_list filter_filter)
qed

text \<open>The holders: each party once, for its stake, and together for the whole face.\<close>

lemma holders_of_Inr:
  assumes "holders_of U v s = Inr hs" and "amounts_fit s" and "in64 (minor (inv_face v))"
  shows "\<forall>h \<in> set hs. minor (h_notional h) = stake_of v (h_party h) s"
    and "holders_total hs = minor (inv_face v)"
    and "stake_of v party s \<noteq> 0 \<Longrightarrow> party \<in> h_party ` set hs"
proof -
  let ?c = "currency (inv_face v)" and ?xs = "list_settlements_by_invoice U (inv_id v) s"
  let ?entry = "\<lambda>(party, notional). \<lparr>h_party = party, h_notional = notional\<rparr>"
  obtain zero held sold retained all where run: "amount_zero ?c = Inr zero"
    "fold_result (add_transfer ?c) ?xs ([], zero) = Inr (held, sold)" "amount_sub (inv_face v) sold = Inr retained"
    "\<not> amount_negative retained"
    "(if amount_positive retained then add_position ?c (inv_issuer v) retained held else Inr held) = Inr all"
    and hs: "hs = sort_by (\<lambda>x y. uuid_string U (h_party x) < uuid_string U (h_party y)) (map ?entry all)"
    using assms(1) by (auto simp: holders_of_def Let_def and_then_Inr_iff split: if_splits)
  have zero: "minor zero = 0"
    using run(1) by (auto simp: amount_zero_def must_new_def amount_new_def split: sum.splits if_splits)
  have "set ?xs \<subseteq> set (table_rows (db_settlements s))"
    by (auto simp: list_settlements_by_invoice_def settlements_where_def truncate_rows_def)
  then have fits: "\<forall>x \<in> set ?xs. in64 (face_of x)" using assms(2) by (auto simp: amounts_fit_def)
  have "held_ok []" "in64 (minor zero)" by (simp_all add: held_ok_def zero in64_def min64_def max64_def)
  note adds = add_transfers_Inr [OF run(2) this fits]
  have sold: "minor sold = sold_of (inv_id v) s" and sold_fits: "in64 (minor sold)"
    using adds sum_settlements_of [of stl_is_finished U "inv_id v" s]
    by (simp_all add: zero sold_of_def finished_for_eq)
  have position: "held_value held q = position_of (inv_id v) q s" for q
    using adds sum_settlements_of [of "\<lambda>x. stl_is_finished x \<and> stl_investor_id x = q" U "inv_id v" s]
    by (simp add: position_of_def finished_for_def held_value_def [of "[]"] conj_assoc)
  have held_total: "held_total held = minor sold" using adds by (simp add: zero)
  have held: "held_ok held" using adds by blast
  have retained: "minor retained = minor (inv_face v) - minor sold" "in64 (minor retained)"
    using amount_sub_Inr [OF run(3) assms(3) sold_fits] by simp_all
  have all: "held_ok all" "held_value all q = stake_of v q s" "held_total all = minor (inv_face v)" for q
  proof -
    have "held_ok all \<and> held_value all q = stake_of v q s \<and> held_total all = minor (inv_face v)"
    proof (cases "amount_positive retained")
      case True
      then have "add_position ?c (inv_issuer v) retained held = Inr all" using run(5) by simp
      note pos = add_position_Inr [OF this held retained(2)]
      show ?thesis using pos(1,2,3) by (simp add: position stake_of_def retained(1) sold held_total)
    next
      case False
      then have "minor retained = 0" using run(4) by (simp add: amount_positive_def amount_negative_def)
      moreover have "all = held" using False run(5) by simp
      ultimately show ?thesis using retained(1) held
        by (simp add: position stake_of_def sold [symmetric] held_total)
    qed
    then show "held_ok all" "held_value all q = stake_of v q s" "held_total all = minor (inv_face v)" by blast+
  qed
  have entry: "map_of all (fst e) = Some (snd e)" if "e \<in> set all" for e
    using all(1) that by (cases e) (simp add: held_ok_def)
  have "minor (snd e) = stake_of v (fst e) s" if "e \<in> set all" for e
    using all(2) [of "fst e"] entry [OF that] by (simp add: held_value_def)
  then show "\<forall>h \<in> set hs. minor (h_notional h) = stake_of v (h_party h) s"
    by (auto simp: hs)
  have "mset hs = mset (map ?entry all)" by (simp add: hs)
  then have "holders_total hs = holders_total (map ?entry all)"
    unfolding holders_total_def by (rule sum_list_mset_cong)
  then have "holders_total hs = held_total all" by (simp add: holders_total_def comp_def case_prod_unfold)
  then show "holders_total hs = minor (inv_face v)" using all(3) by simp
  show "party \<in> h_party ` set hs" if "stake_of v party s \<noteq> 0"
  proof -
    have "map_of all party \<noteq> None"
      using that all(2) [of party] by (auto simp: held_value_def split: option.splits)
    then have "party \<in> fst ` set all" by (simp add: map_of_eq_None_iff)
    then show ?thesis by (force simp: hs)
  qed
qed

section \<open>What a recorded payment does\<close>

lemma close_receivable_Inr:
  assumes "close_receivable D now r v = Inr w"
  shows "reaches inv_exec v w" and "inv_id w = inv_id v" and "inv_issuer w = inv_issuer v"
    and "inv_status w = (if is_shortfall r then InvDefaulted else InvMatured)"
proof -
  have "(\<exists>c. inv_exec c v = Inr w) \<and> inv_id w = inv_id v \<and> inv_issuer w = inv_issuer v \<and>
      inv_status w = (if is_shortfall r then InvDefaulted else InvMatured)"
  proof (cases "is_shortfall r")
    case True
    then obtain reason where "mark_defaulted reason now v = Inr w"
      using assms by (auto simp: close_receivable_def and_then_Inr_iff)
    then show ?thesis using True exI [of "\<lambda>c. inv_exec c v = Inr w" "MarkDefaulted reason now"]
      by (auto simp: mark_defaulted_def and_then_Inr_iff inv_transition_Inr)
  next
    case False
    then have "mark_matured now v = Inr w" using assms by (simp add: close_receivable_def)
    then show ?thesis using False exI [of "\<lambda>c. inv_exec c v = Inr w" "MarkMatured now"]
      by (auto simp: mark_matured_def inv_transition_Inr)
  qed
  then show "reaches inv_exec v w" and "inv_id w = inv_id v" and "inv_issuer w = inv_issuer v"
    and "inv_status w = (if is_shortfall r then InvDefaulted else InvMatured)"
    using inv_step by blast+
qed

lemma record_payment_Inr:
  assumes "record_payment H U D rq who p s = (Inr (r, w), t)" and "get_repayment_by_invoice (py_invoice_id p) s = Inl e"
    and "keyed inv_id (db_invoices s)"
  obtains v hs s1 s2 where "ac_operator who" and "get_invoice (py_invoice_id p) s = Inr v" and "inv_status v = InvSettled"
    and "inv_id v = py_invoice_id p"
    and "holders_of U v s = Inr hs"
    and "new_repayment U \<lparr>nrp_id = rq_ids rq 0, nrp_invoice_id = inv_id v, nrp_face = inv_face v,
           nrp_amount = py_amount p, nrp_reference = py_reference p, nrp_received_at = py_received_at p,
           nrp_recorded_by = ac_organization_id who, nrp_holders = hs\<rparr> (rq_now rq) = Inr r"
    and "create_repayment r s = Inr s1" and "close_receivable D (rq_now rq) r v = Inr w"
    and "update_invoice w (inv_version v) s1 = Inr s2" and "\<exists>ev. record_event ev s2 = Inr t"
proof -
  have op: "ac_operator who" and tx: "record_payment_tx H U D rq who p s = Inr ((r, w), t)"
    using assms(1) by (auto simp: record_payment_def in_tx_Inr split: if_splits)
  then obtain v where v: "get_invoice (py_invoice_id p) s = Inr v"
    by (auto simp: record_payment_tx_def and_then_Inr_iff)
  then have id: "inv_id v = py_invoice_id p"
    using keyed_lookup [OF assms(3)] by (auto simp: get_invoice_def result_simps)
  have "record_new_payment H U D rq who p v s = Inr ((r, w), t)"
    using tx v assms(2) by (simp add: record_payment_tx_def id split: if_splits)
  then show thesis using that [OF op v _ id] by (auto simp: record_new_payment_def and_then_Inr_iff split: if_splits)
qed

lemma record_payment_writes:
  assumes "record_payment H U D rq who p s = (r, t)" and "keyed inv_id (db_invoices s)"
  shows "writes H s t"
proof (cases "ac_operator who")
  case True
  then have tx: "in_tx (record_payment_tx H U D rq who p) s = (r, t)" using assms(1) by (simp add: record_payment_def)
  show ?thesis
  proof (rule in_tx_writes [OF tx])
    fix x u
    assume run: "record_payment_tx H U D rq who p s = Inr (x, u)"
    obtain v where v: "get_invoice (py_invoice_id p) s = Inr v" using run by (auto simp: record_payment_tx_def and_then_Inr_iff)
    show "writes H s u"
    proof (cases "get_repayment_by_invoice (inv_id v) s")
      case (Inr r)
      then show ?thesis using run v by (auto simp: record_payment_tx_def split: if_splits)
    next
      case (Inl e)
      then obtain r w s1 s2 ev where steps: "create_repayment r s = Inr s1" "close_receivable D (rq_now rq) r v = Inr w"
        "update_invoice w (inv_version v) s1 = Inr s2" "record_event ev s2 = Inr u"
        using run v by (auto simp: record_payment_tx_def record_new_payment_def and_then_Inr_iff split: if_splits)
      have "get_invoice (py_invoice_id p) s1 = Inr v"
        using v steps(1) by (auto simp: create_repayment_def get_invoice_def split: if_splits)
      then have "sound_write H s1 s2" by (rule write_invoice [OF _ close_receivable_Inr(1) [OF steps(2)] steps(3)])
      then show ?thesis using write_repayment [OF steps(1)] write_event [OF steps(4)]
        by (blast intro: rtranclp.rtrancl_into_rtrancl)
    qed
  qed
qed (use assms in \<open>simp add: record_payment_def\<close>)

lemma default_receivable_writes:
  assumes "default_receivable H U rq who i reason s = (r, t)" shows "writes H s t"
proof (cases "ac_operator who")
  case True
  then have tx: "in_tx (default_receivable_tx H U rq who i reason) s = (r, t)"
    using assms(1) by (simp add: default_receivable_def)
  show ?thesis
  proof (rule in_tx_writes [OF tx])
    fix x u
    assume "default_receivable_tx H U rq who i reason s = Inr (x, u)"
    then obtain v w s1 ev where steps: "get_invoice i s = Inr v" "mark_defaulted reason (rq_now rq) v = Inr w"
      "update_invoice w (inv_version v) s = Inr s1" "record_event ev s1 = Inr u"
      by (auto simp: default_receivable_tx_def and_then_Inr_iff split: if_splits)
    have "reaches inv_exec v w" by (rule inv_step [of "MarkDefaulted reason (rq_now rq)"]) (simp add: steps(2))
    from write_invoice [OF steps(1) this steps(3)] write_event [OF steps(4)] show "writes H s u"
      by (blast intro: rtranclp.rtrancl_into_rtrancl)
  qed
qed (use assms in \<open>simp add: default_receivable_def\<close>)

text \<open>A repayment that was built divides its amount among its holders.\<close>

lemma new_repayment_Inr:
  assumes "new_repayment U p now = Inr r"
  shows "distribute U (nrp_amount p) (nrp_holders p) = Inr (rp_shares r)" and "rp_amount r = nrp_amount p"
    and "rp_face r = nrp_face p" and "rp_invoice_id r = nrp_invoice_id p" and "0 < minor (nrp_face p)"
    and "is_shortfall r \<longleftrightarrow> minor (nrp_amount p) < minor (nrp_face p)"
  using assms
  by (auto simp: new_repayment_def Let_def result_simps amount_cmp_def assert_same_currency_def is_shortfall_def
      amount_valid_def amount_positive_def split: if_splits)

lemma divided_shares:
  assumes "distribute U amount hs = Inr shares" and "in64 (minor amount)"
  shows "sum_list (map (\<lambda>x. minor (sh_amount x)) shares) = minor amount"
    and "x \<in> set shares \<Longrightarrow> \<exists>h \<in> set hs. sh_party x = h_party h \<and> sh_notional x = h_notional h \<and>
      0 \<le> minor (sh_amount x) \<and>
      \<bar>minor (sh_amount x) * holders_total hs - minor amount * minor (h_notional h)\<bar> < holders_total hs"
    and "sh_party ` set shares = h_party ` set hs" and "h \<in> set hs \<Longrightarrow> 0 < minor (h_notional h)"
proof -
  note ok = distribute_Inr_ok [OF assms(1)]
  have shares: "shares = map (fair_share U amount hs) hs" using distribute_eq [OF ok assms(2), of U] assms(1) by simp
  show "sum_list (map (\<lambda>x. minor (sh_amount x)) shares) = minor amount"
    using fair_shares_sum [OF ok, of U] by (simp add: shares comp_def)
  show "\<exists>h \<in> set hs. sh_party x = h_party h \<and> sh_notional x = h_notional h \<and> 0 \<le> minor (sh_amount x) \<and>
      \<bar>minor (sh_amount x) * holders_total hs - minor amount * minor (h_notional h)\<bar> < holders_total hs"
    if x: "x \<in> set shares"
  proof -
    have "length shares = length hs" by (simp add: shares)
    moreover obtain i where "i < length shares" "shares ! i = x" using x unfolding in_set_conv_nth by blast
    ultimately have i: "i < length hs" "x = shares ! i" by simp_all
    then have "sh_notional x = h_notional (hs ! i)" by (simp add: shares fair_share_def)
    then show ?thesis using share_near_proportion [OF assms(2,1) i(1)] i by auto
  qed
  show "sh_party ` set shares = h_party ` set hs" by (simp add: shares fair_share_def image_image)
  show "h \<in> set hs \<Longrightarrow> 0 < minor (h_notional h)" by (rule notional_pos [OF ok])
qed

lemma holds_share_iff: "holds_share r party \<longleftrightarrow> party \<in> sh_party ` set (rp_shares r)"
  by (auto simp: holds_share_def share_of_def find_None_iff)

section \<open>A closed receivable\<close>

definition receivable_closed :: "'d store \<Rightarrow> uuid \<Rightarrow> bool" where
  "receivable_closed s i \<longleftrightarrow> (\<exists>v. get_invoice i s = Inr v \<and> inv_status v \<in> {InvMatured, InvDefaulted})"

lemma closed_exec: "inv_exec c v = Inr w \<Longrightarrow> inv_status v \<notin> {InvMatured, InvDefaulted}"
  by (cases c; cases "inv_status v") (auto simp: inv_command_defs inv_can_transition_def result_simps split: if_splits)

lemma closed_reaches: "reaches inv_exec v w \<Longrightarrow> inv_status v \<in> {InvMatured, InvDefaulted} \<Longrightarrow> w = v"
  by (induction rule: reaches.induct) (use closed_exec in blast)+

lemma invoice_writes:
  assumes "store_step H s t"
  shows "db_invoices t = db_invoices s \<or> (\<exists>v. create_invoice H v s = Inr t) \<or>
    (\<exists>i v v' e. get_invoice i s = Inr v \<and> reaches inv_exec v v' \<and> update_invoice v' e s = Inr t)"
  using assms
proof cases
  case (step_create_invoice v)
  then show ?thesis by blast
next
  case (step_invoice i v v' e)
  then show ?thesis by blast
qed (auto simp: repository_defs result_simps Let_def split: option.splits)

text \<open>No write of the program opens it again.\<close>

lemma closed_step:
  assumes "store_step H s t" and "store_keyed s" and "receivable_closed s i" shows "receivable_closed t i"
  using invoice_writes [OF assms(1)]
proof (elim disjE exE conjE)
  assume "db_invoices t = db_invoices s"
  then show ?thesis using assms(3) by (simp add: receivable_closed_def get_invoice_def)
next
  fix v
  assume "create_invoice H v s = Inr t"
  then show ?thesis using assms(3)
    by (auto simp: create_invoice_def receivable_closed_def get_invoice_def fetch_Inr split: if_splits)
next
  fix j v v' e
  assume v: "get_invoice j s = Inr v" "reaches inv_exec v v'" "update_invoice v' e s = Inr t"
  have j: "inv_id v = j"
    using v(1) assms(2) keyed_lookup by (auto simp: store_keyed_def get_invoice_def fetch_Inr)
  obtain w where w: "get_invoice i s = Inr w" "inv_status w \<in> {InvMatured, InvDefaulted}"
    using assms(3) by (auto simp: receivable_closed_def)
  show ?thesis
  proof (cases "inv_id v' = i")
    case False
    then show ?thesis using v(3) w by (auto simp: update_invoice_Inr receivable_closed_def get_invoice_def fetch_Inr)
  next
    case True
    have "inv_id v' = inv_id v" using advanced_facts(2) [OF v(2)] by (simp add: inv_terms_def)
    then have "v = w" using v(1) w(1) j True by simp
    then have "v' = w" using closed_reaches [OF v(2)] w(2) by simp
    then show ?thesis using v(3) w True by (auto simp: update_invoice_Inr receivable_closed_def get_invoice_def fetch_Inr)
  qed
qed

lemma closed_always:
  assumes "(store_step H)\<^sup>*\<^sup>* s t" and "store_keyed s" and "receivable_closed s i"
  shows "store_keyed t \<and> receivable_closed t i"
  using assms(1)
proof (induction rule: rtranclp_induct)
  case base
  then show ?case using assms(2,3) by blast
next
  case (step t u)
  then show ?case using closed_step [OF step.hyps(2)] store_keyed_step by metis
qed

section \<open>A transfer that is still in flight\<close>

lemma account_refused:
  assumes "receivable_closed s (stl_invoice_id current)" and "get_settlement (stl_id plan) s = Inr current"
    and "\<not> stl_is_finished current"
  shows "account U rq plan s \<noteq> (Inr x, t)"
proof
  assume "account U rq plan s = (Inr x, t)"
  then show False
  proof (cases rule: account_Inr)
    case found
    then show ?thesis using assms(2,3) by simp
  next
    case (moved c s1 s2)
    then have c: "c = current" using assms(2) by simp
    have "stl_invoice_id x = stl_invoice_id current"
      using stl_exec_plan [of "StlAccount (rq_now rq)" current x] moved(3) c by (simp add: stl_plan_def)
    moreover have "db_invoices s1 = db_invoices s" using moved(4) by (auto simp: update_settlement_Inr)
    ultimately show ?thesis using finish_invoice_Inr(3) [OF moved(5)] assms(1)
      by (auto simp: receivable_closed_def get_invoice_def)
  qed
qed

definition in_flight :: "uuid \<Rightarrow> uuid \<Rightarrow> 'd store \<Rightarrow> bool" where
  "in_flight i j s \<longleftrightarrow> (\<exists>x. get_settlement j s = Inr x \<and> stl_invoice_id x = i \<and> \<not> stl_is_finished x)"

lemma in_flight_rollback [simp]: "in_flight i j (rollback s) = in_flight i j s"
  by (simp add: in_flight_def get_settlement_def rollback_def)

lemma unfinished_states: "stl_state x \<noteq> StlAccounted \<Longrightarrow> \<not> stl_is_finished x"
  by (cases "stl_state x") (simp_all add: stl_is_finished_def stl_state_finished_def)

lemma record_failure_in_flight:
  assumes "record_settle_failure err_text rq plan cause s = (e, t)" and "keyed stl_id (db_settlements s)"
    and "in_flight i (stl_id plan) s"
  shows "in_flight i (stl_id plan) t"
proof -
  obtain x where x: "get_settlement (stl_id plan) s = Inr x" "stl_invoice_id x = i" "\<not> stl_is_finished x"
    using assms(3) by (auto simp: in_flight_def)
  have id: "stl_id x = stl_id plan" using keyed_lookup [OF assms(2)] x(1) by (auto simp: get_settlement_def result_simps)
  let ?body = "\<lambda>s. and_then (get_settlement (stl_id plan) s) (\<lambda>current.
        if stl_is_finished current then Inr ((), s)
        else and_then (stl_fail (err_text cause) (rq_now rq) current) (\<lambda>x.
             and_then (update_settlement x (stl_version current) s) (\<lambda>t. Inr ((), t))))"
  obtain r where run: "in_tx ?body s = (r, t)"
    using assms(1) by (auto simp: record_settle_failure_def split: prod.splits sum.splits)
  show ?thesis
  proof (cases r)
    case (Inl e')
    then have "t = rollback s" using in_tx_error run by blast
    then show ?thesis using assms(3) by simp
  next
    case (Inr u)
    then have "?body s = Inr (u, t)" using run by (simp add: in_tx_Inr)
    then obtain y where y: "stl_fail (err_text cause) (rq_now rq) x = Inr y"
      "update_settlement y (stl_version x) s = Inr t" using x by (auto simp: and_then_Inr_iff)
    have plan: "stl_plan y = stl_plan x" using stl_exec_plan [of "StlFail (err_text cause) (rq_now rq)" x y] y(1) by simp
    have "stl_state y = StlFailed" using y(1) by (auto simp: stl_command_defs result_simps split: if_splits)
    then have "\<not> stl_is_finished y" by (simp add: unfinished_states)
    moreover have "stl_id y = stl_id plan" "stl_invoice_id y = i" using plan id x(2) by (simp_all add: stl_plan_def)
    ultimately show ?thesis using y(2)
      by (auto simp: update_settlement_Inr in_flight_def get_settlement_def fetch_def)
  qed
qed

lemma advance_in_flight:
  assumes "advance U ex rq plan (s, n) = (Inr x, t, n')" and "store_keyed s"
    and "get_settlement (stl_id plan) s = Inr plan" and "\<not> stl_is_finished plan"
    and "receivable_closed s (stl_invoice_id plan)"
  shows "\<not> stl_is_finished x" and "stl_invoice_id x = stl_invoice_id plan"
proof -
  have same: "stl_invoice_id x = stl_invoice_id plan" if "stl_exec c plan = Inr x" for c
    using stl_exec_plan [OF that] by (simp add: stl_plan_def)
  have "\<not> stl_is_finished x \<and> stl_invoice_id x = stl_invoice_id plan"
    using assms(1)
  proof (cases rule: advance_Inr)
    case (submit a rc)
    then show ?thesis using same [of "StlSubmit (rc_tx_id rc) (rq_now rq)"]
      by (auto simp: stl_submit_def stl_touch_def result_simps intro!: unfinished_states)
  next
    case (consensus rd)
    then show ?thesis using same [of "StlConfirmConsensus (rq_now rq)"]
      by (auto simp: stl_confirm_consensus_def stl_touch_def result_simps intro!: unfinished_states)
  next
    case (mirror rd)
    then show ?thesis using same [of "StlConfirmMirror (rq_now rq)"]
      by (auto simp: stl_confirm_mirror_def stl_touch_def result_simps intro!: unfinished_states)
  next
    case account
    then show ?thesis using account_refused [OF assms(5,3,4)] by blast
  qed
  then show "\<not> stl_is_finished x" and "stl_invoice_id x = stl_invoice_id plan" by blast+
qed

lemma handle_steps_stranded:
  assumes "handle_steps err_text U ex rq plan (s, n) = (r, t, n')" and "store_keyed s"
    and "get_settlement (stl_id plan) s = Inr plan" and "\<not> stl_is_finished plan"
    and "receivable_closed s (stl_invoice_id plan)"
  shows "isl r \<and> in_flight (stl_invoice_id plan) (stl_id plan) t"
  using assms
proof (induction "steps_left plan" arbitrary: plan s n rule: less_induct)
  case less
  have keyed: "keyed stl_id (db_settlements s)" using less.prems(2) by (simp add: store_keyed_def)
  have flying: "in_flight (stl_invoice_id plan) (stl_id plan) s"
    using less.prems(3,4) by (auto simp: in_flight_def)
  obtain res u m where step: "advance U ex rq plan (s, n) = (res, u, m)" by (metis prod_cases3)
  show ?case
  proof (cases res)
    case (Inl e)
    then obtain e' where failed: "record_settle_failure err_text rq plan e u = (e', t)" "r = Inl e'"
      using less.prems(1,4) step by (auto simp: handle_steps.simps split: prod.splits)
    have u: "u = s \<or> u = rollback s" using advance_error [OF step [unfolded Inl]] .
    then have "keyed stl_id (db_settlements u)" "in_flight (stl_invoice_id plan) (stl_id plan) u"
      using keyed flying by (auto simp: rollback_def in_flight_def get_settlement_def)
    from record_failure_in_flight [OF failed(1) this] failed(2) show ?thesis by simp
  next
    case (Inr x)
    note effect = advance_effect [OF step [unfolded Inr] keyed less.prems(3)]
    have written: "writes id s u" by (rule effect(1))
    note flight = advance_in_flight [OF step [unfolded Inr] less.prems(2-5)]
    have later: "handle_steps err_text U ex rq x (u, m) = (r, t, n')"
      using less.prems(1,4) step Inr by (simp add: handle_steps.simps [of _ _ _ _ plan])
    have "store_keyed u \<and> receivable_closed u (stl_invoice_id x)"
      using closed_always [OF writes_steps [OF written] less.prems(2,5)] flight(2) by simp
    then have "isl r \<and> in_flight (stl_invoice_id x) (stl_id x) t"
      using less.hyps [OF advance_moves [OF step [unfolded Inr] less.prems(4)] later _ effect(2) flight(1)] by blast
    then show ?thesis using flight(2) effect(3) by simp
  qed
qed

lemma handle_settle_stranded:
  assumes "handle_settle err_text U ex rq j (s, n) = (r, t, n')" and "store_keyed s" and "in_flight i j s"
    and "receivable_closed s i"
  shows "isl r \<and> in_flight i j t"
proof -
  obtain plan where plan: "get_settlement j s = Inr plan" "stl_invoice_id plan = i" "\<not> stl_is_finished plan"
    using assms(3) by (auto simp: in_flight_def)
  have keyed: "keyed stl_id (db_settlements s)" using assms(2) by (simp add: store_keyed_def)
  have id: "stl_id plan = j" using keyed_lookup [OF keyed] plan(1) by (auto simp: get_settlement_def result_simps)
  show ?thesis
  proof (cases "j = uuid_nil")
    case True
    then show ?thesis using assms(1,3) by (auto simp: handle_settle_def)
  next
    case False
    then have "handle_steps err_text U ex rq plan (s, n) = (r, t, n')"
      using assms(1) plan by (simp add: handle_settle_def)
    from handle_steps_stranded [OF this assms(2)] plan id assms(4) show ?thesis by simp
  qed
qed

section \<open>Samples\<close>

text \<open>A receivable of 100 sold in two parts, of which one transfer has finished.\<close>

definition settled_invoice :: invoice where
  "settled_invoice = market_invoice\<lparr>inv_status := InvSettled, inv_face := \<lparr>minor = 100, currency = ''USD''\<rparr>\<rparr>"

definition finished_part :: settlement where
  "finished_part = sample_plan\<lparr>stl_notional := \<lparr>minor = 60, currency = ''USD''\<rparr>, stl_tx_id := ''0.0.1'',
     stl_state := StlAccounted\<rparr>"

definition pending_part :: settlement where
  "pending_part = sample_plan\<lparr>stl_id := 10, stl_investor_id := 7, stl_notional := \<lparr>minor = 40, currency = ''USD''\<rparr>\<rparr>"

definition half_settled :: "rat store" where
  "half_settled = settling_store\<lparr>db_invoices := [(2, settled_invoice)],
     db_settlements := [(9, finished_part), (10, pending_part)]\<rparr>"

definition market_operator :: actor where
  "market_operator = \<lparr>ac_organization_id = 6, ac_operator = True\<rparr>"

definition full_payment :: payment where
  "full_payment = \<lparr>py_invoice_id = 2, py_amount = \<lparr>minor = 100, currency = ''USD''\<rparr>, py_reference = ''wire-7'',
     py_received_at = 20\<rparr>"

lemma half_settled_keyed: "store_keyed half_settled"
  using settling_keyed
  by (simp add: store_keyed_def half_settled_def keyed_def sample_plan_def market_invoice_def finished_part_def
      pending_part_def settled_invoice_def)

lemma half_settled_rows:
  "get_invoice 2 half_settled = Inr settled_invoice" "inv_id settled_invoice = 2" "inv_status settled_invoice = InvSettled"
  "inv_issuer settled_invoice = 4" "inv_face settled_invoice = \<lparr>minor = 100, currency = ''USD''\<rparr>"
  "get_repayment_by_invoice 2 half_settled = Inl ErrNotFound" "db_fail_commit half_settled = None"
  "db_settlements half_settled = [(9, finished_part), (10, pending_part)]" "db_repayments half_settled = []"
  "amounts_fit half_settled"
  by (simp_all add: half_settled_def settled_invoice_def market_invoice_def get_invoice_def fetch_def
      get_repayment_by_invoice_def settling_store_def market_issued_def market_store_def empty_store_def
      amounts_fit_def table_rows_def finished_part_def pending_part_def in64_def min64_def max64_def)

lemma half_settled_listed: "list_settlements_by_invoice rfc_uuid 2 half_settled = [finished_part, pending_part]"
proof -
  have "settlement_before rfc_uuid pending_part finished_part = False" by code_simp
  then show ?thesis
    by (simp add: list_settlements_by_invoice_def settlements_where_def half_settled_rows(8) table_rows_def
        truncate_rows_def finished_part_def [THEN arg_cong [of _ _ stl_invoice_id]]
        pending_part_def [THEN arg_cong [of _ _ stl_invoice_id]] sample_plan_def)
qed

lemma part_facts:
  "stl_is_finished finished_part" "\<not> stl_is_finished pending_part" "stl_investor_id finished_part = 8"
  "stl_notional finished_part = \<lparr>minor = 60, currency = ''USD''\<rparr>"
  by code_simp+

lemma half_settled_holders:
  "holders_of rfc_uuid settled_invoice half_settled =
    Inr [\<lparr>h_party = 4, h_notional = \<lparr>minor = 40, currency = ''USD''\<rparr>\<rparr>,
         \<lparr>h_party = 8, h_notional = \<lparr>minor = 60, currency = ''USD''\<rparr>\<rparr>]"
proof -
  have "uuid_string rfc_uuid 4 < uuid_string rfc_uuid 8" "\<not> uuid_string rfc_uuid 8 < uuid_string rfc_uuid 4"
    by code_simp+
  moreover have "amount_zero ''USD'' = Inr \<lparr>minor = 0, currency = ''USD''\<rparr>"
    "amount_add \<lparr>minor = 0, currency = ''USD''\<rparr> \<lparr>minor = 60, currency = ''USD''\<rparr> =
      Inr \<lparr>minor = 60, currency = ''USD''\<rparr>"
    "amount_sub \<lparr>minor = 100, currency = ''USD''\<rparr> \<lparr>minor = 60, currency = ''USD''\<rparr> =
      Inr \<lparr>minor = 40, currency = ''USD''\<rparr>"
    "amount_add \<lparr>minor = 0, currency = ''USD''\<rparr> \<lparr>minor = 40, currency = ''USD''\<rparr> =
      Inr \<lparr>minor = 40, currency = ''USD''\<rparr>"
    by code_simp+
  ultimately show ?thesis
    by (simp add: holders_of_def half_settled_rows half_settled_listed add_transfer_def part_facts add_position_def
        table_put_def amount_negative_def amount_positive_def Let_def)
qed

definition full_repayment :: repayment where
  "full_repayment = \<lparr>rp_id = 100, rp_invoice_id = 2, rp_face = \<lparr>minor = 100, currency = ''USD''\<rparr>,
     rp_amount = \<lparr>minor = 100, currency = ''USD''\<rparr>, rp_reference = ''wire-7'', rp_received_at = 20,
     rp_recorded_by = 6,
     rp_shares = [\<lparr>sh_party = 4, sh_notional = \<lparr>minor = 40, currency = ''USD''\<rparr>,
         sh_amount = \<lparr>minor = 40, currency = ''USD''\<rparr>\<rparr>,
       \<lparr>sh_party = 8, sh_notional = \<lparr>minor = 60, currency = ''USD''\<rparr>,
         sh_amount = \<lparr>minor = 60, currency = ''USD''\<rparr>\<rparr>], rp_created_at = 25\<rparr>"

lemma full_repayment_new:
  "new_repayment rfc_uuid \<lparr>nrp_id = 100, nrp_invoice_id = 2, nrp_face = \<lparr>minor = 100, currency = ''USD''\<rparr>,
     nrp_amount = \<lparr>minor = 100, currency = ''USD''\<rparr>, nrp_reference = ''wire-7'', nrp_received_at = 20,
     nrp_recorded_by = 6,
     nrp_holders = [\<lparr>h_party = 4, h_notional = \<lparr>minor = 40, currency = ''USD''\<rparr>\<rparr>,
         \<lparr>h_party = 8, h_notional = \<lparr>minor = 60, currency = ''USD''\<rparr>\<rparr>]\<rparr> 25 = Inr full_repayment"
  by code_simp

lemma full_payment_recorded:
  "\<exists>w t. record_payment market_hash rfc_uuid rat_decimal market_request market_operator full_payment half_settled =
    (Inr (full_repayment, w), t)"
proof -
  let ?w = "settled_invoice\<lparr>inv_status := InvMatured, inv_version := inv_version settled_invoice + 1,
    inv_updated_at := 25\<rparr>"
  define s1 where "s1 = half_settled\<lparr>db_repayments := [(2, full_repayment)]\<rparr>"
  have now: "rq_now market_request = 25" "rq_ids market_request 0 = 100" by (simp_all add: market_request_def)
  have pay: "py_invoice_id full_payment = 2" "py_amount full_payment = \<lparr>minor = 100, currency = ''USD''\<rparr>"
    "py_reference full_payment = ''wire-7''" "py_received_at full_payment = 20"
    "ac_organization_id market_operator = 6" "ac_operator market_operator"
    by (simp_all add: full_payment_def market_operator_def)
  have s1: "create_repayment full_repayment half_settled = Inr s1"
    by (simp add: create_repayment_def half_settled_rows s1_def full_repayment_def table_put_def)
  have close: "close_receivable rat_decimal 25 full_repayment settled_invoice = Inr ?w"
  proof -
    have "\<not> is_shortfall full_repayment" by code_simp
    then show ?thesis
      by (simp add: close_receivable_def mark_matured_def inv_transition_Inr half_settled_rows inv_can_transition_def)
  qed
  obtain s2 where s2: "update_invoice ?w (inv_version settled_invoice) s1 = Inr s2"
    and commits: "db_fail_commit s2 = None"
    using half_settled_rows(1,2,7) by (auto simp: update_invoice_Inr s1_def get_invoice_def)
  obtain details where details: "repaid_details rat_decimal full_repayment = Inr details"
  proof -
    have "\<not> isl (repaid_details rat_decimal full_repayment)" by code_simp
    then show thesis using that by (auto simp: not_isl_iff)
  qed
  have "trim_space action_repaid \<noteq> []" by code_simp
  then have entry: "validate_event (event_of market_request (uuid_string rfc_uuid 6) action_repaid invoice_entity
      (uuid_string rfc_uuid 2)) = Inr ()"
    by (simp add: validate_event_Inr event_of_def now)
  show ?thesis
    by (simp add: record_payment_def pay in_tx_def record_payment_tx_def half_settled_rows record_new_payment_def
        half_settled_holders now full_repayment_new s1 close s2 details record_event_def entry commits)
qed

lemma payment_settlements:
  assumes "record_payment H U D rq who p s = (Inr (r, w), t)" and "get_repayment_by_invoice (py_invoice_id p) s = Inl e"
    and "keyed inv_id (db_invoices s)"
  shows "db_settlements t = db_settlements s"
  by (rule record_payment_Inr [OF assms])
    (auto simp: create_repayment_def update_invoice_Inr record_event_def result_simps split: if_splits)

section \<open>Properties\<close>

text \<open>C21: A payment recorded for a receivable is divided, to the last unit, among exactly the parties that own
  part of it: each buyer in proportion to what its finished transfers delivered, within one minor unit, and the
  issuer for what was never delivered; the receivable is MATURED when it was paid in full and DEFAULTED when
  it was paid short, and no transfer is touched.\<close>

theorem payment_divides_among_owners:
  assumes "store_keyed s" and "amounts_fit s" and "in64 (minor (py_amount p))"
    and "record_payment H U D rq who p s = (Inr (r, w), t)"
    and "get_repayment_by_invoice (py_invoice_id p) s = Inl e"
  shows "\<exists>v. get_invoice (py_invoice_id p) s = Inr v \<and> inv_status v = InvSettled \<and>
    get_invoice (py_invoice_id p) t = Inr w \<and>
    inv_status w = (if minor (py_amount p) < minor (inv_face v) then InvDefaulted else InvMatured) \<and>
    get_repayment_by_invoice (py_invoice_id p) t = Inr r \<and> db_settlements t = db_settlements s \<and>
    sum_list (map (\<lambda>x. minor (sh_amount x)) (rp_shares r)) = minor (py_amount p) \<and>
    (\<forall>party. holds_share r party \<longleftrightarrow> stake_of v party s \<noteq> 0) \<and>
    (\<forall>x \<in> set (rp_shares r). 0 \<le> minor (sh_amount x) \<and>
      \<bar>minor (sh_amount x) * minor (inv_face v) - minor (py_amount p) * stake_of v (sh_party x) s\<bar> < minor (inv_face v))"
proof -
  have keyed: "keyed inv_id (db_invoices s)" using assms(1) by (simp add: store_keyed_def)
  obtain v hs s1 s2 ev where run: "get_invoice (py_invoice_id p) s = Inr v" "inv_status v = InvSettled"
    "inv_id v = py_invoice_id p" "holders_of U v s = Inr hs"
    and built: "new_repayment U \<lparr>nrp_id = rq_ids rq 0, nrp_invoice_id = inv_id v, nrp_face = inv_face v,
           nrp_amount = py_amount p, nrp_reference = py_reference p, nrp_received_at = py_received_at p,
           nrp_recorded_by = ac_organization_id who, nrp_holders = hs\<rparr> (rq_now rq) = Inr r"
    and wrote: "create_repayment r s = Inr s1" "close_receivable D (rq_now rq) r v = Inr w"
    "update_invoice w (inv_version v) s1 = Inr s2" "record_event ev s2 = Inr t"
    by (rule record_payment_Inr [OF assms(4,5) keyed]) (erule exE, rule that, assumption+)
  note r = new_repayment_Inr [OF built, simplified]
  have "v \<in> set (table_rows (db_invoices s))"
    using run(1) by (force simp: get_invoice_def fetch_Inr table_rows_def dest: map_of_SomeD)
  then have face: "in64 (minor (inv_face v))" using assms(2) by (simp add: amounts_fit_def)
  note hs = holders_of_Inr [OF run(4) assms(2) face]
  note shares = divided_shares [OF r(1) assms(3)]
  have w: "get_invoice (py_invoice_id p) t = Inr w" "get_repayment_by_invoice (py_invoice_id p) t = Inr r"
    "db_settlements t = db_settlements s"
    using wrote run(3) close_receivable_Inr(2) [OF wrote(2)] r(4)
    by (auto simp: create_repayment_def update_invoice_Inr record_event_def result_simps get_invoice_def fetch_Inr
        get_repayment_by_invoice_def table_put_def update_conv split: if_splits)
  have status: "inv_status w = (if minor (py_amount p) < minor (inv_face v) then InvDefaulted else InvMatured)"
    using close_receivable_Inr(4) [OF wrote(2)] r(6) by simp
  have "holds_share r party \<longleftrightarrow> stake_of v party s \<noteq> 0" for party
    unfolding holds_share_iff shares(3) using hs(1,3) shares(4) by fastforce
  moreover have "0 \<le> minor (sh_amount x) \<and>
      \<bar>minor (sh_amount x) * minor (inv_face v) - minor (py_amount p) * stake_of v (sh_party x) s\<bar> < minor (inv_face v)"
    if "x \<in> set (rp_shares r)" for x
    using shares(2) [OF that] hs(1,2) by auto
  ultimately show ?thesis using run(1,2) w status shares(1) by blast
qed

lemma full_payment_fits: "in64 (minor (py_amount full_payment))"
  by (simp add: full_payment_def in64_def min64_def max64_def)

theorem payment_divides_among_owners_witness:
  "\<exists>w t. record_payment market_hash rfc_uuid rat_decimal market_request market_operator full_payment half_settled =
      (Inr (full_repayment, w), t) \<and> inv_status w = InvMatured \<and> \<not> holds_share full_repayment 7"
proof -
  obtain w t where run: "record_payment market_hash rfc_uuid rat_decimal market_request market_operator full_payment
      half_settled = (Inr (full_repayment, w), t)" using full_payment_recorded by blast
  have "get_repayment_by_invoice (py_invoice_id full_payment) half_settled = Inl ErrNotFound"
    by (simp add: full_payment_def half_settled_rows)
  from payment_divides_among_owners [OF half_settled_keyed half_settled_rows(10) full_payment_fits run this]
  have "inv_status w = InvMatured"
    by (auto simp: full_payment_def half_settled_rows)
  moreover have "\<not> holds_share full_repayment 7" by (simp add: holds_share_iff full_repayment_def)
  ultimately show ?thesis using run by blast
qed

text \<open>A payment recorded while a transfer of the receivable is in flight strands that transfer for ever: the
  whole amount is divided without it, and whatever the program writes afterwards, a delivery of its command
  that finds it unfinished fails and leaves it unfinished, whatever the executor answers.\<close>

theorem payment_strands_transfers_in_flight:
  assumes "store_keyed s" and "in64 (minor (py_amount p))"
    and "record_payment H U D rq who p s = (Inr (r, w), t)"
    and "get_repayment_by_invoice (py_invoice_id p) s = Inl e"
    and "(store_step H)\<^sup>*\<^sup>* t u" and "in_flight (py_invoice_id p) j u"
    and "handle_settle err_text U ex rq' j (u, n) = (res, u', n')"
  shows "sum_list (map (\<lambda>x. minor (sh_amount x)) (rp_shares r)) = minor (py_amount p) \<and>
    isl res \<and> in_flight (py_invoice_id p) j u'"
proof -
  have keyed: "keyed inv_id (db_invoices s)" using assms(1) by (simp add: store_keyed_def)
  obtain v hs s1 s2 ev where run: "inv_id v = py_invoice_id p"
    and built: "new_repayment U \<lparr>nrp_id = rq_ids rq 0, nrp_invoice_id = inv_id v, nrp_face = inv_face v,
           nrp_amount = py_amount p, nrp_reference = py_reference p, nrp_received_at = py_received_at p,
           nrp_recorded_by = ac_organization_id who, nrp_holders = hs\<rparr> (rq_now rq) = Inr r"
    and wrote: "close_receivable D (rq_now rq) r v = Inr w" "update_invoice w (inv_version v) s1 = Inr s2"
      "record_event ev s2 = Inr t"
    by (rule record_payment_Inr [OF assms(3,4) keyed]) (erule exE, rule that, assumption+)
  note r = new_repayment_Inr [OF built, simplified]
  have "receivable_closed t (py_invoice_id p)"
    using wrote(2,3) run close_receivable_Inr(2,4) [OF wrote(1)]
    by (auto simp: update_invoice_Inr record_event_def result_simps get_invoice_def fetch_Inr receivable_closed_def)
  moreover have "store_keyed t"
    using writes_steps [OF record_payment_writes [OF assms(3) keyed]] assms(1)
    by (induction rule: rtranclp_induct) (auto intro: store_keyed_step)
  ultimately have "store_keyed u \<and> receivable_closed u (py_invoice_id p)"
    using closed_always [OF assms(5)] by blast
  then show ?thesis
    using handle_settle_stranded [OF assms(7) _ assms(6)] divided_shares(1) [OF r(1) assms(2)] by blast
qed

theorem payment_strands_transfers_in_flight_witness:
  "\<exists>w t r u g. record_payment market_hash rfc_uuid rat_decimal market_request market_operator full_payment half_settled =
      (Inr (full_repayment, w), t) \<and>
    handle_settle (\<lambda>e. ''failed'') rfc_uuid (local_executor id 40) market_request 10 (t, new_ledger) = (r, u, g) \<and>
    isl r \<and> in_flight 2 10 u"
proof -
  obtain w t where run: "record_payment market_hash rfc_uuid rat_decimal market_request market_operator full_payment
      half_settled = (Inr (full_repayment, w), t)" using full_payment_recorded by blast
  obtain r u g where later: "handle_settle (\<lambda>e. ''failed'') rfc_uuid (local_executor id 40) market_request 10
      (t, new_ledger) = (r, u, g)" by (metis prod_cases3)
  have none: "get_repayment_by_invoice (py_invoice_id full_payment) half_settled = Inl ErrNotFound"
    and i: "py_invoice_id full_payment = 2"
    by (simp_all add: full_payment_def half_settled_rows)
  have "db_settlements t = db_settlements half_settled"
    using payment_settlements [OF run none] half_settled_keyed by (simp add: store_keyed_def)
  then have "in_flight 2 10 t"
    using part_facts(2) by (auto simp: in_flight_def get_settlement_def fetch_def half_settled_rows pending_part_def sample_plan_def)
  then have "isl r \<and> in_flight 2 10 u"
    using payment_strands_transfers_in_flight [OF half_settled_keyed full_payment_fits run none
      rtranclp.rtrancl_refl _ later] by (simp add: i)
  then show ?thesis using run later by blast
qed

text \<open>C22: A payment sent again, by any operator at any later time, credits nobody twice: it is answered with the
  repayment on record and changes nothing. When the reference carried surrounding blanks it is refused instead,
  because the record holds the trimmed reference and the repetition is compared as it was sent.\<close>

theorem repeated_payment_is_answered_once:
  assumes "keyed inv_id (db_invoices s)" and "record_payment H U D rq who p s = (Inr (r, w), t)"
    and "get_repayment_by_invoice (py_invoice_id p) s = Inl e" and "ac_operator who'"
  shows "record_payment H U D rq' who' p t =
    (if trim_space (py_reference p) = py_reference p then (Inr (r, w), t) else (Inl ErrConflict, rollback t))"
proof -
  obtain v hs s1 s2 ev where run: "inv_id v = py_invoice_id p"
    and built: "new_repayment U \<lparr>nrp_id = rq_ids rq 0, nrp_invoice_id = inv_id v, nrp_face = inv_face v,
           nrp_amount = py_amount p, nrp_reference = py_reference p, nrp_received_at = py_received_at p,
           nrp_recorded_by = ac_organization_id who, nrp_holders = hs\<rparr> (rq_now rq) = Inr r"
    and wrote: "create_repayment r s = Inr s1" "close_receivable D (rq_now rq) r v = Inr w"
      "update_invoice w (inv_version v) s1 = Inr s2" "record_event ev s2 = Inr t"
    by (rule record_payment_Inr [OF assms(2,3,1)]) (erule exE, rule that, assumption+)
  note r = new_repayment_Inr [OF built, simplified]
  have reference: "rp_reference r = trim_space (py_reference p)"
    using built by (auto simp: new_repayment_def Let_def result_simps)
  have w: "inv_id w = py_invoice_id p" using close_receivable_Inr(2) [OF wrote(2)] run by simp
  have rows: "get_invoice (py_invoice_id p) t = Inr w" "get_repayment_by_invoice (py_invoice_id p) t = Inr r"
    using wrote w r(4) run
    by (auto simp: create_repayment_def update_invoice_Inr record_event_def result_simps get_invoice_def fetch_Inr
        get_repayment_by_invoice_def table_put_def update_conv split: if_splits)
  have "db_fail_commit t = None" using assms(2) by (auto simp: record_payment_def in_tx_Inr split: if_splits)
  then show ?thesis
    using assms(4) by (simp add: record_payment_def record_payment_tx_def in_tx_def rows w r(2) reference amount_equal_def)
qed

theorem repeated_payment_is_answered_once_witness:
  "\<exists>w t. record_payment market_hash rfc_uuid rat_decimal market_request market_operator full_payment half_settled =
      (Inr (full_repayment, w), t) \<and>
    record_payment market_hash rfc_uuid rat_decimal market_request market_operator full_payment t =
      (Inr (full_repayment, w), t)"
proof -
  obtain w t where run: "record_payment market_hash rfc_uuid rat_decimal market_request market_operator full_payment
      half_settled = (Inr (full_repayment, w), t)" using full_payment_recorded by blast
  have "get_repayment_by_invoice (py_invoice_id full_payment) half_settled = Inl ErrNotFound"
    "keyed inv_id (db_invoices half_settled)" "ac_operator market_operator"
    using half_settled_keyed by (simp_all add: full_payment_def half_settled_rows store_keyed_def market_operator_def)
  moreover have "trim_space (py_reference full_payment) = py_reference full_payment" by code_simp
  ultimately show ?thesis
    using repeated_payment_is_answered_once [OF _ run, of ErrNotFound market_operator market_request] run by auto
qed

end
