(* ===== verification/Invoice_Service.thy ===== *)
theory Invoice_Service
  imports Application
begin

text \<open>
  \<^verbatim>\<open>internal/invoice/service.go\<close>: what an issuer does with its receivables. An operation is
  one unit of work: it loads the invoice for the caller, applies the command of the aggregate, stores it under
  the version it read, writes the timeline and, where a worker has to act, leaves the command in the outbox.
  Somebody else's invoice is answered as one that does not exist.
\<close>

section \<open>The timeline\<close>

definition action_invoice_created :: string where "action_invoice_created = ''invoice.created''"
definition action_document_attached :: string where "action_document_attached = ''invoice.document_attached''"
definition action_assessment_requested :: string where
  "action_assessment_requested = ''invoice.assessment_requested''"
definition action_tokenization_requested :: string where
  "action_tokenization_requested = ''invoice.tokenization_requested''"
definition action_approved :: string where "action_approved = ''invoice.approved''"
definition action_rejected :: string where "action_rejected = ''invoice.rejected''"

definition topic_assess :: string where "topic_assess = ''invoice.assess''"
definition topic_tokenize :: string where "topic_tokenize = ''invoice.tokenize''"

definition record_invoice ::
  "(string \<Rightarrow> string) \<Rightarrow> uuid_ops \<Rightarrow> request \<Rightarrow> actor \<Rightarrow> string \<Rightarrow> invoice \<Rightarrow> (string \<times> int) option \<Rightarrow>
    (string \<times> detail) list \<Rightarrow> 'd store \<Rightarrow> 'd store result" where
  "record_invoice H U rq who action v before details =
    record_event (fold (\<lambda>(k, x). with_detail k x) ((''status'', DetailText (inv_status_string (inv_status v))) # details)
      (between H before (standing v) (event_of rq (actor_ref U who) action invoice_entity (uuid_string U (inv_id v)))))"

section \<open>Loading\<close>

definition authorize_invoice :: "actor \<Rightarrow> invoice \<Rightarrow> unit result" where
  "authorize_invoice who v =
    (if ac_operator who \<or> ac_organization_id who = inv_issuer v then Inr () else Inl ErrNotFound)"

definition load_invoice :: "actor \<Rightarrow> uuid \<Rightarrow> 'd store \<Rightarrow> invoice result" where
  "load_invoice who i s = and_then (get_invoice i s) (\<lambda>v. and_then (authorize_invoice who v) (\<lambda>_. Inr v))"

section \<open>Drafts and documents\<close>

record draft_params =
  dp_debtor_ref :: string
  dp_number :: string
  dp_face :: amount
  dp_issued_at :: instant
  dp_due_at :: instant

definition draft_invoice ::
  "(string \<Rightarrow> string) \<Rightarrow> uuid_ops \<Rightarrow> request \<Rightarrow> actor \<Rightarrow> draft_params \<Rightarrow> 'd store \<Rightarrow> invoice result \<times> 'd store" where
  "draft_invoice H U rq who p s =
    (if ac_organization_id who = uuid_nil then (Inl ErrForbidden, s)
     else case new_invoice \<lparr>np_id = rq_ids rq 0, np_issuer = ac_organization_id who, np_debtor_ref = dp_debtor_ref p,
         np_number = dp_number p, np_face = dp_face p, np_issued_at = dp_issued_at p, np_due_at = dp_due_at p\<rparr>
         (rq_now rq) of
       Inl e \<Rightarrow> (Inl e, s)
     | Inr v \<Rightarrow> in_tx (\<lambda>s.
         and_then (case create_invoice H v s of
             Inl e \<Rightarrow> Inl (if is_conflict e then ErrConflict else e)
           | Inr t \<Rightarrow> Inr t) (\<lambda>s1.
         and_then (record_invoice H U rq who action_invoice_created v None [] s1) (\<lambda>s2. Inr (v, s2)))) s)"

definition attach_document_tx ::
  "(string \<Rightarrow> string) \<Rightarrow> uuid_ops \<Rightarrow> request \<Rightarrow> actor \<Rightarrow> uuid \<Rightarrow> document \<Rightarrow> 'd store \<Rightarrow> (invoice \<times> 'd store) result" where
  "attach_document_tx H U rq who i doc s =
    and_then (load_invoice who i s) (\<lambda>v.
    and_then (mark_uploaded (rq_now rq) v) (\<lambda>v'.
    and_then (update_invoice v' (inv_version v) (save_document doc s)) (\<lambda>s1.
    and_then (record_invoice H U rq who action_document_attached v' (standing v)
        [(''cipher_hash'', DetailText (doc_cipher_hash doc))] s1) (\<lambda>s2. Inr (v', s2)))))"

definition attach_document ::
  "(string \<Rightarrow> string) \<Rightarrow> uuid_ops \<Rightarrow> request \<Rightarrow> actor \<Rightarrow> uuid \<Rightarrow> document_params \<Rightarrow> 'd store \<Rightarrow>
    invoice result \<times> 'd store" where
  "attach_document H U rq who i p s =
    (case new_document (p\<lparr>ndp_invoice_id := i\<rparr>) (rq_now rq) of
       Inl e \<Rightarrow> (Inl e, s)
     | Inr doc \<Rightarrow> in_tx (attach_document_tx H U rq who i doc) s)"

section \<open>Asking for work\<close>

text \<open>The \<^verbatim>\<open>Attempt\<close> of the command is never set, so it is 0.\<close>

definition assess_command :: "invoice \<Rightarrow> document \<Rightarrow> outbox_payload" where
  "assess_command v doc =
    AssessPayload (inv_id v) (doc_object_key doc) (doc_cipher_hash doc) (doc_key_ref doc) (doc_mime doc) 0"

definition request_assessment_tx ::
  "(string \<Rightarrow> string) \<Rightarrow> uuid_ops \<Rightarrow> request \<Rightarrow> actor \<Rightarrow> uuid \<Rightarrow> string \<Rightarrow> 'd store \<Rightarrow> (invoice \<times> 'd store) result" where
  "request_assessment_tx H U rq who i trace s =
    and_then (load_invoice who i s) (\<lambda>v.
    and_then (get_document i s) (\<lambda>doc.
    and_then (start_assessment (rq_now rq) v) (\<lambda>v'.
    and_then (update_invoice v' (inv_version v) s) (\<lambda>s1.
    and_then (record_invoice H U rq who action_assessment_requested v' (standing v) [] s1) (\<lambda>s2.
    and_then (publish_command topic_assess (assess_command v' doc) trace (rq_now rq) s2) (\<lambda>s3.
    Inr (v', s3)))))))"

definition request_assessment ::
  "(string \<Rightarrow> string) \<Rightarrow> uuid_ops \<Rightarrow> request \<Rightarrow> actor \<Rightarrow> uuid \<Rightarrow> string \<Rightarrow> 'd store \<Rightarrow> invoice result \<times> 'd store" where
  "request_assessment H U rq who i trace = in_tx (request_assessment_tx H U rq who i trace)"

definition request_tokenization_tx ::
  "(string \<Rightarrow> string) \<Rightarrow> uuid_ops \<Rightarrow> request \<Rightarrow> actor \<Rightarrow> uuid \<Rightarrow> string \<Rightarrow> 'd store \<Rightarrow> (invoice \<times> 'd store) result" where
  "request_tokenization_tx H U rq who i trace s =
    and_then (load_invoice who i s) (\<lambda>v.
    and_then (start_tokenization (rq_now rq) v) (\<lambda>v'.
    and_then (update_invoice v' (inv_version v) s) (\<lambda>s1.
    and_then (record_invoice H U rq who action_tokenization_requested v' (standing v) [] s1) (\<lambda>s2.
    and_then (publish_command topic_tokenize (TokenizePayload (inv_id v') (inv_issuer v')) trace (rq_now rq) s2) (\<lambda>s3.
    Inr (v', s3))))))"

definition request_tokenization ::
  "(string \<Rightarrow> string) \<Rightarrow> uuid_ops \<Rightarrow> request \<Rightarrow> actor \<Rightarrow> uuid \<Rightarrow> string \<Rightarrow> 'd store \<Rightarrow> invoice result \<times> 'd store" where
  "request_tokenization H U rq who i trace = in_tx (request_tokenization_tx H U rq who i trace)"

section \<open>Other commands\<close>

definition mutate_invoice_tx ::
  "(string \<Rightarrow> string) \<Rightarrow> uuid_ops \<Rightarrow> request \<Rightarrow> actor \<Rightarrow> uuid \<Rightarrow> string \<Rightarrow> (invoice \<Rightarrow> invoice result) \<Rightarrow> 'd store \<Rightarrow>
    (invoice \<times> 'd store) result" where
  "mutate_invoice_tx H U rq who i action apply_command s =
    and_then (load_invoice who i s) (\<lambda>v.
    and_then (apply_command v) (\<lambda>v'.
    and_then (update_invoice v' (inv_version v) s) (\<lambda>s1.
    and_then (record_invoice H U rq who action v' (standing v) [] s1) (\<lambda>s2. Inr (v', s2)))))"

definition approve_invoice ::
  "(string \<Rightarrow> string) \<Rightarrow> uuid_ops \<Rightarrow> request \<Rightarrow> actor \<Rightarrow> uuid \<Rightarrow> 'd store \<Rightarrow> invoice result \<times> 'd store" where
  "approve_invoice H U rq who i = in_tx (mutate_invoice_tx H U rq who i action_approved (inv_approve (rq_now rq)))"

definition reject_invoice ::
  "(string \<Rightarrow> string) \<Rightarrow> uuid_ops \<Rightarrow> request \<Rightarrow> actor \<Rightarrow> uuid \<Rightarrow> string \<Rightarrow> 'd store \<Rightarrow> invoice result \<times> 'd store" where
  "reject_invoice H U rq who i reason =
    in_tx (mutate_invoice_tx H U rq who i action_rejected (inv_reject reason (rq_now rq)))"

text \<open>What the application layer calls inside a unit of work of its own.\<close>

definition action_offered :: string where "action_offered = ''invoice.auction_opened''"

definition offer_invoice ::
  "(string \<Rightarrow> string) \<Rightarrow> uuid_ops \<Rightarrow> request \<Rightarrow> invoice \<Rightarrow> 'd store \<Rightarrow> (invoice \<times> 'd store) result" where
  "offer_invoice H U rq v s =
    and_then (inv_open_auction (rq_now rq) v) (\<lambda>v'.
    and_then (update_invoice v' (inv_version v) s) (\<lambda>s1.
    and_then (record_invoice H U rq \<lparr>ac_organization_id = inv_issuer v', ac_operator = False\<rparr> action_offered v'
        (standing v) [] s1) (\<lambda>s2. Inr (v', s2))))"

section \<open>Reading\<close>

definition read_invoice :: "actor \<Rightarrow> uuid \<Rightarrow> 'd store \<Rightarrow> invoice result" where
  "read_invoice who i s = load_invoice who i s"

definition read_document :: "actor \<Rightarrow> uuid \<Rightarrow> 'd store \<Rightarrow> document result" where
  "read_document who i s = and_then (read_invoice who i s) (\<lambda>_. get_document i s)"

definition own_invoices :: "uuid_ops \<Rightarrow> actor \<Rightarrow> int \<Rightarrow> 'd store \<Rightarrow> invoice list result" where
  "own_invoices U who limit s =
    (if ac_organization_id who = uuid_nil then Inl ErrForbidden
     else Inr (list_invoices_by_issuer U (ac_organization_id who) limit s))"

end
