(* ===== verification/Workers.thy ===== *)
theory Workers
  imports Dispatch_Facts Assessing_Facts Collections_Facts Invoice_Service
begin

text \<open>
  The handlers of the outbox as \<^verbatim>\<open>cmd/factorflow/main.go\<close> registers them, and what a pass of
  the dispatcher over them guarantees. The last section is about two workers: the claim of
  \<^verbatim>\<open>RunOnce\<close> ends before the handlers run, so nothing keeps a second worker from the same
  rows, and a transfer submitted from a plan another worker has submitted already is asked of the chain twice.
\<close>

section \<open>The handlers\<close>

text \<open>What decoding a payload into the command of a handler yields; a field the payload lacks is the nil id.\<close>

fun settle_command_of :: "outbox_payload \<Rightarrow> uuid" where
  "settle_command_of (SettlePayload i) = i"
| "settle_command_of _ = uuid_nil"

fun tokenize_command_of :: "outbox_payload \<Rightarrow> uuid" where
  "tokenize_command_of (TokenizePayload i issuer) = i"
| "tokenize_command_of (AssessPayload i _ _ _ _ _) = i"
| "tokenize_command_of (SettlePayload _) = uuid_nil"

fun assess_order_of :: "outbox_payload \<Rightarrow> assess_order" where
  "assess_order_of (AssessPayload i key cipher_hash key_ref mime attempt) =
    \<lparr>ao_invoice_id = i, ao_object_key = key, ao_cipher_hash = cipher_hash, ao_key_ref = key_ref, ao_mime = mime\<rparr>"
| "assess_order_of (TokenizePayload i issuer) =
    \<lparr>ao_invoice_id = i, ao_object_key = [], ao_cipher_hash = [], ao_key_ref = [], ao_mime = []\<rparr>"
| "assess_order_of (SettlePayload _) =
    \<lparr>ao_invoice_id = uuid_nil, ao_object_key = [], ao_cipher_hash = [], ao_key_ref = [], ao_mime = []\<rparr>"

text \<open>The state of the outside is the ledger of the executor, the state of the issuer, and what the confidential
  workflow, the market gateway and the language model share.\<close>

definition settle_handler ::
  "(app_error \<Rightarrow> string) \<Rightarrow> uuid_ops \<Rightarrow> 'n executor \<Rightarrow> request \<Rightarrow> ('d, 'n \<times> 'm \<times> 'w) handler" where
  "settle_handler err_text U ex rq event = (\<lambda>(s, n, m, w).
    let (r, t, n') = handle_settle err_text U ex rq (settle_command_of (ob_payload event)) (s, n) in (r, t, n', m, w))"

definition issue_handler ::
  "(app_error \<Rightarrow> string) \<Rightarrow> uuid_ops \<Rightarrow> 'x decimal_ops \<Rightarrow> 'm issuer \<Rightarrow> request \<Rightarrow> ('d, 'n \<times> 'm \<times> 'w) handler" where
  "issue_handler err_text U D issue rq event = (\<lambda>(s, n, m, w).
    let (r, t, m') = handle_issue err_text U D issue rq (tokenize_command_of (ob_payload event)) (s, m)
    in (r, t, n, m', w))"

definition assess_handler ::
  "(app_error \<Rightarrow> string) \<Rightarrow> (string \<Rightarrow> string) \<Rightarrow> 'd decimal_ops \<Rightarrow> uuid_ops \<Rightarrow> ('d, 'w) assessor \<Rightarrow> request \<Rightarrow>
    ('d, 'n \<times> 'm \<times> 'w) handler" where
  "assess_handler err_text H D U A rq event = (\<lambda>(s, n, m, w).
    let (r, t, w') = handle_assess err_text H D U A rq (assess_order_of (ob_payload event)) (s, w) in (r, t, n, m, w'))"

definition worker_handlers ::
  "(app_error \<Rightarrow> string) \<Rightarrow> (string \<Rightarrow> string) \<Rightarrow> uuid_ops \<Rightarrow> 'd decimal_ops \<Rightarrow> ('d, 'w) assessor \<Rightarrow> 'm issuer \<Rightarrow> 'n executor \<Rightarrow>
    request \<Rightarrow> (string \<rightharpoonup> ('d, 'n \<times> 'm \<times> 'w) handler)" where
  "worker_handlers err_text H U D A issue ex rq =
    [topic_assess \<mapsto> assess_handler err_text H D U A rq, topic_tokenize \<mapsto> issue_handler err_text U D issue rq,
     topic_settle \<mapsto> settle_handler err_text U ex rq]"

section \<open>The handlers are quiet\<close>

definition undisturbed :: "'d store \<Rightarrow> 'd store \<Rightarrow> bool" where
  "undisturbed s t \<longleftrightarrow> db_outbox t = db_outbox s \<and> db_fail_commit t = db_fail_commit s"

lemma undisturbed_refl [simp]: "undisturbed s s" "undisturbed s (rollback s)"
  by (simp_all add: undisturbed_def rollback_def)

lemma undisturbed_trans: "undisturbed s t \<Longrightarrow> undisturbed t u \<Longrightarrow> undisturbed s u"
  by (simp add: undisturbed_def)

lemma in_tx_undisturbed:
  assumes "in_tx body s = (r, t)" and "\<And>x u. body s = Inr (x, u) \<Longrightarrow> undisturbed s u" shows "undisturbed s t"
proof (cases r)
  case (Inl e)
  then show ?thesis using in_tx_error [of body s e t] assms(1) by simp
next
  case (Inr x)
  then show ?thesis using assms by (simp add: in_tx_Inr)
qed

lemma writes_undisturbed:
  "update_invoice v e s = Inr t \<Longrightarrow> undisturbed s t" "update_auction a e s = Inr t \<Longrightarrow> undisturbed s t"
  "update_settlement x e s = Inr t \<Longrightarrow> undisturbed s t" "create_asset b s = Inr t \<Longrightarrow> undisturbed s t"
  "annotate U rq actor action entity_type i details s = Inr t \<Longrightarrow> undisturbed s t"
  by (auto simp: undisturbed_def update_invoice_Inr update_auction_Inr update_settlement_Inr create_asset_def
      dest!: annotate_Inr split: if_splits)

lemma finish_undisturbed:
  "finish_invoice U rq x s = Inr t \<Longrightarrow> undisturbed s t" "finish_auction U rq i s = Inr t \<Longrightarrow> undisturbed s t"
  "finish_issue U rq v a s = Inr (y, t) \<Longrightarrow> undisturbed s t"
  by (auto simp: finish_invoice_def finish_auction_def finish_issue_def and_then_Inr_iff Let_def
      intro: undisturbed_trans writes_undisturbed split: if_splits)

lemma advance_undisturbed:
  assumes "advance U ex rq plan (s, n) = (r, t, n')" shows "undisturbed s t"
proof (cases r)
  case (Inl e)
  then show ?thesis using advance_error [of U ex rq plan s n e t n'] assms by auto
next
  case (Inr x)
  from assms [unfolded Inr] show ?thesis
  proof (cases rule: advance_Inr)
    case account
    from account(3) show ?thesis
      by (cases rule: account_Inr) (simp, meson undisturbed_trans writes_undisturbed(3) finish_undisturbed(1,2))
  qed (auto intro: writes_undisturbed)
qed

lemma record_settle_failure_undisturbed:
  assumes "record_settle_failure err_text rq plan cause s = (e, t)" shows "undisturbed s t"
proof -
  obtain r where "in_tx (\<lambda>s.
        and_then (get_settlement (stl_id plan) s) (\<lambda>current.
        if stl_is_finished current then Inr ((), s)
        else and_then (stl_fail (err_text cause) (rq_now rq) current) (\<lambda>x.
             and_then (update_settlement x (stl_version current) s) (\<lambda>t. Inr ((), t))))) s = (r, t)"
    using assms by (auto simp: record_settle_failure_def split: prod.splits sum.splits)
  then show ?thesis
    by (rule in_tx_undisturbed) (auto simp: and_then_Inr_iff intro: writes_undisturbed split: if_splits)
qed

lemma handle_steps_undisturbed:
  assumes "handle_steps err_text U ex rq plan (s, n) = (r, t, n')" shows "undisturbed s t"
  using assms
proof (induction "steps_left plan" arbitrary: plan s n rule: less_induct)
  case less
  show ?case
  proof (cases "stl_is_finished plan")
    case True
    then show ?thesis using less.prems by (simp add: handle_steps.simps)
  next
    case unfinished: False
    obtain res u m where step: "advance U ex rq plan (s, n) = (res, u, m)" by (metis prod_cases3)
    note first = advance_undisturbed [OF step]
    show ?thesis
    proof (cases res)
      case (Inl e)
      then obtain e' where "record_settle_failure err_text rq plan e u = (e', t)"
        using less.prems unfinished step by (auto simp: handle_steps.simps split: prod.splits)
      then show ?thesis using first record_settle_failure_undisturbed undisturbed_trans by blast
    next
      case (Inr x)
      have "handle_steps err_text U ex rq x (u, m) = (r, t, n')"
        using less.prems unfinished step Inr by (simp add: handle_steps.simps [of _ _ _ _ plan])
      from undisturbed_trans [OF first less.hyps [OF advance_moves [OF step [unfolded Inr] unfinished] this]]
      show ?thesis .
    qed
  qed
qed

lemma handle_settle_undisturbed:
  "handle_settle err_text U ex rq i (s, n) = (r, t, n') \<Longrightarrow> undisturbed s t"
  by (auto simp: handle_settle_def intro: handle_steps_undisturbed split: if_splits sum.splits)

lemma fail_invoice_undisturbed:
  assumes "in_tx (\<lambda>s.
        and_then (get_invoice i s) (\<lambda>v.
        if inv_status v \<noteq> st then Inr ((), s)
        else and_then (f v) (\<lambda>v'. and_then (update_invoice v' (inv_version v) s) (\<lambda>t. Inr ((), t))))) s = (res, t)"
  shows "undisturbed s t"
  using assms by (rule in_tx_undisturbed) (auto simp: and_then_Inr_iff intro: writes_undisturbed split: if_splits)

lemma record_failure_undisturbed:
  "record_issue_failure err_text rq i cause s = (r, t) \<Longrightarrow> undisturbed s t"
  "record_assess_failure err_text rq i cause s = (r, t) \<Longrightarrow> undisturbed s t"
  unfolding record_issue_failure_def record_assess_failure_def
  by (auto dest: fail_invoice_undisturbed split: prod.splits sum.splits)

lemma handle_issue_undisturbed:
  assumes "handle_issue err_text U D issue rq i (s, n) = (r, t, n')" shows "undisturbed s t"
proof -
  have "t = s \<or> (\<exists>v a. complete_issue U rq v a s = (r, t)) \<or> (\<exists>j e. record_issue_failure err_text rq j e s = (r, t)) \<or>
      (\<exists>v a. commit_issue U rq v a s = (r, t))"
    using assms
    by (auto simp: handle_issue_def accept_issue_def and_then_Inr_iff Let_def split: if_splits sum.splits prod.splits)
  moreover have "undisturbed s t" if "complete_issue U rq v a s = (r, t)" for v a
    by (rule in_tx_undisturbed [OF that [unfolded complete_issue_def]]) (rule finish_undisturbed)
  moreover have "undisturbed s t" if "commit_issue U rq v a s = (r, t)" for v a
    by (rule in_tx_undisturbed [OF that [unfolded commit_issue_def]])
      (auto simp: and_then_Inr_iff intro: undisturbed_trans writes_undisturbed finish_undisturbed)
  ultimately show ?thesis using record_failure_undisturbed(1) by auto
qed

lemma commit_assessment_undisturbed: "commit_assessment U D rq v x a s = (r, t) \<Longrightarrow> undisturbed s t"
  unfolding commit_assessment_def
  by (erule in_tx_undisturbed)
    (auto elim!: commit_assessment_tx_Inr save_explanation_Inr dest!: writes_undisturbed
      simp: undisturbed_def save_assessment_def save_snapshot_def)

lemma narrate_assessment_undisturbed:
  assumes "narrate_assessment D A rq a (s, n) = (t, n')" shows "undisturbed s t"
proof -
  have "undisturbed s (snd (in_tx (\<lambda>s. and_then (save_explanation e s) (\<lambda>t. Inr ((), t))) s))" for e
    by (rule in_tx_undisturbed [OF prod.collapse [symmetric]])
      (auto simp: and_then_Inr_iff undisturbed_def elim!: save_explanation_Inr)
  then show ?thesis using assms by (auto simp: narrate_assessment_def split: if_splits prod.splits option.splits)
qed

lemma price_and_store_undisturbed:
  assumes "price_and_store err_text H D U A rq v q r (s, n) = (res, t, n')" shows "undisturbed s t"
  using assms
  by (cases rule: price_and_store_cases)
    (blast intro: record_failure_undisturbed commit_assessment_undisturbed narrate_assessment_undisturbed undisturbed_trans)+

lemma handle_assess_undisturbed:
  assumes "handle_assess err_text H D U A rq c (s, n) = (res, t, n')" shows "undisturbed s t"
  using assms
  by (cases rule: handle_assess_cases) (auto intro: record_failure_undisturbed price_and_store_undisturbed)

interpretation workers: delivery "worker_handlers err_text H U D A issue ex rq" for err_text H U D A issue ex rq
  by unfold_locales
    (auto simp: worker_handlers_def settle_handler_def issue_handler_def assess_handler_def Let_def undisturbed_def [symmetric]
      intro: handle_settle_undisturbed handle_issue_undisturbed handle_assess_undisturbed split: if_splits prod.splits)

section \<open>A pass\<close>

lemma handled_topics:
  "worker_handlers err_text H U D A issue ex rq topic \<noteq> None \<longleftrightarrow> topic \<in> {topic_assess, topic_tokenize, topic_settle}"
  by (simp add: worker_handlers_def)


definition sample_row :: "int \<Rightarrow> string \<Rightarrow> outbox_row" where
  "sample_row i topic = \<lparr>ob_id = i, ob_topic = topic, ob_payload = SettlePayload 9, ob_attempts = 0,
     ob_last_error = [], ob_trace_id = [], ob_available_at = i, ob_delivered_at = None, ob_created_at = i\<rparr>"

definition sample_rows :: "outbox_row list" where
  "sample_rows = [sample_row 2 ''unknown'', sample_row 1 topic_settle, sample_row 99 topic_settle]"

definition sample_dispatcher :: dispatcher_config where
  "sample_dispatcher = \<lparr>dc_batch_size = 50, dc_max_attempts = 3, dc_park_for = hours 24,
     dc_backoff = \<lparr>bo_base = seconds 2, bo_max = seconds 300, bo_jitter = None\<rparr>\<rparr>"

lemma sample_due: "fetch_due 50 40 \<lparr>ot_rows = sample_rows, ot_next = 100\<rparr> = [sample_row 1 topic_settle, sample_row 2 ''unknown'']"
  by code_simp


section \<open>Two workers\<close>

text \<open>The comment on \<^verbatim>\<open>FetchDue\<close> says that several workers never pick up the same event. The
  transaction of the claim writes nothing and ends before the first handler runs, so a second worker that looks in
  the meantime claims the same rows; the schema's \<^verbatim>\<open>SKIP LOCKED\<close> only holds while it is open.\<close>

lemma claim_leaves_the_rows:
  assumes "in_tx (\<lambda>s. Inr (fetch_due limit now (db_outbox s), s)) s = (Inr claimed, t)"
  shows "in_tx (\<lambda>s. Inr (fetch_due limit now (db_outbox s), s)) t = (Inr claimed, t)"
  using assms by (auto simp: in_tx_def split: option.splits)

text \<open>Both workers read the plan, then both submit it: the executor is asked for the same transfer twice, and
  whether it moves the asset twice is left to the executor. The in-process ledger answers from its record; the
  network is asked for a second transfer.\<close>

lemma two_workers_submit_the_same_transfer:
  assumes "get_asset (stl_asset_id x) s = Inr a"
    and "submit_plan U (logged ex) rq x (s, n, []) = (r1, t, n1, asked1)"
    and "submit_plan U (logged ex) rq x (t, n1, asked1) = (r2, u, n2, asked2)"
  shows "asked2 = [order_of U a x, order_of U a x]"
proof -
  have "asked1 = [order_of U a x]" "db_assets t = db_assets s"
    using assms(1,2)
    by (auto simp: submit_plan_def store_step_of_def logged_def Let_def and_then_Inr_iff in_tx_def rollback_def
        update_settlement_Inr split: prod.splits option.splits if_splits sum.splits)
  then show ?thesis
    using assms(1,3)
    by (auto simp: submit_plan_def get_asset_def logged_def Let_def split: prod.splits option.splits)
qed

end
