(* ===== verification/Auction_Service.thy ===== *)
theory Auction_Service
  imports Application
begin

text \<open>
  \<^verbatim>\<open>internal/auction/service.go\<close>: drafting and opening a batch whose lots are given, bidding on
  it, withdrawing a bid, and the readings. Whether the caller's organization is eligible is part of its session.
  Clearing and withdrawing a batch belong to the marketplace.
\<close>

definition bid_entity :: string where "bid_entity = ''bid''"
definition action_batch_created :: string where "action_batch_created = ''auction.created''"
definition action_opened :: string where "action_opened = ''auction.opened''"
definition action_bid_placed :: string where "action_bid_placed = ''auction.bid_placed''"
definition action_bid_withdrawn :: string where "action_bid_withdrawn = ''auction.bid_withdrawn''"

definition batch_standing :: "auction \<Rightarrow> (string \<times> int) option" where
  "batch_standing a = Some (auc_status_string (auc_status a), auc_version a)"

definition record_batch ::
  "(string \<Rightarrow> string) \<Rightarrow> uuid_ops \<Rightarrow> request \<Rightarrow> string \<Rightarrow> string \<Rightarrow> auction \<Rightarrow> (string \<times> int) option \<Rightarrow>
    (string \<times> detail) list \<Rightarrow> 'd store \<Rightarrow> 'd store result" where
  "record_batch H U rq author action a before details =
    record_event (fold (\<lambda>(k, x). with_detail k x)
        (details @ [(''status'', DetailText (auc_status_string (auc_status a)))])
      (between H before (batch_standing a) (event_of rq author action auction_entity (uuid_string U (auc_id a)))))"

section \<open>Batches\<close>

record batch_params =
  bp_lots :: "lot list"
  bp_opens_at :: instant
  bp_closes_at :: instant

definition draft_auction ::
  "(string \<Rightarrow> string) \<Rightarrow> uuid_ops \<Rightarrow> request \<Rightarrow> actor \<Rightarrow> batch_params \<Rightarrow> 'd store \<Rightarrow> auction result \<times> 'd store" where
  "draft_auction H U rq who p s =
    (if ac_organization_id who = uuid_nil then (Inl ErrForbidden, s)
     else case new_auction \<lparr>nap_id = rq_ids rq 0, nap_issuer_id = ac_organization_id who, nap_lots = bp_lots p,
         nap_opens_at = bp_opens_at p, nap_closes_at = bp_closes_at p\<rparr> (rq_now rq) of
       Inl e \<Rightarrow> (Inl e, s)
     | Inr a \<Rightarrow>
         if \<not> list_all (\<lambda>l. lot_issuer_id l = ac_organization_id who) (auc_lots a) then (Inl ErrForbidden, s)
         else in_tx (\<lambda>s.
           and_then (create_auction a s) (\<lambda>s1.
           and_then (record_batch H U rq (uuid_string U (ac_organization_id who)) action_batch_created a None
               [(''lots'', DetailInt (int (length (auc_lots a))))] s1) (\<lambda>s2. Inr (a, s2)))) s)"

definition load_auction :: "actor \<Rightarrow> uuid \<Rightarrow> 'd store \<Rightarrow> auction result" where
  "load_auction who i s =
    and_then (get_auction i s) (\<lambda>a. if may_act_for who (auc_issuer_id a) then Inr a else Inl ErrForbidden)"

definition mutate_auction_tx ::
  "(string \<Rightarrow> string) \<Rightarrow> uuid_ops \<Rightarrow> request \<Rightarrow> actor \<Rightarrow> uuid \<Rightarrow> string \<Rightarrow> (auction \<Rightarrow> auction result) \<Rightarrow> 'd store \<Rightarrow>
    (auction \<times> 'd store) result" where
  "mutate_auction_tx H U rq who i action apply_command s =
    and_then (load_auction who i s) (\<lambda>a.
    and_then (apply_command a) (\<lambda>a'.
    and_then (update_auction a' (auc_version a) s) (\<lambda>s1.
    and_then (record_batch H U rq (actor_ref U who) action a' (batch_standing a) [] s1) (\<lambda>s2. Inr (a', s2)))))"

definition start_auction ::
  "(string \<Rightarrow> string) \<Rightarrow> uuid_ops \<Rightarrow> request \<Rightarrow> actor \<Rightarrow> uuid \<Rightarrow> 'd store \<Rightarrow> auction result \<times> 'd store" where
  "start_auction H U rq who i = in_tx (mutate_auction_tx H U rq who i action_opened (auc_open (rq_now rq)))"

section \<open>Bids\<close>

record 'd offer =
  of_budget :: amount
  of_min_yield :: 'd
  of_max_grade :: grade
  of_max_tenor_days :: int
  of_minimum_lot :: amount
  of_max_issuer_share :: 'd
  of_max_debtor_share :: 'd
  of_max_grade_share :: "(grade \<times> 'd) list"

definition bid_of_offer :: "request \<Rightarrow> actor \<Rightarrow> auction \<Rightarrow> 'd offer \<Rightarrow> 'd bid_params" where
  "bid_of_offer rq who a p =
    \<lparr>nbp_id = rq_ids rq 0, nbp_auction_id = auc_id a, nbp_investor_id = ac_organization_id who,
     nbp_budget = of_budget p, nbp_min_yield = of_min_yield p, nbp_max_grade = of_max_grade p,
     nbp_max_tenor_days = of_max_tenor_days p, nbp_minimum_lot = of_minimum_lot p,
     nbp_max_issuer_share = of_max_issuer_share p, nbp_max_debtor_share = of_max_debtor_share p,
     nbp_max_grade_share = of_max_grade_share p\<rparr>"

definition place_bid_tx ::
  "'d decimal_ops \<Rightarrow> uuid_ops \<Rightarrow> request \<Rightarrow> actor \<Rightarrow> uuid \<Rightarrow> 'd offer \<Rightarrow> 'd store \<Rightarrow> ('d bid \<times> 'd store) result" where
  "place_bid_tx D U rq who i p s =
    and_then (get_auction i s) (\<lambda>a.
    if auc_issuer_id a = ac_organization_id who then Inl ErrForbidden
    else if \<not> auc_accepting_bids a (rq_now rq) then Inl ErrConflict
    else and_then (new_bid D (bid_of_offer rq who a p) (rq_now rq)) (\<lambda>b.
         and_then (auc_currency a) (\<lambda>c.
         if currency (bid_budget b) \<noteq> c then Inl (Invalid ''budget'')
         else and_then (annotate U rq (uuid_string U (ac_organization_id who)) action_bid_placed bid_entity (bid_id b)
                [(''auction_id'', id_detail U (auc_id a))] (create_bid b s)) (\<lambda>s1. Inr (b, s1)))))"

definition place_bid ::
  "'d decimal_ops \<Rightarrow> uuid_ops \<Rightarrow> request \<Rightarrow> actor \<Rightarrow> bool \<Rightarrow> uuid \<Rightarrow> 'd offer \<Rightarrow> 'd store \<Rightarrow> 'd bid result \<times> 'd store" where
  "place_bid D U rq who eligible i p s =
    (if ac_organization_id who = uuid_nil then (Inl ErrForbidden, s)
     else if \<not> eligible then (Inl ErrForbidden, s)
     else in_tx (place_bid_tx D U rq who i p) s)"

definition withdraw_bid_tx ::
  "uuid_ops \<Rightarrow> request \<Rightarrow> actor \<Rightarrow> uuid \<Rightarrow> 'd store \<Rightarrow> ('d bid \<times> 'd store) result" where
  "withdraw_bid_tx U rq who i s =
    and_then (get_bid i s) (\<lambda>b.
    if \<not> ac_operator who \<and> bid_investor_id b \<noteq> ac_organization_id who then Inl ErrNotFound
    else and_then (get_auction (bid_auction_id b) s) (\<lambda>a.
         if auc_status a \<noteq> AucOpen then Inl ErrConflict
         else and_then (bid_cancel b) (\<lambda>b'.
              and_then (update_bid b' (bid_version b) s) (\<lambda>s1.
              and_then (annotate U rq (actor_ref U who) action_bid_withdrawn bid_entity (bid_id b')
                  [(''auction_id'', id_detail U (auc_id a))] s1) (\<lambda>s2. Inr (b', s2))))))"

definition withdraw_bid ::
  "uuid_ops \<Rightarrow> request \<Rightarrow> actor \<Rightarrow> uuid \<Rightarrow> 'd store \<Rightarrow> 'd bid result \<times> 'd store" where
  "withdraw_bid U rq who i = in_tx (withdraw_bid_tx U rq who i)"

section \<open>Reading\<close>

definition signed_in :: "actor \<Rightarrow> bool" where
  "signed_in who \<longleftrightarrow> ac_organization_id who \<noteq> uuid_nil \<or> ac_operator who"

definition read_auction :: "actor \<Rightarrow> uuid \<Rightarrow> 'd store \<Rightarrow> auction result" where
  "read_auction who i s = (if \<not> signed_in who then Inl ErrForbidden else get_auction i s)"

text \<open>The filter is a status as it was sent; the empty one means no filter.\<close>

definition browse_auctions :: "actor \<Rightarrow> string \<Rightarrow> int \<Rightarrow> 'd store \<Rightarrow> auction list result" where
  "browse_auctions who status limit s =
    (if \<not> signed_in who then Inl ErrForbidden
     else if status = [] then Inr (list_auctions None limit s)
     else case auc_parse_status status of
         Inl e \<Rightarrow> Inl (Invalid ''status'')
       | Inr st \<Rightarrow> Inr (list_auctions (Some st) limit s))"

definition visible_bids :: "uuid_ops \<Rightarrow> actor \<Rightarrow> uuid \<Rightarrow> 'd store \<Rightarrow> 'd bid list result" where
  "visible_bids U who i s =
    and_then (get_auction i s) (\<lambda>a.
    let bids = list_bids U i s
    in if may_act_for who (auc_issuer_id a) then Inr bids
       else Inr (filter (\<lambda>b. bid_investor_id b = ac_organization_id who) bids))"

definition read_solution :: "actor \<Rightarrow> uuid \<Rightarrow> 'd store \<Rightarrow> solution result" where
  "read_solution who i s = (if \<not> signed_in who then Inl ErrForbidden else get_solution i s)"

end
