(* ===== verification/Service_Facts.thy ===== *)
theory Service_Facts
  imports Invoice_Service Auction_Service Marketplace_Facts
begin

text \<open>
  What the services of the invoice and the auction modules guarantee: they write what the storage allows, an
  invoice that waits for a worker has a command on its way, a stranger learns nothing, and a bid is only taken
  from somebody who may bid, while the batch takes bids.
\<close>

section \<open>Invoices: writes\<close>

lemma load_invoice_Inr [result_simps]:
  "load_invoice who i s = Inr v \<longleftrightarrow>
    get_invoice i s = Inr v \<and> (ac_operator who \<or> ac_organization_id who = inv_issuer v)"
  by (auto simp: load_invoice_def authorize_invoice_def and_then_Inr_iff)

lemma record_invoice_Inr:
  assumes "record_invoice H U rq who action v before details s = Inr t"
  shows "\<exists>e. t = s\<lparr>db_events := db_events s @ [e]\<rparr>"
  using assms by (auto simp: record_invoice_def record_event_def result_simps)

lemma record_invoice_write: "record_invoice H' U rq who action v before details s = Inr t \<Longrightarrow> sound_write H s t"
  unfolding record_invoice_def by (rule write_event)

text \<open>A command of an invoice, its row, and what else is written.\<close>

lemma invoice_command_writes:
  assumes "get_invoice i s = Inr v" and "inv_exec c v = Inr w" and "update_invoice w e s = Inr s1"
    and "writes H s1 t"
  shows "writes H s t"
proof -
  from write_invoice [OF assms(1) inv_command [OF assms(2)] assms(3)] assms(4) show ?thesis by (rule converse_rtranclp_into_rtranclp)
qed

lemma mutate_invoice_writes:
  assumes "in_tx (mutate_invoice_tx H' U rq who i action f) s = (r, t)" and "\<And>v w. f v = Inr w \<Longrightarrow> inv_exec c v = Inr w"
  shows "writes H s t"
proof (rule in_tx_writes [OF assms(1)])
  fix x u
  assume "mutate_invoice_tx H' U rq who i action f s = Inr (x, u)"
  then obtain v w s1 where run: "get_invoice i s = Inr v" "f v = Inr w" "update_invoice w (inv_version v) s = Inr s1"
    "record_invoice H' U rq who action w (standing v) [] s1 = Inr u"
    by (auto simp: mutate_invoice_tx_def result_simps)
  show "writes H s u"
    by (rule invoice_command_writes [OF run(1) assms(2) [OF run(2)] run(3)])
      (rule r_into_rtranclp [of "sound_write H", OF record_invoice_write [OF run(4)]])
qed

lemma draft_invoice_writes:
  assumes "draft_invoice H U rq who p s = (r, t)" shows "writes H s t"
proof (cases "t = s")
  case False
  then obtain np v where v: "new_invoice np (rq_now rq) = Inr v" and tx: "in_tx (\<lambda>s.
         and_then (case create_invoice H v s of
             Inl e \<Rightarrow> Inl (if is_conflict e then ErrConflict else e)
           | Inr t \<Rightarrow> Inr t) (\<lambda>s1.
         and_then (record_invoice H U rq who action_invoice_created v None [] s1) (\<lambda>s2. Inr (v, s2)))) s = (r, t)"
    using assms by (auto simp: draft_invoice_def split: if_splits sum.splits)
  from tx show ?thesis
  proof (rule in_tx_writes)
    fix x u
    assume "and_then (case create_invoice H v s of
             Inl e \<Rightarrow> Inl (if is_conflict e then ErrConflict else e)
           | Inr t \<Rightarrow> Inr t) (\<lambda>s1.
         and_then (record_invoice H U rq who action_invoice_created v None [] s1) (\<lambda>s2. Inr (v, s2))) = Inr (x, u)"
    then obtain s1 where s1: "create_invoice H v s = Inr s1"
      "record_invoice H U rq who action_invoice_created v None [] s1 = Inr u"
      by (auto simp: and_then_Inr_iff split: sum.splits)
    have "inv_sound v" using v by (rule new_invoice_sound)
    from write_create_invoice [OF s1(1) this] record_invoice_write [OF s1(2)]
    show "writes H s u" by (rule two_writes)
  qed
qed simp

lemma attach_document_writes:
  assumes "attach_document H' U rq who i p s = (r, t)" shows "writes H s t"
proof (cases "t = s")
  case False
  then obtain doc where "in_tx (attach_document_tx H' U rq who i doc) s = (r, t)"
    using assms by (auto simp: attach_document_def split: sum.splits)
  then show ?thesis
  proof (rule in_tx_writes)
    fix x u
    assume "attach_document_tx H' U rq who i doc s = Inr (x, u)"
    then obtain v w s1 details where run: "get_invoice i s = Inr v" "mark_uploaded (rq_now rq) v = Inr w"
      "update_invoice w (inv_version v) (save_document doc s) = Inr s1"
      "record_invoice H' U rq who action_document_attached w (standing v) details s1 = Inr u"
      by (auto simp: attach_document_tx_def result_simps)
    have "get_invoice i (save_document doc s) = Inr v" using run(1) by (simp add: get_invoice_def save_document_def)
    moreover have "inv_exec (MarkUploaded (rq_now rq)) v = Inr w" using run(2) by simp
    ultimately have "writes H (save_document doc s) u"
      by (rule invoice_command_writes [OF _ _ run(3)])
        (rule r_into_rtranclp [of "sound_write H", OF record_invoice_write [OF run(4)]])
    with write_plain(2) show "writes H s u" by (rule converse_rtranclp_into_rtranclp)
  qed
qed simp

lemma request_writes:
  assumes "(case q of True \<Rightarrow> request_assessment H' U rq who i trace | False \<Rightarrow> request_tokenization H' U rq who i trace) s = (r, t)"
  shows "writes H s t"
proof -
  have "in_tx (if q then request_assessment_tx H' U rq who i trace else request_tokenization_tx H' U rq who i trace) s = (r, t)"
    using assms by (cases q) (simp_all add: request_assessment_def request_tokenization_def)
  then show ?thesis
  proof (rule in_tx_writes)
    fix x u
    assume "(if q then request_assessment_tx H' U rq who i trace else request_tokenization_tx H' U rq who i trace) s = Inr (x, u)"
    then obtain v w s1 s2 c action topic p where run: "get_invoice i s = Inr v" "inv_exec c v = Inr w"
      "update_invoice w (inv_version v) s = Inr s1"
      "record_invoice H' U rq who action w (standing v) [] s1 = Inr s2"
      "publish_command topic p trace (rq_now rq) s2 = Inr u"
      by (cases q)
        (auto simp: request_assessment_tx_def request_tokenization_tx_def result_simps
          intro: that [where c = "StartAssessment (rq_now rq)"] that [where c = "StartTokenization (rq_now rq)"])
    have "writes H s1 u"
      by (rule writes_then [OF r_into_rtranclp [of "sound_write H", OF record_invoice_write [OF run(4)]] write_command [OF run(5)]])
    then show "writes H s u" by (rule invoice_command_writes [OF run(1-3)])
  qed
qed

section \<open>Batches and bids: writes\<close>

lemma record_batch_write: "record_batch H' U rq author action a before details s = Inr t \<Longrightarrow> sound_write H s t"
  unfolding record_batch_def by (rule write_event)

lemma start_auction_writes:
  assumes "start_auction H' U rq who i s = (r, t)" shows "writes H s t"
proof (rule in_tx_writes [OF assms [unfolded start_auction_def]])
  fix x u
  assume "mutate_auction_tx H' U rq who i action_opened (auc_open (rq_now rq)) s = Inr (x, u)"
  then obtain a b s1 where run: "get_auction i s = Inr a" "auc_open (rq_now rq) a = Inr b"
    "update_auction b (auc_version a) s = Inr s1"
    "record_batch H' U rq (actor_ref U who) action_opened b (batch_standing a) [] s1 = Inr u"
    by (auto simp: mutate_auction_tx_def load_auction_def and_then_Inr_iff split: if_splits)
  have "auc_exec (AucCmdOpen (rq_now rq)) a = Inr b" using run(2) by simp
  then have "reaches auc_exec a b" by (rule reaches_step [OF reaches_refl [of auc_exec a]])
  from write_auction [OF run(1) this run(3)] record_batch_write [OF run(4)]
  show "writes H s u" by (rule two_writes)
qed

lemma draft_auction_writes:
  assumes "draft_auction H' U rq who p s = (r, t)" shows "writes H s t"
proof (cases "t = s")
  case False
  then obtain np a where a: "new_auction np (rq_now rq) = Inr a" and tx: "in_tx (\<lambda>s.
           and_then (create_auction a s) (\<lambda>s1.
           and_then (record_batch H' U rq (uuid_string U (ac_organization_id who)) action_batch_created a None
               [(''lots'', DetailInt (int (length (auc_lots a))))] s1) (\<lambda>s2. Inr (a, s2)))) s = (r, t)"
    using assms by (auto simp: draft_auction_def split: if_splits sum.splits)
  from tx show ?thesis
  proof (rule in_tx_writes)
    fix x u
    assume "and_then (create_auction a s) (\<lambda>s1.
           and_then (record_batch H' U rq (uuid_string U (ac_organization_id who)) action_batch_created a None
               [(''lots'', DetailInt (int (length (auc_lots a))))] s1) (\<lambda>s2. Inr (a, s2))) = Inr (x, u)"
    then obtain s1 where s1: "create_auction a s = Inr s1"
      "record_batch H' U rq (uuid_string U (ac_organization_id who)) action_batch_created a None
               [(''lots'', DetailInt (int (length (auc_lots a))))] s1 = Inr u"
      by (auto simp: and_then_Inr_iff)
    from write_create_auction [OF s1(1) new_auction_sound [OF a]
      new_auction_lots(2) [OF a list.set_sel(1) [OF new_auction_Inr(5) [OF a]]]] record_batch_write [OF s1(2)]
    show "writes H s u" by (rule two_writes)
  qed
qed simp

lemma place_bid_writes:
  assumes "place_bid D U rq who eligible i p s = (r, t)" shows "writes H s t"
proof (cases "t = s")
  case False
  then have "in_tx (place_bid_tx D U rq who i p) s = (r, t)"
    using assms by (simp add: place_bid_def split: if_splits)
  then show ?thesis
    by (rule in_tx_writes)
      (auto simp: place_bid_tx_def and_then_Inr_iff split: if_splits
        intro: two_writes write_plain(1) write_entry)
qed simp

lemma withdraw_bid_writes:
  assumes "withdraw_bid U rq who i s = (r, t)" shows "writes H s t"
  by (rule in_tx_writes [OF assms [unfolded withdraw_bid_def]])
    (auto simp: withdraw_bid_tx_def and_then_Inr_iff split: if_splits
      intro: two_writes write_bid write_entry)

section \<open>What is asked of the workers\<close>

lemma publish_command_Inr:
  assumes "publish_command topic p trace now s = Inr t"
  shows "\<exists>row. t = s\<lparr>db_outbox := (db_outbox s)\<lparr>ot_rows := ot_rows (db_outbox s) @ [row], ot_next := ot_next (db_outbox s) + 1\<rparr>\<rparr> \<and>
    ob_topic row = topic \<and> ob_payload row = p \<and> ob_trace_id row = trace \<and> ob_available_at row = now \<and>
    ob_delivered_at row = None"
  using assms by (auto simp: publish_command_def publish_def result_simps split: if_splits)

text \<open>The row an invoice that waits for a worker needs: the command for the invoice as it now stands.\<close>

definition command_for :: "'d store \<Rightarrow> invoice \<Rightarrow> outbox_row \<Rightarrow> bool" where
  "command_for s v row \<longleftrightarrow>
    (inv_status v = InvExtracting \<and> ob_topic row = topic_assess \<and>
       (\<exists>doc. get_document (inv_id v) s = Inr doc \<and> ob_payload row = assess_command v doc)) \<or>
    (inv_status v = InvTokenizing \<and> ob_topic row = topic_tokenize \<and>
       ob_payload row = TokenizePayload (inv_id v) (inv_issuer v))"

text \<open>What a request did: the caller may act for the invoice, its next version is stored, and one undelivered row
  with the command for it was added to the outbox.\<close>

definition requested ::
  "request \<Rightarrow> actor \<Rightarrow> string \<Rightarrow> 'd store \<Rightarrow> invoice \<Rightarrow> invoice \<Rightarrow> 'd store \<Rightarrow> outbox_row \<Rightarrow> bool" where
  "requested rq who trace s v w t row \<longleftrightarrow>
    (ac_operator who \<or> ac_organization_id who = inv_issuer v) \<and>
    inv_version w = inv_version v + 1 \<and> inv_terms w = inv_terms v \<and> get_invoice (inv_id w) t = Inr w \<and>
    ot_rows (db_outbox t) = ot_rows (db_outbox s) @ [row] \<and> command_for t w row \<and>
    ob_trace_id row = trace \<and> ob_available_at row = rq_now rq \<and> ob_delivered_at row = None"

lemma requested_row:
  assumes "load_invoice who i s = Inr v" and "store_keyed s"
    and "inv_terms w = inv_terms v" and "inv_version w = inv_version v + 1" and "update_invoice w e s = Inr s1"
    and "record_invoice H U rq who action w before [] s1 = Inr s2"
    and "publish_command topic p trace (rq_now rq) s2 = Inr t"
    and "\<And>row. ob_topic row = topic \<Longrightarrow> ob_payload row = p \<Longrightarrow> inv_id w = i \<Longrightarrow> command_for s w row"
  shows "\<exists>row. requested rq who trace s v w t row"
proof -
  have "inv_id v = i" "ac_operator who \<or> ac_organization_id who = inv_issuer v"
    using assms(1,2) keyed_lookup by (auto simp: result_simps get_invoice_def store_keyed_def)
  then have id: "inv_id w = i" using assms(3) by (simp add: inv_terms_def)
  obtain ev row where rows: "s2 = s1\<lparr>db_events := db_events s1 @ [ev]\<rparr>"
    "t = s2\<lparr>db_outbox := (db_outbox s2)\<lparr>ot_rows := ot_rows (db_outbox s2) @ [row], ot_next := ot_next (db_outbox s2) + 1\<rparr>\<rparr>"
    "ob_topic row = topic" "ob_payload row = p" "ob_trace_id row = trace" "ob_available_at row = rq_now rq"
    "ob_delivered_at row = None"
    using record_invoice_Inr [OF assms(6)] publish_command_Inr [OF assms(7)] by blast
  have s1: "s1 = s\<lparr>db_invoices := table_put i w (db_invoices s)\<rparr>"
    using assms(5) by (auto simp: update_invoice_def result_simps id)
  have "command_for t w row" using assms(8) [OF rows(3,4) id] by (simp add: command_for_def rows(1,2) s1 get_document_def)
  then have "requested rq who trace s v w t row"
    using assms(3,4) \<open>ac_operator who \<or> _\<close> rows s1 id by (simp add: requested_def get_invoice_def result_simps)
  then show ?thesis ..
qed

lemma request_assessment_Inr:
  assumes "request_assessment H U rq who i trace s = (Inr w, t)" and "store_keyed s"
  shows "\<exists>v row. get_invoice i s = Inr v \<and> requested rq who trace s v w t row"
proof -
  obtain v doc s1 s2 where run: "load_invoice who i s = Inr v" "get_document i s = Inr doc"
    "start_assessment (rq_now rq) v = Inr w" "update_invoice w (inv_version v) s = Inr s1"
    "record_invoice H U rq who action_assessment_requested w (standing v) [] s1 = Inr s2"
    "publish_command topic_assess (assess_command w doc) trace (rq_now rq) s2 = Inr t"
    using assms(1) by (auto simp: request_assessment_def request_assessment_tx_def in_tx_Inr and_then_Inr_iff)
  have "inv_terms w = inv_terms v" "inv_version w = inv_version v + 1" "inv_status w = InvExtracting"
    using run(3) by (auto simp: start_assessment_def inv_clear_failure_def result_simps inv_terms_def split: if_splits)
  then show ?thesis
    using requested_row [OF run(1) assms(2) _ _ run(4-6)] run(1,2) by (simp add: command_for_def result_simps)
qed

lemma request_tokenization_Inr:
  assumes "request_tokenization H U rq who i trace s = (Inr w, t)" and "store_keyed s"
  shows "\<exists>v row. get_invoice i s = Inr v \<and> requested rq who trace s v w t row"
proof -
  obtain v s1 s2 where run: "load_invoice who i s = Inr v"
    "start_tokenization (rq_now rq) v = Inr w" "update_invoice w (inv_version v) s = Inr s1"
    "record_invoice H U rq who action_tokenization_requested w (standing v) [] s1 = Inr s2"
    "publish_command topic_tokenize (TokenizePayload (inv_id w) (inv_issuer w)) trace (rq_now rq) s2 = Inr t"
    using assms(1) by (auto simp: request_tokenization_def request_tokenization_tx_def in_tx_Inr and_then_Inr_iff)
  have "inv_terms w = inv_terms v" "inv_version w = inv_version v + 1" "inv_status w = InvTokenizing"
    using run(2) by (auto simp: start_tokenization_def inv_clear_failure_def result_simps inv_terms_def split: if_splits)
  then show ?thesis
    using requested_row [OF run(1) assms(2) _ _ run(3-5)] run(1) by (simp add: command_for_def result_simps)
qed

text \<open>An invoice that waits for a worker has its command on the way: a request for an assessment or for a
  tokenization succeeds only for the issuer or an operator, stores the next version of the invoice with its terms
  unchanged, and adds one undelivered outbox row with the command for the invoice and, for an assessment, for the document on
  file. A request that fails changes nothing.\<close>

theorem requests_leave_their_command:
  assumes "store_keyed s"
    and "op \<in> {request_assessment H U rq who i trace, request_tokenization H U rq who i trace}"
    and "op s = (r, t)"
  shows "case r of Inl e \<Rightarrow> t = rollback s
    | Inr w \<Rightarrow> \<exists>v row. get_invoice i s = Inr v \<and> requested rq who trace s v w t row"
proof (cases r)
  case (Inl e)
  then show ?thesis
    using assms(2,3) by (auto simp: request_assessment_def request_tokenization_def intro: in_tx_Inl)
next
  case (Inr w)
  then show ?thesis
    using assms(2,3) request_assessment_Inr [OF _ assms(1)] request_tokenization_Inr [OF _ assms(1)] by auto
qed

context uuid_lib
begin

lemma record_invoice_valid:
  assumes "rq_now rq \<noteq> 0" and "trim_space action \<noteq> []"
  shows "\<exists>e. record_invoice H U rq who action v before details s = Inr (s\<lparr>db_events := db_events s @ [e]\<rparr>)"
  using assms
  by (simp add: record_invoice_def record_event_def validate_event_Inr event_of_def and_then_Inr_iff) (rule exI, rule refl)

end

definition approved_invoice :: invoice where
  "approved_invoice = market_invoice\<lparr>inv_status := InvApproved\<rparr>"

definition approved_store :: "rat store" where
  "approved_store = empty_store\<lparr>db_invoices := [(2, approved_invoice)]\<rparr>"

lemma approved_rows:
  "store_keyed approved_store" "load_invoice market_issuer 2 approved_store = Inr approved_invoice"
  "get_invoice 2 approved_store = Inr approved_invoice" "inv_issuer approved_invoice = 4"
  by (simp_all add: store_keyed_def approved_store_def approved_invoice_def empty_store_def keyed_def market_invoice_def
      load_invoice_def authorize_invoice_def get_invoice_def fetch_def market_issuer_def)

lemma approved_tokenizes: "\<exists>w t. request_tokenization H rfc_uuid market_request market_issuer 2 ''t-1'' approved_store = (Inr w, t)"
proof -
  have "inv_version approved_invoice = 1" "inv_id approved_invoice = 2" by (simp_all add: approved_invoice_def market_invoice_def sample_invoice_def)
  moreover obtain w where w: "start_tokenization (rq_now market_request) approved_invoice = Inr w" "inv_id w = 2"
  proof -
    have "map_sum id inv_id (start_tokenization (rq_now market_request) approved_invoice) = Inr 2" by code_simp
    then show thesis using that by (cases "start_tokenization (rq_now market_request) approved_invoice") auto
  qed
  moreover obtain s1 where "update_invoice w 1 approved_store = Inr s1" "db_fail_commit s1 = None"
    using calculation approved_rows(3) by (auto simp: update_invoice_def versioned_put_def get_invoice_def approved_store_def empty_store_def)
  moreover have "rq_now market_request \<noteq> 0" "trim_space action_tokenization_requested \<noteq> []" "topic_tokenize \<noteq> []"
    by (simp_all add: market_request_def topic_tokenize_def) code_simp
  moreover obtain e where "record_invoice H rfc_uuid market_request market_issuer action_tokenization_requested w
      (standing approved_invoice) [] s1 = Inr (s1\<lparr>db_events := db_events s1 @ [e]\<rparr>)"
    using rfc.record_invoice_valid calculation by blast
  ultimately show ?thesis
    by (simp add: request_tokenization_def request_tokenization_tx_def approved_rows in_tx_def publish_command_def publish_def)
qed

theorem requests_leave_their_command_witness:
  "\<exists>w t. request_tokenization (\<lambda>_. []) rfc_uuid market_request market_issuer 2 ''t-1'' approved_store = (Inr w, t) \<and>
    (\<exists>v row. get_invoice 2 approved_store = Inr v \<and> requested market_request market_issuer ''t-1'' approved_store v w t row)"
proof -
  obtain w t where run: "request_tokenization (\<lambda>_. []) rfc_uuid market_request market_issuer 2 ''t-1'' approved_store = (Inr w, t)"
    using approved_tokenizes by blast
  from requests_leave_their_command [where op = "request_tokenization (\<lambda>_. []) rfc_uuid market_request market_issuer 2 ''t-1''",
      OF approved_rows(1) insertI2 [OF singletonI] run] run
  show ?thesis by auto
qed

section \<open>Strangers\<close>

text \<open>The requests about one invoice, and what the caller is told of the outcome.\<close>

datatype invoice_request = ReadInvoice | ReadDocument | AttachDocument document_params | RequestAssessment string
  | RequestTokenization string | ApproveInvoice | RejectInvoice string

fun answer ::
  "(string \<Rightarrow> string) \<Rightarrow> uuid_ops \<Rightarrow> request \<Rightarrow> actor \<Rightarrow> uuid \<Rightarrow> invoice_request \<Rightarrow> 'd store \<Rightarrow>
    (invoice + document) result \<times> 'd store" where
  "answer H U rq who i ReadInvoice s = (map_sum id Inl (read_invoice who i s), s)"
| "answer H U rq who i ReadDocument s = (map_sum id Inr (read_document who i s), s)"
| "answer H U rq who i (AttachDocument p) s = apfst (map_sum id Inl) (attach_document H U rq who i p s)"
| "answer H U rq who i (RequestAssessment trace) s = apfst (map_sum id Inl) (request_assessment H U rq who i trace s)"
| "answer H U rq who i (RequestTokenization trace) s = apfst (map_sum id Inl) (request_tokenization H U rq who i trace s)"
| "answer H U rq who i ApproveInvoice s = apfst (map_sum id Inl) (approve_invoice H U rq who i s)"
| "answer H U rq who i (RejectInvoice reason) s = apfst (map_sum id Inl) (reject_invoice H U rq who i reason s)"

lemma load_invoice_stranger:
  assumes "\<not> ac_operator who" and "\<forall>v. get_invoice i s = Inr v \<longrightarrow> inv_issuer v \<noteq> ac_organization_id who"
  shows "load_invoice who i s = Inl ErrNotFound"
  using assms by (cases "get_invoice i s")
    (auto simp: load_invoice_def authorize_invoice_def get_invoice_def fetch_def and_then_def split: option.splits)

lemma stranger_answer:
  assumes "load_invoice who i s = Inl ErrNotFound"
  shows "fst (answer H U rq who i q s) = Inl (case q of
      AttachDocument p \<Rightarrow> (case new_document (p\<lparr>ndp_invoice_id := i\<rparr>) (rq_now rq) of Inl e \<Rightarrow> e | Inr d \<Rightarrow> ErrNotFound)
    | _ \<Rightarrow> ErrNotFound)"
    and "snd (answer H U rq who i q s) \<in> {s, rollback s}"
  using assms
  by (cases q; simp add: read_invoice_def read_document_def attach_document_def attach_document_tx_def
      request_assessment_def request_assessment_tx_def request_tokenization_def request_tokenization_tx_def
      approve_invoice_def reject_invoice_def mutate_invoice_tx_def in_tx_def split: sum.splits)+


definition market_stranger :: actor where
  "market_stranger = \<lparr>ac_organization_id = 9, ac_operator = False\<rparr>"


section \<open>Bids\<close>

text \<open>C28: A bid is taken only from an eligible organization that does not run the batch, while the batch is open and inside its
  window, in the currency of its lots, with positive budget and tenor and a grade of the model. It is stored
  active at its first version; besides it only the timeline grows.\<close>

theorem bid_is_admissible:
  assumes "place_bid D U rq who eligible i p s = (Inr b, t)"
  shows "eligible \<and> (\<exists>a. get_auction i s = Inr a \<and> auc_status a = AucOpen \<and>
      auc_opens_at a \<le> rq_now rq \<and> rq_now rq < auc_closes_at a \<and> auc_issuer_id a \<noteq> ac_organization_id who \<and>
      bid_auction_id b = auc_id a \<and> auc_currency a = Inr (currency (bid_budget b))) \<and>
    bid_investor_id b = ac_organization_id who \<and> bid_investor_id b \<noteq> uuid_nil \<and> bid_status b = BidActive \<and>
    bid_version b = 1 \<and> amount_positive (bid_budget b) \<and> 0 < bid_max_tenor_days b \<and> grade_valid (bid_max_grade b) \<and>
    get_bid (bid_id b) t = Inr b \<and> (\<exists>e. t = s\<lparr>db_bids := table_put (bid_id b) b (db_bids s), db_events := db_events s @ [e]\<rparr>)"
proof -
  have who: "eligible" "ac_organization_id who \<noteq> uuid_nil" and "place_bid_tx D U rq who i p s = Inr (b, t)"
    using assms by (auto simp: place_bid_def in_tx_Inr split: if_splits)
  then obtain a where a: "get_auction i s = Inr a" "auc_issuer_id a \<noteq> ac_organization_id who"
    "auc_accepting_bids a (rq_now rq)" "new_bid D (bid_of_offer rq who a p) (rq_now rq) = Inr b"
    "auc_currency a = Inr (currency (bid_budget b))"
    "annotate U rq (uuid_string U (ac_organization_id who)) action_bid_placed bid_entity (bid_id b)
      [(''auction_id'', id_detail U (auc_id a))] (create_bid b s) = Inr t"
    by (auto simp: place_bid_tx_def and_then_Inr_iff split: if_splits)
  have "bid_investor_id b = ac_organization_id who" "bid_auction_id b = auc_id a" "bid_status b = BidActive"
    "bid_version b = 1" "amount_positive (bid_budget b)" "0 < bid_max_tenor_days b" "grade_valid (bid_max_grade b)"
    using a(4) by (auto simp: new_bid_def bid_of_offer_def result_simps split: if_splits)
  moreover obtain e where "t = (create_bid b s)\<lparr>db_events := db_events (create_bid b s) @ [e]\<rparr>"
    using annotate_Inr [OF a(6)] by blast
  ultimately show ?thesis
    using who a(1-3,5) by (auto simp: auc_accepting_bids_def create_bid_def get_bid_def result_simps not_less)
qed

definition market_offer :: "rat offer" where
  "market_offer = \<lparr>of_budget = \<lparr>minor = 50000, currency = ''USD''\<rparr>, of_min_yield = 1 / 20, of_max_grade = ''C'',
     of_max_tenor_days = 90, of_minimum_lot = \<lparr>minor = 0, currency = ''USD''\<rparr>, of_max_issuer_share = 0,
     of_max_debtor_share = 1 / 2, of_max_grade_share = []\<rparr>"

theorem bid_is_admissible_witness:
  "\<exists>b t. place_bid rat_decimal rfc_uuid (market_request\<lparr>rq_now := 15\<rparr>) market_stranger True 5 market_offer market_store = (Inr b, t) \<and>
    get_bid (bid_id b) t = Inr b \<and> bid_investor_id b = 9"
proof -
  let ?rq = "market_request\<lparr>rq_now := 15\<rparr>" and ?a = "sample_auction\<lparr>auc_status := AucOpen\<rparr>"
  have "get_auction 5 market_store = Inr ?a" "auc_issuer_id ?a = 4" "auc_accepting_bids ?a 15" "auc_currency ?a = Inr ''USD''"
    by code_simp+
  moreover obtain b where "new_bid rat_decimal (bid_of_offer ?rq market_stranger ?a market_offer) 15 = Inr b"
    "currency (bid_budget b) = ''USD''"
  proof -
    have "\<not> isl (new_bid rat_decimal (bid_of_offer ?rq market_stranger ?a market_offer) 15)" by code_simp
    then obtain b where b: "new_bid rat_decimal (bid_of_offer ?rq market_stranger ?a market_offer) 15 = Inr b"
      by (auto simp: not_isl_iff)
    then have "bid_budget b = of_budget market_offer" by (auto simp: new_bid_def result_simps bid_of_offer_def)
    then show thesis using that [OF b] by (simp add: market_offer_def)
  qed
  moreover have "trim_space action_bid_placed \<noteq> []" "trim_space bid_entity \<noteq> []" "db_fail_commit market_store = None"
    by code_simp+
  ultimately have "\<exists>b t. place_bid rat_decimal rfc_uuid ?rq market_stranger True 5 market_offer market_store = (Inr b, t)"
    by (simp add: place_bid_def place_bid_tx_def in_tx_def rfc.annotate_valid market_stranger_def create_bid_def)
  then obtain b t where run: "place_bid rat_decimal rfc_uuid ?rq market_stranger True 5 market_offer market_store = (Inr b, t)"
    by blast
  from bid_is_admissible [OF run] run show ?thesis by (auto simp: market_stranger_def)
qed

text \<open>A bid is withdrawn only by its investor or an operator, while its batch is open.\<close>

lemma withdrawn_bid:
  assumes "withdraw_bid U rq who i s = (Inr b, t)"
  shows "\<exists>b0 a. get_bid i s = Inr b0 \<and> (ac_operator who \<or> bid_investor_id b0 = ac_organization_id who) \<and>
    bid_status b0 = BidActive \<and> get_auction (bid_auction_id b0) s = Inr a \<and> auc_status a = AucOpen \<and>
    b = b0\<lparr>bid_status := BidCancelled, bid_version := bid_version b0 + 1\<rparr>"
  using assms
  by (auto simp: withdraw_bid_def withdraw_bid_tx_def in_tx_Inr and_then_Inr_iff bid_cancel_def split: if_splits)

end
