(* ===== verification/Payments.thy ===== *)
theory Payments
  imports Application
begin

text \<open>
  \<^verbatim>\<open>internal/payments\<close>: the exchange in which a machine client is quoted a price, pays on a ledger and asks
  again with the proof. \<open>domain.go\<close> is the state machine of one paid request, \<open>ports.go\<close> and \<open>chain.go\<close> are the two
  facilitators that judge a proof, \<open>service.go\<close> the exchange; the table has the queries and the constraints
  of \<open>postgres.go\<close>. \<open>H\<close> is SHA-256. The codec of JSON is a parameter: \<open>js_parse\<close> gives the decoded value of a body
  that is JSON, \<open>js_print\<close> the text of a value.
\<close>

section \<open>Requests\<close>

definition quote_ttl :: int where "quote_ttl = minutes 5"
definition max_refusal_len :: nat where "max_refusal_len = 512"

datatype pay_state = PayRequired | PaySigned | PayVerified | PayProcessed | PaySettled | PayRejected

fun pay_transitions :: "pay_state \<Rightarrow> pay_state list" where
  "pay_transitions PayRequired = [PaySigned, PayRejected]"
| "pay_transitions PaySigned = [PayVerified, PayRejected]"
| "pay_transitions PayVerified = [PayProcessed, PayRejected]"
| "pay_transitions PayProcessed = [PaySettled, PayRejected]"
| "pay_transitions PaySettled = []"
| "pay_transitions PayRejected = []"

fun pay_state_string :: "pay_state \<Rightarrow> string" where
  "pay_state_string PayRequired = ''PAYMENT_REQUIRED''"
| "pay_state_string PaySigned = ''SIGNED''"
| "pay_state_string PayVerified = ''VERIFIED''"
| "pay_state_string PayProcessed = ''PROCESSED''"
| "pay_state_string PaySettled = ''SETTLED''"
| "pay_state_string PayRejected = ''REJECTED''"

definition pay_states :: "pay_state list" where
  "pay_states = [PayRequired, PaySigned, PayVerified, PayProcessed, PaySettled, PayRejected]"

definition pay_parse_state :: "string \<Rightarrow> pay_state result" where
  "pay_parse_state s =
    (case find (\<lambda>p. pay_state_string p = s) pay_states of None \<Rightarrow> Inl (Invalid ''state'') | Some p \<Rightarrow> Inr p)"

definition pay_is_paid :: "pay_state \<Rightarrow> bool" where
  "pay_is_paid p \<longleftrightarrow> p = PayVerified \<or> p = PayProcessed \<or> p = PaySettled"

definition pay_is_finished :: "pay_state \<Rightarrow> bool" where
  "pay_is_finished p \<longleftrightarrow> p = PaySettled \<or> p = PayRejected"

record requirement =
  rm_scheme :: string
  rm_network :: string
  rm_recipient :: string
  rm_asset :: string
  rm_price :: amount
  rm_nonce :: string
  rm_request_hash :: string
  rm_issued_at :: instant
  rm_expires_at :: instant

record pay_proof =
  pp_nonce :: string
  pp_payer :: string
  pp_tx_id :: string
  pp_amount :: amount
  pp_signature :: string

record paid_request =
  pq_id :: uuid
  pq_endpoint :: string
  pq_request_hash :: string
  pq_nonce :: string
  pq_key :: string
  pq_price :: amount
  pq_payer :: string
  pq_payment_tx :: string
  pq_response_hash :: string
  pq_response :: string
  pq_state :: pay_state
  pq_reason :: string
  pq_created_at :: instant
  pq_updated_at :: instant
  pq_expires_at :: instant
  pq_version :: int

record quote_params =
  qp_id :: uuid
  qp_endpoint :: string
  qp_request_hash :: string
  qp_nonce :: string
  qp_key :: string
  qp_price :: amount

definition hash_pattern :: "string \<Rightarrow> bool" where
  "hash_pattern s \<longleftrightarrow> length s = 66 \<and> take 2 s = ''0x'' \<and> list_all hex_char (drop 2 s)"

definition new_paid_request :: "quote_params \<Rightarrow> instant \<Rightarrow> paid_request result" where
  "new_paid_request p now =
    checked
      (violation (qp_id p = uuid_nil) (Invalid ''id'')
       @ violation (trim_space (qp_endpoint p) = []) (Invalid ''endpoint'')
       @ violation (\<not> hash_pattern (qp_request_hash p)) (Invalid ''request_hash'')
       @ violation (trim_space (qp_nonce p) = []) (Invalid ''nonce'')
       @ violation (\<not> amount_valid (qp_price p) \<or> \<not> amount_positive (qp_price p)) (Invalid ''price''))
      (Inr \<lparr>pq_id = qp_id p, pq_endpoint = trim_space (qp_endpoint p), pq_request_hash = to_lower (qp_request_hash p),
         pq_nonce = trim_space (qp_nonce p), pq_key = trim_space (qp_key p), pq_price = qp_price p, pq_payer = [],
         pq_payment_tx = [], pq_response_hash = [], pq_response = [], pq_state = PayRequired, pq_reason = [],
         pq_created_at = now, pq_updated_at = now, pq_expires_at = now + quote_ttl, pq_version = 1\<rparr>)"

definition pay_requirement :: "string \<Rightarrow> string \<Rightarrow> string \<Rightarrow> string \<Rightarrow> paid_request \<Rightarrow> requirement" where
  "pay_requirement scheme network recipient asset r =
    \<lparr>rm_scheme = scheme, rm_network = network, rm_recipient = recipient, rm_asset = asset, rm_price = pq_price r,
     rm_nonce = pq_nonce r, rm_request_hash = pq_request_hash r, rm_issued_at = pq_created_at r,
     rm_expires_at = pq_expires_at r\<rparr>"

definition paid_by :: "paid_request \<Rightarrow> pay_proof \<Rightarrow> bool" where
  "paid_by r p \<longleftrightarrow> pq_payment_tx r \<noteq> [] \<and> pq_payment_tx r = trim_space (pp_tx_id p) \<and>
    pq_payer r = to_lower (trim_space (pp_payer p))"

definition requirement_expired :: "requirement \<Rightarrow> instant \<Rightarrow> bool" where
  "requirement_expired m now \<longleftrightarrow> now > rm_expires_at m"

definition quote_expired :: "paid_request \<Rightarrow> instant \<Rightarrow> bool" where
  "quote_expired r now \<longleftrightarrow> now > pq_expires_at r"

definition pay_transition :: "pay_state \<Rightarrow> instant \<Rightarrow> paid_request \<Rightarrow> paid_request result" where
  "pay_transition next now r =
    (if next \<in> set (pay_transitions (pq_state r))
     then Inr (r\<lparr>pq_state := next, pq_version := pq_version r + 1, pq_updated_at := now\<rparr>)
     else Inl ErrConflict)"

definition pay_sign :: "string \<Rightarrow> string \<Rightarrow> instant \<Rightarrow> paid_request \<Rightarrow> paid_request result" where
  "pay_sign payer tx now r =
    (if trim_space payer = [] then Inl (Invalid ''payer'')
     else if trim_space tx = [] then Inl (Invalid ''tx_id'')
     else and_then (pay_transition PaySigned now r) (\<lambda>r'.
       Inr (r'\<lparr>pq_payer := to_lower (trim_space payer), pq_payment_tx := trim_space tx\<rparr>)))"

definition pay_verify :: "instant \<Rightarrow> paid_request \<Rightarrow> paid_request result" where
  "pay_verify now r = pay_transition PayVerified now r"

definition pay_hash :: "(string \<Rightarrow> string) \<Rightarrow> string \<Rightarrow> string" where
  "pay_hash H payload = ''0x'' @ hex_encode (H payload)"

definition pay_process :: "(string \<Rightarrow> string) \<Rightarrow> string \<Rightarrow> instant \<Rightarrow> paid_request \<Rightarrow> paid_request result" where
  "pay_process H response now r =
    (if response = [] then Inl (Invalid ''response'')
     else and_then (pay_transition PayProcessed now r) (\<lambda>r'.
       Inr (r'\<lparr>pq_response := response, pq_response_hash := pay_hash H response\<rparr>)))"

definition pay_settle :: "instant \<Rightarrow> paid_request \<Rightarrow> paid_request result" where
  "pay_settle now r = pay_transition PaySettled now r"

definition pay_reject :: "string \<Rightarrow> instant \<Rightarrow> paid_request \<Rightarrow> paid_request result" where
  "pay_reject reason now r =
    (let cleaned = trim_space reason
     in if cleaned = [] then Inl (Invalid ''reason'')
        else and_then (pay_transition PayRejected now r) (\<lambda>r'. Inr (r'\<lparr>pq_reason := take max_refusal_len cleaned\<rparr>)))"

section \<open>Digests of bodies\<close>

datatype 'j json = JScalar 'j | JArray "'j json list" | JObject "(string \<times> 'j json) list"

record 'j json_codec =
  js_parse :: "string \<Rightarrow> 'j json option"
  js_print :: "'j json \<Rightarrow> string option"

text \<open>The printer writes the members of an object in the order of their names, as the rebuilt map has them.\<close>

primrec canonical_json :: "'j json \<Rightarrow> 'j json" where
  "canonical_json (JScalar x) = JScalar x"
| "canonical_json (JArray xs) = JArray (map canonical_json xs)"
| "canonical_json (JObject ms) = JObject (sort_by (\<lambda>x y. fst x < fst y) (map (map_prod id canonical_json) ms))"

definition canonical_hash :: "(string \<Rightarrow> string) \<Rightarrow> 'j json_codec \<Rightarrow> string \<Rightarrow> string" where
  "canonical_hash H J payload =
    (case js_parse J payload of
       None \<Rightarrow> pay_hash H payload
     | Some v \<Rightarrow> (case js_print J (canonical_json v) of None \<Rightarrow> pay_hash H payload | Some t \<Rightarrow> pay_hash H t))"

section \<open>Facilitators\<close>

text \<open>A facilitator judges a proof against a requirement, reading and changing a ledger.\<close>

record 'n facilitator =
  fa_verify :: "requirement \<Rightarrow> pay_proof \<Rightarrow> instant \<Rightarrow> 'n \<Rightarrow> unit result \<times> 'n"
  fa_settle :: "pay_proof \<Rightarrow> 'n \<Rightarrow> unit result \<times> 'n"

record local_book =
  lb_ledger :: "(string \<times> pay_proof) list"
  lb_spent :: "(string \<times> string) list"
  lb_fail :: "app_error option"

definition local_pay_id :: "(string \<Rightarrow> string) \<Rightarrow> 'd decimal_ops \<Rightarrow> string \<Rightarrow> string \<Rightarrow> amount \<Rightarrow> string" where
  "local_pay_id H D payer nonce a =
    ''pay-'' @ hex_encode (take 12 (H (''local-payment|'' @ payer @ ''|'' @ nonce @ ''|''
      @ (case amount_string D a of Inl e \<Rightarrow> [] | Inr t \<Rightarrow> t))))"

definition local_pay ::
  "(string \<Rightarrow> string) \<Rightarrow> 'd decimal_ops \<Rightarrow> string \<Rightarrow> requirement \<Rightarrow> local_book \<Rightarrow> pay_proof \<times> local_book" where
  "local_pay H D payer m b =
    (let who = to_lower (trim_space payer);
         p = \<lparr>pp_nonce = rm_nonce m, pp_payer = who, pp_tx_id = local_pay_id H D who (rm_nonce m) (rm_price m),
              pp_amount = rm_price m, pp_signature = []\<rparr>
     in (p, b\<lparr>lb_ledger := AList.update (pp_tx_id p) p (lb_ledger b)\<rparr>))"

definition local_forge :: "pay_proof \<Rightarrow> local_book \<Rightarrow> local_book" where
  "local_forge p b = b\<lparr>lb_ledger := AList.update (pp_tx_id p) p (lb_ledger b)\<rparr>"

definition local_verify :: "requirement \<Rightarrow> pay_proof \<Rightarrow> instant \<Rightarrow> local_book \<Rightarrow> unit result \<times> local_book" where
  "local_verify m p now b =
    (case lb_fail b of
       Some e \<Rightarrow> (Inl e, b)
     | None \<Rightarrow>
         (case map_of (lb_ledger b) (pp_tx_id p) of
            None \<Rightarrow> (Inl ErrForbidden, b)
          | Some recorded \<Rightarrow>
              if requirement_expired m now then (Inl ErrForbidden, b)
              else if pp_nonce recorded \<noteq> rm_nonce m then (Inl ErrForbidden, b)
              else if pp_payer recorded \<noteq> to_lower (trim_space (pp_payer p)) then (Inl ErrForbidden, b)
              else case amount_cmp (pp_amount recorded) (rm_price m) of
                Inl e \<Rightarrow> (Inl ErrForbidden, b)
              | Inr gap \<Rightarrow>
                  if gap < 0 then (Inl ErrForbidden, b)
                  else if map_of (lb_spent b) (pp_tx_id p) \<notin> {None, Some (rm_request_hash m)} then (Inl ErrForbidden, b)
                  else (Inr (), b\<lparr>lb_spent := AList.update (pp_tx_id p) (rm_request_hash m) (lb_spent b)\<rparr>)))"

definition local_close :: "pay_proof \<Rightarrow> local_book \<Rightarrow> unit result \<times> local_book" where
  "local_close p b = (if map_of (lb_ledger b) (pp_tx_id p) = None then Inl ErrForbidden else Inr (), b)"

definition local_facilitator :: "local_book facilitator" where
  "local_facilitator = \<lparr>fa_verify = local_verify, fa_settle = local_close\<rparr>"

text \<open>What a network holds for a transaction. The checks are absent where the Go record has nil functions.\<close>

record ledger_payment =
  lp_found :: bool
  lp_succeeded :: bool
  lp_confirmed_at :: "instant option"
  lp_memo :: string
  lp_paid :: "(string \<Rightarrow> int \<Rightarrow> bool) option"
  lp_paid_by :: "(string \<Rightarrow> bool) option"

definition clock_skew_tolerance :: int where "clock_skew_tolerance = minutes 5"

text \<open>The verdict on what the ledger answered; the clauses are in the order of the code.\<close>

definition judge_record :: "string \<Rightarrow> requirement \<Rightarrow> pay_proof \<Rightarrow> ledger_payment \<Rightarrow> unit result" where
  "judge_record recipient m p l =
    (if \<not> lp_found l then Inl ErrUnavailable
     else if \<not> lp_succeeded l then Inl ErrForbidden
     else if (case lp_paid l of None \<Rightarrow> True | Some paid \<Rightarrow> \<not> paid recipient (minor (rm_price m))) then Inl ErrForbidden
     else if trim_space (pp_payer p) \<noteq> [] \<and> (case lp_paid_by l of None \<Rightarrow> False | Some by_whom \<Rightarrow> \<not> by_whom (trim_space (pp_payer p)))
       then Inl ErrForbidden
     else if trim_space (lp_memo l) \<noteq> trim_space (rm_nonce m) then Inl ErrForbidden
     else if (case lp_confirmed_at l of None \<Rightarrow> False | Some t \<Rightarrow> t < rm_issued_at m - clock_skew_tolerance) then Inl ErrForbidden
     else Inr ())"

definition chain_verify ::
  "(string \<Rightarrow> 'n \<Rightarrow> ledger_payment result \<times> 'n) \<Rightarrow> string \<Rightarrow> requirement \<Rightarrow> pay_proof \<Rightarrow> instant \<Rightarrow> 'n \<Rightarrow> unit result \<times> 'n" where
  "chain_verify ledger recipient m p now n =
    (if requirement_expired m now then (Inl ErrForbidden, n)
     else if trim_space (pp_tx_id p) = [] then (Inl (Invalid ''tx_id''), n)
     else case ledger (pp_tx_id p) n of
       (Inl e, n') \<Rightarrow> (Inl ErrUnavailable, n')
     | (Inr l, n') \<Rightarrow> (judge_record recipient m p l, n'))"

definition chain_close :: "(string \<Rightarrow> 'n \<Rightarrow> ledger_payment result \<times> 'n) \<Rightarrow> pay_proof \<Rightarrow> 'n \<Rightarrow> unit result \<times> 'n" where
  "chain_close ledger p n =
    (case ledger (pp_tx_id p) n of
       (Inl e, n') \<Rightarrow> (Inl ErrUnavailable, n')
     | (Inr l, n') \<Rightarrow> (if lp_succeeded l then Inr () else Inl ErrForbidden, n'))"

definition chain_facilitator :: "(string \<Rightarrow> 'n \<Rightarrow> ledger_payment result \<times> 'n) \<Rightarrow> string \<Rightarrow> 'n facilitator" where
  "chain_facilitator ledger recipient =
    \<lparr>fa_verify = chain_verify ledger (trim_space recipient), fa_settle = chain_close ledger\<rparr>"

section \<open>The table\<close>

text \<open>The unique indexes of the table: nonces; payments, where there is one; keys of an endpoint, where there is one.\<close>

record pay_store =
  ps_rows :: "(uuid, paid_request) table"
  ps_fail_commit :: "app_error option"

definition pay_tx :: "(pay_store \<Rightarrow> ('a \<times> pay_store) result) \<Rightarrow> pay_store \<Rightarrow> 'a result \<times> pay_store" where
  "pay_tx body s =
    (case body s of
       Inl e \<Rightarrow> (Inl e, s)
     | Inr (x, t) \<Rightarrow> (case ps_fail_commit t of None \<Rightarrow> (Inr x, t) | Some e \<Rightarrow> (Inl e, s)))"

definition pay_create :: "paid_request \<Rightarrow> pay_store \<Rightarrow> pay_store result" where
  "pay_create r s =
    (if list_ex (\<lambda>x. pq_id x = pq_id r \<or> pq_nonce x = pq_nonce r \<or>
          (pq_key r \<noteq> [] \<and> pq_endpoint x = pq_endpoint r \<and> pq_key x = pq_key r)) (table_rows (ps_rows s))
     then Inl ErrConflict
     else Inr (s\<lparr>ps_rows := table_put (pq_id r) r (ps_rows s)\<rparr>))"

definition pay_get :: "uuid \<Rightarrow> pay_store \<Rightarrow> paid_request result" where
  "pay_get i s = fetch i (ps_rows s)"

definition pay_by_nonce :: "string \<Rightarrow> pay_store \<Rightarrow> paid_request result" where
  "pay_by_nonce nonce s = find_row (\<lambda>r. pq_nonce r = nonce) (ps_rows s)"

definition pay_by_key :: "string \<Rightarrow> string \<Rightarrow> pay_store \<Rightarrow> paid_request result" where
  "pay_by_key endpoint key s = find_row (\<lambda>r. pq_endpoint r = endpoint \<and> pq_key r = key) (ps_rows s)"

definition pay_update :: "paid_request \<Rightarrow> int \<Rightarrow> pay_store \<Rightarrow> pay_store result" where
  "pay_update r expected s =
    (case map_of (ps_rows s) (pq_id r) of
       None \<Rightarrow> Inl ErrConflict
     | Some stored \<Rightarrow>
         if pq_version stored \<noteq> expected then Inl ErrConflict
         else if pq_payment_tx r \<noteq> [] \<and>
             list_ex (\<lambda>x. pq_id x \<noteq> pq_id r \<and> pq_payment_tx x = pq_payment_tx r) (table_rows (ps_rows s))
           then Inl ErrConflict
         else Inr (s\<lparr>ps_rows := table_put (pq_id r)
           (stored\<lparr>pq_payer := pq_payer r, pq_payment_tx := pq_payment_tx r, pq_response_hash := pq_response_hash r,
              pq_response := pq_response r, pq_state := pq_state r, pq_reason := pq_reason r, pq_version := pq_version r,
              pq_updated_at := pq_updated_at r\<rparr>) (ps_rows s)\<rparr>))"

definition stale_quote :: "instant \<Rightarrow> paid_request \<Rightarrow> bool" where
  "stale_quote before r \<longleftrightarrow> pq_state r = PayRequired \<and> pq_expires_at r < before"

definition pay_delete_expired :: "instant \<Rightarrow> pay_store \<Rightarrow> int \<times> pay_store" where
  "pay_delete_expired before s =
    (int (length (filter (stale_quote before) (table_rows (ps_rows s)))),
     s\<lparr>ps_rows := filter (\<lambda>(k, r). \<not> stale_quote before r) (ps_rows s)\<rparr>)"

section \<open>The exchange\<close>

record pay_config =
  pc_scheme :: string
  pc_network :: string
  pc_recipient :: string
  pc_asset :: string

definition quoted :: "pay_config \<Rightarrow> paid_request \<Rightarrow> requirement" where
  "quoted C r = pay_requirement (pc_scheme C) (pc_network C) (pc_recipient C) (pc_asset C) r"

record pay_outcome =
  po_requirement :: "requirement option"
  po_response :: string
  po_request :: paid_request
  po_replayed :: bool

definition pay_replay :: "pay_config \<Rightarrow> paid_request \<Rightarrow> string \<Rightarrow> pay_outcome result" where
  "pay_replay C existing request_hash =
    (if pq_request_hash existing \<noteq> request_hash then Inl ErrConflict
     else if pq_state existing = PayProcessed \<or> pq_state existing = PaySettled
       then Inr \<lparr>po_requirement = None, po_response = pq_response existing, po_request = existing, po_replayed = True\<rparr>
     else if pq_state existing = PayRejected then Inl ErrForbidden
     else Inr \<lparr>po_requirement = Some (quoted C existing), po_response = [], po_request = existing, po_replayed = False\<rparr>)"

text \<open>\<open>nonce\<close> is what the source of random bytes gave.\<close>

definition open_quote ::
  "(string \<Rightarrow> string) \<Rightarrow> 'j json_codec \<Rightarrow> pay_config \<Rightarrow> request \<Rightarrow> string result \<Rightarrow> string \<Rightarrow> string \<Rightarrow> amount \<Rightarrow> string \<Rightarrow>
    pay_store \<Rightarrow> pay_outcome result \<times> pay_store" where
  "open_quote H J C rq nonce endpoint body price key s =
    (let fresh = (case and_then nonce (\<lambda>v. new_paid_request \<lparr>qp_id = rq_ids rq 0, qp_endpoint = endpoint,
           qp_request_hash = canonical_hash H J body, qp_nonce = v, qp_key = key, qp_price = price\<rparr> (rq_now rq)) of
         Inl e \<Rightarrow> (Inl e, s)
       | Inr r \<Rightarrow>
           (case pay_tx (\<lambda>s. and_then (pay_create r s) (\<lambda>t. Inr ((), t))) s of
              (Inl e, t) \<Rightarrow> (Inl e, t)
            | (Inr _, t) \<Rightarrow>
                (Inr \<lparr>po_requirement = Some (quoted C r), po_response = [], po_request = r, po_replayed = False\<rparr>, t)))
     in if key = [] then fresh
        else case pay_by_key endpoint key s of
          Inr existing \<Rightarrow> (pay_replay C existing (canonical_hash H J body), s)
        | Inl e \<Rightarrow> if \<not> is_not_found e then (Inl e, s) else fresh)"

definition pay_check ::
  "(string \<Rightarrow> string) \<Rightarrow> 'j json_codec \<Rightarrow> pay_config \<Rightarrow> 'n facilitator \<Rightarrow> instant \<Rightarrow> paid_request \<Rightarrow> string \<Rightarrow> string \<Rightarrow> pay_proof \<Rightarrow>
    'n \<Rightarrow> unit result \<times> 'n" where
  "pay_check H J C F now r endpoint body p n =
    (if pq_endpoint r \<noteq> endpoint then (Inl ErrForbidden, n)
     else if pq_request_hash r \<noteq> canonical_hash H J body then (Inl ErrForbidden, n)
     else if quote_expired r now then (Inl ErrForbidden, n)
     else if pq_state r = PayRejected then (Inl ErrConflict, n)
     else if pq_state r \<noteq> PayRequired \<and> \<not> paid_by r p then (Inl ErrConflict, n)
     else fa_verify F (quoted C r) p now n)"

definition refuses_payment :: "app_error \<Rightarrow> bool" where
  "refuses_payment e \<longleftrightarrow> \<not> is_unavailable e \<and> \<not> is_conflict e"

definition pay_advance ::
  "(paid_request \<Rightarrow> paid_request result) \<Rightarrow> paid_request \<Rightarrow> pay_store \<Rightarrow> paid_request result \<times> pay_store" where
  "pay_advance change r =
    pay_tx (\<lambda>s. and_then (change r) (\<lambda>r'. and_then (pay_update r' (pq_version r) s) (\<lambda>t. Inr (r', t))))"

definition refuse_request ::
  "(app_error \<Rightarrow> string) \<Rightarrow> instant \<Rightarrow> paid_request \<Rightarrow> app_error \<Rightarrow> pay_store \<Rightarrow> unit result \<times> pay_store" where
  "refuse_request err_text now r cause s =
    (if pay_is_finished (pq_state r) then (Inr (), s)
     else case pay_advance (pay_reject (err_text cause) now) r s of
       (Inl e, t) \<Rightarrow> (Inl e, t)
     | (Inr _, t) \<Rightarrow> (Inr (), t))"

type_synonym 'n work = "string \<Rightarrow> 'n \<Rightarrow> string result \<times> 'n"

text \<open>From an accepted payment to the answer. When the facilitator cannot settle, the answer is given all the same.\<close>

definition produce_answer ::
  "(string \<Rightarrow> string) \<Rightarrow> 'n facilitator \<Rightarrow> instant \<Rightarrow> pay_proof \<Rightarrow> string \<Rightarrow> 'n work \<Rightarrow> paid_request \<Rightarrow> pay_store \<times> 'n \<Rightarrow>
    pay_outcome result \<times> pay_store \<times> 'n" where
  "produce_answer H F now p body work r = (\<lambda>(s, n).
    case work body n of
      (Inl e, n1) \<Rightarrow> (Inl e, s, n1)
    | (Inr response, n1) \<Rightarrow>
        (case pay_advance (pay_process H response now) r s of
           (Inl e, t) \<Rightarrow> (Inl e, t, n1)
         | (Inr r1, t) \<Rightarrow>
             (case fa_settle F p n1 of
                (Inl e, n2) \<Rightarrow>
                  (Inr \<lparr>po_requirement = None, po_response = response, po_request = r1, po_replayed = False\<rparr>, t, n2)
              | (Inr _, n2) \<Rightarrow>
                  (case pay_advance (pay_settle now) r1 t of
                     (Inl e, u) \<Rightarrow> (Inl e, u, n2)
                   | (Inr r2, u) \<Rightarrow>
                       (Inr \<lparr>po_requirement = None, po_response = response, po_request = r2, po_replayed = False\<rparr>, u, n2)))))"

definition sign_and_verify :: "pay_proof \<Rightarrow> instant \<Rightarrow> paid_request \<Rightarrow> paid_request result" where
  "sign_and_verify p now r = and_then (pay_sign (pp_payer p) (pp_tx_id p) now r) (pay_verify now)"

definition redeem ::
  "(app_error \<Rightarrow> string) \<Rightarrow> (string \<Rightarrow> string) \<Rightarrow> 'j json_codec \<Rightarrow> pay_config \<Rightarrow> 'n facilitator \<Rightarrow> instant \<Rightarrow> string \<Rightarrow> string \<Rightarrow>
    pay_proof \<Rightarrow> 'n work \<Rightarrow> pay_store \<times> 'n \<Rightarrow> pay_outcome result \<times> pay_store \<times> 'n" where
  "redeem err_text H J C F now endpoint body p work = (\<lambda>(s, n).
    if trim_space (pp_nonce p) = [] then (Inl (Invalid ''payment.nonce''), s, n)
    else case pay_by_nonce (pp_nonce p) s of
      Inl e \<Rightarrow> (Inl e, s, n)
    | Inr r \<Rightarrow>
        if pq_state r = PayProcessed \<or> pq_state r = PaySettled then (pay_replay C r (canonical_hash H J body), s, n)
        else (case pay_check H J C F now r endpoint body p n of
            (Inl e, n1) \<Rightarrow>
              if \<not> refuses_payment e then (Inl e, s, n1)
              else (case refuse_request err_text now r e s of
                  (Inl e', t) \<Rightarrow> (Inl e', t, n1)
                | (Inr _, t) \<Rightarrow> (Inl e, t, n1))
          | (Inr _, n1) \<Rightarrow>
              (case (if pq_state r = PayRequired then pay_advance (sign_and_verify p now) r s else (Inr r, s)) of
                 (Inl e, t) \<Rightarrow> (Inl e, t, n1)
               | (Inr r1, t) \<Rightarrow> produce_answer H F now p body work r1 (t, n1))))"

definition purge_quotes :: "instant \<Rightarrow> pay_store \<Rightarrow> int result \<times> pay_store" where
  "purge_quotes now = pay_tx (\<lambda>s. Inr (pay_delete_expired now s))"

end
