(* ===== verification/Payments_Facts.thy ===== *)
theory Payments_Facts
  imports Payments
begin

text \<open>
  What the exchange of \<open>Payments\<close> guarantees. \<open>pay_step\<close> is one write of the service, and every operation is a sequence
  of them; over any such sequence, from any interleaving of clients, the table stays sound, one transaction pays
  for one request, and an answer that was bought stays available to whoever asks the same question under
  its nonce. A facilitator that binds a transaction to a nonce is a locale, interpreted on both facilitators.
\<close>

section \<open>Writes\<close>

text \<open>How a request moves: only a request that has no answer yet is refused.\<close>

inductive pay_moves :: "(string \<Rightarrow> string) \<Rightarrow> paid_request \<Rightarrow> paid_request \<Rightarrow> bool" for H where
  moves_signed: "sign_and_verify p now r = Inr r' \<Longrightarrow> pay_moves H r r'"
| moves_processed: "pay_process H response now r = Inr r' \<Longrightarrow> pay_moves H r r'"
| moves_settled: "pay_settle now r = Inr r' \<Longrightarrow> pay_moves H r r'"
| moves_refused: "pay_reject reason now r = Inr r' \<Longrightarrow> pq_state r \<noteq> PayProcessed \<Longrightarrow> pay_moves H r r'"

inductive pay_step :: "(string \<Rightarrow> string) \<Rightarrow> pay_store \<Rightarrow> pay_store \<Rightarrow> bool" for H where
  pay_step_create: "new_paid_request p now = Inr r \<Longrightarrow> pay_create r s = Inr t \<Longrightarrow> pay_step H s t"
| pay_step_move: "pay_get i s = Inr r \<Longrightarrow> pay_moves H r r' \<Longrightarrow> pay_update r' (pq_version r) s = Inr t \<Longrightarrow> pay_step H s t"
| pay_step_purge: "pay_step H s (snd (pay_delete_expired before s))"

abbreviation pay_steps :: "(string \<Rightarrow> string) \<Rightarrow> pay_store \<Rightarrow> pay_store \<Rightarrow> bool" where
  "pay_steps H \<equiv> (pay_step H)\<^sup>*\<^sup>*"

lemma pay_transition_Inr [result_simps]:
  "pay_transition next now r = Inr r' \<longleftrightarrow> next \<in> set (pay_transitions (pq_state r)) \<and>
    r' = r\<lparr>pq_state := next, pq_version := pq_version r + 1, pq_updated_at := now\<rparr>"
  by (auto simp: pay_transition_def)

lemmas pay_command_defs = sign_and_verify_def pay_sign_def pay_verify_def pay_process_def pay_settle_def pay_reject_def

text \<open>The fields of a quote, which no command changes.\<close>

definition quote_terms :: "paid_request \<Rightarrow> uuid \<times> string \<times> string \<times> string \<times> string \<times> amount \<times> instant \<times> instant" where
  "quote_terms r = (pq_id r, pq_endpoint r, pq_request_hash r, pq_nonce r, pq_key r, pq_price r, pq_created_at r, pq_expires_at r)"

lemma pay_moves_cases:
  assumes "pay_moves H r r'"
  obtains (signed) "pq_state r = PayRequired" "pq_state r' = PayVerified" "pq_payment_tx r' \<noteq> []"
      "pq_response r' = pq_response r" "pq_response_hash r' = pq_response_hash r"
  | (processed) "pq_state r = PayVerified" "pq_state r' = PayProcessed" "pq_payment_tx r' = pq_payment_tx r"
      "pq_response r' \<noteq> []" "pq_response_hash r' = pay_hash H (pq_response r')"
  | (settled) "pq_state r = PayProcessed" "pq_state r' = PaySettled" "pq_payment_tx r' = pq_payment_tx r"
      "pq_response r' = pq_response r" "pq_response_hash r' = pq_response_hash r"
  | (refused) "pq_state r \<noteq> PayProcessed" "pq_state r \<noteq> PaySettled" "pq_state r' = PayRejected"
      "pq_payment_tx r' = pq_payment_tx r"
  using assms
proof cases
  case (moves_signed p now)
  then show thesis
    by (intro signed) (cases "pq_state r"; auto simp: pay_command_defs and_then_Inr_iff result_simps split: if_splits)+
next
  case (moves_processed response now)
  then show thesis
    by (intro processed) (cases "pq_state r"; auto simp: pay_command_defs and_then_Inr_iff result_simps split: if_splits)+
next
  case (moves_settled now)
  then show thesis
    by (intro settled) (cases "pq_state r"; auto simp: pay_command_defs result_simps)+
next
  case (moves_refused reason now)
  then show thesis
    by (intro refused) (cases "pq_state r"; auto simp: pay_command_defs Let_def and_then_Inr_iff result_simps split: if_splits)+
qed

lemma pay_moves_terms: "pay_moves H r r' \<Longrightarrow> quote_terms r' = quote_terms r"
  by (erule pay_moves.cases)
    (auto simp: pay_command_defs Let_def and_then_Inr_iff result_simps quote_terms_def split: if_splits)

section \<open>The table\<close>

definition pay_row_sound :: "(string \<Rightarrow> string) \<Rightarrow> paid_request \<Rightarrow> bool" where
  "pay_row_sound H r \<longleftrightarrow> trim_space (pq_nonce r) = pq_nonce r \<and> pq_nonce r \<noteq> [] \<and>
    (pay_is_paid (pq_state r) \<longrightarrow> pq_payment_tx r \<noteq> []) \<and> (pq_state r = PayRequired \<longrightarrow> pq_payment_tx r = []) \<and>
    (pq_state r \<in> {PayProcessed, PaySettled} \<longrightarrow> pq_response r \<noteq> [] \<and> pq_response_hash r = pay_hash H (pq_response r))"

definition same_nonce :: "paid_request \<Rightarrow> paid_request \<Rightarrow> bool" where
  "same_nonce r r' \<longleftrightarrow> pq_nonce r = pq_nonce r'"

definition same_payment :: "paid_request \<Rightarrow> paid_request \<Rightarrow> bool" where
  "same_payment r r' \<longleftrightarrow> pq_payment_tx r \<noteq> [] \<and> pq_payment_tx r = pq_payment_tx r'"

definition pay_sound :: "(string \<Rightarrow> string) \<Rightarrow> pay_store \<Rightarrow> bool" where
  "pay_sound H s \<longleftrightarrow> keyed pq_id (ps_rows s) \<and> apart same_nonce (ps_rows s) \<and> apart same_payment (ps_rows s) \<and>
    (\<forall>i r. map_of (ps_rows s) i = Some r \<longrightarrow> pay_row_sound H r)"

lemma same_symp: "symp same_nonce" "symp same_payment"
  by (auto intro!: sympI simp: same_nonce_def same_payment_def)

lemma pay_update_Inr:
  assumes "pay_update r' (pq_version r) s = Inr t" and "map_of (ps_rows s) i = Some r" and "pq_id r = i"
    and "quote_terms r' = quote_terms r"
  shows "t = s\<lparr>ps_rows := table_put i r' (ps_rows s)\<rparr>"
    and "pq_payment_tx r' \<noteq> [] \<Longrightarrow> \<not> list_ex (\<lambda>x. pq_id x \<noteq> i \<and> pq_payment_tx x = pq_payment_tx r') (table_rows (ps_rows s))"
proof -
  have i: "pq_id r' = i" using assms(3,4) by (simp add: quote_terms_def)
  have "r\<lparr>pq_payer := pq_payer r', pq_payment_tx := pq_payment_tx r', pq_response_hash := pq_response_hash r',
      pq_response := pq_response r', pq_state := pq_state r', pq_reason := pq_reason r', pq_version := pq_version r',
      pq_updated_at := pq_updated_at r'\<rparr> = r'"
    using assms(4) by (simp add: quote_terms_def)
  then show "t = s\<lparr>ps_rows := table_put i r' (ps_rows s)\<rparr>"
    using assms(1,2) i by (auto simp: pay_update_def split: if_splits)
  show "\<not> list_ex (\<lambda>x. pq_id x \<noteq> i \<and> pq_payment_tx x = pq_payment_tx r') (table_rows (ps_rows s))" if "pq_payment_tx r' \<noteq> []"
    using assms(1,2) i that by (auto simp: pay_update_def split: if_splits)
qed

lemma pay_create_Inr:
  assumes "pay_create r s = Inr t"
  shows "t = s\<lparr>ps_rows := table_put (pq_id r) r (ps_rows s)\<rparr>"
    and "x \<in> set (table_rows (ps_rows s)) \<Longrightarrow> pq_id x \<noteq> pq_id r \<and> pq_nonce x \<noteq> pq_nonce r"
  using assms by (auto simp: pay_create_def list_ex_iff split: if_splits)

lemma new_paid_request_sound: "new_paid_request p now = Inr r \<Longrightarrow> pay_row_sound H r \<and> pq_payment_tx r = []"
  by (auto simp: new_paid_request_def result_simps pay_row_sound_def pay_is_paid_def)

lemma pay_row_sound_moves:
  assumes "pay_moves H r r'" and "pay_row_sound H r" shows "pay_row_sound H r'"
proof -
  have "pq_nonce r' = pq_nonce r" using pay_moves_terms [OF assms(1)] by (simp add: quote_terms_def)
  then show ?thesis using assms by (elim pay_moves_cases) (auto simp: pay_row_sound_def pay_is_paid_def)
qed

lemma map_of_filter:
  assumes "distinct (map fst t)" and "map_of (filter P t) k = Some v" shows "map_of t k = Some v"
  using map_of_SomeD [OF assms(2)] assms(1) by simp

lemma pay_sound_step:
  assumes "pay_step H s t" and "pay_sound H s" shows "pay_sound H t"
  using assms(1)
proof cases
  case (pay_step_create p now r)
  note t = pay_create_Inr [OF pay_step_create(2)]
  have r: "pay_row_sound H r" "pq_payment_tx r = []" using new_paid_request_sound [OF pay_step_create(1)] by auto
  have other: "pq_nonce r' \<noteq> pq_nonce r" if "map_of (ps_rows s) k = Some r'" for k r'
    using t(2) [of r'] map_of_SomeD [OF that] by (force simp: table_rows_def)
  have "apart same_nonce (table_put (pq_id r) r (ps_rows s))"
    using assms(2) by (intro apart_put same_symp) (auto simp: pay_sound_def same_nonce_def dest: other)
  moreover have "apart same_payment (table_put (pq_id r) r (ps_rows s))"
    using assms(2) r(2) by (intro apart_put same_symp) (auto simp: pay_sound_def same_payment_def)
  ultimately show ?thesis using assms(2) r(1) by (auto simp: pay_sound_def t(1))
next
  case (pay_step_move i r r')
  have r: "map_of (ps_rows s) i = Some r" "pq_id r = i"
    using pay_step_move(1) assms(2) keyed_lookup by (auto simp: pay_get_def fetch_Inr pay_sound_def)
  note terms = pay_moves_terms [OF pay_step_move(2)]
  note t = pay_update_Inr [OF pay_step_move(3) r terms]
  have i: "pq_id r' = i" and nonce: "pq_nonce r' = pq_nonce r" using terms r(2) by (simp_all add: quote_terms_def)
  have "\<not> same_payment r' v" if v: "map_of (ps_rows s) k = Some v" "k \<noteq> i" for k v
  proof -
    have "pq_id v = k" using v(1) assms(2) keyed_lookup by (auto simp: pay_sound_def)
    moreover have "v \<in> set (table_rows (ps_rows s))" using map_of_SomeD [OF v(1)] by (force simp: table_rows_def)
    ultimately show ?thesis using t(2) v(2) by (auto simp: same_payment_def list_ex_iff)
  qed
  then have "apart same_payment (table_put i r' (ps_rows s))"
    using assms(2) by (intro apart_put same_symp) (auto simp: pay_sound_def)
  moreover have "apart same_nonce (table_put i r' (ps_rows s))"
    using assms(2) r(1) nonce by (intro apart_advance [where w = r] same_symp) (auto simp: pay_sound_def same_nonce_def)
  moreover have "pay_row_sound H r'" using pay_row_sound_moves [OF pay_step_move(2)] assms(2) r(1) by (auto simp: pay_sound_def)
  moreover have "keyed pq_id (table_put i r' (ps_rows s))" using assms(2) i keyed_put [of pq_id "ps_rows s" r'] by (simp add: pay_sound_def)
  ultimately show ?thesis using assms(2) by (auto simp: pay_sound_def t(1))
next
  case (pay_step_purge before)
  have rows: "ps_rows t = filter (\<lambda>(k, r). \<not> stale_quote before r) (ps_rows s)"
    by (simp add: pay_step_purge pay_delete_expired_def)
  have d: "distinct (map fst (ps_rows s))" using assms(2) by (simp add: pay_sound_def keyed_def)
  have kept: "map_of (ps_rows t) k = Some v \<Longrightarrow> map_of (ps_rows s) k = Some v" for k v
    unfolding rows by (rule map_of_filter [OF d])
  have "keyed pq_id (ps_rows t)" unfolding rows using assms(2) by (intro keyed_filter) (simp add: pay_sound_def)
  moreover have "apart R (ps_rows t)" if "apart R (ps_rows s)" for R
    using that kept unfolding apart_def by metis
  ultimately show ?thesis using assms(2) by (auto simp: pay_sound_def dest: kept)
qed

lemma pay_sound_steps: "pay_steps H s t \<Longrightarrow> pay_sound H s \<Longrightarrow> pay_sound H t"
  by (induction rule: rtranclp_induct) (auto intro: pay_sound_step)

section \<open>The operations are sequences of writes\<close>

lemma pay_tx_cases:
  assumes "pay_tx body s = (r, t)"
  obtains (failed) e where "r = Inl e" and "t = s" | (committed) x where "r = Inr x" and "body s = Inr (x, t)" and "ps_fail_commit t = None"
  using assms by (auto simp: pay_tx_def split: sum.splits option.splits)

lemma pay_advance_cases:
  assumes "pay_advance change r s = (res, t)" and "map_of (ps_rows s) i = Some r" and "pq_id r = i"
    and "\<forall>r'. change r = Inr r' \<longrightarrow> pay_moves H r r'"
  obtains (failed) e where "res = Inl e" and "t = s"
  | (moved) r' where "res = Inr r'" and "change r = Inr r'" and "pay_moves H r r'" and "pay_step H s t"
      and "t = s\<lparr>ps_rows := table_put i r' (ps_rows s)\<rparr>"
proof (rule pay_tx_cases [OF assms(1) [unfolded pay_advance_def]])
  fix x
  assume x: "res = Inr x" "and_then (change r) (\<lambda>r'. and_then (pay_update r' (pq_version r) s) (\<lambda>t. Inr (r', t))) = Inr (x, t)"
  then have c: "change r = Inr x" "pay_update x (pq_version r) s = Inr t" by (auto simp: and_then_Inr_iff)
  have m: "pay_moves H r x" using assms(4) c(1) by blast
  have "pay_step H s t" using assms(2) by (intro pay_step_move [of i, OF _ m c(2)]) (simp add: pay_get_def fetch_def)
  with x(1) c(1) m show thesis
    using moved pay_update_Inr(1) [OF c(2) assms(2,3) pay_moves_terms [OF m]] by blast
qed (rule failed)

lemma open_quote_steps:
  assumes "open_quote H J C rq nonce endpoint body price key s = (res, t)" shows "pay_steps H' s t"
proof -
  have "pay_step H' s t" if "new_paid_request p now = Inr r"
    "pay_tx (\<lambda>s. and_then (pay_create r s) (\<lambda>t. Inr ((), t))) s = (y, t)" "t \<noteq> s" for p now r y
    using that(2)
  proof (cases rule: pay_tx_cases)
    case (committed x)
    then have "pay_create r s = Inr t" by (auto simp: and_then_Inr_iff)
    then show ?thesis by (rule pay_step_create [OF that(1)])
  qed (use that(3) in simp)
  then show ?thesis
    using assms
    by (cases "t = s")
      (auto simp: open_quote_def Let_def and_then_Inr_iff intro!: r_into_rtranclp split: if_splits sum.splits prod.splits)
qed

lemma purge_steps: "purge_quotes now s = (res, t) \<Longrightarrow> pay_steps H s t"
  unfolding purge_quotes_def
  by (erule pay_tx_cases) (auto intro: r_into_rtranclp pay_step_purge [of H s now] simp: prod_eq_iff)

text \<open>The part of \<^const>\<open>redeem\<close> after the payment was accepted.\<close>

lemma produce_answer_effect:
  assumes "produce_answer H F now p body work r (s, n) = (res, t, n')" and "map_of (ps_rows s) i = Some r" and "pq_id r = i"
  shows "pay_steps H s t"
    and "res = Inr v \<Longrightarrow> (\<exists>n1. work body n = (Inr (po_response v), n1)) \<and> \<not> po_replayed v \<and>
      (\<exists>r'. map_of (ps_rows t) i = Some r' \<and> pq_state r' \<in> {PayProcessed, PaySettled} \<and> pq_response r' = po_response v \<and>
        pq_payment_tx r' = pq_payment_tx r)"
proof -
  obtain w n1 where w: "work body n = (w, n1)" by (metis prod.collapse)
  have "pay_steps H s t \<and> (res = Inr v \<longrightarrow> (\<exists>n1. work body n = (Inr (po_response v), n1)) \<and> \<not> po_replayed v \<and>
      (\<exists>r'. map_of (ps_rows t) i = Some r' \<and> pq_state r' \<in> {PayProcessed, PaySettled} \<and> pq_response r' = po_response v \<and>
        pq_payment_tx r' = pq_payment_tx r))"
  proof (cases w)
    case (Inl e)
    then show ?thesis using assms(1) w by (auto simp: produce_answer_def)
  next
    case (Inr response)
    obtain a1 t1 where a1: "pay_advance (pay_process H response now) r s = (a1, t1)" by (metis prod.collapse)
    have "\<forall>r'. pay_process H response now r = Inr r' \<longrightarrow> pay_moves H r r'" by (blast intro: moves_processed)
    from a1 assms(2,3) this show ?thesis
    proof (cases rule: pay_advance_cases)
      case (failed e)
      then show ?thesis using assms(1) w Inr a1 by (auto simp: produce_answer_def)
    next
      case (moved r1)
      have r1: "pq_id r1 = i" "pq_state r1 = PayProcessed" "pq_response r1 = response" "pq_payment_tx r1 = pq_payment_tx r"
        using moved(2) assms(3) by (auto simp: pay_process_def and_then_Inr_iff result_simps split: if_splits)
      have t1: "map_of (ps_rows t1) i = Some r1" by (simp add: moved(5))
      obtain f n2 where f: "fa_settle F p n1 = (f, n2)" by (metis prod.collapse)
      show ?thesis
      proof (cases f)
        case (Inl e)
        then show ?thesis using assms(1) w Inr a1 moved(1,4) f t1 r1 by (auto simp: produce_answer_def)
      next
        case settled: (Inr y)
        obtain a2 t2 where a2: "pay_advance (pay_settle now) r1 t1 = (a2, t2)" by (metis prod.collapse)
        have "\<forall>r'. pay_settle now r1 = Inr r' \<longrightarrow> pay_moves H r1 r'" by (blast intro: moves_settled)
        from a2 t1 r1(1) this show ?thesis
        proof (cases rule: pay_advance_cases)
          case (failed e)
          then show ?thesis using assms(1) w Inr a1 moved(1,4) f settled a2 by (auto simp: produce_answer_def)
        next
          case again: (moved r2)
          have "pq_state r2 = PaySettled" "pq_response r2 = response" "pq_payment_tx r2 = pq_payment_tx r"
            using again(2) r1 by (auto simp: pay_settle_def result_simps)
          then show ?thesis
            using assms(1) w Inr a1 moved(1,4) f settled a2 again(1,4,5)
            by (auto simp: produce_answer_def intro: rtranclp.rtrancl_into_rtrancl)
        qed
      qed
    qed
  qed
  then show "pay_steps H s t" and "res = Inr v \<Longrightarrow> (\<exists>n1. work body n = (Inr (po_response v), n1)) \<and> \<not> po_replayed v \<and>
      (\<exists>r'. map_of (ps_rows t) i = Some r' \<and> pq_state r' \<in> {PayProcessed, PaySettled} \<and> pq_response r' = po_response v \<and>
        pq_payment_tx r' = pq_payment_tx r)"
    by blast+
qed

lemma pay_by_nonce_row:
  assumes "pay_by_nonce nonce s = Inr r" and "pay_sound H s"
  shows "map_of (ps_rows s) (pq_id r) = Some r" and "pq_nonce r = nonce" and "pay_row_sound H r"
proof -
  have r: "r \<in> set (table_rows (ps_rows s))" "pq_nonce r = nonce"
    using find_row_Inr [OF assms(1) [unfolded pay_by_nonce_def]] by auto
  then show "map_of (ps_rows s) (pq_id r) = Some r" "pq_nonce r = nonce"
    using assms(2) keyed_rows [of pq_id "ps_rows s" r] by (auto simp: pay_sound_def)
  then show "pay_row_sound H r" using assms(2) by (simp add: pay_sound_def)
qed

lemma pay_nonce_found:
  assumes "map_of (ps_rows s) i = Some r" and "pay_sound H s" shows "pay_by_nonce (pq_nonce r) s = Inr r"
proof -
  have "r \<in> set (table_rows (ps_rows s))" using map_of_SomeD [OF assms(1)] by (force simp: table_rows_def)
  then have "find (\<lambda>x. pq_nonce x = pq_nonce r) (table_rows (ps_rows s)) \<noteq> None" by (auto simp: find_None_iff)
  then obtain r' where found: "pay_by_nonce (pq_nonce r) s = Inr r'" by (auto simp: pay_by_nonce_def find_row_def)
  note r' = pay_by_nonce_row [OF found assms(2)]
  have "pq_id r' = i" using assms r'(1,2) unfolding pay_sound_def apart_def same_nonce_def by metis
  then show ?thesis using found r'(1) assms(1) by simp
qed

text \<open>The ways through \<^const>\<open>redeem\<close>.\<close>

lemma redeem_cases:
  assumes "redeem err_text H J C F now endpoint body p work (s, n) = (res, t, n')" and "pay_sound H s"
  obtains (refused) e where "res = Inl e" and "pay_steps H s t"
  | (replayed) r where "pay_by_nonce (pp_nonce p) s = Inr r" and "pq_state r \<in> {PayProcessed, PaySettled}"
      and "res = pay_replay C r (canonical_hash H J body)" and "t = s" and "n' = n"
  | (accepted) r n1 r1 s1 where "pay_by_nonce (pp_nonce p) s = Inr r"
      and "pay_check H J C F now r endpoint body p n = (Inr (), n1)" and "pay_steps H s s1"
      and "map_of (ps_rows s1) (pq_id r) = Some r1" and "pq_id r1 = pq_id r"
      and "pq_payment_tx r1 = trim_space (pp_tx_id p)"
      and "produce_answer H F now p body work r1 (s1, n1) = (res, t, n')"
proof (cases "trim_space (pp_nonce p) = [] \<or> isl (pay_by_nonce (pp_nonce p) s)")
  case True
  then have "\<exists>e. res = Inl e \<and> t = s" using assms(1) by (auto simp: redeem_def isl_def split: if_splits)
  then show thesis using refused by blast
next
  case False
  then obtain r where nonce: "trim_space (pp_nonce p) \<noteq> []" and r: "pay_by_nonce (pp_nonce p) s = Inr r"
    by (auto simp: not_isl_iff)
  note row = pay_by_nonce_row [OF r assms(2)]
  show thesis
  proof (cases "pq_state r \<in> {PayProcessed, PaySettled}")
    case True
    then show thesis using assms(1) nonce r by (intro replayed [OF r True]) (auto simp: redeem_def)
  next
    case open_request: False
    obtain verdict n1 where verdict: "pay_check H J C F now r endpoint body p n = (verdict, n1)" by (metis prod.collapse)
    show thesis
    proof (cases verdict)
      case (Inl e)
      have moves: "\<forall>r'. pay_reject (err_text e) now r = Inr r' \<longrightarrow> pay_moves H r r'"
        using open_request by (auto intro: moves_refused)
      obtain a u where a: "pay_advance (pay_reject (err_text e) now) r s = (a, u)" by (metis prod.collapse)
      from a row(1) refl moves have "pay_steps H s u" by (cases rule: pay_advance_cases) auto
      then show thesis
        using assms(1) nonce r open_request verdict Inl a refused
        by (auto simp: redeem_def refuse_request_def split: if_splits sum.splits)
    next
      case (Inr y)
      show thesis
      proof (cases "pq_state r = PayRequired")
        case True
        have moves: "\<forall>r'. sign_and_verify p now r = Inr r' \<longrightarrow> pay_moves H r r'" by (auto intro: moves_signed)
        obtain a u where a: "pay_advance (sign_and_verify p now) r s = (a, u)" by (metis prod.collapse)
        from a row(1) refl moves show thesis
        proof (cases rule: pay_advance_cases)
          case (failed e)
          then show thesis using assms(1) nonce r open_request verdict Inr True a refused by (auto simp: redeem_def)
        next
          case (moved r1)
          have "pq_id r1 = pq_id r" "pq_payment_tx r1 = trim_space (pp_tx_id p)"
            using moved(2) by (auto simp: pay_command_defs and_then_Inr_iff result_simps split: if_splits)
          moreover have "produce_answer H F now p body work r1 (u, n1) = (res, t, n')"
            using assms(1) nonce r open_request verdict Inr True a moved(1) by (simp add: redeem_def)
          ultimately show thesis
            using accepted [OF r _ r_into_rtranclp, OF _ moved(4)] verdict Inr moved(5) by simp
        qed
      next
        case False
        then have "pq_payment_tx r = trim_space (pp_tx_id p)"
          using verdict Inr by (auto simp: pay_check_def paid_by_def split: if_splits)
        moreover have "produce_answer H F now p body work r (s, n1) = (res, t, n')"
          using assms(1) nonce r open_request verdict Inr False by (simp add: redeem_def)
        ultimately show thesis using accepted [OF r _ rtranclp.rtrancl_refl row(1) refl] verdict Inr by simp
      qed
    qed
  qed
qed

lemma redeem_steps:
  assumes "redeem err_text H J C F now endpoint body p work (s, n) = (res, t, n')" and "pay_sound H s"
  shows "pay_steps H s t"
  using assms
proof (cases rule: redeem_cases)
  case (accepted r n1 r1 s1)
  from rtranclp_trans [OF accepted(3) produce_answer_effect(1) [OF accepted(7,4,5)]] show ?thesis .
qed auto

section \<open>Answers stay\<close>

definition answered :: "paid_request \<Rightarrow> bool" where
  "answered r \<longleftrightarrow> pq_state r \<in> {PayProcessed, PaySettled}"

definition bought :: "paid_request \<Rightarrow> string \<times> string \<times> string" where
  "bought r = (pq_response r, pq_response_hash r, pq_payment_tx r)"

lemma answered_step:
  assumes "pay_step H s t" and "pay_sound H s" and "map_of (ps_rows s) i = Some r" and "answered r"
  shows "\<exists>r'. map_of (ps_rows t) i = Some r' \<and> answered r' \<and> quote_terms r' = quote_terms r \<and> bought r' = bought r"
  using assms(1)
proof cases
  case (pay_step_create p now v)
  have "r \<in> set (table_rows (ps_rows s))" using map_of_SomeD [OF assms(3)] by (force simp: table_rows_def)
  then have "pq_id r \<noteq> pq_id v" using pay_create_Inr(2) [OF pay_step_create(2)] by auto
  moreover have "pq_id r = i" using assms(2,3) keyed_lookup by (auto simp: pay_sound_def)
  ultimately show ?thesis using assms(3,4) by (simp add: pay_create_Inr(1) [OF pay_step_create(2)])
next
  case (pay_step_move j v v')
  have v: "map_of (ps_rows s) j = Some v" "pq_id v = j"
    using pay_step_move(1) assms(2) keyed_lookup by (auto simp: pay_get_def fetch_Inr pay_sound_def)
  note terms = pay_moves_terms [OF pay_step_move(2)]
  note t = pay_update_Inr(1) [OF pay_step_move(3) v terms]
  show ?thesis
  proof (cases "i = j")
    case True
    then have "v = r" using v(1) assms(3) by simp
    with pay_step_move(2) assms(4) have "answered v' \<and> bought v' = bought r"
      by (auto simp: answered_def bought_def elim!: pay_moves_cases)
    then show ?thesis using True terms \<open>v = r\<close> by (simp add: t)
  qed (use assms(3,4) t in simp)
next
  case (pay_step_purge before)
  have "(i, r) \<in> set (ps_rows s)" by (rule map_of_SomeD [OF assms(3)])
  then have "(i, r) \<in> set (ps_rows t)"
    using assms(4) by (auto simp: pay_step_purge pay_delete_expired_def stale_quote_def answered_def)
  moreover have "distinct (map fst (ps_rows t))"
    using pay_sound_step [OF assms(1,2)] by (simp add: pay_sound_def keyed_def)
  ultimately show ?thesis using assms(4) by simp
qed

lemma answered_steps:
  assumes "pay_steps H s t" and "pay_sound H s" and "map_of (ps_rows s) i = Some r" and "answered r"
  shows "pay_sound H t \<and> (\<exists>r'. map_of (ps_rows t) i = Some r' \<and> answered r' \<and> quote_terms r' = quote_terms r \<and> bought r' = bought r)"
  using assms(1)
proof (induction rule: rtranclp_induct)
  case base
  then show ?case using assms(2-4) by blast
next
  case (step t u)
  then obtain r' where r': "map_of (ps_rows t) i = Some r'" "answered r'" "quote_terms r' = quote_terms r" "bought r' = bought r"
    by blast
  from answered_step [OF step.hyps(2) _ r'(1,2)] step.IH pay_sound_step [OF step.hyps(2)] r'(3,4) show ?case by metis
qed

text \<open>In every table the service can reach, a transaction pays for one request.\<close>

lemma payment_buys_one_answer:
  assumes "pay_steps H \<lparr>ps_rows = [], ps_fail_commit = f\<rparr> s" and "map_of (ps_rows s) i = Some r" and "map_of (ps_rows s) j = Some r'"
    and "pay_is_paid (pq_state r)" and "pq_payment_tx r = pq_payment_tx r'"
  shows "i = j"
proof -
  have "pay_sound H s" by (rule pay_sound_steps [OF assms(1)]) (simp add: pay_sound_def)
  then show ?thesis using assms(2-5) unfolding pay_sound_def apart_def same_payment_def pay_row_sound_def by metis
qed

section \<open>The same question\<close>

text \<open>Values that differ in the order of the members of their objects.\<close>

inductive same_json :: "'j json \<Rightarrow> 'j json \<Rightarrow> bool" where
  same_scalar: "same_json (JScalar x) (JScalar x)"
| same_array: "list_all2 same_json xs ys \<Longrightarrow> same_json (JArray xs) (JArray ys)"
| same_object: "list_all2 (rel_prod (=) same_json) ms ks \<Longrightarrow> distinct (map fst ms) \<Longrightarrow> mset ks = mset ns \<Longrightarrow>
    same_json (JObject ms) (JObject ns)"

lemma same_json_canonical: "same_json v w \<Longrightarrow> canonical_json v = canonical_json w"
proof (induction rule: same_json.induct)
  case (same_array xs ys)
  then have "map canonical_json xs = map canonical_json ys" by (induction rule: list_all2_induct) auto
  then show ?case by simp
next
  case (same_object ms ks ns)
  let ?f = "map_prod id canonical_json"
  have f: "map ?f ms = map ?f ks"
    using same_object.IH by (induction rule: list_all2_induct) (auto simp: rel_prod_sel)
  have keys: "distinct (map fst (map ?f ms))" using same_object.hyps(1) by (simp add: comp_def)
  have "mset (map ?f ms) = mset (map ?f ns)" using f same_object.hyps(2) by simp
  moreover have "x = y" if "x \<in> set (map ?f ms)" "y \<in> set (map ?f ms)" "\<not> fst x < fst y" "\<not> fst y < fst x" for x y
  proof -
    have "fst x = fst y" using that(3,4) by simp
    then show ?thesis using that(1,2) by (metis eq_key_imp_eq_value [OF keys] prod.collapse)
  qed
  ultimately have "sort_by (\<lambda>x y. fst x < fst y) (map ?f ms) = sort_by (\<lambda>x y. fst x < fst y) (map ?f ns)"
    by (rule grade_order.sort_by_cong)
  then show ?case by simp
qed simp

lemma same_question_same_hash:
  assumes "js_parse J a = Some v" and "js_parse J b = Some w" and "same_json v w" and "js_print J (canonical_json v) \<noteq> None"
  shows "canonical_hash H J a = canonical_hash H J b"
  using assms(1,2,4) same_json_canonical [OF assms(3)] by (auto simp: canonical_hash_def)

section \<open>Facilitators bind a transaction to a quote\<close>

locale binding_facilitator =
  fixes verify :: "requirement \<Rightarrow> pay_proof \<Rightarrow> instant \<Rightarrow> 'n \<Rightarrow> unit result \<times> 'n"
    and memo_of :: "'n \<Rightarrow> string \<Rightarrow> string option"
  assumes binds: "verify m p now n = (Inr (), n') \<Longrightarrow> map_option trim_space (memo_of n (pp_tx_id p)) = Some (trim_space (rm_nonce m))"
    and in_time: "verify m p now n = (Inr (), n') \<Longrightarrow> \<not> requirement_expired m now"
begin

lemma one_quote:
  assumes "pay_sound H s" and "pay_get i s = Inr r" and "pay_get j s = Inr r'"
    and "verify (quoted C r) p now n = (Inr (), n')" and "verify (quoted C r') p' now' k = (Inr (), k')"
    and "memo_of n (pp_tx_id p) = memo_of k (pp_tx_id p')"
  shows "i = j"
proof -
  have rows: "map_of (ps_rows s) i = Some r" "map_of (ps_rows s) j = Some r'" using assms(2,3) by (simp_all add: pay_get_def fetch_Inr)
  then have sound: "pay_row_sound H r" "pay_row_sound H r'" using assms(1) by (auto simp: pay_sound_def)
  have "trim_space (rm_nonce (quoted C r)) = trim_space (rm_nonce (quoted C r'))"
    using binds [OF assms(4)] binds [OF assms(5)] assms(6) by simp
  then have "same_nonce r r'" using sound by (simp add: quoted_def pay_requirement_def pay_row_sound_def same_nonce_def)
  then show ?thesis using assms(1) rows unfolding pay_sound_def apart_def by blast
qed

end

definition chain_memo :: "(string \<Rightarrow> 'n \<Rightarrow> ledger_payment result \<times> 'n) \<Rightarrow> 'n \<Rightarrow> string \<Rightarrow> string option" where
  "chain_memo ledger n tx = (case fst (ledger tx n) of Inl e \<Rightarrow> None | Inr l \<Rightarrow> Some (lp_memo l))"

definition local_memo :: "local_book \<Rightarrow> string \<Rightarrow> string option" where
  "local_memo b tx = map_option pp_nonce (map_of (lb_ledger b) tx)"

interpretation local_binding: binding_facilitator local_verify local_memo
  by unfold_locales (auto simp: local_verify_def local_memo_def split: option.splits if_splits sum.splits)

lemma chain_verify_Inr:
  assumes "chain_verify ledger recipient m p now n = (Inr (), n')"
  obtains l where "ledger (pp_tx_id p) n = (Inr l, n')" and "judge_record recipient m p l = Inr ()" and "\<not> requirement_expired m now"
  using assms by (auto simp: chain_verify_def split: if_splits prod.splits sum.splits)

interpretation chain_binding: binding_facilitator "chain_verify ledger recipient" "chain_memo ledger" for ledger recipient
  by unfold_locales
    (auto elim!: chain_verify_Inr simp: chain_memo_def judge_record_def split: if_splits)

section \<open>What the exchange does not keep\<close>

text \<open>The comment on \<^verbatim>\<open>refusesThePayment\<close> says that nobody can burn a quote another party paid for by sending one request.
  A request that names the nonce with another body is refused, not in conflict, and the refusal is recorded on
  the paid quote: whatever its payer sends afterwards, it gets no answer.\<close>

lemma paid_quote_is_burned:
  assumes "pay_sound H s" and "pay_by_nonce nonce s = Inr r" and "pq_state r = PayVerified" and "trim_space nonce \<noteq> []"
    and "canonical_hash H J body \<noteq> pq_request_hash r" and "trim_space (err_text ErrForbidden) \<noteq> []" and "ps_fail_commit s = None"
    and "pp_nonce p = nonce" and "pp_nonce p' = nonce"
  shows "\<exists>t. redeem err_text H J C F now (pq_endpoint r) body p work (s, n) = (Inl ErrForbidden, t, n) \<and>
    (\<forall>endpoint' body' now' work' m. isl (fst (redeem err_text H J C F now' endpoint' body' p' work' (t, m))))"
proof -
  note row = pay_by_nonce_row [OF assms(2,1)]
  obtain v where v: "pay_reject (err_text ErrForbidden) now r = Inr v"
    using assms(3,6) by (simp add: pay_reject_def Let_def pay_transition_def)
  then have moved: "pay_moves H r v" "pq_state v = PayRejected"
    using assms(3) by (auto intro: moves_refused simp: pay_reject_def Let_def and_then_Inr_iff result_simps split: if_splits)
  have tx: "pq_payment_tx v = pq_payment_tx r" "quote_terms v = quote_terms r"
    using moved pay_moves_terms by (auto elim: pay_moves_cases)
  have "\<not> (pq_payment_tx v \<noteq> [] \<and>
      list_ex (\<lambda>x. pq_id x \<noteq> pq_id v \<and> pq_payment_tx x = pq_payment_tx v) (table_rows (ps_rows s)))"
  proof (intro notI, elim conjE)
    assume paid: "pq_payment_tx v \<noteq> []"
      and "list_ex (\<lambda>x. pq_id x \<noteq> pq_id v \<and> pq_payment_tx x = pq_payment_tx v) (table_rows (ps_rows s))"
    then obtain x where x: "x \<in> set (table_rows (ps_rows s))" "pq_id x \<noteq> pq_id v" "pq_payment_tx x = pq_payment_tx v"
      by (auto simp: list_ex_iff)
    then have "map_of (ps_rows s) (pq_id x) = Some x" using assms(1) keyed_rows [of pq_id "ps_rows s" x] by (auto simp: pay_sound_def)
    then have "pq_id x = pq_id r"
      using assms(1) row(1) x(3) tx(1) paid unfolding pay_sound_def apart_def same_payment_def by metis
    then show False using x(2) tx(2) by (simp add: quote_terms_def)
  qed
  moreover have "map_of (ps_rows s) (pq_id v) = Some r" using row(1) tx(2) by (simp add: quote_terms_def)
  ultimately obtain t where t: "pay_update v (pq_version r) s = Inr t" by (simp add: pay_update_def)
  note t' = pay_update_Inr(1) [OF t row(1) refl tx(2)]
  have "pay_advance (pay_reject (err_text ErrForbidden) now) r s = (Inr v, t)"
    using v t t' assms(7) by (simp add: pay_advance_def pay_tx_def)
  then have burned: "redeem err_text H J C F now (pq_endpoint r) body p work (s, n) = (Inl ErrForbidden, t, n)"
    using assms(2-5,8)
    by (simp add: redeem_def pay_check_def refuses_payment_def refuse_request_def pay_is_finished_def)
  have "pay_sound H t"
    by (rule pay_sound_step [OF pay_step_move [of "pq_id r", OF _ moved(1) t] assms(1)]) (use row(1) in \<open>simp add: pay_get_def fetch_def\<close>)
  moreover have "pq_nonce v = nonce" using tx(2) row(2) by (simp add: quote_terms_def)
  ultimately have "pay_by_nonce nonce t = Inr v" using pay_nonce_found [of t "pq_id r" v H] by (simp add: t')
  then have "isl (fst (redeem err_text H J C F now' endpoint' body' p' work' (t, m)))" for endpoint' body' now' work' m
    using moved(2) assms(4,9)
    by (auto simp: redeem_def pay_check_def refuse_request_def pay_is_finished_def split: if_splits)
  then show ?thesis using burned by blast
qed

text \<open>A quote that was never paid is handed back under its key after it expired, and nothing in the program calls
  \<^const>\<open>purge_quotes\<close>: the client of that key is told to pay a price that is refused.\<close>

lemma expired_quote_is_handed_back:
  assumes "key \<noteq> []" and "pay_by_key endpoint key s = Inr r" and "pq_state r = PayRequired"
    and "pq_request_hash r = canonical_hash H J body" and "quote_expired r now"
  shows "open_quote H J C rq nonce endpoint body price key s =
      (Inr \<lparr>po_requirement = Some (quoted C r), po_response = [], po_request = r, po_replayed = False\<rparr>, s)"
    and "requirement_expired (quoted C r) now"
    and "pay_check H J C F now r endpoint body p n = (Inl ErrForbidden, n)"
  using assms
  by (simp_all add: open_quote_def pay_replay_def Let_def requirement_expired_def quote_expired_def quoted_def
      pay_requirement_def pay_check_def)

section \<open>A sample\<close>

definition plain_codec :: "unit json_codec" where
  "plain_codec = \<lparr>js_parse = (\<lambda>_. None), js_print = (\<lambda>_. None)\<rparr>"

definition pay_digest :: "string \<Rightarrow> string" where
  "pay_digest t = replicate 32 (CHR ''a'')"

definition sample_shop :: pay_config where
  "sample_shop = \<lparr>pc_scheme = ''exact'', pc_network = ''local'', pc_recipient = ''0xaa'', pc_asset = ''USDC''\<rparr>"

definition sample_quote :: paid_request where
  "sample_quote = \<lparr>pq_id = 1, pq_endpoint = ''/quote'', pq_request_hash = pay_hash pay_digest ''ask'', pq_nonce = ''n1'', pq_key = [],
     pq_price = \<lparr>minor = 25, currency = ''USD''\<rparr>, pq_payer = [], pq_payment_tx = [], pq_response_hash = [], pq_response = [],
     pq_state = PayRequired, pq_reason = [], pq_created_at = 5, pq_updated_at = 5, pq_expires_at = 50, pq_version = 1\<rparr>"

definition sample_proof :: pay_proof where
  "sample_proof = \<lparr>pp_nonce = ''n1'', pp_payer = ''0xbb'', pp_tx_id = ''t1'', pp_amount = \<lparr>minor = 25, currency = ''USD''\<rparr>,
     pp_signature = []\<rparr>"

definition sample_table :: pay_store where
  "sample_table = \<lparr>ps_rows = [(1, sample_quote)], ps_fail_commit = None\<rparr>"

definition sample_book :: local_book where
  "sample_book = \<lparr>lb_ledger = [(''t1'', sample_proof)], lb_spent = [], lb_fail = None\<rparr>"

definition sample_work :: "local_book work" where
  "sample_work = (\<lambda>body n. (Inr ''answer'', n))"

lemma sample_table_sound: "pay_sound pay_digest sample_table"
proof -
  have "trim_space ''n1'' = ''n1''" by code_simp
  then show ?thesis
    by (simp add: pay_sound_def sample_table_def keyed_def apart_def sample_quote_def pay_row_sound_def pay_is_paid_def)
qed

lemma sample_texts:
  "trim_space ''n1'' = ''n1''" "trim_space ''0xbb'' = ''0xbb''" "to_lower ''0xbb'' = ''0xbb''" "trim_space ''t1'' = ''t1''"
  by code_simp+

lemma sample_asked: "canonical_hash pay_digest plain_codec ''ask'' = pq_request_hash sample_quote"
  by (simp add: canonical_hash_def plain_codec_def sample_quote_def)

lemma sample_accepted:
  "fa_verify local_facilitator (quoted sample_shop sample_quote) sample_proof 10 sample_book =
    (Inr (), sample_book\<lparr>lb_spent := [(''t1'', pq_request_hash sample_quote)]\<rparr>)"
  by (simp add: local_facilitator_def local_verify_def quoted_def pay_requirement_def sample_quote_def sample_proof_def
      sample_book_def sample_texts requirement_expired_def amount_cmp_def assert_same_currency_def amount_valid_def
      currency_valid_cases)

lemma sample_redeemed:
  "\<exists>v t b r. redeem (\<lambda>_. ''no'') pay_digest plain_codec sample_shop local_facilitator 10 ''/quote'' ''ask'' sample_proof
      sample_work (sample_table, sample_book) = (Inr v, t, b) \<and> po_response v = ''answer'' \<and> \<not> po_replayed v \<and>
    pay_get 1 t = Inr r \<and> answered r \<and> pq_response r = ''answer'' \<and> pq_nonce r = ''n1'' \<and>
    pq_request_hash r = pq_request_hash sample_quote"
proof -
  let ?b = "sample_book\<lparr>lb_spent := [(''t1'', pq_request_hash sample_quote)]\<rparr>"
  have found: "pay_by_nonce (pp_nonce sample_proof) sample_table = Inr sample_quote"
    by (simp add: pay_by_nonce_def find_row_def sample_table_def table_rows_def sample_proof_def sample_quote_def)
  have "pay_check pay_digest plain_codec sample_shop local_facilitator 10 sample_quote ''/quote'' ''ask'' sample_proof sample_book =
      (Inr (), ?b)"
    using sample_accepted by (simp add: pay_check_def sample_asked) (simp add: sample_quote_def quote_expired_def)
  moreover obtain r1 t1 where "pay_advance (sign_and_verify sample_proof 10) sample_quote sample_table = (Inr r1, t1)"
    and r1: "pq_state r1 = PayVerified" "pq_version r1 = 3" "pq_id r1 = 1" "pq_payment_tx r1 = ''t1''"
      "pq_nonce r1 = ''n1''" "pq_request_hash r1 = pq_request_hash sample_quote"
    and t1: "t1 = \<lparr>ps_rows = [(1, r1)], ps_fail_commit = None\<rparr>"
    by (simp add: pay_advance_def pay_tx_def sign_and_verify_def pay_sign_def pay_verify_def pay_transition_def
        sample_proof_def sample_texts pay_update_def sample_table_def table_rows_def table_put_def sample_quote_def)
  moreover have "\<exists>v t r. produce_answer pay_digest local_facilitator 10 sample_proof ''ask'' sample_work r1 (t1, ?b) = (Inr v, t, ?b) \<and>
      po_response v = ''answer'' \<and> \<not> po_replayed v \<and> pay_get 1 t = Inr r \<and> answered r \<and> pq_response r = ''answer'' \<and>
      pq_nonce r = ''n1'' \<and> pq_request_hash r = pq_request_hash sample_quote"
  proof -
    define r2 where "r2 = r1\<lparr>pq_state := PayProcessed, pq_version := 4, pq_updated_at := 10, pq_response := ''answer'',
      pq_response_hash := pay_hash pay_digest ''answer''\<rparr>"
    define t2 where "t2 = \<lparr>ps_rows = [(1, r2)], ps_fail_commit = None\<rparr>"
    have "pay_advance (pay_process pay_digest ''answer'' 10) r1 t1 = (Inr r2, t2)"
      using r1 by (simp add: t1 r2_def t2_def pay_advance_def pay_tx_def pay_process_def pay_transition_def pay_update_def
          table_rows_def table_put_def)
    moreover have "\<exists>r3 t3. pay_advance (pay_settle 10) r2 t2 = (Inr r3, t3) \<and> pay_get 1 t3 = Inr r3 \<and> answered r3 \<and>
        pq_response r3 = ''answer'' \<and> pq_nonce r3 = ''n1'' \<and> pq_request_hash r3 = pq_request_hash sample_quote"
      using r1 by (simp add: pay_get_def fetch_def answered_def r2_def t2_def pay_advance_def pay_tx_def pay_settle_def pay_transition_def pay_update_def
          table_rows_def table_put_def)
    moreover have "local_close sample_proof ?b = (Inr (), ?b)"
      by (simp add: local_close_def sample_book_def sample_proof_def)
    ultimately show ?thesis by (auto simp: produce_answer_def sample_work_def local_facilitator_def)
  qed
  moreover have "pq_state sample_quote = PayRequired" "trim_space (pp_nonce sample_proof) \<noteq> []"
    by (simp_all add: sample_quote_def sample_proof_def sample_texts)
  ultimately show ?thesis using found by (auto simp: redeem_def)
qed

section \<open>Properties\<close>

text \<open>C31: An answer is paid for. A redemption that gives one either returns, unchanged and without asking the facilitator
  or the work again, what is stored for the same question, or follows an accepted payment: the facilitator
  agreed, in this very call, to the requirement of an unexpired quote for this endpoint and this body, the work ran on
  the body afterwards, and its answer is stored against that transaction.\<close>

theorem answers_are_paid_for:
  assumes "pay_sound H s" and "redeem err_text H J C F now endpoint body p work (s, n) = (Inr v, t, n')"
  shows "\<exists>r. pay_by_nonce (pp_nonce p) s = Inr r \<and> pq_request_hash r = canonical_hash H J body \<and>
    (if po_replayed v then t = s \<and> n' = n \<and> answered r \<and> po_response v = pq_response r
     else pq_endpoint r = endpoint \<and> \<not> quote_expired r now \<and>
       (\<exists>n1 n2. fa_verify F (quoted C r) p now n = (Inr (), n1) \<and> work body n1 = (Inr (po_response v), n2)) \<and>
       (\<exists>r'. pay_get (pq_id r) t = Inr r' \<and> answered r' \<and> pq_response r' = po_response v \<and>
         pq_response_hash r' = pay_hash H (po_response v) \<and> pq_payment_tx r' = trim_space (pp_tx_id p)))"
  using assms(2,1)
proof (cases rule: redeem_cases)
  case (replayed r)
  then show ?thesis by (auto simp: pay_replay_def answered_def split: if_splits)
next
  case (accepted r n1 r1 s1)
  have check: "pq_endpoint r = endpoint" "pq_request_hash r = canonical_hash H J body" "\<not> quote_expired r now"
    "fa_verify F (quoted C r) p now n = (Inr (), n1)"
    using accepted(2) by (auto simp: pay_check_def split: if_splits)
  note effect = produce_answer_effect [OF accepted(7,4,5)]
  from effect(2) [OF refl] obtain n2 r' where r': "work body n1 = (Inr (po_response v), n2)" "\<not> po_replayed v"
    "map_of (ps_rows t) (pq_id r) = Some r'" "pq_state r' \<in> {PayProcessed, PaySettled}" "pq_response r' = po_response v"
    "pq_payment_tx r' = trim_space (pp_tx_id p)"
    using accepted(6) by auto
  have "pay_sound H t" by (rule pay_sound_steps [OF rtranclp_trans [OF accepted(3) effect(1)] assms(1)])
  then have "pq_response_hash r' = pay_hash H (po_response v)"
    using r'(3,4,5) by (auto simp: pay_sound_def pay_row_sound_def)
  moreover have "pay_get (pq_id r) t = Inr r'" using r'(3) by (simp add: pay_get_def fetch_def)
  ultimately show ?thesis using accepted(1) check r' by (auto simp: answered_def)
qed simp

theorem answers_are_paid_for_witness:
  "\<exists>v t b r'. redeem (\<lambda>_. ''no'') pay_digest plain_codec sample_shop local_facilitator 10 ''/quote'' ''ask'' sample_proof sample_work
      (sample_table, sample_book) = (Inr v, t, b) \<and>
    pay_get 1 t = Inr r' \<and> answered r' \<and> pq_response r' = ''answer'' \<and> pq_payment_tx r' = ''t1''"
proof -
  obtain v t b where run: "redeem (\<lambda>_. ''no'') pay_digest plain_codec sample_shop local_facilitator 10 ''/quote'' ''ask''
      sample_proof sample_work (sample_table, sample_book) = (Inr v, t, b)" and v: "po_response v = ''answer''" "\<not> po_replayed v"
    using sample_redeemed by blast
  have "pay_by_nonce (pp_nonce sample_proof) sample_table = Inr sample_quote"
    by (simp add: pay_by_nonce_def find_row_def sample_table_def table_rows_def sample_proof_def sample_quote_def)
  moreover have "pq_id sample_quote = 1" "trim_space (pp_tx_id sample_proof) = ''t1''"
    by (simp_all add: sample_quote_def sample_proof_def sample_texts)
  ultimately show ?thesis using answers_are_paid_for [OF sample_table_sound run] v run by auto
qed

text \<open>C32: An answer that was bought is kept: whatever the service writes afterwards, for whomever, the same question under the
  same nonce is answered with the stored response, at no further payment, work or write.\<close>

theorem bought_answer_is_kept:
  assumes "pay_sound H s" and "pay_get i s = Inr r" and "answered r" and "pay_steps H s t"
    and "pp_nonce p = pq_nonce r" and "canonical_hash H J body = pq_request_hash r"
  shows "\<exists>v. redeem err_text H J C F now endpoint body p work (t, n) = (Inr v, t, n) \<and>
    po_response v = pq_response r \<and> po_replayed v"
proof -
  have "map_of (ps_rows s) i = Some r" using assms(2) by (simp add: pay_get_def fetch_Inr)
  from answered_steps [OF assms(4,1) this assms(3)] obtain r' where sound: "pay_sound H t"
    and r': "map_of (ps_rows t) i = Some r'" "answered r'" "quote_terms r' = quote_terms r" "bought r' = bought r"
    by blast
  have "pay_by_nonce (pq_nonce r') t = Inr r'" by (rule pay_nonce_found [OF r'(1) sound])
  moreover have "trim_space (pq_nonce r') \<noteq> []" using sound r'(1) by (auto simp: pay_sound_def pay_row_sound_def)
  ultimately show ?thesis
    using r'(2-4) assms(5,6) by (auto simp: redeem_def pay_replay_def answered_def quote_terms_def bought_def)
qed

theorem bought_answer_is_kept_witness:
  "\<exists>t b v. redeem (\<lambda>_. ''no'') pay_digest plain_codec sample_shop local_facilitator 9999 ''/other'' ''ask'' sample_proof
      (\<lambda>_ n. (Inl ErrUnavailable, n)) (snd (purge_quotes 9999 t), b) = (Inr v, snd (purge_quotes 9999 t), b) \<and>
    po_response v = ''answer''"
proof -
  obtain v t b r where run: "redeem (\<lambda>_. ''no'') pay_digest plain_codec sample_shop local_facilitator 10 ''/quote'' ''ask''
      sample_proof sample_work (sample_table, sample_book) = (Inr v, t, b)" and r: "pay_get 1 t = Inr r" "answered r"
      "pq_response r = ''answer''" "pq_nonce r = ''n1''" "pq_request_hash r = pq_request_hash sample_quote"
    using sample_redeemed by blast
  note sound = pay_sound_steps [OF redeem_steps [OF run sample_table_sound] sample_table_sound]
  obtain res u where purge: "purge_quotes 9999 t = (res, u)" by (metis prod.collapse)
  have nonce: "pp_nonce sample_proof = pq_nonce r" by (simp add: sample_proof_def r(4))
  have asked: "canonical_hash pay_digest plain_codec ''ask'' = pq_request_hash r" by (simp add: sample_asked r(5))
  obtain v where "redeem (\<lambda>_. ''no'') pay_digest plain_codec sample_shop local_facilitator 9999 ''/other'' ''ask'' sample_proof
      (\<lambda>_ n. (Inl ErrUnavailable, n)) (u, b) = (Inr v, u, b)" "po_response v = pq_response r"
    using bought_answer_is_kept [where err_text = "\<lambda>_. ''no''" and C = sample_shop and F = local_facilitator and now = 9999
        and endpoint = "''/other''" and work = "\<lambda>_ n. (Inl ErrUnavailable, n)" and n = b,
        OF sound r(1,2) purge_steps [OF purge] nonce asked] by blast
  then show ?thesis using purge r(3) by (intro exI [of _ t] exI [of _ b]) auto
qed

text \<open>On a network, a transaction pays for one quote: as long as its memo stays what it is, it is never accepted for two
  requests of the table, whoever presents it. What is accepted has succeeded and credited this platform with the price.\<close>

theorem transaction_pays_one_quote:
  assumes "pay_sound H s" and "pay_get i s = Inr r" and "pay_get j s = Inr r'"
    and "chain_verify ledger me (quoted C r) p now n = (Inr (), n')"
    and "chain_verify ledger me (quoted C r') p' now' k = (Inr (), k')"
    and "chain_memo ledger n (pp_tx_id p) = chain_memo ledger k (pp_tx_id p')"
  shows "i = j \<and> (\<exists>l paid. fst (ledger (pp_tx_id p) n) = Inr l \<and> lp_found l \<and> lp_succeeded l \<and> lp_paid l = Some paid \<and>
    paid me (minor (pq_price r)))"
proof
  show "i = j" by (rule chain_binding.one_quote [OF assms])
  show "\<exists>l paid. fst (ledger (pp_tx_id p) n) = Inr l \<and> lp_found l \<and> lp_succeeded l \<and> lp_paid l = Some paid \<and>
      paid me (minor (pq_price r))"
    using assms(4)
    by (elim chain_verify_Inr) (auto simp: judge_record_def quoted_def pay_requirement_def split: if_splits option.splits)
qed

definition sample_ledger :: "string \<Rightarrow> unit \<Rightarrow> ledger_payment result \<times> unit" where
  "sample_ledger tx n = (Inr \<lparr>lp_found = True, lp_succeeded = True, lp_confirmed_at = None, lp_memo = ''n1'',
     lp_paid = Some (\<lambda>who m. m \<le> 25), lp_paid_by = None\<rparr>, n)"

theorem transaction_pays_one_quote_witness:
  "chain_verify sample_ledger ''0xaa'' (quoted sample_shop sample_quote) sample_proof 10 () = (Inr (), ()) \<and>
    (\<exists>l paid. fst (sample_ledger ''t1'' ()) = Inr l \<and> lp_succeeded l \<and> lp_paid l = Some paid \<and> paid ''0xaa'' 25)"
proof -
  have run: "chain_verify sample_ledger ''0xaa'' (quoted sample_shop sample_quote) sample_proof 10 () = (Inr (), ())"
    by (simp add: chain_verify_def requirement_expired_def quoted_def pay_requirement_def sample_quote_def sample_proof_def
        sample_texts sample_ledger_def judge_record_def)
  have "pay_get 1 sample_table = Inr sample_quote" by (simp add: pay_get_def fetch_def sample_table_def)
  from transaction_pays_one_quote [OF sample_table_sound this this run run refl] run show ?thesis
    by (auto simp: sample_proof_def sample_quote_def)
qed

end
