(* ===== verification/Documents.thy ===== *)
theory Documents
  imports Assessing
begin

text \<open>
  \<^verbatim>\<open>platform/objects\<close>, \<^verbatim>\<open>app/documents\<close>, \<^verbatim>\<open>app/confidential\<close> and \<^verbatim>\<open>app/reporting\<close>: the ciphertext behind a
  receivable, the work handed to the confidential workflow, and what may be read about a price and by whom. \<open>H\<close> is
  SHA-256; a ciphertext is a byte string.
\<close>

section \<open>Objects\<close>

definition max_object_bytes :: nat where "max_object_bytes = 8 * 1024 * 1024"

definition new_object :: "(string \<Rightarrow> string) \<Rightarrow> uuid_ops \<Rightarrow> uuid \<Rightarrow> string \<Rightarrow> instant \<Rightarrow> blob result" where
  "new_object H U owner ciphertext now =
    (if owner = uuid_nil then Inl (Invalid ''owner_id'')
     else if ciphertext = [] then Inl (Invalid ''ciphertext'')
     else if length ciphertext > max_object_bytes then Inl (Invalid ''ciphertext'')
     else let digest = hex_encode (H ciphertext)
          in Inr \<lparr>bl_key = uuid_string U owner @ ''/'' @ take 16 digest @ ''.enc'', bl_owner_id = owner,
               bl_ciphertext = ciphertext, bl_size_bytes = int (length ciphertext), bl_cipher_hash = digest,
               bl_created_at = now\<rparr>)"

section \<open>Uploads\<close>

record upload_params =
  up_invoice_id :: uuid
  up_ciphertext :: string
  up_mime :: string
  up_key_ref :: string

text \<open>Somebody else's receivable is one that does not exist.\<close>

definition owned_invoice :: "actor \<Rightarrow> uuid \<Rightarrow> 'd store \<Rightarrow> invoice result" where
  "owned_invoice who i s =
    and_then (get_invoice i s) (\<lambda>v.
      if \<not> ac_operator who \<and> inv_issuer v \<noteq> ac_organization_id who then Inl ErrNotFound else Inr v)"

definition upload_tx ::
  "(string \<Rightarrow> string) \<Rightarrow> uuid_ops \<Rightarrow> request \<Rightarrow> actor \<Rightarrow> upload_params \<Rightarrow> 'd store \<Rightarrow>
    ((invoice \<times> document) \<times> 'd store) result" where
  "upload_tx H U rq who p s =
    and_then (owned_invoice who (up_invoice_id p) s) (\<lambda>v.
    and_then (new_object H U (inv_id v) (up_ciphertext p) (rq_now rq)) (\<lambda>b.
    and_then (new_document \<lparr>ndp_invoice_id = inv_id v, ndp_object_key = bl_key b, ndp_cipher_hash = bl_cipher_hash b,
        ndp_key_ref = up_key_ref p, ndp_mime = up_mime p, ndp_size_bytes = bl_size_bytes b\<rparr> (rq_now rq)) (\<lambda>d.
    and_then (mark_uploaded (rq_now rq) v) (\<lambda>v'.
    and_then (update_invoice v' (inv_version v) (save_document d (put_blob b s))) (\<lambda>s1.
    and_then (record_event
        (with_detail ''size_bytes'' (DetailInt (doc_size_bytes d))
        (with_detail ''cipher_hash'' (DetailText (doc_cipher_hash d))
        (with_detail ''status'' (DetailText (inv_status_string (inv_status v')))
        (between H (standing v) (standing v')
          (event_of rq (uuid_string U (ac_organization_id who)) ''invoice.document_attached'' invoice_entity
            (uuid_string U (inv_id v'))))))) s1) (\<lambda>s2. Inr ((v', d), s2)))))))"

definition upload ::
  "(string \<Rightarrow> string) \<Rightarrow> uuid_ops \<Rightarrow> request \<Rightarrow> actor \<Rightarrow> upload_params \<Rightarrow> 'd store \<Rightarrow>
    (invoice \<times> document) result \<times> 'd store" where
  "upload H U rq who p s =
    (if up_ciphertext p = [] then (Inl (Invalid ''ciphertext''), s) else in_tx (upload_tx H U rq who p) s)"

definition fetch_document :: "actor \<Rightarrow> uuid \<Rightarrow> 'd store \<Rightarrow> blob result" where
  "fetch_document who i s =
    and_then (owned_invoice who i s) (\<lambda>v.
    and_then (get_document (inv_id v) s) (\<lambda>d. get_blob (doc_object_key d) s))"

section \<open>Work for the confidential workflow\<close>

record work_item =
  wk_invoice_id :: uuid
  wk_nonce :: string
  wk_cipher_hash :: string
  wk_mime :: string
  wk_ciphertext :: string
  wk_schema_version :: string

text \<open>The first of the waiting invoices that has a document and the bytes of it.\<close>

fun hand_over :: "(string \<Rightarrow> string) \<Rightarrow> uuid_ops \<Rightarrow> 'd store \<Rightarrow> invoice list \<Rightarrow> work_item option result" where
  "hand_over H U s [] = Inr None"
| "hand_over H U s (v # vs) =
    (case get_document (inv_id v) s of
       Inl e \<Rightarrow> if is_not_found e then hand_over H U s vs else Inl e
     | Inr d \<Rightarrow>
         (case get_blob (doc_object_key d) s of
            Inl e \<Rightarrow> if is_not_found e then hand_over H U s vs else Inl e
          | Inr b \<Rightarrow> Inr (Some \<lparr>wk_invoice_id = inv_id v, wk_nonce = derive_nonce H U (inv_id v) (doc_cipher_hash d),
              wk_cipher_hash = doc_cipher_hash d, wk_mime = doc_mime d, wk_ciphertext = bl_ciphertext b,
              wk_schema_version = feature_schema_v1\<rparr>)))"

definition next_work :: "(string \<Rightarrow> string) \<Rightarrow> uuid_ops \<Rightarrow> 'd store \<Rightarrow> work_item option result" where
  "next_work H U s = hand_over H U s (list_invoices_by_status U InvExtracting 20 s)"

definition deliver_result ::
  "(app_error \<Rightarrow> string) \<Rightarrow> (string \<Rightarrow> string) \<Rightarrow> 'd decimal_ops \<Rightarrow> uuid_ops \<Rightarrow> ('d, 'n) assessor \<Rightarrow> request \<Rightarrow>
    'd workflow_result \<Rightarrow> 'd store \<times> 'n \<Rightarrow> unit result \<times> 'd store \<times> 'n" where
  "deliver_result err_text H D U A rq r =
    (\<lambda>(s, n). if wr_invoice_id r = uuid_nil then (Inl (Invalid ''invoice_id''), s, n)
      else complete_elsewhere err_text H D U A rq (wr_invoice_id r) r (s, n))"

section \<open>Reports\<close>

record 'd report =
  rep_assessment :: "'d assessment"
  rep_snapshot :: "'d snapshot option"
  rep_contributions :: "'d contribution list"
  rep_explanation :: "explanation option"

record 'd disclosure =
  dis_invoice :: invoice
  dis_listing :: listing
  dis_report :: "'d report option"
  dis_own :: bool

definition no_listing :: listing where
  "no_listing = \<lparr>lst_auction_id = uuid_nil, lst_lot_id = uuid_nil, lst_status = None\<rparr>"

definition if_found :: "'a result \<Rightarrow> 'a option result" where
  "if_found r = (case r of Inl e \<Rightarrow> if is_not_found e then Inr None else Inl e | Inr x \<Rightarrow> Inr (Some x))"

text \<open>
  The port of the listings is optional: without it (\<open>listed\<close> is false) every invoice is one that was never offered.
\<close>

definition readable :: "bool \<Rightarrow> actor \<Rightarrow> invoice \<Rightarrow> 'd store \<Rightarrow> (listing \<times> bool) result" where
  "readable listed who v s =
    (let own = (inv_issuer v = ac_organization_id who)
     in and_then (if_found (if listed then listing_of (inv_id v) s else Inl ErrNotFound)) (\<lambda>found.
          let l = (case found of None \<Rightarrow> no_listing | Some l \<Rightarrow> l)
          in if own \<or> ac_operator who \<or> listing_disclosed l then Inr (l, own) else Inl ErrNotFound))"

definition report_for :: "'d decimal_ops \<Rightarrow> uuid \<Rightarrow> 'd store \<Rightarrow> 'd report result" where
  "report_for D i s =
    and_then (latest_assessment i s) (\<lambda>a.
    and_then (if_found (get_explanation (am_id a) s)) (\<lambda>e.
    and_then (if_found (get_snapshot (am_market_snapshot_hash a) s)) (\<lambda>x.
      Inr \<lparr>rep_assessment = a, rep_snapshot = x, rep_contributions = ranked_contributions D a, rep_explanation = e\<rparr>)))"

definition listing_for :: "'d decimal_ops \<Rightarrow> bool \<Rightarrow> actor \<Rightarrow> uuid \<Rightarrow> 'd store \<Rightarrow> 'd disclosure result" where
  "listing_for D listed who i s =
    (if ac_organization_id who = uuid_nil \<and> \<not> ac_operator who then Inl ErrForbidden
     else and_then (get_invoice i s) (\<lambda>v.
          and_then (readable listed who v s) (\<lambda>(l, own).
          and_then (if_found (report_for D (inv_id v) s)) (\<lambda>r.
            Inr \<lparr>dis_invoice = v, dis_listing = l, dis_report = r, dis_own = own\<rparr>))))"

definition assessment_for :: "'d decimal_ops \<Rightarrow> bool \<Rightarrow> actor \<Rightarrow> uuid \<Rightarrow> 'd store \<Rightarrow> 'd report result" where
  "assessment_for D listed who i s =
    and_then (get_invoice i s) (\<lambda>v. and_then (readable listed who v s) (\<lambda>_. report_for D (inv_id v) s))"

definition timeline_for :: "uuid_ops \<Rightarrow> bool \<Rightarrow> actor \<Rightarrow> uuid \<Rightarrow> int \<Rightarrow> 'd store \<Rightarrow> audit_event list result" where
  "timeline_for U kept who i limit s =
    (if \<not> kept then Inl ErrUnavailable
     else if limit < 0 then Inl (Invalid ''limit'')
     else and_then (owned_invoice who i s) (\<lambda>v. Inr (timeline invoice_entity (uuid_string U (inv_id v)) limit s)))"

definition market_now :: "string \<Rightarrow> string \<Rightarrow> actor \<Rightarrow> instant \<Rightarrow> 'd store \<Rightarrow> ('d snapshot \<times> bool) result" where
  "market_now network asset who now s =
    (if ac_organization_id who = uuid_nil \<and> \<not> ac_operator who then Inl ErrForbidden
     else and_then (latest_snapshot network asset s) (\<lambda>x. Inr (x, is_fresh now x)))"

end
