(* ===== verification/Agents.thy ===== *)
theory Agents
  imports Documents
begin

text \<open>
  \<^verbatim>\<open>app/agents\<close>: the two answers a machine buys, the price of a receivable the platform has never seen and the lots
  of a batch that fit a mandate. The decoding of a body and the text of a rate are parameters; an answer is the record
  that is encoded.
\<close>

definition default_string :: "string \<Rightarrow> string \<Rightarrow> string" where
  "default_string v fallback = (if v = [] then fallback else v)"

section \<open>The market of a quote\<close>

record ('d, 'n) agent_desk =
  ad_model :: "'d risk_model"
  ad_markets :: "('d normalizer_params \<times> ('d, 'n) provider) option"
  ad_query :: market_query
  ad_rate_text :: "'d \<Rightarrow> string"

definition observe_market ::
  "(string \<Rightarrow> string) \<Rightarrow> 'd decimal_ops \<Rightarrow> ('d, 'n) agent_desk \<Rightarrow> instant \<Rightarrow> 'd snapshot option \<Rightarrow> 'n \<Rightarrow>
    'd snapshot result \<times> 'n" where
  "observe_market H D A now stored n =
    (case ad_markets A of
       None \<Rightarrow>
         (case stored of None \<Rightarrow> Inl ErrUnavailable | Some x \<Rightarrow> and_then (ensure_fresh now x) (\<lambda>_. Inr x), n)
     | Some (P, fetch_markets) \<Rightarrow>
         (let (taken, n') = take_snapshot H D P fetch_markets (ad_query A) now n
          in (and_then taken (\<lambda>x. and_then (ensure_fresh now x) (\<lambda>_. Inr x)), n')))"

definition agent_snapshot ::
  "(string \<Rightarrow> string) \<Rightarrow> 'd decimal_ops \<Rightarrow> ('d, 'n) agent_desk \<Rightarrow> instant \<Rightarrow> 'd store \<Rightarrow> 'n \<Rightarrow>
    'd snapshot result \<times> 'n" where
  "agent_snapshot H D A now s n =
    (case latest_snapshot (mq_network (ad_query A)) (mq_asset (ad_query A)) s of
       Inl e \<Rightarrow> if is_not_found e then observe_market H D A now None n else (Inl e, n)
     | Inr x \<Rightarrow> if is_fresh now x then (Inr x, n) else observe_market H D A now (Some x) n)"

section \<open>Quotes\<close>

record quote_request =
  qr_face :: string
  qr_currency :: string
  qr_days_to_due :: int
  qr_dso_norm :: string
  qr_late_payment_rate :: string
  qr_dispute_flag :: string
  qr_debtor_concentration :: string
  qr_debtor_risk :: string
  qr_mitigations :: mitigations

record quote_response =
  qa_model_version :: string
  qa_grade :: string
  qa_pd :: string
  qa_lgd :: string
  qa_expected_loss :: string
  qa_reserve_price :: string
  qa_platform_fee :: string
  qa_currency :: string
  qa_benchmark_apr :: string
  qa_discount_apr :: string
  qa_risk_premium :: string
  qa_liquidity_premium :: string
  qa_concentration_premium :: string
  qa_snapshot_hash :: string
  qa_observed_at :: string
  qa_quoted_at :: string

definition quoted_rate :: "'d decimal_ops \<Rightarrow> string \<Rightarrow> string \<Rightarrow> 'd result" where
  "quoted_rate D field v =
    (case parse_rate D (default_string v ''0'') of Inl _ \<Rightarrow> Inl (Invalid (''features.'' @ field)) | Inr r \<Rightarrow> Inr r)"

definition parse_features :: "'d decimal_ops \<Rightarrow> quote_request \<Rightarrow> 'd features result" where
  "parse_features D q =
    and_then (quoted_rate D ''dso_norm'' (qr_dso_norm q)) (\<lambda>dso.
    and_then (quoted_rate D ''late_payment_rate'' (qr_late_payment_rate q)) (\<lambda>late.
    and_then (quoted_rate D ''dispute_flag'' (qr_dispute_flag q)) (\<lambda>dispute.
    and_then (quoted_rate D ''debtor_concentration'' (qr_debtor_concentration q)) (\<lambda>concentration.
    and_then (quoted_rate D ''debtor_risk'' (qr_debtor_risk q)) (\<lambda>debtor.
      let f = \<lparr>dso_norm = dso, late_payment_rate = late, dispute_flag = dispute,
          debtor_concentration = concentration, market_volatility = d_zero D, debtor_risk = debtor\<rparr>
      in checked (features_validate D f) (Inr f))))))"

definition price_quote ::
  "'d decimal_ops \<Rightarrow> 'd risk_model \<Rightarrow> ('d \<Rightarrow> string) \<Rightarrow> instant \<Rightarrow> amount \<Rightarrow> int \<Rightarrow> mitigations \<Rightarrow> 'd features \<Rightarrow>
    'd snapshot \<Rightarrow> quote_response result" where
  "price_quote D m rate_text now face days mit f0 x =
    (let f = f0\<lparr>market_volatility := sn_volatility x\<rparr> in
     and_then (probability_of_default D m f) (\<lambda>pd.
     and_then (loss_given_default D m mit) (\<lambda>lgd.
     and_then (expected_loss D pd lgd face) (\<lambda>loss.
     and_then (price_receivable D m \<lparr>pi_face = face, pi_days_to_due = days, pi_benchmark = sn_benchmark x,
         pi_liquidity_premium = sn_liquidity_premium x, pi_pd = pd, pi_lgd = lgd,
         pi_debtor_concentration = debtor_concentration f\<rparr>) (\<lambda>price.
     and_then (grade_from_pd D pd) (\<lambda>grade.
     and_then (amount_string D loss) (\<lambda>loss_text.
     and_then (amount_string D (pr_reserve_price price)) (\<lambda>reserve_text.
     and_then (amount_string D (pr_platform_fee price)) (\<lambda>fee_text.
       Inr \<lparr>qa_model_version = model_version m, qa_grade = grade, qa_pd = rate_text pd, qa_lgd = rate_text lgd,
         qa_expected_loss = loss_text, qa_reserve_price = reserve_text, qa_platform_fee = fee_text,
         qa_currency = currency face, qa_benchmark_apr = rate_text (sn_benchmark x),
         qa_discount_apr = rate_text (pr_discount_apr price),
         qa_risk_premium = rate_text (prem_risk (pr_premiums price)),
         qa_liquidity_premium = rate_text (prem_liquidity (pr_premiums price)),
         qa_concentration_premium = rate_text (prem_concentration (pr_premiums price)),
         qa_snapshot_hash = sn_payload_hash x, qa_observed_at = rfc3339 (sn_observed_at x),
         qa_quoted_at = rfc3339 now\<rparr>)))))))))"

definition risk_quote ::
  "(string \<Rightarrow> string) \<Rightarrow> 'd decimal_ops \<Rightarrow> (string \<Rightarrow> quote_request option) \<Rightarrow> ('d, 'n) agent_desk \<Rightarrow> instant \<Rightarrow> string \<Rightarrow>
    'd store \<Rightarrow> 'n \<Rightarrow> quote_response result \<times> 'n" where
  "risk_quote H D decode A now body s n =
    (case decode body of
       None \<Rightarrow> (Inl (Invalid ''body''), n)
     | Some q \<Rightarrow>
         (case parse_currency (default_string (qr_currency q) ''USD'') of
            Inl _ \<Rightarrow> (Inl (Invalid ''currency''), n)
          | Inr c \<Rightarrow>
              (case parse_amount D (qr_face q) c of
                 Inl _ \<Rightarrow> (Inl (Invalid ''face''), n)
               | Inr face \<Rightarrow>
                   if \<not> amount_positive face then (Inl (Invalid ''face''), n)
                   else if qr_days_to_due q \<le> 0 then (Inl (Invalid ''days_to_due''), n)
                   else case parse_features D q of
                     Inl e \<Rightarrow> (Inl e, n)
                   | Inr f \<Rightarrow>
                       (let (x, n') = agent_snapshot H D A now s n
                        in (and_then x
                          (price_quote D (ad_model A) (ad_rate_text A) now face (qr_days_to_due q) (qr_mitigations q) f), n')))))"

section \<open>Recommendations\<close>

record recommendation_request =
  rr_auction_id :: string
  rr_budget :: string
  rr_currency :: string
  rr_min_yield :: string
  rr_max_grade :: string
  rr_max_tenor_days :: int

record recommended_lot =
  rl_lot_id :: string
  rl_debtor_ref :: string
  rl_grade :: string
  rl_tenor_days :: int
  rl_supply :: string
  rl_reserve_price :: string
  rl_implied_yield :: string

record recommendation_response =
  ra_auction_id :: string
  ra_status :: string
  ra_closes_at :: string
  ra_eligible :: "recommended_lot list"
  ra_rejected :: "(string \<times> string) list"
  ra_suggested_budget :: string
  ra_currency :: string
  ra_budget_shortfall :: string
  ra_recommended_at :: string

record 'd mandate =
  md_currency :: currency_code
  md_budget :: amount
  md_min_yield :: 'd
  md_max_grade :: grade
  md_max_tenor_days :: int

definition parse_mandate :: "'d decimal_ops \<Rightarrow> recommendation_request \<Rightarrow> 'd mandate result" where
  "parse_mandate D q =
    (case parse_currency (default_string (rr_currency q) ''USD'') of
       Inl _ \<Rightarrow> Inl (Invalid ''currency'')
     | Inr c \<Rightarrow>
         (case parse_amount D (default_string (rr_budget q) ''0'') c of
            Inl _ \<Rightarrow> Inl (Invalid ''budget'')
          | Inr budget \<Rightarrow>
              (case parse_rate D (default_string (rr_min_yield q) ''0'') of
                 Inl _ \<Rightarrow> Inl (Invalid ''min_yield'')
               | Inr yield \<Rightarrow>
                   (case parse_grade (default_string (rr_max_grade q) ''E'') of
                      Inl _ \<Rightarrow> Inl (Invalid ''max_grade'')
                    | Inr g \<Rightarrow> Inr \<lparr>md_currency = c, md_budget = budget, md_min_yield = yield, md_max_grade = g,
                        md_max_tenor_days = rr_max_tenor_days q\<rparr>))))"

definition refused_by :: "'d decimal_ops \<Rightarrow> 'd mandate \<Rightarrow> 'd \<Rightarrow> lot \<Rightarrow> constraint option result" where
  "refused_by D m yield l =
    (if currency (lot_supply l) \<noteq> md_currency m then Inr (Some CCurrency)
     else if d_cmp D yield (md_min_yield m) < 0 then Inr (Some CYield)
     else and_then (grade_at_most (lot_grade l) (md_max_grade m)) (\<lambda>at_most.
       if \<not> at_most then Inr (Some CGrade)
       else if md_max_tenor_days m > 0 \<and> lot_tenor_days l > md_max_tenor_days m then Inr (Some CMaturity)
       else Inr None))"

text \<open>One turn of the loop over the lots: the lots that fit, those that do not, and the cost of the first.\<close>

definition consider_mandate ::
  "'d decimal_ops \<Rightarrow> uuid_ops \<Rightarrow> 'd mandate \<Rightarrow> lot \<Rightarrow> recommended_lot list \<times> (string \<times> string) list \<times> amount \<Rightarrow>
    (recommended_lot list \<times> (string \<times> string) list \<times> amount) result" where
  "consider_mandate D U m l = (\<lambda>(fit, misfit, cost).
    and_then (lot_implied_yield D l) (\<lambda>yield.
    and_then (refused_by D m yield l) (\<lambda>c.
      case c of
        Some k \<Rightarrow> Inr (fit, misfit @ [(uuid_string U (lot_id l), constraint_string k)], cost)
      | None \<Rightarrow>
          and_then (amount_string D (lot_supply l)) (\<lambda>supply_text.
          and_then (amount_string D (lot_reserve_price l)) (\<lambda>reserve_text.
          and_then (amount_add cost (lot_reserve_price l)) (\<lambda>cost'.
            Inr (fit @ [\<lparr>rl_lot_id = uuid_string U (lot_id l), rl_debtor_ref = lot_debtor_ref l, rl_grade = lot_grade l,
                rl_tenor_days = lot_tenor_days l, rl_supply = supply_text, rl_reserve_price = reserve_text,
                rl_implied_yield = rate_string_fixed D yield 6\<rparr>], misfit, cost')))))))"

definition budget_shortfall :: "currency_code \<Rightarrow> amount \<Rightarrow> amount \<Rightarrow> amount result" where
  "budget_shortfall cur cost budget =
    and_then (amount_zero cur) (\<lambda>nothing.
      if \<not> amount_valid budget then Inr nothing
      else case amount_cmp cost budget of
        Inl _ \<Rightarrow> Inr nothing
      | Inr c \<Rightarrow> if c > 0 then amount_sub cost budget else Inr nothing)"

definition auction_recommendation ::
  "'d decimal_ops \<Rightarrow> uuid_ops \<Rightarrow> (string \<Rightarrow> recommendation_request option) \<Rightarrow> instant \<Rightarrow> string \<Rightarrow> 'd store \<Rightarrow>
    recommendation_response result" where
  "auction_recommendation D U decode now body s =
    (case decode body of
       None \<Rightarrow> Inl (Invalid ''body'')
     | Some q \<Rightarrow>
         (case uuid_parse U (rr_auction_id q) of
            None \<Rightarrow> Inl (Invalid ''auction_id'')
          | Some i \<Rightarrow>
              and_then (parse_mandate D q) (\<lambda>m.
              and_then (get_auction i s) (\<lambda>a.
              and_then (amount_zero (md_currency m)) (\<lambda>nothing.
              and_then (fold_result (consider_mandate D U m) (auc_lots a) ([], [], nothing)) (\<lambda>(fit, misfit, cost).
              and_then (amount_string D cost) (\<lambda>cost_text.
              and_then (budget_shortfall (md_currency m) cost (md_budget m)) (\<lambda>missing.
              and_then (amount_string D missing) (\<lambda>missing_text.
                Inr \<lparr>ra_auction_id = uuid_string U (auc_id a), ra_status = auc_status_string (auc_status a),
                  ra_closes_at = rfc3339 (auc_closes_at a), ra_eligible = fit, ra_rejected = misfit,
                  ra_suggested_budget = cost_text, ra_currency = md_currency m, ra_budget_shortfall = missing_text,
                  ra_recommended_at = rfc3339 now\<rparr>)))))))))"

end
