(* ===== verification/Documents_Facts.thy ===== *)
theory Documents_Facts
  imports Documents Marketplace_Facts
begin

text \<open>
  What is kept behind a receivable and who reads it: an upload is fetched and handed over as it came, under the digest
  of its bytes; a receivable that was not offered is one that does not exist, for everybody but its issuer and an
  operator.
\<close>

section \<open>Uploads\<close>

lemma owned_invoice_Inr [result_simps]:
  "owned_invoice who i s = Inr v \<longleftrightarrow> get_invoice i s = Inr v \<and> (ac_operator who \<or> inv_issuer v = ac_organization_id who)"
  by (auto simp: owned_invoice_def and_then_Inr_iff)

lemma new_object_Inr [result_simps]:
  "new_object H U owner c now = Inr b \<longleftrightarrow> owner \<noteq> uuid_nil \<and> c \<noteq> [] \<and> length c \<le> max_object_bytes \<and>
     b = \<lparr>bl_key = uuid_string U owner @ ''/'' @ take 16 (hex_encode (H c)) @ ''.enc'', bl_owner_id = owner,
       bl_ciphertext = c, bl_size_bytes = int (length c), bl_cipher_hash = hex_encode (H c), bl_created_at = now\<rparr>"
  by (auto simp: new_object_def Let_def)

definition object_key_of :: "(string \<Rightarrow> string) \<Rightarrow> uuid_ops \<Rightarrow> uuid \<Rightarrow> string \<Rightarrow> string" where
  "object_key_of H U i c = uuid_string U i @ ''/'' @ take 16 (hex_encode (H c)) @ ''.enc''"

lemma visible_take: "list_all visible_char xs \<Longrightarrow> list_all visible_char (take n xs)"
  by (auto simp: list_all_iff dest: in_set_takeD)

context uuid_lib
begin

lemma object_key_trim: "trim_space (object_key_of H U i c) = object_key_of H U i c"
proof (rule trim_space_visible)
  have "visible_char k" if "lower_hex_char k \<or> k = CHR ''-''" for k
    using that by (auto simp: lower_hex_char_def visible_char_def less_eq_char_def)
  then have "list_all visible_char (uuid_string U i)" using uuid_string_chars by (auto simp: list_all_iff)
  moreover have "list_all visible_char (take 16 (hex_encode (H c)))" by (rule visible_take [OF hex_encode_visible])
  ultimately show "list_all visible_char (object_key_of H U i c)" by (simp add: object_key_of_def visible_char_def)
qed

lemma document_of_upload:
  assumes "new_document \<lparr>ndp_invoice_id = i, ndp_object_key = object_key_of H U i c, ndp_cipher_hash = hex_encode (H c),
      ndp_key_ref = ref, ndp_mime = mime, ndp_size_bytes = int (length c)\<rparr> now = Inr d"
  shows "doc_invoice_id d = i" and "doc_object_key d = object_key_of H U i c" and "doc_cipher_hash d = hex_encode (H c)"
    and "doc_size_bytes d = int (length c)"
proof -
  have hash: "trim_space (hex_encode (H c)) = hex_encode (H c)" by (rule trim_space_visible [OF hex_encode_visible])
  have "to_lower (hex_encode (H c)) = hex_encode (H c)"
    using hex_encode_lower [of "H c"] lower_char_lower_hex by (auto simp: to_lower_def list_all_iff intro: map_idI)
  then show "doc_invoice_id d = i" "doc_object_key d = object_key_of H U i c" "doc_cipher_hash d = hex_encode (H c)"
    "doc_size_bytes d = int (length c)"
    using assms by (auto simp: new_document_def Let_def result_simps hash object_key_trim)
qed

text \<open>What a successful upload leaves.\<close>

lemma upload_effect:
  assumes "upload H U rq who p s = (Inr (v, d), t)" and "keyed inv_id (db_invoices s)"
  obtains v0 where "get_invoice (up_invoice_id p) s = Inr v0" and "ac_operator who \<or> inv_issuer v0 = ac_organization_id who"
    and "mark_uploaded (rq_now rq) v0 = Inr v" and "inv_id v = up_invoice_id p" and "inv_issuer v = inv_issuer v0"
    and "doc_object_key d = object_key_of H U (up_invoice_id p) (up_ciphertext p)"
    and "doc_cipher_hash d = hex_encode (H (up_ciphertext p))" and "doc_size_bytes d = int (length (up_ciphertext p))"
    and "get_invoice (up_invoice_id p) t = Inr v" and "get_document (up_invoice_id p) t = Inr d"
    and "get_blob (doc_object_key d) t =
      (case get_blob (doc_object_key d) s of Inr b \<Rightarrow> Inr b
       | Inl _ \<Rightarrow> Inr \<lparr>bl_key = doc_object_key d, bl_owner_id = up_invoice_id p, bl_ciphertext = up_ciphertext p,
           bl_size_bytes = int (length (up_ciphertext p)), bl_cipher_hash = doc_cipher_hash d, bl_created_at = rq_now rq\<rparr>)"
proof -
  have tx: "upload_tx H U rq who p s = Inr ((v, d), t)"
    using assms(1) by (auto simp: upload_def in_tx_Inr split: if_splits)
  then obtain v0 b s1 e where run: "get_invoice (up_invoice_id p) s = Inr v0"
    "ac_operator who \<or> inv_issuer v0 = ac_organization_id who"
    "new_object H U (inv_id v0) (up_ciphertext p) (rq_now rq) = Inr b"
    "new_document \<lparr>ndp_invoice_id = inv_id v0, ndp_object_key = bl_key b, ndp_cipher_hash = bl_cipher_hash b,
        ndp_key_ref = up_key_ref p, ndp_mime = up_mime p, ndp_size_bytes = bl_size_bytes b\<rparr> (rq_now rq) = Inr d"
    "mark_uploaded (rq_now rq) v0 = Inr v"
    "update_invoice v (inv_version v0) (save_document d (put_blob b s)) = Inr s1" "record_event e s1 = Inr t"
    unfolding upload_tx_def by (auto simp: and_then_Inr_iff owned_invoice_Inr)
  have id: "inv_id v0 = up_invoice_id p"
    using keyed_lookup [OF assms(2)] run(1) by (auto simp: get_invoice_def fetch_def split: option.splits)
  have b: "b = \<lparr>bl_key = object_key_of H U (up_invoice_id p) (up_ciphertext p), bl_owner_id = up_invoice_id p,
      bl_ciphertext = up_ciphertext p, bl_size_bytes = int (length (up_ciphertext p)),
      bl_cipher_hash = hex_encode (H (up_ciphertext p)), bl_created_at = rq_now rq\<rparr>"
    using run(3) by (simp add: new_object_Inr object_key_of_def id)
  note doc = document_of_upload [OF run(4) [unfolded b id, simplified]]
  have v: "inv_id v = up_invoice_id p" "inv_issuer v = inv_issuer v0"
    using run(5) id by (auto simp: mark_uploaded_def inv_transition_Inr)
  have "t = s1\<lparr>db_events := db_events t\<rparr>" using run(7) by (auto simp: record_event_def result_simps)
  moreover have "s1 = (save_document d (put_blob b s))\<lparr>db_invoices := db_invoices s1\<rparr>"
    and "get_invoice (up_invoice_id p) s1 = Inr v"
    using run(6) v(1) by (auto simp: update_invoice_def get_invoice_def fetch_def result_simps)
  ultimately have rows: "get_invoice (up_invoice_id p) t = Inr v" "db_documents t = db_documents (save_document d (put_blob b s))"
    "db_blobs t = db_blobs (put_blob b s)"
    by (metis get_invoice_def store.select_convs(4) store.surjective store.update_convs(16),
        metis (no_types, lifting) save_document_def store.select_convs(5) store.surjective store.update_convs(16,4),
        metis (no_types, lifting) save_document_def store.select_convs(15) store.surjective store.update_convs(16,4,5))
  show thesis
  proof (rule that [OF run(1,2,5) v doc(2-4) rows(1)])
    show "get_document (up_invoice_id p) t = Inr d"
      by (simp add: get_document_def rows(2) save_document_def fetch_def doc(1))
    show "get_blob (doc_object_key d) t =
      (case get_blob (doc_object_key d) s of Inr b \<Rightarrow> Inr b
       | Inl _ \<Rightarrow> Inr \<lparr>bl_key = doc_object_key d, bl_owner_id = up_invoice_id p, bl_ciphertext = up_ciphertext p,
           bl_size_bytes = int (length (up_ciphertext p)), bl_cipher_hash = doc_cipher_hash d, bl_created_at = rq_now rq\<rparr>)"
      by (auto simp: get_blob_def rows(3) put_blob_def fetch_def b doc(2,3) split: option.splits)
  qed
qed

end

section \<open>Readers\<close>

definition may_read :: "bool \<Rightarrow> actor \<Rightarrow> invoice \<Rightarrow> 'd store \<Rightarrow> bool" where
  "may_read listed who v s \<longleftrightarrow> inv_issuer v = ac_organization_id who \<or> ac_operator who \<or>
     (listed \<and> (\<exists>l. listing_of (inv_id v) s = Inr l \<and> listing_disclosed l))"

lemma listing_of_Inl: "listing_of i s = Inl e \<Longrightarrow> e = ErrNotFound"
  by (auto simp: listing_of_def split: list.splits)

lemma no_listing_closed: "\<not> listing_disclosed no_listing"
  by (simp add: listing_disclosed_def no_listing_def)

lemma readable_iff:
  "readable listed who v s =
    (if may_read listed who v s
     then Inr (case (if listed then listing_of (inv_id v) s else Inl ErrNotFound) of Inl _ \<Rightarrow> no_listing | Inr l \<Rightarrow> l,
       inv_issuer v = ac_organization_id who)
     else Inl ErrNotFound)"
  using listing_of_Inl [of "inv_id v" s] no_listing_closed
  by (cases "if listed then listing_of (inv_id v) s else Inl ErrNotFound")
    (auto simp: readable_def if_found_def may_read_def Let_def split: if_splits)

lemma get_explanation_Inl: "get_explanation i s = Inl e \<Longrightarrow> e = ErrNotFound"
  by (auto simp: get_explanation_def fetch_def split: option.splits)

lemma if_found_explanation: "if_found (get_explanation i s) = Inr (case get_explanation i s of Inl _ \<Rightarrow> None | Inr x \<Rightarrow> Some x)"
  using get_explanation_Inl [of i s] by (cases "get_explanation i s") (auto simp: if_found_def)

lemma if_found_snapshot: "if_found (get_snapshot h s) = Inr (case get_snapshot h s of Inl _ \<Rightarrow> None | Inr x \<Rightarrow> Some x)"
  by (auto simp: if_found_def get_snapshot_def fetch_def split: option.splits)

lemma report_for_cases:
  "report_for D i s = (case latest_assessment i s of Inl _ \<Rightarrow> Inl ErrNotFound
     | Inr a \<Rightarrow> Inr \<lparr>rep_assessment = a,
         rep_snapshot = (case get_snapshot (am_market_snapshot_hash a) s of Inl _ \<Rightarrow> None | Inr x \<Rightarrow> Some x),
         rep_contributions = ranked_contributions D a,
         rep_explanation = (case get_explanation (am_id a) s of Inl _ \<Rightarrow> None | Inr x \<Rightarrow> Some x)\<rparr>)"
  by (auto simp: report_for_def if_found_explanation if_found_snapshot latest_assessment_def split: option.splits)

lemma if_found_report: "if_found (report_for D i s) = Inr (case report_for D i s of Inl _ \<Rightarrow> None | Inr x \<Rightarrow> Some x)"
  by (auto simp: report_for_cases if_found_def split: sum.splits)

text \<open>
  Work that cannot be handed over is passed by, and only the first twenty invoices that wait are looked at: twenty of
  them without the bytes of a document hide whatever waits behind them.
\<close>

lemma nothing_to_hand_over:
  assumes "\<forall>v \<in> set vs. get_document (inv_id v) s = Inl ErrNotFound \<or>
    (\<exists>d. get_document (inv_id v) s = Inr d \<and> get_blob (doc_object_key d) s = Inl ErrNotFound)"
  shows "hand_over H U s vs = Inr None"
  using assms by (induction vs) auto

lemma broken_work_hides_the_rest:
  assumes "\<forall>v \<in> set (list_invoices_by_status U InvExtracting 20 s).
    (\<exists>d. get_document (inv_id v) s = Inr d \<and> get_blob (doc_object_key d) s = Inl ErrNotFound)"
  shows "next_work H U s = Inr None"
  unfolding next_work_def by (rule nothing_to_hand_over) (use assms in blast)

section \<open>A receivable with a document\<close>

definition draft_store :: "rat store" where
  "draft_store = empty_store\<lparr>db_invoices := [(2, sample_invoice\<lparr>inv_id := 2, inv_issuer := 4\<rparr>)]\<rparr>"

definition sample_upload :: upload_params where
  "sample_upload = \<lparr>up_invoice_id = 2, up_ciphertext = ''secret'', up_mime = ''application/pdf'', up_key_ref = ''browser''\<rparr>"

lemma sample_document:
  "\<exists>d. new_document \<lparr>ndp_invoice_id = 2, ndp_object_key = object_key_of market_hash rfc_uuid 2 ''secret'',
     ndp_cipher_hash = hex_encode (market_hash ''secret''), ndp_key_ref = ''browser'', ndp_mime = ''application/pdf'',
     ndp_size_bytes = 6\<rparr> 25 = Inr d"
proof -
  have "trim_space ''browser'' = ''browser''" "to_lower (trim_space ''application/pdf'') = ''application/pdf''"
    "''application/pdf'' \<in> set allowed_mime_types"
    by code_simp+
  moreover have "digest_hex (to_lower (trim_space (hex_encode (market_hash ''secret''))))" by code_simp
  moreover have "length (object_key_of market_hash rfc_uuid 2 ''secret'') \<le> max_object_key_len"
    "object_key_of market_hash rfc_uuid 2 ''secret'' \<noteq> []"
    by (simp_all add: object_key_of_def rfc.uuid_string_length max_object_key_len_def)
  moreover have "(6 :: int) \<le> max_document_bytes" "length ''browser'' \<le> max_key_ref_len" by code_simp+
  ultimately show ?thesis
    by (simp add: new_document_def rfc.object_key_trim checked_def violation_def)
qed

lemma sample_uploads: "\<exists>v d t. upload market_hash rfc_uuid market_request market_issuer sample_upload draft_store = (Inr (v, d), t)"
proof -
  let ?v = "sample_invoice\<lparr>inv_id := 2, inv_issuer := 4\<rparr>"
  define b where "b = \<lparr>bl_key = object_key_of market_hash rfc_uuid 2 ''secret'', bl_owner_id = 2, bl_ciphertext = ''secret'',
    bl_size_bytes = 6, bl_cipher_hash = hex_encode (market_hash ''secret''), bl_created_at = 25\<rparr>"
  obtain d where d: "new_document \<lparr>ndp_invoice_id = 2, ndp_object_key = bl_key b, ndp_cipher_hash = bl_cipher_hash b,
      ndp_key_ref = ''browser'', ndp_mime = ''application/pdf'', ndp_size_bytes = bl_size_bytes b\<rparr> 25 = Inr d"
    using sample_document by (auto simp: b_def)
  have b: "new_object market_hash rfc_uuid 2 ''secret'' 25 = Inr b"
    by (simp add: new_object_Inr b_def object_key_of_def max_object_bytes_def)
  obtain v where v: "mark_uploaded 25 ?v = Inr v" "inv_id v = 2"
    by (simp add: mark_uploaded_def inv_transition_def sample_invoice_def inv_can_transition_def)
  have here: "owned_invoice market_issuer 2 draft_store = Inr ?v"
    by (simp add: owned_invoice_def get_invoice_def fetch_def draft_store_def market_issuer_def)
  let ?s = "save_document d (put_blob b draft_store)"
  have "db_invoices ?s = [(2, ?v)]" "db_fail_commit ?s = None"
    by (simp_all add: save_document_def put_blob_def draft_store_def empty_store_def)
  then have s1: "update_invoice v (inv_version ?v) ?s = Inr (?s\<lparr>db_invoices := [(2, v)]\<rparr>)"
    using v(2) by (simp add: update_invoice_def versioned_put_def fetch_def table_put_def)
  let ?e = "with_detail ''size_bytes'' (DetailInt (doc_size_bytes d))
        (with_detail ''cipher_hash'' (DetailText (doc_cipher_hash d))
        (with_detail ''status'' (DetailText (inv_status_string (inv_status v)))
        (between market_hash (standing ?v) (standing v)
          (event_of market_request (uuid_string rfc_uuid 4) ''invoice.document_attached'' invoice_entity
            (uuid_string rfc_uuid (inv_id v))))))"
  have "trim_space ''invoice.document_attached'' \<noteq> []" by code_simp
  then have "validate_event ?e = Inr ()" by (simp add: validate_event_Inr event_of_def market_request_def)
  then have s2: "record_event ?e (?s\<lparr>db_invoices := [(2, v)]\<rparr>) =
      Inr (?s\<lparr>db_invoices := [(2, v)], db_events := db_events ?s @ [?e]\<rparr>)"
    by (simp add: record_event_def)
  have "upload_tx market_hash rfc_uuid market_request market_issuer sample_upload draft_store =
      Inr ((v, d), ?s\<lparr>db_invoices := [(2, v)], db_events := db_events ?s @ [?e]\<rparr>)"
    unfolding upload_tx_def sample_upload_def using here b d v(1) s1 s2
    by (simp add: market_request_def market_issuer_def)
  then show ?thesis
    using \<open>db_fail_commit ?s = None\<close> by (simp add: upload_def in_tx_def) (simp add: sample_upload_def)
qed

section \<open>Properties\<close>



text \<open>C38: Who reads a receivable. The issuer and an operator always may; anybody else who is signed in may read it
  exactly when it is in a batch that left its draft, and then reads the terms and the price, never the document or the
  history. Whoever may not is answered as about a receivable that does not exist.\<close>

theorem receivable_has_its_readers:
  assumes "keyed inv_id (db_invoices s)" and "get_invoice i s = Inr v"
    and "ac_organization_id who \<noteq> uuid_nil \<or> ac_operator who"
  shows "(if may_read listed who v s
     then (\<exists>x. listing_for D listed who i s = Inr x \<and> dis_invoice x = v \<and>
         dis_report x = (case assessment_for D listed who i s of Inl _ \<Rightarrow> None | Inr r \<Rightarrow> Some r) \<and>
         dis_own x = (inv_issuer v = ac_organization_id who))
     else listing_for D listed who i s = Inl ErrNotFound \<and> assessment_for D listed who i s = Inl ErrNotFound) \<and>
    (\<not> ac_operator who \<longrightarrow> inv_issuer v \<noteq> ac_organization_id who \<longrightarrow>
      fetch_document who i s = Inl ErrNotFound \<and>
      (\<forall>limit. timeline_for U kept who i limit s = timeline_for U kept who i limit (s\<lparr>db_invoices := []\<rparr>)))"
proof -
  have id: "inv_id v = i"
    using keyed_lookup [OF assms(1)] assms(2) by (auto simp: get_invoice_def fetch_def split: option.splits)
  have none: "get_invoice i (s\<lparr>db_invoices := []\<rparr>) = Inl ErrNotFound" by (simp add: get_invoice_def fetch_def)
  show ?thesis
    using assms(2,3) id none
    by (auto simp: listing_for_def assessment_for_def readable_iff if_found_report fetch_document_def timeline_for_def
        owned_invoice_def)
qed

theorem receivable_has_its_readers_witness:
  "\<exists>x. listing_for rat_decimal True \<lparr>ac_organization_id = 8, ac_operator = False\<rparr> 2 market_store = Inr x \<and>
     dis_invoice x = market_invoice \<and> \<not> dis_own x \<and>
     listing_for rat_decimal False \<lparr>ac_organization_id = 8, ac_operator = False\<rparr> 2 market_store = Inl ErrNotFound \<and>
     fetch_document \<lparr>ac_organization_id = 8, ac_operator = False\<rparr> 2 market_store = Inl ErrNotFound"
proof -
  let ?who = "\<lparr>ac_organization_id = 8, ac_operator = False\<rparr>"
  have k: "keyed inv_id (db_invoices market_store)" by (simp add: market_store_def keyed_def market_invoice_def)
  have v: "get_invoice 2 market_store = Inr market_invoice" by (simp add: get_invoice_def fetch_def market_store_def)
  have a: "ac_organization_id ?who \<noteq> uuid_nil \<or> ac_operator ?who" by simp
  have "may_read True ?who market_invoice market_store" "\<not> may_read False ?who market_invoice market_store"
    by (simp_all add: may_read_def listing_of_def market_store_def table_rows_def sample_auction_def market_invoice_def
        listing_disclosed_def sample_lot_def)
  then show ?thesis
    using receivable_has_its_readers [OF k v a, of True rat_decimal rfc_uuid True]
      receivable_has_its_readers [OF k v a, of False rat_decimal rfc_uuid True]
    by (auto simp: market_invoice_def)
qed

end
