(* ===== verification/Agents_Facts.thy ===== *)
theory Agents_Facts
  imports Agents Documents_Facts Risk_Facts Money_Facts
begin

text \<open>
  What a machine buys: a quote is the price the assessment of the platform would store for the same facts on the same
  market, and a recommendation lists the lots the solver would let the mandate take.
\<close>

section \<open>Quotes\<close>

lemma agent_snapshot_fresh:
  assumes "agent_snapshot H D A now s n = (Inr x, n')"
  shows "is_fresh now x"
    and "latest_snapshot (mq_network (ad_query A)) (mq_asset (ad_query A)) s = Inr x \<and> n' = n \<or>
      (\<exists>P fetch_markets. ad_markets A = Some (P, fetch_markets) \<and>
        take_snapshot H D P fetch_markets (ad_query A) now n = (Inr x, n'))"
  using assms
  by (auto simp: agent_snapshot_def observe_market_def ensure_fresh_def result_simps
      split: sum.splits if_splits option.splits prod.splits)

lemma risk_quote_Inr:
  assumes "risk_quote H D decode A now body s n = (Inr r, n')"
  obtains q c face f x where "decode body = Some q" and "parse_currency (default_string (qr_currency q) ''USD'') = Inr c"
    and "parse_amount D (qr_face q) c = Inr face" and "amount_positive face" and "qr_days_to_due q > 0"
    and "parse_features D q = Inr f" and "agent_snapshot H D A now s n = (Inr x, n')"
    and "price_quote D (ad_model A) (ad_rate_text A) now face (qr_days_to_due q) (qr_mitigations q) f x = Inr r"
  using assms
  by (auto simp: risk_quote_def result_simps split: option.splits sum.splits if_splits prod.splits intro: that)

text \<open>The facts of a quote, as the input of an assessment.\<close>

definition asks_for :: "'d assess_input \<Rightarrow> amount \<Rightarrow> int \<Rightarrow> mitigations \<Rightarrow> 'd features \<Rightarrow> 'd snapshot \<Rightarrow> bool" where
  "asks_for i face days mit f x \<longleftrightarrow> as_face i = face \<and> as_days_to_due i = days \<and> as_mitigations i = mit \<and>
     as_features i = f\<lparr>market_volatility := sn_volatility x\<rparr> \<and> as_benchmark i = sn_benchmark x \<and>
     as_liquidity_premium i = sn_liquidity_premium x"

lemma price_quote_Inr:
  assumes "price_quote D m rate_text now face days mit f x = Inr r"
  obtains pd lgd loss price grade where
    "probability_of_default D m (f\<lparr>market_volatility := sn_volatility x\<rparr>) = Inr pd" and "loss_given_default D m mit = Inr lgd"
    and "expected_loss D pd lgd face = Inr loss"
    and "price_receivable D m \<lparr>pi_face = face, pi_days_to_due = days, pi_benchmark = sn_benchmark x,
         pi_liquidity_premium = sn_liquidity_premium x, pi_pd = pd, pi_lgd = lgd,
         pi_debtor_concentration = debtor_concentration f\<rparr> = Inr price"
    and "grade_from_pd D pd = Inr grade" and "qa_model_version r = model_version m" and "qa_grade r = grade"
    and "qa_pd r = rate_text pd" and "qa_lgd r = rate_text lgd" and "amount_string D loss = Inr (qa_expected_loss r)"
    and "amount_string D (pr_reserve_price price) = Inr (qa_reserve_price r)"
    and "amount_string D (pr_platform_fee price) = Inr (qa_platform_fee r)"
    and "qa_discount_apr r = rate_text (pr_discount_apr price)" and "qa_snapshot_hash r = sn_payload_hash x"
    and "qa_currency r = currency face"
proof -
  from assms show thesis
    unfolding price_quote_def Let_def and_then_Inr_iff by (elim exE conjE) (rule that, assumption+, auto)
qed

lemma quote_assessed:
  assumes "price_quote D m rate_text now face days mit f x = Inr r" and "asks_for i face days mit f x"
    and "assess_validate D i = []"
  obtains a where "assess D m i later = Inr a" and "qa_model_version r = am_model_version a" and "qa_grade r = am_grade a"
    and "qa_pd r = rate_text (am_pd a)" and "qa_lgd r = rate_text (am_lgd a)"
    and "amount_string D (am_expected_loss a) = Inr (qa_expected_loss r)"
    and "amount_string D (am_reserve_price a) = Inr (qa_reserve_price r)"
    and "amount_string D (am_platform_fee a) = Inr (qa_platform_fee r)"
    and "qa_discount_apr r = rate_text (am_discount_apr a)"
  using assms(1)
proof (cases rule: price_quote_Inr)
  case (1 pd lgd loss price grade)
  have "\<exists>a. assess D m i later = Inr a \<and> am_model_version a = model_version m \<and> am_grade a = grade \<and> am_pd a = pd \<and>
      am_lgd a = lgd \<and> am_expected_loss a = loss \<and> am_reserve_price a = pr_reserve_price price \<and>
      am_platform_fee a = pr_platform_fee price \<and> am_discount_apr a = pr_discount_apr price"
    using assms(2,3) 1(1-5) by (simp add: assess_def checked_def asks_for_def)
  then show thesis using 1(6-13) that by auto
qed

section \<open>Recommendations\<close>

text \<open>A bid that states a mandate: the same limits, without a minimum lot of its own.\<close>

definition states_mandate :: "'d bid \<Rightarrow> 'd mandate \<Rightarrow> lot list \<Rightarrow> bool" where
  "states_mandate b m ls \<longleftrightarrow> currency (bid_budget b) = md_currency m \<and> bid_min_yield b = md_min_yield m \<and>
     bid_max_grade b = md_max_grade m \<and> \<not> amount_positive (bid_minimum_lot b) \<and>
     (if md_max_tenor_days m > 0 then bid_max_tenor_days b = md_max_tenor_days m
      else \<forall>l \<in> set ls. lot_tenor_days l \<le> bid_max_tenor_days b)"

lemma refused_like_the_solver:
  assumes "states_mandate b m ls" and "l \<in> set ls" and "lot_implied_yield D l = Inr y"
    and "refused_by D m y l = Inr c"
  shows "feasible D b l = Inr None \<longleftrightarrow> c = None"
  using assms
  by (auto simp: states_mandate_def refused_by_def feasible_def d_lt_def and_then_Inr_iff result_simps split: if_splits)

lemma consider_mandate_Inr:
  assumes "consider_mandate D U m l (fit, misfit, cost) = Inr (fit', misfit', cost')"
  obtains (fits) y r where "lot_implied_yield D l = Inr y" and "refused_by D m y l = Inr None" and "fit' = fit @ [r]"
      and "rl_lot_id r = uuid_string U (lot_id l)" and "misfit' = misfit" and "amount_add cost (lot_reserve_price l) = Inr cost'"
  | (refused) y k where "lot_implied_yield D l = Inr y" and "refused_by D m y l = Inr (Some k)" and "fit' = fit"
      and "misfit' = misfit @ [(uuid_string U (lot_id l), constraint_string k)]" and "cost' = cost"
  using assms by (auto simp: consider_mandate_def result_simps split: option.splits intro: that)

lemma considered_lots:
  assumes "fold_result (consider_mandate D U m) ls (fit0, misfit0, cost0) = Inr (fit, misfit, cost)"
    and "states_mandate b m all_lots" and "set ls \<subseteq> set all_lots"
  shows "map rl_lot_id fit = map rl_lot_id fit0 @ map (\<lambda>l. uuid_string U (lot_id l)) (filter (\<lambda>l. feasible D b l = Inr None) ls)"
    and "map fst misfit = map fst misfit0 @ map (\<lambda>l. uuid_string U (lot_id l)) (filter (\<lambda>l. feasible D b l \<noteq> Inr None) ls)"
    and "fold_result (\<lambda>l t. amount_add t (lot_reserve_price l)) (filter (\<lambda>l. feasible D b l = Inr None) ls) cost0 = Inr cost"
  using assms
proof (atomize (full), induction ls arbitrary: fit0 misfit0 cost0)
  case (Cons l ls)
  obtain fit1 misfit1 cost1 where step: "consider_mandate D U m l (fit0, misfit0, cost0) = Inr (fit1, misfit1, cost1)"
    and rest: "fold_result (consider_mandate D U m) ls (fit1, misfit1, cost1) = Inr (fit, misfit, cost)"
    using Cons.prems(1) by (auto simp: result_simps)
  note IH = Cons.IH [OF rest Cons.prems(2)]
  from step show ?case
  proof (cases rule: consider_mandate_Inr)
    case (fits y r)
    then have "feasible D b l = Inr None"
      using refused_like_the_solver [OF Cons.prems(2), of l D y None] Cons.prems(3) by simp
    then show ?thesis using IH fits Cons.prems(3) by (simp add: result_simps)
  next
    case (refused y k)
    then have "feasible D b l \<noteq> Inr None"
      using refused_like_the_solver [OF Cons.prems(2), of l D y "Some k"] Cons.prems(3) by simp
    then show ?thesis using IH refused Cons.prems(3) by simp
  qed
qed simp

lemma recommendation_Inr:
  assumes "auction_recommendation D U decode now body s = Inr r"
  obtains q i m a nothing cost where "decode body = Some q" and "uuid_parse U (rr_auction_id q) = Some i"
    and "parse_mandate D q = Inr m" and "get_auction i s = Inr a" and "amount_zero (md_currency m) = Inr nothing"
    and "fold_result (consider_mandate D U m) (auc_lots a) ([], [], nothing) = Inr (ra_eligible r, ra_rejected r, cost)"
    and "amount_string D cost = Inr (ra_suggested_budget r)"
  using assms
  by (auto simp: auction_recommendation_def result_simps split: option.splits prod.splits intro: that)

text \<open>The names differ, though: of two limits a lot breaks, the mandate reports the yield and the solver the grade.\<close>

lemma refusals_are_named_differently:
  assumes "states_mandate b m [l]" and "currency (lot_supply l) = md_currency m" and "lot_implied_yield D l = Inr y"
    and "d_lt D y (md_min_yield m)" and "grade_at_most (lot_grade l) (md_max_grade m) = Inr False"
  shows "refused_by D m y l = Inr (Some CYield)" and "feasible D b l = Inr (Some CGrade)"
  using assms by (simp_all add: states_mandate_def refused_by_def feasible_def d_lt_def)

section \<open>A quote and a recommendation\<close>

lemma assessed_quote:
  assumes "assess D m i later = Inr a" and "asks_for i face days mit f x"
  shows "\<exists>r. price_quote D m rate_text now face days mit f x = Inr r"
proof -
  obtain pd lgd loss price grade where run: "probability_of_default D m (as_features i) = Inr pd"
    "loss_given_default D m (as_mitigations i) = Inr lgd" "expected_loss D pd lgd (as_face i) = Inr loss"
    "price_receivable D m \<lparr>pi_face = as_face i, pi_days_to_due = as_days_to_due i, pi_benchmark = as_benchmark i,
         pi_liquidity_premium = as_liquidity_premium i, pi_pd = pd, pi_lgd = lgd,
         pi_debtor_concentration = debtor_concentration (as_features i)\<rparr> = Inr price"
    "grade_from_pd D pd = Inr grade"
    using assms(1) unfolding assess_def by (auto simp: checked_Inr_iff and_then_Inr_iff)
  obtain texts where "amount_string D loss = Inr (texts (0 :: nat))" "amount_string D (pr_reserve_price price) = Inr (texts 1)"
    "amount_string D (pr_platform_fee price) = Inr (texts 2)"
  proof -
    obtain t0 t1 t2 where "amount_string D loss = Inr t0" "amount_string D (pr_reserve_price price) = Inr t1"
      "amount_string D (pr_platform_fee price) = Inr t2"
      using amount_string_total by metis
    then show thesis using that [of "\<lambda>n. if n = 0 then t0 else if n = 1 then t1 else t2"] by simp
  qed
  then show ?thesis using run assms(2) by (simp add: price_quote_def asks_for_def)
qed

definition sample_quote_request :: quote_request where
  "sample_quote_request = \<lparr>qr_face = fixed_text 100000 2, qr_currency = [], qr_days_to_due = 365, qr_dso_norm = [],
     qr_late_payment_rate = [], qr_dispute_flag = [], qr_debtor_concentration = [], qr_debtor_risk = [],
     qr_mitigations = \<lparr>recourse = True, collateralized = False\<rparr>\<rparr>"

definition quoted_market :: "rat snapshot" where
  "quoted_market = \<lparr>sn_provider = ''graph'', sn_network = ''base'', sn_asset = ''USDC'', sn_query_hash = [],
     sn_payload_hash = ''0x'' @ replicate 64 (CHR ''a''), sn_markets = [], sn_subgraph_ids = [], sn_block_numbers = [],
     sn_benchmark = 5 / 100, sn_liquidity_premium = 1 / 100, sn_volatility = 0,
     sn_total_liquidity = \<lparr>minor = 1, currency = ''USD''\<rparr>, sn_observed_at = 1, sn_ttl = 10\<rparr>"

definition sample_desk :: "(rat, unit) agent_desk" where
  "sample_desk = \<lparr>ad_model = sample_model, ad_markets = None,
     ad_query = \<lparr>mq_provider = ''graph'', mq_network = ''base'', mq_asset = ''USDC'', mq_graphql = [], mq_variables = []\<rparr>,
     ad_rate_text = (\<lambda>x. rate_string_fixed rat_decimal x 6)\<rparr>"

definition quoting_store :: "rat store" where
  "quoting_store = save_snapshot quoted_market empty_store"

lemma sample_asks:
  "asks_for sample_assess_input \<lparr>minor = 100000, currency = ''USD''\<rparr> 365 \<lparr>recourse = True, collateralized = False\<rparr>
     (as_features sample_assess_input) quoted_market"
  by (simp add: asks_for_def sample_assess_input_def quoted_market_def)

lemma fixed_text_nonempty: "fixed_text n 2 \<noteq> []"
  by (simp add: fixed_text_def)

lemma parse_fixed: "parse_rate rat_decimal (fixed_text n p) = Inr (of_int n / 10 ^ p)"
  by (simp add: parse_rate_def rat_decimal_def decimal_literal_fixed)

lemma sample_dollars:
  "from_decimal rat_decimal 1000 ''USD'' = Inr \<lparr>minor = 100000, currency = ''USD''\<rparr>"
  "from_decimal rat_decimal 500 ''USD'' = Inr \<lparr>minor = 50000, currency = ''USD''\<rparr>"
  by code_simp+

lemma parse_dollars: "parse_amount rat_decimal (fixed_text n 2) ''USD'' = from_decimal rat_decimal (of_int n / 100) ''USD''"
proof -
  have "d_parse rat_decimal (fixed_text n 2) = Some (of_int n / 100)" by (simp add: rat_decimal_def decimal_literal_fixed)
  moreover have "currency_valid ''USD''" by code_simp
  ultimately show ?thesis by (simp add: parse_amount_def)
qed

lemma sample_request_parsed:
  "parse_currency (default_string [] ''USD'') = Inr ''USD''"
  "parse_amount rat_decimal (fixed_text 100000 2) ''USD'' = Inr \<lparr>minor = 100000, currency = ''USD''\<rparr>"
  subgoal by code_simp
  subgoal using parse_dollars [of 100000] sample_dollars by simp
  done

lemma sample_request_features: "parse_features rat_decimal sample_quote_request = Inr (as_features sample_assess_input)"
proof -
  have "parse_rate rat_decimal ''0'' = Inr 0" by code_simp
  then have "quoted_rate rat_decimal field [] = Inr 0" for field by (simp add: quoted_rate_def default_string_def)
  moreover have "\<lparr>dso_norm = 0, late_payment_rate = 0, dispute_flag = 0, debtor_concentration = 0,
       market_volatility = d_zero rat_decimal, debtor_risk = 0\<rparr> = as_features sample_assess_input"
    by (simp add: sample_assess_input_def rat_decimal_def)
  ultimately show ?thesis
    using sample_features by (simp add: parse_features_def sample_quote_request_def checked_def)
qed

lemma sample_market_stored: "agent_snapshot id rat_decimal sample_desk 7 quoting_store () = (Inr quoted_market, ())"
  by (simp add: agent_snapshot_def sample_desk_def latest_snapshot_def quoting_store_def save_snapshot_def empty_store_def
      table_put_def table_rows_def newest_def is_fresh_def expires_at_def)
    (simp add: quoted_market_def)

lemma sample_quoted:
  "\<exists>r. risk_quote id rat_decimal (\<lambda>_. Some sample_quote_request) sample_desk 7 [] quoting_store () = (Inr r, ())"
proof -
  obtain a where "assess rat_decimal sample_model sample_assess_input 7 = Inr a" using sample_assessed by blast
  from assessed_quote [OF this sample_asks, of "ad_rate_text sample_desk" 7] obtain r where
    "price_quote rat_decimal sample_model (ad_rate_text sample_desk) 7 \<lparr>minor = 100000, currency = ''USD''\<rparr> 365
       \<lparr>recourse = True, collateralized = False\<rparr> (as_features sample_assess_input) quoted_market = Inr r" by blast
  moreover have "ad_model sample_desk = sample_model" by (simp add: sample_desk_def)
  moreover have "qr_face sample_quote_request = (fixed_text 100000 2)" "qr_currency sample_quote_request = []"
    "qr_days_to_due sample_quote_request = 365"
    "qr_mitigations sample_quote_request = \<lparr>recourse = True, collateralized = False\<rparr>"
    by (simp_all add: sample_quote_request_def)
  ultimately show ?thesis
    by (simp add: risk_quote_def sample_request_parsed sample_request_features sample_market_stored amount_positive_def)
qed

lemma sample_input_valid: "assess_validate rat_decimal sample_assess_input = []"
  using sample_assessed by (auto simp: assess_def checked_Inr_iff)

section \<open>Properties\<close>

text \<open>C39: A quote is the price the platform would store. Whatever a machine is quoted for a receivable was priced on a
  fresh snapshot, stored or just taken, whose digest it names; and an assessment of the same facts on that market, by
  the same model, has the same grade, probability, loss, discount, fee and reserve price.\<close>

theorem quote_is_the_platforms_price:
  assumes "risk_quote H D decode A now body s n = (Inr r, n')"
  shows "\<exists>q c face f x. decode body = Some q \<and> parse_currency (default_string (qr_currency q) ''USD'') = Inr c \<and>
    parse_amount D (qr_face q) c = Inr face \<and> parse_features D q = Inr f \<and> is_fresh now x \<and>
    (latest_snapshot (mq_network (ad_query A)) (mq_asset (ad_query A)) s = Inr x \<or>
      (\<exists>P fetch_markets. ad_markets A = Some (P, fetch_markets) \<and>
        take_snapshot H D P fetch_markets (ad_query A) now n = (Inr x, n'))) \<and>
    qa_snapshot_hash r = sn_payload_hash x \<and>
    (\<forall>i later. asks_for i face (qr_days_to_due q) (qr_mitigations q) f x \<and> assess_validate D i = [] \<longrightarrow>
      (\<exists>a. assess D (ad_model A) i later = Inr a \<and> qa_grade r = am_grade a \<and> qa_pd r = ad_rate_text A (am_pd a) \<and>
        qa_lgd r = ad_rate_text A (am_lgd a) \<and> qa_discount_apr r = ad_rate_text A (am_discount_apr a) \<and>
        amount_string D (am_expected_loss a) = Inr (qa_expected_loss r) \<and>
        amount_string D (am_reserve_price a) = Inr (qa_reserve_price r) \<and>
        amount_string D (am_platform_fee a) = Inr (qa_platform_fee r)))"
  using assms
proof (cases rule: risk_quote_Inr)
  case (1 q c face f x)
  have "qa_snapshot_hash r = sn_payload_hash x" using 1(8) by (cases rule: price_quote_Inr) simp
  moreover have "\<exists>a. assess D (ad_model A) i later = Inr a \<and> qa_grade r = am_grade a \<and> qa_pd r = ad_rate_text A (am_pd a) \<and>
        qa_lgd r = ad_rate_text A (am_lgd a) \<and> qa_discount_apr r = ad_rate_text A (am_discount_apr a) \<and>
        amount_string D (am_expected_loss a) = Inr (qa_expected_loss r) \<and>
        amount_string D (am_reserve_price a) = Inr (qa_reserve_price r) \<and>
        amount_string D (am_platform_fee a) = Inr (qa_platform_fee r)"
    if "asks_for i face (qr_days_to_due q) (qr_mitigations q) f x" "assess_validate D i = []" for i later
    using 1(8) that by (rule quote_assessed) blast
  ultimately show ?thesis using 1(1-3,6) agent_snapshot_fresh [OF 1(7)] by blast
qed

theorem quote_is_the_platforms_price_witness:
  "\<exists>r a. risk_quote id rat_decimal (\<lambda>_. Some sample_quote_request) sample_desk 7 [] quoting_store () = (Inr r, ()) \<and>
     assess rat_decimal sample_model sample_assess_input 7 = Inr a \<and> qa_grade r = am_grade a \<and>
     amount_string rat_decimal (am_reserve_price a) = Inr (qa_reserve_price r)"
proof -
  obtain r where r: "risk_quote id rat_decimal (\<lambda>_. Some sample_quote_request) sample_desk 7 [] quoting_store () = (Inr r, ())"
    using sample_quoted by blast
  obtain q c face f x where q: "Some sample_quote_request = Some q"
    "parse_currency (default_string (qr_currency q) ''USD'') = Inr c" "parse_amount rat_decimal (qr_face q) c = Inr face"
    "parse_features rat_decimal q = Inr f" "latest_snapshot ''base'' ''USDC'' quoting_store = Inr x"
    and all: "\<forall>i later. asks_for i face (qr_days_to_due q) (qr_mitigations q) f x \<and> assess_validate rat_decimal i = [] \<longrightarrow>
      (\<exists>a. assess rat_decimal sample_model i later = Inr a \<and> qa_grade r = am_grade a \<and>
        amount_string rat_decimal (am_reserve_price a) = Inr (qa_reserve_price r))"
  proof -
    from quote_is_the_platforms_price [OF r] show thesis
    proof (elim exE conjE)
      fix q c face f x
      assume 1: "Some sample_quote_request = Some q"
        "parse_currency (default_string (qr_currency q) ''USD'') = Inr c" "parse_amount rat_decimal (qr_face q) c = Inr face"
        "parse_features rat_decimal q = Inr f"
        and 2: "latest_snapshot (mq_network (ad_query sample_desk)) (mq_asset (ad_query sample_desk)) quoting_store = Inr x \<or>
          (\<exists>P fetch_markets. ad_markets sample_desk = Some (P, fetch_markets) \<and>
            take_snapshot id rat_decimal P fetch_markets (ad_query sample_desk) 7 () = (Inr x, ()))"
        and 3: "\<forall>i later. asks_for i face (qr_days_to_due q) (qr_mitigations q) f x \<and> assess_validate rat_decimal i = [] \<longrightarrow>
          (\<exists>a. assess rat_decimal (ad_model sample_desk) i later = Inr a \<and> qa_grade r = am_grade a \<and>
            qa_pd r = ad_rate_text sample_desk (am_pd a) \<and> qa_lgd r = ad_rate_text sample_desk (am_lgd a) \<and>
            qa_discount_apr r = ad_rate_text sample_desk (am_discount_apr a) \<and>
            amount_string rat_decimal (am_expected_loss a) = Inr (qa_expected_loss r) \<and>
            amount_string rat_decimal (am_reserve_price a) = Inr (qa_reserve_price r) \<and>
            amount_string rat_decimal (am_platform_fee a) = Inr (qa_platform_fee r))"
      have "latest_snapshot ''base'' ''USDC'' quoting_store = Inr x" using 2 by (simp add: sample_desk_def)
      moreover have "ad_model sample_desk = sample_model" by (simp add: sample_desk_def)
      ultimately show thesis using 3 by (intro that [OF 1]) (simp_all, metis)
    qed
  qed
  have request: "q = sample_quote_request" using q(1) by simp
  have "c = ''USD''" using q(2) sample_request_parsed(1) by (simp add: request) (simp add: sample_quote_request_def)
  then have face: "face = \<lparr>minor = 100000, currency = ''USD''\<rparr>"
    using q(3) sample_request_parsed(2) by (simp add: request) (simp add: sample_quote_request_def)
  have f: "f = as_features sample_assess_input" using q(4) sample_request_features by (simp add: request)
  have "x = quoted_market"
    using q(5) by (simp add: latest_snapshot_def quoting_store_def save_snapshot_def empty_store_def table_put_def
        table_rows_def newest_def) (simp add: quoted_market_def)
  then have "asks_for sample_assess_input face (qr_days_to_due q) (qr_mitigations q) f x"
    using sample_asks by (simp add: face f request) (simp add: sample_quote_request_def)
  then show ?thesis using all sample_input_valid r by blast
qed

text \<open>C40: A recommendation is what the solver would allow. For every bid that states the mandate, the recommended lots are
  those of the batch the solver finds feasible for it, in their order, the others are the rejected ones, and the
  suggested budget is the cost of the recommended lots at their reserve prices.\<close>

theorem recommendation_agrees_with_the_solver:
  assumes "auction_recommendation D U decode now body s = Inr r" and "decode body = Some q"
    and "uuid_parse U (rr_auction_id q) = Some i" and "parse_mandate D q = Inr m" and "get_auction i s = Inr a"
    and "states_mandate b m (auc_lots a)"
  shows "map rl_lot_id (ra_eligible r) =
      map (\<lambda>l. uuid_string U (lot_id l)) (filter (\<lambda>l. feasible D b l = Inr None) (auc_lots a)) \<and>
    map fst (ra_rejected r) =
      map (\<lambda>l. uuid_string U (lot_id l)) (filter (\<lambda>l. feasible D b l \<noteq> Inr None) (auc_lots a)) \<and>
    (\<exists>nothing cost. amount_zero (md_currency m) = Inr nothing \<and>
      fold_result (\<lambda>l t. amount_add t (lot_reserve_price l)) (filter (\<lambda>l. feasible D b l = Inr None) (auc_lots a)) nothing =
        Inr cost \<and> amount_string D cost = Inr (ra_suggested_budget r))"
  using assms(1)
proof (cases rule: recommendation_Inr)
  case (1 q' i' m' a' nothing cost)
  then have "fold_result (consider_mandate D U m) (auc_lots a) ([], [], nothing) = Inr (ra_eligible r, ra_rejected r, cost)"
    using assms(2-5) by simp
  from considered_lots [OF this assms(6) subset_refl] show ?thesis using 1 assms(2-4) by auto
qed

definition sample_mandate_request :: recommendation_request where
  "sample_mandate_request = \<lparr>rr_auction_id = uuid_string rfc_uuid 5, rr_budget = fixed_text 50000 2, rr_currency = [],
     rr_min_yield = fixed_text 5 2, rr_max_grade = ''C'', rr_max_tenor_days = 90\<rparr>"

definition sample_mandate :: "rat mandate" where
  "sample_mandate = \<lparr>md_currency = ''USD'', md_budget = \<lparr>minor = 50000, currency = ''USD''\<rparr>, md_min_yield = 5 / 100,
     md_max_grade = ''C'', md_max_tenor_days = 90\<rparr>"

lemma sample_mandate_parsed: "parse_mandate rat_decimal sample_mandate_request = Inr sample_mandate"
proof -
  have "parse_amount rat_decimal (default_string (fixed_text 50000 2) ''0'') ''USD'' = Inr \<lparr>minor = 50000, currency = ''USD''\<rparr>"
    "parse_rate rat_decimal (default_string (fixed_text 5 2) ''0'') = Inr (5 / 100)"
    using parse_dollars [of 50000] parse_fixed [of 5 2] sample_dollars fixed_text_nonempty
    by (simp_all add: default_string_def)
  moreover have "parse_grade (default_string ''C'' ''E'') = Inr ''C''" by code_simp
  ultimately show ?thesis
    using sample_request_parsed(1) by (simp add: parse_mandate_def sample_mandate_request_def sample_mandate_def)
qed

lemma sample_stated: "states_mandate sample_bid sample_mandate ls"
  by (simp add: states_mandate_def sample_bid_def sample_mandate_def amount_positive_def)

lemma sample_yield: "lot_implied_yield rat_decimal sample_lot = Inr (7921 / 31250)"
  by code_simp

lemma sample_considered:
  "\<exists>r. rl_lot_id r = uuid_string rfc_uuid 1 \<and>
     consider_mandate rat_decimal rfc_uuid sample_mandate sample_lot ([], [], \<lparr>minor = 0, currency = ''USD''\<rparr>) =
       Inr ([r], [], \<lparr>minor = 96000, currency = ''USD''\<rparr>)"
proof -
  obtain supply_text reserve_text where texts: "amount_string rat_decimal (lot_supply sample_lot) = Inr supply_text"
    "amount_string rat_decimal (lot_reserve_price sample_lot) = Inr reserve_text"
    using amount_string_total by metis
  have rank: "grade_at_most ''B'' ''C'' = Inr True" by code_simp
  have "refused_by rat_decimal sample_mandate (7921 / 31250) sample_lot = Inr None"
    by (simp add: refused_by_def sample_mandate_def sample_lot_def rank evaluate_rates)
  moreover have "amount_add \<lparr>minor = 0, currency = ''USD''\<rparr> (lot_reserve_price sample_lot) =
      Inr \<lparr>minor = 96000, currency = ''USD''\<rparr>" by code_simp
  ultimately show ?thesis
    using texts by (simp add: consider_mandate_def sample_yield) (simp add: sample_lot_def)
qed

theorem recommendation_agrees_with_the_solver_witness:
  "\<exists>r. auction_recommendation rat_decimal rfc_uuid (\<lambda>_. Some sample_mandate_request) 25 [] market_store = Inr r \<and>
     map rl_lot_id (ra_eligible r) =
       map (\<lambda>l. uuid_string rfc_uuid (lot_id l)) (filter (\<lambda>l. feasible rat_decimal sample_bid l = Inr None) [sample_lot]) \<and>
     map rl_lot_id (ra_eligible r) = [uuid_string rfc_uuid 1]"
proof -
  have a: "get_auction 5 market_store = Inr (sample_auction\<lparr>auc_status := AucOpen\<rparr>)"
    by (simp add: get_auction_def fetch_def market_store_def)
  have lots: "auc_lots (sample_auction\<lparr>auc_status := AucOpen\<rparr>) = [sample_lot]" by (simp add: sample_auction_def)
  have i: "uuid_parse rfc_uuid (rr_auction_id sample_mandate_request) = Some 5"
    by (simp add: sample_mandate_request_def rfc.uuid_parse_string)
  have zero: "amount_zero (md_currency sample_mandate) = Inr \<lparr>minor = 0, currency = ''USD''\<rparr>" by code_simp
  let ?cost = "\<lparr>minor = 96000, currency = ''USD''\<rparr>"
  obtain l where l: "rl_lot_id l = uuid_string rfc_uuid 1"
    "consider_mandate rat_decimal rfc_uuid sample_mandate sample_lot ([], [], \<lparr>minor = 0, currency = ''USD''\<rparr>) = Inr ([l], [], ?cost)"
    using sample_considered by blast
  have missing: "budget_shortfall (md_currency sample_mandate) ?cost (md_budget sample_mandate) =
      Inr \<lparr>minor = 46000, currency = ''USD''\<rparr>" by code_simp
  obtain cost_text missing_text where texts: "amount_string rat_decimal ?cost = Inr cost_text"
    "amount_string rat_decimal \<lparr>minor = 46000, currency = ''USD''\<rparr> = Inr missing_text" using amount_string_total by metis
  obtain r where r: "auction_recommendation rat_decimal rfc_uuid (\<lambda>_. Some sample_mandate_request) 25 [] market_store = Inr r"
    "ra_eligible r = [l]"
    by (simp add: auction_recommendation_def i sample_mandate_parsed a lots zero l(2) missing texts)
  from recommendation_agrees_with_the_solver [OF r(1) refl i sample_mandate_parsed a sample_stated] r l(1) show ?thesis
    unfolding lots by simp
qed

end
