(* ===== verification/Sign_In.thy ===== *)
theory Sign_In
  imports Application
begin

text \<open>
  How a wallet becomes a caller: \<^verbatim>\<open>internal/identity/service.go\<close> (challenges, the session a signature buys,
  and the caller a token stands for), the resolver and the guards of \<^verbatim>\<open>platform/httpserver/actor.go\<close>, and
  \<^verbatim>\<open>internal/app/onboarding\<close> (registration and the eligibility decision). \<open>R\<close> gives random bytes, \<open>H\<close> is SHA-256
  and \<open>K\<close> the cryptography of the signatures.
\<close>

section \<open>Accounts\<close>

record wallet_account =
  acc_organization_id :: uuid
  acc_wallet :: string
  acc_eligible :: bool
  acc_operator :: bool

definition by_wallet :: "string \<Rightarrow> 'd store \<Rightarrow> wallet_account result" where
  "by_wallet wallet s =
    and_then (get_organization_by_wallet wallet s) (\<lambda>g.
      Inr \<lparr>acc_organization_id = org_id g, acc_wallet = org_wallet g, acc_eligible = is_eligible g,
        acc_operator = (org_type g = OrgOperator)\<rparr>)"

section \<open>Signing in\<close>

record challenge_result =
  cr_nonce :: string
  cr_message :: string
  cr_expires_at :: instant

record session_result =
  sr_token :: string
  sr_organization_id :: uuid
  sr_wallet :: string
  sr_expires_at :: instant

definition request_challenge ::
  "(nat \<Rightarrow> string result) \<Rightarrow> string \<Rightarrow> instant \<Rightarrow> 'd store \<Rightarrow> challenge_result result \<times> 'd store" where
  "request_challenge R wallet now s =
    (case new_challenge R wallet now of
       Inl e \<Rightarrow> (Inl e, s)
     | Inr c \<Rightarrow> in_tx (\<lambda>s. Inr (\<lparr>cr_nonce = ch_nonce c, cr_message = challenge_message c,
         cr_expires_at = ch_expires_at c\<rparr>, save_challenge c s)) s)"

definition verify_sign_in_tx ::
  "crypto_ops \<Rightarrow> (string \<Rightarrow> string) \<Rightarrow> (nat \<Rightarrow> string result) \<Rightarrow> instant \<Rightarrow> string \<Rightarrow> string \<Rightarrow> 'd store \<Rightarrow>
    (session_result \<times> 'd store) result" where
  "verify_sign_in_tx K H R now nonce signature s =
    (case get_challenge nonce s of
       Inl _ \<Rightarrow> Inl Unauthorized
     | Inr c \<Rightarrow>
         if challenge_consumed c \<or> challenge_expired now c then Inl Unauthorized
         else
           and_then (verify_signature K (ch_wallet c) (challenge_message c) signature) (\<lambda>_.
           and_then (case by_wallet (ch_wallet c) s of
               Inl e \<Rightarrow> Inl (if is_not_found e then ErrForbidden else e)
             | Inr a \<Rightarrow> Inr a) (\<lambda>a.
           and_then (consume now c) (\<lambda>c'.
           and_then (consume_challenge c' s) (\<lambda>s1.
           and_then (new_session H R (acc_organization_id a) (ch_wallet c) now) (\<lambda>(x, token).
             Inr (\<lparr>sr_token = token, sr_organization_id = se_organization_id x, sr_wallet = se_wallet x,
               sr_expires_at = se_expires_at x\<rparr>, save_session x s1)))))))"

definition verify_sign_in ::
  "crypto_ops \<Rightarrow> (string \<Rightarrow> string) \<Rightarrow> (nat \<Rightarrow> string result) \<Rightarrow> instant \<Rightarrow> string \<Rightarrow> string \<Rightarrow> 'd store \<Rightarrow>
    session_result result \<times> 'd store" where
  "verify_sign_in K H R now nonce signature s =
    (if nonce = [] then (Inl (Invalid ''nonce''), s) else in_tx (verify_sign_in_tx K H R now nonce signature) s)"

section \<open>Resolving and leaving\<close>

record caller =
  ca_organization_id :: uuid
  ca_wallet :: string
  ca_role :: string
  ca_eligible :: bool
  ca_operator :: bool

definition role_owner :: string where "role_owner = ''OWNER''"

definition no_caller :: caller where
  "no_caller = \<lparr>ca_organization_id = uuid_nil, ca_wallet = [], ca_role = [], ca_eligible = False, ca_operator = False\<rparr>"

definition caller_is_zero :: "caller \<Rightarrow> bool" where
  "caller_is_zero a \<longleftrightarrow> ca_organization_id a = uuid_nil"

definition resolve_token :: "(string \<Rightarrow> string) \<Rightarrow> instant \<Rightarrow> string \<Rightarrow> 'd store \<Rightarrow> caller result" where
  "resolve_token H now token s =
    (if token = [] then Inl Unauthorized
     else case get_session (hash_token H token) s of
       Inl _ \<Rightarrow> Inl Unauthorized
     | Inr x \<Rightarrow>
         if \<not> session_active now x then Inl Unauthorized
         else case by_wallet (se_wallet x) s of
           Inl _ \<Rightarrow> Inl Unauthorized
         | Inr a \<Rightarrow>
             if acc_organization_id a \<noteq> se_organization_id x then Inl Unauthorized
             else Inr \<lparr>ca_organization_id = acc_organization_id a, ca_wallet = se_wallet x, ca_role = role_owner,
               ca_eligible = acc_eligible a, ca_operator = acc_operator a\<rparr>)"

definition logout :: "(string \<Rightarrow> string) \<Rightarrow> instant \<Rightarrow> string \<Rightarrow> 'd store \<Rightarrow> unit result \<times> 'd store" where
  "logout H now token s =
    (if token = [] then (Inr (), s)
     else in_tx (\<lambda>s.
       case get_session (hash_token H token) s of
         Inl e \<Rightarrow> if is_not_found e then Inr ((), s) else Inl e
       | Inr x \<Rightarrow> Inr ((), revoke_session (revoke now x) s)) s)"

definition purge_challenges :: "instant \<Rightarrow> 'd store \<Rightarrow> nat result \<times> 'd store" where
  "purge_challenges now = in_tx (\<lambda>s. Inr (delete_expired_challenges now s))"

section \<open>The caller of a request\<close>

text \<open>
  A request carries the header of its authorization, empty when there is none, and perhaps a cookie of the name the
  resolver knows. The seven bytes of the prefix are letters of ASCII and a space: folding them is
  \<^const>\<open>to_lower\<close>.
\<close>

record credentials =
  cd_authorization :: string
  cd_cookie :: "string option"

definition bearer_token :: "string \<Rightarrow> string" where
  "bearer_token header =
    (if length header \<le> 7 \<or> to_lower (take 7 header) \<noteq> ''bearer '' then [] else trim_space (drop 7 header))"

definition resolve_request :: "(string \<Rightarrow> string) \<Rightarrow> instant \<Rightarrow> credentials \<Rightarrow> 'd store \<Rightarrow> caller result" where
  "resolve_request H now cd s =
    (if bearer_token (cd_authorization cd) \<noteq> [] then resolve_token H now (bearer_token (cd_authorization cd)) s
     else case cd_cookie cd of Some token \<Rightarrow> resolve_token H now token s | None \<Rightarrow> Inr no_caller)"

definition authenticate :: "(string \<Rightarrow> string) \<Rightarrow> instant \<Rightarrow> credentials \<Rightarrow> 'd store \<Rightarrow> caller" where
  "authenticate H now cd s =
    (case resolve_request H now cd s of
       Inl _ \<Rightarrow> no_caller
     | Inr a \<Rightarrow> if caller_is_zero a then no_caller else a)"

definition require_actor :: "caller \<Rightarrow> unit result" where
  "require_actor a = (if caller_is_zero a then Inl Unauthorized else Inr ())"

definition require_operator :: "caller \<Rightarrow> unit result" where
  "require_operator a =
    (if caller_is_zero a then Inl Unauthorized else if \<not> ca_operator a then Inl ErrForbidden else Inr ())"

section \<open>Registration\<close>

definition organization_entity :: string where "organization_entity = ''organization''"
definition action_registered :: string where "action_registered = ''organization.registered''"
definition action_org_approved :: string where "action_org_approved = ''organization.approved''"
definition action_org_rejected :: string where "action_org_rejected = ''organization.rejected''"

record register_params =
  rg_nonce :: string
  rg_signature :: string
  rg_type :: string
  rg_name :: string

text \<open>The JSON text an entry of an organization digests.\<close>

definition eligibility_json :: "organization option \<Rightarrow> string" where
  "eligibility_json v =
    (case v of
       None \<Rightarrow> ''null''
     | Some g \<Rightarrow>
         ''{'' @ [CHR 0x22] @ ''eligibility'' @ [CHR 0x22] @ '':'' @ [CHR 0x22] @ eligibility_string (org_eligibility g)
         @ [CHR 0x22] @ '','' @ [CHR 0x22] @ ''version'' @ [CHR 0x22] @ '':'' @ int_dec (org_version g) @ ''}'')"

definition record_organization ::
  "(string \<Rightarrow> string) \<Rightarrow> uuid_ops \<Rightarrow> request \<Rightarrow> uuid \<Rightarrow> string \<Rightarrow> organization option \<Rightarrow> organization \<Rightarrow>
    (string \<times> detail) list \<Rightarrow> 'd store \<Rightarrow> 'd store result" where
  "record_organization H U rq who action before g details s =
    record_event (fold (\<lambda>(k, v). with_detail k v) details
      ((event_of rq (uuid_string U who) action organization_entity (uuid_string U (org_id g)))
        \<lparr>ev_before_hash := audit_hash H (Some (eligibility_json before)),
         ev_after_hash := audit_hash H (Some (eligibility_json (Some g)))\<rparr>)) s"

definition register_tx ::
  "crypto_ops \<Rightarrow> (string \<Rightarrow> string) \<Rightarrow> uuid_ops \<Rightarrow> bool \<Rightarrow> request \<Rightarrow> register_params \<Rightarrow> 'd store \<Rightarrow>
    (organization \<times> 'd store) result" where
  "register_tx K H U auto_approve rq p s =
    (case get_challenge (rg_nonce p) s of
       Inl _ \<Rightarrow> Inl ErrForbidden
     | Inr c \<Rightarrow>
         if challenge_consumed c \<or> challenge_expired (rq_now rq) c then Inl ErrForbidden
         else
           and_then (verify_signature K (ch_wallet c) (challenge_message c) (rg_signature p)) (\<lambda>_.
           and_then (new_organization \<lparr>nop_id = rq_ids rq 0, nop_type = rg_type p, nop_name = rg_name p,
               nop_wallet = ch_wallet c\<rparr> (rq_now rq)) (\<lambda>g0.
           and_then (if auto_approve then org_approve (rq_now rq) g0 else Inr g0) (\<lambda>g.
           and_then (consume (rq_now rq) c) (\<lambda>c'.
           and_then (consume_challenge c' s) (\<lambda>s1.
           and_then (create_organization g s1) (\<lambda>s2.
           and_then (record_organization H U rq (org_id g) action_registered None g
               [(''type'', DetailText (org_type_string (org_type g))), (''wallet'', DetailText (org_wallet g)),
                (''auto_approved'', DetailBool auto_approve)] s2) (\<lambda>s3. Inr (g, s3)))))))))"

definition register ::
  "crypto_ops \<Rightarrow> (string \<Rightarrow> string) \<Rightarrow> uuid_ops \<Rightarrow> bool \<Rightarrow> request \<Rightarrow> register_params \<Rightarrow> 'd store \<Rightarrow>
    organization result \<times> 'd store" where
  "register K H U auto_approve rq p s =
    (if rg_nonce p = [] then (Inl (Invalid ''nonce''), s)
     else if rg_type p = org_type_string OrgOperator then (Inl ErrForbidden, s)
     else in_tx (register_tx K H U auto_approve rq p) s)"

section \<open>Readings and decisions\<close>

definition read_organization :: "actor \<Rightarrow> uuid \<Rightarrow> 'd store \<Rightarrow> organization result" where
  "read_organization who i s =
    (if \<not> ac_operator who \<and> ac_organization_id who \<noteq> i then Inl ErrNotFound else get_organization i s)"

definition read_organizations :: "uuid_ops \<Rightarrow> actor \<Rightarrow> string \<Rightarrow> int \<Rightarrow> 'd store \<Rightarrow> organization list result" where
  "read_organizations U who wanted limit s =
    (if \<not> ac_operator who then Inl ErrForbidden
     else if wanted = [] then Inr (list_organizations U None limit s)
     else case org_parse_type wanted of
       Inl _ \<Rightarrow> Inl (Invalid ''type'')
     | Inr k \<Rightarrow> Inr (list_organizations U (Some k) limit s))"

definition decide_tx ::
  "(string \<Rightarrow> string) \<Rightarrow> uuid_ops \<Rightarrow> request \<Rightarrow> actor \<Rightarrow> uuid \<Rightarrow> string \<Rightarrow> (organization \<Rightarrow> organization result) \<Rightarrow>
    'd store \<Rightarrow> (organization \<times> 'd store) result" where
  "decide_tx H U rq who i action apply_command s =
    and_then (get_organization i s) (\<lambda>g.
    and_then (apply_command g) (\<lambda>g'.
    and_then (update_organization g' (org_version g) s) (\<lambda>s1.
    and_then (record_organization H U rq (ac_organization_id who) action (Some g) g'
        [(''eligibility'', DetailText (eligibility_string (org_eligibility g'))),
         (''reason'', DetailText (org_reason g'))] s1) (\<lambda>s2. Inr (g', s2)))))"

definition decide ::
  "(string \<Rightarrow> string) \<Rightarrow> uuid_ops \<Rightarrow> request \<Rightarrow> actor \<Rightarrow> uuid \<Rightarrow> string \<Rightarrow> (organization \<Rightarrow> organization result) \<Rightarrow>
    'd store \<Rightarrow> organization result \<times> 'd store" where
  "decide H U rq who i action apply_command s =
    (if \<not> ac_operator who then (Inl ErrForbidden, s) else in_tx (decide_tx H U rq who i action apply_command) s)"

definition approve_organization ::
  "(string \<Rightarrow> string) \<Rightarrow> uuid_ops \<Rightarrow> request \<Rightarrow> actor \<Rightarrow> uuid \<Rightarrow> 'd store \<Rightarrow> organization result \<times> 'd store" where
  "approve_organization H U rq who i = decide H U rq who i action_org_approved (org_approve (rq_now rq))"

definition reject_organization ::
  "(string \<Rightarrow> string) \<Rightarrow> uuid_ops \<Rightarrow> request \<Rightarrow> actor \<Rightarrow> uuid \<Rightarrow> string \<Rightarrow> 'd store \<Rightarrow> organization result \<times> 'd store" where
  "reject_organization H U rq who i reason = decide H U rq who i action_org_rejected (org_reject reason (rq_now rq))"

end
