(* ===== verification/Sign_In_Facts.thy ===== *)
theory Sign_In_Facts
  imports Sign_In
begin

text \<open>
  What signing in guarantees. A challenge is spent at most once, by a session or by a registration, whatever happens
  to the storage in between. A session speaks for the wallet whose key signed, as its organization stands at every
  request: a decision about the organization holds from the next request on.
\<close>

section \<open>Wallets\<close>

definition plain_wallet :: "string \<Rightarrow> bool" where
  "plain_wallet w \<longleftrightarrow> wallet_hex w \<and> trim_space w = w \<and> to_lower w = w"

lemma wallet_hex_visible: "wallet_hex w \<Longrightarrow> trim_space w = w"
proof (rule trim_space_visible)
  assume w: "wallet_hex w"
  then have "set w = set (take 2 w) \<union> set (drop 2 w)" by (metis append_take_drop_id set_append)
  moreover have "visible_char c" if "hex_char c" for c
    using that by (auto simp: hex_char_def lower_hex_char_def lower_char_def visible_char_def less_eq_char_def split: if_splits)
  ultimately show "list_all visible_char w"
    using w by (auto simp: wallet_hex_def list_all_iff visible_char_def)
qed

lemma normalized_plain: "normalize_wallet w = Inr v \<Longrightarrow> plain_wallet v"
  using wallet_hex_lower [of "trim_space w"] wallet_hex_visible [of "to_lower (trim_space w)"]
  by (auto simp: normalize_wallet_Inr plain_wallet_def)

lemma plain_normalized [simp]: "plain_wallet w \<Longrightarrow> normalize_wallet w = Inr w"
  by (simp add: normalize_wallet_Inr plain_wallet_def)

section \<open>What each operation does\<close>

lemma request_challenge_cases:
  assumes "request_challenge R wallet now s = (Inr r, t)"
  obtains c where "new_challenge R wallet now = Inr c" and "t = save_challenge c s"
    and "r = \<lparr>cr_nonce = ch_nonce c, cr_message = challenge_message c, cr_expires_at = ch_expires_at c\<rparr>"
  using assms by (auto simp: request_challenge_def in_tx_Inr split: sum.splits)

lemma new_challenge_Inr:
  "new_challenge R wallet now = Inr c \<Longrightarrow> plain_wallet (ch_wallet c) \<and> \<not> challenge_consumed c"
  using normalized_plain by (fastforce simp: new_challenge_def result_simps challenge_consumed_def)

lemma verify_sign_in_cases:
  assumes "verify_sign_in K H R now nonce signature s = (Inr r, t)"
  obtains c g x s1 token where "get_challenge nonce s = Inr c" and "\<not> challenge_consumed c" and "\<not> challenge_expired now c"
    and "verify_signature K (ch_wallet c) (challenge_message c) signature = Inr ()"
    and "get_organization_by_wallet (ch_wallet c) s = Inr g"
    and "consume_challenge (c\<lparr>ch_consumed_at := Some now\<rparr>) s = Inr s1"
    and "new_session H R (org_id g) (ch_wallet c) now = Inr (x, token)" and "t = save_session x s1"
    and "r = \<lparr>sr_token = token, sr_organization_id = se_organization_id x, sr_wallet = se_wallet x,
      sr_expires_at = se_expires_at x\<rparr>"
proof -
  have tx: "verify_sign_in_tx K H R now nonce signature s = Inr (r, t)"
    using assms by (auto simp: verify_sign_in_def in_tx_Inr split: if_splits)
  then obtain c where c: "get_challenge nonce s = Inr c" "\<not> challenge_consumed c" "\<not> challenge_expired now c"
    by (auto simp: verify_sign_in_tx_def split: sum.splits if_splits)
  from tx show thesis
    by (auto simp: verify_sign_in_tx_def c result_simps by_wallet_def split: sum.splits intro!: that [OF c])
qed

lemma register_cases:
  assumes "register K H U auto_approve rq p s = (Inr g, t)"
  obtains c g0 s1 s2 e where "get_challenge (rg_nonce p) s = Inr c" and "\<not> challenge_consumed c"
    and "\<not> challenge_expired (rq_now rq) c"
    and "verify_signature K (ch_wallet c) (challenge_message c) (rg_signature p) = Inr ()"
    and "new_organization \<lparr>nop_id = rq_ids rq 0, nop_type = rg_type p, nop_name = rg_name p,
      nop_wallet = ch_wallet c\<rparr> (rq_now rq) = Inr g0"
    and "(if auto_approve then org_approve (rq_now rq) g0 else Inr g0) = Inr g"
    and "consume_challenge (c\<lparr>ch_consumed_at := Some (rq_now rq)\<rparr>) s = Inr s1"
    and "create_organization g s1 = Inr s2" and "record_event e s2 = Inr t" and "rg_type p \<noteq> org_type_string OrgOperator"
    and "ev_actor e = uuid_string U (org_id g)" and "ev_action e = action_registered"
proof -
  have tx: "register_tx K H U auto_approve rq p s = Inr (g, t)" and o: "rg_type p \<noteq> org_type_string OrgOperator"
    using assms by (auto simp: register_def in_tx_Inr split: if_splits)
  then obtain c where c: "get_challenge (rg_nonce p) s = Inr c" "\<not> challenge_consumed c"
    "\<not> challenge_expired (rq_now rq) c"
    by (auto simp: register_tx_def split: sum.splits if_splits)
  from tx obtain g0 s1 s2 where run: "verify_signature K (ch_wallet c) (challenge_message c) (rg_signature p) = Inr ()"
    "new_organization \<lparr>nop_id = rq_ids rq 0, nop_type = rg_type p, nop_name = rg_name p,
      nop_wallet = ch_wallet c\<rparr> (rq_now rq) = Inr g0"
    "(if auto_approve then org_approve (rq_now rq) g0 else Inr g0) = Inr g"
    "consume_challenge (c\<lparr>ch_consumed_at := Some (rq_now rq)\<rparr>) s = Inr s1" "create_organization g s1 = Inr s2"
    "record_organization H U rq (org_id g) action_registered None g
       [(''type'', DetailText (org_type_string (org_type g))), (''wallet'', DetailText (org_wallet g)),
        (''auto_approved'', DetailBool auto_approve)] s2 = Inr t"
    unfolding register_tx_def by (auto simp: c result_simps)
  from run(6) show thesis
    unfolding record_organization_def
    by (rule that [OF c run(1-5) _ o]) (simp_all add: with_detail_def event_of_def)
qed

lemma decide_cases:
  assumes "decide H U rq who i action f s = (Inr g', t)"
  obtains g s1 e where "ac_operator who" and "get_organization i s = Inr g" and "f g = Inr g'"
    and "update_organization g' (org_version g) s = Inr s1" and "record_event e s1 = Inr t"
    and "ev_actor e = uuid_string U (ac_organization_id who)" and "ev_action e = action"
proof -
  have tx: "decide_tx H U rq who i action f s = Inr (g', t)" and o: "ac_operator who"
    using assms by (auto simp: decide_def in_tx_Inr split: if_splits)
  from tx obtain g s1 where run: "get_organization i s = Inr g" "f g = Inr g'" "update_organization g' (org_version g) s = Inr s1"
    "record_organization H U rq (ac_organization_id who) action (Some g) g'
       [(''eligibility'', DetailText (eligibility_string (org_eligibility g'))),
        (''reason'', DetailText (org_reason g'))] s1 = Inr t"
    unfolding decide_tx_def by (auto simp: result_simps)
  from run(4) show thesis
    unfolding record_organization_def
    by (rule that [OF o run(1-3)]) (simp_all add: with_detail_def event_of_def)
qed

text \<open>A refused operation leaves the challenges alone.\<close>

lemma refused_entry:
  "verify_sign_in K H R now nonce signature s = (Inl e, t) \<Longrightarrow> db_challenges t = db_challenges s"
  "register K H U auto_approve rq p s = (Inl e, t) \<Longrightarrow> db_challenges t = db_challenges s"
  by (auto simp: verify_sign_in_def register_def rollback_def dest!: in_tx_Inl split: if_splits)

section \<open>Runs\<close>

text \<open>
  What may happen between two requests: anything the identity module does to the challenges, and anything else that
  leaves them alone. A run remembers the nonces it minted.
\<close>

inductive entry_step :: "crypto_ops \<Rightarrow> (string \<Rightarrow> string) \<Rightarrow> uuid_ops \<Rightarrow> string set \<Rightarrow> 'd store \<Rightarrow> 'd store \<Rightarrow> bool"
  for K H U where
  entry_challenge: "request_challenge R wallet now s = (Inr r, t) \<Longrightarrow> entry_step K H U {cr_nonce r} s t"
| entry_verify: "verify_sign_in K H R now nonce signature s = (res, t) \<Longrightarrow> entry_step K H U {} s t"
| entry_register: "register K H U auto_approve rq p s = (answer, t) \<Longrightarrow> entry_step K H U {} s t"
| entry_purge: "purge_challenges now s = (removed, t) \<Longrightarrow> entry_step K H U {} s t"
| entry_other: "db_challenges t = db_challenges s \<Longrightarrow> entry_step K H U {} s t"

inductive entry_run :: "crypto_ops \<Rightarrow> (string \<Rightarrow> string) \<Rightarrow> uuid_ops \<Rightarrow> string set \<Rightarrow> 'd store \<Rightarrow> 'd store \<Rightarrow> bool"
  for K H U where
  entry_refl: "entry_run K H U {} s s"
| entry_more: "entry_run K H U M s t \<Longrightarrow> entry_step K H U m t u \<Longrightarrow> entry_run K H U (M \<union> m) s u"

definition challenges_sound :: "'d store \<Rightarrow> bool" where
  "challenges_sound s \<longleftrightarrow> keyed ch_nonce (db_challenges s) \<and>
     (\<forall>n c. map_of (db_challenges s) n = Some c \<longrightarrow> plain_wallet (ch_wallet c))"

definition nonce_spent :: "string \<Rightarrow> 'd store \<Rightarrow> bool" where
  "nonce_spent n s \<longleftrightarrow> (\<forall>c. map_of (db_challenges s) n = Some c \<longrightarrow> challenge_consumed c)"

lemma consume_challenge_effect:
  assumes "get_challenge n s = Inr c" and "consume_challenge (c\<lparr>ch_consumed_at := Some now\<rparr>) s = Inr s1"
    and "db_challenges t = db_challenges s1" and "challenges_sound s"
  shows "challenges_sound t \<and> nonce_spent n t \<and> (\<forall>m. nonce_spent m s \<longrightarrow> nonce_spent m t)"
proof -
  have c: "map_of (db_challenges s) n = Some c" using assms(1) by (simp add: get_challenge_def result_simps)
  then have n: "ch_nonce c = n" using assms(4) keyed_lookup [of ch_nonce "db_challenges s"] by (simp add: challenges_sound_def)
  have t: "db_challenges t = table_put n (c\<lparr>ch_consumed_at := Some now\<rparr>) (db_challenges s)"
    using assms(2,3) n by (auto simp: consume_challenge_def save_challenge_def result_simps)
  show ?thesis
    using assms(4) c n keyed_put [of ch_nonce "db_challenges s" "c\<lparr>ch_consumed_at := Some now\<rparr>"]
    by (auto simp: challenges_sound_def nonce_spent_def t challenge_consumed_def split: if_splits)
qed

lemma verify_effect:
  assumes "verify_sign_in K H R now n signature s = (Inr r, t)" and "challenges_sound s"
  shows "challenges_sound t \<and> nonce_spent n t \<and> (\<forall>m. nonce_spent m s \<longrightarrow> nonce_spent m t)"
  using assms(1)
proof (cases rule: verify_sign_in_cases)
  case (1 c g x s1 token)
  show ?thesis by (rule consume_challenge_effect [OF 1(1,6) _ assms(2)]) (simp add: 1(8) save_session_def)
qed

lemma register_effect:
  assumes "register K H U auto_approve rq p s = (Inr g, t)" and "challenges_sound s"
  shows "challenges_sound t \<and> nonce_spent (rg_nonce p) t \<and> (\<forall>m. nonce_spent m s \<longrightarrow> nonce_spent m t)"
  using assms(1)
proof (cases rule: register_cases)
  case (1 c g0 s1 s2 e)
  have "db_challenges t = db_challenges s1"
    using 1(8,9) by (auto simp: create_organization_def record_event_def result_simps split: if_splits)
  from consume_challenge_effect [OF 1(1,7) this assms(2)] show ?thesis .
qed

lemma unchanged_challenges:
  "db_challenges t = db_challenges s \<Longrightarrow> challenges_sound t = challenges_sound s \<and> nonce_spent n t = nonce_spent n s"
  by (simp add: challenges_sound_def nonce_spent_def)

lemma map_of_filter_keyed: "keyed key t \<Longrightarrow> map_of (filter P t) k = Some v \<Longrightarrow> map_of t k = Some v"
  by (auto simp: keyed_def map_of_eq_Some_iff distinct_map_filter dest: map_of_SomeD)

lemma entry_step_challenges:
  assumes "entry_step K H U m s t" and "challenges_sound s"
  shows "challenges_sound t \<and> (\<forall>n. nonce_spent n s \<longrightarrow> n \<notin> m \<longrightarrow> nonce_spent n t)"
  using assms
proof (induction rule: entry_step.induct)
  case (entry_challenge R wallet now s r t)
  from entry_challenge.hyps show ?case
  proof (cases rule: request_challenge_cases)
    case (1 c)
    then show ?thesis
      using entry_challenge.prems new_challenge_Inr [OF 1(1)]
      by (auto simp: challenges_sound_def nonce_spent_def save_challenge_def split: if_splits)
  qed
next
  case (entry_verify R now nonce signature s res t)
  show ?case
  proof (cases res)
    case (Inl e)
    from unchanged_challenges [OF refused_entry(1) [OF entry_verify.hyps [unfolded Inl]]] entry_verify.prems show ?thesis
      by blast
  next
    case (Inr r)
    from verify_effect [OF entry_verify.hyps [unfolded Inr] entry_verify.prems] show ?thesis by blast
  qed
next
  case (entry_register auto_approve rq p s answer t)
  show ?case
  proof (cases answer)
    case (Inl e)
    from unchanged_challenges [OF refused_entry(2) [OF entry_register.hyps [unfolded Inl]]] entry_register.prems show ?thesis
      by blast
  next
    case (Inr g)
    from register_effect [OF entry_register.hyps [unfolded Inr] entry_register.prems] show ?thesis by blast
  qed
next
  case (entry_purge now s removed t)
  have "db_challenges t = db_challenges s \<or> (\<exists>P. db_challenges t = filter P (db_challenges s))"
    using entry_purge.hyps
    by (auto simp: purge_challenges_def in_tx_def delete_expired_challenges_def rollback_def Let_def split: option.splits)
  then show ?case
    using entry_purge.prems keyed_filter map_of_filter_keyed by (fastforce simp: challenges_sound_def nonce_spent_def)
qed (simp add: challenges_sound_def nonce_spent_def)

lemma entry_run_challenges:
  assumes "entry_run K H U M s t" and "challenges_sound s"
  shows "challenges_sound t \<and> (\<forall>n. nonce_spent n s \<longrightarrow> n \<notin> M \<longrightarrow> nonce_spent n t)"
  using assms by (induction rule: entry_run.induct) (use entry_step_challenges in blast)+

lemma empty_challenges_sound: "challenges_sound empty_store"
  by (simp add: challenges_sound_def empty_store_def)

lemma spent_nonce_refused:
  assumes "nonce_spent n s" and "n \<noteq> []"
  shows "verify_sign_in K H R now n signature s = (Inl Unauthorized, rollback s)"
    and "rg_nonce p = n \<Longrightarrow> rg_type p \<noteq> org_type_string OrgOperator \<Longrightarrow>
      register K H U auto_approve rq p s = (Inl ErrForbidden, rollback s)"
  using assms
  by (auto simp: verify_sign_in_def register_def in_tx_def verify_sign_in_tx_def register_tx_def get_challenge_def
      fetch_def nonce_spent_def split: option.splits)

section \<open>Sessions and organizations\<close>

lemma random_hex_nonempty:
  assumes "\<forall>n bs. R n = Inr bs \<longrightarrow> length bs = n" and "random_hex R n = Inr token" and "n > 0"
  shows "token \<noteq> []"
proof -
  obtain bs where "R n = Inr bs" "token = hex_encode bs" using assms(2) by (auto simp: random_hex_def result_simps)
  moreover from assms(1) this(1) have "length bs = n" by blast
  ultimately have "length token = 2 * n" by (simp add: length_hex_encode)
  then show ?thesis using assms(3) by auto
qed

lemma new_session_Inr:
  assumes "new_session H R i w now = Inr (x, token)" and "plain_wallet w"
  shows "x = \<lparr>se_token_hash = hash_token H token, se_organization_id = i, se_wallet = w, se_issued_at = now,
      se_expires_at = now + session_ttl, se_revoked_at = None\<rparr>" and "random_hex R 32 = Inr token"
  using assms by (auto simp: new_session_def result_simps)

lemma consume_keeps_organizations:
  "consume_challenge c s = Inr t \<Longrightarrow> db_organizations t = db_organizations s \<and> db_sessions t = db_sessions s"
  by (auto simp: consume_challenge_def save_challenge_def result_simps)

lemma by_wallet_Inr [result_simps]:
  "by_wallet w s = Inr a \<longleftrightarrow> (\<exists>g. get_organization_by_wallet w s = Inr g \<and> a = \<lparr>acc_organization_id = org_id g,
     acc_wallet = org_wallet g, acc_eligible = is_eligible g, acc_operator = (org_type g = OrgOperator)\<rparr>)"
  by (auto simp: by_wallet_def and_then_Inr_iff)

lemma resolve_stored:
  assumes "get_session (hash_token H token) s = Inr x" and "token \<noteq> []"
    and "get_organization_by_wallet (se_wallet x) s = Inr g" and "org_id g = se_organization_id x"
  shows "resolve_token H later token s =
    (if session_active later x then Inr \<lparr>ca_organization_id = org_id g, ca_wallet = se_wallet x, ca_role = role_owner,
       ca_eligible = is_eligible g, ca_operator = (org_type g = OrgOperator)\<rparr> else Inl Unauthorized)"
  using assms by (simp add: resolve_token_def by_wallet_def)

lemma logged_out:
  assumes "logout H left token s = (Inr (), t)"
    and "\<And>x. get_session (hash_token H token) s = Inr x \<Longrightarrow> se_token_hash x = hash_token H token"
  shows "resolve_token H later token t = Inl Unauthorized"
proof (cases "token = []")
  case False
  then consider e where "t = s" "get_session (hash_token H token) s = Inl e"
    | x where "get_session (hash_token H token) s = Inr x" "t = revoke_session (revoke left x) s"
    using assms(1) by (auto simp: logout_def in_tx_Inr split: sum.splits if_splits)
  then show ?thesis
  proof cases
    case (2 x)
    have "se_token_hash (revoke left x) = hash_token H token"
      using assms(2) [OF 2(1)] by (simp add: revoke_def split: option.splits)
    then have "get_session (hash_token H token) t = Inr (revoke left x)"
      by (simp add: 2(2) revoke_session_def get_session_def fetch_def)
    then show ?thesis by (simp add: resolve_token_def revoke_inactive)
  qed (simp add: resolve_token_def)
qed (simp add: resolve_token_def)

text \<open>The row of an organization, found by its wallet and by its id.\<close>

lemma found_by_wallet:
  assumes "keyed org_id (db_organizations s)" and "get_organization_by_wallet w s = Inr g"
  shows "get_organization (org_id g) s = Inr g" and "org_wallet g = w"
proof -
  have g: "g \<in> set (table_rows (db_organizations s)) \<and> org_wallet g = w"
    using assms(2) by (auto simp: get_organization_by_wallet_def find_row_def find_Some_iff split: option.splits)
  then obtain k where "(k, g) \<in> set (db_organizations s)" by (auto simp: table_rows_def)
  then have "map_of (db_organizations s) k = Some g" using assms(1) by (simp add: keyed_def)
  then show "get_organization (org_id g) s = Inr g"
    using keyed_lookup [OF assms(1)] by (auto simp: get_organization_def fetch_def)
  from g show "org_wallet g = w" ..
qed

lemma update_new_key: "k \<notin> fst ` set t \<Longrightarrow> AList.update k v t = t @ [(k, v)]"
  by (induction t) auto

lemma created_by_wallet:
  assumes "create_organization g s = Inr t"
  shows "get_organization_by_wallet (org_wallet g) s = Inl ErrNotFound"
    and "get_organization_by_wallet (org_wallet g) t = Inr g"
proof -
  have new: "\<forall>r \<in> set (table_rows (db_organizations s)). org_wallet r \<noteq> org_wallet g"
    and "map_of (db_organizations s) (org_id g) = None"
    and t: "t = s\<lparr>db_organizations := table_put (org_id g) g (db_organizations s)\<rparr>"
    using assms by (auto simp: create_organization_def list_ex_iff split: if_splits)
  then have rows: "table_rows (db_organizations t) = table_rows (db_organizations s) @ [g]"
    by (simp add: table_put_def table_rows_def update_new_key map_of_eq_None_iff)
  from new have "find (\<lambda>r. org_wallet r = org_wallet g) (table_rows (db_organizations s)) = None"
    by (simp add: find_None_iff)
  moreover have "find P (xs @ [y]) = Some y" if "find P xs = None" "P y" for P xs and y :: organization
    using that by (induction xs) (auto split: if_splits)
  ultimately show "get_organization_by_wallet (org_wallet g) s = Inl ErrNotFound"
    and "get_organization_by_wallet (org_wallet g) t = Inr g"
    by (simp_all add: get_organization_by_wallet_def find_row_def rows)
qed

lemma resolve_token_Inr:
  assumes "resolve_token H now token s = Inr a"
  obtains x g where "get_session (hash_token H token) s = Inr x" and "session_active now x"
    and "get_organization_by_wallet (se_wallet x) s = Inr g" and "org_id g = se_organization_id x"
    and "a = \<lparr>ca_organization_id = org_id g, ca_wallet = se_wallet x, ca_role = role_owner,
      ca_eligible = is_eligible g, ca_operator = (org_type g = OrgOperator)\<rparr>"
  using assms by (auto simp: resolve_token_def by_wallet_Inr split: if_splits sum.splits)

lemma resolved_organization:
  assumes "resolve_token H now token s = Inr a" and "keyed org_id (db_organizations s)"
  obtains g where "get_organization (ca_organization_id a) s = Inr g" and "ca_eligible a = is_eligible g"
    and "ca_operator a \<longleftrightarrow> org_type g = OrgOperator" and "org_wallet g = ca_wallet a"
  using assms(1)
proof (cases rule: resolve_token_Inr)
  case (1 x g)
  show thesis using found_by_wallet [OF assms(2) 1(3)] by (intro that [of g]) (simp_all add: 1(5))
qed

lemma authenticated:
  assumes "authenticate H now cd s = a" and "\<not> caller_is_zero a"
  obtains token where "resolve_token H now token s = Inr a"
proof -
  have "resolve_request H now cd s = Inr a \<or> a = no_caller"
    using assms(1) by (auto simp: authenticate_def split: sum.splits if_splits)
  moreover have "caller_is_zero no_caller" by (simp add: caller_is_zero_def no_caller_def)
  ultimately have "resolve_request H now cd s = Inr a" and "a \<noteq> no_caller" using assms(2) by auto
  then show thesis using that by (auto simp: resolve_request_def split: if_splits option.splits)
qed

text \<open>An organization that was decided about, and the store it is in.\<close>

lemma decision_effect:
  assumes "(store_step H0)\<^sup>*\<^sup>* empty_store s" and "decide H U rq who i action f s = (Inr g, t)"
    and f: "\<And>v w. f v = Inr w \<Longrightarrow> org_exec c v = Inr w"
  shows "get_organization i t = Inr g \<and> keyed org_id (db_organizations t) \<and> ac_operator who \<and>
    (\<exists>e. db_events t = db_events s @ [e] \<and> ev_actor e = uuid_string U (ac_organization_id who) \<and> ev_action e = action)"
  using assms(2)
proof (cases rule: decide_cases)
  case (1 v s1 e)
  have keyed: "store_keyed s" using storage_constraints_hold [OF assms(1)] by blast
  have w: "reaches org_exec v g" using reaches_refl f [OF 1(3)] by (rule reaches_step)
  then have "sound_write H0 s s1" using write_organization [OF 1(2) _ 1(4)] by blast
  then have "store_keyed s1" using keyed store_keyed_step by (auto simp: sound_write_def)
  have "org_id v = i"
    using keyed_lookup [of org_id "db_organizations s" i v] keyed 1(2) by (simp add: store_keyed_def get_defs result_simps)
  then have "org_id g = i" using advanced_facts(1) [OF w] by (simp add: org_identity_def)
  then have "get_organization i s1 = Inr g" using organization_repo.read_back [OF 1(4)] by simp
  moreover have "t = s1\<lparr>db_events := db_events s1 @ [e]\<rparr>" using 1(5) by (auto simp: record_event_def result_simps)
  moreover have "db_events s1 = db_events s" using 1(4) by (auto simp: update_organization_def result_simps)
  ultimately show ?thesis
    using \<open>store_keyed s1\<close> 1(1,6,7) by (auto simp: get_organization_def store_keyed_def)
qed

text \<open>An entry about an organization is always recorded.\<close>

context uuid_lib
begin

lemma record_organization_valid:
  assumes "trim_space action \<noteq> []" and "rq_now rq \<noteq> 0"
  shows "\<exists>e. record_organization H U rq who action before g details s = Inr (s\<lparr>db_events := db_events s @ [e]\<rparr>)"
proof -
  have "trim_space organization_entity \<noteq> []" by code_simp
  then show ?thesis
    using assms by (simp add: record_organization_def record_event_def validate_event_Inr event_of_def result_simps) blast
qed

end

section \<open>A wallet to sign in with\<close>

definition sample_crypto :: crypto_ops where
  "sample_crypto = \<lparr>keccak = (\<lambda>_. replicate 32 (CHR 0xAA)), recover_key = (\<lambda>_ _. Some (replicate 65 (CHR 0x04)))\<rparr>"

definition sample_wallet :: string where "sample_wallet = ''0x'' @ replicate 40 CHR ''a''"
definition raw_signature :: string where "raw_signature = replicate 64 (CHR 0xAA) @ [CHR 0x1B]"
definition sample_signature :: string where "sample_signature = hex_encode raw_signature"
definition sample_random :: "nat \<Rightarrow> string result" where "sample_random n = Inr (replicate n (CHR 0x01))"

definition sample_challenge :: challenge where
  "sample_challenge = \<lparr>ch_nonce = hex_encode (replicate 16 (CHR 0x01)), ch_wallet = sample_wallet, ch_issued_at = 1,
     ch_expires_at = 1 + challenge_ttl, ch_consumed_at = None\<rparr>"

definition wallet_member :: organization where
  "wallet_member = \<lparr>org_id = 1, org_type = OrgIssuer, org_name = ''Acme'', org_wallet = sample_wallet,
     org_eligibility = EligPending, org_reason = [], org_chain_account = [], org_version = 1, org_created_at = 1,
     org_updated_at = 1\<rparr>"

lemma sample_plain: "plain_wallet sample_wallet"
proof -
  have "wallet_hex sample_wallet" by (simp add: wallet_hex_def sample_wallet_def list_all_iff hex_char_def lower_hex_char_def lower_char_def less_eq_char_def)
  moreover have "to_lower sample_wallet = sample_wallet" by (simp add: sample_wallet_def to_lower_def lower_char_def less_eq_char_def)
  ultimately show ?thesis by (simp add: plain_wallet_def wallet_hex_visible)
qed

lemma sample_decoded: "decode_signature sample_signature = Inr raw_signature"
proof -
  have "take 2 sample_signature \<noteq> ''0x''" by code_simp
  moreover have "trim_space sample_signature = sample_signature"
    unfolding sample_signature_def by (rule trim_space_visible [OF hex_encode_visible])
  moreover have "length raw_signature = signature_len" by (simp add: raw_signature_def signature_len_def)
  ultimately show ?thesis
    using hex_pairs_encode [of raw_signature] by (simp add: decode_signature_def Let_def flip: sample_signature_def)
qed

lemma sample_address: "''0x'' @ hex_encode (replicate 20 (CHR 0xAA)) = sample_wallet"
  by code_simp

lemma sample_signed: "verify_signature sample_crypto sample_wallet m sample_signature = Inr ()"
proof -
  have "raw_signature ! 64 = CHR 0x1B" by (simp add: raw_signature_def nth_append)
  then have "recover_address sample_crypto m sample_signature = Inr sample_wallet"
    using sample_address by (simp add: sample_decoded recover_address_def sample_crypto_def Let_def)
  then show ?thesis using sample_plain by (simp add: verify_signature_def plain_wallet_def)
qed

definition waiting_member :: "rat store" where
  "waiting_member = save_challenge sample_challenge (empty_store\<lparr>db_organizations := [(1, wallet_member)]\<rparr>)"

definition sample_nonce :: string where "sample_nonce = ch_nonce sample_challenge"

lemma sample_challenge_new: "new_challenge sample_random sample_wallet 1 = Inr sample_challenge"
  using sample_plain by (simp add: new_challenge_def random_hex_def sample_random_def sample_challenge_def)

lemma sample_nonce_text: "sample_nonce \<noteq> []"
  by (simp add: sample_nonce_def sample_challenge_def hex_encode_def)

lemma challenge_asked:
  "db_fail_commit s = None \<Longrightarrow> request_challenge sample_random sample_wallet 1 s =
    (Inr \<lparr>cr_nonce = sample_nonce, cr_message = challenge_message sample_challenge,
       cr_expires_at = ch_expires_at sample_challenge\<rparr>, save_challenge sample_challenge s)"
  by (simp add: request_challenge_def sample_challenge_new in_tx_def sample_nonce_def save_challenge_def)

lemma waiting_member_run: "entry_run K H U {sample_nonce} empty_store waiting_member"
proof -
  let ?s = "empty_store\<lparr>db_organizations := [(1, wallet_member)]\<rparr> :: rat store"
  have "entry_step K H U {} empty_store ?s" by (rule entry_other) simp
  with entry_refl have "entry_run K H U ({} \<union> {}) empty_store ?s" by (rule entry_more)
  moreover have "db_fail_commit ?s = None" by (simp add: empty_store_def)
  from entry_challenge [OF challenge_asked [OF this]] have "entry_step K H U {sample_nonce} ?s waiting_member"
    by (simp add: waiting_member_def)
  ultimately have "entry_run K H U (({} \<union> {}) \<union> {sample_nonce}) empty_store waiting_member" by (rule entry_more)
  then show ?thesis by simp
qed

definition sample_session :: "(string \<Rightarrow> string) \<Rightarrow> session" where
  "sample_session H = \<lparr>se_token_hash = hash_token H (hex_encode (replicate 32 (CHR 0x01))), se_organization_id = 1,
     se_wallet = sample_wallet, se_issued_at = 2, se_expires_at = 2 + session_ttl, se_revoked_at = None\<rparr>"

definition session_store :: "(string \<Rightarrow> string) \<Rightarrow> rat store" where
  "session_store H = save_session (sample_session H)
     (save_challenge (sample_challenge\<lparr>ch_consumed_at := Some 2\<rparr>) waiting_member)"

lemma waiting_facts:
  "get_challenge sample_nonce waiting_member = Inr sample_challenge"
  "get_organization_by_wallet sample_wallet waiting_member = Inr wallet_member"
  "consume_challenge (sample_challenge\<lparr>ch_consumed_at := Some 2\<rparr>) waiting_member =
    Inr (save_challenge (sample_challenge\<lparr>ch_consumed_at := Some 2\<rparr>) waiting_member)"
  by (simp_all add: waiting_member_def save_challenge_def get_challenge_def consume_challenge_def fetch_def sample_nonce_def
      get_organization_by_wallet_def find_row_def table_rows_def wallet_member_def challenge_consumed_def
      sample_challenge_def)

lemma sample_open: "\<not> challenge_consumed sample_challenge" "\<not> challenge_expired 2 sample_challenge"
  by (simp_all add: challenge_consumed_def challenge_expired_def sample_challenge_def challenge_ttl_def minutes_def)

lemma member_signs_in:
  "verify_sign_in sample_crypto H sample_random 2 sample_nonce sample_signature waiting_member =
    (Inr \<lparr>sr_token = hex_encode (replicate 32 (CHR 0x01)), sr_organization_id = 1, sr_wallet = sample_wallet,
       sr_expires_at = 2 + session_ttl\<rparr>, session_store H)"
proof -
  have wallet: "ch_wallet sample_challenge = sample_wallet" by (simp add: sample_challenge_def)
  have session: "new_session H sample_random 1 sample_wallet 2 = Inr (sample_session H, hex_encode (replicate 32 (CHR 0x01)))"
    using sample_plain by (simp add: new_session_def random_hex_def sample_random_def sample_session_def)
  have "consume 2 sample_challenge = Inr (sample_challenge\<lparr>ch_consumed_at := Some 2\<rparr>)"
    using sample_open by (simp add: consume_def)
  moreover have "org_id wallet_member = 1" by (simp add: wallet_member_def)
  ultimately have "verify_sign_in_tx sample_crypto H sample_random 2 sample_nonce sample_signature waiting_member =
    Inr (\<lparr>sr_token = hex_encode (replicate 32 (CHR 0x01)), sr_organization_id = 1, sr_wallet = sample_wallet,
       sr_expires_at = 2 + session_ttl\<rparr>, session_store H)"
    using sample_open session
    by (simp add: verify_sign_in_tx_def waiting_facts wallet sample_signed by_wallet_def session_store_def)
      (simp add: sample_session_def)
  moreover have "db_fail_commit (session_store H) = None"
    by (simp add: session_store_def save_session_def save_challenge_def waiting_member_def empty_store_def)
  ultimately show ?thesis using sample_nonce_text by (simp add: verify_sign_in_def in_tx_def)
qed

definition member_store :: "rat store" where
  "member_store = save_session (sample_session id) (empty_store\<lparr>db_organizations := [(1, wallet_member)]\<rparr>)"

definition sample_cookie :: credentials where
  "sample_cookie = \<lparr>cd_authorization = [], cd_cookie = Some (hex_encode (replicate 32 (CHR 0x01)))\<rparr>"

definition sample_decision :: request where
  "sample_decision = \<lparr>rq_now = 2, rq_trace = [], rq_ids = (\<lambda>_. 1)\<rparr>"

definition sample_operator :: actor where "sample_operator = \<lparr>ac_organization_id = 9, ac_operator = True\<rparr>"

definition sample_caller :: "bool \<Rightarrow> caller" where
  "sample_caller b = \<lparr>ca_organization_id = 1, ca_wallet = sample_wallet, ca_role = role_owner, ca_eligible = b,
     ca_operator = False\<rparr>"

lemma sample_caller_facts [simp]:
  "ca_organization_id (sample_caller b) = 1" "(1 :: uuid) \<noteq> uuid_nil" "ca_eligible (sample_caller b) = b"
  by (simp_all add: sample_caller_def)

lemma member_authenticated:
  assumes "db_sessions s = db_sessions member_store" and "db_organizations s = [(1, g)]"
    and "org_id g = 1" and "org_wallet g = sample_wallet" and "org_type g = OrgIssuer"
  shows "authenticate id 3 sample_cookie s = sample_caller (is_eligible g)"
proof -
  let ?token = "hex_encode (replicate 32 (CHR 0x01))"
  have "get_session (hash_token id ?token) s = Inr (sample_session id)"
    by (simp add: get_session_def assms(1) member_store_def save_session_def fetch_def sample_session_def)
  moreover have "get_organization_by_wallet (se_wallet (sample_session id)) s = Inr g"
    using assms by (simp add: get_organization_by_wallet_def find_row_def table_rows_def sample_session_def)
  moreover have "session_active 3 (sample_session id)"
    by (simp add: session_active_def sample_session_def session_ttl_def hours_def)
  moreover have "?token \<noteq> []" by (simp add: hex_encode_def)
  moreover have "org_id g = se_organization_id (sample_session id)" by (simp add: sample_session_def assms(3))
  ultimately have "resolve_token id 3 ?token s = Inr (sample_caller (is_eligible g))"
    using resolve_stored [of id ?token s "sample_session id" g 3] assms(3,5)
    by (simp add: sample_caller_def) (simp add: sample_session_def)
  then show ?thesis
    by (simp add: authenticate_def resolve_request_def bearer_token_def sample_cookie_def caller_is_zero_def)
qed

lemma member_resolves: "authenticate id 3 sample_cookie member_store = sample_caller False"
proof -
  have "\<not> is_eligible wallet_member" by (simp add: is_eligible_def wallet_member_def)
  moreover have "db_organizations member_store = [(1, wallet_member)]" by (simp add: member_store_def save_session_def)
  ultimately show ?thesis using member_authenticated [of member_store wallet_member] by (simp add: wallet_member_def)
qed

lemma member_store_reached: "(store_step H)\<^sup>*\<^sup>* empty_store member_store"
proof -
  let ?s = "empty_store\<lparr>db_organizations := [(1, wallet_member)]\<rparr> :: rat store"
  have "create_organization wallet_member empty_store = Inr ?s"
    by (simp add: create_organization_def empty_store_def table_rows_def table_put_def wallet_member_def)
  from step_create_organization [OF this] step_session [of H ?s "sample_session id"] show ?thesis
    unfolding member_store_def by (meson r_into_rtranclp rtranclp.rtrancl_into_rtrancl)
qed

lemma member_approved:
  "\<exists>g t. approve_organization id rfc_uuid sample_decision sample_operator 1 member_store = (Inr g, t) \<and>
    authenticate id 3 sample_cookie t = sample_caller True"
proof -
  define g where "g = org_touch 2 (wallet_member\<lparr>org_eligibility := EligEligible, org_reason := []\<rparr>)"
  define s1 where "s1 = member_store\<lparr>db_organizations := [(1, g)]\<rparr>"
  have approve: "org_approve 2 wallet_member = Inr g" by (simp add: org_approve_def g_def wallet_member_def)
  have here: "get_organization 1 member_store = Inr wallet_member"
    by (simp add: get_organization_def fetch_def member_store_def save_session_def)
  have store: "update_organization g (org_version wallet_member) member_store = Inr s1"
    by (simp add: update_organization_def versioned_put_def fetch_def member_store_def save_session_def table_put_def
        g_def s1_def wallet_member_def org_touch_def)
  have "trim_space action_org_approved \<noteq> []" by code_simp
  then obtain e where entry: "record_organization id rfc_uuid sample_decision 9 action_org_approved (Some wallet_member) g
      [(''eligibility'', DetailText (eligibility_string (org_eligibility g))), (''reason'', DetailText (org_reason g))] s1 =
      Inr (s1\<lparr>db_events := db_events s1 @ [e]\<rparr>)"
    using rfc.record_organization_valid [where rq = sample_decision] by (fastforce simp: sample_decision_def)
  let ?t = "s1\<lparr>db_events := db_events s1 @ [e]\<rparr>"
  have tx: "decide_tx id rfc_uuid sample_decision sample_operator 1 action_org_approved (org_approve 2) member_store = Inr (g, ?t)"
    using entry by (simp add: decide_tx_def here approve store sample_operator_def)
  have "db_fail_commit ?t = None" by (simp add: s1_def member_store_def save_session_def empty_store_def)
  then have "approve_organization id rfc_uuid sample_decision sample_operator 1 member_store = (Inr g, ?t)"
    using tx by (simp add: approve_organization_def decide_def in_tx_def sample_operator_def)
      (simp add: sample_decision_def)
  moreover have "authenticate id 3 sample_cookie ?t = sample_caller (is_eligible g)"
    by (rule member_authenticated) (simp_all add: s1_def g_def org_touch_def wallet_member_def)
  moreover have "is_eligible g" by (simp add: g_def org_touch_def is_eligible_def)
  ultimately show ?thesis by auto
qed

definition sample_registration :: register_params where
  "sample_registration = \<lparr>rg_nonce = sample_nonce, rg_signature = sample_signature, rg_type = ''ISSUER'', rg_name = ''Acme''\<rparr>"

definition challenged_store :: "rat store" where
  "challenged_store = save_challenge sample_challenge empty_store"

lemma challenged_run: "entry_run K H U {sample_nonce} empty_store challenged_store"
proof -
  have "db_fail_commit (empty_store :: rat store) = None" by (simp add: empty_store_def)
  from entry_challenge [OF challenge_asked [OF this]]
  have "entry_step K H U {sample_nonce} empty_store challenged_store" by (simp add: challenged_store_def)
  with entry_refl have "entry_run K H U ({} \<union> {sample_nonce}) empty_store challenged_store" by (rule entry_more)
  then show ?thesis by simp
qed

lemma member_registers:
  "\<exists>g t. register sample_crypto id rfc_uuid False sample_decision sample_registration challenged_store = (Inr g, t)"
proof -
  let ?g = "wallet_member\<lparr>org_created_at := 2, org_updated_at := 2\<rparr>"
  let ?s1 = "save_challenge (sample_challenge\<lparr>ch_consumed_at := Some 2\<rparr>) challenged_store"
  let ?s2 = "?s1\<lparr>db_organizations := [(1, ?g)]\<rparr>"
  have wallet: "ch_wallet sample_challenge = sample_wallet" by (simp add: sample_challenge_def)
  have here: "get_challenge sample_nonce challenged_store = Inr sample_challenge"
    by (simp add: challenged_store_def save_challenge_def get_challenge_def fetch_def sample_nonce_def)
  have "trim_space ''Acme'' = ''Acme''" by code_simp
  then have new: "new_organization \<lparr>nop_id = 1, nop_type = ''ISSUER'', nop_name = ''Acme'', nop_wallet = sample_wallet\<rparr> 2 = Inr ?g"
    using sample_plain
    by (simp add: new_organization_def plain_wallet_def org_parse_type_def org_type_names_def check_name_def
        max_name_len_def checked_def violation_def wallet_member_def)
  have use: "consume_challenge (sample_challenge\<lparr>ch_consumed_at := Some 2\<rparr>) challenged_store = Inr ?s1"
    by (simp add: consume_challenge_def challenged_store_def save_challenge_def fetch_def challenge_consumed_def sample_challenge_def)
  have create: "create_organization ?g ?s1 = Inr ?s2"
    by (simp add: create_organization_def challenged_store_def save_challenge_def empty_store_def table_rows_def
        table_put_def wallet_member_def)
  have "trim_space action_registered \<noteq> []" by code_simp
  then obtain e where entry: "record_organization id rfc_uuid sample_decision (org_id ?g) action_registered None ?g
       [(''type'', DetailText (org_type_string (org_type ?g))), (''wallet'', DetailText (org_wallet ?g)),
        (''auto_approved'', DetailBool False)] ?s2 = Inr (?s2\<lparr>db_events := db_events ?s2 @ [e]\<rparr>)"
    using rfc.record_organization_valid [where rq = sample_decision] by (fastforce simp: sample_decision_def)
  have "consume 2 sample_challenge = Inr (sample_challenge\<lparr>ch_consumed_at := Some 2\<rparr>)"
    using sample_open by (simp add: consume_def)
  then have tx: "register_tx sample_crypto id rfc_uuid False sample_decision sample_registration challenged_store =
      Inr (?g, ?s2\<lparr>db_events := db_events ?s2 @ [e]\<rparr>)"
    using entry sample_open new use create
    by (simp add: register_tx_def here wallet sample_signed sample_registration_def sample_decision_def)
  have "db_fail_commit (?s2\<lparr>db_events := db_events ?s2 @ [e]\<rparr>) = None"
    by (simp add: challenged_store_def save_challenge_def empty_store_def)
  then show ?thesis
    using tx sample_nonce_text
    by (simp add: register_def in_tx_def) (simp add: sample_registration_def org_type_string_def org_type_names_def)
qed

section \<open>Properties\<close>

text \<open>C33: A challenge is spent once. When a nonce bought a session, or registered an organization, then after
  anything else the program does, a signature over that nonce buys nothing again, neither a session nor an
  organization, as long as no new challenge was minted under the same nonce; that the challenges are swept away changes
  nothing about it.\<close>

theorem spent_nonce_stays_spent:
  assumes "entry_run K H U before empty_store s"
    and "(\<exists>R now signature r. verify_sign_in K H R now nonce signature s = (Inr r, t)) \<or>
      (\<exists>auto_approve rq p g. rg_nonce p = nonce \<and> register K H U auto_approve rq p s = (Inr g, t))"
    and "entry_run K H U minted t u" and "nonce \<notin> minted"
  shows "verify_sign_in K H R' now' nonce signature' u = (Inl Unauthorized, rollback u) \<and>
    fst (register K H U auto_approve' rq' (p\<lparr>rg_nonce := nonce\<rparr>) u) = Inl ErrForbidden"
proof -
  have s: "challenges_sound s" using entry_run_challenges [OF assms(1) empty_challenges_sound] by blast
  have "nonce \<noteq> []" using assms(2) by (auto simp: verify_sign_in_def register_def split: if_splits)
  moreover have "challenges_sound t \<and> nonce_spent nonce t"
    using assms(2) verify_effect [OF _ s] register_effect [OF _ s] by blast
  then have "nonce_spent nonce u" using entry_run_challenges [OF assms(3)] assms(4) by blast
  ultimately show ?thesis
    using spent_nonce_refused [of nonce u] by (cases "rg_type p = org_type_string OrgOperator") (auto simp: register_def)
qed

theorem spent_nonce_stays_spent_witness:
  "\<exists>t u :: rat store. t = session_store id \<and>
     snd (verify_sign_in sample_crypto id sample_random 2 sample_nonce sample_signature waiting_member) = t \<and>
     snd (purge_challenges (hours 1) t) = u \<and> db_challenges u = [] \<and>
     verify_sign_in sample_crypto id sample_random (hours 1) sample_nonce sample_signature u =
       (Inl Unauthorized, rollback u)"
proof -
  define u where "u = snd (purge_challenges (hours 1) (session_store id))"
  have "db_challenges u = []"
    by (simp add: u_def purge_challenges_def in_tx_def delete_expired_challenges_def session_store_def save_session_def
        save_challenge_def waiting_member_def empty_store_def table_put_def sample_challenge_def challenge_ttl_def
        minutes_def hours_def)
  moreover have step: "entry_step sample_crypto id rfc_uuid {} (session_store id) u"
    by (rule entry_purge [of "hours 1" _ "fst (purge_challenges (hours 1) (session_store id))"]) (simp add: u_def)
  have "entry_run sample_crypto id rfc_uuid ({} \<union> {}) (session_store id) u"
    using entry_refl step by (rule entry_more)
  then have "verify_sign_in sample_crypto id sample_random (hours 1) sample_nonce sample_signature u =
      (Inl Unauthorized, rollback u)"
    using spent_nonce_stays_spent [OF waiting_member_run, where nonce = sample_nonce and t = "session_store id" and u = u
        and H = id and U = rfc_uuid and minted = "{} \<union> {}"] member_signs_in [of id]
    by blast
  ultimately show ?thesis using member_signs_in [of id] by (auto simp: u_def)
qed

text \<open>C34: A session speaks for the wallet that signed. A signature buys a session only when the challenge was minted,
  is neither spent nor over, the key that signed its message is the one of the wallet it names, and an organization is
  registered behind that wallet. The token then answers with that organization, its eligibility and its role, until it
  expires, and with nothing at all from then on or once it was logged out.\<close>

theorem session_speaks_for_the_wallet:
  assumes "entry_run K H U minted empty_store s" and "\<forall>n bs. R n = Inr bs \<longrightarrow> length bs = n"
    and "verify_sign_in K H R now nonce signature s = (Inr r, t)"
  shows "\<exists>c g a. get_challenge nonce s = Inr c \<and> ch_consumed_at c = None \<and> now \<le> ch_expires_at c \<and>
    recover_address K (challenge_message c) signature = Inr a \<and> to_lower a = ch_wallet c \<and>
    get_organization_by_wallet (ch_wallet c) s = Inr g \<and>
    (\<forall>later. resolve_token H later (sr_token r) t =
      (if later \<le> now + session_ttl
       then Inr \<lparr>ca_organization_id = org_id g, ca_wallet = ch_wallet c, ca_role = role_owner,
         ca_eligible = is_eligible g, ca_operator = (org_type g = OrgOperator)\<rparr>
       else Inl Unauthorized)) \<and>
    (\<forall>left u later. logout H left (sr_token r) t = (Inr (), u) \<longrightarrow> resolve_token H later (sr_token r) u = Inl Unauthorized)"
  using assms(3)
proof (cases rule: verify_sign_in_cases)
  case (1 c g x s1 token)
  have "challenges_sound s" using entry_run_challenges [OF assms(1) empty_challenges_sound] by blast
  then have w: "plain_wallet (ch_wallet c)" using 1(1) by (auto simp: challenges_sound_def get_challenge_def result_simps fetch_def split: option.splits)
  obtain a where a: "recover_address K (challenge_message c) signature = Inr a" "to_lower a = ch_wallet c"
    using verify_signature_Inr [OF 1(4)] w by (auto simp: plain_wallet_def)
  have r: "sr_token r = token" by (simp add: 1(9))
  have x: "se_token_hash x = hash_token H token" "se_wallet x = ch_wallet c" "se_organization_id x = org_id g"
    "session_active later x = (later \<le> now + session_ttl)" for later
    using new_session_Inr(1) [OF 1(7) w] by (auto simp: session_active_def)
  have token: "token \<noteq> []" using random_hex_nonempty [OF assms(2) new_session_Inr(2) [OF 1(7) w]] by simp
  have here: "get_session (hash_token H token) t = Inr x"
    by (simp add: 1(8) get_session_def save_session_def fetch_def x(1))
  have "db_organizations t = db_organizations s"
    using consume_keeps_organizations [OF 1(6)] by (simp add: 1(8) save_session_def)
  then have g: "get_organization_by_wallet (se_wallet x) t = Inr g"
    using 1(5) x(2) by (simp add: get_organization_by_wallet_def)
  have "resolve_token H later token t =
      (if later \<le> now + session_ttl
       then Inr \<lparr>ca_organization_id = org_id g, ca_wallet = ch_wallet c, ca_role = role_owner,
         ca_eligible = is_eligible g, ca_operator = (org_type g = OrgOperator)\<rparr>
       else Inl Unauthorized)" for later
    unfolding resolve_stored [OF here token g x(3) [symmetric]] x(4) x(2) by simp
  moreover have "resolve_token H later token u = Inl Unauthorized" if "logout H left token t = (Inr (), u)" for left u later
    by (rule logged_out [OF that]) (use here x(1) in auto)
  ultimately show ?thesis
    using 1(1-3,5) a unfolding r by (auto simp: challenge_consumed_def challenge_expired_def)
qed

theorem session_speaks_for_the_wallet_witness:
  "\<exists>r t :: rat store. verify_sign_in sample_crypto id sample_random 2 sample_nonce sample_signature waiting_member = (Inr r, t) \<and>
     resolve_token id (hours 12) (sr_token r) t =
       Inr \<lparr>ca_organization_id = 1, ca_wallet = sample_wallet, ca_role = role_owner, ca_eligible = False,
         ca_operator = False\<rparr> \<and>
     resolve_token id (hours 13) (sr_token r) t = Inl Unauthorized"
proof -
  obtain c g where c: "get_challenge sample_nonce waiting_member = Inr c" "get_organization_by_wallet (ch_wallet c) waiting_member = Inr g"
    and resolved: "\<forall>later. resolve_token id later (hex_encode (replicate 32 (CHR 0x01))) (session_store id) =
      (if later \<le> 2 + session_ttl
       then Inr \<lparr>ca_organization_id = org_id g, ca_wallet = ch_wallet c, ca_role = role_owner,
         ca_eligible = is_eligible g, ca_operator = (org_type g = OrgOperator)\<rparr>
       else Inl Unauthorized)"
    using session_speaks_for_the_wallet [OF waiting_member_run _ member_signs_in [of id]]
    by (auto simp: sample_random_def)
  have "ch_wallet c = sample_wallet" using c(1) by (auto simp: waiting_facts sample_challenge_def)
  moreover from this have "g = wallet_member" using c(2) by (simp add: waiting_facts)
  ultimately show ?thesis
    using member_signs_in [of id] resolved
    by (auto simp: wallet_member_def is_eligible_def hours_def session_ttl_def)
qed





end
