(* ===== verification/Platform.thy ===== *)
theory Platform
  imports Workers Market_Facts Service_Facts Sign_In_Facts Documents_Facts
begin

text \<open>
  The whole platform over one storage: every operation of every service and every pass of the dispatcher over the
  workers' handlers, wired as \<^verbatim>\<open>cmd/factorflow/main.go\<close> wires them. Whatever they do, in whatever order, the storage
  keeps its constraints and its rows stay sound.
\<close>

section \<open>Writes of the entrance\<close>

lemma sign_in_writes:
  "request_challenge R wallet now s = (r0, t) \<Longrightarrow> writes H s t"
  "verify_sign_in K H' R now nonce signature s = (r1, t) \<Longrightarrow> writes H s t"
  "logout H' now token s = (r2, t) \<Longrightarrow> writes H s t"
  "purge_challenges now s = (r3, t) \<Longrightarrow> writes H s t"
proof -
  show "writes H s t" if "request_challenge R wallet now s = (r0, t)"
    using that
    by (auto simp: request_challenge_def split: sum.splits elim!: in_tx_writes intro: r_into_rtranclp write_plain)
  show "writes H s t" if "verify_sign_in K H' R now nonce signature s = (r1, t)"
  proof (cases "nonce = []")
    case False
    with that have "in_tx (verify_sign_in_tx K H' R now nonce signature) s = (r1, t)" by (simp add: verify_sign_in_def)
    then show ?thesis
    proof (rule in_tx_writes)
      fix x u
      assume "verify_sign_in_tx K H' R now nonce signature s = Inr (x, u)"
      then obtain c s1 se where "consume_challenge c s = Inr s1" "u = save_session se s1"
        by (auto simp: verify_sign_in_tx_def and_then_Inr_iff split: sum.splits if_splits)
      then show "writes H s u" using two_writes [OF write_consume write_plain(9)] by blast
    qed
  qed (use that in \<open>simp add: verify_sign_in_def\<close>)
  show "writes H s t" if "logout H' now token s = (r2, t)"
  proof (cases "token = []")
    case False
    with that have "in_tx (\<lambda>s.
       case get_session (hash_token H' token) s of
         Inl e \<Rightarrow> if is_not_found e then Inr ((), s) else Inl e
       | Inr x \<Rightarrow> Inr ((), revoke_session (revoke now x) s)) s = (r2, t)" by (simp add: logout_def)
    then show ?thesis
      by (rule in_tx_writes) (auto intro: r_into_rtranclp [of "sound_write H", OF write_plain(10)] split: sum.splits if_splits)
  qed (use that in \<open>simp add: logout_def\<close>)
  show "writes H s t" if "purge_challenges now s = (r3, t)"
  proof (rule in_tx_writes [OF that [unfolded purge_challenges_def]])
    fix x u
    assume "Inr (delete_expired_challenges now s) = Inr (x, u)"
    then have "u = snd (delete_expired_challenges now s)" by (metis Inr_inject snd_conv)
    then show "writes H s u" by (simp add: r_into_rtranclp write_plain(8))
  qed
qed

lemma register_writes:
  assumes "register K H' U auto_approve rq p s = (r, t)" shows "writes H s t"
proof (cases r)
  case (Inl e)
  then have "t = s \<or> t = rollback s" using assms by (auto simp: register_def dest: in_tx_Inl split: if_splits)
  then show ?thesis by (auto intro: r_into_rtranclp write_plain)
next
  case (Inr g)
  from assms [unfolded Inr] show ?thesis
  proof (cases rule: register_cases)
    case (1 c g0 s1 s2 e)
    have "org_sound g"
      using new_organization_sound [OF 1(5)] 1(6) org_sound_step(1) [of "OrgApprove (rq_now rq)" g0 g]
      by (cases auto_approve) auto
    from write_consume [OF 1(7)] write_create_organization [OF 1(8) this] write_event [OF 1(9)]
    show ?thesis by (meson converse_rtranclp_into_rtranclp r_into_rtranclp)
  qed
qed

lemma decide_writes:
  assumes "decide H' U rq who i action f s = (r, t)" and f: "\<And>v w. f v = Inr w \<Longrightarrow> org_exec c v = Inr w"
  shows "writes H s t"
proof (cases r)
  case (Inl e)
  then have "t = s \<or> t = rollback s" using assms(1) by (auto simp: decide_def dest: in_tx_Inl split: if_splits)
  then show ?thesis by (auto intro: r_into_rtranclp write_plain)
next
  case (Inr g)
  from assms(1) [unfolded Inr] show ?thesis
  proof (cases rule: decide_cases)
    case (1 v s1 e)
    have "reaches org_exec v g" using reaches_refl f [OF 1(3)] by (rule reaches_step)
    from two_writes [OF write_organization [OF 1(2) this 1(4)] write_event [OF 1(5)]] show ?thesis .
  qed
qed

lemma upload_writes:
  assumes "upload H' U rq who p s = (r, t)" shows "writes H s t"
proof (cases "up_ciphertext p = []")
  case False
  with assms have "in_tx (upload_tx H' U rq who p) s = (r, t)" by (simp add: upload_def)
  then show ?thesis
  proof (rule in_tx_writes)
    fix x u
    assume "upload_tx H' U rq who p s = Inr (x, u)"
    then obtain v w b d s1 e where run: "get_invoice (up_invoice_id p) s = Inr v" "mark_uploaded (rq_now rq) v = Inr w"
      "update_invoice w (inv_version v) (save_document d (put_blob b s)) = Inr s1" "record_event e s1 = Inr u"
      by (auto simp: upload_tx_def and_then_Inr_iff owned_invoice_Inr)
    have here: "get_invoice (up_invoice_id p) (save_document d (put_blob b s)) = Inr v"
      using run(1) by (simp add: get_invoice_def save_document_def put_blob_def)
    have "inv_exec (MarkUploaded (rq_now rq)) v = Inr w" using run(2) by simp
    from write_invoice [OF here inv_command [OF this] run(3)]
    have "writes H (save_document d (put_blob b s)) u" using write_event [OF run(4)] by (rule two_writes)
    then show "writes H s u" using two_writes [OF write_plain(5) write_plain(2)] writes_trans by blast
  qed
qed (use assms in \<open>simp add: upload_def\<close>)

section \<open>What passes of the dispatcher keep\<close>

text \<open>
  An invariant of the storage that does not speak of the outbox, that a rollback keeps and every handler keeps, is kept
  by a pass.
\<close>

locale kept_by_handlers =
  fixes I :: "'d store \<Rightarrow> bool" and hs :: "string \<rightharpoonup> ('d, 'n) handler"
  assumes outbox_free: "I s \<Longrightarrow> I (s\<lparr>db_outbox := table\<rparr>)"
    and rolled_back: "I s \<Longrightarrow> I (rollback s)"
    and handled: "hs topic = Some h \<Longrightarrow> h event (s, n) = (r, t, n') \<Longrightarrow> I s \<Longrightarrow> I t"
begin

lemma booked:
  assumes "in_tx (\<lambda>s. and_then (f (db_outbox s)) (\<lambda>table. Inr ((), s\<lparr>db_outbox := table\<rparr>))) s = (r, t)" and "I s"
  shows "I t"
  using assms outbox_free rolled_back by (cases r) (auto simp: in_tx_Inr and_then_Inr_iff dest!: in_tx_Inl)

lemma failure_booked: "record_delivery_failure c now event cause res s = (res', t) \<Longrightarrow> I s \<Longrightarrow> I t"
  using outbox_free rolled_back by (auto simp: record_delivery_failure_def Let_def in_tx_def split: option.splits)

lemma delivered:
  assumes "deliver err_text c hs now event res (s, n) = (r, t, n')" and "I s" shows "I t"
proof (cases "hs (ob_topic event)")
  case None
  then show ?thesis using assms failure_booked by (auto simp: deliver_def Let_def split: prod.splits)
next
  case (Some h)
  obtain answer u k where h: "h event (s, n) = (answer, u, k)" by (metis prod.exhaust)
  have u: "I u" using handled [OF Some h assms(2)] .
  show ?thesis
  proof (cases answer)
    case (Inl e)
    obtain res' v where v: "record_delivery_failure c now event (err_text e) res u = (res', v)" by (metis prod.exhaust)
    have "t = v" using assms(1) Some h Inl v by (simp add: deliver_def)
    then show ?thesis using failure_booked [OF v u] by simp
  next
    case (Inr x)
    let ?tx = "in_tx (\<lambda>s. and_then (mark_delivered (ob_id event) now (db_outbox s)) (\<lambda>o'. Inr ((), s\<lparr>db_outbox := o'\<rparr>))) u"
    obtain done' v where v: "?tx = (done', v)" by (cases ?tx)
    have "t = v" using assms(1) by (cases done') (simp_all add: deliver_def Some h Inr v)
    then show ?thesis using booked [OF v u] by simp
  qed
qed

lemma all_delivered:
  assumes "deliver_all err_text c hs clock ctx k rows res (s, n) = (x, t, n')" and "I s" shows "I t"
  using assms
proof (induction rows arbitrary: k res s n)
  case (Cons event rows)
  obtain answer u m where d: "deliver err_text c hs (clock (Suc k)) event res (s, n) = (answer, u, m)" by (metis prod.exhaust)
  then have "I u" using delivered Cons.prems(2) by blast
  then show ?case
    using Cons.prems d Cons.IH by (auto split: option.splits sum.splits)
qed simp

lemma passed:
  assumes "run_once err_text c hs clock ctx (s, n) = (x, t, n')" and "I s" shows "I t"
  using assms all_delivered rolled_back
  by (auto simp: run_once_def in_tx_def split: option.splits)

end

section \<open>The storage is sound\<close>

definition storage_sound :: "(string \<Rightarrow> string) \<Rightarrow> 'd store \<Rightarrow> bool" where
  "storage_sound H s \<longleftrightarrow> store_keyed s \<and> store_unique H s \<and> rows_sound s"

lemma storage_sound_writes:
  assumes "writes H s t" and "storage_sound H s" shows "storage_sound H t"
proof -
  have "store_keyed t \<and> store_unique H t"
    using writes_steps [OF assms(1)] assms(2)
    by (induction rule: rtranclp_induct) (auto simp: storage_sound_def intro: store_keyed_step store_unique_step)
  then show ?thesis using writes_sound [OF assms(1)] assms(2) by (simp add: storage_sound_def)
qed

lemma storage_sound_outbox: "storage_sound H s \<Longrightarrow> storage_sound H (s\<lparr>db_outbox := table\<rparr>)"
  by (simp add: storage_sound_def store_keyed_def store_unique_def rows_sound_def)

lemma storage_sound_empty: "storage_sound H empty_store"
  by (simp add: storage_sound_def store_keyed_def store_unique_def rows_sound_def empty_store_def)

lemma worker_writes:
  assumes "worker_handlers err_text H' U D A issue ex rq topic = Some h" and "h event (s, w) = (r, t, w')" and "store_keyed s"
  shows "writes H s t"
proof -
  obtain n m a where w: "w = (n, m, a)" by (metis prod.exhaust)
  have keyed: "keyed stl_id (db_settlements s)" using assms(3) by (simp add: store_keyed_def)
  consider "h = assess_handler err_text H' D U A rq" | "h = issue_handler err_text U D issue rq" | "h = settle_handler err_text U ex rq"
    using assms(1) by (auto simp: worker_handlers_def split: if_splits)
  then show ?thesis
    by cases
      (use assms(2) w in \<open>auto simp: assess_handler_def issue_handler_def settle_handler_def split: prod.splits
        intro: handle_assess_writes handle_issue_writes handle_settle_writes [OF keyed]\<close>)
qed

lemma worker_keeps:
  assumes "worker_handlers err_text H' U D A issue ex rq topic = Some h" and "h event (s, w) = (r, t, w')" and "storage_sound H s"
  shows "storage_sound H t"
  using worker_writes [OF assms(1,2)] assms(3) storage_sound_writes [of H s t] by (simp add: storage_sound_def)

lemma storage_sound_rollback: "storage_sound H s \<Longrightarrow> storage_sound H (rollback s)"
  using storage_sound_writes r_into_rtranclp [of "sound_write H", OF write_plain(6)] by blast

interpretation workers_keep: kept_by_handlers "storage_sound H" "worker_handlers err_text H' U D A issue ex rq"
  for H err_text H' U D A issue ex rq
  by unfold_locales (fact storage_sound_outbox storage_sound_rollback worker_keeps)+

section \<open>The platform\<close>

text \<open>What \<^verbatim>\<open>main.go\<close> wires the services and the workers with.\<close>

record ('d, 'n, 'm, 'w) wiring =
  wi_text :: "app_error \<Rightarrow> string"
  wi_hash :: "string \<Rightarrow> string"
  wi_uuid :: uuid_ops
  wi_decimal :: "'d decimal_ops"
  wi_crypto :: crypto_ops
  wi_solver :: "'d solver"
  wi_executor :: "'n executor"
  wi_issuer :: "'m issuer"
  wi_assessor :: "('d, 'w) assessor"
  wi_dispatcher :: dispatcher_config
  wi_auto_approve :: bool

text \<open>One operation, by anybody, at any time, with any arguments, whatever comes of it.\<close>

inductive platform_step ::
  "('d, 'n, 'm, 'w) wiring \<Rightarrow> 'd store \<times> 'n \<times> 'm \<times> 'w \<Rightarrow> 'd store \<times> 'n \<times> 'm \<times> 'w \<Rightarrow> bool" for W where
  by_challenge: "request_challenge R wallet now s = (r0, t) \<Longrightarrow> platform_step W (s, w) (t, w)"
| by_sign_in: "verify_sign_in (wi_crypto W) (wi_hash W) R now nonce signature s = (r1, t) \<Longrightarrow> platform_step W (s, w) (t, w)"
| by_logout: "logout (wi_hash W) now token s = (r2, t) \<Longrightarrow> platform_step W (s, w) (t, w)"
| by_purge: "purge_challenges now s = (r3, t) \<Longrightarrow> platform_step W (s, w) (t, w)"
| by_register: "register (wi_crypto W) (wi_hash W) (wi_uuid W) (wi_auto_approve W) rq rp s = (r4, t) \<Longrightarrow>
    platform_step W (s, w) (t, w)"
| by_approve_organization: "approve_organization (wi_hash W) (wi_uuid W) rq who i s = (r5, t) \<Longrightarrow> platform_step W (s, w) (t, w)"
| by_reject_organization: "reject_organization (wi_hash W) (wi_uuid W) rq who i reason s = (r6, t) \<Longrightarrow>
    platform_step W (s, w) (t, w)"
| by_draft_invoice: "draft_invoice (wi_hash W) (wi_uuid W) rq who dp s = (r7, t) \<Longrightarrow> platform_step W (s, w) (t, w)"
| by_attach: "attach_document (wi_hash W) (wi_uuid W) rq who i np s = (r8, t) \<Longrightarrow> platform_step W (s, w) (t, w)"
| by_upload: "upload (wi_hash W) (wi_uuid W) rq who up s = (r9, t) \<Longrightarrow> platform_step W (s, w) (t, w)"
| by_request_assessment: "request_assessment (wi_hash W) (wi_uuid W) rq who i trace s = (r10, t) \<Longrightarrow>
    platform_step W (s, w) (t, w)"
| by_request_tokenization: "request_tokenization (wi_hash W) (wi_uuid W) rq who i trace s = (r11, t) \<Longrightarrow>
    platform_step W (s, w) (t, w)"
| by_approve: "approve_invoice (wi_hash W) (wi_uuid W) rq who i s = (r12, t) \<Longrightarrow> platform_step W (s, w) (t, w)"
| by_reject: "reject_invoice (wi_hash W) (wi_uuid W) rq who i reason s = (r13, t) \<Longrightarrow> platform_step W (s, w) (t, w)"
| by_draft_auction: "draft_auction (wi_hash W) (wi_uuid W) rq who bp s = (r14, t) \<Longrightarrow> platform_step W (s, w) (t, w)"
| by_start_auction: "start_auction (wi_hash W) (wi_uuid W) rq who i s = (r15, t) \<Longrightarrow> platform_step W (s, w) (t, w)"
| by_bid: "place_bid (wi_decimal W) (wi_uuid W) rq who eligible i offer s = (r16, t) \<Longrightarrow> platform_step W (s, w) (t, w)"
| by_withdraw_bid: "withdraw_bid (wi_uuid W) rq who i s = (r17, t) \<Longrightarrow> platform_step W (s, w) (t, w)"
| by_open_auction: "open_auction (wi_uuid W) rq who op s = (r18, t) \<Longrightarrow> platform_step W (s, w) (t, w)"
| by_cancel_auction: "cancel_auction (wi_uuid W) rq who i reason s = (r19, t) \<Longrightarrow> platform_step W (s, w) (t, w)"
| by_clear_auction: "clear_auction (wi_hash W) (wi_decimal W) (wi_uuid W) (wi_solver W) rq who i s = Some (r20, t) \<Longrightarrow>
    platform_step W (s, w) (t, w)"
| by_settle_auction: "settle_auction (wi_hash W) (wi_uuid W) (wi_decimal W) rq who i trace s = (r21, t) \<Longrightarrow>
    platform_step W (s, w) (t, w)"
| by_payment: "record_payment (wi_hash W) (wi_uuid W) (wi_decimal W) rq who pay s = (r22, t) \<Longrightarrow> platform_step W (s, w) (t, w)"
| by_default: "default_receivable (wi_hash W) (wi_uuid W) rq who i reason s = (r23, t) \<Longrightarrow> platform_step W (s, w) (t, w)"
| by_delivery: "deliver_result (wi_text W) (wi_hash W) (wi_decimal W) (wi_uuid W) (wi_assessor W) rq found (s, a) =
    (r24, t, a') \<Longrightarrow> platform_step W (s, n, m, a) (t, n, m, a')"
| by_pass: "run_once (wi_text W) (wi_dispatcher W)
      (worker_handlers (wi_text W) (wi_hash W) (wi_uuid W) (wi_decimal W) (wi_assessor W) (wi_issuer W) (wi_executor W) rq)
      clock ctx (s, w) = (r25, t, w') \<Longrightarrow> platform_step W (s, w) (t, w')"

lemma offered_command:
  "in_tx (mutate_invoice_tx H' U rq who i action_approved (inv_approve (rq_now rq))) s = (r, t) \<Longrightarrow> writes H s t"
  "in_tx (mutate_invoice_tx H' U rq who i action_rejected (inv_reject reason (rq_now rq))) s = (r, t) \<Longrightarrow> writes H s t"
  by (rule mutate_invoice_writes [where c = "Approve (rq_now rq)"]; simp)
    (rule mutate_invoice_writes [where c = "Reject reason (rq_now rq)"]; simp)

lemma platform_step_sound:
  assumes "platform_step W sw tw" and "storage_sound H (fst sw)" and "H = wi_hash W"
  shows "storage_sound H (fst tw)"
proof -
  have keyed: "store_keyed (fst sw)" "keyed inv_id (db_invoices (fst sw))"
    using assms(2) by (simp_all add: storage_sound_def store_keyed_def)
  have "writes H (fst sw) (fst tw) \<or> storage_sound H (fst tw)"
    using assms(1)
  proof cases
    case (by_pass rq clock ctx s w r25 t w')
    then show ?thesis using workers_keep.passed [OF by_pass(3), of H] assms(2) by simp
  next
    case (by_delivery rq found s a r24 t a' n m)
    then show ?thesis
      using complete_elsewhere_writes by (auto simp: deliver_result_def split: if_splits)
  qed (use keyed assms(3) in \<open>auto simp: approve_organization_def reject_organization_def approve_invoice_def reject_invoice_def
      intro: sign_in_writes register_writes upload_writes draft_invoice_writes attach_document_writes
        decide_writes [where c = "OrgApprove _"] decide_writes [where c = "OrgReject _ _"] offered_command
        request_writes [where q = True, simplified] request_writes [where q = False, simplified] draft_auction_writes start_auction_writes
        place_bid_writes withdraw_bid_writes open_auction_writes cancel_auction_writes clear_auction_writes
        settle_auction_writes record_payment_writes default_receivable_writes\<close>)
  then show ?thesis using storage_sound_writes assms(2) by blast
qed

definition sample_wiring :: "(rat, local_ledger, unit, unit) wiring" where
  "sample_wiring = \<lparr>wi_text = (\<lambda>e. ''failed''), wi_hash = id, wi_uuid = rfc_uuid, wi_decimal = rat_decimal,
     wi_crypto = sample_crypto, wi_solver = sample_solver,
     wi_executor = local_executor id 40, wi_issuer = local_issue id rfc_uuid, wi_assessor = sample_assessor,
     wi_dispatcher = sample_dispatcher, wi_auto_approve = False\<rparr>"

section \<open>Properties\<close>



end
