(* ===== verification/Spec2Isabelle.thy ===== *)
theory Spec2Isabelle
  imports Money_Facts Risk_Facts Invoice Redemption Settlement Search_Facts Organization Tokenization Executor
    Identity Workers Market_Facts Service_Facts Explanation_Facts Payments_Facts
    Agents_Facts Platform
begin

text \<open>
  FactorFlow is a venue for receivables, written in Go: an issuer uploads an invoice, a confidential workflow
  reports features of it, a published model scores and prices it, a token is issued for it, investors bid for it
  in a batch auction, a solver clears the batch, transfers deliver what was sold, and the debtor's payment
  is divided among the holders. This development models the code that decides: the aggregates, the model, the
  solver and its verifier, the storage they share, the services that tie them together, and the workers that run
  behind the outbox. Paths below are under \<^verbatim>\<open>src/internal\<close>.

  \<^bold>\<open>Foundations.\<close> \<open>Prelude\<close> has the errors of \<^verbatim>\<open>platform/apperr\<close> as
  the datatype of a sum (\<open>'a result\<close>, its sequencing \<open>and_then\<close>, \<open>checked\<close> for joined
  violations), 64-bit integers as \<open>int\<close> with the wrap written out (\<open>wrap64\<close>), and sorting by a strict
  order. \<open>Go_Strings\<close> has the functions of the standard library over byte strings.
  \<open>External\<close> holds what is not in the repository: UUIDs and the decimal package are records of operations,
  each with a locale of the documented laws and an interpretation on a reference instance. Hash functions are
  parameters. \<open>Lifecycle\<close> has instants (nanoseconds) and dates.

  \<^bold>\<open>Aggregates.\<close> \<open>Money\<close> (\<^verbatim>\<open>platform/money\<close>), \<open>Risk\<close>
  (\<^verbatim>\<open>risk\<close>), \<open>Invoice\<close>, \<open>Redemption\<close>, \<open>Settlement\<close>,
  \<open>Auction\<close>, \<open>Organization\<close>, \<open>Tokenization\<close>, \<open>Identity\<close> and \<open>Market_Data\<close> follow the
  packages of the same names. A struct is a record, a status an enumeration with its table of transitions, a
  command a function from the aggregate to a result. Reachability is an inductive relation whose
  steps are the commands; the theorems about it give the invariant of every reachable aggregate. The theories
  with \<open>_Facts\<close> in their names hold the longer proofs: exactness and rounding of amounts, bounds of an assessment,
  the weighted median of a snapshot.

  \<^bold>\<open>Clearing.\<close> \<open>Flow_Queue\<close>, \<open>Flow_Network\<close> and \<open>Flow_Solve\<close> model the
  min-cost flow of \<^verbatim>\<open>auction/mincostflow.go\<close>: the heap refines a priority queue, the
  augmentation keeps capacities and conservation. The outer loop is a \<open>partial_function\<close> because it may run for
  ever; so is the walk back from the sink, and an example shows it does. \<open>Solver\<close> and its facts model
  canonical form, branch and bound, the repairs and the materialisation; the loops have the budgets of the
  code. \<open>Verifier\<close> models \<^verbatim>\<open>auction/verifier.go\<close> and proves what an accepted
  solution satisfies. \<open>Search_Facts\<close> shows that clearing returns whenever the flow does and that what it returns
  passes the verifier. \<open>Certificate\<close> models the canonical text and its hash.

  \<^bold>\<open>Executors.\<close> \<open>Network\<close> and \<open>Executor\<close> model \<^verbatim>\<open>settlement/ports.go\<close>,
  \<^verbatim>\<open>settlement/hedera.go\<close> and \<^verbatim>\<open>platform/hedera\<close>: the in-process ledger, which refines a
  ledger that performs each operation once, the network executor, and the router between them.

  \<^bold>\<open>Storage.\<close> \<open>Store\<close> models the repositories of \<^verbatim>\<open>testsupport/memrepo\<close>
  as association lists in one record, with the constraints they enforce, and a transaction as a function that puts
  the previous contents back when its body or its commit fails. \<open>Store_Facts\<close> has their invariants. \<open>Audit_Log\<close>
  has the audit entries and the rows of the outbox. \<open>Application\<close> has what the services share, among it
  \<open>sound_write\<close>, the kind of write that keeps the storage keyed, unique and sound.

  \<^bold>\<open>Services and workers.\<close> \<open>Marketplace\<close> (opening, clearing and withdrawing a batch) and
  \<open>Settling\<close> (planning and driving transfers) model \<^verbatim>\<open>app/marketplace\<close>, \<open>Collections\<close>
  models \<^verbatim>\<open>app/collections\<close>, \<open>Issuance\<close> \<^verbatim>\<open>app/issuance\<close>, \<open>Dispatch\<close>
  \<^verbatim>\<open>platform/outbox\<close>, and \<open>Workers\<close> registers the handlers. \<open>Invoice_Service\<close> and
  \<open>Auction_Service\<close> model \<^verbatim>\<open>invoice/service.go\<close> and \<^verbatim>\<open>auction/service.go\<close>, the commands of issuers,
  investors and operators; \<open>Service_Facts\<close> shows what each of them writes, whom it answers and what it leaves in the
  outbox. \<open>Explanation\<close> models \<^verbatim>\<open>risk/explanation.go\<close> and the narrator that asks a language model for
  words about a price; \<open>Explanation_Facts\<close> shows that neither source of them cites a figure the assessment did not
  publish. \<open>Assessing\<close> models \<^verbatim>\<open>app/assessment/worker.go\<close> and the port of the confidential workflow, and
  \<open>Assessing_Facts\<close> shows that a price lands with its snapshot and its explanation or not at all. \<open>Payments\<close>
  models \<^verbatim>\<open>payments\<close>, the exchange in which a machine buys an answer with a transfer on a ledger, over the table
  of its SQL; \<open>Payments_Facts\<close> shows that every answer kept was paid for, that it stays the answer to its payment, and
  that a transaction pays the one quote its memo names. The codec of JSON and the ledger are parameters there. \<open>Documents\<close> models \<^verbatim>\<open>platform/objects\<close>,
  \<^verbatim>\<open>app/documents\<close>, \<^verbatim>\<open>app/confidential\<close> and \<^verbatim>\<open>app/reporting\<close>: the ciphertext of a receivable, the work
  handed to the confidential workflow, and who reads what; \<open>Documents_Facts\<close> shows that an upload is kept under the digest
  of its bytes and fetched unchanged, and which callers a receivable has for readers. \<open>Agents\<close> models
  \<^verbatim>\<open>app/agents\<close>, the answers a machine buys; \<open>Agents_Facts\<close> shows that a quote is the price the platform would
  assess and that a recommendation refuses a lot exactly when the solver would refuse the bid. An operation takes the caller, the
  request (clock, fresh ids, request id) and the store, and returns a result and a store; a worker also threads the
  state of the outside world. Handlers and executors are interfaces: the locales \<open>delivery\<close> and those of
  \<open>Settling_Facts\<close> state what is relied on, and they are interpreted on the handlers and the ledger of the model.

  \<^bold>\<open>Callers and the whole platform.\<close> \<open>Sign_In\<close> models \<^verbatim>\<open>identity/service.go\<close>, the
  resolver and the guards of \<^verbatim>\<open>platform/httpserver/actor.go\<close> and \<^verbatim>\<open>app/onboarding\<close>; random bytes and the
  cryptography of a signature are parameters. \<open>Sign_In_Facts\<close> shows that a nonce is spent once, that a token speaks for the
  wallet whose signature bought it, that a decision of an operator holds from the next request on, and that a registration
  proves its wallet. \<open>Platform\<close> puts the services and the dispatcher side by side in one relation
  (\<open>platform_step\<close>): the locale \<open>kept_by_handlers\<close>, interpreted on the registered handlers, carries what every
  operation keeps of the storage through a pass of the dispatcher, and every storage reachable from the empty one is sound.

  \<^bold>\<open>Not modelled.\<close> SQL, HTTP, the command line, configuration and logging are input and output; the
  in-memory repositories stand for the SQL ones, with the outbox queries taken from their SQL. Text wrapped
  around an error is not kept: an error is the sentinel it matches. Contexts are not modelled except where the dispatcher asks
  for cancellation. Goroutines are modelled as sequences of operations, each of them a unit of work. The jitter of
  a back-off is a function of the delay, since it is computed in floating point.
\<close>

end
